(* ===== verification/Prelude.thy ===== *)
theory Prelude
  imports Main "HOL-Library.Sublist"
begin

text \<open>
  What every component of the model shares: the operations of the language's strings, lists,
  sets and maps that the source uses, with the lemmas about them.

  A text of the program is a \<open>string\<close>: one \<open>char\<close> for each UTF-16 code unit, in the range
  0 to 255 (Latin-1). The language's own operations below (case folding, trimming, white space)
  are exact on that range. A \<open>Map\<close> of the language keeps its entries in the order their keys
  were first set, and is an association list here; a \<open>Set\<close> is a list without repetition.
\<close>

section \<open>Characters and strings\<close>

text \<open>White space as \<open>trim\<close> and the class \<open>\s\<close> of a regular expression know it.\<close>

definition js_space :: "char \<Rightarrow> bool" where
  "js_space c \<longleftrightarrow> c \<in> set [CHR 0x20, CHR 0x09, CHR 0x0A, CHR 0x0B, CHR 0x0C, CHR 0x0D, CHR 0xA0]"

definition char_nat :: "char \<Rightarrow> nat" where
  "char_nat c = of_char c"

definition is_digit :: "char \<Rightarrow> bool" where
  "is_digit c \<longleftrightarrow> 48 \<le> char_nat c \<and> char_nat c \<le> 57"

definition is_upper :: "char \<Rightarrow> bool" where
  "is_upper c \<longleftrightarrow> 65 \<le> char_nat c \<and> char_nat c \<le> 90"

definition is_lower :: "char \<Rightarrow> bool" where
  "is_lower c \<longleftrightarrow> 97 \<le> char_nat c \<and> char_nat c \<le> 122"

definition is_alnum :: "char \<Rightarrow> bool" where
  "is_alnum c \<longleftrightarrow> is_digit c \<or> is_upper c \<or> is_lower c"

text \<open>The class \<open>\w\<close> of a regular expression.\<close>

definition is_word :: "char \<Rightarrow> bool" where
  "is_word c \<longleftrightarrow> is_alnum c \<or> c = CHR ''_''"

definition lower_char :: "char \<Rightarrow> char" where
  "lower_char c =
     (let n = char_nat c
      in if (65 \<le> n \<and> n \<le> 90) \<or> (192 \<le> n \<and> n \<le> 222 \<and> n \<noteq> 215) then char_of (n + 32) else c)"

definition upper_char :: "char \<Rightarrow> char" where
  "upper_char c =
     (let n = char_nat c
      in if (97 \<le> n \<and> n \<le> 122) \<or> (224 \<le> n \<and> n \<le> 254 \<and> n \<noteq> 247) then char_of (n - 32) else c)"

definition to_lower :: "string \<Rightarrow> string" where
  "to_lower = map lower_char"

text \<open>
  \<open>toUpperCase\<close>: the sharp s is two letters in upper case; the two characters whose upper case lies
  outside the range stand as U+001A.
\<close>

definition upper_chars :: "char \<Rightarrow> string" where
  "upper_chars c =
     (if c = CHR 0xDF then ''SS'' else if c = CHR 0xB5 \<or> c = CHR 0xFF then [CHR 0x1A] else [upper_char c])"

definition to_upper :: "string \<Rightarrow> string" where
  "to_upper s = concat (map upper_chars s)"

definition trim :: "string \<Rightarrow> string" where
  "trim s = rev (dropWhile js_space (rev (dropWhile js_space s)))"

text \<open>\<open>startsWith\<close>, \<open>endsWith\<close> and \<open>contains\<close>.\<close>

definition starts_with :: "'a list \<Rightarrow> 'a list \<Rightarrow> bool" where
  "starts_with s p \<longleftrightarrow> take (length p) s = p"

definition ends_with :: "'a list \<Rightarrow> 'a list \<Rightarrow> bool" where
  "ends_with s p \<longleftrightarrow> starts_with (rev s) (rev p)"

fun contains :: "'a list \<Rightarrow> 'a list \<Rightarrow> bool" where
  "contains [] p \<longleftrightarrow> p = []"
| "contains (c # cs) p \<longleftrightarrow> starts_with (c # cs) p \<or> contains cs p"

text \<open>\<open>indexOf\<close> of one character: \<open>None\<close> is the source's \<open>-1\<close>.\<close>

fun index_of :: "'a \<Rightarrow> 'a list \<Rightarrow> nat option" where
  "index_of c [] = None"
| "index_of c (x # xs) = (if x = c then Some 0 else map_option Suc (index_of c xs))"

text \<open>\<open>split\<close> at a one-character separator, and \<open>join\<close>.\<close>

fun split_on :: "'a \<Rightarrow> 'a list \<Rightarrow> 'a list list" where
  "split_on c [] = [[]]"
| "split_on c (x # xs) =
     (if x = c then [] # split_on c xs
      else (case split_on c xs of [] \<Rightarrow> [[x]] | y # ys \<Rightarrow> (x # y) # ys))"

fun join :: "'a list \<Rightarrow> 'a list list \<Rightarrow> 'a list" where
  "join sep [] = []"
| "join sep [x] = x"
| "join sep (x # y # ys) = x @ sep @ join sep (y # ys)"

text \<open>
  \<open>replaceAll\<close> of a text by a text: left to right, what was replaced is not read again. An
  empty search text stands before every character and at the end.
\<close>

function replace_all :: "'a list \<Rightarrow> 'a list \<Rightarrow> 'a list \<Rightarrow> 'a list" where
  "replace_all p r [] = (if p = [] then r else [])"
| "replace_all p r (c # cs) =
     (if p = [] then r @ c # replace_all p r cs
      else if starts_with (c # cs) p then r @ replace_all p r (drop (length p) (c # cs))
      else c # replace_all p r cs)"
  by pat_completeness auto
termination
  by (relation "measure (\<lambda>(p, r, s). length s)") auto

text \<open>The decimal text of a number, as a template string writes a whole number.\<close>

fun show_nat :: "nat \<Rightarrow> string" where
  "show_nat n = (if n < 10 then [char_of (48 + n)] else show_nat (n div 10) @ [char_of (48 + n mod 10)])"

definition show_int :: "int \<Rightarrow> string" where
  "show_int i = (if i < 0 then CHR ''-'' # show_nat (nat (- i)) else show_nat (nat i))"

declare show_nat.simps [simp del]

subsection \<open>Lemmas on strings\<close>

lemma starts_with_prefix: "starts_with s p \<longleftrightarrow> prefix p s"
  by (metis append_eq_conv_conj prefixE prefixI starts_with_def take_is_prefix)

lemma starts_with_append [simp]: "starts_with (p @ s) p"
  by (simp add: starts_with_def)

lemma starts_with_Nil [simp]: "starts_with s []"
  by (simp add: starts_with_def)

lemma contains_sublist: "contains s p \<longleftrightarrow> sublist p s"
  by (induction s) (auto simp: starts_with_prefix sublist_Cons_right)

lemma contains_Nil [simp]: "contains s []"
  by (simp add: contains_sublist)

lemma contains_append: "contains (a @ p @ b) p"
  by (simp add: contains_sublist)

lemma join_split_on [simp]: "join [c] (split_on c s) = s"
proof (induction s)
  case Nil
  then show ?case by simp
next
  case (Cons x xs)
  then show ?case
    by (cases "split_on c xs"; cases "tl (split_on c xs)") (auto split: list.splits)
qed

lemma split_on_not_Nil [simp]: "split_on c s \<noteq> []"
  by (cases s) (auto split: list.splits)

lemma split_on_pieces: "p \<in> set (split_on c s) \<Longrightarrow> c \<notin> set p"
  by (induction s arbitrary: p) (auto split: list.splits if_splits)

lemma index_of_None: "index_of c xs = None \<longleftrightarrow> c \<notin> set xs"
  by (induction xs) auto

lemma index_of_Some:
  "index_of c xs = Some i \<Longrightarrow> i < length xs \<and> xs ! i = c \<and> c \<notin> set (take i xs)"
proof (induction xs arbitrary: i)
  case Nil
  then show ?case by simp
next
  case (Cons x xs)
  then show ?case by (cases i) (auto split: if_splits)
qed

lemma to_lower_Nil [simp]: "to_lower [] = []"
  by (simp add: to_lower_def)

lemma to_lower_append [simp]: "to_lower (a @ b) = to_lower a @ to_lower b"
  by (simp add: to_lower_def)

lemma length_to_lower [simp]: "length (to_lower s) = length s"
  by (simp add: to_lower_def)

lemma char_nat_less [simp]: "char_nat c < 256"
  by (cases c) (simp add: char_nat_def)

lemma char_of_char_nat [simp]: "char_of (char_nat c) = c"
  by (simp add: char_nat_def)

lemma char_nat_char_of [simp]: "n < 256 \<Longrightarrow> char_nat (char_of n) = n"
  by (simp add: char_nat_def)

lemma lower_char_idem [simp]: "lower_char (lower_char c) = lower_char c"
  by (auto simp: lower_char_def Let_def)

lemma to_lower_idem [simp]: "to_lower (to_lower s) = to_lower s"
  by (simp add: to_lower_def)

lemma trim_Nil [simp]: "trim [] = []"
  by (simp add: trim_def)

lemma trim_set: "set (trim s) \<subseteq> set s"
  unfolding trim_def by (metis set_dropWhileD set_rev subsetI)

section \<open>Sets and maps with an order\<close>

text \<open>A \<open>Set\<close>: \<open>add\<close> of what is there changes nothing.\<close>

definition set_add :: "'a \<Rightarrow> 'a list \<Rightarrow> 'a list" where
  "set_add x xs = (if x \<in> set xs then xs else xs @ [x])"

text \<open>A \<open>Map\<close>: \<open>set\<close> of a key that is there keeps its place.\<close>

fun om_set :: "'k \<Rightarrow> 'v \<Rightarrow> ('k \<times> 'v) list \<Rightarrow> ('k \<times> 'v) list" where
  "om_set k v [] = [(k, v)]"
| "om_set k v ((k', v') # m) = (if k' = k then (k, v) # m else (k', v') # om_set k v m)"

definition om_get :: "('k \<times> 'v) list \<Rightarrow> 'k \<Rightarrow> 'v option" where
  "om_get m k = map_of m k"

definition om_has :: "('k \<times> 'v) list \<Rightarrow> 'k \<Rightarrow> bool" where
  "om_has m k \<longleftrightarrow> k \<in> set (map fst m)"

text \<open>\<open>new Map(entries)\<close>: the entries set one after the other.\<close>

definition om_of :: "('k \<times> 'v) list \<Rightarrow> ('k \<times> 'v) list" where
  "om_of kvs = fold (\<lambda>(k, v) m. om_set k v m) kvs []"

text \<open>
  The contract the components rely on: what a lookup gives after a \<open>set\<close>, and that keys are
  kept apart. It is a locale so that a client's lemma is proved once, from the contract.
\<close>

locale keyed_store =
  fixes put :: "'k \<Rightarrow> 'v \<Rightarrow> 's \<Rightarrow> 's"
    and get :: "'s \<Rightarrow> 'k \<Rightarrow> 'v option"
    and keys :: "'s \<Rightarrow> 'k list"
    and start :: "'s"
  assumes get_put: "get (put k v s) k' = (if k' = k then Some v else get s k')"
    and keys_put: "keys (put k v s) = (if k \<in> set (keys s) then keys s else keys s @ [k])"
    and get_start: "get start k = None"
    and keys_start: "keys start = []"
begin

definition load :: "('k \<times> 'v) list \<Rightarrow> 's \<Rightarrow> 's" where
  "load kvs s = fold (\<lambda>(k, v) s. put k v s) kvs s"

lemma get_load: "get (load kvs s) k = (case map_of (rev kvs) k of None \<Rightarrow> get s k | Some v \<Rightarrow> Some v)"
proof (induction kvs arbitrary: s rule: list.induct)
  case Nil
  then show ?case by (simp add: load_def)
next
  case (Cons kv kvs)
  obtain k' v' where "kv = (k', v')" by (cases kv)
  with Cons [of "put k' v' s"] show ?case
    by (auto simp: load_def get_put map_add_def split: option.splits)
qed

lemma get_load_start: "get (load kvs start) k = map_of (rev kvs) k"
  by (simp add: get_load get_start split: option.splits)

lemma distinct_keys_load: "distinct (keys s) \<Longrightarrow> distinct (keys (load kvs s))"
  by (induction kvs arbitrary: s) (auto simp: load_def keys_put split: if_splits)

lemma set_keys_load: "set (keys (load kvs s)) = set (keys s) \<union> fst ` set kvs"
  by (induction kvs arbitrary: s) (auto simp: load_def keys_put split: if_splits)

end

lemma om_get_set: "om_get (om_set k v m) k' = (if k' = k then Some v else om_get m k')"
  by (induction m) (auto simp: om_get_def)

lemma om_keys_set: "map fst (om_set k v m) = (if k \<in> set (map fst m) then map fst m else map fst m @ [k])"
  by (induction k v m rule: om_set.induct) auto

interpretation om: keyed_store om_set om_get "map fst" "[]"
  by unfold_locales (simp_all add: om_get_set om_keys_set, simp add: om_get_def)

lemma fst_om_set [simp]: "fst ` set (om_set k v m) = insert k (fst ` set m)"
  by (induction k v m rule: om_set.induct) auto

lemma distinct_om_set [simp]: "distinct (map fst (om_set k v m)) \<longleftrightarrow> distinct (map fst m)"
  by (simp add: om_keys_set)

lemma om_of_load: "om_of kvs = om.load kvs []"
  by (simp add: om_of_def om.load_def)

lemma om_get_of: "om_get (om_of kvs) k = map_of (rev kvs) k"
  by (simp add: om_of_load om.get_load_start)

lemma distinct_om_of: "distinct (map fst (om_of kvs))"
  by (simp add: om_of_load om.distinct_keys_load)

lemma keys_om_of: "set (map fst (om_of kvs)) = fst ` set kvs"
  using om.set_keys_load [of kvs "[]"] by (simp add: om_of_load)

lemma om_has_get: "om_has m k \<longleftrightarrow> om_get m k \<noteq> None"
  by (simp add: om_has_def om_get_def map_of_eq_None_iff)

lemma set_set_add [simp]: "set (set_add x xs) = insert x (set xs)"
  by (auto simp: set_add_def)

lemma distinct_set_add [simp]: "distinct xs \<Longrightarrow> distinct (set_add x xs)"
  by (simp add: set_add_def)

section \<open>Sorting\<close>

text \<open>
  \<open>sort\<close> of the language is stable. \<open>before a b\<close> says that the comparison puts \<open>a\<close> before
  \<open>b\<close> or leaves them as they stand (it is zero or less).
\<close>

fun insert_by :: "('a \<Rightarrow> 'a \<Rightarrow> bool) \<Rightarrow> 'a \<Rightarrow> 'a list \<Rightarrow> 'a list" where
  "insert_by before x [] = [x]"
| "insert_by before x (y # ys) = (if before x y then x # y # ys else y # insert_by before x ys)"

fun sort_by :: "('a \<Rightarrow> 'a \<Rightarrow> bool) \<Rightarrow> 'a list \<Rightarrow> 'a list" where
  "sort_by before [] = []"
| "sort_by before (x # xs) = insert_by before x (sort_by before xs)"

lemma set_insert_by [simp]: "set (insert_by before x xs) = insert x (set xs)"
  by (induction xs) auto

lemma set_sort_by [simp]: "set (sort_by before xs) = set xs"
  by (induction xs) auto

lemma length_insert_by [simp]: "length (insert_by before x xs) = Suc (length xs)"
  by (induction xs) auto

lemma length_sort_by [simp]: "length (sort_by before xs) = length xs"
  by (induction xs) auto

lemma distinct_insert_by [simp]: "distinct (insert_by before x xs) \<longleftrightarrow> x \<notin> set xs \<and> distinct xs"
  by (induction xs) auto

lemma distinct_sort_by [simp]: "distinct (sort_by before xs) \<longleftrightarrow> distinct xs"
  by (induction xs) auto

text \<open>A comparison that is a total preorder gives a sorted list, whose equals keep their order.\<close>

locale total_comparison =
  fixes before :: "'a \<Rightarrow> 'a \<Rightarrow> bool"
  assumes total: "before a b \<or> before b a"
    and trans: "before a b \<Longrightarrow> before b c \<Longrightarrow> before a c"
begin

lemma refl: "before a a"
  using total by blast

lemma sorted_insert_by: "sorted_wrt before xs \<Longrightarrow> sorted_wrt before (insert_by before x xs)"
proof (induction xs)
  case Nil
  then show ?case by simp
next
  case (Cons y ys)
  show ?case
  proof (cases "before x y")
    case True
    with Cons.prems show ?thesis by (auto intro: trans)
  next
    case False
    with total have "before y x" by blast
    with False Cons show ?thesis by auto
  qed
qed

lemma sorted_sort_by: "sorted_wrt before (sort_by before xs)"
  by (induction xs) (simp_all add: sorted_insert_by)

lemma sort_by_sorted: "sorted_wrt before xs \<Longrightarrow> sort_by before xs = xs"
proof (induction xs)
  case Nil
  then show ?case by simp
next
  case (Cons x xs)
  then show ?case by (cases xs) auto
qed

lemma sort_by_idem: "sort_by before (sort_by before xs) = sort_by before xs"
  by (simp add: sort_by_sorted sorted_sort_by)

lemma filter_insert_by:
  assumes "\<And>a b. P a \<Longrightarrow> P b \<Longrightarrow> before a b"
  shows "filter P (insert_by before x xs) = (if P x then x # filter P xs else filter P xs)"
  using assms by (induction xs) auto

lemma sort_by_stable:
  assumes "\<And>a b. P a \<Longrightarrow> P b \<Longrightarrow> before a b"
  shows "filter P (sort_by before xs) = filter P xs"
  using assms by (induction xs) (simp_all add: filter_insert_by)

end

text \<open>Comparing by a number, in either direction, is such a comparison.\<close>

interpretation by_int: total_comparison "\<lambda>a b. (f a :: int) \<le> f b" for f :: "'a \<Rightarrow> int"
  by unfold_locales auto

interpretation by_nat_down: total_comparison "\<lambda>a b. (f b :: nat) \<le> f a" for f :: "'a \<Rightarrow> nat"
  by unfold_locales auto

section \<open>Regular expressions as classes\<close>

text \<open>The longest run of characters of a class at the start of a text, and what follows it.\<close>

definition span_of :: "('a \<Rightarrow> bool) \<Rightarrow> 'a list \<Rightarrow> 'a list \<times> 'a list" where
  "span_of P s = (takeWhile P s, dropWhile P s)"

lemma span_of_append: "span_of P s = (a, b) \<Longrightarrow> s = a @ b"
  by (auto simp: span_of_def)

lemma span_of_length: "span_of P s = (a, b) \<Longrightarrow> length b \<le> length s"
  by (auto simp: span_of_def length_dropWhile_le)

section \<open>Operations that may throw and that keep a state\<close>

text \<open>
  A method that changes its object and may throw: the result, or what was thrown, with the state
  as it is then. \<open>andthen\<close> runs the rest only after a result.
\<close>

type_synonym ('s, 'e, 'a) action = "'s \<Rightarrow> ('e + 'a) \<times> 's"

definition give :: "'a \<Rightarrow> ('s, 'e, 'a) action" where
  "give x st = (Inr x, st)"

definition andthen :: "('s, 'e, 'a) action \<Rightarrow> ('a \<Rightarrow> ('s, 'e, 'b) action) \<Rightarrow> ('s, 'e, 'b) action" where
  "andthen m k st = (case m st of (Inl e, st') \<Rightarrow> (Inl e, st') | (Inr x, st') \<Rightarrow> k x st')"

fun each :: "('a \<Rightarrow> ('s, 'e, 'b) action) \<Rightarrow> 'a list \<Rightarrow> ('s, 'e, 'b list) action" where
  "each f [] = give []"
| "each f (x # xs) = andthen (f x) (\<lambda>y. andthen (each f xs) (\<lambda>ys. give (y # ys)))"

lemma give_run: "give x st = (Inr x, st)"
  by (simp add: give_def)

lemma give_eq [simp]:
  "give x st = (Inr y, st') \<longleftrightarrow> y = x \<and> st' = st" "give x st = (Inl e, st') \<longleftrightarrow> False"
  "fst (give x st) = Inr x" "snd (give x st) = st"
  by (auto simp: give_def)

lemma andthen_give [simp]: "andthen (give x) k = k x"
  by (simp add: andthen_def give_def fun_eq_iff)

lemma andthen_assoc: "andthen (andthen m k) h = andthen m (\<lambda>x. andthen (k x) h)"
  by (auto simp: andthen_def fun_eq_iff split: prod.splits sum.splits)

lemma andthen_give_right: "andthen m give = m"
  by (auto simp: andthen_def give_def fun_eq_iff split: prod.splits sum.splits)

lemma andthen_Inr: "andthen m k st = (Inr y, st'') \<longleftrightarrow> (\<exists>x st'. m st = (Inr x, st') \<and> k x st' = (Inr y, st''))"
  by (auto simp: andthen_def split: prod.splits sum.splits)

lemma andthen_Inl:
  "andthen m k st = (Inl e, st'') \<longleftrightarrow>
     m st = (Inl e, st'') \<or> (\<exists>x st'. m st = (Inr x, st') \<and> k x st' = (Inl e, st''))"
  by (auto simp: andthen_def split: prod.splits sum.splits)

lemma each_append: "each f (xs @ ys) = andthen (each f xs) (\<lambda>us. andthen (each f ys) (\<lambda>vs. give (us @ vs)))"
  by (induction xs) (simp_all add: andthen_assoc andthen_give_right)

text \<open>An action that never throws and keeps no state is a function.\<close>

lemma each_give [simp]: "each (\<lambda>x. give (f x)) xs = give (map f xs)"
  by (induction xs) simp_all

end
