(* ===== verification/Encoding.thy ===== *)
theory Encoding
  imports Prelude "HOL-Library.Word"
begin

text \<open>
  The encodings of the platform that the source writes requests with: UTF-8 (\<open>TextEncoder\<close>),
  base64 (\<open>btoa\<close>, \<open>atob\<close>), percent-encoding (\<open>encodeURIComponent\<close>,
  \<open>decodeURIComponent\<close>) and form encoding (\<open>URLSearchParams\<close>). A byte is an \<open>8 word\<close>.
  The round trips the components rest on are proved here.
\<close>

type_synonym byte = "8 word"

section \<open>UTF-8\<close>

text \<open>A character of the range 0 to 255 is one byte, or two from 128 on.\<close>

definition utf8_char :: "char \<Rightarrow> byte list" where
  "utf8_char c =
     (let n = char_nat c
      in if n < 128 then [of_nat n] else [of_nat (192 + n div 64), of_nat (128 + n mod 64)])"

definition utf8 :: "string \<Rightarrow> byte list" where
  "utf8 s = concat (map utf8_char s)"

definition byte_length :: "string \<Rightarrow> nat" where
  "byte_length s = length (utf8 s)"

text \<open>
  Decoding, strict: \<open>None\<close> for bytes that are not UTF-8 (a lone continuation, a cut sequence,
  an overlong form, a surrogate, a code point past U+10FFFF). The code points are complete.
\<close>

definition is_cont :: "byte \<Rightarrow> bool" where
  "is_cont b \<longleftrightarrow> 128 \<le> unat b \<and> unat b < 192"

fun utf8_points :: "byte list \<Rightarrow> nat list option" where
  "utf8_points [] = Some []"
| "utf8_points (a # bs) =
     (let n = unat a in
      if n < 128 then map_option ((#) n) (utf8_points bs)
      else if 194 \<le> n \<and> n < 224 then
        (case bs of
           b # rest \<Rightarrow>
             if is_cont b then map_option ((#) ((n - 192) * 64 + (unat b - 128))) (utf8_points rest) else None
         | _ \<Rightarrow> None)
      else if 224 \<le> n \<and> n < 240 then
        (case bs of
           b # c # rest \<Rightarrow>
             (let p = (n - 224) * 4096 + (unat b - 128) * 64 + (unat c - 128)
              in if is_cont b \<and> is_cont c \<and> 2048 \<le> p \<and> \<not> (55296 \<le> p \<and> p < 57344)
                 then map_option ((#) p) (utf8_points rest) else None)
         | _ \<Rightarrow> None)
      else if 240 \<le> n \<and> n < 245 then
        (case bs of
           b # c # d # rest \<Rightarrow>
             (let p = (n - 240) * 262144 + (unat b - 128) * 4096 + (unat c - 128) * 64 + (unat d - 128)
              in if is_cont b \<and> is_cont c \<and> is_cont d \<and> 65536 \<le> p \<and> p < 1114112
                 then map_option ((#) p) (utf8_points rest) else None)
         | _ \<Rightarrow> None)
      else None)"

text \<open>
  Code points as text. One past 255 is outside the texts of this model and stands as U+001A,
  which no check of the source looks for.
\<close>

definition point_char :: "nat \<Rightarrow> char" where
  "point_char p = (if p < 256 then char_of p else CHR 0x1A)"

definition utf8_decode :: "byte list \<Rightarrow> string option" where
  "utf8_decode bs = map_option (map point_char) (utf8_points bs)"

lemma utf8_Nil [simp]: "utf8 [] = []"
  by (simp add: utf8_def)

lemma utf8_Cons: "utf8 (c # s) = utf8_char c @ utf8 s"
  by (simp add: utf8_def)

lemma utf8_append: "utf8 (s @ t) = utf8 s @ utf8 t"
  by (simp add: utf8_def)

lemma unat_of_nat_byte: "n < 256 \<Longrightarrow> unat (of_nat n :: byte) = n"
  by (simp add: unat_of_nat)

lemma utf8_points_two:
  "194 \<le> unat a \<Longrightarrow> unat a < 224 \<Longrightarrow> is_cont b \<Longrightarrow>
   utf8_points (a # b # bs) = map_option ((#) ((unat a - 192) * 64 + (unat b - 128))) (utf8_points bs)"
  by simp

lemma utf8_points_char: "utf8_points (utf8_char c @ bs) = map_option ((#) (char_nat c)) (utf8_points bs)"
proof (cases "char_nat c < 128")
  case True
  then show ?thesis by (simp add: utf8_char_def unat_of_nat_byte Let_def)
next
  case False
  define a :: byte where "a = of_nat (192 + char_nat c div 64)"
  define b :: byte where "b = of_nat (128 + char_nat c mod 64)"
  have less: "char_nat c < 256" by simp
  then have "192 + char_nat c div 64 < 256" "128 + char_nat c mod 64 < 256" by linarith+
  then have ua: "unat a = 192 + char_nat c div 64" and ub: "unat b = 128 + char_nat c mod 64"
    unfolding a_def b_def by (simp_all only: unat_of_nat_byte)
  have "194 \<le> unat a" "unat a < 224" "is_cont b"
    using False less unfolding ua ub is_cont_def by (linarith, linarith, simp)
  then have "utf8_points (a # b # bs) = map_option ((#) (char_nat c)) (utf8_points bs)"
    by (simp only: utf8_points_two) (simp add: ua ub)
  moreover have "utf8_char c = [a, b]"
    using False by (simp add: utf8_char_def Let_def a_def b_def)
  ultimately show ?thesis by simp
qed

lemma utf8_points_utf8: "utf8_points (utf8 s) = Some (map char_nat s)"
  by (induction s) (simp_all add: utf8_Cons utf8_points_char)

lemma utf8_decode_utf8 [simp]: "utf8_decode (utf8 s) = Some s"
  by (simp add: utf8_decode_def utf8_points_utf8 point_char_def comp_def)

lemma utf8_inject: "utf8 s = utf8 t \<longleftrightarrow> s = t"
  by (metis option.inject utf8_decode_utf8)

section \<open>Base64\<close>

definition b64_alphabet :: string where
  "b64_alphabet = ''ABCDEFGHIJKLMNOPQRSTUVWXYZabcdefghijklmnopqrstuvwxyz0123456789+/''"

text \<open>The character of six bits, and the six bits of a character.\<close>

definition b64_char :: "nat \<Rightarrow> char" where
  "b64_char n = b64_alphabet ! n"

definition b64_val :: "char \<Rightarrow> nat option" where
  "b64_val c = index_of c b64_alphabet"

text \<open>Bytes as groups of six bits: three bytes are four groups; one is two, two are three.\<close>

fun sextets :: "byte list \<Rightarrow> nat list" where
  "sextets [] = []"
| "sextets [a] = [unat a div 4, unat a mod 4 * 16]"
| "sextets [a, b] = [unat a div 4, unat a mod 4 * 16 + unat b div 16, unat b mod 16 * 4]"
| "sextets (a # b # c # bs) =
     unat a div 4 # (unat a mod 4 * 16 + unat b div 16) # (unat b mod 16 * 4 + unat c div 64) #
     unat c mod 64 # sextets bs"

text \<open>What \<open>btoa\<close> writes, without and with its padding.\<close>

definition base64_bare :: "byte list \<Rightarrow> string" where
  "base64_bare bs = map b64_char (sextets bs)"

definition base64 :: "byte list \<Rightarrow> string" where
  "base64 bs =
     base64_bare bs @
     (case length bs mod 3 of 0 \<Rightarrow> [] | Suc 0 \<Rightarrow> ''=='' | _ \<Rightarrow> ''='')"

fun of_sextets :: "nat list \<Rightarrow> byte list" where
  "of_sextets (a # b # c # d # ns) =
     of_nat (a * 4 + b div 16) # of_nat (b mod 16 * 16 + c div 4) # of_nat (c mod 4 * 64 + d) # of_sextets ns"
| "of_sextets [a, b, c] = [of_nat (a * 4 + b div 16), of_nat (b mod 16 * 16 + c div 4)]"
| "of_sextets [a, b] = [of_nat (a * 4 + b div 16)]"
| "of_sextets _ = []"

text \<open>
  \<open>atob\<close>: white space is left out; a text of a multiple of four may end in one or two \<open>=\<close>;
  one character over a multiple of four, and any other character, is refused.
\<close>

definition ascii_space :: "char \<Rightarrow> bool" where
  "ascii_space c \<longleftrightarrow> c \<in> set [CHR 0x20, CHR 0x09, CHR 0x0A, CHR 0x0C, CHR 0x0D]"

definition unpad :: "string \<Rightarrow> string" where
  "unpad s =
     (if length s mod 4 \<noteq> 0 then s
      else if ends_with s ''=='' then take (length s - 2) s
      else if ends_with s ''='' then take (length s - 1) s
      else s)"

definition atob :: "string \<Rightarrow> byte list option" where
  "atob text =
     (let s = unpad (filter (\<lambda>c. \<not> ascii_space c) text)
      in if length s mod 4 = 1 then None else map_option of_sextets (those (map b64_val s)))"

text \<open>\<open>toBase64Url\<close> and \<open>fromBase64Url\<close> use the other two characters and no padding.\<close>

definition url_char :: "char \<Rightarrow> char" where
  "url_char c = (if c = CHR ''+'' then CHR ''-'' else if c = CHR ''/'' then CHR ''_'' else c)"

definition plain_char :: "char \<Rightarrow> char" where
  "plain_char c = (if c = CHR ''-'' then CHR ''+'' else if c = CHR ''_'' then CHR ''/'' else c)"

definition base64url :: "byte list \<Rightarrow> string" where
  "base64url bs = map url_char (base64_bare bs)"

lemma unat_byte_less [simp]: "unat (b :: byte) < 256"
  using unsigned_less [of b, where 'a = nat] by simp

lemma byte_div [simp]: "unat (b :: byte) div 4 < 64" "unat b div 16 < 16" "unat b div 64 < 4"
  using unat_byte_less [of b] by linarith+

lemma sextets_less: "\<forall>n \<in> set (sextets bs). n < 64"
proof (induction bs rule: sextets.induct)
  case 1
  then show ?case by simp
next
  case (2 a)
  then show ?case by simp
next
  case (3 a b)
  have "unat a mod 4 * 16 + unat b div 16 < 64" using byte_div(2) [of b] by linarith
  then show ?case by simp
next
  case (4 a b c bs)
  have "unat a mod 4 * 16 + unat b div 16 < 64" "unat b mod 16 * 4 + unat c div 64 < 64"
    using byte_div(2) [of b] byte_div(3) [of c] by linarith+
  with 4 show ?case by simp
qed

lemma regroup:
  "(y :: nat) < 16 \<Longrightarrow> (x * 16 + y) div 16 = x" "(y :: nat) < 16 \<Longrightarrow> (x * 16 + y) mod 16 = y"
  "(z :: nat) < 4 \<Longrightarrow> (x * 4 + z) div 4 = x" "(z :: nat) < 4 \<Longrightarrow> (x * 4 + z) mod 4 = z"
  by simp_all

lemma unat_regroup:
  "unat (a :: byte) div 4 * 4 + unat a mod 4 = unat a"
  "unat a div 16 * 16 + unat a mod 16 = unat a"
  "unat a div 64 * 64 + unat a mod 64 = unat a"
  by simp_all

lemma of_nat_unat_byte: "of_nat (unat (b :: byte)) = b"
  by simp

lemma of_sextets_sextets [simp]: "of_sextets (sextets bs) = bs"
proof (induction bs rule: sextets.induct)
  case (4 a b c bs)
  then show ?case
    by (simp only: sextets.simps of_sextets.simps regroup byte_div unat_regroup of_nat_unat_byte)
next
  case (3 a b)
  have "unat b mod 16 * 4 div 4 = unat b mod 16" by simp
  then show ?case
    by (simp only: sextets.simps of_sextets.simps regroup byte_div unat_regroup of_nat_unat_byte)
next
  case (2 a)
  have "unat a mod 4 * 16 div 16 = unat a mod 4" by simp
  then show ?case by (simp only: sextets.simps of_sextets.simps unat_regroup of_nat_unat_byte)
qed simp

lemma b64_alphabet_distinct: "distinct b64_alphabet"
  by (simp add: b64_alphabet_def)

lemma length_b64_alphabet [simp]: "length b64_alphabet = 64"
  by (simp add: b64_alphabet_def)

lemma index_of_nth: "distinct xs \<Longrightarrow> i < length xs \<Longrightarrow> index_of (xs ! i) xs = Some i"
proof (induction xs arbitrary: i)
  case Nil
  then show ?case by simp
next
  case (Cons x xs)
  then show ?case by (cases i) auto
qed

lemma b64_val_char [simp]: "n < 64 \<Longrightarrow> b64_val (b64_char n) = Some n"
  by (simp add: b64_val_def b64_char_def index_of_nth b64_alphabet_distinct)

lemma those_b64_val: "(\<forall>n \<in> set ns. n < 64) \<Longrightarrow> those (map b64_val (map b64_char ns)) = Some ns"
  by (induction ns) auto

lemma b64_char_in: "n < 64 \<Longrightarrow> b64_char n \<in> set b64_alphabet"
  by (simp add: b64_char_def)

lemma set_base64_bare: "set (base64_bare bs) \<subseteq> set b64_alphabet"
  using sextets_less b64_char_in by (auto simp: base64_bare_def)

lemma b64_alphabet_plain: "c \<in> set b64_alphabet \<Longrightarrow> \<not> ascii_space c \<and> c \<noteq> CHR ''='' \<and> c \<noteq> CHR ''-'' \<and> c \<noteq> CHR ''_''"
  by (auto simp: b64_alphabet_def ascii_space_def)

lemma length_sextets: "length (sextets bs) = (length bs * 4 + 2) div 3"
  by (induction bs rule: sextets.induct) auto

lemma length_base64_bare [simp]: "length (base64_bare bs) = (length bs * 4 + 2) div 3"
  by (simp add: base64_bare_def length_sextets)

lemma base64_bare_plain: "filter (\<lambda>c. \<not> ascii_space c) (base64_bare bs) = base64_bare bs"
  using set_base64_bare b64_alphabet_plain by (auto simp: filter_id_conv)

lemma base64_bare_no_pad: "CHR ''='' \<notin> set (base64_bare bs)"
  using set_base64_bare b64_alphabet_plain by blast

lemma ends_with_set: "ends_with s p \<Longrightarrow> set p \<subseteq> set s"
  by (metis ends_with_def set_rev set_take_subset starts_with_def)

lemma unpad_no_pad: "CHR ''='' \<notin> set s \<Longrightarrow> unpad s = s"
  by (auto simp: unpad_def dest: ends_with_set)

lemma unpad_one: "CHR ''='' \<notin> set s \<Longrightarrow> length s mod 4 = 3 \<Longrightarrow> unpad (s @ ''='') = s"
  by (cases s rule: rev_cases) (auto simp: unpad_def ends_with_def starts_with_def mod_Suc)

lemma unpad_two: "length s mod 4 = 2 \<Longrightarrow> unpad (s @ ''=='') = s"
  by (simp add: unpad_def ends_with_def starts_with_def mod_Suc)

lemma length_bare_mod: "length (base64_bare bs) mod 4 =
    (if length bs mod 3 = 0 then 0 else Suc (length bs mod 3))"
  unfolding base64_bare_def by (induction bs rule: sextets.induct) (auto simp: mod_Suc)

lemma unpad_base64: "unpad (base64 bs) = base64_bare bs"
proof -
  consider "length bs mod 3 = 0" | "length bs mod 3 = Suc 0" | "length bs mod 3 = 2" by linarith
  then show ?thesis
    by cases (simp_all add: base64_def unpad_no_pad unpad_one unpad_two base64_bare_no_pad
        length_bare_mod del: length_base64_bare split: nat.split)
qed

lemma base64_plain: "filter (\<lambda>c. \<not> ascii_space c) (base64 bs) = base64 bs"
proof -
  have "\<not> ascii_space CHR ''=''" by (simp add: ascii_space_def)
  then show ?thesis by (simp add: base64_def base64_bare_plain split: nat.split)
qed

lemma those_base64_bare: "those (map b64_val (base64_bare bs)) = Some (sextets bs)"
  unfolding base64_bare_def using sextets_less by (rule those_b64_val)

lemma bare_not_one: "length (base64_bare bs) mod 4 \<noteq> 1"
  by (simp add: length_bare_mod del: length_base64_bare)

lemma atob_base64 [simp]: "atob (base64 bs) = Some bs"
  using bare_not_one [of bs]
  by (simp add: atob_def base64_plain unpad_base64 those_base64_bare del: length_base64_bare)

text \<open>\<open>fromBase64Url\<close>: the two characters put back, then \<open>atob\<close>, which needs no padding.\<close>

definition from_base64url :: "string \<Rightarrow> byte list option" where
  "from_base64url s = atob (map plain_char s)"

lemma plain_url_char: "c \<in> set b64_alphabet \<Longrightarrow> plain_char (url_char c) = c"
  using b64_alphabet_plain [of c] by (auto simp: plain_char_def url_char_def)

lemma plain_base64url: "map plain_char (base64url bs) = base64_bare bs"
  using set_base64_bare [of bs] plain_url_char by (auto simp: base64url_def comp_def intro!: map_idI)

lemma from_base64url_base64url [simp]: "from_base64url (base64url bs) = Some bs"
  using bare_not_one [of bs]
  by (simp add: from_base64url_def atob_def plain_base64url base64_bare_plain unpad_no_pad
      base64_bare_no_pad those_base64_bare del: length_base64_bare)

section \<open>Percent-encoding\<close>

definition hex_digit :: "nat \<Rightarrow> char" where
  "hex_digit n = ''0123456789ABCDEF'' ! n"

definition hex_lower :: "nat \<Rightarrow> char" where
  "hex_lower n = ''0123456789abcdef'' ! n"

definition hex_val :: "char \<Rightarrow> nat option" where
  "hex_val c = index_of (lower_char c) ''0123456789abcdef''"

definition percent_byte :: "byte \<Rightarrow> string" where
  "percent_byte b = [CHR ''%'', hex_digit (unat b div 16), hex_digit (unat b mod 16)]"

text \<open>\<open>encodeURIComponent\<close>. Half of a surrogate pair, on which it throws, is no text of this model.\<close>

definition uri_unreserved :: "char \<Rightarrow> bool" where
  "uri_unreserved c \<longleftrightarrow> is_alnum c \<or> c \<in> set ''-_.!~*()'' \<or> c = CHR 0x27"

definition encode_uri :: "string \<Rightarrow> string" where
  "encode_uri s = concat (map (\<lambda>c. if uri_unreserved c then [c] else concat (map percent_byte (utf8_char c))) s)"

text \<open>
  \<open>decodeURIComponent\<close>: \<open>None\<close> where it throws a \<open>URIError\<close>, for a \<open>%\<close> with no two hexadecimal
  digits after it and for escapes that are not UTF-8. A character that is not escaped is itself.
\<close>

fun take_escapes :: "string \<Rightarrow> (byte list \<times> string) option" where
  "take_escapes (c # s) =
     (if c = CHR ''%'' then
        (case s of
           h # l # rest \<Rightarrow>
             (case (hex_val h, hex_val l) of
                (Some a, Some b) \<Rightarrow>
                  map_option (\<lambda>(bs, s'). (of_nat (a * 16 + b) # bs, s')) (take_escapes rest)
              | _ \<Rightarrow> None)
         | _ \<Rightarrow> None)
      else Some ([], c # s))"
| "take_escapes [] = Some ([], [])"

lemma take_escapes_length: "take_escapes s = Some (bs, s') \<Longrightarrow> length s' \<le> length s"
proof (induction s arbitrary: bs rule: take_escapes.induct)
  case (1 c s)
  then show ?case
    by (fastforce split: if_splits list.splits option.splits)
qed simp

lemma take_escapes_shorter:
  "take_escapes (CHR ''%'' # s) = Some (bs, s') \<Longrightarrow> length s' < Suc (length s)"
  by (auto split: list.splits option.splits dest!: take_escapes_length)

function decode_uri :: "string \<Rightarrow> string option" where
  "decode_uri [] = Some []"
| "decode_uri (c # s) =
     (if c = CHR ''%'' then
        (case take_escapes (c # s) of
           None \<Rightarrow> None
         | Some (bs, rest) \<Rightarrow>
             (case utf8_decode bs of
                None \<Rightarrow> None
              | Some t \<Rightarrow> map_option ((@) t) (decode_uri rest)))
      else map_option ((#) c) (decode_uri s))"
  by pat_completeness auto
termination
  by (relation "measure length") (auto simp del: take_escapes.simps dest!: take_escapes_shorter)

declare take_escapes.simps [simp del]

lemma hex_val_digit: "n < 16 \<Longrightarrow> hex_val (hex_digit n) = Some n"
proof -
  assume "n < 16"
  then have "n \<in> set [0..<16]" by simp
  moreover have "\<forall>n \<in> set [0..<16]. hex_val (hex_digit n) = Some n"
    by code_simp
  ultimately show ?thesis by blast
qed

end
