(* ===== verification/JsonText.thy ===== *)
theory JsonText
  imports Prelude Encoding
begin

text \<open>
  \<open>JSON.parse\<close> and \<open>JSON.stringify\<close> as the source uses them (\<open>packages/core/src/safe-json.ts\<close>).
  An object keeps its members in the order their names were first set; a later member of a name
  replaces the value. A number is a decimal: the numbers of the model are those a double keeps
  as they are written (no rounding), in plain notation. A character beyond the range of the
  model's texts stands as the substitute character.
\<close>

section \<open>Values\<close>

text \<open>\<open>Num m k\<close> is \<open>m\<close> divided by ten to the \<open>k\<close>, with no zero at the end of its fraction.\<close>

datatype decimal = Num (mantissa: int) (scale: nat)

datatype json =
    JNull
  | JBool bool
  | JNum decimal
  | JStr string
  | JArr "json list"
  | JObj "(string \<times> json) list"

fun norm_num :: "int \<Rightarrow> nat \<Rightarrow> decimal" where
  "norm_num m 0 = Num m 0"
| "norm_num m (Suc k) = (if m mod 10 = 0 then norm_num (m div 10) k else Num m (Suc k))"

definition normal_num :: "decimal \<Rightarrow> bool" where
  "normal_num d \<longleftrightarrow> scale d = 0 \<or> mantissa d mod 10 \<noteq> 0"

definition num_less :: "decimal \<Rightarrow> decimal \<Rightarrow> bool" where
  "num_less a b \<longleftrightarrow> mantissa a * 10 ^ scale b < mantissa b * 10 ^ scale a"

definition num_of_int :: "int \<Rightarrow> decimal" where
  "num_of_int i = Num i 0"

section \<open>Writing\<close>

text \<open>A character of a quoted text.\<close>

definition unicode_escape :: "char \<Rightarrow> string" where
  "unicode_escape c =
     [CHR 0x5C, CHR ''u'', CHR ''0'', CHR ''0'', hex_lower (char_nat c div 16), hex_lower (char_nat c mod 16)]"

definition json_char :: "char \<Rightarrow> string" where
  "json_char c =
     (if c = CHR 0x22 then [CHR 0x5C, CHR 0x22]
      else if c = CHR 0x5C then [CHR 0x5C, CHR 0x5C]
      else if c = CHR 0x08 then [CHR 0x5C, CHR ''b'']
      else if c = CHR 0x0C then [CHR 0x5C, CHR ''f'']
      else if c = CHR 0x0A then [CHR 0x5C, CHR ''n'']
      else if c = CHR 0x0D then [CHR 0x5C, CHR ''r'']
      else if c = CHR 0x09 then [CHR 0x5C, CHR ''t'']
      else if char_nat c < 32 then unicode_escape c
      else [c])"

definition json_inner :: "string \<Rightarrow> string" where
  "json_inner s = concat (map json_char s)"

definition json_quoted :: "string \<Rightarrow> string" where
  "json_quoted s = [CHR 0x22] @ json_inner s @ [CHR 0x22]"

text \<open>The digits of a fraction, padded with zeros on the left to its length.\<close>

fun show_fraction :: "nat \<Rightarrow> nat \<Rightarrow> string" where
  "show_fraction 0 n = []"
| "show_fraction (Suc k) n = show_fraction k (n div 10) @ [char_of (48 + n mod 10)]"

definition show_num :: "decimal \<Rightarrow> string" where
  "show_num d =
     (let m = mantissa d; a = nat (abs m); k = scale d
      in (if m < 0 then ''-'' else []) @ show_nat (a div 10 ^ k) @
         (if k = 0 then [] else ''.'' @ show_fraction k (a mod 10 ^ k)))"

text \<open>\<open>JSON.stringify(value, undefined, gap)\<close>; an empty gap writes everything on one line.\<close>

definition line_break :: "string \<Rightarrow> string \<Rightarrow> string" where
  "line_break gap cur = (if gap = [] then [] else CHR 0x0A # cur)"

fun json_write :: "string \<Rightarrow> string \<Rightarrow> json \<Rightarrow> string" where
  "json_write gap cur JNull = ''null''"
| "json_write gap cur (JBool b) = (if b then ''true'' else ''false'')"
| "json_write gap cur (JNum d) = show_num d"
| "json_write gap cur (JStr s) = json_quoted s"
| "json_write gap cur (JArr xs) =
     (if xs = [] then ''[]''
      else ''['' @ line_break gap (cur @ gap) @
        join ('','' @ line_break gap (cur @ gap)) (map (json_write gap (cur @ gap)) xs) @
        line_break gap cur @ '']'')"
| "json_write gap cur (JObj ms) =
     (if ms = [] then ''{}''
      else ''{'' @ line_break gap (cur @ gap) @
        join ('','' @ line_break gap (cur @ gap))
          (map (\<lambda>m. json_quoted (fst m) @ '':'' @ (if gap = [] then [] else '' '') @ json_write gap (cur @ gap) (snd m)) ms) @
        line_break gap cur @ ''}'')"

definition stringify :: "json \<Rightarrow> string" where
  "stringify v = json_write [] [] v"

section \<open>Reading\<close>

definition json_space :: "char \<Rightarrow> bool" where
  "json_space c \<longleftrightarrow> c \<in> set [CHR 0x20, CHR 0x09, CHR 0x0A, CHR 0x0D]"

definition skip_ws :: "string \<Rightarrow> string" where
  "skip_ws s = dropWhile json_space s"

text \<open>What stands for a code unit the model's texts do not hold.\<close>

definition unit_char :: "nat \<Rightarrow> char" where
  "unit_char n = (if n < 256 then char_of n else CHR 0x1A)"

fun parse_quoted :: "string \<Rightarrow> (string \<times> string) option" where
  "parse_quoted [] = None"
| "parse_quoted (c # s) =
     (if c = CHR 0x22 then Some ([], s)
      else if c = CHR 0x5C then
        (case s of
           [] \<Rightarrow> None
         | e # r \<Rightarrow>
             if e = CHR ''u'' then
               (case r of
                  h1 # h2 # h3 # h4 # r' \<Rightarrow>
                    (case (hex_val h1, hex_val h2, hex_val h3, hex_val h4) of
                       (Some a, Some b, Some c, Some d) \<Rightarrow>
                         map_option (apfst ((#) (unit_char (a * 4096 + b * 256 + c * 16 + d)))) (parse_quoted r')
                     | _ \<Rightarrow> None)
                | _ \<Rightarrow> None)
             else
               (case map_of [(CHR 0x22, CHR 0x22), (CHR 0x5C, CHR 0x5C), (CHR ''/'', CHR ''/''), (CHR ''b'', CHR 0x08),
                       (CHR ''f'', CHR 0x0C), (CHR ''n'', CHR 0x0A), (CHR ''r'', CHR 0x0D), (CHR ''t'', CHR 0x09)] e of
                  None \<Rightarrow> None
                | Some u \<Rightarrow> map_option (apfst ((#) u)) (parse_quoted r)))
      else if char_nat c < 32 then None
      else map_option (apfst ((#) c)) (parse_quoted s))"

definition digit_val :: "char \<Rightarrow> nat" where
  "digit_val c = char_nat c - 48"

definition read_nat :: "string \<Rightarrow> nat" where
  "read_nat s = foldl (\<lambda>n c. n * 10 + digit_val c) 0 s"

text \<open>A number: its sign, its digits, a fraction and an exponent.\<close>

definition parse_fraction :: "string \<Rightarrow> (string \<times> string) option" where
  "parse_fraction s =
     (if starts_with s ''.'' then
        (let (ds, r) = span_of is_digit (tl s) in if ds = [] then None else Some (ds, r))
      else Some ([], s))"

definition parse_exponent :: "string \<Rightarrow> (int \<times> string) option" where
  "parse_exponent s =
     (if starts_with s ''e'' \<or> starts_with s ''E'' then
        (let r = tl s;
             neg = starts_with r ''-'';
             (ds, r') = span_of is_digit (if neg \<or> starts_with r ''+'' then tl r else r)
         in if ds = [] then None else Some ((if neg then - int (read_nat ds) else int (read_nat ds)), r'))
      else Some (0, s))"

definition make_num :: "bool \<Rightarrow> string \<Rightarrow> string \<Rightarrow> int \<Rightarrow> decimal" where
  "make_num neg whole fraction e =
     (let m = int (read_nat (whole @ fraction)); m' = (if neg then - m else m); k = int (length fraction) - e
      in if 0 \<le> k then norm_num m' (nat k) else Num (m' * 10 ^ nat (- k)) 0)"

definition parse_number :: "string \<Rightarrow> (decimal \<times> string) option" where
  "parse_number s =
     (let neg = starts_with s ''-'';
          (ds, r) = span_of is_digit (if neg then tl s else s)
      in if ds = [] \<or> (hd ds = CHR ''0'' \<and> tl ds \<noteq> []) then None
         else
           (case parse_fraction r of
              None \<Rightarrow> None
            | Some (fs, r') \<Rightarrow>
                (case parse_exponent r' of
                   None \<Rightarrow> None
                 | Some (e, r'') \<Rightarrow> Some (make_num neg ds fs e, r''))))"

text \<open>
  A value, the items of an array after its bracket, the members of an object after its brace.
  The first argument only ends the recursion: one more than the length of the text is enough.
\<close>

fun parse_value :: "nat \<Rightarrow> string \<Rightarrow> (json \<times> string) option"
  and parse_items :: "nat \<Rightarrow> string \<Rightarrow> (json list \<times> string) option"
  and parse_members :: "nat \<Rightarrow> (string \<times> json) list \<Rightarrow> string \<Rightarrow> ((string \<times> json) list \<times> string) option"
where
  "parse_value 0 s = None"
| "parse_value (Suc n) s =
     (case skip_ws s of
        [] \<Rightarrow> None
      | c # r \<Rightarrow>
          if c = CHR 0x22 then map_option (apfst JStr) (parse_quoted r)
          else if c = CHR ''['' then
            (if starts_with (skip_ws r) '']'' then Some (JArr [], tl (skip_ws r))
             else map_option (apfst JArr) (parse_items n r))
          else if c = CHR ''{'' then
            (if starts_with (skip_ws r) ''}'' then Some (JObj [], tl (skip_ws r))
             else map_option (apfst JObj) (parse_members n [] r))
          else if starts_with (c # r) ''null'' then Some (JNull, drop 4 (c # r))
          else if starts_with (c # r) ''true'' then Some (JBool True, drop 4 (c # r))
          else if starts_with (c # r) ''false'' then Some (JBool False, drop 5 (c # r))
          else map_option (apfst JNum) (parse_number (c # r)))"
| "parse_items 0 s = None"
| "parse_items (Suc n) s =
     (case parse_value n s of
        None \<Rightarrow> None
      | Some (v, r) \<Rightarrow>
          if starts_with (skip_ws r) '','' then map_option (apfst ((#) v)) (parse_items n (tl (skip_ws r)))
          else if starts_with (skip_ws r) '']'' then Some ([v], tl (skip_ws r))
          else None)"
| "parse_members 0 acc s = None"
| "parse_members (Suc n) acc s =
     (case skip_ws s of
        [] \<Rightarrow> None
      | c # r \<Rightarrow>
          if c \<noteq> CHR 0x22 then None
          else
            (case parse_quoted r of
               None \<Rightarrow> None
             | Some (k, r1) \<Rightarrow>
                 if \<not> starts_with (skip_ws r1) '':'' then None
                 else
                   (case parse_value n (tl (skip_ws r1)) of
                      None \<Rightarrow> None
                    | Some (v, r2) \<Rightarrow>
                        if starts_with (skip_ws r2) '','' then parse_members n (om_set k v acc) (tl (skip_ws r2))
                        else if starts_with (skip_ws r2) ''}'' then Some (om_set k v acc, tl (skip_ws r2))
                        else None)))"

definition parse_json :: "string \<Rightarrow> json option" where
  "parse_json text =
     (case parse_value (Suc (length text)) text of
        Some (v, r) \<Rightarrow> if skip_ws r = [] then Some v else None
      | None \<Rightarrow> None)"

definition is_json_text :: "json \<Rightarrow> bool" where
  "is_json_text v \<longleftrightarrow> (case v of JStr s \<Rightarrow> parse_json s \<noteq> None | _ \<Rightarrow> False)"

definition MAX_IMPORT_BYTES :: nat where
  "MAX_IMPORT_BYTES = 10 * 1024 * 1024"

definition is_oversized_import :: "json \<Rightarrow> bool" where
  "is_oversized_import input \<longleftrightarrow> (case input of JStr s \<Rightarrow> MAX_IMPORT_BYTES < length s | _ \<Rightarrow> False)"

text \<open>A member of an object by its name (\<open>Object.hasOwn\<close>), as the validators read it.\<close>

definition member :: "json \<Rightarrow> string \<Rightarrow> json option" where
  "member v k = (case v of JObj ms \<Rightarrow> om_get ms k | _ \<Rightarrow> None)"

section \<open>Reading what was written\<close>

lemma starts_with_one [simp]: "starts_with (x # s) [y] \<longleftrightarrow> x = y" "\<not> starts_with [] [y]"
  by (auto simp: starts_with_def)

lemma hex_lower_val: "n < 16 \<Longrightarrow> hex_val (hex_lower n) = Some n"
proof -
  have "\<forall>n \<in> set [0..<16]. hex_val (hex_lower n) = Some n" by code_simp
  then show "n < 16 \<Longrightarrow> hex_val (hex_lower n) = Some n" by simp
qed

lemma unicode_escape_quoted:
  "parse_quoted (unicode_escape c @ s) = map_option (apfst ((#) c)) (parse_quoted s)"
proof -
  have "char_nat c div 16 < 16" using char_nat_less [of c] by linarith
  moreover have "hex_val CHR ''0'' = Some 0" by code_simp
  moreover have "unit_char (char_nat c) = c" by (simp add: unit_char_def)
  ultimately show ?thesis by (simp add: unicode_escape_def hex_lower_val)
qed

lemma json_char_quoted: "parse_quoted (json_char c @ s) = map_option (apfst ((#) c)) (parse_quoted s)"
  by (simp add: json_char_def unicode_escape_quoted)

lemma parse_quoted_inner: "parse_quoted (json_inner s @ CHR 0x22 # r) = Some (s, r)"
proof (induction s)
  case (Cons c s)
  then show ?case by (simp add: json_inner_def json_char_quoted)
qed (simp add: json_inner_def)

subsection \<open>Numbers\<close>

lemma digit_char: "n < 10 \<Longrightarrow> is_digit (char_of (48 + n)) \<and> digit_val (char_of (48 + n)) = n"
  by (simp add: is_digit_def digit_val_def)

lemma show_nat_digits: "\<forall>c \<in> set (show_nat n). is_digit c"
proof (induction n rule: show_nat.induct)
  case (1 n)
  then show ?case using digit_char [of n] digit_char [of "n mod 10"]
    by (subst show_nat.simps) (auto split: if_splits)
qed

lemma read_nat_snoc: "read_nat (s @ [c]) = read_nat s * 10 + digit_val c"
  by (simp add: read_nat_def)

lemma read_show_nat: "read_nat (show_nat n) = n"
proof (induction n rule: show_nat.induct)
  case (1 n)
  show ?case
  proof (cases "n < 10")
    case True
    then show ?thesis using digit_char [of n] by (subst show_nat.simps) (simp add: read_nat_def)
  next
    case False
    then show ?thesis using 1 digit_char [of "n mod 10"] by (subst show_nat.simps) (simp add: read_nat_snoc)
  qed
qed

lemma show_nat_not_Nil [simp]: "show_nat n \<noteq> []"
  by (subst show_nat.simps) simp

lemma show_nat_zero: "hd (show_nat n) = CHR ''0'' \<Longrightarrow> tl (show_nat n) = []"
proof (induction n rule: show_nat.induct)
  case (1 n)
  show ?case
  proof (cases "n < 10")
    case True
    then show ?thesis by (subst show_nat.simps) simp
  next
    case False
    then have s: "show_nat n = show_nat (n div 10) @ [char_of (48 + n mod 10)]" by (subst show_nat.simps) simp
    with "1.prems" have "hd (show_nat (n div 10)) = CHR ''0''" by simp
    with "1.IH" False have "tl (show_nat (n div 10)) = []" by simp
    then have "show_nat (n div 10) = ''0''" using \<open>hd (show_nat (n div 10)) = _\<close>
      by (metis list.collapse show_nat_not_Nil)
    then have "n div 10 = 0" using read_show_nat [of "n div 10"] by (simp add: read_nat_def digit_val_def char_nat_def)
    with False show ?thesis by simp
  qed
qed

lemma show_fraction_digits: "\<forall>c \<in> set (show_fraction k n). is_digit c"
  by (induction k arbitrary: n) (use digit_char in auto)

lemma length_show_fraction [simp]: "length (show_fraction k n) = k"
  by (induction k arbitrary: n) auto

lemma read_show_fraction: "n < 10 ^ k \<Longrightarrow> read_nat (s @ show_fraction k n) = read_nat s * 10 ^ k + n"
proof (induction k arbitrary: n)
  case (Suc k)
  then have "n div 10 < 10 ^ k" by (simp add: less_mult_imp_div_less mult.commute)
  with Suc.IH have "read_nat (s @ show_fraction k (n div 10)) = read_nat s * 10 ^ k + n div 10" .
  then show ?case using digit_char [of "n mod 10"]
    by (simp add: read_nat_snoc flip: append_assoc)
qed (simp add: read_nat_def)

text \<open>What may follow a number without being read as a part of it.\<close>

definition number_end :: "string \<Rightarrow> bool" where
  "number_end s \<longleftrightarrow> s = [] \<or> hd s \<in> set '',]} '' \<or> hd s = CHR 0x0A"

lemma number_end_cases: "number_end s \<Longrightarrow> takeWhile is_digit s = [] \<and> dropWhile is_digit s = s \<and>
    \<not> starts_with s ''.'' \<and> \<not> starts_with s ''e'' \<and> \<not> starts_with s ''E''"
proof -
  have "\<forall>c \<in> set ([CHR 0x0A] @ '',]} ''). \<not> is_digit c" by code_simp
  then show "number_end s \<Longrightarrow> ?thesis" by (cases s) (auto simp: number_end_def)
qed

lemma span_digits: "\<forall>c \<in> set s. is_digit c \<Longrightarrow> takeWhile is_digit r = [] \<Longrightarrow> dropWhile is_digit r = r \<Longrightarrow> span_of is_digit (s @ r) = (s, r)"
  by (simp add: span_of_def takeWhile_append2 dropWhile_append2)

lemma norm_normal: "normal_num (Num m k) \<Longrightarrow> norm_num m k = Num m k"
  by (cases k) (auto simp: normal_num_def)

lemma parse_show_num:
  assumes "normal_num d" "number_end r"
  shows "parse_number (show_num d @ r) = Some (d, r)"
proof -
  obtain m k where d: "d = Num m k" by (cases d)
  define a where "a = nat (abs m)"
  define fs where "fs = show_fraction k (a mod 10 ^ k)"
  define ws where "ws = show_nat (a div 10 ^ k)"
  define frac where "frac = (if k = 0 then [] else ''.'' @ fs) @ r"
  have dot: "\<not> is_digit CHR ''.''" and minus: "\<not> is_digit CHR ''-''" by code_simp+
  note e = number_end_cases [OF assms(2)]
  have frac_end: "takeWhile is_digit frac = [] \<and> dropWhile is_digit frac = frac"
    using e dot by (auto simp: frac_def)
  have ws: "span_of is_digit (ws @ frac) = (ws, frac)"
    using frac_end by (intro span_digits) (auto simp: ws_def show_nat_digits)
  have fs: "span_of is_digit (fs @ r) = (fs, r)"
    using e by (intro span_digits) (auto simp: fs_def show_fraction_digits)
  have pf: "parse_fraction frac = Some (if k = 0 then [] else fs, r)"
  proof (cases "k = 0")
    case True
    then show ?thesis using e by (auto simp: parse_fraction_def frac_def)
  next
    case False
    moreover have "length fs = k" by (simp add: fs_def)
    ultimately have "fs \<noteq> []" by auto
    with False fs show ?thesis by (simp add: parse_fraction_def frac_def)
  qed
  have pe: "parse_exponent r = Some (0, r)" using e by (simp add: parse_exponent_def)
  have hd_ws: "hd ws \<noteq> CHR ''-''" "hd ws = CHR ''0'' \<Longrightarrow> tl ws = []"
  proof -
    have "is_digit (hd ws)" using show_nat_digits hd_in_set show_nat_not_Nil unfolding ws_def by blast
    then show "hd ws \<noteq> CHR ''-''" using minus by auto
    show "hd ws = CHR ''0'' \<Longrightarrow> tl ws = []" by (simp add: ws_def show_nat_zero)
  qed
  have "ws \<noteq> []" by (simp add: ws_def)
  have num: "read_nat (ws @ (if k = 0 then [] else fs)) = a"
  proof (cases "k = 0")
    case False
    have "read_nat (ws @ fs) = (a div 10 ^ k) * 10 ^ k + a mod 10 ^ k"
      unfolding fs_def by (subst read_show_fraction) (simp_all add: ws_def read_show_nat)
    with False show ?thesis by (simp only: if_False div_mult_mod_eq)
  qed (simp add: ws_def read_show_nat)
  have mk: "make_num (m < 0) ws (if k = 0 then [] else fs) 0 = d"
  proof -
    have "length (if k = 0 then [] else fs) = k" by (simp add: fs_def)
    moreover have "(if m < 0 then - int a else int a) = m" by (simp add: a_def)
    ultimately show ?thesis
      using assms(1) num by (simp add: make_num_def Let_def d norm_normal)
  qed
  have whole: "show_num d @ r = (if m < 0 then ''-'' else []) @ ws @ frac"
    by (simp add: show_num_def d Let_def a_def ws_def fs_def frac_def)
  show ?thesis
  proof (cases "m < 0")
    case True
    then show ?thesis
      using ws pf pe hd_ws \<open>ws \<noteq> []\<close> mk unfolding whole by (simp add: parse_number_def)
  next
    case False
    have "\<not> starts_with (ws @ frac) ''-''"
      using hd_ws(1) \<open>ws \<noteq> []\<close> by (cases ws) auto
    with False show ?thesis
      using ws pf pe hd_ws \<open>ws \<noteq> []\<close> mk unfolding whole by (simp add: parse_number_def)
  qed
qed


subsection \<open>Values\<close>

fun json_wf :: "json \<Rightarrow> bool" where
  "json_wf (JNum d) \<longleftrightarrow> normal_num d"
| "json_wf (JArr xs) \<longleftrightarrow> (\<forall>x \<in> set xs. json_wf x)"
| "json_wf (JObj ms) \<longleftrightarrow> distinct (map fst ms) \<and> (\<forall>m \<in> set ms. json_wf (snd m))"
| "json_wf _ \<longleftrightarrow> True"

lemma skip_ws_append: "list_all json_space ws \<Longrightarrow> skip_ws (ws @ s) = skip_ws s"
  by (simp add: skip_ws_def list_all_iff)

lemma skip_ws_here: "s = [] \<or> \<not> json_space (hd s) \<Longrightarrow> skip_ws s = s"
  by (cases s) (auto simp: skip_ws_def)

lemma skip_ws_idem [simp]: "skip_ws (skip_ws s) = skip_ws s"
  by (simp add: skip_ws_def)

lemma json_write_start:
  "json_wf v \<Longrightarrow> \<exists>c t. json_write gap cur v = c # t \<and> \<not> json_space c \<and> c \<notin> set '']},''"
proof (cases v)
  case (JNum d)
  obtain c t where ct: "show_nat (nat (abs (mantissa d)) div 10 ^ scale d) = c # t"
    by (meson list.exhaust show_nat_not_Nil)
  then have "is_digit c" using show_nat_digits by (metis list.set_intros(1))
  moreover have "\<forall>c \<in> set ('' ]},'' @ [CHR 0x09, CHR 0x0A, CHR 0x0D]). \<not> is_digit c" by code_simp
  ultimately show ?thesis using JNum ct by (auto simp: show_num_def Let_def json_space_def)
qed (auto simp: json_quoted_def json_space_def)

lemma parse_value_skip: "list_all json_space ws \<Longrightarrow> parse_value n (ws @ s) = parse_value n s"
  by (cases n) (simp_all add: skip_ws_append)

lemma parse_members_skip: "list_all json_space ws \<Longrightarrow> parse_members n acc (ws @ s) = parse_members n acc s"
  by (cases n) (simp_all add: skip_ws_append)

lemma parse_items_skip: "list_all json_space ws \<Longrightarrow> parse_items n (ws @ s) = parse_items n s"
  by (cases n) (simp_all add: parse_value_skip)

lemma space_not: "json_space c \<Longrightarrow> c \<notin> set '']},:[{''"
  by (auto simp: json_space_def)

lemma line_break_space: "list_all json_space cur \<Longrightarrow> list_all json_space (line_break gap cur)"
  by (simp add: line_break_def json_space_def)

lemma number_end_break:
  "number_end (line_break gap cur @ '']'' @ r)" "number_end (line_break gap cur @ ''}'' @ r)"
  "number_end ('','' @ r)"
  by (simp_all add: number_end_def line_break_def)

lemma parse_items_written:
  assumes xs: "xs \<noteq> []" and sp: "list_all json_space sep" "list_all json_space stop"
    and each: "\<And>x r n. x \<in> set xs \<Longrightarrow> number_end r \<Longrightarrow> length (w x) < n \<Longrightarrow> parse_value n (w x @ r) = Some (x, r)"
    and ends: "number_end (stop @ '']'' @ r)"
    and n: "Suc (length (join ('','' @ sep) (map w xs))) < n"
  shows "parse_items n (join ('','' @ sep) (map w xs) @ stop @ '']'' @ r) = Some (xs, r)"
  using xs each n
proof (induction xs arbitrary: n)
  case (Cons x xs)
  obtain n' where n': "n = Suc n'" using Cons.prems(3) by (cases n) auto
  have bracket: "skip_ws (stop @ CHR '']'' # r) = CHR '']'' # r"
    using sp(2) by (simp add: skip_ws_append skip_ws_here json_space_def)
  show ?case
  proof (cases "xs = []")
    case True
    have "parse_value n' (w x @ stop @ '']'' @ r) = Some (x, stop @ '']'' @ r)"
      using Cons.prems n' ends True by simp
    with True n' bracket show ?thesis by simp
  next
    case False
    then obtain y ys where xs: "xs = y # ys" by (cases xs) auto
    let ?rest = "join ('','' @ sep) (map w xs) @ stop @ '']'' @ r"
    have j: "join ('','' @ sep) (map w (x # xs)) = w x @ '','' @ sep @ join ('','' @ sep) (map w xs)"
      by (simp add: xs)
    have "parse_value n' (w x @ '','' @ sep @ ?rest) = Some (x, '','' @ sep @ ?rest)"
      using Cons.prems n' unfolding j by (intro Cons.prems(2)) (simp_all add: number_end_def)
    moreover have "skip_ws ('','' @ sep @ ?rest) = '','' @ sep @ ?rest"
      by (simp add: skip_ws_here json_space_def)
    moreover have "parse_items n' ?rest = Some (xs, r)"
      using Cons.prems n' unfolding j by (intro Cons.IH False) (simp_all add: False)
    ultimately show ?thesis
      using sp(1) unfolding j n' by (simp add: parse_items_skip)
  qed
qed simp

lemma parse_members_written:
  fixes gap cur :: string and w :: "json \<Rightarrow> string"
  defines "m x \<equiv> json_quoted (fst x) @ '':'' @ (if gap = [] then [] else '' '') @ w (snd x)"
  assumes ms: "ms \<noteq> []" and sp: "list_all json_space sep" "list_all json_space stop"
    and each: "\<And>x r n. x \<in> set ms \<Longrightarrow> number_end r \<Longrightarrow> length (w (snd x)) < n \<Longrightarrow>
      parse_value n (w (snd x) @ r) = Some (snd x, r)"
    and ends: "number_end (stop @ ''}'' @ r)"
    and dist: "distinct (map fst (acc @ ms))"
    and n: "Suc (length (join ('','' @ sep) (map m ms))) < n"
  shows "parse_members n acc (join ('','' @ sep) (map m ms) @ stop @ ''}'' @ r) = Some (acc @ ms, r)"
  using ms each n dist
proof (induction ms arbitrary: n acc)
  case (Cons x ms)
  obtain n' where n': "n = Suc n'" using Cons.prems(3) by (cases n) auto
  have brace: "skip_ws (stop @ CHR ''}'' # r) = CHR ''}'' # r"
    using sp(2) by (simp add: skip_ws_append skip_ws_here json_space_def)
  have new: "om_set (fst x) (snd x) acc = acc @ [x]"
  proof -
    have "fst x \<notin> set (map fst acc)" using Cons.prems(4) by auto
    then show ?thesis by (induction acc) auto
  qed
  let ?gap = "if gap = [] then [] else '' ''"
  have gap: "list_all json_space ?gap" by (simp add: json_space_def)
  have head: "parse_members n acc (m x @ s) =
      (case parse_value n' (w (snd x) @ s) of
         None \<Rightarrow> None
       | Some (v, r2) \<Rightarrow>
           if starts_with (skip_ws r2) '','' then parse_members n' (om_set (fst x) v acc) (tl (skip_ws r2))
           else if starts_with (skip_ws r2) ''}'' then Some (om_set (fst x) v acc, tl (skip_ws r2))
           else None)" for s
  proof -
    have "m x @ s = CHR 0x22 # json_inner (fst x) @ CHR 0x22 # '':'' @ ?gap @ w (snd x) @ s"
      by (simp add: m_def json_quoted_def)
    moreover have "skip_ws (CHR 0x22 # t) = CHR 0x22 # t" "skip_ws ('':'' @ t) = '':'' @ t" for t
      by (simp_all add: skip_ws_here json_space_def)
    moreover have "parse_value n' (?gap @ w (snd x) @ s) = parse_value n' (w (snd x) @ s)"
      by (rule parse_value_skip [OF gap])
    ultimately show ?thesis by (simp add: n' parse_quoted_inner)
  qed
  have size: "length (w (snd x)) < length (m x)" by (simp add: m_def json_quoted_def)
  show ?case
  proof (cases "ms = []")
    case True
    have "parse_value n' (w (snd x) @ stop @ ''}'' @ r) = Some (snd x, stop @ ''}'' @ r)"
      using Cons.prems n' ends True size by (intro Cons.prems(2)) auto
    with True brace new show ?thesis by (simp add: head)
  next
    case False
    then obtain y ys where ms: "ms = y # ys" by (cases ms) auto
    let ?rest = "join ('','' @ sep) (map m ms) @ stop @ ''}'' @ r"
    have j: "join ('','' @ sep) (map m (x # ms)) = m x @ '','' @ sep @ join ('','' @ sep) (map m ms)"
      by (simp add: ms)
    have "parse_value n' (w (snd x) @ '','' @ sep @ ?rest) = Some (snd x, '','' @ sep @ ?rest)"
      using Cons.prems n' size unfolding j by (intro Cons.prems(2)) (simp_all add: number_end_def)
    moreover have "skip_ws ('','' @ sep @ ?rest) = '','' @ sep @ ?rest"
      by (simp add: skip_ws_here json_space_def)
    moreover have "parse_members n' (acc @ [x]) ?rest = Some ((acc @ [x]) @ ms, r)"
      using Cons.prems n' unfolding j by (intro Cons.IH False) (simp_all add: False)
    ultimately show ?thesis
      using sp(1) new unfolding j append_assoc head by (simp add: parse_members_skip)
  qed
qed simp


lemma parse_value_written:
  assumes gap: "list_all json_space gap"
  shows "json_wf v \<Longrightarrow> list_all json_space cur \<Longrightarrow> number_end r \<Longrightarrow> length (json_write gap cur v) < n \<Longrightarrow>
    parse_value n (json_write gap cur v @ r) = Some (v, r)"
proof (induction v arbitrary: cur r n)
  case JNull
  then show ?case by (cases n) (auto simp: skip_ws_def json_space_def starts_with_def)
next
  case (JBool b)
  then show ?case by (cases n; cases b) (auto simp: skip_ws_def json_space_def starts_with_def)
next
  case (JNum d)
  obtain c t where ct: "show_num d = c # t" "\<not> json_space c"
    using json_write_start [OF JNum(1), of gap cur] by auto
  have c: "is_digit c \<or> c = CHR ''-''"
  proof -
    obtain c' t' where "show_nat (nat (abs (mantissa d)) div 10 ^ scale d) = c' # t'"
      by (meson list.exhaust show_nat_not_Nil)
    moreover from this have "is_digit c'" using show_nat_digits by (metis list.set_intros(1))
    ultimately show ?thesis using ct(1) by (auto simp: show_num_def Let_def split: if_splits)
  qed
  have other: "\<forall>c \<in> set ([CHR 0x22] @ ''[{ntf''). \<not> is_digit c \<and> c \<noteq> CHR ''-''" by code_simp
  have not: "\<not> starts_with (c # t @ r) ''null''" "\<not> starts_with (c # t @ r) ''true''" "\<not> starts_with (c # t @ r) ''false''"
    using c other by (auto simp: starts_with_def)
  have "parse_number (c # t @ r) = Some (d, r)"
    using parse_show_num [of d r] JNum ct(1) by simp
  moreover obtain n' where "n = Suc n'" using JNum.prems(4) by (cases n) auto
  ultimately show ?case
    using c ct not other by (simp add: skip_ws_here) auto
next
  case (JStr s)
  then obtain n' where "n = Suc n'" by (cases n) auto
  then show ?case by (simp add: json_quoted_def skip_ws_here json_space_def parse_quoted_inner)
next
  case (JArr xs)
  obtain n' where n': "n = Suc n'" using JArr.prems(4) by (cases n) auto
  show ?case
  proof (cases "xs = []")
    case True
    then show ?thesis by (simp add: n' skip_ws_here json_space_def)
  next
    case False
    let ?in = "line_break gap (cur @ gap)" and ?out = "line_break gap cur"
    let ?items = "join ('','' @ ?in) (map (json_write gap (cur @ gap)) xs)"
    have cg: "list_all json_space (cur @ gap)" using gap JArr.prems(2) by simp
    have "parse_items n' (?items @ ?out @ '']'' @ r) = Some (xs, r)"
    proof (rule parse_items_written [OF False line_break_space [OF cg] line_break_space [OF JArr.prems(2)]])
      show "parse_value k (json_write gap (cur @ gap) x @ t) = Some (x, t)"
        if "x \<in> set xs" "number_end t" "length (json_write gap (cur @ gap) x) < k" for x t k
        using that JArr.prems(1) cg by (intro JArr.IH) auto
      show "number_end (?out @ '']'' @ r)" by (rule number_end_break)
      show "Suc (length ?items) < n'"
        using JArr.prems(4) False by (simp add: n')
    qed
    moreover obtain c t where "?items = c # t" "\<not> json_space c" "c \<noteq> CHR '']''"
    proof -
      obtain x ys where "xs = x # ys" using False by (cases xs) auto
      moreover from this obtain c t where "json_write gap (cur @ gap) x = c # t" "\<not> json_space c" "c \<notin> set '']},''"
        using json_write_start [of x gap "cur @ gap"] JArr.prems(1) by auto
      ultimately show thesis using that by (cases ys) auto
    qed
    ultimately show ?thesis
      using False line_break_space [OF cg]
      by (simp add: n' skip_ws_here json_space_def [of "CHR ''[''"] skip_ws_append parse_items_skip)
  qed
next
  case (JObj ms)
  obtain n' where n': "n = Suc n'" using JObj.prems(4) by (cases n) auto
  show ?case
  proof (cases "ms = []")
    case True
    then show ?thesis by (simp add: n' skip_ws_here json_space_def)
  next
    case False
    let ?in = "line_break gap (cur @ gap)" and ?out = "line_break gap cur"
    let ?m = "\<lambda>m. json_quoted (fst m) @ '':'' @ (if gap = [] then [] else '' '') @ json_write gap (cur @ gap) (snd m)"
    let ?items = "join ('','' @ ?in) (map ?m ms)"
    have cg: "list_all json_space (cur @ gap)" using gap JObj.prems(2) by simp
    have "parse_members n' [] (?items @ ?out @ ''}'' @ r) = Some ([] @ ms, r)"
    proof (rule parse_members_written [OF False line_break_space [OF cg] line_break_space [OF JObj.prems(2)]])
      show "parse_value k (json_write gap (cur @ gap) (snd x) @ t) = Some (snd x, t)"
        if "x \<in> set ms" "number_end t" "length (json_write gap (cur @ gap) (snd x)) < k" for x t k
        using that JObj.prems(1) cg by (intro JObj.IH [of x]) (auto simp: snds.simps)
      show "number_end (?out @ ''}'' @ r)" by (rule number_end_break)
      show "distinct (map fst ([] @ ms))" using JObj.prems(1) by simp
      show "Suc (length ?items) < n'"
        using JObj.prems(4) False by (simp add: n')
    qed
    moreover obtain t where "?items = CHR 0x22 # t"
    proof -
      obtain x ys where "ms = x # ys" using False by (cases ms) auto
      then show thesis using that by (cases ys) (auto simp: json_quoted_def)
    qed
    ultimately show ?thesis
      using False line_break_space [OF cg]
      by (simp add: n' skip_ws_here json_space_def [of "CHR ''{''"] json_space_def [of "CHR 0x22"] skip_ws_append parse_members_skip)
  qed
qed

lemma parse_json_written:
  assumes "json_wf v" "list_all json_space gap"
  shows "parse_json (json_write gap [] v) = Some v"
proof -
  have "parse_value (Suc (length (json_write gap [] v))) (json_write gap [] v @ []) = Some (v, [])"
    by (rule parse_value_written [OF assms(2,1)]) (simp_all add: number_end_def)
  then show ?thesis by (simp add: parse_json_def skip_ws_def)
qed

lemma parse_stringify: "json_wf v \<Longrightarrow> parse_json (stringify v) = Some v"
  by (simp add: stringify_def parse_json_written)

section \<open>Objects of fields\<close>

text \<open>An object of the fields that are there.\<close>

definition present :: "(string \<times> json option) list \<Rightarrow> json" where
  "present es = JObj (List.map_filter (\<lambda>(k, e). map_option (Pair k) e) es)"

definition yes_field :: "bool \<Rightarrow> json option" where
  "yes_field b = (if b then Some (JBool True) else None)"

definition text_field :: "string \<Rightarrow> json option" where
  "text_field s = Some (JStr s)"

definition texts_field :: "string list \<Rightarrow> json option" where
  "texts_field ss = Some (JArr (map JStr ss))"

lemma om_get_present: "distinct (map fst es) \<Longrightarrow> (k, e) \<in> set es \<Longrightarrow>
    om_get (List.map_filter (\<lambda>(k, e). map_option (Pair k) e) es) k = e"
proof (induction es)
  case (Cons x es)
  have none: "k \<notin> fst ` set es \<Longrightarrow> om_get (List.map_filter (\<lambda>(k, e). map_option (Pair k) e) es) k = None" for k
    by (induction es) (auto simp: List.map_filter_def om_get_def split: option.splits)
  show ?case using Cons none [of k] by (cases x) (auto simp: List.map_filter_def om_get_def image_iff split: option.splits)
qed simp

lemma om_get_present_None: "k \<notin> fst ` set es \<Longrightarrow> om_get (List.map_filter (\<lambda>(k, e). map_option (Pair k) e) es) k = None"
  by (induction es) (auto simp: List.map_filter_def om_get_def split: option.splits)

end
