(* ===== verification/JsValues.thy ===== *)
theory JsValues
  imports JsonText Complex_Main
begin

text \<open>
  \<open>Number(value)\<close> and \<open>String(value)\<close> of the language, on what JSON can give, and the GraphQL
  payload of \<open>packages/core/src/http/graphql.ts\<close>.
\<close>

datatype js_num = NaN | Infinite bool | Finite decimal

definition rat_of_num :: "decimal \<Rightarrow> rat" where
  "rat_of_num d = of_int (mantissa d) / 10 ^ scale d"

text \<open>A whole number in a base: every character a digit of it, at least one.\<close>

definition read_base :: "nat \<Rightarrow> string \<Rightarrow> js_num" where
  "read_base b s =
     (case those (map hex_val s) of
        Some (d # ds) \<Rightarrow>
          if list_all (\<lambda>x. x < b) (d # ds) then Finite (num_of_int (int (foldl (\<lambda>n x. n * b + x) 0 (d # ds)))) else NaN
      | _ \<Rightarrow> NaN)"

text \<open>The decimal literals of a number's text: \<open>1.\<close> and \<open>.5\<close> are ones, \<open>.\<close> is none.\<close>

definition read_decimal :: "string \<Rightarrow> js_num" where
  "read_decimal s =
     (let neg = starts_with s ''-'';
          t = (if neg \<or> starts_with s ''+'' then tl s else s);
          (ws, r) = span_of is_digit t;
          (fs, r') = (if starts_with r ''.'' then span_of is_digit (tl r) else ([], r))
      in if t = ''Infinity'' then Infinite neg
         else if ws = [] \<and> fs = [] then NaN
         else
           (case parse_exponent r' of
              Some (e, []) \<Rightarrow> Finite (make_num neg ws fs e)
            | _ \<Rightarrow> NaN))"

definition number_of_text :: "string \<Rightarrow> js_num" where
  "number_of_text text =
     (let s = trim text; p = to_lower (take 2 s)
      in if s = [] then Finite (num_of_int 0)
         else if p = ''0x'' then read_base 16 (drop 2 s)
         else if p = ''0o'' then read_base 8 (drop 2 s)
         else if p = ''0b'' then read_base 2 (drop 2 s)
         else read_decimal s)"

fun js_string :: "json \<Rightarrow> string" where
  "js_string JNull = ''null''"
| "js_string (JBool b) = (if b then ''true'' else ''false'')"
| "js_string (JNum d) = show_num d"
| "js_string (JStr s) = s"
| "js_string (JArr xs) = join '','' (map (\<lambda>x. if x = JNull then [] else js_string x) xs)"
| "js_string (JObj ms) = ''[object Object]''"

text \<open>\<open>None\<close> is \<open>undefined\<close>.\<close>

definition js_number :: "json option \<Rightarrow> js_num" where
  "js_number v =
     (case v of
        None \<Rightarrow> NaN
      | Some JNull \<Rightarrow> Finite (num_of_int 0)
      | Some (JBool b) \<Rightarrow> Finite (num_of_int (if b then 1 else 0))
      | Some (JNum d) \<Rightarrow> Finite d
      | Some (JStr s) \<Rightarrow> number_of_text s
      | Some (JArr xs) \<Rightarrow> number_of_text (js_string (JArr xs))
      | Some (JObj ms) \<Rightarrow> NaN)"

fun num_lt :: "js_num \<Rightarrow> js_num \<Rightarrow> bool" where
  "num_lt NaN _ \<longleftrightarrow> False"
| "num_lt _ NaN \<longleftrightarrow> False"
| "num_lt (Infinite neg) b \<longleftrightarrow> neg \<and> b \<noteq> Infinite True"
| "num_lt (Finite a) (Infinite neg) \<longleftrightarrow> \<not> neg"
| "num_lt (Finite a) (Finite b) \<longleftrightarrow> num_less a b"

section \<open>GraphQL\<close>

definition graphql_payload :: "string \<Rightarrow> string \<Rightarrow> string + string" where
  "graphql_payload query variables =
     (if trim variables = [] then Inr (stringify (JObj [(''query'', JStr query)]))
      else
        (case parse_json variables of
           None \<Rightarrow> Inl ''The GraphQL variables are not JSON.''
         | Some (JObj ms) \<Rightarrow> Inr (stringify (JObj [(''query'', JStr query), (''variables'', JObj ms)]))
         | Some _ \<Rightarrow> Inl ''The GraphQL variables must be a JSON object.''))"

definition graphql_text :: "string \<Rightarrow> string \<Rightarrow> string" where
  "graphql_text query variables =
     (case graphql_payload query variables of
        Inr payload \<Rightarrow> payload
      | Inl _ \<Rightarrow> stringify (JObj [(''query'', JStr query), (''variables'', JStr variables)]))"

text \<open>What JSON gives is well-formed: its numbers are in their normal form, its names are apart.\<close>

lemma normal_norm_num: "normal_num (norm_num m k)"
  by (induction m k rule: norm_num.induct) (auto simp: normal_num_def)

lemma normal_make_num: "normal_num (make_num neg ws fs e)"
  by (auto simp: make_num_def Let_def normal_norm_num) (simp_all add: normal_num_def)

lemma parse_number_normal: "parse_number s = Some (d, r) \<Longrightarrow> normal_num d"
  by (auto simp: parse_number_def Let_def normal_make_num split: if_splits option.splits prod.splits)

lemma parse_wf:
  "parse_value n s = Some (v, r) \<Longrightarrow> json_wf v"
  "parse_items n s = Some (vs, r) \<Longrightarrow> \<forall>v \<in> set vs. json_wf v"
  "parse_members n acc s = Some (ms, r) \<Longrightarrow> distinct (map fst acc) \<Longrightarrow> \<forall>m \<in> set acc. json_wf (snd m) \<Longrightarrow>
    distinct (map fst ms) \<and> (\<forall>m \<in> set ms. json_wf (snd m))"
proof (induction n s and n s and n acc s arbitrary: v r and vs r and ms r rule: parse_value_parse_items_parse_members.induct)
  case (2 n s)
  then show ?case
    by (auto split: list.splits if_splits dest: parse_number_normal)
next
  case (4 n s)
  then show ?case
    by (fastforce split: option.splits prod.splits if_splits)
next
  case (6 n acc s)
  obtain c t k r1 x r2 where parts: "skip_ws s = c # t" "parse_quoted t = Some (k, r1)"
    "c = CHR 0x22" "starts_with (skip_ws r1) '':''" "parse_value n (tl (skip_ws r1)) = Some (x, r2)"
    using 6(3) by (auto split: list.splits option.splits if_splits)
  have x: "json_wf x" using 6(1) parts by auto
  have om: "distinct (map fst (om_set k x acc))" "\<forall>m \<in> set (om_set k x acc). json_wf (snd m)"
  proof -
    show "distinct (map fst (om_set k x acc))" using 6(4) by simp
    show "\<forall>m \<in> set (om_set k x acc). json_wf (snd m)"
      using x 6(5) by (induction k x acc rule: om_set.induct) auto
  qed
  show ?case
  proof (cases "starts_with (skip_ws r2) '',''")
    case True
    with 6(3) parts have "parse_members n (om_set k x acc) (tl (skip_ws r2)) = Some (ms, r)" by simp
    with 6(2) parts True om show ?thesis by auto
  next
    case False
    with 6(3) parts have "ms = om_set k x acc" by (auto split: if_splits)
    with om show ?thesis by simp
  qed
qed auto

declare parse_value.simps [simp del] parse_items.simps [simp del] parse_members.simps [simp del]

lemma parse_json_wf: "parse_json s = Some v \<Longrightarrow> json_wf v"
  by (auto simp: parse_json_def split: option.splits prod.splits if_splits dest: parse_wf(1))

text \<open>The query of a payload is the query as it is, whatever it holds, and the variables are the object they are.\<close>

lemma graphql_payload_cases:
  "graphql_payload query variables = Inr payload \<Longrightarrow>
     parse_json payload = Some (JObj [(''query'', JStr query)]) \<and> trim variables = [] \<or>
     (\<exists>ms. parse_json variables = Some (JObj ms) \<and>
        parse_json payload = Some (JObj [(''query'', JStr query), (''variables'', JObj ms)]))"
  by (auto simp: graphql_payload_def parse_stringify split: if_splits option.splits json.splits dest: parse_json_wf)

end
