(* ===== verification/Model.thy ===== *)
theory Model
  imports Complex_Main Prelude
begin

text \<open>
  The request and collection model of \<open>packages/core/src/model/request.ts\<close> and
  \<open>collection.ts\<close>: what the composer edits, what the stores keep and what a collection file
  holds, and the operations on it that need nothing else: the folders a request is in, the
  order of a folder's children, what a request inherits from.

  A field the source marks optional is an \<open>option\<close> (a flag that is \<open>true\<close> or absent is a
  \<open>bool\<close>). Identity of objects in a list the source searches by id is equality here: the first
  folder of an id is the only one ever found by it. \<open>localeCompare\<close>, whose order the language
  leaves to the platform, is a parameter.
\<close>

section \<open>A request\<close>

datatype route = Auto | Direct | Bridge

record row =
  row_key :: string
  row_value :: string
  row_enabled :: bool
  row_json :: bool

datatype raw_language = Json | Text | Xml | Html | Javascript

datatype body_mode = NoBody | Raw | Urlencoded | Multipart | Binary | Graphql

record file_ref =
  file_id :: string
  file_name :: string

datatype multipart_part =
    TextPart (part_key: string) (part_enabled: bool) (part_value: string)
  | FilePart (part_key: string) (part_enabled: bool) (part_file: file_ref)

record raw_body =
  raw_language :: raw_language
  raw_text :: string

record graphql_body =
  gql_query :: string
  gql_variables :: string

record binary_body =
  bin_file :: file_ref
  bin_content_type :: "string option"

record request_body =
  body_mode :: body_mode
  body_raw :: "raw_body option"
  body_urlencoded :: "row list option"
  body_multipart :: "multipart_part list option"
  body_binary :: "binary_body option"
  body_graphql :: "graphql_body option"

datatype api_key_in = InHeader | InQuery

record aws_auth =
  aws_access_key :: string
  aws_secret_key :: string
  aws_session_token :: string
  aws_region :: string
  aws_service :: string

datatype oauth_grant = AuthorizationCode | ClientCredentials | PasswordGrant

datatype client_auth = ClientHeader | ClientBody

record oauth2_auth =
  oa_grant :: oauth_grant
  oa_auth_url :: string
  oa_token_url :: string
  oa_client_id :: string
  oa_client_secret :: string
  oa_scope :: string
  oa_username :: string
  oa_password :: string
  oa_client_auth :: client_auth
  oa_retry_on_401 :: bool

datatype auth_config =
    Inherit
  | NoAuth
  | Bearer (auth_token: string)
  | Basic (auth_username: string) (auth_password: string)
  | ApiKey (auth_key: string) (auth_value: string) (auth_in: api_key_in)
  | AwsV4 (auth_aws: aws_auth)
  | OAuth2 (auth_oauth: oauth2_auth)

datatype auth_type = TInherit | TNone | TBearer | TBasic | TApiKey | TAwsV4 | TOAuth2

record scripts =
  script_pre :: string
  script_post :: string

datatype assertion_target = OnStatus | OnBody | OnHeader | OnDuration

datatype assertion_operator =
    Equals | NotEquals | Contains | NotContains | Exists | NotExists | IsArray | IsObject | LessThan | GreaterThan

record test_assertion =
  ta_id :: string
  ta_target :: assertion_target
  ta_key :: "string option"
  ta_operator :: assertion_operator
  ta_expected :: "string option"

record request_settings =
  set_timeout_ms :: "rat option"
  set_follow_redirects :: "bool option"
  set_route :: "route option"
  set_tls_insecure :: bool

record request_content =
  rc_method :: string
  rc_url :: string
  rc_params :: "row list"
  rc_headers :: "row list"
  rc_body :: request_body
  rc_auth :: auth_config
  rc_scripts :: scripts
  rc_tests :: "test_assertion list"
  rc_settings :: request_settings

definition HTTP_METHODS :: "string list" where
  "HTTP_METHODS = [''GET'', ''POST'', ''PUT'', ''PATCH'', ''DELETE'', ''HEAD'', ''OPTIONS'']"

definition FORBIDDEN_METHODS :: "string list" where
  "FORBIDDEN_METHODS = [''CONNECT'', ''TRACE'', ''TRACK'']"

text \<open>\<open>/^[!#$%&'*+\-.^_`|~0-9A-Z]{1,32}$/\<close>\<close>

definition is_method_char :: "char \<Rightarrow> bool" where
  "is_method_char c \<longleftrightarrow>
     c \<in> set ''!#$%&*+-.^_|~'' \<or> c = CHR 0x27 \<or> c = CHR 0x60 \<or> is_digit c \<or> is_upper c"

definition is_http_method :: "string \<Rightarrow> bool" where
  "is_http_method text \<longleftrightarrow> 1 \<le> length text \<and> length text \<le> 32 \<and> list_all is_method_char text"

fun RAW_CONTENT_TYPES :: "raw_language \<Rightarrow> string" where
  "RAW_CONTENT_TYPES Json = ''application/json''"
| "RAW_CONTENT_TYPES Text = ''text/plain''"
| "RAW_CONTENT_TYPES Xml = ''application/xml''"
| "RAW_CONTENT_TYPES Html = ''text/html''"
| "RAW_CONTENT_TYPES Javascript = ''application/javascript''"

definition file_ids_of :: "request_body \<Rightarrow> string list" where
  "file_ids_of b =
     (let parts = concat (map (\<lambda>p. case p of FilePart _ _ f \<Rightarrow> [file_id f] | TextPart _ _ _ \<Rightarrow> [])
            (case body_multipart b of None \<Rightarrow> [] | Some ps \<Rightarrow> ps))
      in case body_binary b of Some f \<Rightarrow> parts @ [file_id (bin_file f)] | None \<Rightarrow> parts)"

fun empty_auth :: "auth_type \<Rightarrow> auth_config" where
  "empty_auth TBearer = Bearer []"
| "empty_auth TBasic = Basic [] []"
| "empty_auth TApiKey = ApiKey [] [] InHeader"
| "empty_auth TAwsV4 = AwsV4 \<lparr>aws_access_key = [], aws_secret_key = [], aws_session_token = [],
     aws_region = [], aws_service = []\<rparr>"
| "empty_auth TOAuth2 = OAuth2 \<lparr>oa_grant = AuthorizationCode, oa_auth_url = [], oa_token_url = [],
     oa_client_id = [], oa_client_secret = [], oa_scope = [], oa_username = [], oa_password = [],
     oa_client_auth = ClientHeader, oa_retry_on_401 = False\<rparr>"
| "empty_auth TNone = NoAuth"
| "empty_auth TInherit = Inherit"

fun type_of :: "auth_config \<Rightarrow> auth_type" where
  "type_of Inherit = TInherit"
| "type_of NoAuth = TNone"
| "type_of (Bearer _) = TBearer"
| "type_of (Basic _ _) = TBasic"
| "type_of (ApiKey _ _ _) = TApiKey"
| "type_of (AwsV4 _) = TAwsV4"
| "type_of (OAuth2 _) = TOAuth2"

definition empty_body :: request_body where
  "empty_body = \<lparr>body_mode = NoBody, body_raw = None, body_urlencoded = None, body_multipart = None,
     body_binary = None, body_graphql = None\<rparr>"

definition empty_request :: request_content where
  "empty_request = \<lparr>rc_method = ''GET'', rc_url = [], rc_params = [], rc_headers = [],
     rc_body = empty_body, rc_auth = NoAuth, rc_scripts = \<lparr>script_pre = [], script_post = []\<rparr>,
     rc_tests = [],
     rc_settings = \<lparr>set_timeout_ms = None, set_follow_redirects = None, set_route = None,
       set_tls_insecure = False\<rparr>\<rparr>"

section \<open>A collection\<close>

record meta =
  meta_id :: string
  meta_created_at :: rat
  meta_updated_at :: rat

record script_trust =
  trusted :: bool
  approved :: "string list option"

record collection =
  col_id :: string
  col_meta :: meta
  col_name :: string
  col_description :: "string option"
  col_order :: rat
  col_variables :: "row list"
  col_auth :: auth_config
  col_scripts :: scripts
  col_route :: "route option"
  col_script_trust :: script_trust

record folder =
  fol_id :: string
  fol_meta :: meta
  fol_collection_id :: string
  fol_parent :: "string option"
  fol_name :: string
  fol_description :: "string option"
  fol_order :: rat
  fol_variables :: "row list"
  fol_auth :: auth_config
  fol_scripts :: scripts

record request_doc =
  rd_id :: string
  rd_meta :: meta
  rd_collection_id :: string
  rd_folder_id :: "string option"
  rd_name :: string
  rd_description :: "string option"
  rd_order :: rat
  rd_content :: request_content

record collection_tree =
  tree_collection :: collection
  tree_folders :: "folder list"
  tree_requests :: "request_doc list"

record environment_doc =
  env_id :: string
  env_meta :: meta
  env_name :: string
  env_description :: "string option"
  env_vars :: "row list"
  env_order :: rat

definition COLLECTION_FORMAT :: string where
  "COLLECTION_FORMAT = ''wayfarer/collection''"

definition ENVIRONMENTS_FORMAT :: string where
  "ENVIRONMENTS_FORMAT = ''wayfarer/environments''"

subsection \<open>The folders a request is in\<close>

definition find_folder :: "folder list \<Rightarrow> string \<Rightarrow> folder option" where
  "find_folder folders i = List.find (\<lambda>f. meta_id (fol_meta f) = i) folders"

lemma find_folder_Some: "find_folder folders i = Some f \<Longrightarrow> f \<in> set folders \<and> meta_id (fol_meta f) = i"
  by (auto simp: find_folder_def find_Some_iff)

lemma find_folder_self: "find_folder folders i = Some f \<Longrightarrow> find_folder folders (meta_id (fol_meta f)) = Some f"
  by (frule find_folder_Some) simp

text \<open>The loop of \<open>folderChain\<close>: \<open>next\<close> is the id looked for, \<open>chain\<close> what was found, outermost first.\<close>

function chain_loop :: "folder list \<Rightarrow> string option \<Rightarrow> folder list \<Rightarrow> folder list" where
  "chain_loop folders nxt chain =
     (case nxt of
        None \<Rightarrow> chain
      | Some i \<Rightarrow>
          (case find_folder folders i of
             None \<Rightarrow> chain
           | Some f \<Rightarrow> if f \<in> set chain then chain else chain_loop folders (fol_parent f) (f # chain)))"
  by pat_completeness auto
termination
proof (relation "measure (\<lambda>(folders, nxt, chain). card (set folders - set chain))", simp)
  fix folders nxt chain i f
  assume "find_folder folders i = Some f" and "f \<notin> set chain"
  then have "f \<in> set folders - set chain" by (auto dest: find_folder_Some)
  then have "card (set folders - set (f # chain)) < card (set folders - set chain)"
    by (intro psubset_card_mono) auto
  then show "((folders, fol_parent f, f # chain), folders, nxt, chain)
      \<in> measure (\<lambda>(folders, nxt, chain). card (set folders - set chain))"
    by simp
qed

declare chain_loop.simps [simp del]

definition folder_chain :: "folder list \<Rightarrow> string option \<Rightarrow> folder list" where
  "folder_chain folders i = chain_loop folders i []"

text \<open>A folder of a chain stands right after its parent.\<close>

fun linked :: "folder list \<Rightarrow> folder list \<Rightarrow> bool" where
  "linked folders (f # g # fs) \<longleftrightarrow>
     (\<exists>i. fol_parent g = Some i \<and> find_folder folders i = Some f) \<and> linked folders (g # fs)"
| "linked folders _ \<longleftrightarrow> True"

lemma chain_loop_inv:
  assumes "distinct chain" "set chain \<subseteq> set folders" "linked folders chain"
    "chain \<noteq> [] \<Longrightarrow> fol_parent (hd chain) = nxt"
  shows "distinct (chain_loop folders nxt chain) \<and> set (chain_loop folders nxt chain) \<subseteq> set folders \<and>
    linked folders (chain_loop folders nxt chain)"
  using assms
proof (induction folders nxt chain rule: chain_loop.induct)
  case (1 folders nxt chain)
  show ?case
  proof (cases "\<exists>i f. nxt = Some i \<and> find_folder folders i = Some f \<and> f \<notin> set chain")
    case True
    then obtain i f where if_eq: "nxt = Some i" "find_folder folders i = Some f" "f \<notin> set chain" by blast
    have "linked folders (f # chain)"
      using "1.prems" if_eq by (cases chain) auto
    with "1.IH" [OF if_eq(1,2,3)] "1.prems" if_eq find_folder_Some [OF if_eq(2)] show ?thesis
      by (subst (1 2 3) chain_loop.simps) simp
  next
    case False
    with "1.prems" show ?thesis
      by (auto simp: chain_loop.simps [of folders nxt chain] split: option.splits)
  qed
qed

lemma chain_loop_suffix: "\<exists>pre. chain_loop folders nxt chain = pre @ chain"
proof (induction folders nxt chain rule: chain_loop.induct)
  case (1 folders nxt chain)
  then show ?case
    by (subst chain_loop.simps) (fastforce split: option.splits)
qed

lemma folder_chain_inv:
  "distinct (folder_chain folders i) \<and> set (folder_chain folders i) \<subseteq> set folders \<and>
   linked folders (folder_chain folders i)"
  unfolding folder_chain_def by (rule chain_loop_inv) simp_all

lemma folder_chain_last:
  assumes "find_folder folders i = Some f"
  shows "folder_chain folders (Some i) \<noteq> [] \<and> last (folder_chain folders (Some i)) = f"
proof -
  obtain pre where "chain_loop folders (fol_parent f) [f] = pre @ [f]"
    using chain_loop_suffix by blast
  with assms show ?thesis
    by (simp add: folder_chain_def chain_loop.simps [of folders "Some i"])
qed

subsection \<open>The children of a folder\<close>

datatype tree_child = FolderChild folder | RequestChild request_doc

record entry =
  ent_order :: rat
  ent_kind :: nat
  ent_id :: string
  ent_child :: tree_child

text \<open>\<open>lc a b\<close>: \<open>a.localeCompare(b)\<close> is zero or less.\<close>

definition entry_before :: "(string \<Rightarrow> string \<Rightarrow> bool) \<Rightarrow> entry \<Rightarrow> entry \<Rightarrow> bool" where
  "entry_before lc a b \<longleftrightarrow>
     ent_order a < ent_order b \<or>
     ent_order a = ent_order b \<and>
       (ent_kind a < ent_kind b \<or> ent_kind a = ent_kind b \<and> lc (ent_id a) (ent_id b))"

definition child_entries :: "folder list \<Rightarrow> request_doc list \<Rightarrow> string option \<Rightarrow> entry list" where
  "child_entries folders requests parent =
     map (\<lambda>f. \<lparr>ent_order = fol_order f, ent_kind = 0, ent_id = fol_id f, ent_child = FolderChild f\<rparr>)
       (filter (\<lambda>f. fol_parent f = parent) folders) @
     map (\<lambda>r. \<lparr>ent_order = rd_order r, ent_kind = 1, ent_id = rd_id r, ent_child = RequestChild r\<rparr>)
       (filter (\<lambda>r. rd_folder_id r = parent) requests)"

definition children_in_order ::
    "(string \<Rightarrow> string \<Rightarrow> bool) \<Rightarrow> folder list \<Rightarrow> request_doc list \<Rightarrow> string option \<Rightarrow> tree_child list" where
  "children_in_order lc folders requests parent =
     map ent_child (sort_by (entry_before lc) (child_entries folders requests parent))"

lemma set_children_in_order:
  "set (children_in_order lc folders requests parent) =
     FolderChild ` {f \<in> set folders. fol_parent f = parent} \<union>
     RequestChild ` {r \<in> set requests. rd_folder_id r = parent}"
  by (simp add: children_in_order_def child_entries_def image_Un image_image)

lemma entry_before_total_comparison:
  assumes "total_comparison lc"
  shows "total_comparison (entry_before lc)"
proof
  note lc_total = total_comparison.total [OF assms] and lc_trans = total_comparison.trans [OF assms]
  show "entry_before lc a b \<or> entry_before lc b a" for a b
    using lc_total [of "ent_id a" "ent_id b"] by (auto simp: entry_before_def)
  show "entry_before lc a c" if "entry_before lc a b" "entry_before lc b c" for a b c
    using that lc_trans [of "ent_id a" "ent_id b" "ent_id c"] by (auto simp: entry_before_def)
qed

text \<open>Where a child stands: its order, a folder before a request, its id.\<close>

fun order_of :: "tree_child \<Rightarrow> rat \<times> nat \<times> string" where
  "order_of (FolderChild f) = (fol_order f, 0, fol_id f)"
| "order_of (RequestChild r) = (rd_order r, 1, rd_id r)"

definition child_before :: "(string \<Rightarrow> string \<Rightarrow> bool) \<Rightarrow> tree_child \<Rightarrow> tree_child \<Rightarrow> bool" where
  "child_before lc a b \<longleftrightarrow>
     (case (order_of a, order_of b) of
        ((o1, k1, i1), (o2, k2, i2)) \<Rightarrow> o1 < o2 \<or> o1 = o2 \<and> (k1 < k2 \<or> k1 = k2 \<and> lc i1 i2))"

lemma children_in_order_sorted:
  assumes "total_comparison lc"
  shows "sorted_wrt (child_before lc) (children_in_order lc folders requests parent)"
proof -
  let ?es = "sort_by (entry_before lc) (child_entries folders requests parent)"
  have sorted: "sorted_wrt (entry_before lc) ?es"
    using total_comparison.sorted_sort_by entry_before_total_comparison assms by blast
  have "order_of (ent_child e) = (ent_order e, ent_kind e, ent_id e)" if "e \<in> set ?es" for e
    using that by (auto simp: child_entries_def)
  then have "sorted_wrt (\<lambda>a b. child_before lc (ent_child a) (ent_child b)) ?es"
    using sorted by (auto simp: child_before_def entry_before_def elim!: sorted_wrt_mono_rel [rotated])
  then show ?thesis by (simp add: children_in_order_def sorted_wrt_map)
qed

subsection \<open>What a request inherits from\<close>

record ancestor =
  anc_name :: string
  anc_variables :: "row list"
  anc_auth :: auth_config
  anc_scripts :: scripts

definition named :: "string \<Rightarrow> string \<Rightarrow> string" where
  "named kind name = kind @ '' '' @ [CHR 0x22] @ name @ [CHR 0x22]"

definition collection_ancestor :: "collection \<Rightarrow> ancestor" where
  "collection_ancestor c =
     \<lparr>anc_name = named ''collection'' (col_name c), anc_variables = col_variables c,
      anc_auth = col_auth c, anc_scripts = col_scripts c\<rparr>"

definition folder_ancestor :: "folder \<Rightarrow> ancestor" where
  "folder_ancestor f =
     \<lparr>anc_name = named ''folder'' (fol_name f), anc_variables = fol_variables f,
      anc_auth = fol_auth f, anc_scripts = fol_scripts f\<rparr>"

definition ancestors_of :: "collection \<Rightarrow> folder list \<Rightarrow> string option \<Rightarrow> ancestor list" where
  "ancestors_of c folders i = collection_ancestor c # map folder_ancestor (folder_chain folders i)"

end
