(* ===== verification/Validate.thy ===== *)
theory Validate
  imports JsValues Model
begin

text \<open>
  What a file to import is checked against, \<open>packages/core/src/model/validate.ts\<close>: a request, what a collection or a
  folder holds for the requests in it, and rows. A value is JSON, \<open>None\<close> a field that is not there; each check gives the
  problems it would push, in order. The second half is what the app itself writes, as JSON, and which of it the checks
  accept.
\<close>

section \<open>The checks\<close>

type_synonym problem = "string \<times> string"
type_synonym obj = "(string \<times> json) list"

definition NOT_OBJECT :: string where
  "NOT_OBJECT = ''Value must be an object.''"

definition NOT_STRING :: string where
  "NOT_STRING = ''Value must be a string.''"

definition NOT_FLAG :: string where
  "NOT_FLAG = ''Value must be true or false.''"

definition field_path :: "string \<Rightarrow> string \<Rightarrow> string" where
  "field_path p key = p @ ''.'' @ key"

definition item_path :: "string \<Rightarrow> nat \<Rightarrow> string" where
  "item_path p i = p @ ''['' @ show_nat i @ '']''"

text \<open>\<open>object\<close>, and what is checked of it when it is one.\<close>

definition object_at :: "json option \<Rightarrow> string \<Rightarrow> (obj \<Rightarrow> problem list) \<Rightarrow> problem list" where
  "object_at v p chk = (case v of Some (JObj fs) \<Rightarrow> chk fs | _ \<Rightarrow> [(p, NOT_OBJECT)])"

definition string_at :: "obj \<Rightarrow> string \<Rightarrow> string \<Rightarrow> bool \<Rightarrow> problem list" where
  "string_at fs key p optional =
     (case om_get fs key of
        Some (JStr _) \<Rightarrow> []
      | v \<Rightarrow> if optional \<and> v = None then [] else [(field_path p key, NOT_STRING)])"

definition one_of_at :: "obj \<Rightarrow> string \<Rightarrow> string \<Rightarrow> string list \<Rightarrow> bool \<Rightarrow> problem list" where
  "one_of_at fs key p allowed optional =
     (let wrong = [(field_path p key, ''Value must be one of '' @ join '', '' allowed @ ''.'')]
      in case om_get fs key of
           None \<Rightarrow> if optional then [] else wrong
         | Some (JStr s) \<Rightarrow> if s \<in> set allowed then [] else wrong
         | Some _ \<Rightarrow> wrong)"

definition list_at :: "json option \<Rightarrow> string \<Rightarrow> (obj \<Rightarrow> string \<Rightarrow> problem list) \<Rightarrow> problem list" where
  "list_at v p chk =
     (case v of
        Some (JArr xs) \<Rightarrow> concat (map (\<lambda>(i, x). object_at (Some x) (item_path p i) (\<lambda>fs. chk fs (item_path p i))) (enumerate 0 xs))
      | _ \<Rightarrow> [(p, ''Value must be an array.'')])"

definition flag_at :: "obj \<Rightarrow> string \<Rightarrow> string \<Rightarrow> bool \<Rightarrow> problem list" where
  "flag_at fs key p optional =
     (case om_get fs key of
        Some (JBool _) \<Rightarrow> []
      | v \<Rightarrow> if optional \<and> v = None then [] else [(field_path p key, NOT_FLAG)])"

definition row_at :: "obj \<Rightarrow> string \<Rightarrow> problem list" where
  "row_at row p =
     string_at row ''key'' p False @ string_at row ''value'' p False @ flag_at row ''enabled'' p False @
     (if om_get row ''json'' \<noteq> None \<and>
         (om_get row ''json'' \<noteq> Some (JBool True) \<or> \<not> (case om_get row ''value'' of None \<Rightarrow> False | Some v \<Rightarrow> is_json_text v))
      then [(field_path p ''json'', ''Value must be true, on a value that is JSON.'')] else [])"

definition rows_at :: "json option \<Rightarrow> string \<Rightarrow> problem list" where
  "rows_at v p = list_at v p row_at"

fun auth_name :: "auth_type \<Rightarrow> string" where
  "auth_name TInherit = ''inherit''"
| "auth_name TNone = ''none''"
| "auth_name TBearer = ''bearer''"
| "auth_name TBasic = ''basic''"
| "auth_name TApiKey = ''apikey''"
| "auth_name TAwsV4 = ''awsv4''"
| "auth_name TOAuth2 = ''oauth2''"

definition AUTH_TYPES :: "string list" where
  "AUTH_TYPES = map auth_name [TInherit, TNone, TBearer, TBasic, TApiKey, TAwsV4, TOAuth2]"

fun grant_name :: "oauth_grant \<Rightarrow> string" where
  "grant_name AuthorizationCode = ''authorization_code''"
| "grant_name ClientCredentials = ''client_credentials''"
| "grant_name PasswordGrant = ''password''"

definition OAUTH_GRANTS :: "string list" where
  "OAUTH_GRANTS = map grant_name [AuthorizationCode, ClientCredentials, PasswordGrant]"

definition own_auth_at :: "obj \<Rightarrow> string \<Rightarrow> problem list" where
  "own_auth_at auth p =
     (let strings = (\<lambda>keys. concat (map (\<lambda>key. string_at auth key p False) keys)); type = om_get auth ''type''
      in if type = Some (JStr ''bearer'') then strings [''token'']
         else if type = Some (JStr ''basic'') then strings [''username'', ''password'']
         else if type = Some (JStr ''apikey'') then strings [''key'', ''value''] @ one_of_at auth ''in'' p [''header'', ''query''] False
         else if type = Some (JStr ''awsv4'') then strings [''accessKey'', ''secretKey'', ''sessionToken'', ''region'', ''service'']
         else if type = Some (JStr ''oauth2'') then
           one_of_at auth ''grant'' p OAUTH_GRANTS False @
           strings [''authUrl'', ''tokenUrl'', ''clientId'', ''clientSecret'', ''scope'', ''username'', ''password''] @
           one_of_at auth ''clientAuth'' p [''header'', ''body''] False @ flag_at auth ''retryOn401'' p False
         else [])"

definition auth_at :: "json option \<Rightarrow> string \<Rightarrow> bool \<Rightarrow> problem list" where
  "auth_at v p inherit =
     object_at v p (\<lambda>auth.
       one_of_at auth ''type'' p (if inherit then AUTH_TYPES else filter (\<lambda>t. t \<noteq> ''inherit'') AUTH_TYPES) False @ own_auth_at auth p)"

definition scripts_at :: "json option \<Rightarrow> string \<Rightarrow> problem list" where
  "scripts_at v p = object_at v p (\<lambda>s. string_at s ''pre'' p False @ string_at s ''post'' p False)"

definition file_ref_at :: "obj \<Rightarrow> string \<Rightarrow> problem list" where
  "file_ref_at fs p = string_at fs ''fileId'' p False @ string_at fs ''fileName'' p False"

definition validate_rows :: "json option \<Rightarrow> string \<Rightarrow> problem list" where
  "validate_rows v p = rows_at v p"

definition ROUTES :: "string list" where
  "ROUTES = [''auto'', ''direct'', ''bridge'']"

text \<open>\<open>True\<close> for a folder, \<open>False\<close> for a collection.\<close>

definition validate_inherited :: "json option \<Rightarrow> string \<Rightarrow> bool \<Rightarrow> problem list" where
  "validate_inherited v p is_folder =
     object_at v p (\<lambda>node.
       auth_at (om_get node ''auth'') (field_path p ''auth'') is_folder @
       scripts_at (om_get node ''scripts'') (field_path p ''scripts'') @
       (if is_folder then rows_at (om_get node ''variables'') (field_path p ''variables'')
        else one_of_at node ''route'' p ROUTES True))"

subsection \<open>A request\<close>

fun mode_name :: "body_mode \<Rightarrow> string" where
  "mode_name NoBody = ''none''"
| "mode_name Raw = ''raw''"
| "mode_name Urlencoded = ''urlencoded''"
| "mode_name Multipart = ''multipart''"
| "mode_name Binary = ''binary''"
| "mode_name Graphql = ''graphql''"

definition BODY_MODES :: "string list" where
  "BODY_MODES = map mode_name [NoBody, Raw, Urlencoded, Multipart, Binary, Graphql]"

fun language_name :: "raw_language \<Rightarrow> string" where
  "language_name Json = ''json''"
| "language_name Text = ''text''"
| "language_name Xml = ''xml''"
| "language_name Html = ''html''"
| "language_name Javascript = ''javascript''"

definition RAW_LANGUAGES :: "string list" where
  "RAW_LANGUAGES = map language_name [Json, Text, Xml, Html, Javascript]"

fun target_name :: "assertion_target \<Rightarrow> string" where
  "target_name OnStatus = ''status''"
| "target_name OnBody = ''body''"
| "target_name OnHeader = ''header''"
| "target_name OnDuration = ''duration''"

definition ASSERTION_TARGETS :: "string list" where
  "ASSERTION_TARGETS = map target_name [OnStatus, OnBody, OnHeader, OnDuration]"

fun operator_name :: "assertion_operator \<Rightarrow> string" where
  "operator_name Equals = ''equals''"
| "operator_name NotEquals = ''not-equals''"
| "operator_name Contains = ''contains''"
| "operator_name NotContains = ''not-contains''"
| "operator_name Exists = ''exists''"
| "operator_name NotExists = ''not-exists''"
| "operator_name IsArray = ''is-array''"
| "operator_name IsObject = ''is-object''"
| "operator_name LessThan = ''less-than''"
| "operator_name GreaterThan = ''greater-than''"

definition ASSERTION_OPERATORS :: "string list" where
  "ASSERTION_OPERATORS =
     map operator_name [Equals, NotEquals, Contains, NotContains, Exists, NotExists, IsArray, IsObject, LessThan, GreaterThan]"

definition part_at :: "obj \<Rightarrow> string \<Rightarrow> problem list" where
  "part_at item p =
     string_at item ''key'' p False @ flag_at item ''enabled'' p False @ one_of_at item ''kind'' p [''text'', ''file''] False @
     (if om_get item ''kind'' = Some (JStr ''text'') then string_at item ''value'' p False else []) @
     (if om_get item ''kind'' = Some (JStr ''file'') then file_ref_at item p else [])"

text \<open>A part of the body: checked when present, and to be present when it is the one sent.\<close>

definition sent_part :: "obj \<Rightarrow> string \<Rightarrow> bool" where
  "sent_part body name \<longleftrightarrow> om_get body name \<noteq> None \<or> om_get body ''mode'' = Some (JStr name)"

definition body_at :: "obj \<Rightarrow> string \<Rightarrow> problem list" where
  "body_at body p =
     one_of_at body ''mode'' p BODY_MODES False @
     (if sent_part body ''raw'' then
        object_at (om_get body ''raw'') (field_path p ''raw'') (\<lambda>raw.
          one_of_at raw ''language'' (field_path p ''raw'') RAW_LANGUAGES False @ string_at raw ''text'' (field_path p ''raw'') False)
      else []) @
     (if sent_part body ''urlencoded'' then rows_at (om_get body ''urlencoded'') (field_path p ''urlencoded'') else []) @
     (if sent_part body ''multipart'' then list_at (om_get body ''multipart'') (field_path p ''multipart'') part_at else []) @
     (if sent_part body ''graphql'' then
        object_at (om_get body ''graphql'') (field_path p ''graphql'') (\<lambda>g.
          string_at g ''query'' (field_path p ''graphql'') False @ string_at g ''variables'' (field_path p ''graphql'') False)
      else []) @
     (if om_get body ''binary'' \<noteq> None then
        object_at (om_get body ''binary'') (field_path p ''binary'') (\<lambda>b.
          file_ref_at b (field_path p ''binary'') @ string_at b ''contentType'' (field_path p ''binary'') True)
      else [])"

definition assertion_at :: "obj \<Rightarrow> string \<Rightarrow> problem list" where
  "assertion_at t p =
     string_at t ''id'' p False @ one_of_at t ''target'' p ASSERTION_TARGETS False @
     one_of_at t ''operator'' p ASSERTION_OPERATORS False @ string_at t ''key'' p True @ string_at t ''expected'' p True"

definition settings_at :: "obj \<Rightarrow> string \<Rightarrow> problem list" where
  "settings_at s p =
     (case om_get s ''timeoutMs'' of
        None \<Rightarrow> []
      | Some (JNum d) \<Rightarrow> if num_less d (num_of_int 0) then [(field_path p ''timeoutMs'', ''Value must be a number, 0 or more.'')] else []
      | Some _ \<Rightarrow> [(field_path p ''timeoutMs'', ''Value must be a number, 0 or more.'')]) @
     flag_at s ''followRedirects'' p True @ one_of_at s ''route'' p ROUTES True @ flag_at s ''tlsInsecure'' p True"

definition method_at :: "obj \<Rightarrow> string \<Rightarrow> problem list" where
  "method_at r p =
     (case om_get r ''method'' of
        Some (JStr m) \<Rightarrow>
          if is_http_method m then []
          else [(field_path p ''method'', ''Value must be an HTTP method: one word of at most 32 characters, in upper case.'')]
      | _ \<Rightarrow> [(field_path p ''method'', ''Value must be an HTTP method: one word of at most 32 characters, in upper case.'')])"

definition NOT_EMPTY :: string where
  "NOT_EMPTY = ''Value must be a non-empty string.''"

text \<open>A text with more than white space in it.\<close>

definition filled :: "json option \<Rightarrow> bool" where
  "filled v \<longleftrightarrow> (case v of Some (JStr s) \<Rightarrow> trim s \<noteq> [] | _ \<Rightarrow> False)"

definition validate_request_content :: "json option \<Rightarrow> string \<Rightarrow> problem list" where
  "validate_request_content v p =
     object_at v p (\<lambda>r.
       method_at r p @
       (if filled (om_get r ''url'') then [] else [(field_path p ''url'', NOT_EMPTY)]) @
       rows_at (om_get r ''params'') (field_path p ''params'') @
       rows_at (om_get r ''headers'') (field_path p ''headers'') @
       object_at (om_get r ''body'') (field_path p ''body'') (\<lambda>b. body_at b (field_path p ''body'')) @
       auth_at (om_get r ''auth'') (field_path p ''auth'') True @
       scripts_at (om_get r ''scripts'') (field_path p ''scripts'') @
       list_at (om_get r ''tests'') (field_path p ''tests'') assertion_at @
       object_at (om_get r ''settings'') (field_path p ''settings'') (\<lambda>s. settings_at s (field_path p ''settings'')))"


section \<open>What the app writes\<close>

definition row_object :: "row \<Rightarrow> json" where
  "row_object r = present [(''key'', text_field (row_key r)), (''value'', text_field (row_value r)),
     (''enabled'', Some (JBool (row_enabled r))), (''json'', yes_field (row_json r))]"

definition rows_object :: "row list \<Rightarrow> json" where
  "rows_object rs = JArr (map row_object rs)"

fun in_name :: "api_key_in \<Rightarrow> string" where
  "in_name InHeader = ''header''"
| "in_name InQuery = ''query''"

fun client_auth_name :: "client_auth \<Rightarrow> string" where
  "client_auth_name ClientHeader = ''header''"
| "client_auth_name ClientBody = ''body''"

fun auth_texts_of :: "auth_config \<Rightarrow> (string \<times> json option) list" where
  "auth_texts_of (Bearer t) = [(''token'', text_field t)]"
| "auth_texts_of (Basic u pw) = [(''username'', text_field u), (''password'', text_field pw)]"
| "auth_texts_of (ApiKey k v i) = [(''key'', text_field k), (''value'', text_field v), (''in'', text_field (in_name i))]"
| "auth_texts_of (AwsV4 a) =
     [(''accessKey'', text_field (aws_access_key a)), (''secretKey'', text_field (aws_secret_key a)),
      (''sessionToken'', text_field (aws_session_token a)), (''region'', text_field (aws_region a)),
      (''service'', text_field (aws_service a))]"
| "auth_texts_of (OAuth2 a) =
     [(''grant'', text_field (grant_name (oa_grant a))), (''authUrl'', text_field (oa_auth_url a)),
      (''tokenUrl'', text_field (oa_token_url a)), (''clientId'', text_field (oa_client_id a)),
      (''clientSecret'', text_field (oa_client_secret a)), (''scope'', text_field (oa_scope a)),
      (''username'', text_field (oa_username a)), (''password'', text_field (oa_password a)),
      (''clientAuth'', text_field (client_auth_name (oa_client_auth a))), (''retryOn401'', Some (JBool (oa_retry_on_401 a)))]"
| "auth_texts_of _ = []"

definition auth_object :: "auth_config \<Rightarrow> json" where
  "auth_object a = present ((''type'', text_field (auth_name (type_of a))) # auth_texts_of a)"

definition scripts_object :: "scripts \<Rightarrow> json" where
  "scripts_object s = present [(''pre'', text_field (script_pre s)), (''post'', text_field (script_post s))]"

definition file_fields :: "file_ref \<Rightarrow> (string \<times> json option) list" where
  "file_fields f = [(''fileId'', text_field (file_id f)), (''fileName'', text_field (file_name f))]"

fun part_object :: "multipart_part \<Rightarrow> json" where
  "part_object (TextPart k e v) =
     present [(''key'', text_field k), (''enabled'', Some (JBool e)), (''kind'', text_field ''text''), (''value'', text_field v)]"
| "part_object (FilePart k e f) =
     present ([(''key'', text_field k), (''enabled'', Some (JBool e)), (''kind'', text_field ''file'')] @ file_fields f)"

definition raw_object :: "raw_body \<Rightarrow> json" where
  "raw_object r = present [(''language'', text_field (language_name (raw_language r))), (''text'', text_field (raw_text r))]"

definition graphql_object :: "graphql_body \<Rightarrow> json" where
  "graphql_object g = present [(''query'', text_field (gql_query g)), (''variables'', text_field (gql_variables g))]"

definition binary_object :: "binary_body \<Rightarrow> json" where
  "binary_object b = present (file_fields (bin_file b) @ [(''contentType'', map_option JStr (bin_content_type b))])"

definition body_object :: "request_body \<Rightarrow> json" where
  "body_object b = present
     [(''mode'', text_field (mode_name (body_mode b))), (''raw'', map_option raw_object (body_raw b)),
      (''urlencoded'', map_option rows_object (body_urlencoded b)),
      (''multipart'', map_option (JArr \<circ> map part_object) (body_multipart b)),
      (''binary'', map_option binary_object (body_binary b)), (''graphql'', map_option graphql_object (body_graphql b))]"

definition assertion_object :: "test_assertion \<Rightarrow> json" where
  "assertion_object t = present
     [(''id'', text_field (ta_id t)), (''target'', text_field (target_name (ta_target t))), (''key'', map_option JStr (ta_key t)),
      (''operator'', text_field (operator_name (ta_operator t))), (''expected'', map_option JStr (ta_expected t))]"

fun route_text :: "route \<Rightarrow> string" where
  "route_text Auto = ''auto''"
| "route_text Direct = ''direct''"
| "route_text Bridge = ''bridge''"

text \<open>A rational that a number of a file can be is written as that number.\<close>

definition number_json :: "rat \<Rightarrow> json" where
  "number_json x = (let (n, d) = quotient_of x in JNum (norm_num (n * 10 ^ nat d div d) (nat d)))"

definition settings_object :: "request_settings \<Rightarrow> json" where
  "settings_object s = present
     [(''timeoutMs'', map_option number_json (set_timeout_ms s)),
      (''followRedirects'', map_option JBool (set_follow_redirects s)),
      (''route'', map_option (JStr \<circ> route_text) (set_route s)), (''tlsInsecure'', yes_field (set_tls_insecure s))]"

definition content_fields :: "request_content \<Rightarrow> (string \<times> json option) list" where
  "content_fields r =
     [(''method'', text_field (rc_method r)), (''url'', text_field (rc_url r)), (''params'', Some (rows_object (rc_params r))),
      (''headers'', Some (rows_object (rc_headers r))), (''body'', Some (body_object (rc_body r))),
      (''auth'', Some (auth_object (rc_auth r))), (''scripts'', Some (scripts_object (rc_scripts r))),
      (''tests'', Some (JArr (map assertion_object (rc_tests r)))), (''settings'', Some (settings_object (rc_settings r)))]"

subsection \<open>What is accepted of it\<close>

definition row_sound :: "row \<Rightarrow> bool" where
  "row_sound r \<longleftrightarrow> (row_json r \<longrightarrow> parse_json (row_value r) \<noteq> None)"

definition body_sound :: "request_body \<Rightarrow> bool" where
  "body_sound b \<longleftrightarrow>
     (case body_mode b of
        Raw \<Rightarrow> body_raw b \<noteq> None | Urlencoded \<Rightarrow> body_urlencoded b \<noteq> None | Multipart \<Rightarrow> body_multipart b \<noteq> None
      | Graphql \<Rightarrow> body_graphql b \<noteq> None | _ \<Rightarrow> True) \<and>
     (case body_urlencoded b of None \<Rightarrow> True | Some rs \<Rightarrow> list_all row_sound rs)"

definition content_sound :: "request_content \<Rightarrow> bool" where
  "content_sound r \<longleftrightarrow>
     is_http_method (rc_method r) \<and> trim (rc_url r) \<noteq> [] \<and> list_all row_sound (rc_params r) \<and> list_all row_sound (rc_headers r) \<and>
     body_sound (rc_body r) \<and> (case set_timeout_ms (rc_settings r) of None \<Rightarrow> True | Some t \<Rightarrow> 0 \<le> t)"

text \<open>A field of what is written.\<close>

definition present_fields :: "(string \<times> json option) list \<Rightarrow> obj" where
  "present_fields es = List.map_filter (\<lambda>(k, e). map_option (Pair k) e) es"

lemma present_object: "present es = JObj (present_fields es)"
  by (simp add: present_def present_fields_def)

lemma present_fields_simps:
  "present_fields [] = []" "present_fields ((k, None) # es) = present_fields es"
  "present_fields ((k, Some v) # es) = (k, v) # present_fields es"
  by (simp_all add: present_fields_def List.map_filter_def)

lemma elem_present_fields: "(k, v) \<in> set (present_fields es) \<longleftrightarrow> (k, Some v) \<in> set es"
proof (induction es)
  case (Cons e es)
  obtain k' x where "e = (k', x)" by (cases e)
  with Cons show ?case by (cases x) (auto simp: present_fields_simps)
qed (simp add: present_fields_simps)

lemma distinct_present_fields: "distinct (map fst es) \<Longrightarrow> distinct (map fst (present_fields es))"
proof (induction es)
  case (Cons e es)
  obtain k x where "e = (k, x)" by (cases e)
  with Cons show ?case by (cases x) (force simp: present_fields_simps elem_present_fields)+
qed (simp add: present_fields_simps)

lemma om_get_fields: "distinct (map fst es) \<Longrightarrow> om_get (present_fields es) k = Option.bind (map_of es k) (\<lambda>e. e)"
proof (cases "map_of es k")
  case None
  then have "k \<notin> fst ` set es" by (simp add: map_of_eq_None_iff)
  then show ?thesis using None by (simp add: present_fields_def om_get_present_None)
next
  case (Some e)
  assume "distinct (map fst es)"
  with Some show ?thesis using om_get_present [OF _ map_of_SomeD [OF Some]] by (simp add: present_fields_def)
qed

text \<open>What a check says does not depend on where it is told to be.\<close>

lemma member_present: "distinct (map fst es) \<Longrightarrow> member (present es) k = Option.bind (map_of es k) (\<lambda>e. e)"
proof (cases "map_of es k")
  case None
  then have "k \<notin> fst ` set es" by (simp add: map_of_eq_None_iff)
  then show ?thesis using None by (simp add: present_def member_def om_get_present_None)
next
  case (Some e)
  assume "distinct (map fst es)"
  with Some show ?thesis using om_get_present [OF _ map_of_SomeD [OF Some]] by (simp add: present_def member_def)
qed

lemma object_at_Nil: "object_at v p chk = [] \<longleftrightarrow> (\<exists>fs. v = Some (JObj fs) \<and> chk fs = [])"
  by (auto simp: object_at_def split: option.splits json.splits)

lemma string_at_Nil: "string_at fs key p optional = [] \<longleftrightarrow>
    (\<exists>s. om_get fs key = Some (JStr s)) \<or> optional \<and> om_get fs key = None"
  by (auto simp: string_at_def split: option.splits json.splits)

lemma one_of_at_Nil: "one_of_at fs key p allowed optional = [] \<longleftrightarrow>
    (\<exists>s \<in> set allowed. om_get fs key = Some (JStr s)) \<or> optional \<and> om_get fs key = None"
  by (auto simp: one_of_at_def Let_def split: option.splits json.splits)

lemma flag_at_Nil: "flag_at fs key p optional = [] \<longleftrightarrow>
    (\<exists>b. om_get fs key = Some (JBool b)) \<or> optional \<and> om_get fs key = None"
  by (auto simp: flag_at_def split: option.splits json.splits)

lemma list_at_Nil:
  assumes "\<And>fs p. chk fs p = [] \<longleftrightarrow> ok fs"
  shows "list_at v p chk = [] \<longleftrightarrow> (\<exists>xs. v = Some (JArr xs) \<and> (\<forall>x \<in> set xs. \<exists>fs. x = JObj fs \<and> ok fs))"
proof (cases "\<exists>xs. v = Some (JArr xs)")
  case True
  then obtain xs where v: "v = Some (JArr xs)" by blast
  have "list_at v p chk = [] \<longleftrightarrow> (\<forall>y \<in> set (enumerate 0 xs). \<exists>fs. snd y = JObj fs \<and> ok fs)"
    by (auto simp: v list_at_def object_at_Nil assms)
  also have "\<dots> \<longleftrightarrow> (\<forall>x \<in> snd ` set (enumerate 0 xs). \<exists>fs. x = JObj fs \<and> ok fs)" by blast
  also have "snd ` set (enumerate 0 xs) = set xs" by (metis list.set_map map_snd_enumerate)
  finally show ?thesis by (simp add: v)
next
  case False
  then show ?thesis by (auto simp: list_at_def split: option.splits json.splits)
qed

lemma row_at_path: "row_at fs p = [] \<longleftrightarrow> row_at fs [] = []"
  by (simp add: row_at_def string_at_Nil flag_at_Nil)

lemma rows_at_Nil: "rows_at v p = [] \<longleftrightarrow> (\<exists>xs. v = Some (JArr xs) \<and> (\<forall>x \<in> set xs. \<exists>fs. x = JObj fs \<and> row_at fs [] = []))"
  unfolding rows_at_def by (rule list_at_Nil) (rule row_at_path)

lemma own_auth_at_path: "own_auth_at fs p = [] \<longleftrightarrow> own_auth_at fs [] = []"
  by (simp add: own_auth_at_def Let_def string_at_Nil flag_at_Nil one_of_at_Nil)

lemma auth_at_Nil: "auth_at v p inherit = [] \<longleftrightarrow>
    (\<exists>fs. v = Some (JObj fs) \<and> own_auth_at fs [] = [] \<and>
       (\<exists>t. om_get fs ''type'' = Some (JStr t) \<and> t \<in> set AUTH_TYPES \<and> (t = ''inherit'' \<longrightarrow> inherit)))"
proof (cases "\<exists>fs. v = Some (JObj fs)")
  case True
  then obtain fs where v: "v = Some (JObj fs)" by blast
  show ?thesis using own_auth_at_path [of fs p] by (auto simp: v auth_at_def object_at_def one_of_at_Nil)
next
  case False
  then show ?thesis by (auto simp: auth_at_def object_at_Nil)
qed

lemma scripts_at_Nil: "scripts_at v p = [] \<longleftrightarrow>
    (\<exists>fs s t. v = Some (JObj fs) \<and> om_get fs ''pre'' = Some (JStr s) \<and> om_get fs ''post'' = Some (JStr t))"
  by (auto simp: scripts_at_def object_at_Nil string_at_Nil)

lemma part_at_path: "part_at fs p = [] \<longleftrightarrow> part_at fs [] = []"
  by (simp add: part_at_def string_at_Nil flag_at_Nil one_of_at_Nil file_ref_at_def)

lemma assertion_at_path: "assertion_at fs p = [] \<longleftrightarrow> assertion_at fs [] = []"
  by (simp add: assertion_at_def string_at_Nil one_of_at_Nil)

lemma settings_at_path: "settings_at fs p = [] \<longleftrightarrow> settings_at fs [] = []"
  by (simp add: settings_at_def flag_at_Nil one_of_at_Nil split: option.split json.split)

lemma method_at_path: "method_at fs p = [] \<longleftrightarrow> method_at fs [] = []"
  by (simp add: method_at_def split: option.split json.split)

lemmas parts_Nil = list_at_Nil [of part_at "\<lambda>fs. part_at fs [] = []", OF part_at_path]
lemmas assertions_Nil = list_at_Nil [of assertion_at "\<lambda>fs. assertion_at fs [] = []", OF assertion_at_path]

lemma body_at_path: "body_at fs p = [] \<longleftrightarrow> body_at fs [] = []"
  by (simp add: body_at_def object_at_Nil string_at_Nil one_of_at_Nil rows_at_Nil parts_Nil file_ref_at_def)

lemma validate_inherited_path: "validate_inherited v p b = [] \<longleftrightarrow> validate_inherited v [] b = []"
  by (cases b) (simp_all add: validate_inherited_def object_at_Nil auth_at_Nil scripts_at_Nil rows_at_Nil one_of_at_Nil)

lemma validate_request_content_Nil: "validate_request_content v p = [] \<longleftrightarrow>
    (\<exists>r. v = Some (JObj r) \<and> method_at r [] = [] \<and> filled (om_get r ''url'') \<and>
      rows_at (om_get r ''params'') [] = [] \<and> rows_at (om_get r ''headers'') [] = [] \<and>
      (\<exists>b. om_get r ''body'' = Some (JObj b) \<and> body_at b [] = []) \<and> auth_at (om_get r ''auth'') [] True = [] \<and>
      scripts_at (om_get r ''scripts'') [] = [] \<and> list_at (om_get r ''tests'') [] assertion_at = [] \<and>
      (\<exists>s. om_get r ''settings'' = Some (JObj s) \<and> settings_at s [] = []))"
proof (cases "\<exists>r. v = Some (JObj r)")
  case True
  then obtain r where v: "v = Some (JObj r)" by blast
  note path = body_at_path [of _ "field_path _ _"] settings_at_path [of _ "field_path _ _"]
  show ?thesis
    unfolding v validate_request_content_def object_at_Nil append_is_Nil_conv path rows_at_Nil auth_at_Nil scripts_at_Nil assertions_Nil
    using method_at_path [of r p] by simp
next
  case False
  then show ?thesis by (auto simp: validate_request_content_def object_at_Nil)
qed

lemma validate_request_content_path: "validate_request_content v p = [] \<longleftrightarrow> validate_request_content v [] = []"
  by (simp only: validate_request_content_Nil)

subsection \<open>Each part of it\<close>

lemma auth_name_in [simp]: "auth_name t \<in> set AUTH_TYPES"
  by (cases t) (simp_all add: AUTH_TYPES_def)

lemma grant_name_in [simp]: "grant_name g \<in> set OAUTH_GRANTS"
  by (cases g) (simp_all add: OAUTH_GRANTS_def)

lemma mode_name_in [simp]: "mode_name m \<in> set BODY_MODES"
  by (cases m) (simp_all add: BODY_MODES_def)

lemma language_name_in [simp]: "language_name l \<in> set RAW_LANGUAGES"
  by (cases l) (simp_all add: RAW_LANGUAGES_def)

lemma target_name_in [simp]: "target_name t \<in> set ASSERTION_TARGETS"
  by (cases t) (simp_all add: ASSERTION_TARGETS_def)

lemma operator_name_in [simp]: "operator_name x \<in> set ASSERTION_OPERATORS"
  by (cases x) (simp_all add: ASSERTION_OPERATORS_def)

lemma route_text_in [simp]: "route_text r \<in> set ROUTES"
  by (cases r) (simp_all add: ROUTES_def)

lemma in_name_in [simp]: "in_name i = ''header'' \<or> in_name i = ''query''"
  by (cases i) simp_all

lemma client_auth_name_in [simp]: "client_auth_name c = ''header'' \<or> client_auth_name c = ''body''"
  by (cases c) simp_all

lemmas field_simps' = om_get_fields text_field_def yes_field_def

lemma row_accepted: "\<exists>fs. row_object r = JObj fs \<and> (row_at fs [] = [] \<longleftrightarrow> row_sound r)"
  by (simp add: row_object_def present_object row_at_def string_at_Nil flag_at_Nil field_simps' row_sound_def is_json_text_def)

lemma rows_accepted: "rows_at (Some (rows_object rs)) p = [] \<longleftrightarrow> list_all row_sound rs"
proof -
  have "(\<exists>fs. row_object r = JObj fs \<and> row_at fs [] = []) \<longleftrightarrow> row_sound r" for r using row_accepted [of r] by auto
  then show ?thesis by (simp add: rows_at_Nil rows_object_def list_all_iff)
qed

lemma auth_accepted: "auth_at (Some (auth_object a)) p inherit = [] \<longleftrightarrow> (a = Inherit \<longrightarrow> inherit)"
proof -
  have "auth_object a = JObj (present_fields ((''type'', text_field (auth_name (type_of a))) # auth_texts_of a))"
    by (simp add: auth_object_def present_object)
  moreover have "distinct (map fst ((''type'', text_field (auth_name (type_of a))) # auth_texts_of a))" by (cases a) simp_all
  moreover have "own_auth_at (present_fields ((''type'', text_field (auth_name (type_of a))) # auth_texts_of a)) [] = []"
    by (cases a) (simp_all add: own_auth_at_def Let_def string_at_Nil flag_at_Nil one_of_at_Nil field_simps')
  moreover have "auth_name (type_of a) = ''inherit'' \<longleftrightarrow> a = Inherit" by (cases a) simp_all
  ultimately show ?thesis by (simp add: auth_at_Nil om_get_fields text_field_def)
qed

lemma scripts_accepted [simp]: "scripts_at (Some (scripts_object s)) p = []"
  by (simp add: scripts_at_Nil scripts_object_def present_object field_simps')

lemma part_accepted: "\<exists>fs. part_object q = JObj fs \<and> part_at fs [] = []"
  by (cases q) (simp_all add: present_object part_at_def string_at_Nil flag_at_Nil one_of_at_Nil file_ref_at_def file_fields_def field_simps')

lemma assertion_accepted: "\<exists>fs. assertion_object t = JObj fs \<and> assertion_at fs [] = []"
  by (simp add: assertion_object_def present_object assertion_at_def string_at_Nil one_of_at_Nil field_simps')
     (metis option.exhaust option.map(1) option.map(2))

lemma norm_num_sign: "mantissa (norm_num m k) < 0 \<longleftrightarrow> m < 0"
proof (induction m k rule: norm_num.induct)
  case (2 m k)
  then show ?case by auto
qed simp

lemma number_json_sign: "\<exists>d. number_json x = JNum d \<and> (num_less d (num_of_int 0) \<longleftrightarrow> x < 0)"
proof -
  obtain n d where q: "quotient_of x = (n, d)" by (cases "quotient_of x")
  then have d: "0 < d" and x: "x = of_int n / of_int d" using quotient_of_denom_pos quotient_of_div by blast+
  have "n * 10 ^ nat d div d < 0 \<longleftrightarrow> n < 0"
    using d by (simp add: neg_imp_zdiv_neg_iff pos_imp_zdiv_neg_iff mult_less_0_iff)
  moreover have "x < 0 \<longleftrightarrow> n < 0" using d x by (simp add: divide_less_0_iff)
  ultimately show ?thesis by (simp add: number_json_def q num_less_def num_of_int_def norm_num_sign mult_less_0_iff)
qed

lemma settings_accepted: "\<exists>fs. settings_object s = JObj fs \<and>
    (settings_at fs [] = [] \<longleftrightarrow> (case set_timeout_ms s of None \<Rightarrow> True | Some t \<Rightarrow> 0 \<le> t))"
proof -
  have "(case set_timeout_ms s of None \<Rightarrow> True | Some t \<Rightarrow> 0 \<le> t) \<longleftrightarrow>
      (case map_option number_json (set_timeout_ms s) of None \<Rightarrow> True | Some (JNum d) \<Rightarrow> \<not> num_less d (num_of_int 0) | _ \<Rightarrow> False)"
  proof (cases "set_timeout_ms s")
    case (Some t)
    then show ?thesis using number_json_sign [of t] by auto
  qed simp
  moreover have "map_option JBool b = Some (JBool c) \<or> b = None" if "b = Some c \<or> b = None" for b c using that by auto
  ultimately show ?thesis
    by (cases "set_follow_redirects s"; cases "set_route s"; cases "set_timeout_ms s")
       (auto simp: settings_object_def present_object settings_at_def flag_at_Nil one_of_at_Nil field_simps' 
        split: json.splits)
qed

lemma body_accepted: "\<exists>fs. body_object b = JObj fs \<and> (body_at fs [] = [] \<longleftrightarrow> body_sound b)"
proof -
  obtain fs where fs: "body_object b = JObj fs" and get: "om_get fs ''mode'' = Some (JStr (mode_name (body_mode b)))"
    "om_get fs ''raw'' = map_option raw_object (body_raw b)"
    "om_get fs ''urlencoded'' = map_option rows_object (body_urlencoded b)"
    "om_get fs ''multipart'' = map_option (JArr \<circ> map part_object) (body_multipart b)"
    "om_get fs ''binary'' = map_option binary_object (body_binary b)"
    "om_get fs ''graphql'' = map_option graphql_object (body_graphql b)"
    by (simp add: body_object_def present_object om_get_fields text_field_def)
  have raw: "object_at (Some (raw_object r)) p (\<lambda>raw. one_of_at raw ''language'' q RAW_LANGUAGES False @ string_at raw ''text'' q False) = []"
    for r p q by (simp add: raw_object_def present_object object_at_def one_of_at_Nil string_at_Nil field_simps')
  have gql: "object_at (Some (graphql_object g)) p (\<lambda>g. string_at g ''query'' q False @ string_at g ''variables'' q False) = []"
    for g p q by (simp add: graphql_object_def present_object object_at_def string_at_Nil field_simps')
  have bin: "object_at (Some (binary_object y)) p (\<lambda>b. file_ref_at b q @ string_at b ''contentType'' q True) = []" for y p q
    by (cases "bin_content_type y")
       (simp_all add: binary_object_def present_object object_at_def file_ref_at_def string_at_Nil file_fields_def field_simps')
  have parts: "list_at (Some (JArr (map part_object ps))) p part_at = []" for ps p
    using part_accepted by (auto simp: parts_Nil)
  have mode: "(mode_name (body_mode b) = ''raw'') = (body_mode b = Raw)" "(mode_name (body_mode b) = ''urlencoded'') = (body_mode b = Urlencoded)"
    "(mode_name (body_mode b) = ''multipart'') = (body_mode b = Multipart)" "(mode_name (body_mode b) = ''graphql'') = (body_mode b = Graphql)"
    by (cases "body_mode b"; simp)+
  have "body_at fs [] = [] \<longleftrightarrow> body_sound b"
  proof -
    let ?part = "\<lambda>name check. (if sent_part fs name then check (om_get fs name) else []) = []"
    have "?part ''raw'' (\<lambda>v. object_at v p (\<lambda>raw. one_of_at raw ''language'' q RAW_LANGUAGES False @ string_at raw ''text'' q False))
        \<longleftrightarrow> (body_mode b = Raw \<longrightarrow> body_raw b \<noteq> None)" for p q
      by (cases "body_raw b") (simp_all add: sent_part_def get mode raw, simp add: object_at_def)
    moreover have "?part ''urlencoded'' (\<lambda>v. rows_at v p) \<longleftrightarrow> (body_mode b = Urlencoded \<longrightarrow> body_urlencoded b \<noteq> None) \<and>
        (case body_urlencoded b of None \<Rightarrow> True | Some rs \<Rightarrow> list_all row_sound rs)" for p
      by (cases "body_urlencoded b") (simp_all add: sent_part_def get mode rows_accepted, simp add: rows_at_Nil)
    moreover have "?part ''multipart'' (\<lambda>v. list_at v p part_at) \<longleftrightarrow> (body_mode b = Multipart \<longrightarrow> body_multipart b \<noteq> None)" for p
      by (cases "body_multipart b") (simp_all add: sent_part_def get mode parts, simp add: parts_Nil)
    moreover have "?part ''graphql'' (\<lambda>v. object_at v p (\<lambda>g. string_at g ''query'' q False @ string_at g ''variables'' q False))
        \<longleftrightarrow> (body_mode b = Graphql \<longrightarrow> body_graphql b \<noteq> None)" for p q
      by (cases "body_graphql b") (simp_all add: sent_part_def get mode gql, simp add: object_at_def)
    moreover have "(if om_get fs ''binary'' \<noteq> None then
        object_at (om_get fs ''binary'') p (\<lambda>b. file_ref_at b q @ string_at b ''contentType'' q True) else []) = []" for p q
      by (cases "body_binary b") (simp_all add: get bin)
    moreover have "one_of_at fs ''mode'' p BODY_MODES False = []" for p by (simp add: one_of_at_Nil get(1))
    ultimately show ?thesis
      unfolding body_at_def append_is_Nil_conv body_sound_def by (cases "body_mode b") (simp_all add: conj_commute)
  qed
  then show ?thesis using fs by blast
qed

lemma method_accepted: "om_get r ''method'' = Some (JStr m) \<Longrightarrow> method_at r [] = [] \<longleftrightarrow> is_http_method m"
  by (simp add: method_at_def)

lemma tests_accepted: "list_at (Some (JArr (map assertion_object ts))) p assertion_at = []"
  using assertion_accepted by (auto simp: assertions_Nil)

text \<open>
  A request is accepted exactly when its method and address are ones, its marked values are JSON, the part of the body
  that is sent is there, and its timeout is no negative number; \<open>es\<close> is the whole document the file holds.
\<close>

lemma content_accepted:
  assumes "distinct (map fst es)" "set (content_fields r) \<subseteq> set es"
  shows "validate_request_content (Some (present es)) p = [] \<longleftrightarrow> content_sound r"
proof -
  let ?fs = "present_fields es"
  have get: "om_get ?fs k = e" if "(k, e) \<in> set (content_fields r)" for k e
  proof -
    have "map_of es k = Some e" using that assms by (intro map_of_is_SomeI) auto
    then show ?thesis by (simp add: om_get_fields [OF assms(1)])
  qed
  note here = get [of _ "text_field _"] get [of _ "Some _"]
  have named: "om_get ?fs ''method'' = Some (JStr (rc_method r))" "om_get ?fs ''url'' = Some (JStr (rc_url r))"
    using here by (simp_all add: content_fields_def text_field_def)
  have others: "om_get ?fs ''params'' = Some (rows_object (rc_params r))" "om_get ?fs ''headers'' = Some (rows_object (rc_headers r))"
    "om_get ?fs ''body'' = Some (body_object (rc_body r))" "om_get ?fs ''auth'' = Some (auth_object (rc_auth r))"
    "om_get ?fs ''scripts'' = Some (scripts_object (rc_scripts r))"
    "om_get ?fs ''tests'' = Some (JArr (map assertion_object (rc_tests r)))"
    "om_get ?fs ''settings'' = Some (settings_object (rc_settings r))"
    using here(2) by (simp_all add: content_fields_def)
  obtain b s where bs: "body_object (rc_body r) = JObj b" "body_at b [] = [] \<longleftrightarrow> body_sound (rc_body r)"
    "settings_object (rc_settings r) = JObj s"
    "settings_at s [] = [] \<longleftrightarrow> (case set_timeout_ms (rc_settings r) of None \<Rightarrow> True | Some t \<Rightarrow> 0 \<le> t)"
    using body_accepted settings_accepted by metis
  show ?thesis
    unfolding present_object validate_request_content_Nil
    by (simp add: named others bs rows_accepted auth_accepted tests_accepted method_accepted filled_def content_sound_def)
qed

end
