(* ===== verification/CollectionFile.thy ===== *)
theory CollectionFile
  imports Validate
begin

text \<open>
  A collection's file, \<open>packages/core/src/import/wayfarer-collection.ts\<close>: written with its names in order, checked and
  read back, and imported as new under ids of its own. A file is JSON here as it is in the code; \<open>lc\<close> is
  \<open>a.localeCompare(b) \<le> 0\<close>, and \<open>fresh\<close> and \<open>now\<close> are what \<open>newId\<close> and the clock give. Names that are array
  indices, which the language puts before an object's other names, are in the order of the others here.
\<close>

section \<open>The file checked\<close>

definition IMPORT_TOO_LARGE :: string where
  "IMPORT_TOO_LARGE = ''A file to import can be 10 MB at most, and this one is larger.''"

text \<open>A field of a value that may be no object (\<open>value?.key\<close>), and \<open>a ?? b\<close>.\<close>

definition field :: "json option \<Rightarrow> string \<Rightarrow> json option" where
  "field v key = (case v of Some (JObj fs) \<Rightarrow> om_get fs key | _ \<Rightarrow> None)"

definition or_else :: "json option \<Rightarrow> json option \<Rightarrow> json option" where
  "or_else a b = (if a = None \<or> a = Some JNull then b else a)"

definition truthy :: "json option \<Rightarrow> bool" where
  "truthy v \<longleftrightarrow>
     (case v of
        None \<Rightarrow> False | Some JNull \<Rightarrow> False | Some (JBool b) \<Rightarrow> b | Some (JNum d) \<Rightarrow> mantissa d \<noteq> 0 | Some (JStr s) \<Rightarrow> s \<noteq> []
      | Some (JArr _) \<Rightarrow> True | Some (JObj _) \<Rightarrow> True)"

definition is_number :: "json option \<Rightarrow> bool" where
  "is_number v \<longleftrightarrow> (case v of Some (JNum _) \<Rightarrow> True | _ \<Rightarrow> False)"

definition required_string :: "json option \<Rightarrow> string \<Rightarrow> problem list" where
  "required_string v p = (if filled v then [] else [(p, NOT_EMPTY)])"

definition description_at :: "json option \<Rightarrow> string \<Rightarrow> problem list" where
  "description_at v p = (case v of None \<Rightarrow> [] | Some (JStr _) \<Rightarrow> [] | Some _ \<Rightarrow> [(p, NOT_STRING)])"

definition number_at :: "json option \<Rightarrow> string \<Rightarrow> problem list" where
  "number_at v p = (if is_number v then [] else [(p, ''Value must be a number.'')])"

text \<open>An array is an object too, with none of these fields.\<close>

definition validate_meta :: "json option \<Rightarrow> string \<Rightarrow> problem list" where
  "validate_meta m p =
     (if \<not> (case m of Some (JObj _) \<Rightarrow> True | Some (JArr _) \<Rightarrow> True | _ \<Rightarrow> False) then [(p, ''Meta must be an object.'')]
      else required_string (field m ''id'') (field_path p ''id'') @
        (if is_number (field m ''createdAt'') then [] else [(field_path p ''createdAt'', ''createdAt must be a number.'')]) @
        (if is_number (field m ''updatedAt'') then [] else [(field_path p ''updatedAt'', ''updatedAt must be a number.'')]))"

definition doc_id :: "json option \<Rightarrow> json option" where
  "doc_id doc = or_else (field doc ''id'') (field (field doc ''meta'') ''id'')"

definition validate_collection_doc :: "json option \<Rightarrow> string \<Rightarrow> problem list" where
  "validate_collection_doc doc p =
     validate_meta (field doc ''meta'') (field_path p ''meta'') @
     required_string (doc_id doc) (field_path p ''id'') @
     required_string (field doc ''name'') (field_path p ''name'') @
     description_at (field doc ''description'') (field_path p ''description'') @
     number_at (field doc ''order'') (field_path p ''order'') @
     validate_rows (field doc ''variables'') (field_path p ''variables'') @ validate_inherited doc p False"

definition validate_folder_doc :: "json option \<Rightarrow> string \<Rightarrow> problem list" where
  "validate_folder_doc doc p =
     validate_meta (field doc ''meta'') (field_path p ''meta'') @
     required_string (doc_id doc) (field_path p ''id'') @
     required_string (field doc ''collectionId'') (field_path p ''collectionId'') @
     required_string (field doc ''name'') (field_path p ''name'') @
     description_at (field doc ''description'') (field_path p ''description'') @
     number_at (field doc ''order'') (field_path p ''order'') @ validate_inherited doc p True"

definition validate_request_doc :: "json option \<Rightarrow> string \<Rightarrow> problem list" where
  "validate_request_doc doc p =
     validate_meta (field doc ''meta'') (field_path p ''meta'') @
     required_string (doc_id doc) (field_path p ''id'') @
     required_string (field doc ''collectionId'') (field_path p ''collectionId'') @
     required_string (field doc ''name'') (field_path p ''name'') @
     description_at (field doc ''description'') (field_path p ''description'') @ validate_request_content doc p"

definition docs_at :: "json option \<Rightarrow> string \<Rightarrow> string \<Rightarrow> (json option \<Rightarrow> string \<Rightarrow> problem list) \<Rightarrow> problem list" where
  "docs_at v p message chk =
     (case v of
        Some (JArr xs) \<Rightarrow> concat (map (\<lambda>(i, x). chk (Some x) (item_path p i)) (enumerate 0 xs))
      | _ \<Rightarrow> [(p, message)])"

definition NOT_A_COLLECTION :: problem where
  "NOT_A_COLLECTION =
     (''$id'', ''Not a Wayfarer collection file: '' @ [CHR 0x22] @ ''$id'' @ [CHR 0x22] @ '' must be '' @ [CHR 0x22] @ COLLECTION_FORMAT @ [CHR 0x22] @ ''.'')"

definition payload_problems :: "json \<Rightarrow> problem list" where
  "payload_problems v =
     (if truthy (member v ''collection'') then validate_collection_doc (member v ''collection'') ''collection''
      else [(''collection'', ''Missing collection block.'')]) @
     docs_at (member v ''folders'') ''folders'' ''Folders must be an array.'' validate_folder_doc @
     docs_at (member v ''requests'') ''requests'' ''Requests must be an array.'' validate_request_doc @
     (if truthy (member v ''meta'') then validate_meta (member v ''meta'') ''meta''
      else [(''meta'', ''Missing export meta block.'')])"

definition parsed_input :: "json \<Rightarrow> json option" where
  "parsed_input input = (case input of JStr t \<Rightarrow> parse_json t | v \<Rightarrow> Some v)"

definition validate_collection :: "json \<Rightarrow> problem list + json" where
  "validate_collection input =
     (if is_oversized_import input then Inl [(''root'', IMPORT_TOO_LARGE)]
      else case parsed_input input of
             Some (JArr xs) \<Rightarrow> Inl [NOT_A_COLLECTION]
           | Some (JObj fs) \<Rightarrow>
               if om_get fs ''$id'' \<noteq> Some (JStr COLLECTION_FORMAT) then Inl [NOT_A_COLLECTION]
               else if payload_problems (JObj fs) \<noteq> [] then Inl (payload_problems (JObj fs))
               else Inr (JObj fs)
           | _ \<Rightarrow> Inl [(''root'', ''Collection export must be an object.'')])"

section \<open>The order of a file\<close>

definition set_field :: "string \<Rightarrow> json \<Rightarrow> json \<Rightarrow> json" where
  "set_field key x v = (case v of JObj fs \<Rightarrow> JObj (om_set key x fs) | _ \<Rightarrow> v)"

text \<open>\<open>sortByOrder\<close>: by order, then by id.\<close>

definition order_number :: "json \<Rightarrow> decimal" where
  "order_number v = (case member v ''order'' of Some (JNum d) \<Rightarrow> d | _ \<Rightarrow> num_of_int 0)"

definition order_id :: "json \<Rightarrow> string" where
  "order_id v = js_string (the (or_else (doc_id (Some v)) (Some (JStr []))))"

definition stands_before :: "(string \<Rightarrow> string \<Rightarrow> bool) \<Rightarrow> json \<Rightarrow> json \<Rightarrow> bool" where
  "stands_before lc a b \<longleftrightarrow>
     (if num_less (order_number a) (order_number b) then True
      else if num_less (order_number b) (order_number a) then False else lc (order_id a) (order_id b))"

definition sort_by_order :: "(string \<Rightarrow> string \<Rightarrow> bool) \<Rightarrow> json list \<Rightarrow> json list" where
  "sort_by_order lc xs = sort_by (stands_before lc) xs"

fun sort_keys :: "(string \<Rightarrow> string \<Rightarrow> bool) \<Rightarrow> json \<Rightarrow> json" where
  "sort_keys lc (JArr xs) = JArr (map (sort_keys lc) xs)"
| "sort_keys lc (JObj ms) = JObj (sort_by (\<lambda>a b. lc (fst a) (fst b)) (map (\<lambda>(k, v). (k, sort_keys lc v)) ms))"
| "sort_keys lc v = v"

text \<open>\<open>doc.id = doc.meta.id\<close>.\<close>

definition ensure_doc_id :: "json \<Rightarrow> json" where
  "ensure_doc_id doc = (case field (member doc ''meta'') ''id'' of Some i \<Rightarrow> set_field ''id'' i doc | None \<Rightarrow> doc)"

definition docs_of :: "json \<Rightarrow> string \<Rightarrow> json list" where
  "docs_of v key = (case member v key of Some (JArr xs) \<Rightarrow> xs | _ \<Rightarrow> [])"

definition collection_of :: "json \<Rightarrow> json" where
  "collection_of v = (case member v ''collection'' of Some c \<Rightarrow> c | None \<Rightarrow> JNull)"

definition normalize_export :: "(string \<Rightarrow> string \<Rightarrow> bool) \<Rightarrow> json \<Rightarrow> json" where
  "normalize_export lc v =
     set_field ''requests'' (JArr (sort_by_order lc (map ensure_doc_id (docs_of v ''requests''))))
       (set_field ''folders'' (JArr (sort_by_order lc (map ensure_doc_id (docs_of v ''folders''))))
         (set_field ''collection'' (ensure_doc_id (collection_of v)) v))"

text \<open>A tree of the stores as a file: without what this device trusts.\<close>

definition to_export :: "json \<Rightarrow> json" where
  "to_export v =
     (if member v ''$id'' \<noteq> None then v
      else
        (let collection = (case collection_of v of JObj fs \<Rightarrow> JObj (filter (\<lambda>m. fst m \<noteq> ''scriptTrust'') fs) | c \<Rightarrow> c)
         in present [(''$id'', text_field COLLECTION_FORMAT), (''meta'', member collection ''meta''), (''collection'', Some collection),
              (''folders'', member v ''folders''), (''requests'', member v ''requests'')]))"

definition serialize_deterministic :: "(string \<Rightarrow> string \<Rightarrow> bool) \<Rightarrow> json \<Rightarrow> string" where
  "serialize_deterministic lc source = json_write ''  '' [] (sort_keys lc (normalize_export lc (to_export source)))"

section \<open>The import\<close>

datatype plan_type = PlanCollection | PlanFolder | PlanRequest

record plan_entry =
  pe_type :: plan_type
  pe_name :: json
  pe_id :: json
  pe_create :: bool

definition field_or_null :: "json \<Rightarrow> string \<Rightarrow> json" where
  "field_or_null v key = (case member v key of Some x \<Rightarrow> x | None \<Rightarrow> JNull)"

definition build_plan :: "json \<Rightarrow> bool \<Rightarrow> plan_entry list" where
  "build_plan payload duplicate =
     (let entry = (\<lambda>type name doc. \<lparr>pe_type = type, pe_name = name,
            pe_id = field_or_null (field_or_null doc ''meta'') ''id'', pe_create = duplicate\<rparr>)
      in entry PlanCollection (field_or_null (collection_of payload) ''name'') (collection_of payload) #
         map (\<lambda>f. entry PlanFolder (field_or_null f ''name'') f) (docs_of payload ''folders'') @
         map (\<lambda>r. entry PlanRequest (if truthy (member r ''name'') then field_or_null r ''name'' else field_or_null r ''url'') r)
           (docs_of payload ''requests''))"

text \<open>
  \<open>remapIdentifiers\<close>: the ids of the file and the new ones they stand for. A key of the map is text, as a property name
  is.
\<close>

type_synonym id_map = "(string \<times> string) list"

definition original_id :: "json \<Rightarrow> string" where
  "original_id doc = js_string (the (or_else (doc_id (Some doc)) (Some JNull)))"

definition touched :: "rat \<Rightarrow> string \<Rightarrow> json \<Rightarrow> json" where
  "touched now i doc =
     set_field ''meta'' (set_field ''updatedAt'' (number_json now) (set_field ''id'' (JStr i) (field_or_null doc ''meta'')))
       (set_field ''id'' (JStr i) doc)"

text \<open>A reference to an id of the file, or what it was.\<close>

definition remapped :: "id_map \<Rightarrow> string \<Rightarrow> json \<Rightarrow> json" where
  "remapped ids key doc =
     (if \<not> truthy (member doc key) then doc
      else case om_get ids (js_string (field_or_null doc key)) of Some i \<Rightarrow> set_field key (JStr i) doc | None \<Rightarrow> doc)"

definition remap_folder :: "id_map \<Rightarrow> rat \<Rightarrow> string \<Rightarrow> json \<Rightarrow> json" where
  "remap_folder ids now collection f =
     (let i = the (om_get ids (original_id f))
      in touched now i (remapped ids ''parentFolderId'' (set_field ''collectionId'' (JStr collection) f)))"

fun remap_requests :: "(nat \<Rightarrow> string) \<Rightarrow> nat \<Rightarrow> rat \<Rightarrow> string \<Rightarrow> id_map \<Rightarrow> json list \<Rightarrow> json list \<times> id_map" where
  "remap_requests fresh n now collection ids [] = ([], ids)"
| "remap_requests fresh n now collection ids (r # rs) =
     (let ids' = om_set (original_id r) (fresh n) ids;
          r' = touched now (fresh n) (remapped ids' ''folderId'' (set_field ''collectionId'' (JStr collection) r));
          (rs', ids'') = remap_requests fresh (Suc n) now collection ids' rs
      in (r' # rs', ids''))"

definition remap_identifiers :: "(nat \<Rightarrow> string) \<Rightarrow> rat \<Rightarrow> json \<Rightarrow> json \<times> id_map" where
  "remap_identifiers fresh now payload =
     (let c = collection_of payload; collection = fresh 0; fs = docs_of payload ''folders'';
          ids = om_set (original_id c) collection [];
          ids = fold (\<lambda>(i, f) m. om_set (original_id f) (fresh i) m) (enumerate 1 fs) ids;
          (rs, ids') = remap_requests fresh (Suc (length fs)) now collection ids (docs_of payload ''requests'')
      in (set_field ''requests'' (JArr rs)
            (set_field ''folders'' (JArr (map (remap_folder ids now collection) fs))
              (set_field ''collection'' (touched now collection c) payload)), ids'))"

record import_result =
  ir_payload :: json
  ir_plan :: "plan_entry list"
  ir_folders :: nat
  ir_requests :: nat
  ir_remap :: "id_map option"

definition import_collection ::
  "(string \<Rightarrow> string \<Rightarrow> bool) \<Rightarrow> (nat \<Rightarrow> string) \<Rightarrow> rat \<Rightarrow> json \<Rightarrow> bool \<Rightarrow> problem list + import_result" where
  "import_collection lc fresh now input duplicate =
     (case validate_collection input of
        Inl errors \<Rightarrow> Inl errors
      | Inr v \<Rightarrow>
          (let normalized = normalize_export lc v;
               (payload, ids) = (if duplicate then apsnd Some (remap_identifiers fresh now normalized) else (normalized, None))
           in Inr \<lparr>ir_payload = payload, ir_plan = build_plan payload duplicate, ir_folders = length (docs_of payload ''folders''),
                ir_requests = length (docs_of payload ''requests''), ir_remap = ids\<rparr>))"

section \<open>A tree as JSON\<close>

definition meta_object :: "meta \<Rightarrow> json" where
  "meta_object m = present [(''id'', text_field (meta_id m)), (''createdAt'', Some (number_json (meta_created_at m))),
     (''updatedAt'', Some (number_json (meta_updated_at m)))]"

definition trust_object :: "script_trust \<Rightarrow> json" where
  "trust_object t = present [(''trusted'', Some (JBool (trusted t))), (''approved'', map_option (JArr \<circ> map JStr) (approved t))]"

definition collection_fields :: "collection \<Rightarrow> (string \<times> json option) list" where
  "collection_fields c =
     [(''id'', text_field (col_id c)), (''meta'', Some (meta_object (col_meta c))), (''name'', text_field (col_name c)),
      (''description'', map_option JStr (col_description c)), (''order'', Some (number_json (col_order c))),
      (''variables'', Some (rows_object (col_variables c))), (''auth'', Some (auth_object (col_auth c))),
      (''scripts'', Some (scripts_object (col_scripts c))), (''route'', map_option (JStr \<circ> route_text) (col_route c))]"

definition collection_object :: "collection \<Rightarrow> json" where
  "collection_object c = present (collection_fields c @ [(''scriptTrust'', Some (trust_object (col_script_trust c)))])"

definition folder_object :: "folder \<Rightarrow> json" where
  "folder_object f = present
     [(''id'', text_field (fol_id f)), (''meta'', Some (meta_object (fol_meta f))), (''collectionId'', text_field (fol_collection_id f)),
      (''parentFolderId'', map_option JStr (fol_parent f)), (''name'', text_field (fol_name f)),
      (''description'', map_option JStr (fol_description f)), (''order'', Some (number_json (fol_order f))),
      (''variables'', Some (rows_object (fol_variables f))), (''auth'', Some (auth_object (fol_auth f))),
      (''scripts'', Some (scripts_object (fol_scripts f)))]"

definition place_fields :: "request_doc \<Rightarrow> (string \<times> json option) list" where
  "place_fields r =
     [(''id'', text_field (rd_id r)), (''meta'', Some (meta_object (rd_meta r))), (''collectionId'', text_field (rd_collection_id r)),
      (''folderId'', map_option JStr (rd_folder_id r)), (''name'', text_field (rd_name r)),
      (''description'', map_option JStr (rd_description r)), (''order'', Some (number_json (rd_order r)))]"

definition request_object :: "request_doc \<Rightarrow> json" where
  "request_object r = present (place_fields r @ content_fields (rd_content r))"

definition tree_object :: "collection_tree \<Rightarrow> json" where
  "tree_object t = present
     [(''collection'', Some (collection_object (tree_collection t))), (''folders'', Some (JArr (map folder_object (tree_folders t)))),
      (''requests'', Some (JArr (map request_object (tree_requests t))))]"

text \<open>What an import asks of a tree.\<close>

definition collection_sound :: "collection \<Rightarrow> bool" where
  "collection_sound c \<longleftrightarrow> trim (meta_id (col_meta c)) \<noteq> [] \<and> trim (col_name c) \<noteq> [] \<and> list_all row_sound (col_variables c) \<and> col_auth c \<noteq> Inherit"

definition folder_sound :: "folder \<Rightarrow> bool" where
  "folder_sound f \<longleftrightarrow> trim (meta_id (fol_meta f)) \<noteq> [] \<and> trim (fol_collection_id f) \<noteq> [] \<and> trim (fol_name f) \<noteq> [] \<and> list_all row_sound (fol_variables f)"

definition request_sound :: "request_doc \<Rightarrow> bool" where
  "request_sound r \<longleftrightarrow> trim (meta_id (rd_meta r)) \<noteq> [] \<and> trim (rd_collection_id r) \<noteq> [] \<and> trim (rd_name r) \<noteq> [] \<and> content_sound (rd_content r)"

definition tree_sound :: "collection_tree \<Rightarrow> bool" where
  "tree_sound t \<longleftrightarrow> collection_sound (tree_collection t) \<and> list_all folder_sound (tree_folders t) \<and> list_all request_sound (tree_requests t)"

end
