(* ===== verification/PostmanAddress.thy ===== *)
theory PostmanAddress
  imports CollectionFile
begin

text \<open>
  An address in Postman's format: cut into parts as \<open>packages/core/src/export/postman.ts\<close> writes it, and put together
  again as \<open>import/postman.ts\<close> reads it. A variable that an address holds is set aside as one unit; the source does it
  with characters of a private range, of which it has enough for 6,400 variables.
\<close>

section \<open>Variables set aside\<close>

datatype held = Plain char | Held string

text \<open>\<open>/\{\{[^{}]*\}\}/\<close> at the start of a text: the variable, and what follows.\<close>

definition not_brace :: "char \<Rightarrow> bool" where
  "not_brace c \<longleftrightarrow> c \<noteq> CHR ''{'' \<and> c \<noteq> CHR ''}''"

definition variable_at :: "string \<Rightarrow> (string \<times> string) option" where
  "variable_at s =
     (if starts_with s ''{{''
      then (let (b, r) = span_of not_brace (drop 2 s)
            in if starts_with r ''}}'' then Some (''{{'' @ b @ ''}}'', drop 2 r) else None)
      else None)"

lemma variable_at_iff: "variable_at s = Some (v, r) \<longleftrightarrow> (\<exists>b. v = ''{{'' @ b @ ''}}'' \<and> s = v @ r \<and> list_all not_brace b)"
proof
  assume v: "variable_at s = Some (v, r)"
  obtain t where s: "s = ''{{'' @ t"
    using v by (cases "starts_with s ''{{''") (auto simp: variable_at_def starts_with_prefix prefix_def)
  obtain b q where bq: "span_of not_brace t = (b, q)" by (cases "span_of not_brace t")
  have "starts_with q ''}}'' \<and> v = ''{{'' @ b @ ''}}'' \<and> r = drop 2 q"
    using v by (auto simp: variable_at_def s bq starts_with_prefix split: if_splits)
  moreover have "t = b @ q" by (rule span_of_append [OF bq])
  moreover have "list_all not_brace b" using bq by (auto simp: span_of_def list_all_iff dest: set_takeWhileD)
  ultimately show "\<exists>b. v = ''{{'' @ b @ ''}}'' \<and> s = v @ r \<and> list_all not_brace b"
    using s by (auto simp: starts_with_prefix prefix_def)
next
  assume "\<exists>b. v = ''{{'' @ b @ ''}}'' \<and> s = v @ r \<and> list_all not_brace b"
  then obtain b where b: "v = ''{{'' @ b @ ''}}''" "s = v @ r" "list_all not_brace b" by blast
  have "span_of not_brace (b @ ''}}'' @ r) = (b, ''}}'' @ r)"
    using b(3) by (simp add: span_of_def list_all_iff takeWhile_append dropWhile_append not_brace_def)
  then show "variable_at s = Some (v, r)"
    using b(1,2) by (simp add: variable_at_def starts_with_prefix)
qed

function hold :: "string \<Rightarrow> held list" where
  "hold [] = []"
| "hold (c # s) = (case variable_at (c # s) of Some (v, r) \<Rightarrow> Held v # hold r | None \<Rightarrow> Plain c # hold s)"
  by pat_completeness auto
termination
proof (relation "measure length", simp)
  fix c :: char and s x v r
  assume "variable_at (c # s) = Some x" "(v, r) = x"
  then obtain b where "c # s = (''{{'' @ b @ ''}}'') @ r" using variable_at_iff by metis
  then have "length (c # s) = length ((''{{'' @ b @ ''}}'') @ r)" by simp
  then show "(r, c # s) \<in> measure length" by simp
qed simp

fun held_text :: "held \<Rightarrow> string" where
  "held_text (Plain c) = [c]"
| "held_text (Held v) = v"

definition back_text :: "held list \<Rightarrow> string" where
  "back_text ts = concat (map held_text ts)"

section \<open>The parts of an address\<close>

text \<open>\<open>cut\<close>: what is before the first mark, and what is after it if there is one.\<close>

definition cut_first :: "'a \<Rightarrow> 'a list \<Rightarrow> 'a list \<times> 'a list option" where
  "cut_first m ts = (let (a, b) = span_of (\<lambda>t. t \<noteq> m) ts in (a, case b of [] \<Rightarrow> None | _ # r \<Rightarrow> Some r))"

text \<open>At the last mark: what is before it if there is one, and what is after it.\<close>

definition cut_last :: "'a \<Rightarrow> 'a list \<Rightarrow> 'a list option \<times> 'a list" where
  "cut_last m ts = (let (a, b) = cut_first m (rev ts) in (map_option rev b, rev a))"

fun place_of :: "'a list \<Rightarrow> 'a list \<Rightarrow> nat option" where
  "place_of p [] = (if p = [] then Some 0 else None)"
| "place_of p (x # xs) = (if starts_with (x # xs) p then Some 0 else map_option Suc (place_of p xs))"

record address_parts =
  ap_protocol :: "string option"
  ap_login :: "(string \<times> string option) option"
  ap_host :: "string list"
  ap_port :: "string option"
  ap_path :: "string list option"
  ap_query :: "(string \<times> string option) list option"
  ap_hash :: "string option"

abbreviation plain :: "string \<Rightarrow> held list" where
  "plain s \<equiv> map Plain s"

definition cut_scheme :: "held list \<Rightarrow> held list option \<times> held list" where
  "cut_scheme ts =
     (case place_of (plain ''://'') ts of
        Some (Suc i) \<Rightarrow> if Plain (CHR ''/'') \<in> set (take (Suc i) ts) then (None, ts) else (Some (take (Suc i) ts), drop (Suc i + 3) ts)
      | _ \<Rightarrow> (None, ts))"

text \<open>An address in brackets is not cut at its own colons.\<close>

definition cut_port :: "held list \<Rightarrow> held list \<times> held list option" where
  "cut_port authority =
     (if starts_with authority (plain ''['')
      then (case place_of (plain '']:'') authority of
              Some i \<Rightarrow> (take (i + 1) authority, Some (drop (i + 2) authority))
            | None \<Rightarrow> (authority, None))
      else (case cut_last (Plain (CHR '':'')) authority of
              (Some a, b) \<Rightarrow> (a, Some b)
            | (None, b) \<Rightarrow> (b, None)))"

definition login_parts :: "held list \<Rightarrow> string \<times> string option" where
  "login_parts user = (let (a, b) = cut_first (Plain (CHR '':'')) user in (back_text a, map_option back_text b))"

definition query_pair :: "held list \<Rightarrow> string \<times> string option" where
  "query_pair pair = (let (a, b) = cut_first (Plain (CHR ''='')) pair in (back_text a, map_option back_text b))"

definition address_parts_of :: "string \<Rightarrow> address_parts" where
  "address_parts_of raw =
     (let (ts, hash) = cut_first (Plain (CHR ''#'')) (hold raw);
          (ts, query) = cut_first (Plain (CHR ''?'')) ts;
          (protocol, ts) = cut_scheme ts;
          (authority, path) = cut_first (Plain (CHR ''/'')) ts;
          (user, authority) = cut_last (Plain (CHR ''@'')) authority;
          (host, port) = cut_port authority
      in \<lparr>ap_protocol = map_option back_text protocol, ap_login = map_option login_parts user,
          ap_host = (if starts_with host (plain ''['') then [back_text host] else map back_text (split_on (Plain (CHR ''.'')) host)),
          ap_port = map_option back_text port,
          ap_path = map_option (\<lambda>p. map back_text (split_on (Plain (CHR ''/'')) p)) path,
          ap_query = map_option (\<lambda>q. map query_pair (split_on (Plain (CHR ''&'')) q)) query,
          ap_hash = map_option back_text hash\<rparr>)"

section \<open>Written\<close>

fun sent_entry :: "string \<times> string option \<Rightarrow> json" where
  "sent_entry (k, v) = JObj [(''key'', JStr k), (''value'', case v of Some t \<Rightarrow> JStr t | None \<Rightarrow> JNull)]"

definition off_entry :: "row \<Rightarrow> json" where
  "off_entry r = JObj [(''key'', JStr (row_key r)), (''value'', JStr (row_value r)), (''disabled'', JBool True)]"

fun query_entries :: "row list \<Rightarrow> (string \<times> string option) list \<Rightarrow> json list" where
  "query_entries [] sent = map sent_entry sent"
| "query_entries (r # rs) sent =
     (if \<not> row_enabled r then off_entry r # query_entries rs sent
      else case sent of [] \<Rightarrow> query_entries rs [] | q # qs \<Rightarrow> sent_entry q # query_entries rs qs)"

definition texts_json :: "string list \<Rightarrow> json" where
  "texts_json ts = JArr (map JStr ts)"

definition url_entry :: "string \<Rightarrow> row list \<Rightarrow> json" where
  "url_entry raw params =
     (let p = address_parts_of raw; query = query_entries params (case ap_query p of Some q \<Rightarrow> q | None \<Rightarrow> [])
      in present
        [(''raw'', text_field raw), (''protocol'', map_option JStr (ap_protocol p)),
         (''auth'', map_option (\<lambda>(user, password). present [(''user'', text_field user), (''password'', map_option JStr password)]) (ap_login p)),
         (''host'', Some (texts_json (ap_host p))), (''port'', map_option JStr (ap_port p)), (''path'', map_option texts_json (ap_path p)),
         (''query'', if query = [] then None else Some (JArr query)), (''hash'', map_option JStr (ap_hash p))])"

section \<open>Read\<close>

text \<open>\<open>text\<close>: a value as text, as Postman writes numbers and flags too; \<open>objects\<close>: a list's objects.\<close>

definition loose_text :: "json option \<Rightarrow> string" where
  "loose_text v =
     (case v of
        None \<Rightarrow> [] | Some JNull \<Rightarrow> [] | Some (JStr s) \<Rightarrow> s
      | Some (JArr xs) \<Rightarrow> stringify (JArr xs) | Some (JObj fs) \<Rightarrow> stringify (JObj fs) | Some w \<Rightarrow> js_string w)"

fun is_obj_json :: "json \<Rightarrow> bool" where
  "is_obj_json (JObj _) = True"
| "is_obj_json _ = False"

definition loose_objects :: "json option \<Rightarrow> json list" where
  "loose_objects v = (case v of Some (JArr xs) \<Rightarrow> filter is_obj_json xs | _ \<Rightarrow> [])"

definition switched_off :: "json \<Rightarrow> bool" where
  "switched_off e \<longleftrightarrow> member e ''disabled'' = Some (JBool True)"

definition escaped_mark :: "char \<Rightarrow> string" where
  "escaped_mark c = [CHR ''%'', hex_digit (char_nat c div 16), hex_digit (char_nat c mod 16)]"

definition kept_part :: "string \<Rightarrow> string \<Rightarrow> string" where
  "kept_part marks part =
     concat (map (\<lambda>t. case t of Held v \<Rightarrow> v | Plain c \<Rightarrow> if c \<in> set marks then escaped_mark c else [c]) (hold part))"

definition plain_row :: "string \<Rightarrow> string \<Rightarrow> bool \<Rightarrow> row" where
  "plain_row k v e = \<lparr>row_key = k, row_value = v, row_enabled = e, row_json = False\<rparr>"

definition rows_in_text :: "string \<Rightarrow> row list" where
  "rows_in_text url =
     map (\<lambda>(k, v). plain_row k (case v of Some t \<Rightarrow> t | None \<Rightarrow> []) True)
       (case ap_query (address_parts_of url) of Some q \<Rightarrow> q | None \<Rightarrow> [])"

definition query_row :: "json \<Rightarrow> row" where
  "query_row e =
     (let k = loose_text (member e ''key''); v = loose_text (member e ''value'')
      in if switched_off e then plain_row k v False else plain_row (kept_part ''#&='' k) (kept_part ''#&'' v) True)"

definition query_text :: "json \<Rightarrow> string" where
  "query_text e =
     (if member e ''value'' = Some JNull \<or> member e ''value'' = None then kept_part ''#&='' (loose_text (member e ''key''))
      else kept_part ''#&='' (loose_text (member e ''key'')) @ ''='' @ kept_part ''#&'' (loose_text (member e ''value'')))"

text \<open>A part of the path: a variable the file lists is its value, or a variable of the app when it has none.\<close>

datatype path_note = Ordinary | Replaced string | Named string

definition path_segment :: "json list \<Rightarrow> string \<Rightarrow> string \<times> path_note" where
  "path_segment variables part =
     (case (if starts_with part '':'' then List.find (\<lambda>e. member e ''key'' = Some (JStr (drop 1 part))) variables else None) of
        None \<Rightarrow> (part, Ordinary)
      | Some e \<Rightarrow>
          (let given = loose_text (member e ''value'')
           in if given \<noteq> [] then (given, Replaced part) else (''{{'' @ drop 1 part @ ''}}'', Named part)))"

definition path_pieces :: "json option \<Rightarrow> string list" where
  "path_pieces path =
     (case path of
        Some (JArr parts) \<Rightarrow> map (\<lambda>p. loose_text (Some p)) parts
      | _ \<Rightarrow> (let t = loose_text path in split_on (CHR ''/'') (if starts_with t ''/'' then drop 1 t else t)))"

definition joined_host :: "json \<Rightarrow> string" where
  "joined_host host = (case host of JArr parts \<Rightarrow> join ''.'' (map (\<lambda>p. loose_text (Some p)) parts) | _ \<Rightarrow> loose_text (Some host))"

definition optional_text :: "string \<Rightarrow> json option \<Rightarrow> string \<Rightarrow> string" where
  "optional_text before v after = (if v = None then [] else before @ loose_text v @ after)"

text \<open>The address of a file that has parts, with what its path variables became.\<close>

definition address_of_parts :: "json \<Rightarrow> json \<Rightarrow> string \<times> path_note list" where
  "address_of_parts v host =
     (let segments = map (path_segment (loose_objects (member v ''variable''))) (path_pieces (member v ''path''));
          query = map query_text (filter (\<lambda>e. \<not> switched_off e) (loose_objects (member v ''query'')))
      in (optional_text [] (member v ''protocol'') ''://'' @
          (case member v ''auth'' of
             Some (JObj login) \<Rightarrow> loose_text (om_get login ''user'') @ optional_text '':'' (om_get login ''password'') [] @ ''@''
           | _ \<Rightarrow> []) @
          joined_host host @ optional_text '':'' (member v ''port'') [] @
          (if member v ''path'' = None then [] else ''/'' @ join ''/'' (map (\<lambda>(t, n). kept_part ''?#'' t) segments)) @
          (if query = [] then [] else ''?'' @ join ''&'' query) @ optional_text ''#'' (member v ''hash'') [],
          if member v ''path'' = None then [] else map snd segments))"

definition replaced_parts :: "path_note list \<Rightarrow> string list" where
  "replaced_parts notes = List.map_filter (\<lambda>n. case n of Replaced p \<Rightarrow> Some p | _ \<Rightarrow> None) notes"

definition named_parts :: "path_note list \<Rightarrow> string list" where
  "named_parts notes = List.map_filter (\<lambda>n. case n of Named p \<Rightarrow> Some p | _ \<Rightarrow> None) notes"

definition path_warnings :: "path_note list \<Rightarrow> string list" where
  "path_warnings notes =
     (let replaced = replaced_parts notes; nm = named_parts notes
      in (case replaced of
            [] \<Rightarrow> []
          | [p] \<Rightarrow> [''The path variable '' @ p @ '' is replaced by its value in the address: the app has no path variables.'']
          | _ \<Rightarrow> [''The path variables '' @ join '', '' replaced @
                '' are replaced by their values in the address: the app has no path variables.'']) @
         (case nm of
            [] \<Rightarrow> []
          | [p] \<Rightarrow> [''The path variable '' @ p @ '' has no value in the file: in the address it is {{'' @ drop 1 p @
                ''}}, to be given a value as a variable.'']
          | _ \<Rightarrow> [''The path variables '' @ join '', '' nm @ '' have no value in the file: in the address they are '' @
                join '', '' (map (\<lambda>p. ''{{'' @ drop 1 p @ ''}}'') nm) @ '', to be given a value as variables.'']))"

record read_address =
  ra_url :: string
  ra_params :: "row list"
  ra_warnings :: "string list"

definition address_read :: "json option \<Rightarrow> read_address" where
  "address_read value =
     (case value of
        Some (JObj fs) \<Rightarrow>
          (let v = JObj fs; params = map query_row (loose_objects (member v ''query'')); raw = loose_text (member v ''raw'')
           in case member v ''host'' of
                None \<Rightarrow> \<lparr>ra_url = raw, ra_params = (if params = [] then rows_in_text raw else params), ra_warnings = []\<rparr>
              | Some host \<Rightarrow>
                  (let (url, notes) = address_of_parts v host
                   in \<lparr>ra_url = url, ra_params = params, ra_warnings = path_warnings notes\<rparr>))
      | _ \<Rightarrow> \<lparr>ra_url = loose_text value, ra_params = rows_in_text (loose_text value), ra_warnings = []\<rparr>)"
section \<open>An address read as it was written\<close>

lemma back_simps [simp]: "back_text [] = []" "back_text (t # ts) = held_text t @ back_text ts"
  "back_text (ts @ us) = back_text ts @ back_text us" "back_text (plain s) = s"
proof -
  show "back_text (plain s) = s" by (induction s) (simp_all add: back_text_def)
qed (simp_all add: back_text_def)

lemma back_hold [simp]: "back_text (hold s) = s"
proof (induction s rule: hold.induct)
  case (2 c s)
  show ?case
  proof (cases "variable_at (c # s)")
    case None
    then show ?thesis using "2.IH" by simp
  next
    case (Some x)
    then obtain v r where x: "x = (v, r)" "variable_at (c # s) = Some (v, r)" by (cases x) auto
    then have "back_text (hold r) = r" using "2.IH" by auto
    moreover have "hold (c # s) = Held v # hold r" using x(2) by simp
    moreover have "c # s = v @ r" using x(2) variable_at_iff by metis
    ultimately show ?thesis by (simp del: hold.simps)
  qed
qed simp

text \<open>What is a text set aside: to set it aside again changes nothing.\<close>

definition well_held :: "held list \<Rightarrow> bool" where
  "well_held ts \<longleftrightarrow> hold (back_text ts) = ts"

lemma well_held_hold: "well_held (hold s)"
  by (simp add: well_held_def)

lemma variable_at_more: "variable_at s = Some (v, r) \<Longrightarrow> variable_at (s @ u) = Some (v, r @ u)"
  by (auto simp: variable_at_iff)

lemma hold_none: "variable_at (c # s) = None \<Longrightarrow> hold (c # s) = Plain c # hold s"
  by simp

lemma hold_some: "variable_at s = Some (v, r) \<Longrightarrow> hold s = Held v # hold r"
proof (cases s)
  case Nil
  moreover assume "variable_at s = Some (v, r)"
  ultimately show ?thesis using variable_at_iff [of s v r] by auto
qed simp

lemma well_held_Cons:
  assumes "well_held (t # ts)"
  shows "well_held ts \<and> (case t of Plain c \<Rightarrow> variable_at (c # back_text ts) = None | Held v \<Rightarrow> variable_at (v @ back_text ts) = Some (v, back_text ts))"
proof (cases t)
  case (Plain c)
  have h: "hold (c # back_text ts) = Plain c # ts" using assms Plain by (simp add: well_held_def)
  have "variable_at (c # back_text ts) = None"
  proof (cases "variable_at (c # back_text ts)")
    case (Some x)
    then show ?thesis using h by (cases x) simp
  qed simp
  with h Plain show ?thesis by (simp add: well_held_def)
next
  case (Held v)
  have h: "hold (v @ back_text ts) = Held v # ts" using assms Held by (simp add: well_held_def)
  have "v @ back_text ts \<noteq> []" using h by auto
  then obtain c s where cs: "v @ back_text ts = c # s" by (cases "v @ back_text ts") auto
  obtain w r where x: "variable_at (c # s) = Some (w, r)" using h cs by (cases "variable_at (c # s)") auto
  then have "w = v" "hold r = ts" using h cs by auto
  moreover have "c # s = w @ r" using x variable_at_iff by metis
  ultimately have "r = back_text ts" using cs by simp
  with \<open>w = v\<close> \<open>hold r = ts\<close> x cs Held show ?thesis by (simp add: well_held_def)
qed

lemma well_held_Cons_iff:
  "well_held (t # ts) \<longleftrightarrow> well_held ts \<and>
    (case t of Plain c \<Rightarrow> variable_at (c # back_text ts) = None | Held v \<Rightarrow> variable_at (v @ back_text ts) = Some (v, back_text ts))"
proof
  assume "well_held ts \<and> (case t of Plain c \<Rightarrow> variable_at (c # back_text ts) = None | Held v \<Rightarrow> variable_at (v @ back_text ts) = Some (v, back_text ts))"
  then show "well_held (t # ts)" by (cases t) (simp_all add: well_held_def hold_some)
qed (rule well_held_Cons)

lemma well_held_append: "well_held (ts @ us) \<Longrightarrow> well_held ts \<and> well_held us"
proof (induction ts)
  case Nil
  then show ?case by (simp add: well_held_def)
next
  case (Cons t ts)
  then have ok: "well_held ts" "well_held us" using well_held_Cons [of t "ts @ us"] by auto
  have "case t of Plain c \<Rightarrow> variable_at (c # back_text ts) = None | Held v \<Rightarrow> variable_at (v @ back_text ts) = Some (v, back_text ts)"
  proof (cases t)
    case (Plain c)
    then have n: "variable_at ((c # back_text ts) @ back_text us) = None" using well_held_Cons [of t "ts @ us"] Cons.prems by simp
    have "variable_at (c # back_text ts) = None"
    proof (cases "variable_at (c # back_text ts)")
      case (Some x)
      then show ?thesis using variable_at_more [of "c # back_text ts" "fst x" "snd x" "back_text us"] n by simp
    qed
    then show ?thesis by (simp add: Plain)
  next
    case (Held v)
    then have "variable_at (v @ back_text ts @ back_text us) = Some (v, back_text ts @ back_text us)"
      using well_held_Cons [of t "ts @ us"] Cons.prems by simp
    then show ?thesis by (auto simp: Held variable_at_iff)
  qed
  with ok show ?case by (simp add: well_held_Cons_iff)
qed

lemma kept_well_held:
  assumes "well_held ts" "\<And>m. m \<in> set marks \<Longrightarrow> Plain m \<notin> set ts"
  shows "kept_part marks (back_text ts) = back_text ts"
proof -
  have "concat (map (\<lambda>t. case t of Held v \<Rightarrow> v | Plain c \<Rightarrow> if c \<in> set marks then escaped_mark c else [c]) ts) = back_text ts"
    using assms(2) by (induction ts) (auto split: held.split)
  then show ?thesis using assms(1) by (simp add: kept_part_def well_held_def)
qed

subsection \<open>The cuts put together\<close>

lemma cut_first_parts:
  assumes "cut_first m ts = (a, b)"
  shows "ts = a @ (case b of None \<Rightarrow> [] | Some r \<Rightarrow> m # r)" "m \<notin> set a"
proof -
  obtain x y where s: "span_of (\<lambda>t. t \<noteq> m) ts = (x, y)" by (cases "span_of (\<lambda>t. t \<noteq> m) ts")
  have a: "a = x" "b = (case y of [] \<Rightarrow> None | _ # r \<Rightarrow> Some r)" using assms by (simp_all add: cut_first_def s)
  have "y = [] \<or> hd y = m" using s hd_dropWhile [of "\<lambda>t. t \<noteq> m" ts] by (auto simp: span_of_def)
  then show "ts = a @ (case b of None \<Rightarrow> [] | Some r \<Rightarrow> m # r)"
    using span_of_append [OF s] a by (cases y) auto
  show "m \<notin> set a" using s a by (auto simp: span_of_def dest: set_takeWhileD)
qed

lemma cut_last_parts:
  assumes "cut_last m ts = (a, b)"
  shows "ts = (case a of None \<Rightarrow> [] | Some r \<Rightarrow> r @ [m]) @ b"
proof -
  obtain x y where c: "cut_first m (rev ts) = (x, y)" by (cases "cut_first m (rev ts)")
  have "rev ts = x @ (case y of None \<Rightarrow> [] | Some r \<Rightarrow> m # r)" by (rule cut_first_parts(1) [OF c])
  then have "ts = rev (x @ (case y of None \<Rightarrow> [] | Some r \<Rightarrow> m # r))" by (metis rev_rev_ident)
  moreover have "a = map_option rev y" "b = rev x" using assms by (simp_all add: cut_last_def c)
  ultimately show ?thesis by (cases y) simp_all
qed

lemma place_of_Some: "place_of p ts = Some i \<Longrightarrow> starts_with (drop i ts) p"
proof (induction p ts arbitrary: i rule: place_of.induct)
  case (2 p x xs)
  then show ?case by (cases i) (auto split: if_splits)
qed (simp split: if_splits)

lemma cut_scheme_parts:
  assumes "cut_scheme ts = (p, r)"
  shows "ts = (case p of None \<Rightarrow> [] | Some s \<Rightarrow> s @ plain ''://'') @ r"
proof (cases p)
  case None
  then show ?thesis using assms by (auto simp: cut_scheme_def Let_def split: option.splits nat.splits if_splits)
next
  case (Some s)
  then obtain i where i: "place_of (plain ''://'') ts = Some i" "s = take i ts" "r = drop (i + 3) ts"
    using assms by (auto simp: cut_scheme_def split: option.splits nat.splits if_splits)
  from place_of_Some [OF i(1)] obtain u where u: "drop i ts = plain ''://'' @ u" by (auto simp: starts_with_prefix prefix_def)
  then have "drop 3 (drop i ts) = u" by simp
  then have "r = u" using i(3) by (simp add: add.commute)
  then show ?thesis using append_take_drop_id [of i ts] u i(2) Some by simp
qed

lemma cut_port_parts:
  assumes "cut_port ts = (h, p)"
  shows "ts = h @ (case p of None \<Rightarrow> [] | Some r \<Rightarrow> Plain (CHR '':'') # r)"
proof (cases "starts_with ts (plain ''['')")
  case True
  show ?thesis
  proof (cases "place_of (plain '']:'') ts")
    case None
    then show ?thesis using True assms by (simp add: cut_port_def)
  next
    case (Some i)
    from place_of_Some [OF Some] obtain u where u: "drop i ts = plain '']:'' @ u" by (auto simp: starts_with_prefix prefix_def)
    have "take (i + 1) ts = take i ts @ take 1 (drop i ts)" by (rule take_add)
    moreover have "drop (i + 2) ts = drop 2 (drop i ts)" by (simp add: add.commute)
    moreover have "h = take (i + 1) ts" "p = Some (drop (i + 2) ts)" using True assms Some by (simp_all add: cut_port_def)
    moreover have "ts = take i ts @ drop i ts" by simp
    ultimately show ?thesis using u by simp
  qed
next
  case False
  obtain a b where c: "cut_last (Plain (CHR '':'')) ts = (a, b)" by (cases "cut_last (Plain (CHR '':'')) ts")
  have hp: "h = (case a of None \<Rightarrow> b | Some x \<Rightarrow> x)" "p = (case a of None \<Rightarrow> None | Some x \<Rightarrow> Some b)"
    using assms False by (auto simp: cut_port_def c split: option.splits)
  show ?thesis by (subst cut_last_parts [OF c]) (cases a; simp add: hp)
qed

lemma join_back: "join [c] (map back_text (split_on (Plain c) ts)) = back_text ts"
proof -
  have "join [c] (map back_text xs) = back_text (join [Plain c] xs)" for xs
    by (induction "[Plain c]" xs rule: join.induct) simp_all
  then show ?thesis by simp
qed

subsection \<open>The address\<close>

lemma loose_simps [simp]: "loose_text None = []" "loose_text (Some (JStr s)) = s" "loose_text (Some JNull) = []"
  by (simp_all add: loose_text_def)

lemma url_entry_fields:
  "member (url_entry raw params) ''host'' = Some (texts_json (ap_host (address_parts_of raw)))"
  "member (url_entry raw params) ''protocol'' = map_option JStr (ap_protocol (address_parts_of raw))"
  "member (url_entry raw params) ''port'' = map_option JStr (ap_port (address_parts_of raw))"
  "member (url_entry raw params) ''path'' = map_option texts_json (ap_path (address_parts_of raw))"
  "member (url_entry raw params) ''hash'' = map_option JStr (ap_hash (address_parts_of raw))"
  "member (url_entry raw params) ''variable'' = None"
  "member (url_entry raw params) ''auth'' = map_option (\<lambda>(user, password). present [(''user'', text_field user), (''password'', map_option JStr password)])
     (ap_login (address_parts_of raw))"
  "loose_objects (member (url_entry raw params) ''query'') =
     query_entries params (case ap_query (address_parts_of raw) of Some q \<Rightarrow> q | None \<Rightarrow> [])"
proof -
  have "filter is_obj_json (query_entries rs qs) = query_entries rs qs" for rs qs
  proof (induction rs qs rule: query_entries.induct)
    case (1 sent)
    then show ?case by (induction sent) auto
  next
    case (2 r rs sent)
    then show ?case by (cases sent) (auto simp: off_entry_def)
  qed
  then show "loose_objects (member (url_entry raw params) ''query'') =
     query_entries params (case ap_query (address_parts_of raw) of Some q \<Rightarrow> q | None \<Rightarrow> [])"
    by (auto simp: url_entry_def Let_def member_present loose_objects_def)
qed (simp_all add: url_entry_def Let_def member_present)

text \<open>Of the entries, the ones sent are the address's own.\<close>

lemma sent_entries: "filter (\<lambda>e. \<not> switched_off e) (query_entries rs qs) = map sent_entry qs"
proof (induction rs qs rule: query_entries.induct)
  case (1 sent)
  then show ?case by (induction sent) (auto simp: switched_off_def member_def om_get_def)
next
  case (2 r rs sent)
  then show ?case by (cases sent) (auto simp: off_entry_def switched_off_def member_def om_get_def)
qed

definition cut_well :: "held list \<Rightarrow> string \<Rightarrow> bool" where
  "cut_well ts marks \<longleftrightarrow> well_held ts \<and> (\<forall>m \<in> set marks. Plain m \<notin> set ts)"

lemma cut_well_kept: "cut_well ts marks \<Longrightarrow> kept_part marks (back_text ts) = back_text ts"
  by (auto simp: cut_well_def intro: kept_well_held)

lemma cut_well_append: "cut_well (ts @ us) marks \<Longrightarrow> cut_well ts marks \<and> cut_well us marks"
proof -
  assume c: "cut_well (ts @ us) marks"
  then have "well_held ts \<and> well_held us" by (intro well_held_append) (simp add: cut_well_def)
  with c show ?thesis by (auto simp: cut_well_def)
qed

lemma cut_well_Cons: "cut_well (t # ts) marks \<Longrightarrow> cut_well ts marks"
  using cut_well_append [of "[t]" ts marks] by simp

lemma cut_well_split: "cut_well ts marks \<Longrightarrow> p \<in> set (split_on (Plain c) ts) \<Longrightarrow> cut_well p (c # marks)"
proof (induction ts arbitrary: p)
  case (Cons t ts)
  have whole: "\<exists>a b. t # ts = a @ p @ b" if here: "p \<in> set (split_on (Plain c) (t # ts))" for p
  proof -
    obtain xs ys where "split_on (Plain c) (t # ts) = xs @ p # ys" using split_list [OF here] by blast
    then have "t # ts = join [Plain c] (xs @ p # ys)" by (metis join_split_on)
    moreover have "\<exists>a b. join s (xs @ p # ys) = a @ p @ b" for s
    proof (induction s xs rule: join.induct)
      case (1 sep)
      then show ?case by (cases ys) (auto intro: exI [of _ "[]"])
    next
      case (2 sep x)
      obtain b where "join sep (p # ys) = p @ b" by (cases ys) auto
      then have "join sep ([x] @ p # ys) = (x @ sep) @ p @ b" by simp
      then show ?case by blast
    next
      case (3 sep x y zs)
      then obtain a b where "join sep ((y # zs) @ p # ys) = a @ p @ b" by blast
      then have "join sep ((x # y # zs) @ p # ys) = (x @ sep @ a) @ p @ b" by simp
      then show ?case by blast
    qed
    ultimately show ?thesis by metis
  qed
  from whole [OF Cons.prems(2)] obtain a b where "t # ts = a @ p @ b" by blast
  then have "cut_well p marks" using Cons.prems(1) cut_well_append by metis
  moreover have "Plain c \<notin> set p" using split_on_pieces Cons.prems(2) by metis
  ultimately show ?case by (simp add: cut_well_def)
qed (simp add: cut_well_def)

lemma query_pair_read:
  assumes "cut_well pair ''#&''"
  shows "query_text (sent_entry (query_pair pair)) = back_text pair"
proof -
  obtain a b where c: "cut_first (Plain (CHR ''='')) pair = (a, b)" by (cases "cut_first (Plain (CHR ''='')) pair")
  note parts = cut_first_parts [OF c]
  have q: "query_pair pair = (back_text a, map_option back_text b)" by (simp add: query_pair_def c)
  have whole: "back_text pair = back_text a @ (case b of None \<Rightarrow> [] | Some r \<Rightarrow> CHR ''='' # back_text r)"
    by (subst parts(1)) (simp split: option.split)
  have w: "cut_well a ''#&''" using assms parts(1) cut_well_append by metis
  then have a: "kept_part ''#&='' (back_text a) = back_text a" using parts(2) by (intro cut_well_kept) (auto simp: cut_well_def)
  show ?thesis
  proof (cases b)
    case None
    then show ?thesis using a by (simp add: q whole query_text_def member_def om_get_def)
  next
    case (Some r)
    then have "cut_well r ''#&''" using assms parts(1) cut_well_append cut_well_Cons by (metis option.simps(5))
    then have "kept_part ''#&'' (back_text r) = back_text r" by (rule cut_well_kept)
    then show ?thesis using a Some by (simp add: q whole query_text_def member_def om_get_def)
  qed
qed

lemma login_read:
  "loose_text (om_get (present_fields [(''user'', text_field (fst (login_parts user))), (''password'', map_option JStr (snd (login_parts user)))]) ''user'') @
   optional_text '':'' (om_get (present_fields [(''user'', text_field (fst (login_parts user))), (''password'', map_option JStr (snd (login_parts user)))]) ''password'') [] =
   back_text user"
proof -
  obtain a b where c: "cut_first (Plain (CHR '':'')) user = (a, b)" by (cases "cut_first (Plain (CHR '':'')) user")
  have whole: "back_text user = back_text a @ (case b of None \<Rightarrow> [] | Some r \<Rightarrow> CHR '':'' # back_text r)"
    by (subst cut_first_parts(1) [OF c]) (simp split: option.split)
  have "login_parts user = (back_text a, map_option back_text b)" by (simp add: login_parts_def c)
  then show ?thesis by (cases b) (simp_all add: whole om_get_fields text_field_def optional_text_def)
qed

text \<open>
  An address exported to Postman and read back is the same text, whatever the text is and whatever the rows that are
  switched off beside it: no part of it is lost, moved or escaped, and no variable in it is cut.
\<close>

lemma address_round_trip:
  "ra_url (address_read (Some (url_entry raw params))) = raw"
proof -
  obtain t1 hash where c1: "cut_first (Plain (CHR ''#'')) (hold raw) = (t1, hash)" by (cases "cut_first (Plain (CHR ''#'')) (hold raw)")
  obtain t2 query where c2: "cut_first (Plain (CHR ''?'')) t1 = (t2, query)" by (cases "cut_first (Plain (CHR ''?'')) t1")
  obtain protocol t3 where c3: "cut_scheme t2 = (protocol, t3)" by (cases "cut_scheme t2")
  obtain t4 path where c4: "cut_first (Plain (CHR ''/'')) t3 = (t4, path)" by (cases "cut_first (Plain (CHR ''/'')) t3")
  obtain user t5 where c5: "cut_last (Plain (CHR ''@'')) t4 = (user, t5)" by (cases "cut_last (Plain (CHR ''@'')) t4")
  obtain host port where c6: "cut_port t5 = (host, port)" by (cases "cut_port t5")
  let ?p = "address_parts_of raw" and ?v = "url_entry raw params"
  have p: "?p = \<lparr>ap_protocol = map_option back_text protocol, ap_login = map_option login_parts user,
      ap_host = (if starts_with host (plain ''['') then [back_text host] else map back_text (split_on (Plain (CHR ''.'')) host)),
      ap_port = map_option back_text port, ap_path = map_option (\<lambda>p. map back_text (split_on (Plain (CHR ''/'')) p)) path,
      ap_query = map_option (\<lambda>q. map query_pair (split_on (Plain (CHR ''&'')) q)) query, ap_hash = map_option back_text hash\<rparr>"
    by (simp add: address_parts_of_def c1 c2 c3 c4 c5 c6)
  have w1: "cut_well t1 ''#''"
    using cut_first_parts [OF c1] well_held_hold [of raw] well_held_append by (metis (no_types, lifting) cut_well_def empty_iff list.set(1) set_ConsD)
  have w2: "cut_well t2 ''?#''"
    using cut_first_parts [OF c2] w1 cut_well_append by (metis (no_types, lifting) cut_well_def set_ConsD)
  have w3: "cut_well t3 ''?#''" using cut_scheme_parts [OF c3] w2 cut_well_append by metis
  have queried: "join ''&'' (map (\<lambda>x. query_text (sent_entry (query_pair x))) (split_on (Plain (CHR ''&'')) q)) = back_text q"
    if "query = Some q" for q
  proof -
    have "cut_well q ''#''" using cut_first_parts(1) [OF c2] w1 that cut_well_append cut_well_Cons by (metis option.simps(5))
    then have "cut_well x ''#&''" if "x \<in> set (split_on (Plain (CHR ''&'')) q)" for x
      using cut_well_split [of q "''#''" x "CHR ''&''"] that by (auto simp: cut_well_def)
    then have "map (\<lambda>x. query_text (sent_entry (query_pair x))) (split_on (Plain (CHR ''&'')) q) = map back_text (split_on (Plain (CHR ''&'')) q)"
      using query_pair_read by simp
    then show ?thesis by (simp only: join_back)
  qed
  have pathed: "join ''/'' (map (\<lambda>x. kept_part ''?#'' (back_text x)) (split_on (Plain (CHR ''/'')) q)) = back_text q"
    if "path = Some q" for q
  proof -
    have "cut_well q ''?#''" using cut_first_parts(1) [OF c4] w3 that cut_well_append cut_well_Cons by (metis option.simps(5))
    then have "cut_well x ''?#''" if "x \<in> set (split_on (Plain (CHR ''/'')) q)" for x
      using cut_well_split [of q "''?#''" x "CHR ''/''"] that by (auto simp: cut_well_def)
    then have "map (\<lambda>x. kept_part ''?#'' (back_text x)) (split_on (Plain (CHR ''/'')) q) = map back_text (split_on (Plain (CHR ''/'')) q)"
      using cut_well_kept by simp
    then show ?thesis by (simp only: join_back)
  qed
  have segment: "path_segment [] x = (x, Ordinary)" for x by (simp add: path_segment_def)
  have texts: "map (\<lambda>p. loose_text (Some p)) (map JStr xs) = xs" for xs by (simp add: comp_def)
  have hosted: "joined_host (texts_json (ap_host ?p)) = back_text host"
    by (simp add: p joined_host_def texts_json_def texts join_back comp_def)
  have queried': "(let query' = map query_text (filter (\<lambda>e. \<not> switched_off e) (loose_objects (member ?v ''query'')))
      in if query' = [] then [] else ''?'' @ join ''&'' query') = (case query of None \<Rightarrow> [] | Some q \<Rightarrow> CHR ''?'' # back_text q)"
    using queried
    by (cases query) (simp_all add: url_entry_fields sent_entries p comp_def)
  have pathed': "(if member ?v ''path'' = None then [] else ''/'' @ join ''/'' (map (\<lambda>(t, n). kept_part ''?#'' t)
      (map (path_segment (loose_objects (member ?v ''variable''))) (path_pieces (member ?v ''path''))))) =
      (case path of None \<Rightarrow> [] | Some q \<Rightarrow> CHR ''/'' # back_text q)"
    using pathed
    by (cases path) (simp_all add: url_entry_fields p path_pieces_def texts_json_def loose_objects_def segment comp_def)
  have logged: "(case member ?v ''auth'' of
       Some (JObj login) \<Rightarrow> loose_text (om_get login ''user'') @ optional_text '':'' (om_get login ''password'') [] @ ''@''
     | _ \<Rightarrow> []) = (case user of None \<Rightarrow> [] | Some u \<Rightarrow> back_text u @ ''@'')"
    using login_read by (cases user) (auto simp: url_entry_fields p present_object case_prod_unfold)
  have opt: "optional_text [] (map_option JStr (map_option back_text x)) s = (case x of None \<Rightarrow> [] | Some y \<Rightarrow> back_text y @ s)"
    "optional_text s (map_option JStr (map_option back_text x)) [] = (case x of None \<Rightarrow> [] | Some y \<Rightarrow> s @ back_text y)" for x s
    by (cases x; simp add: optional_text_def)+
  have whole: "fst (address_of_parts ?v (texts_json (ap_host ?p))) =
      (case protocol of None \<Rightarrow> [] | Some y \<Rightarrow> back_text y @ ''://'') @ (case user of None \<Rightarrow> [] | Some u \<Rightarrow> back_text u @ ''@'') @
      back_text host @ (case port of None \<Rightarrow> [] | Some y \<Rightarrow> '':'' @ back_text y) @
      (case path of None \<Rightarrow> [] | Some q \<Rightarrow> CHR ''/'' # back_text q) @ (case query of None \<Rightarrow> [] | Some q \<Rightarrow> CHR ''?'' # back_text q) @
      (case hash of None \<Rightarrow> [] | Some y \<Rightarrow> ''#'' @ back_text y)"
    unfolding address_of_parts_def Let_def fst_conv pathed' logged hosted queried' [unfolded Let_def]
    by (simp only: url_entry_fields opt p address_parts.simps)
  have "back_text (hold raw) = \<dots>"
    using cut_first_parts(1) [OF c1] cut_first_parts(1) [OF c2] cut_scheme_parts [OF c3] cut_first_parts(1) [OF c4]
      cut_last_parts [OF c5] cut_port_parts [OF c6]
    by (simp split: option.splits)
  then have url: "fst (address_of_parts ?v (texts_json (ap_host ?p))) = raw" using whole by simp
  obtain fs where v: "?v = JObj fs" by (simp add: url_entry_def Let_def present_def)
  have "member (JObj fs) ''host'' = Some (texts_json (ap_host ?p))" using url_entry_fields(1) [of raw params] v by simp
  then show ?thesis using url unfolding v by (simp add: address_read_def Let_def case_prod_unfold)
qed

text \<open>The rows too, when the ones switched on are the address's query, as the app keeps them.\<close>

definition rows_mirror :: "row list \<Rightarrow> string \<Rightarrow> bool" where
  "rows_mirror params raw \<longleftrightarrow>
     map (\<lambda>r. (row_key r, row_value r)) (filter row_enabled params) = map (\<lambda>r. (row_key r, row_value r)) (rows_in_text raw)"

definition bare_row :: "row \<Rightarrow> row" where
  "bare_row r = plain_row (row_key r) (row_value r) (row_enabled r)"

definition kept_pair :: "string \<times> string option \<Rightarrow> bool" where
  "kept_pair q \<longleftrightarrow> kept_part ''#&='' (fst q) = fst q \<and> (case snd q of None \<Rightarrow> True | Some v \<Rightarrow> kept_part ''#&'' v = v)"

lemma kept_Nil [simp]: "kept_part marks [] = []"
  by (simp add: kept_part_def)

lemma query_kept:
  assumes "ap_query (address_parts_of raw) = Some qs" "q \<in> set qs"
  shows "kept_pair q"
proof -
  obtain t1 hash where c1: "cut_first (Plain (CHR ''#'')) (hold raw) = (t1, hash)" by (cases "cut_first (Plain (CHR ''#'')) (hold raw)")
  obtain t2 query where c2: "cut_first (Plain (CHR ''?'')) t1 = (t2, query)" by (cases "cut_first (Plain (CHR ''?'')) t1")
  have "map_option (\<lambda>q. map query_pair (split_on (Plain (CHR ''&'')) q)) query = Some qs"
    using assms(1) by (simp add: address_parts_of_def c1 c2 case_prod_unfold Let_def)
  then obtain ts where ts: "query = Some ts" "qs = map query_pair (split_on (Plain (CHR ''&'')) ts)" by auto
  obtain x where x: "x \<in> set (split_on (Plain (CHR ''&'')) ts)" "q = query_pair x" using assms(2) ts(2) by auto
  have w1: "cut_well t1 ''#''"
    using cut_first_parts [OF c1] well_held_hold [of raw] well_held_append by (metis (no_types, lifting) cut_well_def empty_iff list.set(1) set_ConsD)
  then have "cut_well ts ''#''" using cut_first_parts(1) [OF c2] ts(1) cut_well_append cut_well_Cons by (metis option.simps(5))
  then have "cut_well x ''#&''" using cut_well_split [of ts "''#''" x "CHR ''&''"] x(1) by (auto simp: cut_well_def)
  then have x_well: "cut_well x ''#&''" .
  obtain a b where c: "cut_first (Plain (CHR ''='')) x = (a, b)" by (cases "cut_first (Plain (CHR ''='')) x")
  note parts = cut_first_parts [OF c]
  have a: "cut_well a ''#&''" using x_well parts(1) cut_well_append by metis
  have b: "cut_well r ''#&''" if "b = Some r" for r
    using x_well parts(1) that cut_well_append cut_well_Cons by (metis option.simps(5))
  have "kept_part ''#&='' (back_text a) = back_text a" using a parts(2) by (intro cut_well_kept) (auto simp: cut_well_def)
  moreover have "kept_part ''#&'' (back_text r) = back_text r" if "b = Some r" for r by (rule cut_well_kept [OF b [OF that]])
  ultimately show ?thesis by (simp add: kept_pair_def x(2) query_pair_def c split: option.split)
qed

lemma query_rows:
  assumes "\<And>q. q \<in> set qs \<Longrightarrow> kept_pair q"
    and "map (\<lambda>r. (row_key r, row_value r)) (filter row_enabled rs) = map (\<lambda>(k, v). (k, case v of Some t \<Rightarrow> t | None \<Rightarrow> [])) qs"
  shows "map query_row (query_entries rs qs) = map bare_row rs"
  using assms
proof (induction rs qs rule: query_entries.induct)
  case (2 r rs sent)
  show ?case
  proof (cases "row_enabled r")
    case False
    then show ?thesis
      using 2 by (simp add: off_entry_def query_row_def member_def om_get_def switched_off_def bare_row_def)
  next
    case True
    then obtain q qs where sent: "sent = q # qs" using "2.prems"(2) by (cases sent) auto
    have "map query_row (query_entries rs qs) = map bare_row rs"
      using "2.IH" True sent "2.prems" by simp
    moreover have "query_row (sent_entry q) = bare_row r"
      using "2.prems"(1) [of q] "2.prems"(2) True sent
      by (cases q) (auto simp: query_row_def member_def om_get_def switched_off_def bare_row_def kept_pair_def split: option.splits)
    ultimately show ?thesis using True sent by simp
  qed
qed simp

lemma postman_rows_round_trip:
  assumes "rows_mirror params raw"
  shows "ra_params (address_read (Some (url_entry raw params))) = map bare_row params"
proof -
  let ?qs = "case ap_query (address_parts_of raw) of Some q \<Rightarrow> q | None \<Rightarrow> []"
  have "kept_pair q" if "q \<in> set ?qs" for q
  proof (cases "ap_query (address_parts_of raw)")
    case (Some qs)
    then show ?thesis using query_kept [OF Some] that by simp
  qed (use that in simp)
  moreover have "map (\<lambda>r. (row_key r, row_value r)) (filter row_enabled params) = map (\<lambda>(k, v). (k, case v of Some t \<Rightarrow> t | None \<Rightarrow> [])) ?qs"
    using assms by (simp add: rows_mirror_def rows_in_text_def plain_row_def comp_def case_prod_unfold)
  ultimately have "map query_row (query_entries params ?qs) = map bare_row params" by (rule query_rows)
  moreover obtain fs where v: "url_entry raw params = JObj fs" by (simp add: url_entry_def Let_def present_def)
  moreover have "member (JObj fs) ''host'' \<noteq> None" "loose_objects (member (JObj fs) ''query'') = query_entries params ?qs"
    using url_entry_fields(1,8) [of raw params] v by simp_all
  ultimately show ?thesis by (auto simp: address_read_def Let_def case_prod_unfold)
qed

end
