(* ===== verification/Variables.thy ===== *)
theory Variables
  imports Model
begin

text \<open>
  Variables as \<open>packages/core/src/model/variables.ts\<close> keeps and changes them: the rows of a
  scope, the changes a script or an editor makes to them, and what those changes never do to a
  protected variable, whose value is one reference to a vault secret.
\<close>

record variable_change =
  vc_key :: string
  vc_value :: "string option"
  vc_json :: bool
  vc_keep_secret :: bool
  vc_off :: bool

section \<open>A vault secret's reference\<close>

text \<open>What follows a text that stands at the start, its letters in either case.\<close>

definition after_ci :: "string \<Rightarrow> string \<Rightarrow> string option" where
  "after_ci p s = (if starts_with (to_lower s) (to_lower p) then Some (drop (length p) s) else None)"

definition is_secret_id_char :: "char \<Rightarrow> bool" where
  "is_secret_id_char c \<longleftrightarrow> is_alnum c \<or> c = CHR ''-''"

text \<open>\<open>/^\s*\{\{\s*\$secret\.([a-z0-9-]+)\s*\}\}\s*$/i\<close>: the id, or \<open>None\<close> where it does not match.\<close>

definition protected_secret_id :: "string \<Rightarrow> string option" where
  "protected_secret_id v =
     (case after_ci ''{{'' (dropWhile js_space v) of
        None \<Rightarrow> None
      | Some a \<Rightarrow>
          (case after_ci ''$secret.'' (dropWhile js_space a) of
             None \<Rightarrow> None
           | Some b \<Rightarrow>
               (let (i, c) = span_of is_secret_id_char b
                in if i = [] then None
                   else (case after_ci ''}}'' (dropWhile js_space c) of
                           None \<Rightarrow> None
                         | Some d \<Rightarrow> if dropWhile js_space d = [] then Some i else None))))"

definition is_secret_reference :: "string \<Rightarrow> bool" where
  "is_secret_reference v \<longleftrightarrow> protected_secret_id v \<noteq> None"

section \<open>Changes\<close>

definition made :: "variable_change \<Rightarrow> row" where
  "made c = \<lparr>row_key = vc_key c, row_value = (case vc_value c of None \<Rightarrow> [] | Some v \<Rightarrow> v),
     row_enabled = \<not> vc_off c, row_json = vc_json c\<rparr>"

text \<open>The rows with every row of the name replaced by one where the first of them stood.\<close>

fun replace_first :: "string \<Rightarrow> row \<Rightarrow> row list \<Rightarrow> row list" where
  "replace_first k new [] = []"
| "replace_first k new (r # rs) =
     (if row_key r = k then new # filter (\<lambda>r. row_key r \<noteq> k) rs else r # replace_first k new rs)"

definition apply_variable_change :: "variable_change \<Rightarrow> row list \<Rightarrow> row list" where
  "apply_variable_change c next =
     (if vc_value c \<noteq> None \<and> vc_keep_secret c \<and>
         (\<exists>r \<in> set next. row_key r = vc_key c \<and> is_secret_reference (row_value r)) then next
      else if vc_value c = None then filter (\<lambda>r. row_key r \<noteq> vc_key c) next
      else if \<not> (\<exists>r \<in> set next. row_key r = vc_key c) then next @ [made c]
      else replace_first (vc_key c) (made c) next)"

definition apply_variable_changes :: "row list \<Rightarrow> variable_change list \<Rightarrow> row list" where
  "apply_variable_changes rows changes = fold apply_variable_change changes rows"

definition variables_by_name :: "row list \<Rightarrow> (string \<times> string) list" where
  "variables_by_name rows =
     om_of (map (\<lambda>r. (row_key r, row_value r)) (filter (\<lambda>r. row_enabled r \<and> row_key r \<noteq> []) rows))"

type_synonym script_variable = "string \<times> string \<times> bool"

definition script_variables :: "row list \<Rightarrow> script_variable list" where
  "script_variables rows =
     map snd (om_of (map (\<lambda>r. (row_key r, (row_key r, row_value r, row_json r)))
       (filter (\<lambda>r. row_enabled r \<and> row_key r \<noteq> []) rows)))"

type_synonym var_state = "string \<times> bool"

fun state_step :: "row \<Rightarrow> (string \<times> var_state) list \<Rightarrow> (string \<times> var_state) list" where
  "state_step r m =
     (if row_key r \<noteq> [] \<and>
         (row_enabled r \<or> \<not> (case om_get m (row_key r) of None \<Rightarrow> False | Some (_, e) \<Rightarrow> e))
      then om_set (row_key r) (row_value r, row_enabled r) m else m)"

definition states_by_name :: "row list \<Rightarrow> (string \<times> var_state) list" where
  "states_by_name rows = fold state_step rows []"

definition variable_changes :: "row list \<Rightarrow> row list \<Rightarrow> variable_change list" where
  "variable_changes before after =
     (let was = states_by_name before; is = states_by_name after
      in map (\<lambda>(k, v, e). \<lparr>vc_key = k, vc_value = Some v, vc_json = False, vc_keep_secret = False, vc_off = \<not> e\<rparr>)
           (filter (\<lambda>(k, s). om_get was k \<noteq> Some s) is) @
         map (\<lambda>k. \<lparr>vc_key = k, vc_value = None, vc_json = False, vc_keep_secret = False, vc_off = False\<rparr>)
           (filter (\<lambda>k. \<not> om_has is k) (map fst was)))"

section \<open>Lemmas\<close>

lemma variables_by_name_get:
  "om_get (variables_by_name rows) k =
     map_of (rev (map (\<lambda>r. (row_key r, row_value r)) (filter (\<lambda>r. row_enabled r \<and> row_key r \<noteq> []) rows))) k"
  by (simp add: variables_by_name_def om_get_of)

text \<open>Rows of another name are left as they are, in their order.\<close>

lemma filter_replace_first:
  "row_key new = k \<Longrightarrow> k' \<noteq> k \<Longrightarrow>
   filter (\<lambda>r. row_key r = k') (replace_first k new rs) = filter (\<lambda>r. row_key r = k') rs"
  by (induction rs) (auto intro!: filter_cong)

lemma filter_own_replace_first:
  "row_key new = k \<Longrightarrow> \<exists>r \<in> set rs. row_key r = k \<Longrightarrow>
   filter (\<lambda>r. row_key r = k) (replace_first k new rs) = [new]"
  by (induction rs) auto

lemma made_key [simp]: "row_key (made c) = vc_key c"
  by (simp add: made_def)

lemma apply_change_other:
  "k \<noteq> vc_key c \<Longrightarrow>
   filter (\<lambda>r. row_key r = k) (apply_variable_change c rows) = filter (\<lambda>r. row_key r = k) rows"
  by (auto simp: apply_variable_change_def filter_replace_first intro!: filter_cong)

lemma apply_changes_other:
  "k \<notin> vc_key ` set cs \<Longrightarrow>
   filter (\<lambda>r. row_key r = k) (apply_variable_changes rows cs) = filter (\<lambda>r. row_key r = k) rows"
  by (induction cs arbitrary: rows) (auto simp: apply_variable_changes_def apply_change_other)

text \<open>A set leaves one row of the name; a removal none.\<close>

lemma apply_change_own:
  assumes "\<not> vc_keep_secret c"
  shows "filter (\<lambda>r. row_key r = vc_key c) (apply_variable_change c rows) =
    (if vc_value c = None then [] else [made c])"
  using assms by (auto simp: apply_variable_change_def filter_own_replace_first filter_empty_conv)

lemma apply_changes_own:
  assumes "distinct (map vc_key cs)" "c \<in> set cs" "\<not> vc_keep_secret c"
  shows "filter (\<lambda>r. row_key r = vc_key c) (apply_variable_changes rows cs) =
    (if vc_value c = None then [] else [made c])"
  using assms
proof (induction cs arbitrary: rows)
  case Nil
  then show ?case by simp
next
  case (Cons d ds)
  show ?case
  proof (cases "c = d")
    case True
    with Cons.prems have "vc_key c \<notin> vc_key ` set ds" by auto
    then have "filter (\<lambda>r. row_key r = vc_key c) (apply_variable_changes (apply_variable_change c rows) ds) =
        filter (\<lambda>r. row_key r = vc_key c) (apply_variable_change c rows)"
      by (rule apply_changes_other)
    with True Cons.prems apply_change_own [of c rows] show ?thesis
      by (simp add: apply_variable_changes_def)
  next
    case False
    with Cons show ?thesis by (auto simp: apply_variable_changes_def)
  qed
qed

text \<open>The state of a name depends on the rows of that name alone.\<close>

definition name_step :: "row \<Rightarrow> var_state option \<Rightarrow> var_state option" where
  "name_step r s = (if row_enabled r \<or> \<not> (case s of None \<Rightarrow> False | Some (_, e) \<Rightarrow> e)
     then Some (row_value r, row_enabled r) else s)"

definition state_of_name :: "row list \<Rightarrow> var_state option" where
  "state_of_name rs = fold name_step rs None"

lemma states_fold_get:
  "k \<noteq> [] \<Longrightarrow> om_get (fold state_step rows m) k = fold name_step (filter (\<lambda>r. row_key r = k) rows) (om_get m k)"
  by (induction rows arbitrary: m) (auto simp: name_step_def om_get_set)

lemma states_by_name_get:
  "k \<noteq> [] \<Longrightarrow> om_get (states_by_name rows) k = state_of_name (filter (\<lambda>r. row_key r = k) rows)"
  by (simp add: states_by_name_def state_of_name_def states_fold_get) (simp add: om_get_def)

lemma states_keys: "[] \<notin> set (map fst (fold state_step rows m)) \<longleftrightarrow> [] \<notin> set (map fst m)"
proof (induction rows arbitrary: m)
  case (Cons r rows)
  have "[] \<notin> set (map fst (state_step r m)) \<longleftrightarrow> [] \<notin> set (map fst m)"
    by (auto simp: om_keys_set simp del: set_map)
  with Cons show ?case by simp
qed simp

lemma states_no_empty: "om_get (states_by_name rows) [] = None"
  using states_keys [of rows "[]"]
  by (simp add: states_by_name_def om_get_def map_of_eq_None_iff)

lemma distinct_states: "distinct (map fst (states_by_name rows))"
proof -
  have "distinct (map fst m) \<Longrightarrow> distinct (map fst (fold state_step rows m))" for m
  proof (induction rows arbitrary: m)
    case (Cons r rows)
    then have "distinct (map fst (state_step r m))" by (simp add: om_keys_set)
    with Cons.IH show ?case by simp
  qed simp
  then show ?thesis by (simp add: states_by_name_def)
qed

lemma distinct_filter_keys: "distinct (map fst m) \<Longrightarrow> distinct (map fst (filter P m))"
  by (simp add: distinct_map_filter)

text \<open>What an editor did, applied to the rows it was given, gives the states it left.\<close>

lemma variable_changes_keys:
  "map vc_key (variable_changes before after) =
     map fst (filter (\<lambda>(k, s). om_get (states_by_name before) k \<noteq> Some s) (states_by_name after)) @
     filter (\<lambda>k. \<not> om_has (states_by_name after) k) (map fst (states_by_name before))"
  by (auto simp: variable_changes_def Let_def comp_def case_prod_unfold)

lemma variable_changes_distinct: "distinct (map vc_key (variable_changes before after))"
  unfolding variable_changes_keys
  using distinct_states [of before] distinct_states [of after]
  by (auto simp: distinct_filter_keys om_has_def)

lemma variable_changes_get:
  "om_get (states_by_name (apply_variable_changes before (variable_changes before after))) k =
   om_get (states_by_name after) k"
proof (cases "k = []")
  case True
  then show ?thesis by (simp add: states_no_empty)
next
  case False
  let ?was = "states_by_name before" and ?is = "states_by_name after"
  let ?cs = "variable_changes before after"
  let ?rows = "apply_variable_changes before ?cs"
  consider (set) v e where "om_get ?is k = Some (v, e)" "om_get ?was k \<noteq> Some (v, e)"
    | (gone) "om_get ?is k = None" "om_get ?was k \<noteq> None"
    | (same) "om_get ?is k = om_get ?was k" by (metis not_None_eq surj_pair)
  then show ?thesis
  proof cases
    case set
    let ?c = "\<lparr>vc_key = k, vc_value = Some v, vc_json = False, vc_keep_secret = False, vc_off = \<not> e\<rparr>"
    have "(k, v, e) \<in> set ?is" using set(1) by (simp add: om_get_def map_of_SomeD)
    with set(2) have "?c \<in> set ?cs" by (force simp: variable_changes_def Let_def)
    then have "filter (\<lambda>r. row_key r = k) ?rows = [made ?c]"
      using apply_changes_own [OF variable_changes_distinct, of ?c] by simp
    then show ?thesis
      using False set(1) by (simp add: states_by_name_get state_of_name_def name_step_def made_def)
  next
    case gone
    let ?c = "\<lparr>vc_key = k, vc_value = None, vc_json = False, vc_keep_secret = False, vc_off = False\<rparr>"
    have "k \<in> set (map fst ?was)" and "\<not> om_has ?is k"
      using gone om_has_get [of ?was k] om_has_get [of ?is k] by (auto simp: om_has_def)
    then have "?c \<in> set ?cs" unfolding variable_changes_def Let_def set_append set_map set_filter by blast
    then have "filter (\<lambda>r. row_key r = k) ?rows = []"
      using apply_changes_own [OF variable_changes_distinct, of ?c] by simp
    then show ?thesis
      using False gone(1) by (simp add: states_by_name_get state_of_name_def)
  next
    case same
    have "k \<notin> vc_key ` set ?cs"
    proof
      assume "k \<in> vc_key ` set ?cs"
      then have "k \<in> set (map vc_key ?cs)" by simp
      then consider s where "(k, s) \<in> set ?is" "om_get ?was k \<noteq> Some s"
        | "\<not> om_has ?is k" "k \<in> fst ` set ?was"
        unfolding variable_changes_keys by auto
      then show False
      proof cases
        case 1
        then have "om_get ?is k = Some s"
          using distinct_states [of after] by (simp add: om_get_def)
        with 1 same show False by simp
      next
        case 2
        then have "om_has ?was k" "\<not> om_has ?is k" by (auto simp: om_has_def)
        then show False using same by (simp add: om_has_get)
      qed
    qed
    from apply_changes_other [OF this] show ?thesis
      using False same by (simp add: states_by_name_get)
  qed
qed

text \<open>A script's set never takes a protected variable's reference out.\<close>

lemma replace_first_other: "r \<in> set rs \<Longrightarrow> row_key r \<noteq> k \<Longrightarrow> r \<in> set (replace_first k new rs)"
  by (induction rs) auto

lemma apply_keep_secret:
  assumes "vc_keep_secret c" "vc_value c \<noteq> None" "r \<in> set rows" "is_secret_reference (row_value r)"
  shows "r \<in> set (apply_variable_change c rows)"
  using assms by (auto simp: apply_variable_change_def replace_first_other)

lemma apply_keep_secrets:
  assumes "\<forall>c \<in> set cs. vc_keep_secret c \<and> vc_value c \<noteq> None" "r \<in> set rows" "is_secret_reference (row_value r)"
  shows "r \<in> set (apply_variable_changes rows cs)"
  using assms
  by (induction cs arbitrary: rows) (auto simp: apply_variable_changes_def apply_keep_secret)

text \<open>Changes of different names can be applied in either order: each name's rows are the same.\<close>

lemma apply_changes_commute:
  assumes "vc_key ` set cs \<inter> vc_key ` set ds = {}"
  shows "filter (\<lambda>r. row_key r = k) (apply_variable_changes (apply_variable_changes rows cs) ds) =
    filter (\<lambda>r. row_key r = k) (apply_variable_changes (apply_variable_changes rows ds) cs)"
proof -
  have own: "filter (\<lambda>r. row_key r = k) (apply_variable_changes rows1 es) =
      filter (\<lambda>r. row_key r = k) (apply_variable_changes rows2 es)"
    if "filter (\<lambda>r. row_key r = k) rows1 = filter (\<lambda>r. row_key r = k) rows2" for rows1 rows2 es
    using that
  proof (induction es arbitrary: rows1 rows2)
    case Nil
    then show ?case by (simp add: apply_variable_changes_def)
  next
    case (Cons e es)
    have ex: "(\<exists>r \<in> set rows1. row_key r = k \<and> P r) \<longleftrightarrow> (\<exists>r \<in> set rows2. row_key r = k \<and> P r)" for P
    proof -
      have "(\<exists>r \<in> set rows1. row_key r = k \<and> P r) \<longleftrightarrow> (\<exists>r \<in> set (filter (\<lambda>r. row_key r = k) rows1). P r)" by auto
      also have "\<dots> \<longleftrightarrow> (\<exists>r \<in> set rows2. row_key r = k \<and> P r)" unfolding Cons.prems by auto
      finally show ?thesis .
    qed
    have "filter (\<lambda>r. row_key r = k) (apply_variable_change e rows1) =
        filter (\<lambda>r. row_key r = k) (apply_variable_change e rows2)"
    proof (cases "vc_key e = k")
      case True
      have any: "(\<exists>r \<in> set rows1. row_key r = k) \<longleftrightarrow> (\<exists>r \<in> set rows2. row_key r = k)"
        using ex [of "\<lambda>_. True"] by simp
      have form: "filter (\<lambda>r. row_key r = k) (apply_variable_change e rows) =
          (if vc_value e \<noteq> None \<and> vc_keep_secret e \<and>
              (\<exists>r \<in> set rows. row_key r = k \<and> is_secret_reference (row_value r))
           then filter (\<lambda>r. row_key r = k) rows
           else if vc_value e = None then [] else [made e])" for rows
        using True by (auto simp: apply_variable_change_def filter_own_replace_first filter_empty_conv)
      show ?thesis unfolding form ex Cons.prems by (rule refl)
    next
      case False
      with Cons.prems show ?thesis by (simp add: apply_change_other)
    qed
    from Cons.IH [OF this] show ?case by (simp add: apply_variable_changes_def)
  qed
  show ?thesis
  proof (cases "k \<in> vc_key ` set ds")
    case True
    with assms have "k \<notin> vc_key ` set cs" by blast
    then show ?thesis
      by (simp add: apply_changes_other own [of "apply_variable_changes rows cs" rows])
  next
    case False
    then show ?thesis
      by (simp add: apply_changes_other own [of rows "apply_variable_changes rows ds"])
  qed
qed

end
