(* ===== verification/PostmanFile.thy ===== *)
theory PostmanFile
  imports PostmanAddress Variables
begin

text \<open>
  A collection as a Postman Collection v2.1 file and an environment as a Postman environment,
  \<open>packages/core/src/export/postman.ts\<close>: what the format has a place for, and a note of what it has none for.
\<close>

type_synonym item_note = "string \<times> string"

section \<open>A request\<close>

definition row_entry :: "string option \<Rightarrow> row \<Rightarrow> json" where
  "row_entry kind r =
     present [(''key'', text_field (row_key r)), (''value'', text_field (row_value r)), (''type'', map_option JStr kind),
       (''disabled'', if row_enabled r then None else Some (JBool True))]"

definition rows_entry :: "string option \<Rightarrow> row list \<Rightarrow> json" where
  "rows_entry kind rs = JArr (map (row_entry kind) rs)"

definition auth_entry_field :: "string \<times> string \<Rightarrow> json" where
  "auth_entry_field = (\<lambda>(k, v). JObj [(''key'', JStr k), (''value'', JStr v), (''type'', JStr ''string'')])"

definition typed_auth :: "string \<Rightarrow> (string \<times> string) list \<Rightarrow> json option" where
  "typed_auth kind fs = Some (JObj [(''type'', JStr kind), (kind, JArr (map auth_entry_field fs))])"

fun postman_grant :: "oauth_grant \<Rightarrow> string" where
  "postman_grant AuthorizationCode = ''authorization_code_with_pkce''"
| "postman_grant ClientCredentials = ''client_credentials''"
| "postman_grant PasswordGrant = ''password_credentials''"

fun auth_entry :: "auth_config \<Rightarrow> json option" where
  "auth_entry Inherit = None"
| "auth_entry NoAuth = Some (JObj [(''type'', JStr ''noauth'')])"
| "auth_entry (Bearer t) = typed_auth ''bearer'' [(''token'', t)]"
| "auth_entry (Basic u p) = typed_auth ''basic'' [(''username'', u), (''password'', p)]"
| "auth_entry (ApiKey k v i) = typed_auth ''apikey'' [(''key'', k), (''value'', v), (''in'', in_name i)]"
| "auth_entry (AwsV4 a) =
     typed_auth ''awsv4'' [(''accessKey'', aws_access_key a), (''secretKey'', aws_secret_key a),
       (''sessionToken'', aws_session_token a), (''region'', aws_region a), (''service'', aws_service a)]"
| "auth_entry (OAuth2 a) =
     typed_auth ''oauth2'' [(''grant_type'', postman_grant (oa_grant a)), (''authUrl'', oa_auth_url a), (''accessTokenUrl'', oa_token_url a),
       (''clientId'', oa_client_id a), (''clientSecret'', oa_client_secret a), (''scope'', oa_scope a), (''username'', oa_username a),
       (''password'', oa_password a), (''client_authentication'', client_auth_name (oa_client_auth a)), (''addTokenTo'', ''header'')]"

definition script_event :: "string \<Rightarrow> string \<Rightarrow> json" where
  "script_event listen source =
     JObj [(''listen'', JStr listen),
       (''script'', JObj [(''type'', JStr ''text/javascript''), (''exec'', texts_json (split_on (CHR 0x0A) source))])]"

definition events_entry :: "scripts \<Rightarrow> json option" where
  "events_entry s =
     (let events = map (\<lambda>(listen, source). script_event listen source)
            (filter (\<lambda>(listen, source). source \<noteq> []) [(''prerequest'', script_pre s), (''test'', script_post s)])
      in if events = [] then None else Some (JArr events))"

fun postman_mode :: "body_mode \<Rightarrow> string option" where
  "postman_mode NoBody = None"
| "postman_mode Raw = Some ''raw''"
| "postman_mode Urlencoded = Some ''urlencoded''"
| "postman_mode Multipart = Some ''formdata''"
| "postman_mode Binary = Some ''file''"
| "postman_mode Graphql = Some ''graphql''"

fun part_entry :: "multipart_part \<Rightarrow> json" where
  "part_entry (TextPart k e v) =
     present [(''key'', text_field k), (''value'', text_field v), (''type'', text_field ''text''), (''disabled'', if e then None else Some (JBool True))]"
| "part_entry (FilePart k e f) =
     present [(''key'', text_field k), (''type'', text_field ''file''), (''src'', text_field (file_name f)), (''disabled'', if e then None else Some (JBool True))]"

definition body_entry :: "request_body \<Rightarrow> json option" where
  "body_entry b =
     (let out = present
        [(''mode'', map_option JStr (postman_mode (body_mode b))), (''raw'', map_option (JStr \<circ> raw_text) (body_raw b)),
         (''options'', map_option (\<lambda>r. JObj [(''raw'', JObj [(''language'', JStr (language_name (raw_language r)))])]) (body_raw b)),
         (''urlencoded'', map_option (rows_entry (Some ''text'')) (body_urlencoded b)),
         (''formdata'', map_option (JArr \<circ> map part_entry) (body_multipart b)),
         (''file'', map_option (\<lambda>f. JObj [(''src'', JStr (file_name (bin_file f)))]) (body_binary b)),
         (''graphql'', map_option (\<lambda>g. JObj [(''query'', JStr (gql_query g)), (''variables'', JStr (gql_variables g))]) (body_graphql b))]
      in if out = JObj [] then None else Some out)"

definition names_file :: "request_body \<Rightarrow> bool" where
  "names_file b \<longleftrightarrow>
     (case body_multipart b of Some ps \<Rightarrow> list_ex (\<lambda>p. case p of FilePart _ _ _ \<Rightarrow> True | _ \<Rightarrow> False) ps | None \<Rightarrow> False) \<or> body_binary b \<noteq> None"

text \<open>A file body's own type is a header in Postman.\<close>

definition typed_headers :: "request_content \<Rightarrow> row list" where
  "typed_headers r =
     (case Option.bind (body_binary (rc_body r)) bin_content_type of
        Some (c # t) \<Rightarrow>
          if body_mode (rc_body r) = Binary \<and> \<not> list_ex (\<lambda>h. row_enabled h \<and> to_lower (row_key h) = ''content-type'') (rc_headers r)
          then rc_headers r @ [plain_row ''Content-Type'' (c # t) True] else rc_headers r
      | _ \<Rightarrow> rc_headers r)"

definition filled_text :: "string option \<Rightarrow> json option" where
  "filled_text t = (case t of None \<Rightarrow> None | Some s \<Rightarrow> if s = [] then None else Some (JStr s))"

definition request_notes :: "request_doc \<Rightarrow> item_note list" where
  "request_notes d =
     (let item = named ''request'' (rd_name d); n = length (rc_tests (rd_content d))
      in (if n = 0 then []
          else [(item, ''Its '' @ (if n = 1 then ''assertion is'' else show_nat n @ '' assertions are'') @ '' left out: Postman has tests only as scripts.'')]) @
         (if names_file (rc_body (rd_content d)) then [(item, ''A file of its body is named, not included: choose it again in Postman.'')] else []))"

definition request_entry :: "request_doc \<Rightarrow> json" where
  "request_entry d =
     (let r = rd_content d
      in present
        [(''name'', text_field (rd_name d)), (''id'', text_field (rd_id d)), (''event'', events_entry (rc_scripts r)),
         (''request'', Some (present
            [(''method'', text_field (rc_method r)), (''header'', Some (rows_entry None (typed_headers r))), (''body'', body_entry (rc_body r)),
             (''url'', Some (url_entry (rc_url r) (rc_params r))), (''auth'', auth_entry (rc_auth r)),
             (''description'', filled_text (rd_description d))])),
         (''response'', Some (JArr []))])"

section \<open>The collection\<close>

definition variables_entry :: "row list \<Rightarrow> json option" where
  "variables_entry rs = (if rs = [] then None else Some (rows_entry (Some ''string'') rs))"

definition folder_notes :: "folder \<Rightarrow> item_note list" where
  "folder_notes f =
     (if fol_variables f = [] then []
      else [(named ''folder'' (fol_name f),
        ''Its variables are written, but Postman does not read a folder's variables: move them to the collection or to an environment there.'')])"

definition folder_entry :: "folder \<Rightarrow> json list \<Rightarrow> json" where
  "folder_entry f items = present
     [(''name'', text_field (fol_name f)), (''id'', text_field (fol_id f)), (''description'', filled_text (fol_description f)),
      (''variable'', variables_entry (fol_variables f)), (''auth'', auth_entry (fol_auth f)), (''event'', events_entry (fol_scripts f)),
      (''item'', Some (JArr items))]"

definition folders_in :: "tree_child list \<Rightarrow> folder set" where
  "folders_in cs = {f. FolderChild f \<in> set cs}"

lemma folders_in_simps [simp]:
  "folders_in [] = {}" "folders_in (RequestChild r # cs) = folders_in cs" "folders_in (FolderChild f # cs) = insert f (folders_in cs)"
  by (auto simp: folders_in_def)

lemma finite_folders_in [simp]: "finite (folders_in cs)"
proof -
  have "folders_in cs = (\<lambda>c. case c of FolderChild f \<Rightarrow> f | RequestChild _ \<Rightarrow> undefined) ` {c \<in> set cs. \<exists>f. c = FolderChild f}"
    by (force simp: folders_in_def)
  then show ?thesis by simp
qed

lemma folders_in_children: "folders_in (children_in_order lc fs rs p) \<subseteq> set fs"
  by (auto simp: folders_in_def set_children_in_order)

text \<open>
  The items of a list of children, in their order; a folder is written once, and \<open>written\<close> are those that were. Its
  items are written before what follows it: what they wrote is written then.
\<close>

function export_items ::
    "(string \<Rightarrow> string \<Rightarrow> bool) \<Rightarrow> folder list \<Rightarrow> request_doc list \<Rightarrow> tree_child list \<Rightarrow> folder list \<Rightarrow>
      json list \<times> folder list \<times> item_note list" where
  "export_items lc fs rs [] written = ([], written, [])"
| "export_items lc fs rs (RequestChild r # cs) written =
     (let (es, w, ns) = export_items lc fs rs cs written in (request_entry r # es, w, request_notes r @ ns))"
| "export_items lc fs rs (FolderChild f # cs) written =
     (if f \<in> set written then export_items lc fs rs cs written
      else
        (let (items, w1, ns) = export_items lc fs rs (children_in_order lc fs rs (Some (fol_id f))) (f # written);
             (es, w2, ns') = export_items lc fs rs cs (w1 @ f # written)
         in (folder_entry f items # es, w2, folder_notes f @ ns @ ns')))"
  by pat_completeness auto

termination
proof (relation "measures [\<lambda>(lc, fs, rs, cs, w). card ((set fs \<union> folders_in cs) - set w), \<lambda>(lc, fs, rs, cs, w). length cs]", goal_cases)
  case (3 lc fs rs f cs w)
  then have "(set fs \<union> folders_in (FolderChild f # cs)) - set w = (set fs \<union> folders_in cs) - set w" by auto
  then show ?case by simp
next
  case (4 lc fs rs f cs w)
  let ?new = "(set fs \<union> folders_in (children_in_order lc fs rs (Some (fol_id f)))) - set (f # w)"
  have "?new \<subset> (set fs \<union> folders_in (FolderChild f # cs)) - set w"
    using 4 folders_in_children [of lc fs rs "Some (fol_id f)"] by auto
  then have "card ?new < card ((set fs \<union> folders_in (FolderChild f # cs)) - set w)" by (intro psubset_card_mono) auto
  then show ?case by simp
next
  case (5 lc fs rs f cs w a b items c ns)
  let ?new = "(set fs \<union> folders_in cs) - set (c @ f # w)"
  have "?new \<subset> (set fs \<union> folders_in (FolderChild f # cs)) - set w" using 5 by auto
  then have "card ?new < card ((set fs \<union> folders_in (FolderChild f # cs)) - set w)" by (intro psubset_card_mono) auto
  then show ?case by simp
qed auto

definition folder_first :: "(string \<Rightarrow> string \<Rightarrow> bool) \<Rightarrow> folder \<Rightarrow> folder \<Rightarrow> bool" where
  "folder_first lc a b \<longleftrightarrow> fol_order a < fol_order b \<or> fol_order a = fol_order b \<and> lc (fol_id a) (fol_id b)"

definition request_first :: "(string \<Rightarrow> string \<Rightarrow> bool) \<Rightarrow> request_doc \<Rightarrow> request_doc \<Rightarrow> bool" where
  "request_first lc a b \<longleftrightarrow> rd_order a < rd_order b \<or> rd_order a = rd_order b \<and> lc (rd_id a) (rd_id b)"

text \<open>What has no place in the tree goes to the top: a folder whose parent is none, a request of a folder that is none.\<close>

definition postman_items :: "(string \<Rightarrow> string \<Rightarrow> bool) \<Rightarrow> collection_tree \<Rightarrow> json list \<times> item_note list" where
  "postman_items lc tree =
     (let fs = tree_folders tree; rs = tree_requests tree;
          stray = sort_by (request_first lc) (filter (\<lambda>r. case rd_folder_id r of None \<Rightarrow> False | Some i \<Rightarrow> i \<notin> fol_id ` set fs) rs);
          (placed, written, notes) = export_items lc fs rs (children_in_order lc fs rs None) [];
          (lost, _, notes') = export_items lc fs rs (map FolderChild (sort_by (folder_first lc) fs)) written
      in (placed @ lost @ map request_entry stray, notes @ notes' @ concat (map request_notes stray)))"

definition POSTMAN_COLLECTION_SCHEMA :: string where
  "POSTMAN_COLLECTION_SCHEMA = ''https://schema.getpostman.com/json/collection/v2.1.0/collection.json''"

definition postman_file :: "(string \<Rightarrow> string \<Rightarrow> bool) \<Rightarrow> collection_tree \<Rightarrow> json \<times> item_note list" where
  "postman_file lc tree =
     (let c = tree_collection tree; (items, notes) = postman_items lc tree
      in (present
        [(''info'', Some (present [(''_postman_id'', text_field (col_id c)), (''name'', text_field (col_name c)),
            (''description'', filled_text (col_description c)), (''schema'', text_field POSTMAN_COLLECTION_SCHEMA)])),
         (''item'', Some (JArr items)), (''auth'', auth_entry (col_auth c)), (''event'', events_entry (col_scripts c)),
         (''variable'', variables_entry (col_variables c))], notes))"

section \<open>An environment\<close>

definition environment_row :: "(string \<Rightarrow> string) \<Rightarrow> row \<Rightarrow> json" where
  "environment_row val r =
     JObj [(''key'', JStr (row_key r)), (''value'', JStr (val (row_value r))),
       (''type'', JStr (if is_secret_reference (row_value r) then ''secret'' else ''default'')), (''enabled'', JBool (row_enabled r))]"

definition postman_environment_file :: "environment_doc \<Rightarrow> (string \<Rightarrow> string) \<Rightarrow> json" where
  "postman_environment_file env val =
     JObj [(''id'', JStr (env_id env)), (''name'', JStr (env_name env)), (''values'', JArr (map (environment_row val) (env_vars env))),
       (''_postman_variable_scope'', JStr ''environment'')]"

end
