(* ===== verification/Forms.thy ===== *)
theory Forms
  imports Encoding
begin

text \<open>
  The round trip of percent-encoding, and form encoding (\<open>URLSearchParams\<close>): what a form body
  says when the receiver reads it is the pairs it was made of.
\<close>

section \<open>Percent-encoding round trip\<close>

lemma hex_digits_val: "hex_val (hex_digit (unat (b :: byte) div 16)) = Some (unat b div 16)"
  "hex_val (hex_digit (unat b mod 16)) = Some (unat b mod 16)"
  by (simp_all add: hex_val_digit)

lemma take_escapes_percent:
  "take_escapes (percent_byte b @ s) = map_option (\<lambda>(bs, s'). (b # bs, s')) (take_escapes s)"
proof -
  have "of_nat (unat b div 16 * 16 + unat b mod 16) = b"
    by (simp only: unat_regroup of_nat_unat_byte)
  then show ?thesis
    by (simp only: percent_byte_def append_Cons append_Nil take_escapes.simps list.case hex_digits_val option.case
        prod.case if_True refl)
qed

lemma take_escapes_percents:
  "take_escapes (concat (map percent_byte bs) @ s) = map_option (\<lambda>(bs', s'). (bs @ bs', s')) (take_escapes s)"
proof (induction bs)
  case Nil
  then show ?case by (cases "take_escapes s") auto
next
  case (Cons b bs)
  then show ?case by (cases "take_escapes s") (auto simp: take_escapes_percent)
qed

lemma take_escapes_stop: "s = [] \<or> hd s \<noteq> CHR ''%'' \<Longrightarrow> take_escapes s = Some ([], s)"
  by (cases s) (auto simp: take_escapes.simps)

lemma utf8_points_append:
  "utf8_points (utf8 t @ bs) = map_option ((@) (map char_nat t)) (utf8_points bs)"
  by (induction t) (auto simp: utf8_Cons utf8_points_char option.map_comp comp_def option.map_ident)

lemma utf8_decode_append: "utf8_decode (utf8 t @ bs) = map_option ((@) t) (utf8_decode bs)"
  by (simp add: utf8_decode_def utf8_points_append option.map_comp comp_def point_char_def)

lemma uri_unreserved_not_percent: "uri_unreserved c \<Longrightarrow> c \<noteq> CHR ''%''"
  by (auto simp: uri_unreserved_def is_alnum_def is_digit_def is_upper_def is_lower_def char_nat_def)

text \<open>
  A text decodes back whatever way its characters were written, each as itself (when it is no
  percent sign) or as the escapes of its bytes: with each character stands whether it is left
  as it is. \<open>P\<close> says it of every character alike.
\<close>

definition escaped_char :: "char \<times> bool \<Rightarrow> string" where
  "escaped_char ck = (if snd ck then [fst ck] else concat (map percent_byte (utf8_char (fst ck))))"

definition escaped_text :: "(char \<times> bool) list \<Rightarrow> string" where
  "escaped_text cks = concat (map escaped_char cks)"

definition percent_text :: "(char \<Rightarrow> bool) \<Rightarrow> string \<Rightarrow> string" where
  "percent_text P s = concat (map (\<lambda>c. if P c then [c] else concat (map percent_byte (utf8_char c))) s)"

lemma percent_text_escaped: "percent_text P s = escaped_text (map (\<lambda>c. (c, P c)) s)"
  by (simp add: percent_text_def escaped_text_def escaped_char_def comp_def cong: if_cong)

lemma encode_uri_percent_text: "encode_uri = percent_text uri_unreserved"
  by (simp add: encode_uri_def percent_text_def fun_eq_iff)

lemma escaped_text_Cons: "escaped_text (ck # cks) = escaped_char ck @ escaped_text cks"
  by (simp add: escaped_text_def)

lemma escaped_text_append: "escaped_text (a @ b) = escaped_text a @ escaped_text b"
  by (simp add: escaped_text_def)

lemma percents_start: "\<exists>xs. concat (map percent_byte (utf8_char c)) @ s = CHR ''%'' # xs"
  by (simp add: utf8_char_def percent_byte_def Let_def)

lemma escaped_text_start: "\<not> k \<Longrightarrow> \<exists>xs. escaped_text ((c, k) # cks) = CHR ''%'' # xs"
  unfolding escaped_text_Cons escaped_char_def snd_conv fst_conv if_not_P by (rule percents_start)

text \<open>The escapes at the start of a text so written are the bytes of its first escaped characters.\<close>

lemma take_escapes_escaped_text:
  assumes "\<forall>(c, k) \<in> set cks. k \<longrightarrow> c \<noteq> CHR ''%''"
  shows "take_escapes (escaped_text cks) =
    Some (utf8 (map fst (takeWhile (\<lambda>ck. \<not> snd ck) cks)), escaped_text (dropWhile (\<lambda>ck. \<not> snd ck) cks))"
  using assms
proof (induction cks)
  case Nil
  then show ?case by (simp add: escaped_text_def take_escapes.simps)
next
  case (Cons ck cks)
  obtain c k where ck: "ck = (c, k)" by (cases ck)
  show ?case
  proof (cases k)
    case True
    with Cons.prems ck show ?thesis by (simp add: escaped_text_Cons escaped_char_def take_escapes_stop)
  next
    case False
    with ck have "escaped_text (ck # cks) = concat (map percent_byte (utf8_char c)) @ escaped_text cks"
      by (simp add: escaped_text_Cons escaped_char_def)
    with False ck Cons show ?thesis by (simp add: take_escapes_percents utf8_Cons)
  qed
qed

lemma decode_uri_escaped_text:
  assumes "\<forall>(c, k) \<in> set cks. k \<longrightarrow> c \<noteq> CHR ''%''"
  shows "decode_uri (escaped_text cks) = Some (map fst cks)"
  using assms
proof (induction cks rule: length_induct)
  case (1 cks)
  show ?case
  proof (cases cks)
    case Nil
    then show ?thesis by (simp add: escaped_text_def)
  next
    case (Cons ck cs)
    obtain c k where ck: "ck = (c, k)" by (cases ck)
    show ?thesis
    proof (cases k)
      case True
      then have "escaped_text cks = c # escaped_text cs"
        by (simp add: Cons ck escaped_text_Cons escaped_char_def)
      with True 1 Cons ck show ?thesis by simp
    next
      case False
      let ?rest = "dropWhile (\<lambda>ck. \<not> snd ck) cks"
      from False Cons ck escaped_text_start [of k c cs] obtain xs where px: "escaped_text cks = CHR ''%'' # xs"
        by blast
      have esc: "take_escapes (CHR ''%'' # xs) =
          Some (utf8 (map fst (takeWhile (\<lambda>ck. \<not> snd ck) cks)), escaped_text ?rest)"
        using take_escapes_escaped_text [OF "1.prems"] px by simp
      have "length ?rest < length cks"
        using False Cons ck length_dropWhile_le [of "\<lambda>ck. \<not> snd ck" cs] by simp
      moreover have "\<forall>(c, k) \<in> set ?rest. k \<longrightarrow> c \<noteq> CHR ''%''"
        using "1.prems" by (auto dest: set_dropWhileD)
      ultimately have "decode_uri (escaped_text ?rest) = Some (map fst ?rest)" using "1.IH" by blast
      with esc show ?thesis
        by (simp add: px flip: map_append)
    qed
  qed
qed

lemma decode_uri_percent_text:
  assumes "\<And>c. P c \<Longrightarrow> c \<noteq> CHR ''%''"
  shows "decode_uri (percent_text P s) = Some s"
  using assms by (simp add: percent_text_escaped decode_uri_escaped_text comp_def)

lemma decode_encode_uri [simp]: "decode_uri (encode_uri s) = Some s"
  unfolding encode_uri_percent_text by (rule decode_uri_percent_text) (rule uri_unreserved_not_percent)

section \<open>Form encoding\<close>

definition form_unreserved :: "char \<Rightarrow> bool" where
  "form_unreserved c \<longleftrightarrow> is_alnum c \<or> c \<in> set ''*-._''"

text \<open>One name or value as \<open>URLSearchParams\<close> writes it.\<close>

definition form_char :: "char \<Rightarrow> string" where
  "form_char c =
     (if c = CHR '' '' then ''+''
      else if form_unreserved c then [c]
      else concat (map percent_byte (utf8_char c)))"

definition form_encode :: "string \<Rightarrow> string" where
  "form_encode s = concat (map form_char s)"

text \<open>\<open>new URLSearchParams(pairs).toString()\<close>.\<close>

definition form_body :: "(string \<times> string) list \<Rightarrow> string" where
  "form_body pairs = join ''&'' (map (\<lambda>(k, v). form_encode k @ ''='' @ form_encode v) pairs)"

text \<open>
  Reading one back: a \<open>+\<close> is a space, an escape its byte, a \<open>%\<close> with no two hexadecimal digits
  after it is itself; the bytes are read as UTF-8. Bytes that are no UTF-8 become replacement
  characters, which are outside the texts of the model: \<open>None\<close> stands for that.
\<close>

fun form_bytes :: "string \<Rightarrow> byte list" where
  "form_bytes [] = []"
| "form_bytes (c # s) =
     (if c = CHR ''+'' then 32 # form_bytes s
      else if c = CHR ''%'' then
        (case s of
           h # l # rest \<Rightarrow>
             (case (hex_val h, hex_val l) of
                (Some a, Some b) \<Rightarrow> of_nat (a * 16 + b) # form_bytes rest
              | _ \<Rightarrow> 37 # form_bytes s)
         | _ \<Rightarrow> 37 # form_bytes s)
      else utf8_char c @ form_bytes s)"

definition form_decode :: "string \<Rightarrow> string option" where
  "form_decode s = utf8_decode (form_bytes s)"

definition form_pair :: "string \<Rightarrow> (string \<times> string) option" where
  "form_pair piece =
     (let (k, v) = (case index_of CHR ''='' piece of
          None \<Rightarrow> (piece, [])
        | Some i \<Rightarrow> (take i piece, drop (Suc i) piece))
      in case (form_decode k, form_decode v) of (Some a, Some b) \<Rightarrow> Some (a, b) | _ \<Rightarrow> None)"

text \<open>\<open>[...new URLSearchParams(text)]\<close>.\<close>

definition form_parse :: "string \<Rightarrow> (string \<times> string) list option" where
  "form_parse text = those (map form_pair (filter (\<lambda>p. p \<noteq> []) (split_on CHR ''&'' text)))"

declare form_bytes.simps(2) [simp del]

lemma form_bytes_percent: "form_bytes (percent_byte b @ s) = b # form_bytes s"
proof -
  have "of_nat (unat b div 16 * 16 + unat b mod 16) = b"
    by (simp only: unat_regroup of_nat_unat_byte)
  then show ?thesis
    by (simp add: percent_byte_def form_bytes.simps(2) hex_digits_val del: of_nat_add of_nat_mult of_nat_unat)
qed

lemma form_bytes_percents: "form_bytes (concat (map percent_byte bs) @ s) = bs @ form_bytes s"
  by (induction bs) (simp_all add: form_bytes_percent)

lemma form_unreserved_plain: "form_unreserved c \<Longrightarrow> c \<notin> set ''+%&= ''"
  by (auto simp: form_unreserved_def is_alnum_def is_digit_def is_upper_def is_lower_def char_nat_def)

lemma form_bytes_char: "form_bytes (form_char c @ s) = utf8_char c @ form_bytes s"
  using form_unreserved_plain [of c]
  by (auto simp: form_char_def form_bytes_percents form_bytes.simps(2) utf8_char_def char_nat_def)

lemma form_decode_encode [simp]: "form_decode (form_encode s) = Some s"
proof -
  have "form_bytes (form_encode s) = utf8 s"
    by (induction s) (simp_all add: form_encode_def form_bytes_char utf8_Cons)
  then show ?thesis by (simp add: form_decode_def)
qed

lemma hex_digit_alnum: "n < 16 \<Longrightarrow> hex_digit n \<notin> set ''&=+''"
proof -
  have "hex_digit n \<in> set ''0123456789ABCDEF''" if "n < 16"
    using that by (simp add: hex_digit_def nth_mem del: set_simps)
  moreover assume "n < 16"
  ultimately show ?thesis by auto
qed

lemma percent_byte_plain: "c \<in> set (percent_byte b) \<Longrightarrow> c \<notin> set ''&=''"
  using hex_digit_alnum [of "unat b div 16"] hex_digit_alnum [of "unat b mod 16"]
  by (auto simp: percent_byte_def)

lemma form_encode_plain: "c \<in> set (form_encode s) \<Longrightarrow> c \<notin> set ''&=''"
proof -
  assume "c \<in> set (form_encode s)"
  then obtain d where "c \<in> set (form_char d)" by (auto simp: form_encode_def)
  then show ?thesis
    using form_unreserved_plain [of d] percent_byte_plain
    by (fastforce simp: form_char_def split: if_splits)
qed

lemma index_of_append: "c \<notin> set a \<Longrightarrow> index_of c (a @ c # b) = Some (length a)"
  by (induction a) auto

lemma form_pair_encode [simp]: "form_pair (form_encode k @ ''='' @ form_encode v) = Some (k, v)"
proof -
  have "index_of CHR ''='' (form_encode k @ CHR ''='' # form_encode v) = Some (length (form_encode k))"
    using form_encode_plain [of "CHR ''=''" k] by (intro index_of_append) auto
  then show ?thesis by (simp add: form_pair_def)
qed

lemma split_on_append: "c \<notin> set a \<Longrightarrow> split_on c (a @ c # b) = a # split_on c b"
  by (induction a) auto

lemma split_on_none: "c \<notin> set a \<Longrightarrow> split_on c a = [a]"
  by (induction a) auto

lemma split_on_join:
  "ps \<noteq> [] \<Longrightarrow> (\<forall>p \<in> set ps. c \<notin> set p) \<Longrightarrow> split_on c (join [c] ps) = ps"
  by (induction "[c]" ps rule: join.induct) (simp_all add: split_on_append split_on_none)

lemma form_parse_body [simp]: "form_parse (form_body pairs) = Some pairs"
proof (cases "pairs = []")
  case True
  then show ?thesis by (simp add: form_body_def form_parse_def)
next
  case False
  define ps where "ps = map (\<lambda>(k, v). form_encode k @ ''='' @ form_encode v) pairs"
  have no: "\<forall>p \<in> set ps. CHR ''&'' \<notin> set p"
    using form_encode_plain by (fastforce simp: ps_def)
  have ne: "filter (\<lambda>p. p \<noteq> []) ps = ps"
    by (auto simp: ps_def filter_id_conv)
  have "map form_pair ps = map Some pairs"
    by (auto simp: ps_def simp del: append_Cons)
  moreover have "split_on CHR ''&'' (form_body pairs) = ps"
    using split_on_join [OF _ no] False by (simp add: form_body_def ps_def)
  moreover have "those (map Some pairs) = Some pairs"
    by (induction pairs) auto
  ultimately show ?thesis by (simp add: form_parse_def ne)
qed

end
