(* ===== verification/CurlWords.thy ===== *)
theory CurlWords
  imports Forms
begin

text \<open>
  The words of a command line (\<open>packages/core/src/import/curl.ts\<close>, \<open>import/curl-command.ts\<close> and
  the quoting of \<open>export/curl.ts\<close>): bash's quotes, those of Windows' cmd, and the quoting the app
  writes. The quoting is read back as it was meant, whatever the text: that is what keeps a text of
  the user's one word of a command and no more.
\<close>

section \<open>Quoting\<close>

abbreviation (input) QUOTE :: char where "QUOTE \<equiv> CHR 0x27"
abbreviation (input) DOUBLE :: char where "DOUBLE \<equiv> CHR 0x22"
abbreviation (input) BACKSLASH :: char where "BACKSLASH \<equiv> CHR 0x5C"
abbreviation (input) LF :: char where "LF \<equiv> CHR 0x0A"
abbreviation (input) CR :: char where "CR \<equiv> CHR 0x0D"

definition shell_quote :: "string \<Rightarrow> string" where
  "shell_quote v = [QUOTE] @ replace_all [QUOTE] [QUOTE, BACKSLASH, QUOTE, QUOTE] v @ [QUOTE]"

section \<open>Is it a cURL command\<close>

text \<open>\<open>/^\s*curl(\.exe)?(\s|$)/i\<close>\<close>

definition word_ends :: "string \<Rightarrow> bool" where
  "word_ends s \<longleftrightarrow> s = [] \<or> js_space (hd s)"

definition is_curl_command :: "string \<Rightarrow> bool" where
  "is_curl_command s =
     (let t = dropWhile js_space s; r = drop 4 t
      in to_lower (take 4 t) = ''curl'' \<and>
         (word_ends r \<or> to_lower (take 4 r) = ''.exe'' \<and> word_ends (drop 4 r)))"

section \<open>Bash\<close>

definition ANSI_C :: "(char \<times> char) list" where
  "ANSI_C =
     [(CHR ''n'', LF), (CHR ''t'', CHR 0x09), (CHR ''r'', CR), (CHR ''a'', CHR 0x07), (CHR ''b'', CHR 0x08),
      (CHR ''e'', CHR 0x1B), (CHR ''f'', CHR 0x0C), (CHR ''v'', CHR 0x0B), (BACKSLASH, BACKSLASH), (QUOTE, QUOTE),
      (DOUBLE, DOUBLE), (CHR ''?'', CHR ''?'')]"

text \<open>The digits at the start of a text, up to so many, and the number they write.\<close>

definition digits_of :: "nat \<Rightarrow> nat \<Rightarrow> string \<Rightarrow> nat list" where
  "digits_of radix most s =
     map (the \<circ> hex_val) (takeWhile (\<lambda>c. case hex_val c of None \<Rightarrow> False | Some d \<Rightarrow> d < radix) (take most s))"

definition number_of :: "nat \<Rightarrow> nat list \<Rightarrow> nat" where
  "number_of radix ds = foldl (\<lambda>n d. n * radix + d) 0 ds"

definition numbered_escape :: "nat \<Rightarrow> nat list \<Rightarrow> nat \<Rightarrow> (string \<times> nat) option" where
  "numbered_escape radix ds led =
     (if ds = [] then None
      else Some (if number_of radix ds \<le> 0x10FFFF then [point_char (number_of radix ds)] else [], led + length ds))"

text \<open>What follows a backslash, and how many characters it took.\<close>

definition ansi_escape :: "string \<Rightarrow> string \<times> nat" where
  "ansi_escape s =
     (let numbered =
        (case s of
           [] \<Rightarrow> None
         | c # r \<Rightarrow>
             if c = CHR ''x'' then numbered_escape 16 (digits_of 16 2 r) 1
             else if c = CHR ''u'' then numbered_escape 16 (digits_of 16 4 r) 1
             else if c = CHR ''U'' then numbered_escape 16 (digits_of 16 8 r) 1
             else numbered_escape 8 (digits_of 8 3 (c # r)) 0)
      in case numbered of
           Some found \<Rightarrow> found
         | None \<Rightarrow>
             (case s of
                [] \<Rightarrow> ([BACKSLASH], 1)
              | c # _ \<Rightarrow> (case map_of ANSI_C c of Some u \<Rightarrow> ([u], 1) | None \<Rightarrow> ([BACKSLASH, c], 1))))"

text \<open>
  What stands in \<open>$'...'\<close> and in double quotes, after the opening quote, and what follows the closing
  one: \<open>None\<close> when it is not closed.
\<close>

function ansi_quoted :: "string \<Rightarrow> (string \<times> string) option" where
  "ansi_quoted [] = None"
| "ansi_quoted (c # s) =
     (if c = QUOTE then Some ([], s)
      else if c = BACKSLASH then
        (case ansi_escape s of (v, taken) \<Rightarrow> map_option (apfst ((@) v)) (ansi_quoted (drop taken s)))
      else map_option (apfst ((#) c)) (ansi_quoted s))"
  by pat_completeness auto
termination
  by (relation "measure length") auto

fun double_quoted :: "string \<Rightarrow> (string \<times> string) option" where
  "double_quoted [] = None"
| "double_quoted (c # s) =
     (if c = DOUBLE then Some ([], s)
      else
        (case s of
           n # r \<Rightarrow>
             if c = BACKSLASH \<and> n \<in> set [DOUBLE, BACKSLASH, CHR ''$'', CHR 0x60, LF]
             then map_option (apfst (\<lambda>p. if n = LF then p else n # p)) (double_quoted r)
             else map_option (apfst ((#) c)) (double_quoted s)
         | [] \<Rightarrow> None))"

lemma ansi_quoted_length: "ansi_quoted s = Some (p, r) \<Longrightarrow> length r < length s"
proof (induction s arbitrary: p r rule: ansi_quoted.induct)
  case (2 c s)
  show ?case
  proof (cases "c = BACKSLASH")
    case True
    obtain v taken where e: "ansi_escape s = (v, taken)" by fastforce
    from "2.prems" True e obtain p' where "ansi_quoted (drop taken s) = Some (p', r)" by auto
    with "2.IH"(1) True e have "length r < length (drop taken s)" by simp
    then show ?thesis by simp
  next
    case False
    with 2 show ?thesis by (fastforce split: if_splits)
  qed
qed simp

lemma double_quoted_length: "double_quoted s = Some (p, r) \<Longrightarrow> length r < length s"
proof (induction s arbitrary: p rule: double_quoted.induct)
  case (2 c s)
  show ?case
  proof (cases "c = DOUBLE")
    case True
    with "2.prems" show ?thesis by simp
  next
    case False
    show ?thesis
    proof (cases s)
      case Nil
      with "2.prems" False show ?thesis by simp
    next
      case (Cons n t)
      show ?thesis
      proof (cases "c = BACKSLASH \<and> n \<in> set [DOUBLE, BACKSLASH, CHR ''$'', CHR 0x60, LF]")
        case True
        with "2.prems" Cons obtain q where "double_quoted t = Some (q, r)"
          by (simp only: double_quoted.simps(2) [of c] list.case) auto
        with "2.IH"(1) [OF False Cons True] Cons show ?thesis by fastforce
      next
        case other: False
        with "2.prems" Cons False obtain q where "double_quoted s = Some (q, r)"
          by (simp only: double_quoted.simps(2) [of c] list.case if_False) auto
        with "2.IH"(2) [OF False Cons other] show ?thesis by fastforce
      qed
    qed
  qed
qed simp

definition added :: "string option \<Rightarrow> string \<Rightarrow> string option" where
  "added word piece = Some ((case word of None \<Rightarrow> [] | Some w \<Rightarrow> w) @ piece)"

definition ended :: "string option \<Rightarrow> string list \<Rightarrow> string list" where
  "ended word ws = (case word of None \<Rightarrow> ws | Some w \<Rightarrow> ws @ [w])"

function bash_loop :: "string option \<Rightarrow> string list \<Rightarrow> string \<Rightarrow> string + string list" where
  "bash_loop word ws [] = Inr (ended word ws)"
| "bash_loop word ws (c # s) =
     (if c = BACKSLASH then
        (case s of
           [] \<Rightarrow> bash_loop word ws []
         | n # r \<Rightarrow>
             if n = LF then bash_loop word ws r
             else if n = CR \<and> take 1 r = [LF] then bash_loop word ws (drop 1 r)
             else bash_loop (added word [n]) ws r)
      else if c = QUOTE then
        (case index_of QUOTE s of
           None \<Rightarrow> Inl ''The cURL command has a single quote that is not closed.''
         | Some e \<Rightarrow> bash_loop (added word (take e s)) ws (drop (Suc e) s))
      else if c = CHR ''$'' \<and> take 1 s = [QUOTE] then
        (case ansi_quoted (drop 1 s) of
           None \<Rightarrow> Inl ''The cURL command has a quote that is not closed.''
         | Some (piece, r) \<Rightarrow> bash_loop (added word piece) ws r)
      else if c = DOUBLE then
        (case double_quoted s of
           None \<Rightarrow> Inl ''The cURL command has a double quote that is not closed.''
         | Some (piece, r) \<Rightarrow> bash_loop (added word piece) ws r)
      else if js_space c then bash_loop None (ended word ws) s
      else bash_loop (added word [c]) ws s)"
  by pat_completeness auto
termination
  by (relation "measure (\<lambda>(word, ws, s). length s)") (auto dest!: ansi_quoted_length double_quoted_length)

definition bash_words :: "string \<Rightarrow> string + string list" where
  "bash_words s = bash_loop None [] s"

section \<open>Windows' cmd\<close>

text \<open>The carets taken away: before a line break it and the break are nothing.\<close>

fun cmd_plain :: "string \<Rightarrow> string" where
  "cmd_plain [] = []"
| "cmd_plain [c] = [c]"
| "cmd_plain (c # n # s) =
     (if c = CHR ''^'' then
        (if n = LF then cmd_plain s
         else if n = CR \<and> take 1 s = [LF] then cmd_plain (drop 1 s)
         else n # cmd_plain s)
      else c # cmd_plain (n # s))"

fun cmd_loop :: "bool \<Rightarrow> string option \<Rightarrow> string list \<Rightarrow> string \<Rightarrow> string + string list" where
  "cmd_loop quoted word ws [] =
     (if quoted then Inl ''The cURL command has a double quote that is not closed.'' else Inr (ended word ws))"
| "cmd_loop quoted word ws (c # s) =
     (if c = BACKSLASH \<and> take 1 s = [DOUBLE] then cmd_loop quoted (added word [DOUBLE]) ws (drop 1 s)
      else if c = DOUBLE then
        (if quoted \<and> take 1 s = [DOUBLE] then cmd_loop quoted (added word [DOUBLE]) ws (drop 1 s)
         else cmd_loop (\<not> quoted) (added word []) ws s)
      else if \<not> quoted \<and> js_space c then cmd_loop quoted None (ended word ws) s
      else cmd_loop quoted (added word [c]) ws s)"

definition cmd_words :: "string \<Rightarrow> string + string list" where
  "cmd_words s = cmd_loop False None [] (cmd_plain s)"

definition is_cmd :: "string \<Rightarrow> bool" where
  "is_cmd s \<longleftrightarrow>
     (contains s [CHR ''^'', LF] \<or> contains s [CHR ''^'', CR, LF] \<or> contains s [CHR ''^'', DOUBLE]) \<and> QUOTE \<notin> set s"

definition command_words :: "string \<Rightarrow> string + string list" where
  "command_words s = (if is_cmd s then cmd_words s else bash_words s)"

section \<open>What a quoted text is to bash\<close>

lemma added_added [simp]: "added (added word a) b = added word (a @ b)"
  by (simp add: added_def)

lemma replace_all_one: "replace_all [c] r s = concat (map (\<lambda>x. if x = c then r else [x]) s)"
  by (induction s) (auto simp: starts_with_def)

declare bash_loop.simps(2) [simp del]

lemma bash_quoted:
  "QUOTE \<notin> set v \<Longrightarrow> bash_loop word ws (QUOTE # v @ QUOTE # s) = bash_loop (added word v) ws s"
  by (simp add: bash_loop.simps(2) index_of_append)

lemma bash_escaped: "c \<noteq> LF \<Longrightarrow> c \<noteq> CR \<Longrightarrow> bash_loop word ws (BACKSLASH # c # s) = bash_loop (added word [c]) ws s"
  by (simp add: bash_loop.simps(2))

lemma bash_shell_quote: "bash_loop word ws (shell_quote v @ s) = bash_loop (added word v) ws s"
proof (induction v arbitrary: word rule: length_induct)
  case (1 v)
  let ?inner = "\<lambda>v. concat (map (\<lambda>x. if x = QUOTE then [QUOTE, BACKSLASH, QUOTE, QUOTE] else [x]) v)"
  have inner: "shell_quote v = QUOTE # ?inner v @ [QUOTE]" for v
    by (simp add: shell_quote_def replace_all_one)
  have plain: "?inner v = v" if "QUOTE \<notin> set v" for v using that by (induction v) auto
  show ?case
  proof (cases "QUOTE \<in> set v")
    case False
    then show ?thesis by (simp add: inner plain bash_quoted)
  next
    case True
    then obtain a b where v: "v = a @ QUOTE # b" "QUOTE \<notin> set a" by (meson split_list_first)
    then have "shell_quote v @ s = QUOTE # a @ QUOTE # BACKSLASH # QUOTE # shell_quote b @ s"
      by (simp add: inner plain)
    then have "bash_loop word ws (shell_quote v @ s) = bash_loop (added word (a @ [QUOTE])) ws (shell_quote b @ s)"
      by (simp add: bash_quoted bash_escaped v(2))
    also have "\<dots> = bash_loop (added word v) ws s"
      using 1 v(1) by simp
    finally show ?thesis .
  qed
qed

text \<open>A character that is none of bash's, and a word of such.\<close>

definition bash_plain :: "char \<Rightarrow> bool" where
  "bash_plain c \<longleftrightarrow> c \<notin> set [BACKSLASH, QUOTE, DOUBLE, CHR ''$''] \<and> \<not> js_space c"

lemma bash_loop_plain: "list_all bash_plain p \<Longrightarrow> p \<noteq> [] \<Longrightarrow> bash_loop word ws (p @ s) = bash_loop (added word p) ws s"
proof (induction p arbitrary: word)
  case (Cons c p)
  then have "bash_loop word ws ((c # p) @ s) = bash_loop (added word [c]) ws (p @ s)"
    by (simp add: bash_loop.simps(2) bash_plain_def)
  with Cons show ?case by (cases "p = []") simp_all
qed simp

lemma bash_loop_space: "js_space c \<Longrightarrow> bash_loop word ws (c # s) = bash_loop None (ended word ws) s"
  by (auto simp: bash_loop.simps(2) js_space_def)

lemma bash_loop_next_line: "bash_loop word ws (BACKSLASH # LF # s) = bash_loop word ws s"
  by (simp add: bash_loop.simps(2))

text \<open>
  A text the app quotes for a shell is one word of the command, the text itself, whatever is in it: quotes, line breaks,
  dollar signs. So a list of texts, quoted and written after one another with spaces, is read back as that list.
\<close>

theorem shell_words_round_trip:
  "command_words (join '' '' (map shell_quote vs)) = Inr vs"
proof -
  have run: "bash_loop None ws (join '' '' (map shell_quote vs)) = Inr (ws @ vs)" for ws
  proof (induction vs arbitrary: ws rule: induct_list012)
    case (2 v)
    then show ?case using bash_shell_quote [of None ws v "[]"] by (simp add: added_def ended_def)
  next
    case (3 u v vs)
    have "js_space CHR '' ''" by (simp add: js_space_def)
    with 3 show ?case by (simp add: bash_shell_quote bash_loop_space added_def ended_def)
  qed (simp add: ended_def)
  have "\<not> is_cmd (join '' '' (map shell_quote vs))"
  proof (cases vs)
    case Nil
    then show ?thesis by (simp add: is_cmd_def starts_with_def)
  next
    case (Cons v us)
    then have "QUOTE \<in> set (join '' '' (map shell_quote vs))"
      by (cases us) (simp_all add: shell_quote_def)
    then show ?thesis by (simp add: is_cmd_def)
  qed
  with run [of "[]"] show ?thesis by (simp add: command_words_def bash_words_def)
qed

end
