(* ===== verification/Auth.thy ===== *)
theory Auth
  imports Model Encoding
begin

text \<open>
  \<open>packages/core/src/auth/request-auth.ts\<close>: what an authentication puts on the wire, the auth a
  request inherits, and the credentials a redactor is given. \<open>resolve\<close> is any action on a text:
  the variable resolver, which may throw, or the recorder that \<open>authTexts\<close> passes.
\<close>

definition basic_value :: "string \<Rightarrow> string \<Rightarrow> string" where
  "basic_value username password = ''Basic '' @ base64 (utf8 (username @ '':'' @ password))"

fun build_auth_headers :: "auth_config \<Rightarrow> (string \<times> string) list" where
  "build_auth_headers (Bearer token) =
     (if token \<noteq> [] then [(''Authorization'', ''Bearer '' @ token)] else [])"
| "build_auth_headers (Basic username password) =
     (if username \<noteq> [] then [(''Authorization'', basic_value username password)] else [])"
| "build_auth_headers (ApiKey key value place) =
     (if key \<noteq> [] \<and> place = InHeader then [(key, value)] else [])"
| "build_auth_headers _ = []"

fun build_auth_query_param :: "auth_config \<Rightarrow> (string \<times> string) option" where
  "build_auth_query_param (ApiKey key value place) =
     (if key \<noteq> [] \<and> place = InQuery then Some (key, value) else None)"
| "build_auth_query_param _ = None"

fun resolve_auth :: "(string \<Rightarrow> ('s, 'e, string) action) \<Rightarrow> auth_config \<Rightarrow> ('s, 'e, auth_config) action" where
  "resolve_auth resolve (Bearer token) = andthen (resolve token) (\<lambda>t. give (Bearer t))"
| "resolve_auth resolve (Basic username password) =
     andthen (resolve username) (\<lambda>u. andthen (resolve password) (\<lambda>p. give (Basic u p)))"
| "resolve_auth resolve (ApiKey key value place) =
     andthen (resolve key) (\<lambda>k. andthen (resolve value) (\<lambda>v. give (ApiKey k v place)))"
| "resolve_auth resolve (AwsV4 a) =
     andthen (resolve (aws_access_key a)) (\<lambda>access.
     andthen (resolve (aws_secret_key a)) (\<lambda>secret.
     andthen (resolve (aws_session_token a)) (\<lambda>token.
     andthen (resolve (aws_region a)) (\<lambda>region.
     andthen (resolve (aws_service a)) (\<lambda>service.
       give (AwsV4 (a\<lparr>aws_access_key := access, aws_secret_key := secret,
         aws_session_token := token, aws_region := region, aws_service := service\<rparr>)))))))"
| "resolve_auth resolve (OAuth2 a) =
     andthen (resolve (oa_auth_url a)) (\<lambda>auth_url.
     andthen (resolve (oa_token_url a)) (\<lambda>token_url.
     andthen (resolve (oa_client_id a)) (\<lambda>client_id.
     andthen (resolve (oa_client_secret a)) (\<lambda>client_secret.
     andthen (resolve (oa_scope a)) (\<lambda>scope.
     andthen (resolve (oa_username a)) (\<lambda>username.
     andthen (resolve (oa_password a)) (\<lambda>password.
       give (OAuth2 (a\<lparr>oa_auth_url := auth_url, oa_token_url := token_url, oa_client_id := client_id,
         oa_client_secret := client_secret, oa_scope := scope, oa_username := username,
         oa_password := password\<rparr>)))))))))"
| "resolve_auth resolve NoAuth = give NoAuth"
| "resolve_auth resolve Inherit = give Inherit"

text \<open>The recorder \<open>authTexts\<close> passes, and the texts it has at the end.\<close>

definition record_text :: "string \<Rightarrow> (string list, unit, string) action" where
  "record_text text texts = (Inr text, texts @ [text])"

definition auth_texts :: "auth_config \<Rightarrow> string list" where
  "auth_texts auth = snd (resolve_auth record_text auth [])"

text \<open>The loop of \<open>effectiveAuth\<close> over the chain, the nearest first.\<close>

fun nearest_auth :: "(string \<times> auth_config) list \<Rightarrow> auth_config \<times> string option" where
  "nearest_auth [] = (NoAuth, None)"
| "nearest_auth ((name, auth) # chain) =
     (if type_of auth \<noteq> TInherit then (auth, Some name) else nearest_auth chain)"

definition effective_auth :: "auth_config \<Rightarrow> (string \<times> auth_config) list \<Rightarrow> auth_config \<times> string option" where
  "effective_auth own chain =
     (if type_of own \<noteq> TInherit then (own, None) else nearest_auth (rev chain))"

fun credentials_of :: "auth_config \<Rightarrow> string list" where
  "credentials_of (Bearer token) = [token]"
| "credentials_of (Basic username password) = [password]"
| "credentials_of (ApiKey key value place) = [value]"
| "credentials_of (AwsV4 a) = [aws_secret_key a, aws_session_token a]"
| "credentials_of (OAuth2 a) = [oa_client_secret a, oa_password a]"
| "credentials_of NoAuth = []"
| "credentials_of Inherit = []"

section \<open>Lemmas\<close>

lemma record_text_run: "andthen (record_text t) k texts = k t (texts @ [t])"
  by (simp add: andthen_def record_text_def)

lemma auth_texts_simps [simp]:
  "auth_texts (Bearer t) = [t]"
  "auth_texts (Basic u p) = [u, p]"
  "auth_texts (ApiKey k v place) = [k, v]"
  "auth_texts (AwsV4 a) = [aws_access_key a, aws_secret_key a, aws_session_token a, aws_region a, aws_service a]"
  "auth_texts (OAuth2 b) = [oa_auth_url b, oa_token_url b, oa_client_id b, oa_client_secret b,
     oa_scope b, oa_username b, oa_password b]"
  "auth_texts NoAuth = []"
  "auth_texts Inherit = []"
  by (simp_all add: auth_texts_def record_text_run)


lemma type_of_resolve_auth: "resolve_auth f auth st = (Inr auth', st') \<Longrightarrow> type_of auth' = type_of auth"
  by (cases auth) (auto simp: andthen_Inr)

lemma nearest_auth_cases:
  "(\<exists>near name auth far. chain = near @ (name, auth) # far \<and> (\<forall>(n, a) \<in> set near. type_of a = TInherit) \<and>
      type_of auth \<noteq> TInherit \<and> nearest_auth chain = (auth, Some name)) \<or>
   (\<forall>(n, a) \<in> set chain. type_of a = TInherit) \<and> nearest_auth chain = (NoAuth, None)"
proof (induction chain)
  case Nil
  then show ?case by simp
next
  case (Cons na chain)
  obtain n a where na: "na = (n, a)" by (cases na)
  show ?case
  proof (cases "type_of a = TInherit")
    case True
    from Cons.IH show ?thesis
    proof
      assume "\<exists>near name auth far. chain = near @ (name, auth) # far \<and> (\<forall>(n, a) \<in> set near. type_of a = TInherit) \<and>
        type_of auth \<noteq> TInherit \<and> nearest_auth chain = (auth, Some name)"
      then obtain near name auth far where "chain = near @ (name, auth) # far"
        "\<forall>(n, a) \<in> set near. type_of a = TInherit" "type_of auth \<noteq> TInherit"
        "nearest_auth chain = (auth, Some name)" by blast
      then have "na # chain = (na # near) @ (name, auth) # far \<and> (\<forall>(n, a) \<in> set (na # near). type_of a = TInherit) \<and>
        type_of auth \<noteq> TInherit \<and> nearest_auth (na # chain) = (auth, Some name)" using True na by simp
      then show ?thesis by blast
    qed (use True na in simp)
  next
    case False
    then have "na # chain = [] @ (n, a) # chain \<and> nearest_auth (na # chain) = (a, Some n)" using na by simp
    with False show ?thesis by fastforce
  qed
qed

lemma andthen_cong_Inr:
  "m st = (Inr x, st') \<Longrightarrow> andthen m k st = k x st'"
  by (simp add: andthen_def)

section \<open>Properties\<close>

text \<open>
  The auth a request is sent with is its own when that is not inherited; otherwise that of
  the nearest folder outwards whose auth is not inherited, or the collection's, with its name;
  and no auth when there is none. An inherited auth is never the answer.
\<close>

theorem effective_auth_nearest:
  "type_of own \<noteq> TInherit \<and> effective_auth own chain = (own, None) \<or>
   type_of own = TInherit \<and>
     ((\<exists>far name auth near. chain = far @ (name, auth) # near \<and>
         list_all (\<lambda>(n, a). type_of a = TInherit) near \<and> type_of auth \<noteq> TInherit \<and>
         effective_auth own chain = (auth, Some name)) \<or>
      list_all (\<lambda>(n, a). type_of a = TInherit) chain \<and> effective_auth own chain = (NoAuth, None))"
proof (cases "type_of own = TInherit")
  case True
  from nearest_auth_cases [of "rev chain"] show ?thesis
  proof
    assume "\<exists>near name auth far. rev chain = near @ (name, auth) # far \<and>
      (\<forall>(n, a) \<in> set near. type_of a = TInherit) \<and> type_of auth \<noteq> TInherit \<and>
      nearest_auth (rev chain) = (auth, Some name)"
    then obtain near name auth far where c: "rev chain = near @ (name, auth) # far"
      "\<forall>(n, a) \<in> set near. type_of a = TInherit" "type_of auth \<noteq> TInherit"
      "nearest_auth (rev chain) = (auth, Some name)" by blast
    from c(1) have "chain = rev far @ (name, auth) # rev near" by (metis append.assoc append_Cons append_Nil rev.simps(2) rev_append rev_rev_ident)
    with c True have "chain = rev far @ (name, auth) # rev near \<and>
      list_all (\<lambda>(n, a). type_of a = TInherit) (rev near) \<and> type_of auth \<noteq> TInherit \<and>
      effective_auth own chain = (auth, Some name)" by (simp add: effective_auth_def list_all_iff)
    with True show ?thesis by blast
  qed (use True in \<open>auto simp: effective_auth_def list_all_iff\<close>)
qed (simp add: effective_auth_def)

text \<open>
  Resolving an auth resolves exactly the texts \<open>authTexts\<close> names, each once, in that order:
  what is recorded, and what is thrown, is what resolving those texts records and throws; and
  the kind of auth stays.
\<close>

theorem resolve_auth_texts:
  "each f (auth_texts auth) st =
     (case resolve_auth f auth st of
        (Inl e, st') \<Rightarrow> (Inl e, st')
      | (Inr auth', st') \<Rightarrow> (Inr (auth_texts auth'), st'))"
  by (cases auth)
    (auto simp: andthen_def give_def split: prod.splits sum.splits)

text \<open>
  Every credential a redactor is given is a text that is resolved: none is masked only as
  it was written.
\<close>

theorem credentials_are_texts: "set (credentials_of auth) \<subseteq> set (auth_texts auth)"
  by (cases auth) auto

text \<open>
  What Basic puts on the wire decodes to the bytes of the user name and the password
  around a colon, whatever characters they hold.
\<close>

theorem basic_round_trip:
  assumes "username \<noteq> []"
  shows "\<exists>v. build_auth_headers (Basic username password) = [(''Authorization'', v)] \<and>
    starts_with v ''Basic '' \<and>
    Option.bind (atob (drop (length ''Basic '') v)) utf8_decode = Some (username @ '':'' @ password)"
  using assms by (simp add: basic_value_def starts_with_def)

lemma basic_round_trip_witness:
  "\<exists>v. build_auth_headers (Basic ''u'' [CHR 0xE9]) = [(''Authorization'', v)] \<and>
    starts_with v ''Basic '' \<and>
    Option.bind (atob (drop (length ''Basic '') v)) utf8_decode = Some (''u'' @ '':'' @ [CHR 0xE9])"
  by (rule basic_round_trip) simp

end
