(* ===== verification/Redact.thy ===== *)
theory Redact
  imports Auth Forms JsonText
begin

text \<open>
  \<open>packages/core/src/redact/redactor.ts\<close>: masking secrets in what is stored, exported or copied.
  A redactor is its list of needles: every form a secret can take, the longest first.
\<close>

definition MASK :: string where
  "MASK = ''***''"

definition MIN_SECRET_LENGTH :: nat where
  "MIN_SECRET_LENGTH = 6"

definition CREDENTIAL_HEADERS :: "string list" where
  "CREDENTIAL_HEADERS = [''authorization'', ''proxy-authorization'', ''cookie'', ''set-cookie'', ''x-api-key'']"

definition is_credential_header :: "string \<Rightarrow> bool" where
  "is_credential_header name \<longleftrightarrow>
     to_lower name \<in> set CREDENTIAL_HEADERS \<or>
     list_ex (contains (to_lower name)) [''token'', ''secret'', ''key'', ''pass'']"

section \<open>The forms of a secret\<close>

text \<open>\<open>slice\<close> with an end that is not before the start of the text.\<close>

definition slice :: "nat \<Rightarrow> nat \<Rightarrow> 'a list \<Rightarrow> 'a list" where
  "slice from to xs = drop from (take to xs)"

definition base64_forms :: "string \<Rightarrow> string list" where
  "base64_forms text =
     (let bytes = utf8 text
      in map (\<lambda>offset.
           let encoded = base64_bare (replicate offset 0 @ bytes);
               shared_start = [0, 2, 3] ! offset;
               shared_end = (if (offset + length bytes) mod 3 = 0 then 0 else 1)
           in slice shared_start (length encoded - shared_end) encoded) [0, 1, 2])"

text \<open>What the three expressions of \<open>formsOf\<close> leave as it is.\<close>

definition kept_in_query :: "char \<Rightarrow> bool" where
  "kept_in_query c \<longleftrightarrow>
     (let n = char_nat c
      in n = 0x21 \<or> 0x24 \<le> n \<and> n \<le> 0x26 \<or> 0x28 \<le> n \<and> n \<le> 0x3B \<or> n = 0x3D \<or> 0x3F \<le> n \<and> n \<le> 0x7E)"

definition kept_in_path :: "char \<Rightarrow> bool" where
  "kept_in_path c \<longleftrightarrow>
     (let n = char_nat c
      in n = 0x21 \<or> 0x24 \<le> n \<and> n \<le> 0x3B \<or> n = 0x3D \<or> 0x40 \<le> n \<and> n \<le> 0x5F \<or>
         0x61 \<le> n \<and> n \<le> 0x7A \<or> n = 0x7C \<or> n = 0x7E)"

definition kept_in_path_now :: "char \<Rightarrow> bool" where
  "kept_in_path_now c \<longleftrightarrow> kept_in_path c \<and> char_nat c \<noteq> 0x5E"

text \<open>\<open>/%[0-9A-F]{2}/g\<close>, each match in lower case.\<close>

definition is_hex_upper :: "char \<Rightarrow> bool" where
  "is_hex_upper c \<longleftrightarrow> is_digit c \<or> 65 \<le> char_nat c \<and> char_nat c \<le> 70"

fun lower_escapes :: "string \<Rightarrow> string" where
  "lower_escapes (a # b # c # s) =
     (if a = CHR ''%'' \<and> is_hex_upper b \<and> is_hex_upper c
      then a # lower_char b # lower_char c # lower_escapes s
      else a # lower_escapes (b # c # s))"
| "lower_escapes s = s"

text \<open>Every character outside ASCII as \<open>\uXXXX\<close>.\<close>

definition json_ascii :: "string \<Rightarrow> string" where
  "json_ascii s = concat (map (\<lambda>c. if 0x80 \<le> char_nat c then unicode_escape c else [c]) s)"

definition forms_of :: "string \<Rightarrow> string list" where
  "forms_of value =
     (let component = percent_text uri_unreserved value;
          json = json_inner value;
          b64 = base64_forms value
      in [value, component, lower_escapes component,
          percent_text kept_in_query value, percent_text kept_in_path value,
          percent_text kept_in_path_now value, form_encode value, json, json_ascii json]
         @ b64 @ map (map url_char) b64)"

section \<open>The redactor\<close>

type_synonym redactor = "string list"

definition new_redactor :: "string list \<Rightarrow> redactor" where
  "new_redactor secrets =
     (let forms = concat (map forms_of (filter (\<lambda>s. length s \<ge> MIN_SECRET_LENGTH) secrets))
      in sort_by (\<lambda>a b. length b \<le> length a)
           (filter (\<lambda>form. length form \<ge> MIN_SECRET_LENGTH - 1) (rev (remdups (rev forms)))))"

definition red_text :: "redactor \<Rightarrow> string \<Rightarrow> string" where
  "red_text needles text = fold (\<lambda>needle masked. replace_all needle MASK masked) needles text"

text \<open>\<open>credentials\<close>: the option of that name, that this export is to carry credentials.\<close>

definition red_headers :: "redactor \<Rightarrow> bool \<Rightarrow> (string \<times> string) list \<Rightarrow> (string \<times> string) list" where
  "red_headers rd credentials headers =
     map (\<lambda>(name, value).
       (red_text rd name,
        if \<not> credentials \<and> is_credential_header name then MASK else red_text rd value)) headers"

definition red_credential :: "redactor \<Rightarrow> bool \<Rightarrow> string \<Rightarrow> string" where
  "red_credential rd credentials value =
     (if value = [] \<or> contains value ''{{'' then red_text rd value
      else if credentials then red_text rd value else MASK)"

definition red_rows :: "redactor \<Rightarrow> bool \<Rightarrow> row list \<Rightarrow> row list" where
  "red_rows rd credentials rows =
     map (\<lambda>r. r\<lparr>row_value := (if is_credential_header (row_key r)
        then red_credential rd credentials (row_value r) else red_text rd (row_value r))\<rparr>) rows"

fun red_auth :: "redactor \<Rightarrow> bool \<Rightarrow> auth_config \<Rightarrow> auth_config" where
  "red_auth rd credentials (Bearer token) = Bearer (red_credential rd credentials token)"
| "red_auth rd credentials (Basic username password) =
     Basic username (red_credential rd credentials password)"
| "red_auth rd credentials (ApiKey key value place) =
     ApiKey key (red_credential rd credentials value) place"
| "red_auth rd credentials (AwsV4 a) =
     AwsV4 (a\<lparr>aws_secret_key := red_credential rd credentials (aws_secret_key a),
       aws_session_token := red_credential rd credentials (aws_session_token a)\<rparr>)"
| "red_auth rd credentials (OAuth2 a) =
     OAuth2 (a\<lparr>oa_client_secret := red_credential rd credentials (oa_client_secret a),
       oa_password := red_credential rd credentials (oa_password a)\<rparr>)"
| "red_auth rd credentials NoAuth = NoAuth"
| "red_auth rd credentials Inherit = Inherit"

definition red_values :: "redactor \<Rightarrow> row list \<Rightarrow> row list" where
  "red_values rd rows = map (\<lambda>r. r\<lparr>row_value := red_text rd (row_value r)\<rparr>) rows"

fun red_part :: "redactor \<Rightarrow> multipart_part \<Rightarrow> multipart_part" where
  "red_part rd (TextPart k e v) = TextPart k e (red_text rd v)"
| "red_part rd (FilePart k e f) = FilePart k e f"

definition red_body :: "redactor \<Rightarrow> request_body \<Rightarrow> request_body" where
  "red_body rd b =
     b\<lparr>body_raw := map_option (\<lambda>r. r\<lparr>raw_text := red_text rd (raw_text r)\<rparr>) (body_raw b),
       body_graphql := map_option (\<lambda>g. \<lparr>gql_query = red_text rd (gql_query g),
         gql_variables = red_text rd (gql_variables g)\<rparr>) (body_graphql b),
       body_urlencoded := map_option (red_values rd) (body_urlencoded b),
       body_multipart := map_option (map (red_part rd)) (body_multipart b)\<rparr>"

definition red_template :: "redactor \<Rightarrow> bool \<Rightarrow> request_content \<Rightarrow> request_content" where
  "red_template rd credentials request =
     request\<lparr>rc_url := red_text rd (rc_url request),
       rc_params := red_values rd (rc_params request),
       rc_headers := red_rows rd credentials (rc_headers request),
       rc_body := red_body rd (rc_body request),
       rc_auth := red_auth rd credentials (rc_auth request)\<rparr>"

section \<open>Masking a text\<close>

text \<open>
  A text with no star in it: what \<open>replaceAll\<close> puts in cannot help to form it, so it stands in
  the masked text only where it stood before.
\<close>

definition star_free :: "string \<Rightarrow> bool" where
  "star_free s \<longleftrightarrow> CHR ''*'' \<notin> set s"

lemma starts_with_Cons: "starts_with (c # s) p \<longleftrightarrow> p = [] \<or> (\<exists>p'. p = c # p' \<and> starts_with s p')"
  by (cases p) (auto simp: starts_with_def)

lemma starts_with_Nil_iff: "starts_with [] p \<longleftrightarrow> p = []"
  by (auto simp: starts_with_def)

lemma starts_with_MASK: "star_free n \<Longrightarrow> starts_with (MASK @ s) n \<Longrightarrow> n = []"
  by (auto simp: MASK_def starts_with_Cons star_free_def)

lemma replace_all_MASK_induct [case_names Nil match skip]:
  assumes "p \<noteq> []" and "P []"
    and "\<And>c cs. starts_with (c # cs) p \<Longrightarrow> P (drop (length p) (c # cs)) \<Longrightarrow> P (c # cs)"
    and "\<And>c cs. \<not> starts_with (c # cs) p \<Longrightarrow> P cs \<Longrightarrow> P (c # cs)"
  shows "P s"
proof (induction s rule: length_induct)
  case (1 s)
  show ?case
  proof (cases s)
    case (Cons c cs)
    show ?thesis
    proof (cases "starts_with s p")
      case True
      have "length (drop (length p) s) < length s" using assms(1) Cons by (cases p) auto
      with 1 assms(3) [of c cs] True Cons show ?thesis by blast
    next
      case False
      with 1 assms(4) [of c cs] Cons show ?thesis by simp
    qed
  qed (simp add: assms(2))
qed

lemma starts_with_masked:
  assumes "p \<noteq> []"
  shows "star_free n \<Longrightarrow> starts_with (replace_all p MASK s) n \<Longrightarrow> starts_with s n"
proof (induction s arbitrary: n rule: replace_all_MASK_induct [OF assms])
  case (2 c cs)
  then show ?case using assms by (auto dest: starts_with_MASK)
next
  case (3 c cs)
  then have "starts_with (c # replace_all p MASK cs) n" using assms by simp
  with 3 show ?case by (auto simp: starts_with_Cons star_free_def)
qed (simp add: assms)

lemma contains_MASK: "star_free n \<Longrightarrow> n \<noteq> [] \<Longrightarrow> contains (MASK @ s) n \<Longrightarrow> contains s n"
  by (auto simp: MASK_def starts_with_Cons star_free_def)

lemma contains_masked:
  assumes "p \<noteq> []" "star_free n" "n \<noteq> []"
  shows "contains (replace_all p MASK s) n \<Longrightarrow> contains s n"
proof (induction s rule: replace_all_MASK_induct [OF assms(1)])
  case (2 c cs)
  then have "contains (drop (length p) (c # cs)) n"
    using assms by (auto dest: contains_MASK)
  then show ?case by (meson contains_sublist sublist_order.order.trans sublist_drop)
next
  case (3 c cs)
  from 3(1,3) assms(1) consider "starts_with (replace_all p MASK (c # cs)) n" | "contains (replace_all p MASK cs) n"
    by auto
  then show ?case
  proof cases
    case 1
    with assms starts_with_masked [of p n "c # cs"] show ?thesis by simp
  qed (use 3 in simp)
qed (use assms in simp)

lemma not_contains_masked:
  assumes "n \<noteq> []" "star_free n"
  shows "\<not> contains (replace_all n MASK s) n"
proof (induction s rule: replace_all_MASK_induct [OF assms(1)])
  case (2 c cs)
  then show ?case using assms by (auto dest: contains_MASK)
next
  case (3 c cs)
  with assms starts_with_masked [of n n "c # cs"] show ?case by auto
qed (use assms in simp)

lemma contains_red_text:
  "star_free n \<Longrightarrow> n \<noteq> [] \<Longrightarrow> [] \<notin> set needles \<Longrightarrow> contains (red_text needles s) n \<Longrightarrow> contains s n"
proof (induction needles arbitrary: s)
  case (Cons p needles)
  from Cons.prems(4) have "contains (red_text needles (replace_all p MASK s)) n" by (simp add: red_text_def)
  with Cons have "contains (replace_all p MASK s) n" by simp
  with Cons.prems contains_masked [of p n s] show ?case by auto
qed (simp add: red_text_def)

lemma red_text_hides:
  assumes "n \<in> set needles" "star_free n" "[] \<notin> set needles"
  shows "\<not> contains (red_text needles s) n"
proof
  assume c: "contains (red_text needles s) n"
  obtain pre post where "needles = pre @ n # post" using assms(1) by (meson split_list)
  then have "red_text needles s = red_text post (replace_all n MASK (red_text pre s))"
    by (simp add: red_text_def)
  with c have "contains (red_text post (replace_all n MASK (red_text pre s))) n" by simp
  moreover have "[] \<notin> set post" "n \<noteq> []" using assms \<open>needles = pre @ n # post\<close> by auto
  ultimately have "contains (replace_all n MASK (red_text pre s)) n"
    using assms(2) contains_red_text by blast
  with not_contains_masked [OF \<open>n \<noteq> []\<close> assms(2)] show False by blast
qed

section \<open>Every form of a secret is a needle\<close>

lemma set_forms: "form \<in> set (new_redactor secrets) \<longleftrightarrow>
    (\<exists>s \<in> set secrets. MIN_SECRET_LENGTH \<le> length s \<and> form \<in> set (forms_of s)) \<and> MIN_SECRET_LENGTH - 1 \<le> length form"
  by (auto simp: new_redactor_def)

lemma hex_digit_not_star: "n < 16 \<Longrightarrow> hex_digit n \<noteq> CHR ''*''" "n < 16 \<Longrightarrow> hex_lower n \<noteq> CHR ''*''"
proof -
  have "\<forall>n \<in> set [0..<16]. hex_digit n \<noteq> CHR ''*'' \<and> hex_lower n \<noteq> CHR ''*''" by code_simp
  then show "n < 16 \<Longrightarrow> hex_digit n \<noteq> CHR ''*''" "n < 16 \<Longrightarrow> hex_lower n \<noteq> CHR ''*''" by auto
qed

lemma star_free_concat: "(\<And>c. c \<in> set s \<Longrightarrow> star_free (f c)) \<Longrightarrow> star_free (concat (map f s))"
  by (auto simp: star_free_def)

lemma star_free_percent_bytes: "star_free (concat (map percent_byte bs))"
proof (rule star_free_concat)
  fix b :: byte
  have "unat b div 16 < 16" "unat b mod 16 < 16" by simp_all
  then show "star_free (percent_byte b)"
    using hex_digit_not_star(1) [of "unat b div 16"] hex_digit_not_star(1) [of "unat b mod 16"]
    by (auto simp: star_free_def percent_byte_def)
qed

lemma star_free_Cons: "star_free (c # s) \<longleftrightarrow> c \<noteq> CHR ''*'' \<and> star_free s"
  by (auto simp: star_free_def)

lemma star_free_percent_text: "star_free s \<Longrightarrow> star_free (percent_text P s)"
  unfolding percent_text_def
  by (rule star_free_concat) (auto simp: star_free_percent_bytes, auto simp: star_free_def)

lemma star_free_form_encode: "star_free s \<Longrightarrow> star_free (form_encode s)"
  unfolding form_encode_def
  by (rule star_free_concat) (auto simp: form_char_def star_free_percent_bytes, auto simp: star_free_def)

lemma star_free_unicode_escape: "star_free (unicode_escape c)"
proof -
  have "char_nat c div 16 < 16" using char_nat_less [of c] by linarith
  then show ?thesis using hex_digit_not_star(2) [of "char_nat c div 16"] hex_digit_not_star(2) [of "char_nat c mod 16"]
    by (simp add: unicode_escape_def star_free_def eq_commute)
qed

lemma star_free_json: "star_free s \<Longrightarrow> star_free (json_inner s)" "star_free s \<Longrightarrow> star_free (json_ascii s)"
  unfolding json_inner_def json_ascii_def
  by (rule star_free_concat,
      auto simp: json_char_def star_free_unicode_escape star_free_unicode_escape [unfolded star_free_def] star_free_def)+

lemma lower_char_star: "lower_char c = CHR ''*'' \<longleftrightarrow> c = CHR ''*''"
proof -
  have star: "char_nat (CHR ''*'') = 42" by (simp add: char_nat_def)
  have "char_nat (lower_char c) = 42 \<longleftrightarrow> char_nat c = 42"
    by (auto simp: lower_char_def Let_def)
  with star show ?thesis by (metis char_of_char_nat)
qed

lemma star_free_lower_escapes: "star_free s \<Longrightarrow> star_free (lower_escapes s)"
  by (induction s rule: lower_escapes.induct) (auto simp: star_free_Cons lower_char_star)

lemma star_free_base64: "star_free (base64_bare bs)"
  using set_base64_bare [of bs] by (auto simp: star_free_def b64_alphabet_def)

lemma star_free_slice: "star_free s \<Longrightarrow> star_free (slice a b s)"
  by (auto simp: star_free_def slice_def dest!: in_set_dropD in_set_takeD)

lemma star_free_base64_forms: "f \<in> set (base64_forms s) \<Longrightarrow> star_free f"
  by (auto simp: base64_forms_def Let_def star_free_slice star_free_base64)

lemma star_free_url: "star_free s \<Longrightarrow> star_free (map url_char s)"
  by (auto simp: star_free_def url_char_def split: if_splits)

lemma star_free_forms: "star_free s \<Longrightarrow> f \<in> set (forms_of s) \<Longrightarrow> star_free f"
  by (auto simp: forms_of_def Let_def star_free_percent_text star_free_form_encode star_free_json
      star_free_lower_escapes star_free_base64_forms star_free_url)

section \<open>The length of a form\<close>

lemma length_concat_map_le: "(\<And>c. 1 \<le> length (f c)) \<Longrightarrow> length s \<le> length (concat (map f s))"
proof (induction s)
  case (Cons a s)
  from Cons.prems [of a] Cons.IH [OF Cons.prems] show ?case by simp
qed simp

lemma utf8_char_pos: "1 \<le> length (concat (map percent_byte (utf8_char c)))"
  by (simp add: utf8_char_def percent_byte_def Let_def)

lemmas utf8_char_pos' = utf8_char_pos [unfolded One_nat_def]

lemma length_utf8: "length s \<le> length (utf8 s)"
  unfolding utf8_def by (rule length_concat_map_le) (simp add: utf8_char_def Let_def)

lemma length_lower_escapes [simp]: "length (lower_escapes s) = length s"
  by (induction s rule: lower_escapes.induct) auto

lemma length_percent_text: "length s \<le> length (percent_text P s)"
  unfolding percent_text_def by (rule length_concat_map_le) (simp add: utf8_char_pos')

lemma length_text_forms:
  "length s \<le> length (form_encode s)" "length s \<le> length (json_inner s)" "length s \<le> length (json_ascii s)"
  unfolding form_encode_def json_inner_def json_ascii_def
  by (rule length_concat_map_le, simp add: form_char_def utf8_char_pos')
    (rule length_concat_map_le, simp add: json_char_def unicode_escape_def)+

lemma length_base64_forms: "f \<in> set (base64_forms s) \<Longrightarrow> MIN_SECRET_LENGTH \<le> length s \<Longrightarrow> MIN_SECRET_LENGTH \<le> length f"
  using length_utf8 [of s]
  by (auto simp: base64_forms_def Let_def slice_def MIN_SECRET_LENGTH_def)

lemma length_forms: "f \<in> set (forms_of s) \<Longrightarrow> MIN_SECRET_LENGTH \<le> length s \<Longrightarrow> MIN_SECRET_LENGTH \<le> length f"
  using length_percent_text [of s uri_unreserved] length_percent_text [of s kept_in_query]
    length_percent_text [of s kept_in_path] length_percent_text [of s kept_in_path_now]
    length_text_forms [of s] length_text_forms(3) [of "json_inner s"]
  by (auto simp: forms_of_def Let_def dest: length_base64_forms)

lemma forms_are_needles:
  assumes "s \<in> set secrets" "MIN_SECRET_LENGTH \<le> length s" "f \<in> set (forms_of s)"
  shows "f \<in> set (new_redactor secrets)"
  using assms length_forms [OF assms(3,2)] by (auto simp: set_forms)

lemma needles_not_Nil: "[] \<notin> set (new_redactor secrets)"
  by (simp add: set_forms MIN_SECRET_LENGTH_def)

section \<open>Base64 of data that holds a secret\<close>

definition byte_at :: "byte list \<Rightarrow> nat \<Rightarrow> nat" where
  "byte_at bs k = (if k < length bs then unat (bs ! k) else 0)"

text \<open>The six bits at a place, from the two bytes they lie in.\<close>

definition sextet_of :: "byte list \<Rightarrow> nat \<Rightarrow> nat" where
  "sextet_of bs i =
     (let k = 3 * (i div 4)
      in if i mod 4 = 0 then byte_at bs k div 4
         else if i mod 4 = 1 then byte_at bs k mod 4 * 16 + byte_at bs (k + 1) div 16
         else if i mod 4 = 2 then byte_at bs (k + 1) mod 16 * 4 + byte_at bs (k + 2) div 64
         else byte_at bs (k + 2) mod 64)"

lemma byte_at_drop: "byte_at (a # b # c # bs) (3 + k) = byte_at bs k"
  by (simp add: byte_at_def numeral_3_eq_3)

lemma sextet_of_step: "sextet_of (a # b # c # bs) (4 + i) = sextet_of bs i"
proof -
  have "(4 + i) div 4 = Suc (i div 4)" "(4 + i) mod 4 = i mod 4" by simp_all
  moreover have "byte_at (a # b # c # bs) (3 * Suc (i div 4)) = byte_at bs (3 * (i div 4))"
    "byte_at (a # b # c # bs) (3 * Suc (i div 4) + 1) = byte_at bs (3 * (i div 4) + 1)"
    "byte_at (a # b # c # bs) (3 * Suc (i div 4) + 2) = byte_at bs (3 * (i div 4) + 2)"
    using byte_at_drop [of a b c bs "3 * (i div 4)"] byte_at_drop [of a b c bs "3 * (i div 4) + 1"]
      byte_at_drop [of a b c bs "3 * (i div 4) + 2"] by (simp_all add: add.commute)
  ultimately show ?thesis by (simp only: sextet_of_def Let_def)
qed

lemma sextets_nth: "i < length (sextets bs) \<Longrightarrow> sextets bs ! i = sextet_of bs i"
proof (induction bs arbitrary: i rule: sextets.induct)
  case (4 a b c bs)
  show ?case
  proof (cases "i < 4")
    case True
    then have "i = 0 \<or> i = 1 \<or> i = 2 \<or> i = 3" by linarith
    then show ?thesis by (auto simp: sextet_of_def byte_at_def)
  next
    case False
    then obtain j where j: "i = 4 + j" by (metis le_Suc_ex not_less)
    with 4 have "sextets bs ! j = sextet_of bs j" by simp
    with j show ?thesis by (simp only: sextet_of_step) simp
  qed
qed (auto simp: sextet_of_def byte_at_def less_Suc_eq)


lemma sextets_append: "length pre mod 3 = 0 \<Longrightarrow> sextets (pre @ bs) = sextets pre @ sextets bs"
  by (induction pre rule: sextets.induct) auto

lemma sextet_of_agree:
  assumes agree: "\<And>k. off \<le> k \<Longrightarrow> k < m \<Longrightarrow> byte_at a k = byte_at z k"
    and off: "off < 3" and start: "[0, 2, 3] ! off \<le> i"
    and stop: "i < (m * 4 + 2) div 3 - (if m mod 3 = 0 then 0 else 1)"
  shows "sextet_of a i = sextet_of z i"
proof -
  define q r where "q = i div 4" and "r = i mod 4"
  have i: "i = 4 * q + r" "r < 4" by (simp_all add: q_def r_def)
  define M t where "M = m div 3" and "t = m mod 3"
  have m: "m = 3 * M + t" "t < 3" by (simp_all add: M_def t_def)
  have "t = 0 \<or> t = 1 \<or> t = 2" using m(2) by linarith
  then have "(m * 4 + 2) div 3 - (if m mod 3 = 0 then 0 else 1) = 4 * M + t"
  proof (elim disjE)
    assume "t = 0" then show ?thesis unfolding m(1) by simp
  next
    assume "t = 1"
    then have "(m * 4 + 2) div 3 = 4 * M + 2" "m mod 3 = 1" unfolding m(1) by presburger+
    then show ?thesis using \<open>t = 1\<close> by simp
  next
    assume "t = 2"
    then have "(m * 4 + 2) div 3 = 4 * M + 3" "m mod 3 = 2" unfolding m(1) by presburger+
    then show ?thesis using \<open>t = 2\<close> by simp
  qed
  with stop i m have last: "q < M \<or> q = M \<and> r < t" by auto
  have "off = 0 \<or> off = 1 \<and> (q = 0 \<longrightarrow> 2 \<le> r) \<or> off = 2 \<and> (q = 0 \<longrightarrow> 3 \<le> r)"
  proof -
    have "off = 0 \<or> off = 1 \<or> off = 2" using off by linarith
    then show ?thesis using start i by auto
  qed
  then have bytes: "r = 0 \<or> r = 1 \<Longrightarrow> byte_at a (3 * q) = byte_at z (3 * q)"
    "r = 1 \<or> r = 2 \<Longrightarrow> byte_at a (3 * q + 1) = byte_at z (3 * q + 1)"
    "r = 2 \<or> r = 3 \<Longrightarrow> byte_at a (3 * q + 2) = byte_at z (3 * q + 2)"
    using last m i(2) by (auto intro!: agree)
  have "r = 0 \<or> r = 1 \<or> r = 2 \<or> r = 3" using i(2) by linarith
  then show ?thesis using bytes unfolding sextet_of_def q_def [symmetric] r_def [symmetric] Let_def by auto
qed

lemma base64_forms_cover_bytes:
  assumes "length pre mod 3 = off"
  shows "\<exists>f \<in> set (base64_forms v). contains (base64_bare (pre @ utf8 v @ post)) f"
proof -
  let ?v = "utf8 v"
  define whole where "whole = take (3 * (length pre div 3)) pre"
  define x where "x = drop (3 * (length pre div 3)) pre"
  have pre: "pre = whole @ x" and "length whole mod 3 = 0" and x: "length x = off"
    using assms by (simp_all add: whole_def x_def minus_mult_div_eq_mod min_absorb2)
  define a z where "a = x @ ?v @ post" and "z = replicate off (0 :: byte) @ ?v"
  define m where "m = off + length ?v"
  define e where "e = (m * 4 + 2) div 3 - (if m mod 3 = 0 then 0 else 1)"
  have off: "off < 3" using assms by auto
  have la: "m \<le> length a" and lz: "length z = m" using x by (simp_all add: a_def z_def m_def)
  have ea: "e \<le> length (sextets a)" and ez: "e \<le> length (sextets z)"
    using la lz unfolding e_def length_sextets by (auto intro!: div_le_mono le_trans [OF diff_le_self])
  have agree: "byte_at a k = byte_at z k" if "off \<le> k" "k < m" for k
    using that x by (auto simp: byte_at_def a_def z_def m_def nth_append)
  have "slice ([0, 2, 3] ! off) e (sextets a) = slice ([0, 2, 3] ! off) e (sextets z)"
  proof (rule nth_equalityI)
    show "length (slice ([0, 2, 3] ! off) e (sextets a)) = length (slice ([0, 2, 3] ! off) e (sextets z))"
      using ea ez by (simp add: slice_def)
    fix i
    assume "i < length (slice ([0, 2, 3] ! off) e (sextets a))"
    then have "[0, 2, 3] ! off + i < e" using ea by (simp add: slice_def)
    moreover from this have "sextet_of a ([0, 2, 3] ! off + i) = sextet_of z ([0, 2, 3] ! off + i)"
      unfolding e_def by (intro sextet_of_agree [OF agree off]) auto
    ultimately show "slice ([0, 2, 3] ! off) e (sextets a) ! i = slice ([0, 2, 3] ! off) e (sextets z) ! i"
      using ea ez by (simp add: slice_def sextets_nth)
  qed
  then have form: "slice ([0, 2, 3] ! off) e (base64_bare z) = slice ([0, 2, 3] ! off) e (base64_bare a)"
    by (simp add: base64_bare_def slice_def take_map drop_map)
  have "slice ([0, 2, 3] ! off) e (base64_bare z) \<in> set (base64_forms v)"
  proof -
    have "off = 0 \<or> off = 1 \<or> off = 2" using off by linarith
    then show ?thesis
      by (auto simp: base64_forms_def z_def e_def m_def Let_def length_base64_bare)
  qed
  moreover have "sublist (slice ([0, 2, 3] ! off) e (base64_bare a)) (base64_bare (pre @ ?v @ post))"
  proof -
    have "base64_bare (pre @ ?v @ post) = base64_bare whole @ base64_bare a"
      using \<open>length whole mod 3 = 0\<close> by (simp add: base64_bare_def pre a_def sextets_append)
    moreover have "sublist (slice ([0, 2, 3] ! off) e (base64_bare a)) (base64_bare a)"
      unfolding slice_def by (meson sublist_drop sublist_order.order.trans sublist_take)
    ultimately show ?thesis by (metis sublist_append_leftI sublist_order.order.trans)
  qed
  ultimately show ?thesis using form by (auto simp: contains_sublist intro!: bexI)
qed


lemma replace_all_none: "p \<noteq> [] \<Longrightarrow> \<not> contains s p \<Longrightarrow> replace_all p r s = s"
  by (induction s) auto

lemma credentials_of_red_auth:
  "credentials_of (red_auth rd c auth) = map (red_credential rd c) (credentials_of auth)"
  by (cases auth) auto

lemma redacted_hides:
  "secret \<in> set secrets \<Longrightarrow> MIN_SECRET_LENGTH \<le> length secret \<Longrightarrow> CHR ''*'' \<notin> set secret \<Longrightarrow>
   form \<in> set (forms_of secret) \<Longrightarrow> \<not> contains (red_text (new_redactor secrets) text) form"
  by (rule red_text_hides [OF forms_are_needles _ needles_not_Nil])
    (assumption+, rule star_free_forms, simp_all add: star_free_def)

text \<open>What a redactor's text holds no form of.\<close>

definition free_of :: "string list \<Rightarrow> string \<Rightarrow> bool" where
  "free_of secrets t \<longleftrightarrow>
     (\<forall>s \<in> set secrets. MIN_SECRET_LENGTH \<le> length s \<longrightarrow> CHR ''*'' \<notin> set s \<longrightarrow> (\<forall>f \<in> set (forms_of s). \<not> contains t f))"

lemma redacted_free: "set secrets \<subseteq> set masked \<Longrightarrow> free_of secrets (red_text (new_redactor masked) t)"
  unfolding free_of_def by (meson redacted_hides subsetD)

lemma free_of_take: "free_of secrets t \<Longrightarrow> free_of secrets (take n t)"
  unfolding free_of_def contains_sublist by (meson sublist_order.order.trans sublist_take)

lemma free_of_short: "length t < MIN_SECRET_LENGTH \<Longrightarrow> free_of secrets t"
  unfolding free_of_def contains_sublist
  by (metis length_forms less_le_trans not_less sublist_length_le)

lemma free_of_mask [simp]: "free_of secrets MASK"
  by (rule free_of_short) (simp add: MASK_def MIN_SECRET_LENGTH_def)

lemma free_of_Nil [simp]: "free_of secrets []"
  by (rule free_of_short) (simp add: MIN_SECRET_LENGTH_def)

section \<open>Properties\<close>

text \<open>
  C5: no text that went through the redactor holds a secret it was given, in any of the forms
  the redactor knows, whatever the other secrets are and whatever the text is: masking one
  needle never uncovers another. (Of a secret of six characters or more that has no star in it.)
\<close>

theorem redact_hides_every_form:
  assumes "secret \<in> set secrets" and "MIN_SECRET_LENGTH \<le> length secret" and "CHR ''*'' \<notin> set secret"
    and "form \<in> set (forms_of secret)"
  shows "\<not> contains (red_text (new_redactor secrets) text) form"
  using assms by (rule redacted_hides)

lemma redact_hides_every_form_witness:
  "\<not> contains (red_text (new_redactor [''hunter'', ''hunter 22'']) ''k=hunter%2022'') ''hunter%2022''"
  by (rule redact_hides_every_form [where secret = "''hunter 22''"]) code_simp+

text \<open>
  A secret is found inside base64 wherever it stands in the encoded data: a redacted text
  never holds the base64 (or base64url) of bytes with the secret's bytes among them, whatever
  is before and after them.
\<close>

theorem redact_hides_inside_base64:
  assumes "secret \<in> set secrets" and "MIN_SECRET_LENGTH \<le> length secret"
  shows "\<not> contains (red_text (new_redactor secrets) text) (base64 (pre @ utf8 secret @ post)) \<and>
    \<not> contains (red_text (new_redactor secrets) text) (base64url (pre @ utf8 secret @ post))"
proof -
  obtain f where f: "f \<in> set (base64_forms secret)" "contains (base64_bare (pre @ utf8 secret @ post)) f"
    using base64_forms_cover_bytes by blast
  then have "contains (base64url (pre @ utf8 secret @ post)) (map url_char f)"
    by (auto simp: contains_sublist base64url_def intro: map_mono_sublist)
  moreover have "contains (base64 (pre @ utf8 secret @ post)) f"
    using f(2) by (auto simp: contains_sublist base64_def intro: sublist_append_rightI sublist_order.order.trans)
  moreover have "f \<in> set (forms_of secret)" "map url_char f \<in> set (forms_of secret)"
    using f(1) by (auto simp: forms_of_def Let_def)
  then have "\<not> contains (red_text (new_redactor secrets) text) f"
    "\<not> contains (red_text (new_redactor secrets) text) (map url_char f)"
    using star_free_base64_forms [OF f(1)] star_free_url [OF star_free_base64_forms [OF f(1)]]
    by (simp_all add: red_text_hides [OF forms_are_needles [OF assms] _ needles_not_Nil])
  ultimately show ?thesis by (meson contains_sublist sublist_order.order.trans)
qed

lemma redact_hides_inside_base64_witness:
  "\<not> contains (red_text (new_redactor [''hunter22'']) (base64 (utf8 ''me:hunter22''))) (base64 (utf8 ''me:'' @ utf8 ''hunter22'' @ []))"
  by (rule conjunct1 [OF redact_hides_inside_base64]) code_simp+

text \<open>
  Redacting what was redacted changes nothing: a text that is masked when it is stored and
  again when it is exported reads the same.
\<close>

theorem redact_idempotent:
  assumes "list_all (\<lambda>s. CHR ''*'' \<notin> set s) secrets"
  shows "red_text (new_redactor secrets) (red_text (new_redactor secrets) text) =
    red_text (new_redactor secrets) text"
proof -
  let ?t = "red_text (new_redactor secrets) text"
  have "fold (\<lambda>needle masked. replace_all needle MASK masked) ns ?t = ?t" if "set ns \<subseteq> set (new_redactor secrets)" for ns
    using that
  proof (induction ns)
    case (Cons n ns)
    then have "n \<in> set (new_redactor secrets)" by simp
    moreover from this obtain s where "s \<in> set secrets" "n \<in> set (forms_of s)" by (auto simp: set_forms)
    then have "star_free n"
      using assms by (intro star_free_forms [of s n]) (auto simp: list_all_iff star_free_def)
    moreover have "n \<noteq> []" using needles_not_Nil calculation by auto
    ultimately have "replace_all n MASK ?t = ?t"
      using red_text_hides needles_not_Nil by (intro replace_all_none) auto
    with Cons show ?case by simp
  qed simp
  then show ?thesis by (subst (1) red_text_def) simp
qed

lemma redact_idempotent_witness:
  "red_text (new_redactor [''hunter22'']) (red_text (new_redactor [''hunter22'']) ''x hunter22'') =
   red_text (new_redactor [''hunter22'']) ''x hunter22''"
  by (rule redact_idempotent) simp

text \<open>
  A credential header is masked whole: headers that differ only in the values of credential
  headers are written the same, so nothing of such a value is in what is stored.
\<close>

theorem redact_headers_whole:
  assumes "list_all2 (\<lambda>(n, v) (n', v'). n = n' \<and> (is_credential_header n \<or> v = v')) headers headers'"
  shows "red_headers rd False headers = red_headers rd False headers'"
  using assms unfolding red_headers_def
  by (induction headers headers' rule: list_all2_induct) auto

lemma redact_headers_whole_witness:
  "red_headers [] False [(''X-Auth-Token'', ''one''), (''Accept'', ''*'')] =
   red_headers [] False [(''X-Auth-Token'', ''two''), (''Accept'', ''*'')]"
  by (rule redact_headers_whole) code_simp

text \<open>
  Of an auth, a template keeps everything but its credentials, and every credential is
  masked: it is replaced whole unless it is empty, or refers to a variable.
\<close>

theorem redact_auth_credentials:
  "type_of (red_auth rd c auth) = type_of auth \<and>
   credentials_of (red_auth rd c auth) = map (red_credential rd c) (credentials_of auth) \<and>
   list_all2 (\<lambda>t t'. t' = t \<or> t \<in> set (credentials_of auth)) (auth_texts auth) (auth_texts (red_auth rd c auth))"
  by (cases auth) auto

end
