(* ===== verification/ExportRequest.thy ===== *)
theory ExportRequest
  imports Redact JsValues
begin

text \<open>
  What an export writes of a request (\<open>packages/core/src/export/request.ts\<close>) and what a copy
  says it did (\<open>export/copy-note.ts\<close>): the body with its variables replaced, the request with
  its secrets masked, the note that names only what was masked. The fragment of text a vault
  secret is copied as is looked for as the source looks for it.
\<close>

section \<open>A request as built\<close>

datatype export_part = ValuePart string string | NamedFile string string

datatype export_body =
    NoExport
  | RawExport string
  | FormExport "(string \<times> string) list"
  | PartsExport "export_part list"
  | FileExport string

record export_request =
  xr_method :: string
  xr_url :: string
  xr_headers :: "(string \<times> string) list"
  xr_body :: export_body

record export_source = export_request +
  xr_secrets :: "string list"
  xr_credentials :: "string list"

definition sends_body :: "string \<Rightarrow> bool" where
  "sends_body m \<longleftrightarrow> m \<noteq> ''GET'' \<and> m \<noteq> ''HEAD''"

fun part_exported :: "(string \<Rightarrow> string) \<Rightarrow> multipart_part \<Rightarrow> export_part" where
  "part_exported resolve (TextPart k _ v) = ValuePart (resolve k) (resolve v)"
| "part_exported resolve (FilePart k _ f) = NamedFile (resolve k) (file_name f)"

definition export_body_of :: "request_body \<Rightarrow> string \<Rightarrow> (string \<Rightarrow> string) \<Rightarrow> export_body" where
  "export_body_of b m resolve =
     (if \<not> sends_body m then NoExport
      else
        (case body_mode b of
           NoBody \<Rightarrow> NoExport
         | Raw \<Rightarrow> RawExport (resolve (case body_raw b of None \<Rightarrow> [] | Some r \<Rightarrow> raw_text r))
         | Urlencoded \<Rightarrow>
             FormExport (map (\<lambda>r. (resolve (row_key r), resolve (row_value r)))
               (filter row_enabled (case body_urlencoded b of None \<Rightarrow> [] | Some rows \<Rightarrow> rows)))
         | Multipart \<Rightarrow>
             PartsExport (map (part_exported resolve)
               (filter part_enabled (case body_multipart b of None \<Rightarrow> [] | Some ps \<Rightarrow> ps)))
         | Binary \<Rightarrow> FileExport (case body_binary b of None \<Rightarrow> [] | Some f \<Rightarrow> file_name (bin_file f))
         | Graphql \<Rightarrow>
             RawExport
               (case body_graphql b of
                  None \<Rightarrow> graphql_text (resolve []) (resolve [])
                | Some g \<Rightarrow> graphql_text (resolve (gql_query g)) (resolve (gql_variables g)))))"

section \<open>Masking an export\<close>

fun part_masked :: "redactor \<Rightarrow> export_part \<Rightarrow> export_part" where
  "part_masked rd (ValuePart k v) = ValuePart (red_text rd k) (red_text rd v)"
| "part_masked rd (NamedFile k f) = NamedFile (red_text rd k) (red_text rd f)"

fun body_masked :: "redactor \<Rightarrow> export_body \<Rightarrow> export_body" where
  "body_masked rd NoExport = NoExport"
| "body_masked rd (RawExport t) = RawExport (red_text rd t)"
| "body_masked rd (FormExport kvs) = FormExport (map (\<lambda>(k, v). (red_text rd k, red_text rd v)) kvs)"
| "body_masked rd (PartsExport ps) = PartsExport (map (part_masked rd) ps)"
| "body_masked rd (FileExport f) = FileExport (red_text rd f)"

definition redact_export :: "export_source \<Rightarrow> bool \<Rightarrow> export_request" where
  "redact_export source credentials =
     (let rd = new_redactor (if credentials then xr_secrets source else xr_secrets source @ xr_credentials source)
      in \<lparr>xr_method = xr_method source, xr_url = red_text rd (xr_url source),
          xr_headers = red_headers rd credentials (xr_headers source), xr_body = body_masked rd (xr_body source)\<rparr>)"

section \<open>What a copy says it did\<close>

definition copy_note :: "string \<Rightarrow> export_source \<Rightarrow> bool \<Rightarrow> (export_request \<Rightarrow> string) \<Rightarrow> string" where
  "copy_note format source credentials build =
     (let copied = build (redact_export source credentials);
          with_credentials = build (redact_export source True);
          unmasked = build (redact_export (source\<lparr>xr_secrets := []\<rparr>) True);
          cs = (\<not> credentials \<and> copied \<noteq> with_credentials);
          ss = (with_credentials \<noteq> unmasked);
          masked = (if cs \<and> ss then '' Its credentials and vault secrets are replaced by ***.''
            else if cs then '' Its credentials are replaced by ***.''
            else if ss then '' Its vault secrets are replaced by ***.''
            else []);
          reference = (if contains copied ''{{$secret.'' then '' A vault secret is copied as its reference, not its value.'' else [])
      in ''Copied as '' @ format @ (if credentials then '', with credentials'' else []) @ ''.'' @ masked @ reference)"

section \<open>Properties\<close>

text \<open>Every text of an export.\<close>

fun part_texts :: "export_part \<Rightarrow> string list" where
  "part_texts (ValuePart k v) = [k, v]"
| "part_texts (NamedFile k f) = [k, f]"

fun body_texts :: "export_body \<Rightarrow> string list" where
  "body_texts NoExport = []"
| "body_texts (RawExport t) = [t]"
| "body_texts (FormExport kvs) = concat (map (\<lambda>(k, v). [k, v]) kvs)"
| "body_texts (PartsExport ps) = concat (map part_texts ps)"
| "body_texts (FileExport f) = [f]"

definition export_texts :: "export_request \<Rightarrow> string list" where
  "export_texts x = xr_url x # concat (map (\<lambda>(k, v). [k, v]) (xr_headers x)) @ body_texts (xr_body x)"

lemma part_masked_free:
  "(\<And>t. free_of s (red_text rd t)) \<Longrightarrow> list_all (free_of s) (part_texts (part_masked rd p))"
  by (cases p) simp_all

lemma body_masked_free:
  "(\<And>t. free_of s (red_text rd t)) \<Longrightarrow> list_all (free_of s) (body_texts (body_masked rd b))"
  using part_masked_free [of s rd] by (cases b) (auto simp: list_all_iff)

text \<open>
  C30: an export carries no secret: no text of it, address, names and values of the headers, every text of the body,
  holds a vault secret in any of its forms, also when the person asked for the credentials in it; and no
  credential of the request's auth when they did not. (Of one of six characters or more that has no star in it.)
\<close>

theorem export_carries_no_secret:
  "list_all (free_of (xr_secrets source @ (if credentials then [] else xr_credentials source)))
     (export_texts (redact_export source credentials))"
proof -
  let ?s = "xr_secrets source @ (if credentials then [] else xr_credentials source)"
  let ?rd = "new_redactor (if credentials then xr_secrets source else xr_secrets source @ xr_credentials source)"
  have free: "free_of ?s (red_text ?rd t)" for t
    by (rule redacted_free) auto
  have "list_all (free_of ?s) (concat (map (\<lambda>(k, v). [k, v]) (red_headers ?rd credentials hs)))" for hs
    using free by (auto simp: red_headers_def list_all_iff)
  with free body_masked_free [OF free] show ?thesis
    unfolding export_texts_def redact_export_def Let_def by (simp only: list_all_append list.pred_inject export_request.simps simp_thms)
qed

text \<open>What a copy does not say is not so: a note with no word of masking is of a text nothing was masked in.\<close>

lemma copy_note_says_masking:
  assumes "copy_note format source credentials build = ''Copied as '' @ format @ (if credentials then '', with credentials'' else []) @ ''.''"
  shows "build (redact_export source credentials) = build (redact_export (source\<lparr>xr_secrets := []\<rparr>) True)"
  using assms by (auto simp: copy_note_def Let_def split: if_splits)

end
