(* ===== verification/CurlCommand.thy ===== *)
theory CurlCommand
  imports CurlWords ExportRequest
begin

text \<open>
  A request as a cURL command (\<open>packages/core/src/export/curl.ts\<close>) and a command as the request it
  would send (\<open>import/curl.ts\<close>): the options curl knows, what each adds, what is left out with a
  warning, and the body the data make. \<open>read_form\<close> is the reading of a form text
  (\<open>[...new URLSearchParams(text)]\<close>). What the app writes it reads back as the same request.
\<close>

section \<open>Writing a command\<close>

text \<open>\<open>new URLSearchParams([[text, ""]]).toString().slice(0, -1)\<close>\<close>

definition curl_form_encode :: "string \<Rightarrow> string" where
  "curl_form_encode t = butlast (form_body [(t, [])])"

lemma curl_form_encode [simp]: "curl_form_encode t = form_encode t"
proof -
  have "form_encode [] = []" by (simp add: form_encode_def)
  then show ?thesis by (simp add: curl_form_encode_def form_body_def)
qed

definition option_argument :: "string \<Rightarrow> string \<Rightarrow> string" where
  "option_argument option v = option @ '' '' @ shell_quote v"

definition escaped_name :: "string \<Rightarrow> string" where
  "escaped_name f = concat (map (\<lambda>c. if c = BACKSLASH \<or> c = DOUBLE then [BACKSLASH, c] else [c]) f)"

fun part_argument :: "export_part \<Rightarrow> string" where
  "part_argument (ValuePart n v) = option_argument ''--form-string'' (n @ ''='' @ v)"
| "part_argument (NamedFile n f) = option_argument ''-F'' (n @ ''=@'' @ [DOUBLE] @ escaped_name f @ [DOUBLE])"

fun body_arguments :: "export_body \<Rightarrow> string list" where
  "body_arguments NoExport = []"
| "body_arguments (RawExport t) = (if t \<noteq> [] then [option_argument ''--data-raw'' t] else [])"
| "body_arguments (FormExport kvs) =
     map (\<lambda>(n, v). if n \<noteq> [] then option_argument ''--data-urlencode'' (curl_form_encode n @ ''='' @ v)
                   else option_argument ''--data-raw'' (''='' @ curl_form_encode v)) kvs"
| "body_arguments (PartsExport ps) = map part_argument ps"
| "body_arguments (FileExport f) = (if f \<noteq> [] then [option_argument ''--data-binary'' (''@'' @ f)] else [])"

definition comment_name :: "string \<Rightarrow> string" where
  "comment_name n = shell_quote (json_quoted n)"

fun part_name :: "export_part \<Rightarrow> string" where
  "part_name (ValuePart n _) = n"
| "part_name (NamedFile n _) = n"

definition unsayable_name :: "string \<Rightarrow> bool" where
  "unsayable_name n \<longleftrightarrow> (\<exists>c \<in> set n. c \<in> set [CHR ''='', CHR '';'', DOUBLE, CR, LF])"

definition command_parts :: "export_request \<Rightarrow> string list" where
  "command_parts x =
     [''curl''] @
     (if xr_method x = ''HEAD'' then [''--head'']
      else if xr_method x \<noteq> ''GET'' then
        [''-X '' @ (if xr_method x \<noteq> [] \<and> list_all (\<lambda>c. is_upper c \<or> is_lower c) (xr_method x)
                    then xr_method x else shell_quote (xr_method x))]
      else []) @
     [if starts_with (xr_url x) ''-'' then option_argument ''--url'' (xr_url x) else shell_quote (xr_url x)] @
     map (\<lambda>(n, v). option_argument ''-H'' (n @ '': '' @ v)) (filter (\<lambda>(n, _). n \<noteq> []) (xr_headers x)) @
     body_arguments (xr_body x)"

definition LINE_ON :: string where
  "LINE_ON = [CHR '' '', BACKSLASH, LF, CHR '' '', CHR '' '']"

definition build_curl :: "export_request \<Rightarrow> string" where
  "build_curl x =
     (case (case xr_body x of PartsExport ps \<Rightarrow> List.find (\<lambda>p. unsayable_name (part_name p)) ps | _ \<Rightarrow> None) of
        Some p \<Rightarrow>
          ''# curl cannot say this request: the name of the form part '' @ comment_name (part_name p) @
          '' holds '' @ [DOUBLE] @ ''='' @ [DOUBLE] @ '', '' @ [DOUBLE] @ '';'' @ [DOUBLE] @
          '', a quote or a line break, which curl reads as the end of the name.''
      | None \<Rightarrow> join LINE_ON (command_parts x))"

section \<open>The options of a command\<close>

datatype curl_kind =
    KMethod | KHeader | KData | KDataRaw | KDataBinary | KDataUrlencode | KForm | KFormString | KUser | KCookie
  | KUserAgent | KReferer | KUrl

definition VALUE_OPTIONS :: "(string \<times> curl_kind) list" where
  "VALUE_OPTIONS =
     [(''-X'', KMethod), (''--request'', KMethod), (''-H'', KHeader), (''--header'', KHeader), (''-d'', KData),
      (''--data'', KData), (''--data-ascii'', KData), (''--data-raw'', KDataRaw), (''--data-binary'', KDataBinary),
      (''--data-urlencode'', KDataUrlencode), (''-F'', KForm), (''--form'', KForm), (''--form-string'', KFormString),
      (''-u'', KUser), (''--user'', KUser), (''-b'', KCookie), (''--cookie'', KCookie), (''-A'', KUserAgent),
      (''--user-agent'', KUserAgent), (''-e'', KReferer), (''--referer'', KReferer), (''--url'', KUrl)]"

datatype curl_flag = FGet | FHead | FInsecure | FCompressed

definition FLAGS :: "(string \<times> curl_flag) list" where
  "FLAGS =
     [(''-G'', FGet), (''--get'', FGet), (''-I'', FHead), (''--head'', FHead), (''-k'', FInsecure),
      (''--insecure'', FInsecure), (''--compressed'', FCompressed)]"

definition QUIET_FLAGS :: "string list" where
  "QUIET_FLAGS =
     [''-s'', ''--silent'', ''-S'', ''--show-error'', ''-v'', ''--verbose'', ''-i'', ''--include'', ''-L'', ''--location'',
      ''-f'', ''--fail'', ''-#'', ''--progress-bar'', ''-g'', ''--globoff'', ''-N'', ''--no-buffer'', ''--http1.1'',
      ''--http2'', ''-4'', ''-6'', ''-q'', ''-n'', ''-j'']"

definition SKIPPED_VALUE_OPTIONS :: "string list" where
  "SKIPPED_VALUE_OPTIONS =
     [''-o'', ''--output'', ''-w'', ''--write-out'', ''-m'', ''--max-time'', ''--connect-timeout'', ''--retry'',
      ''--retry-delay'', ''--retry-max-time'', ''-x'', ''--proxy'', ''-U'', ''--proxy-user'', ''--cacert'', ''--capath'',
      ''-E'', ''--cert'', ''--key'', ''--cert-type'', ''--key-type'', ''-c'', ''--cookie-jar'', ''-T'', ''--upload-file'',
      ''--resolve'', ''--connect-to'', ''-D'', ''--dump-header'', ''--max-redirs'', ''-C'', ''--continue-at'', ''-r'',
      ''--range'', ''-y'', ''--speed-time'', ''-Y'', ''--speed-limit'', ''--limit-rate'', ''-K'', ''--config'',
      ''--interface'', ''--ciphers'', ''--tls-max'', ''-z'', ''--time-cond'', ''--oauth2-bearer'', ''--aws-sigv4'',
      ''--unix-socket'', ''--noproxy'', ''--pinnedpubkey'', ''--trace'', ''--trace-ascii'', ''--stderr'', ''--proto'',
      ''--proto-default'']"

section \<open>What each option adds\<close>

datatype datum = DatumText string | DatumFile string

record curl_state =
  cu_method :: "string option"
  cu_headers :: "(string \<times> string) list"
  cu_data :: "datum list"
  cu_parts :: "export_part list"
  cu_urls :: "string list"
  cu_basic :: "(string \<times> string) option"
  cu_get :: bool
  cu_head :: bool
  cu_binary_only :: bool
  cu_warnings :: "string list"

definition curl_start :: curl_state where
  "curl_start =
     \<lparr>cu_method = None, cu_headers = [], cu_data = [], cu_parts = [], cu_urls = [], cu_basic = None, cu_get = False,
      cu_head = False, cu_binary_only = True, cu_warnings = []\<rparr>"

definition content_type_of :: "(string \<times> string) list \<Rightarrow> string option" where
  "content_type_of headers =
     (case filter (\<lambda>(n, _). to_lower n = ''content-type'') headers of [] \<Rightarrow> None | hs \<Rightarrow> Some (snd (last hs)))"

definition urlencode_datum :: "string \<Rightarrow> datum" where
  "urlencode_datum v =
     (case (index_of CHR ''='' v, index_of CHR ''@'' v) of
        (Some e, a) \<Rightarrow>
          if a = None \<or> e < the a
          then DatumText (take e v @ (if take e v \<noteq> [] then ''='' else []) @ curl_form_encode (drop (Suc e) v))
          else DatumFile (drop (Suc (the a)) v)
      | (None, Some a) \<Rightarrow> DatumFile (drop (Suc a) v)
      | (None, None) \<Rightarrow> DatumText (curl_form_encode v))"

definition warned :: "string \<Rightarrow> curl_state \<Rightarrow> curl_state" where
  "warned why st = st\<lparr>cu_warnings := cu_warnings st @ [why]\<rparr>"

definition no_equals :: "string \<Rightarrow> string" where
  "no_equals v = ''A form part without '' @ [DOUBLE] @ ''='' @ [DOUBLE] @ '' was left out: '' @ v @ ''.''"

text \<open>
  The file's name in double quotes, a backslash before a character taken away, up to the closing quote:
  \<open>/^@"((?:[^"\\]|\\.)*)"/\<close>. A backslash before a line break is no match.
\<close>

fun quoted_file :: "string \<Rightarrow> string option" where
  "quoted_file [] = None"
| "quoted_file (c # s) =
     (if c = DOUBLE then Some []
      else if c = BACKSLASH then
        (case s of
           [] \<Rightarrow> None
         | n # r \<Rightarrow> if n = LF \<or> n = CR then None else map_option ((#) n) (quoted_file r))
      else map_option ((#) c) (quoted_file s))"

text \<open>\<open>content.replace(/;type=[^;]*$/, "")\<close>\<close>

definition without_type :: "string \<Rightarrow> string" where
  "without_type s =
     (case dropWhile (\<lambda>c. c \<noteq> CHR '';'') (rev s) of
        [] \<Rightarrow> s
      | _ # front \<Rightarrow>
          if starts_with (rev (takeWhile (\<lambda>c. c \<noteq> CHR '';'') (rev s))) ''type='' then rev front else s)"

definition form_part :: "string \<Rightarrow> curl_state \<Rightarrow> curl_state" where
  "form_part v st =
     (case index_of CHR ''='' v of
        None \<Rightarrow> warned (no_equals v) st
      | Some e \<Rightarrow>
          (let n = take e v; content = drop (Suc e) v; push = (\<lambda>p. st\<lparr>cu_parts := cu_parts st @ [p]\<rparr>)
           in case (if starts_with content [CHR ''@'', DOUBLE] then quoted_file (drop 2 content) else None) of
                Some f \<Rightarrow> push (NamedFile n f)
              | None \<Rightarrow>
                  if starts_with content ''@''
                  then push (NamedFile n (takeWhile (\<lambda>c. c \<noteq> CHR '';'' \<and> c \<noteq> CHR '','') (drop 1 content)))
                  else if starts_with content ''<''
                  then warned (''The form part '' @ n @ '' takes its text from the file '' @
                         takeWhile (\<lambda>c. c \<noteq> CHR '';'') (drop 1 content) @ '', which was not read: the part is empty.'')
                         (push (ValuePart n []))
                  else push (ValuePart n (without_type content))))"

definition with_header :: "string \<Rightarrow> string \<Rightarrow> curl_state \<Rightarrow> curl_state" where
  "with_header n v st = st\<lparr>cu_headers := cu_headers st @ [(n, v)]\<rparr>"

definition with_datum :: "datum \<Rightarrow> curl_state \<Rightarrow> curl_state" where
  "with_datum d st = st\<lparr>cu_data := cu_data st @ [d]\<rparr>"

definition data_of :: "string \<Rightarrow> datum" where
  "data_of v = (if starts_with v ''@'' then DatumFile (drop 1 v) else DatumText v)"

fun take_option :: "curl_kind \<Rightarrow> string \<Rightarrow> curl_state \<Rightarrow> curl_state" where
  "take_option KMethod v st = st\<lparr>cu_method := Some (to_upper v)\<rparr>"
| "take_option KHeader v st =
     (case index_of CHR '':'' v of
        Some (Suc n) \<Rightarrow> with_header (trim (take (Suc n) v)) (trim (drop (Suc (Suc n)) v)) st
      | _ \<Rightarrow>
          if ends_with v '';'' then with_header (trim (butlast v)) [] st
          else warned (''A header without '' @ [DOUBLE] @ '':'' @ [DOUBLE] @ '' was left out: '' @ v @ ''.'') st)"
| "take_option KData v st = with_datum (data_of v) (st\<lparr>cu_binary_only := False\<rparr>)"
| "take_option KDataBinary v st = with_datum (data_of v) st"
| "take_option KDataRaw v st = with_datum (DatumText v) (st\<lparr>cu_binary_only := False\<rparr>)"
| "take_option KDataUrlencode v st = with_datum (urlencode_datum v) (st\<lparr>cu_binary_only := False\<rparr>)"
| "take_option KForm v st = form_part v st"
| "take_option KFormString v st =
     (case index_of CHR ''='' v of
        None \<Rightarrow> warned (no_equals v) st
      | Some e \<Rightarrow> st\<lparr>cu_parts := cu_parts st @ [ValuePart (take e v) (drop (Suc e) v)]\<rparr>)"
| "take_option KUser v st =
     st\<lparr>cu_basic := Some (case index_of CHR '':'' v of None \<Rightarrow> (v, []) | Some i \<Rightarrow> (take i v, drop (Suc i) v))\<rparr>"
| "take_option KCookie v st =
     (if CHR ''='' \<in> set v then with_header ''Cookie'' v st
      else warned (''The cookies of the file '' @ v @ '' were left out: the file was not read.'') st)"
| "take_option KUserAgent v st = with_header ''User-Agent'' v st"
| "take_option KReferer v st = with_header ''Referer'' v st"
| "take_option KUrl v st = st\<lparr>cu_urls := cu_urls st @ [v]\<rparr>"

fun take_flag :: "curl_flag \<Rightarrow> curl_state \<Rightarrow> curl_state" where
  "take_flag FGet st = st\<lparr>cu_get := True\<rparr>"
| "take_flag FHead st = st\<lparr>cu_head := True\<rparr>"
| "take_flag FInsecure st =
     warned (''-k (do not check the server's certificate) was left out: a browser always checks it, and the Local Bridge cannot skip the check yet.'') st"
| "take_flag FCompressed st =
     warned ''--compressed was left out: the browser asks for a compressed answer by itself.'' st"

section \<open>The words of a command, one after the other\<close>

definition nothing_applies :: "string \<Rightarrow> string \<Rightarrow> string" where
  "nothing_applies option v = option @ '' '' @ v @ '' was left out: the app has nothing it applies to.''"

definition unknown_option :: "string \<Rightarrow> string" where
  "unknown_option option = option @ '' was left out: the app does not know this option.''"

definition value_missing :: "string \<Rightarrow> string" where
  "value_missing option = ''The cURL command ends after '' @ option @ '', which needs a value.''"

definition flag_or_unknown :: "string \<Rightarrow> curl_state \<Rightarrow> curl_state" where
  "flag_or_unknown option st =
     (case map_of FLAGS option of
        Some f \<Rightarrow> take_flag f st
      | None \<Rightarrow> if option \<in> set QUIET_FLAGS then st else warned (unknown_option option) st)"

text \<open>The value of a short option: what is left of its word, or the next word.\<close>

definition short_value :: "string \<Rightarrow> string \<Rightarrow> string list \<Rightarrow> string + (string \<times> string list)" where
  "short_value option rest ws =
     (if rest \<noteq> [] then Inr (rest, ws)
      else (case ws of [] \<Rightarrow> Inl (value_missing option) | v # ws' \<Rightarrow> Inr (v, ws')))"

fun short_options :: "string \<Rightarrow> string list \<Rightarrow> curl_state \<Rightarrow> string + (string list \<times> curl_state)" where
  "short_options [] ws st = Inr (ws, st)"
| "short_options (c # rest) ws st =
     (case map_of VALUE_OPTIONS [CHR ''-'', c] of
        Some kind \<Rightarrow>
          (case short_value [CHR ''-'', c] rest ws of
             Inl e \<Rightarrow> Inl e
           | Inr (v, ws') \<Rightarrow> Inr (ws', take_option kind v st))
      | None \<Rightarrow>
          if [CHR ''-'', c] \<in> set SKIPPED_VALUE_OPTIONS
          then (case short_value [CHR ''-'', c] rest ws of
                  Inl e \<Rightarrow> Inl e
                | Inr (v, ws') \<Rightarrow> Inr (ws', warned (nothing_applies [CHR ''-'', c] v) st))
          else short_options rest ws (flag_or_unknown [CHR ''-'', c] st))"

lemma short_options_length: "short_options cs ws st = Inr (ws', st') \<Longrightarrow> length ws' \<le> length ws"
  by (induction cs arbitrary: st)
    (auto simp: short_value_def split: option.splits if_splits sum.splits list.splits)

function curl_loop :: "string list \<Rightarrow> curl_state \<Rightarrow> string + curl_state" where
  "curl_loop [] st = Inr st"
| "curl_loop (w # ws) st =
     (if \<not> starts_with w ''-'' \<or> w = ''-'' then curl_loop ws (st\<lparr>cu_urls := cu_urls st @ [w]\<rparr>)
      else if starts_with w ''--'' then
        (case map_of VALUE_OPTIONS w of
           Some kind \<Rightarrow>
             (case ws of [] \<Rightarrow> Inl (value_missing w) | v # ws' \<Rightarrow> curl_loop ws' (take_option kind v st))
         | None \<Rightarrow>
             if map_of FLAGS w = None \<and> w \<in> set SKIPPED_VALUE_OPTIONS
             then (case ws of [] \<Rightarrow> Inl (value_missing w) | v # ws' \<Rightarrow> curl_loop ws' (warned (nothing_applies w v) st))
             else curl_loop ws (flag_or_unknown w st))
      else
        (case short_options (tl w) ws st of Inl e \<Rightarrow> Inl e | Inr (ws', st') \<Rightarrow> curl_loop ws' st'))"
  by pat_completeness auto
termination
  by (relation "measure (\<lambda>(ws, st). length ws)") (auto dest!: short_options_length)

section \<open>The request of a command\<close>

record parsed_curl =
  pc_request :: export_request
  pc_basic :: "(string \<times> string) option"
  pc_warnings :: "string list"

definition data_files :: "datum list \<Rightarrow> string list" where
  "data_files ds = concat (map (\<lambda>d. case d of DatumFile f \<Rightarrow> [f] | DatumText _ \<Rightarrow> []) ds)"

definition data_texts :: "datum list \<Rightarrow> string list" where
  "data_texts ds = concat (map (\<lambda>d. case d of DatumText t \<Rightarrow> [t] | DatumFile _ \<Rightarrow> []) ds)"

definition files_left :: "string list \<Rightarrow> string list" where
  "files_left fs =
     (if fs \<noteq> [] then [''The data of the file '' @ join '', '' fs @ '' was left out: the file was not read.''] else [])"

definition urls_left :: "string list \<Rightarrow> string list" where
  "urls_left urls =
     (if 1 < length urls
      then [''The command names '' @ show_nat (length urls) @ '' addresses. The first is used; the others were left out: '' @
            join '', '' (tl urls) @ ''.'']
      else [])"

text \<open>The address, the body and the warnings of it.\<close>

definition curl_body ::
    "(string \<Rightarrow> (string \<times> string) list) \<Rightarrow> curl_state \<Rightarrow> string \<Rightarrow> string \<times> export_body \<times> string list" where
  "curl_body read_form st url =
     (let files = data_files (cu_data st); wire = join ''&'' (data_texts (cu_data st));
          type = to_lower (case content_type_of (cu_headers st) of None \<Rightarrow> [] | Some t \<Rightarrow> t)
      in if cu_parts st \<noteq> [] then
           (url, PartsExport (cu_parts st),
            if cu_data st \<noteq> [] then [''The command has both a form (-F) and data (-d). curl refuses that; the form is kept.''] else [])
         else if cu_get st then
           (if wire \<noteq> [] then url @ (if CHR ''?'' \<in> set url then ''&'' else ''?'') @ wire else url, NoExport, files_left files)
         else if length (cu_data st) = 1 \<and> length files = 1 \<and> cu_binary_only st then (url, FileExport (hd files), [])
         else if cu_data st \<noteq> [] then
           (url,
            if type = [] \<or> starts_with type ''application/x-www-form-urlencoded'' then FormExport (read_form wire)
            else RawExport wire,
            files_left files)
         else (url, NoExport, []))"

definition curl_method :: "curl_state \<Rightarrow> export_body \<Rightarrow> string" where
  "curl_method st b =
     (case cu_method st of
        Some m \<Rightarrow> m
      | None \<Rightarrow> if cu_head st then ''HEAD'' else if b = NoExport then ''GET'' else ''POST'')"

definition parse_curl :: "(string \<Rightarrow> (string \<times> string) list) \<Rightarrow> string \<Rightarrow> string + parsed_curl" where
  "parse_curl read_form t =
     (if \<not> is_curl_command t then Inl ''This is not a cURL command: it does not start with curl.''
      else
        (case command_words t of
           Inl e \<Rightarrow> Inl e
         | Inr ws \<Rightarrow>
             (case curl_loop (drop 1 ws) curl_start of
                Inl e \<Rightarrow> Inl e
              | Inr st \<Rightarrow>
                  (case cu_urls st of
                     [] \<Rightarrow> Inl ''The cURL command has no address.''
                   | url # _ \<Rightarrow>
                       (case curl_body read_form st url of
                          (url', b, left) \<Rightarrow>
                            let m = curl_method st b
                            in if \<not> is_http_method m
                               then Inl (''The cURL command's method, '' @ m @ '', is not an HTTP method: one word of at most 32 characters.'')
                               else Inr \<lparr>pc_request = \<lparr>xr_method = m, xr_url = url', xr_headers = cu_headers st, xr_body = b\<rparr>,
                                    pc_basic = cu_basic st, pc_warnings = cu_warnings st @ urls_left (cu_urls st) @ left\<rparr>)))))"

section \<open>A command as a request of the app\<close>

definition base_type :: "string \<Rightarrow> string" where
  "base_type t = trim (takeWhile (\<lambda>c. c \<noteq> CHR '';'') t)"

definition language_of :: "string \<Rightarrow> raw_language" where
  "language_of t =
     (let b = base_type t
      in if ends_with b ''json'' then Json
         else if ends_with b ''xml'' then Xml
         else if b = ''text/html'' then Html
         else if ends_with b ''javascript'' then Javascript
         else Text)"

definition implied_type :: "export_body \<Rightarrow> raw_language \<Rightarrow> string option" where
  "implied_type b language =
     (case b of
        FormExport _ \<Rightarrow> Some ''application/x-www-form-urlencoded''
      | PartsExport _ \<Rightarrow> Some ''multipart/form-data''
      | RawExport _ \<Rightarrow> Some (RAW_CONTENT_TYPES language)
      | _ \<Rightarrow> None)"

definition curl_row :: "string \<times> string \<Rightarrow> row" where
  "curl_row kv = \<lparr>row_key = fst kv, row_value = snd kv, row_enabled = True, row_json = False\<rparr>"

fun curl_part :: "export_part \<Rightarrow> multipart_part" where
  "curl_part (ValuePart n v) = TextPart n True v"
| "curl_part (NamedFile n f) = FilePart n True \<lparr>file_id = [], file_name = f\<rparr>"

definition choose_again :: "string \<Rightarrow> string" where
  "choose_again what =
     what @ ''. Choose the file again in the Body tab: a command names a file, it does not hold it.''"

definition curl_content_body :: "export_body \<Rightarrow> string \<Rightarrow> raw_language \<Rightarrow> request_body" where
  "curl_content_body b type language =
     (case b of
        RawExport t \<Rightarrow> empty_body\<lparr>body_mode := Raw, body_raw := Some \<lparr>raw_language = language, raw_text = t\<rparr>\<rparr>
      | FormExport kvs \<Rightarrow> empty_body\<lparr>body_mode := Urlencoded, body_urlencoded := Some (map curl_row kvs)\<rparr>
      | PartsExport ps \<Rightarrow> empty_body\<lparr>body_mode := Multipart, body_multipart := Some (map curl_part ps)\<rparr>
      | FileExport f \<Rightarrow>
          empty_body\<lparr>body_mode := Binary,
            body_binary := (if type \<noteq> [] then Some \<lparr>bin_file = \<lparr>file_id = [], file_name = f\<rparr>, bin_content_type = Some type\<rparr>
                            else None)\<rparr>
      | NoExport \<Rightarrow> empty_body)"

definition curl_file_warnings :: "export_body \<Rightarrow> string list" where
  "curl_file_warnings b =
     (case b of
        PartsExport ps \<Rightarrow>
          concat (map (\<lambda>p. case p of
              NamedFile n f \<Rightarrow> [choose_again (''The form part '' @ n @ '' sends the file '' @ f)]
            | ValuePart _ _ \<Rightarrow> []) ps)
      | FileExport f \<Rightarrow> [choose_again (''The body is the file '' @ f)]
      | _ \<Rightarrow> [])"

definition curl_request :: "parsed_curl \<Rightarrow> request_content \<times> string list" where
  "curl_request p =
     (let x = pc_request p;
          type = (case content_type_of (xr_headers x) of None \<Rightarrow> [] | Some t \<Rightarrow> t);
          language = language_of (to_lower type);
          implied = implied_type (xr_body x) language;
          headers = filter (\<lambda>(n, v). \<not> (to_lower n = ''content-type'' \<and> implied = Some (base_type (to_lower v)))) (xr_headers x);
          content = empty_request\<lparr>rc_method := xr_method x, rc_url := xr_url x, rc_headers := map curl_row headers,
            rc_auth := (case pc_basic p of None \<Rightarrow> rc_auth empty_request | Some (u, pw) \<Rightarrow> Basic u pw),
            rc_body := curl_content_body (xr_body x) type language\<rparr>
      in (content, pc_warnings p @ curl_file_warnings (xr_body x)))"

end
