(* ===== verification/CurlRoundTrip.thy ===== *)
theory CurlRoundTrip
  imports CurlCommand
begin

text \<open>
  What the app writes as a cURL command it reads back as the same request. First the words: every
  part of a command the app writes is an option and a quoted text, or one quoted text, and bash
  reads it as those. Then the options: each one adds to the request what it was written for.
\<close>

section \<open>The words of a command the app writes\<close>

fun part_words :: "export_part \<Rightarrow> string list" where
  "part_words (ValuePart n v) = [''--form-string'', n @ ''='' @ v]"
| "part_words (NamedFile n f) = [''-F'', n @ ''=@'' @ [DOUBLE] @ escaped_name f @ [DOUBLE]]"

fun field_words :: "string \<times> string \<Rightarrow> string list" where
  "field_words (n, v) =
     (if n \<noteq> [] then [''--data-urlencode'', form_encode n @ ''='' @ v] else [''--data-raw'', ''='' @ form_encode v])"

fun body_words :: "export_body \<Rightarrow> string list list" where
  "body_words NoExport = []"
| "body_words (RawExport t) = (if t \<noteq> [] then [[''--data-raw'', t]] else [])"
| "body_words (FormExport kvs) = map field_words kvs"
| "body_words (PartsExport ps) = map part_words ps"
| "body_words (FileExport f) = (if f \<noteq> [] then [[''--data-binary'', ''@'' @ f]] else [])"

definition header_words :: "string \<times> string \<Rightarrow> string list" where
  "header_words nv = [''-H'', fst nv @ '': '' @ snd nv]"

definition method_words :: "string \<Rightarrow> string list" where
  "method_words m = (if m = ''HEAD'' then [''--head''] else if m \<noteq> ''GET'' then [''-X'', m] else [])"

definition url_words :: "string \<Rightarrow> string list" where
  "url_words url = (if starts_with url ''-'' then [''--url'', url] else [url])"

definition words_of :: "export_request \<Rightarrow> string list list" where
  "words_of x =
     [[''curl'']] @ (if method_words (xr_method x) = [] then [] else [method_words (xr_method x)]) @
     [url_words (xr_url x)] @ map header_words (filter (\<lambda>(n, _). n \<noteq> []) (xr_headers x)) @ body_words (xr_body x)"

definition reads :: "string \<Rightarrow> string list \<Rightarrow> bool" where
  "reads p ws \<longleftrightarrow> ws \<noteq> [] \<and>
     (\<forall>before s. bash_loop None before (p @ s) = bash_loop (Some (last ws)) (before @ butlast ws) s)"

lemma reads_quoted: "reads (shell_quote v) [v]"
  by (simp add: reads_def bash_shell_quote added_def)

lemma reads_plain: "list_all bash_plain p \<Longrightarrow> p \<noteq> [] \<Longrightarrow> reads p [p]"
  by (simp add: reads_def bash_loop_plain added_def)

lemma reads_two:
  assumes "list_all bash_plain p" "p \<noteq> []" "reads t [v]"
  shows "reads (p @ '' '' @ t) [p, v]"
proof -
  have "js_space CHR '' ''" by (simp add: js_space_def)
  with assms show ?thesis
    using bash_loop_plain [OF assms(1,2)] by (simp add: reads_def bash_loop_space ended_def added_def)
qed

lemma reads_option:
  "list_all bash_plain p \<Longrightarrow> p \<noteq> [] \<Longrightarrow> reads (option_argument p v) [p, v]"
  unfolding option_argument_def by (rule reads_two [OF _ _ reads_quoted])

lemma bash_loop_line: "bash_loop (Some w) ws (LINE_ON @ s) = bash_loop None (ws @ [w]) s"
proof -
  have "js_space CHR '' ''" by (simp add: js_space_def)
  then show ?thesis by (simp add: LINE_ON_def bash_loop_space bash_loop_next_line ended_def)
qed

lemma reads_join:
  "list_all2 reads ps wss \<Longrightarrow> ps \<noteq> [] \<Longrightarrow> bash_loop None before (join LINE_ON ps) = Inr (before @ concat wss)"
proof (induction ps arbitrary: wss before rule: induct_list012)
  case (2 p)
  then obtain ws where ws: "wss = [ws]" "reads p ws" by (auto simp: list_all2_Cons1)
  then have "bash_loop None before (p @ []) = bash_loop (Some (last ws)) (before @ butlast ws) []"
    unfolding reads_def by blast
  with ws show ?case by (simp add: reads_def ended_def)
next
  case (3 p q ps)
  then obtain ws wss' where w: "wss = ws # wss'" "reads p ws" "list_all2 reads (q # ps) wss'" by (auto simp: list_all2_Cons1)
  then have "bash_loop None before (join LINE_ON (p # q # ps)) = bash_loop None (before @ ws) (join LINE_ON (q # ps))"
    by (simp add: reads_def bash_loop_line)
  with 3 w show ?case by simp
qed simp

lemma plain_names: "list_all (list_all bash_plain)
  [''curl'', ''--head'', ''-X'', ''--url'', ''-H'', ''--data-raw'', ''--data-urlencode'', ''--form-string'', ''-F'', ''--data-binary'']"
  by code_simp

lemma reads_option_named:
  "p \<in> set [''-X'', ''--url'', ''-H'', ''--data-raw'', ''--data-urlencode'', ''--form-string'', ''-F'', ''--data-binary''] \<Longrightarrow>
   reads (option_argument p v) [p, v]"
  using plain_names by (intro reads_option) (auto simp: list_all_iff)

lemma letters_plain: "is_upper c \<or> is_lower c \<Longrightarrow> bash_plain c"
  by (auto simp: is_upper_def is_lower_def bash_plain_def js_space_def char_nat_def)

lemma reads_body: "list_all2 reads (body_arguments b) (body_words b)"
proof (cases b)
  case (FormExport kvs)
  then show ?thesis
    by (auto simp: list.rel_map intro!: list.rel_refl_strong reads_option_named simp del: append_Cons append_Nil)
next
  case (PartsExport ps)
  have "reads (part_argument p) (part_words p)" for p by (cases p) (simp_all add: reads_option_named del: append_Cons)
  with PartsExport show ?thesis by (auto simp: list.rel_map intro!: list.rel_refl_strong)
qed (simp_all add: reads_option_named del: append_Cons append_Nil)

lemma reads_command: "list_all2 reads (command_parts x) (words_of x)"
proof -
  have of_verb: "list_all2 reads
      (if m = ''HEAD'' then [''--head'']
       else if m \<noteq> ''GET'' then [''-X '' @ (if m \<noteq> [] \<and> list_all (\<lambda>c. is_upper c \<or> is_lower c) m then m else shell_quote m)]
       else [])
      (if method_words m = [] then [] else [method_words m])" for m
  proof -
    have "reads ''--head'' [''--head'']" using plain_names by (intro reads_plain) simp_all
    moreover have "reads (''-X'' @ '' '' @ (if m \<noteq> [] \<and> list_all (\<lambda>c. is_upper c \<or> is_lower c) m then m else shell_quote m)) [''-X'', m]"
      using plain_names letters_plain
      by (intro reads_two) (auto simp: reads_quoted list_all_iff intro!: reads_plain)
    ultimately show ?thesis by (simp add: method_words_def)
  qed
  have "reads ''curl'' [''curl'']" using plain_names by (intro reads_plain) simp_all
  moreover have "reads (if starts_with url ''-'' then option_argument ''--url'' url else shell_quote url) (url_words url)" for url
    by (simp add: url_words_def reads_quoted reads_option_named)
  moreover have "list_all2 reads (map (\<lambda>(n, v). option_argument ''-H'' (n @ '': '' @ v)) hs) (map header_words hs)" for hs
    by (auto simp: list.rel_map header_words_def simp del: append_Cons intro!: list.rel_refl_strong reads_option_named)
  ultimately show ?thesis
    unfolding command_parts_def words_of_def by (intro list_all2_appendI of_verb reads_body) simp_all
qed

text \<open>So the words of a command are the words it was made of, and none of them is changed by what is in it.\<close>

lemma command_words_of: "command_words (join LINE_ON (command_parts x)) = Inr (concat (words_of x))"
proof -
  obtain p ps where parts: "command_parts x = ''curl'' # p # ps"
    unfolding command_parts_def by (cases "xr_method x = ''HEAD''"; cases "xr_method x = ''GET''") auto
  have "QUOTE \<in> set (shell_quote v)" for v by (simp add: shell_quote_def)
  then have "\<exists>p \<in> set (command_parts x). QUOTE \<in> set p" by (auto simp: command_parts_def option_argument_def)
  moreover have "set p \<subseteq> set (join sep qs)" if "p \<in> set qs" for p :: string and sep qs
    using that by (induction sep qs rule: join.induct) auto
  ultimately have "QUOTE \<in> set (join LINE_ON (command_parts x))" by blast
  then show ?thesis
    using reads_join [OF reads_command, of x "[]"] parts by (simp add: command_words_def is_cmd_def bash_words_def)
qed

section \<open>What the options add\<close>

declare curl_loop.simps(2) [simp del]

lemma curl_loop_option:
  assumes "map_of VALUE_OPTIONS p = Some kind"
  shows "curl_loop (p # v # ws) st = curl_loop ws (take_option kind v st)"
proof -
  have "list_all (\<lambda>(p, _). starts_with p ''--'' \<or> (length p = 2 \<and> hd p = CHR ''-'')) VALUE_OPTIONS" by code_simp
  moreover have "(p, kind) \<in> set VALUE_OPTIONS" using assms by (rule map_of_SomeD)
  ultimately consider "starts_with p ''--''" | "\<not> starts_with p ''--''" "length p = 2" "hd p = CHR ''-''"
    by (auto simp: list_all_iff)
  then show ?thesis
  proof cases
    case 1
    then have "starts_with p ''-''" "p \<noteq> ''-''" by (auto simp: starts_with_prefix prefix_def)
    with 1 assms show ?thesis by (simp add: curl_loop.simps(2))
  next
    case 2
    then obtain c where "p = [CHR ''-'', c]" by (cases p rule: remdups_adj.cases) auto
    with 2 assms show ?thesis by (simp add: curl_loop.simps(2) starts_with_def short_value_def)
  qed
qed

lemma curl_loop_url:
  "curl_loop (url_words url @ ws) st = curl_loop ws (st\<lparr>cu_urls := cu_urls st @ [url]\<rparr>)"
proof (cases "starts_with url ''-''")
  case True
  have "map_of VALUE_OPTIONS ''--url'' = Some KUrl" by (simp add: VALUE_OPTIONS_def)
  with True show ?thesis by (simp add: url_words_def curl_loop_option)
next
  case False
  then show ?thesis by (simp add: url_words_def curl_loop.simps(2))
qed

lemma method_char_upper:
  assumes "is_method_char c"
  shows "upper_chars c = [c]"
proof -
  have "char_nat c < 97 \<or> char_nat c = 124 \<or> char_nat c = 126"
    using assms by (auto simp: is_method_char_def is_digit_def is_upper_def) (simp_all add: char_nat_def)
  moreover from this have "c \<notin> {CHR 0xDF, CHR 0xB5, CHR 0xFF}" by (auto simp: char_nat_def)
  ultimately show ?thesis by (auto simp: upper_chars_def upper_char_def Let_def)
qed

lemma to_upper_upper: "list_all is_method_char m \<Longrightarrow> to_upper m = m"
  by (induction m) (simp_all add: to_upper_def method_char_upper)

lemma curl_loop_method:
  assumes "is_http_method m"
  shows "curl_loop (method_words m @ ws) st =
    curl_loop ws (if m = ''HEAD'' then st\<lparr>cu_head := True\<rparr> else if m = ''GET'' then st else st\<lparr>cu_method := Some m\<rparr>)"
proof -
  have "map_of VALUE_OPTIONS ''-X'' = Some KMethod" by (simp add: VALUE_OPTIONS_def)
  moreover have "to_upper m = m" using assms by (simp add: is_http_method_def to_upper_upper)
  moreover have "curl_loop (''--head'' # ws) st = curl_loop ws (st\<lparr>cu_head := True\<rparr>)"
    by (simp add: curl_loop.simps(2) starts_with_def VALUE_OPTIONS_def FLAGS_def flag_or_unknown_def)
  ultimately show ?thesis by (simp add: method_words_def curl_loop_option)
qed

text \<open>A header that reads back: a name without a colon, with no space at the ends of either.\<close>

fun header_said :: "string \<times> string \<Rightarrow> bool" where
  "header_said (n, v) \<longleftrightarrow> n \<noteq> [] \<and> CHR '':'' \<notin> set n \<and> trim n = n \<and> trim v = v"

lemma trim_space: "trim (CHR '' '' # v) = trim v"
  by (simp add: trim_def js_space_def)

lemma take_header:
  "header_said (n, v) \<Longrightarrow> take_option KHeader (n @ '': '' @ v) st = with_header n v st"
  by (cases n) (auto simp: index_of_append trim_space split: nat.split)

lemma curl_loop_headers:
  "list_all header_said hs \<Longrightarrow>
   curl_loop (concat (map header_words hs) @ ws) st = curl_loop ws (st\<lparr>cu_headers := cu_headers st @ hs\<rparr>)"
proof (induction hs arbitrary: st)
  case (Cons nv hs)
  obtain n v where nv: "nv = (n, v)" by (cases nv)
  have "map_of VALUE_OPTIONS ''-H'' = Some KHeader" by (simp add: VALUE_OPTIONS_def)
  with Cons nv take_header [of n v] show ?case
    by (simp add: header_words_def curl_loop_option with_header_def del: take_option.simps)
qed simp

lemma form_encode_no_at: "CHR ''@'' \<notin> set (form_encode t)"
proof -
  have "CHR ''@'' \<notin> set (form_char c)" for c
  proof -
    have "hex_digit n \<noteq> CHR ''@''" if "n < 16" for n
    proof -
      have "hex_digit n \<in> set ''0123456789ABCDEF''" using that by (simp add: hex_digit_def nth_mem del: set_simps)
      then show ?thesis by auto
    qed
    from this [of "unat b div 16" for b :: byte] this [of "unat b mod 16" for b :: byte]
    have "CHR ''@'' \<notin> set (percent_byte b)" for b by (auto simp: percent_byte_def dest: sym)
    then show ?thesis
      by (auto simp: form_char_def form_unreserved_def is_alnum_def is_digit_def is_upper_def is_lower_def char_nat_def)
  qed
  then show ?thesis by (auto simp: form_encode_def)
qed

lemma form_encode_Nil: "form_encode t = [] \<longleftrightarrow> t = []"
proof -
  have "form_char c \<noteq> []" for c by (simp add: form_char_def utf8_char_def percent_byte_def Let_def)
  then show ?thesis by (auto simp: form_encode_def)
qed

lemma field_datum:
  "n \<noteq> [] \<Longrightarrow> urlencode_datum (form_encode n @ ''='' @ v) = DatumText (form_encode n @ ''='' @ form_encode v)"
proof -
  assume n: "n \<noteq> []"
  let ?k = "form_encode n"
  have e: "index_of CHR ''='' (?k @ CHR ''='' # v) = Some (length ?k)"
    using form_encode_plain [of "CHR ''=''" n] by (intro index_of_append) auto
  have "a > length ?k" if "index_of CHR ''@'' (?k @ CHR ''='' # v) = Some a" for a
  proof (rule ccontr)
    assume "\<not> a > length ?k"
    moreover have "(?k @ CHR ''='' # v) ! a = CHR ''@''" using index_of_Some [OF that] by simp
    ultimately show False
      using form_encode_no_at [of n] nth_mem [of a ?k] by (cases "a = length ?k") (auto simp: nth_append)
  qed
  with e n show ?thesis
    by (cases "index_of CHR ''@'' (?k @ CHR ''='' # v)") (simp_all add: urlencode_datum_def form_encode_Nil)
qed

definition form_field :: "string \<times> string \<Rightarrow> string" where
  "form_field kv = form_encode (fst kv) @ ''='' @ form_encode (snd kv)"

lemma curl_loop_fields:
  "curl_loop (concat (map field_words kvs)) st =
   Inr (st\<lparr>cu_data := cu_data st @ map (\<lambda>kv. DatumText (form_field kv)) kvs,
     cu_binary_only := cu_binary_only st \<and> kvs = []\<rparr>)"
proof (induction kvs arbitrary: st)
  case (Cons kv kvs)
  obtain n v where kv: "kv = (n, v)" by (cases kv)
  have "map_of VALUE_OPTIONS ''--data-urlencode'' = Some KDataUrlencode" "map_of VALUE_OPTIONS ''--data-raw'' = Some KDataRaw"
    by (simp_all add: VALUE_OPTIONS_def)
  moreover have "form_encode [] = []" by (simp add: form_encode_def)
  ultimately show ?case
    using Cons kv field_datum [of n v] by (simp add: curl_loop_option with_datum_def form_field_def)
qed simp

lemma quoted_file_escaped: "quoted_file (escaped_name f @ DOUBLE # s) = Some f"
  by (induction f) (auto simp: escaped_name_def)

definition part_said :: "export_part \<Rightarrow> bool" where
  "part_said p \<longleftrightarrow> \<not> unsayable_name (part_name p)"

lemma part_said_equals: "part_said p \<Longrightarrow> CHR ''='' \<notin> set (part_name p)"
  by (auto simp: part_said_def unsayable_name_def)

lemma curl_loop_parts:
  "list_all part_said ps \<Longrightarrow>
   curl_loop (concat (map part_words ps)) st = Inr (st\<lparr>cu_parts := cu_parts st @ ps\<rparr>)"
proof (induction ps arbitrary: st)
  case (Cons p ps)
  have "map_of VALUE_OPTIONS ''--form-string'' = Some KFormString" "map_of VALUE_OPTIONS ''-F'' = Some KForm"
    by (simp_all add: VALUE_OPTIONS_def)
  with Cons part_said_equals [of p] show ?case
    by (cases p) (simp_all add: curl_loop_option index_of_append form_part_def starts_with_def quoted_file_escaped)
qed simp

section \<open>The round trip\<close>

text \<open>
  The request a command can say: its body is none for GET; text has a type of its own, which is not a form's; a form
  has none or a form's; no part of a form is named as curl reads a name's end; a file is named.
\<close>

definition type_said :: "export_request \<Rightarrow> string" where
  "type_said x = to_lower (case content_type_of (xr_headers x) of None \<Rightarrow> [] | Some t \<Rightarrow> t)"

definition form_type :: "string \<Rightarrow> bool" where
  "form_type t \<longleftrightarrow> t = [] \<or> starts_with t ''application/x-www-form-urlencoded''"

definition body_said :: "export_request \<Rightarrow> bool" where
  "body_said x \<longleftrightarrow>
     (case xr_body x of
        NoExport \<Rightarrow> True
      | RawExport t \<Rightarrow> t \<noteq> [] \<and> \<not> form_type (type_said x)
      | FormExport kvs \<Rightarrow> kvs \<noteq> [] \<and> form_type (type_said x)
      | PartsExport ps \<Rightarrow> ps \<noteq> [] \<and> list_all part_said ps
      | FileExport f \<Rightarrow> f \<noteq> [])"

definition curl_said :: "export_request \<Rightarrow> bool" where
  "curl_said x \<longleftrightarrow>
     is_http_method (xr_method x) \<and> (xr_method x = ''GET'' \<longrightarrow> xr_body x = NoExport) \<and>
     list_all header_said (xr_headers x) \<and> body_said x"

definition body_state :: "export_body \<Rightarrow> curl_state \<Rightarrow> curl_state" where
  "body_state b st =
     (case b of
        NoExport \<Rightarrow> st
      | RawExport t \<Rightarrow> st\<lparr>cu_data := [DatumText t], cu_binary_only := False\<rparr>
      | FormExport kvs \<Rightarrow>
          st\<lparr>cu_data := map (\<lambda>kv. DatumText (form_field kv)) kvs, cu_binary_only := False\<rparr>
      | PartsExport ps \<Rightarrow> st\<lparr>cu_parts := ps\<rparr>
      | FileExport f \<Rightarrow> st\<lparr>cu_data := [DatumFile f]\<rparr>)"

lemma curl_loop_body:
  assumes "body_said x" "cu_data st = []" "cu_parts st = []"
  shows "curl_loop (concat (body_words (xr_body x))) st = Inr (body_state (xr_body x) st)"
proof -
  have "map_of VALUE_OPTIONS ''--data-raw'' = Some KDataRaw" "map_of VALUE_OPTIONS ''--data-binary'' = Some KDataBinary"
    by (simp_all add: VALUE_OPTIONS_def)
  with assms show ?thesis
    by (cases "xr_body x")
      (simp_all add: body_said_def body_state_def curl_loop_option with_datum_def data_of_def starts_with_def
        curl_loop_fields curl_loop_parts)
qed

definition said_state :: "export_request \<Rightarrow> curl_state" where
  "said_state x =
     body_state (xr_body x)
       (curl_start\<lparr>cu_method := (if xr_method x = ''GET'' \<or> xr_method x = ''HEAD'' then None else Some (xr_method x)),
          cu_head := (xr_method x = ''HEAD''), cu_urls := [xr_url x], cu_headers := xr_headers x\<rparr>)"

lemma curl_loop_words:
  assumes "curl_said x"
  shows "curl_loop (drop 1 (concat (words_of x))) curl_start = Inr (said_state x)"
proof -
  have hs: "filter (\<lambda>(n, _). n \<noteq> []) (xr_headers x) = xr_headers x"
    using assms by (auto simp: curl_said_def list_all_iff filter_id_conv)
  have words: "drop 1 (concat (words_of x)) =
    method_words (xr_method x) @ url_words (xr_url x) @ concat (map header_words (xr_headers x)) @ concat (body_words (xr_body x))"
    by (simp add: words_of_def hs)
  have m: "is_http_method (xr_method x)" and h: "list_all header_said (xr_headers x)" and b: "body_said x"
    using assms by (simp_all add: curl_said_def)
  show ?thesis
    unfolding words curl_loop_method [OF m] curl_loop_url curl_loop_headers [OF h]
    by (subst curl_loop_body [OF b]) (simp_all add: said_state_def curl_start_def)
qed

lemma data_texts_map: "data_texts (map (\<lambda>x. DatumText (f x)) xs) = map f xs"
  by (induction xs) (simp_all add: data_texts_def)

lemma said_body:
  assumes "curl_said x" "\<And>kvs. read_form (form_body kvs) = kvs"
  shows "curl_body read_form (said_state x) (xr_url x) = (xr_url x, xr_body x, [])"
proof -
  have b: "body_said x" using assms(1) by (simp add: curl_said_def)
  have [simp]: "data_files (map (\<lambda>x. DatumText (f x)) xs) = []" for f :: "'a \<Rightarrow> string" and xs
    by (induction xs) (simp_all add: data_files_def)
  show ?thesis
  proof (cases "xr_body x")
    case (FormExport kvs)
    have wire: "join ''&'' (data_texts (map (\<lambda>kv. DatumText (form_field kv)) kvs)) = form_body kvs"
      by (simp add: data_texts_map form_body_def form_field_def case_prod_unfold)
    show ?thesis
      using b FormExport
      by (simp add: curl_body_def said_state_def body_state_def curl_start_def body_said_def form_type_def type_said_def
          files_left_def Let_def wire assms(2))
  next
    case (RawExport t)
    then show ?thesis
      using b by (simp add: curl_body_def said_state_def body_state_def curl_start_def body_said_def form_type_def
          type_said_def data_texts_def data_files_def files_left_def Let_def)
  qed (use b in \<open>simp_all add: curl_body_def said_state_def body_state_def curl_start_def body_said_def data_files_def Let_def\<close>)
qed

lemma build_curl_is_command: "is_curl_command (join LINE_ON (command_parts x))"
proof -
  obtain p ps where "command_parts x = ''curl'' # p # ps"
    unfolding command_parts_def by (cases "xr_method x = ''HEAD''"; cases "xr_method x = ''GET''") auto
  moreover have "is_curl_command (''curl '' @ s)" for s
    by (simp add: is_curl_command_def word_ends_def to_lower_def lower_char_def char_nat_def js_space_def)
  ultimately show ?thesis by (simp add: LINE_ON_def)
qed

lemma build_curl_said: "curl_said x \<Longrightarrow> build_curl x = join LINE_ON (command_parts x)"
  by (auto simp: curl_said_def body_said_def build_curl_def part_said_def list_all_iff
      split: export_body.splits option.splits dest!: find_Some_iff [THEN iffD1]) 

text \<open>
  C17: a request the app writes as a cURL command is the request it reads back from it, and nothing is left out: method,
  address, every header in order and the body, whatever quotes, line breaks or dollar signs are in them and though an address, a
  name or a text starts with a minus sign or an at sign. So no text of a request can become another word or another option.
\<close>

theorem curl_round_trip:
  assumes "curl_said x" and "\<And>kvs. read_form (form_body kvs) = kvs"
  shows "parse_curl read_form (build_curl x) = Inr \<lparr>pc_request = x, pc_basic = None, pc_warnings = []\<rparr>"
proof -
  let ?st = "said_state x"
  have st: "cu_urls ?st = [xr_url x]" "cu_headers ?st = xr_headers x" "cu_warnings ?st = []" "cu_basic ?st = None"
    by (simp_all add: said_state_def body_state_def curl_start_def split: export_body.split)
  have m: "is_http_method (xr_method x)" using assms(1) by (simp add: curl_said_def)
  have "curl_method ?st (xr_body x) = xr_method x"
    using assms(1)
    by (auto simp: curl_method_def said_state_def body_state_def curl_start_def curl_said_def split: export_body.split)
  with m st show ?thesis
    unfolding parse_curl_def build_curl_said [OF assms(1)]
    by (simp add: build_curl_is_command command_words_of curl_loop_words [OF assms(1), unfolded One_nat_def] said_body [OF assms] urls_left_def)
qed

definition example_request :: export_request where
  "example_request =
     \<lparr>xr_method = ''PUT'', xr_url = ''--output'', xr_headers = [(''X-Note'', [QUOTE] @ '' $(id) '' @ [QUOTE]), (''Content-Type'', ''text/plain'')],
      xr_body = RawExport (''@/etc/passwd'' @ [LF, QUOTE])\<rparr>"

lemma curl_round_trip_witness:
  "parse_curl (the \<circ> form_parse) (build_curl example_request) =
     Inr \<lparr>pc_request = example_request, pc_basic = None, pc_warnings = []\<rparr>"
  by (rule curl_round_trip) (code_simp, simp)

end
