(* ===== verification/PostmanImport.thy ===== *)
theory PostmanImport
  imports PostmanFile CurlRoundTrip
begin

text \<open>
  A Postman collection or environment read as the app's own, \<open>packages/core/src/import/postman.ts\<close>. What cannot be kept is
  a warning, with the item it is of. \<open>fresh\<close> is what \<open>newId\<close> gives, one after the other; an import gives a collection no
  trust and no route.
\<close>

section \<open>Which file it is\<close>

definition own_field :: "json option \<Rightarrow> string \<Rightarrow> json option" where
  "own_field v k = (case v of Some (JObj fs) \<Rightarrow> om_get fs k | _ \<Rightarrow> None)"

definition is_list :: "json option \<Rightarrow> bool" where
  "is_list v \<longleftrightarrow> (case v of Some (JArr _) \<Rightarrow> True | _ \<Rightarrow> False)"

definition is_object_value :: "json option \<Rightarrow> bool" where
  "is_object_value v \<longleftrightarrow> (case v of Some (JObj _) \<Rightarrow> True | _ \<Rightarrow> False)"

definition is_postman_collection :: "json \<Rightarrow> bool" where
  "is_postman_collection v \<longleftrightarrow> is_list (member v ''item'')"

definition is_postman_v1 :: "json \<Rightarrow> bool" where
  "is_postman_v1 v \<longleftrightarrow> is_list (member v ''requests'') \<and> is_list (member v ''order'')"

definition is_postman_environment :: "json \<Rightarrow> bool" where
  "is_postman_environment v \<longleftrightarrow>
     (case (case v of JObj fs \<Rightarrow> om_get fs ''values'' | _ \<Rightarrow> Some v) of
        Some (JArr entries) \<Rightarrow>
          (is_obj_json v \<or> entries \<noteq> []) \<and>
          list_all (\<lambda>e. case member e ''key'' of Some (JStr _) \<Rightarrow> True | _ \<Rightarrow> False) entries
      | _ \<Rightarrow> False)"

section \<open>Its parts\<close>

definition or_none :: "json option \<Rightarrow> json option \<Rightarrow> json option" where
  "or_none a b = (case a of None \<Rightarrow> b | Some JNull \<Rightarrow> b | _ \<Rightarrow> a)"

definition description_read :: "json option \<Rightarrow> string option" where
  "description_read v =
     (let words = (if is_object_value v then loose_text (own_field v ''content'') else loose_text v)
      in if words = [] then None else Some words)"

definition row_read :: "json \<Rightarrow> row" where
  "row_read e = plain_row (loose_text (or_none (member e ''key'') (member e ''id''))) (loose_text (member e ''value'')) (\<not> switched_off e)"

definition rows_read :: "json option \<Rightarrow> row list" where
  "rows_read v = map row_read (loose_objects v)"

text \<open>Headers as one text: \<open>split(/\r?\n/)\<close>, and a line that begins with two slashes is switched off.\<close>

definition text_lines :: "string \<Rightarrow> string list" where
  "text_lines s =
     (let ls = split_on (CHR 0x0A) s
      in map (\<lambda>l. if l \<noteq> [] \<and> last l = CHR 0x0D then butlast l else l) (butlast ls) @ [last ls])"

definition header_line :: "string \<Rightarrow> row" where
  "header_line line =
     (let (name, val) = cut_first (CHR '':'') line
      in plain_row (trim (if starts_with name ''//'' then drop 2 name else name))
           (case val of None \<Rightarrow> [] | Some v \<Rightarrow> trim v) (\<not> starts_with line ''//''))"

definition headers_read :: "json option \<Rightarrow> row list" where
  "headers_read v =
     (case v of
        Some (JStr t) \<Rightarrow> map header_line (filter (\<lambda>l. trim l \<noteq> []) (text_lines t))
      | _ \<Rightarrow> rows_read v)"

definition OAUTH_GRANTS_OF :: "(string \<times> oauth_grant) list" where
  "OAUTH_GRANTS_OF =
     [([], AuthorizationCode), (''authorization_code'', AuthorizationCode), (''authorization_code_with_pkce'', AuthorizationCode),
      (''client_credentials'', ClientCredentials), (''password_credentials'', PasswordGrant)]"

text \<open>A type's fields: a list of entries, or an object.\<close>

definition auth_field_read :: "json option \<Rightarrow> string \<Rightarrow> string" where
  "auth_field_read entries name =
     (case entries of
        Some (JArr xs) \<Rightarrow>
          (case List.find (\<lambda>e. member e ''key'' = Some (JStr name)) (filter is_obj_json xs) of
             Some e \<Rightarrow> loose_text (member e ''value'') | None \<Rightarrow> [])
      | Some (JObj fs) \<Rightarrow> loose_text (om_get fs name)
      | _ \<Rightarrow> [])"

definition oauth2_read :: "(string \<Rightarrow> string) \<Rightarrow> oauth_grant \<Rightarrow> oauth2_auth" where
  "oauth2_read val grant =
     \<lparr>oa_grant = grant, oa_auth_url = val ''authUrl'', oa_token_url = val ''accessTokenUrl'', oa_client_id = val ''clientId'',
      oa_client_secret = val ''clientSecret'', oa_scope = val ''scope'', oa_username = val ''username'', oa_password = val ''password'',
      oa_client_auth = (if val ''client_authentication'' = ''body'' then ClientBody else ClientHeader), oa_retry_on_401 = False\<rparr>"

definition auth_read :: "json option \<Rightarrow> bool \<Rightarrow> auth_config \<times> string list" where
  "auth_read value outermost =
     (if \<not> is_object_value value then (if outermost then NoAuth else Inherit, [])
      else
        (let kind = loose_text (own_field value ''type''); val = auth_field_read (own_field value kind)
         in if kind = ''noauth'' then (NoAuth, [])
            else if kind = ''bearer'' then (Bearer (val ''token''), [])
            else if kind = ''basic'' then (Basic (val ''username'') (val ''password''), [])
            else if kind = ''apikey'' then (ApiKey (val ''key'') (val ''value'') (if val ''in'' = ''query'' then InQuery else InHeader), [])
            else if kind = ''awsv4'' then
              (AwsV4 \<lparr>aws_access_key = val ''accessKey'', aws_secret_key = val ''secretKey'', aws_session_token = val ''sessionToken'',
                 aws_region = val ''region'', aws_service = val ''service''\<rparr>, [])
            else if kind = ''oauth2'' then
              (case om_get OAUTH_GRANTS_OF (val ''grant_type'') of
                 None \<Rightarrow> (NoAuth, [''Its auth is OAuth 2.0 with a grant the app does not have ('' @ take 40 (val ''grant_type'') @
                   '') and is left out: it is sent with no auth.''])
               | Some grant \<Rightarrow>
                   (OAuth2 (oauth2_read val grant),
                    (if val ''accessToken'' = [] then []
                     else [''The OAuth 2.0 token in the file is not kept: get one in the Auth tab.'']) @
                    (if val ''addTokenTo'' = ''queryParams''
                     then [''Its OAuth 2.0 token was added to the address: the app sends it in the Authorization header.''] else [])))
            else (NoAuth, [''Its auth is of a type the app does not have ('' @ (if kind = [] then ''no type'' else kind) @
              '') and is left out: it is sent with no auth.''])))"

definition script_text :: "json \<Rightarrow> string" where
  "script_text event =
     (let script = member event ''script''; exec = (if is_object_value script then own_field script ''exec'' else script)
      in case exec of Some (JArr ls) \<Rightarrow> join [CHR 0x0A] (map (\<lambda>l. loose_text (Some l)) ls) | _ \<Rightarrow> loose_text exec)"

definition scripts_for :: "json list \<Rightarrow> string \<Rightarrow> string" where
  "scripts_for events listen =
     join [CHR 0x0A] (map script_text (filter (\<lambda>e. member e ''listen'' = Some (JStr listen) \<and> \<not> switched_off e) events))"

definition scripts_read :: "json option \<Rightarrow> scripts \<times> string list" where
  "scripts_read v =
     (let events = loose_objects v;
          others = filter (\<lambda>l. l \<noteq> ''prerequest'' \<and> l \<noteq> ''test'') (map (\<lambda>e. loose_text (member e ''listen'')) events)
      in (\<lparr>script_pre = scripts_for events ''prerequest'', script_post = scripts_for events ''test''\<rparr>,
          case others of
            [] \<Rightarrow> []
          | l # _ \<Rightarrow> [''A script for '' @ [CHR 0x22] @ l @ [CHR 0x22] @
              '' is left out: the app runs a script before a request and after its response.'']))"

definition language_read :: "string \<Rightarrow> raw_language" where
  "language_read name =
     (case List.find (\<lambda>l. language_name l = name) [Json, Text, Xml, Html, Javascript] of Some l \<Rightarrow> l | None \<Rightarrow> Text)"

definition file_of_body :: "json option \<Rightarrow> file_ref" where
  "file_of_body src =
     \<lparr>file_id = [], file_name = (case src of Some (JArr []) \<Rightarrow> [] | Some (JArr (x # _)) \<Rightarrow> loose_text (Some x) | _ \<Rightarrow> loose_text src)\<rparr>"

definition part_read :: "json \<Rightarrow> multipart_part" where
  "part_read e =
     (if member e ''type'' = Some (JStr ''file'') then FilePart (loose_text (member e ''key'')) (\<not> switched_off e) (file_of_body (member e ''src''))
      else TextPart (loose_text (member e ''key'')) (\<not> switched_off e) (loose_text (member e ''value'')))"

definition kept_body :: "json \<Rightarrow> request_body" where
  "kept_body v =
     (let language = language_read (loose_text (own_field (own_field (member v ''options'') ''raw'') ''language''))
      in \<lparr>body_mode = NoBody,
          body_raw = (case member v ''raw'' of Some (JStr t) \<Rightarrow> Some \<lparr>raw_language = language, raw_text = t\<rparr> | _ \<Rightarrow> None),
          body_urlencoded = (if is_list (member v ''urlencoded'') then Some (rows_read (member v ''urlencoded'')) else None),
          body_multipart = (if is_list (member v ''formdata'') then Some (map part_read (loose_objects (member v ''formdata''))) else None),
          body_binary = (if is_object_value (member v ''file'')
            then Some \<lparr>bin_file = file_of_body (own_field (member v ''file'') ''src''), bin_content_type = None\<rparr> else None),
          body_graphql = (if is_object_value (member v ''graphql'')
            then Some \<lparr>gql_query = loose_text (own_field (member v ''graphql'') ''query''),
              gql_variables = loose_text (own_field (member v ''graphql'') ''variables'')\<rparr> else None)\<rparr>)"

definition body_read :: "json option \<Rightarrow> request_body \<times> string list" where
  "body_read value =
     (case value of
        Some (JObj fs) \<Rightarrow>
          (let v = JObj fs; kept = kept_body v; mode = member v ''mode'';
               language = language_read (loose_text (own_field (own_field (member v ''options'') ''raw'') ''language''));
               files = (if names_file kept then [''A file of its body is named, not included: choose it again in the Body tab.''] else [])
           in if switched_off v then (kept, files)
              else if mode = Some (JStr ''raw'') then
                (kept\<lparr>body_mode := Raw, body_raw := Some (case body_raw kept of Some r \<Rightarrow> r | None \<Rightarrow> \<lparr>raw_language = language, raw_text = []\<rparr>)\<rparr>, files)
              else if mode = Some (JStr ''urlencoded'') then
                (kept\<lparr>body_mode := Urlencoded, body_urlencoded := Some (case body_urlencoded kept of Some r \<Rightarrow> r | None \<Rightarrow> [])\<rparr>, files)
              else if mode = Some (JStr ''formdata'') then
                (kept\<lparr>body_mode := Multipart, body_multipart := Some (case body_multipart kept of Some r \<Rightarrow> r | None \<Rightarrow> [])\<rparr>, files)
              else if mode = Some (JStr ''file'') then (kept\<lparr>body_mode := Binary\<rparr>, files)
              else if mode = Some (JStr ''graphql'') then
                (kept\<lparr>body_mode := Graphql,
                   body_graphql := Some (case body_graphql kept of Some g \<Rightarrow> g | None \<Rightarrow> \<lparr>gql_query = [], gql_variables = []\<rparr>)\<rparr>, files)
              else if mode = None \<or> mode = Some JNull \<or> mode = Some (JStr ''none'') then (kept, files)
              else (kept, files @ [''Its body is of a kind the app does not have ('' @ loose_text mode @ '') and is left out.'']))
      | _ \<Rightarrow> (empty_body, []))"

section \<open>The items\<close>

definition MAX_DEPTH :: nat where
  "MAX_DEPTH = 64"

record read_state =
  rs_folders :: "folder list"
  rs_requests :: "request_doc list"
  rs_warnings :: "item_note list"
  rs_examples :: nat
  rs_ids :: nat

record read_context =
  rx_fresh :: "nat \<Rightarrow> string"
  rx_now :: rat
  rx_top :: string

definition new_meta :: "read_context \<Rightarrow> nat \<Rightarrow> meta" where
  "new_meta cx n = \<lparr>meta_id = rx_fresh cx n, meta_created_at = rx_now cx, meta_updated_at = rx_now cx\<rparr>"

definition warned :: "string \<Rightarrow> string list \<Rightarrow> item_note list" where
  "warned item messages = map (Pair item) messages"

definition name_or :: "string \<Rightarrow> string \<Rightarrow> string" where
  "name_or n other = (if n = [] then other else n)"

definition folder_read :: "read_context \<Rightarrow> nat \<Rightarrow> string option \<Rightarrow> nat \<Rightarrow> json \<Rightarrow> folder \<times> item_note list" where
  "folder_read cx n parent order e =
     (let name = name_or (trim (loose_text (member e ''name''))) ''Folder''; item = named ''folder'' name;
          (auth, aw) = auth_read (member e ''auth'') False; (scripts, sw) = scripts_read (member e ''event'')
      in (\<lparr>fol_id = rx_fresh cx n, fol_meta = new_meta cx n, fol_collection_id = rx_top cx, fol_parent = parent, fol_name = name,
           fol_description = description_read (member e ''description''), fol_order = of_nat order, fol_variables = rows_read (member e ''variable''),
           fol_auth = auth, fol_scripts = scripts\<rparr>, warned item (aw @ sw)))"

definition read_settings :: request_settings where
  "read_settings = \<lparr>set_timeout_ms = None, set_follow_redirects = None, set_route = None, set_tls_insecure = False\<rparr>"

definition request_source :: "json \<Rightarrow> json" where
  "request_source e =
     (case member e ''request'' of Some (JObj fs) \<Rightarrow> JObj fs | r \<Rightarrow> present [(''url'', r)])"

definition request_method :: "json \<Rightarrow> string" where
  "request_method source = to_upper (loose_text (or_none (member source ''method'') (Some (JStr ''GET''))))"

text \<open>An item that is no folder: a request, or \<open>None\<close> with what is wrong with it.\<close>

definition request_read :: "read_context \<Rightarrow> nat \<Rightarrow> string option \<Rightarrow> nat \<Rightarrow> json \<Rightarrow> request_doc option \<times> item_note list" where
  "request_read cx n parent order e =
     (let entry_name = trim (loose_text (member e ''name'')); item = named ''request'' (name_or entry_name ''Request'');
          source = request_source e; address = address_read (member source ''url''); method = request_method source;
          (body, bw) = body_read (member source ''body''); (auth, aw) = auth_read (member source ''auth'') False;
          (scripts, sw) = scripts_read (member e ''event'')
      in if trim (ra_url address) = [] then (None, warned item (ra_warnings address @ [''It has no address and is left out.'']))
         else if \<not> is_http_method method
         then (None, warned item (ra_warnings address @ [''Its method ('' @ take 40 method @ '') is not an HTTP method and it is left out.'']))
         else (Some \<lparr>rd_id = rx_fresh cx n, rd_meta = new_meta cx n, rd_collection_id = rx_top cx, rd_folder_id = parent,
               rd_name = name_or entry_name (method @ '' '' @ ra_url address), rd_description = description_read (member source ''description''),
               rd_order = of_nat order,
               rd_content = \<lparr>rc_method = method, rc_url = ra_url address, rc_params = ra_params address,
                 rc_headers = headers_read (member source ''header''), rc_body = body, rc_auth = auth, rc_scripts = scripts, rc_tests = [],
                 rc_settings = read_settings\<rparr>\<rparr>,
             warned item (ra_warnings address @ bw @ aw @ sw)))"

definition saved_responses :: "json \<Rightarrow> nat" where
  "saved_responses e = (case member e ''response'' of Some (JArr xs) \<Rightarrow> length xs | _ \<Rightarrow> 0)"

definition TOO_DEEP :: string where
  "TOO_DEEP = ''The collection's folders are nested more than '' @ show_nat MAX_DEPTH @ '' deep.''"

text \<open>\<open>walk\<close>: the entries of a list from the place \<open>order\<close> on, in the folder \<open>parent\<close>.\<close>

function walk_entries :: "read_context \<Rightarrow> nat \<Rightarrow> string option \<Rightarrow> nat \<Rightarrow> json list \<Rightarrow> read_state \<Rightarrow> string + read_state" where
  "walk_entries cx depth parent order [] st = Inr st"
| "walk_entries cx depth parent order (e # es) st =
     (let n = rs_ids st
      in if is_list (member e ''item'') then
           (let (f, ws) = folder_read cx n parent order e;
                st1 = st\<lparr>rs_folders := rs_folders st @ [f], rs_warnings := rs_warnings st @ ws, rs_ids := n + 1\<rparr>
            in if MAX_DEPTH \<le> depth then Inl TOO_DEEP
               else case walk_entries cx (depth + 1) (Some (fol_id f)) 0 (loose_objects (member e ''item'')) st1 of
                      Inl err \<Rightarrow> Inl err
                    | Inr st2 \<Rightarrow> walk_entries cx depth parent (order + 1) es st2)
         else
           (let (r, ws) = request_read cx n parent order e;
                st1 = st\<lparr>rs_warnings := rs_warnings st @ ws, rs_examples := rs_examples st + saved_responses e, rs_ids := n + 1\<rparr>
            in case r of
                 None \<Rightarrow> walk_entries cx depth parent order es st1
               | Some d \<Rightarrow> walk_entries cx depth parent (order + 1) es (st1\<lparr>rs_requests := rs_requests st1 @ [d]\<rparr>)))"
  by pat_completeness auto
termination
  by (relation "measures [\<lambda>(cx, depth, p, k, es, st). MAX_DEPTH - depth, \<lambda>(cx, depth, p, k, es, st). length es]") auto

definition examples_warning :: "string \<Rightarrow> nat \<Rightarrow> item_note list" where
  "examples_warning item n =
     (if n = 0 then []
      else [(item, show_nat n @ '' saved '' @ (if n = 1 then ''response is'' else ''responses are'') @
        '' left out: the app keeps responses in its history, not in a collection.'')])"

definition info_field :: "json \<Rightarrow> string \<Rightarrow> json option" where
  "info_field v k = (if is_object_value (member v ''info'') then own_field (member v ''info'') k else member v k)"

definition postman_collection_read :: "(nat \<Rightarrow> string) \<Rightarrow> rat \<Rightarrow> json \<Rightarrow> string + (collection_tree \<times> item_note list)" where
  "postman_collection_read fresh now v =
     (if \<not> is_obj_json v then Inl ''The file is not a Postman collection.''
      else
        (let cx = \<lparr>rx_fresh = fresh, rx_now = now, rx_top = fresh 0\<rparr>;
             name = name_or (trim (loose_text (info_field v ''name''))) ''Imported from Postman''; item = named ''collection'' name
         in case walk_entries cx 0 None 0 (loose_objects (member v ''item''))
              \<lparr>rs_folders = [], rs_requests = [], rs_warnings = [], rs_examples = 0, rs_ids = 1\<rparr> of
              Inl err \<Rightarrow> Inl err
            | Inr st \<Rightarrow>
                (let (auth, aw) = auth_read (member v ''auth'') True; (scripts, sw) = scripts_read (member v ''event'')
                 in Inr (\<lparr>tree_collection = \<lparr>col_id = fresh 0, col_meta = new_meta cx 0, col_name = name,
                       col_description = description_read (info_field v ''description''), col_order = 0,
                       col_variables = rows_read (member v ''variable''), col_auth = auth, col_scripts = scripts, col_route = None,
                       col_script_trust = \<lparr>trusted = False, approved = None\<rparr>\<rparr>,
                     tree_folders = rs_folders st, tree_requests = rs_requests st\<rparr>,
                   rs_warnings st @ examples_warning item (rs_examples st) @ warned item (aw @ sw)))))"

section \<open>An environment\<close>

definition is_globals :: "json \<Rightarrow> bool" where
  "is_globals v \<longleftrightarrow> (case v of JArr _ \<Rightarrow> True | _ \<Rightarrow> member v ''_postman_variable_scope'' = Some (JStr ''globals''))"

definition environment_row_read :: "json \<Rightarrow> row" where
  "environment_row_read e =
     plain_row (loose_text (member e ''key'')) (loose_text (member e ''value''))
       (member e ''enabled'' \<noteq> Some (JBool False) \<and> \<not> switched_off e)"

definition postman_environment_read :: "(nat \<Rightarrow> string) \<Rightarrow> rat \<Rightarrow> json \<Rightarrow> environment_doc \<times> item_note list" where
  "postman_environment_read fresh now v =
     (let name = name_or (if is_obj_json v then trim (loose_text (member v ''name'')) else [])
            (if is_globals v then ''Postman globals'' else ''Imported from Postman'')
      in (\<lparr>env_id = fresh 0, env_meta = \<lparr>meta_id = fresh 0, meta_created_at = now, meta_updated_at = now\<rparr>, env_name = name,
           env_description = None, env_vars = map environment_row_read (loose_objects (if is_obj_json v then member v ''values'' else Some v)),
           env_order = 0\<rparr>,
          if is_globals v
          then [(named ''environment'' name,
            ''Postman's globals are imported as an environment: choose it as the active environment, or copy what you need into the app's globals.'')]
          else []))"
section \<open>A request read as it was written\<close>

lemma own_field_member [simp]: "own_field (Some v) k = member v k" "own_field None k = None"
  by (simp_all add: own_field_def member_def split: json.split)

lemma object_simps [simp]:
  "is_object_value (Some (JObj fs))" "\<not> is_object_value None" "\<not> is_object_value (Some (JStr s))" "\<not> is_object_value (Some (JArr xs))"
  "is_list (Some (JArr xs))" "\<not> is_list None" "\<not> is_list (Some (JObj fs))" "\<not> is_list (Some (JStr s))"
  by (simp_all add: is_object_value_def is_list_def)

lemma is_object_present [simp]: "is_object_value (Some (present es))" "is_obj_json (present es)"
  by (simp_all add: present_def)

lemma member_object [simp]: "member (JObj fs) k = om_get fs k"
  by (simp add: member_def)

lemma row_read_entry [simp]: "row_read (row_entry kind r) = bare_row r"
  by (simp add: row_read_def row_entry_def member_present text_field_def or_none_def switched_off_def bare_row_def)

lemma rows_read_entry [simp]: "rows_read (Some (rows_entry kind rs)) = map bare_row rs"
proof -
  have "filter is_obj_json (map (row_entry kind) rs) = map (row_entry kind) rs" by (simp add: filter_id_conv row_entry_def)
  then show ?thesis by (simp add: rows_read_def rows_entry_def loose_objects_def comp_def)
qed

lemma headers_read_entry [simp]: "headers_read (Some (rows_entry kind rs)) = map bare_row rs"
  using rows_read_entry [of kind rs] by (simp add: headers_read_def rows_entry_def)

lemma rows_entry_list [simp]: "is_list (Some (rows_entry kind rs))"
  by (simp add: rows_entry_def)

subsection \<open>Its auth\<close>

fun postman_auth :: "auth_config \<Rightarrow> auth_config" where
  "postman_auth (OAuth2 a) = OAuth2 (a\<lparr>oa_retry_on_401 := False\<rparr>)"
| "postman_auth a = a"

lemma auth_field_written:
  "auth_field_read (Some (JArr (map auth_entry_field fs))) name = (case map_of fs name of Some v \<Rightarrow> v | None \<Rightarrow> [])"
proof -
  have "filter is_obj_json (map auth_entry_field fs) = map auth_entry_field fs" by (auto simp: filter_id_conv auth_entry_field_def)
  moreover have "(case List.find (\<lambda>e. member e ''key'' = Some (JStr name)) (map auth_entry_field fs) of
      Some e \<Rightarrow> loose_text (member e ''value'') | None \<Rightarrow> []) = (case map_of fs name of Some v \<Rightarrow> v | None \<Rightarrow> [])"
    by (induction fs) (auto simp: auth_entry_field_def om_get_def)
  ultimately show ?thesis by (simp add: auth_field_read_def)
qed

lemma auth_read_entry: "auth_read (auth_entry a) False = (postman_auth a, [])"
proof (cases a)
  case (OAuth2 x)
  have "om_get OAUTH_GRANTS_OF (postman_grant (oa_grant x)) = Some (oa_grant x)"
    by (cases "oa_grant x") (simp_all add: OAUTH_GRANTS_OF_def om_get_def)
  moreover have "(if client_auth_name (oa_client_auth x) = ''body'' then ClientBody else ClientHeader) = oa_client_auth x"
    by (cases "oa_client_auth x") simp_all
  ultimately show ?thesis
    by (simp add: OAuth2 auth_read_def typed_auth_def om_get_def Let_def auth_field_written oauth2_read_def del: list.map)
next
  case (ApiKey k v i)
  then show ?thesis by (cases i) (simp_all add: auth_read_def typed_auth_def om_get_def Let_def auth_field_written del: list.map)
qed (simp_all add: auth_read_def typed_auth_def om_get_def Let_def auth_field_written del: list.map)

subsection \<open>Its scripts\<close>

lemma script_text_event [simp]: "script_text (script_event listen source) = source"
proof -
  have "join [CHR 0x0A] (map (\<lambda>l. loose_text (Some l)) (map JStr (split_on (CHR 0x0A) source))) = source"
    by (simp add: comp_def)
  then show ?thesis by (simp add: script_text_def script_event_def om_get_def texts_json_def)
qed

lemma event_fields [simp]:
  "member (script_event listen source) ''listen'' = Some (JStr listen)" "\<not> switched_off (script_event listen source)"
  "is_obj_json (script_event listen source)"
  by (simp_all add: script_event_def om_get_def switched_off_def)

lemma scripts_read_entry [simp]: "scripts_read (events_entry s) = (s, [])"
  by (cases "script_pre s = []"; cases "script_post s = []")
     (simp_all add: events_entry_def scripts_read_def loose_objects_def scripts_for_def)

subsection \<open>Its body\<close>

fun nameless_part :: "multipart_part \<Rightarrow> multipart_part" where
  "nameless_part (FilePart k e f) = FilePart k e (f\<lparr>file_id := []\<rparr>)"
| "nameless_part p = p"

text \<open>What the format keeps of a body: files by their names, and a part that is sent even when it was never filled in.\<close>

definition postman_body :: "request_body \<Rightarrow> request_body" where
  "postman_body b =
     \<lparr>body_mode = body_mode b,
      body_raw = (if body_mode b = Raw \<and> body_raw b = None then Some \<lparr>raw_language = Text, raw_text = []\<rparr> else body_raw b),
      body_urlencoded = (if body_mode b = Urlencoded \<and> body_urlencoded b = None then Some [] else map_option (map bare_row) (body_urlencoded b)),
      body_multipart = (if body_mode b = Multipart \<and> body_multipart b = None then Some [] else map_option (map nameless_part) (body_multipart b)),
      body_binary = map_option (\<lambda>f. \<lparr>bin_file = (bin_file f)\<lparr>file_id := []\<rparr>, bin_content_type = None\<rparr>) (body_binary b),
      body_graphql = (if body_mode b = Graphql \<and> body_graphql b = None then Some \<lparr>gql_query = [], gql_variables = []\<rparr> else body_graphql b)\<rparr>"

lemma language_read_name [simp]: "language_read (language_name l) = l"
  by (cases l) (simp_all add: language_read_def)

lemma part_read_entry [simp]: "part_read (part_entry p) = nameless_part p"
  by (cases p) (simp_all add: part_read_def member_present text_field_def switched_off_def file_of_body_def)

lemma parts_read_entry [simp]: "loose_objects (Some (JArr (map part_entry ps))) = map part_entry ps"
proof -
  have "is_obj_json (part_entry p)" for p by (cases p) simp_all
  then show ?thesis by (simp add: loose_objects_def filter_id_conv)
qed

lemma names_file_nameless:
  "list_ex (\<lambda>p. case p of FilePart _ _ _ \<Rightarrow> True | _ \<Rightarrow> False) (map nameless_part ps) = list_ex (\<lambda>p. case p of FilePart _ _ _ \<Rightarrow> True | _ \<Rightarrow> False) ps"
proof (induction ps)
  case (Cons p ps)
  then show ?case by (cases p) simp_all
qed simp

definition file_warning :: "request_body \<Rightarrow> string list" where
  "file_warning b = (if names_file b then [''A file of its body is named, not included: choose it again in the Body tab.''] else [])"

definition body_parts_entry :: "request_body \<Rightarrow> (string \<times> json option) list" where
  "body_parts_entry b =
     [(''mode'', map_option JStr (postman_mode (body_mode b))), (''raw'', map_option (JStr \<circ> raw_text) (body_raw b)),
      (''options'', map_option (\<lambda>r. JObj [(''raw'', JObj [(''language'', JStr (language_name (raw_language r)))])]) (body_raw b)),
      (''urlencoded'', map_option (rows_entry (Some ''text'')) (body_urlencoded b)),
      (''formdata'', map_option (JArr \<circ> map part_entry) (body_multipart b)),
      (''file'', map_option (\<lambda>f. JObj [(''src'', JStr (file_name (bin_file f)))]) (body_binary b)),
      (''graphql'', map_option (\<lambda>g. JObj [(''query'', JStr (gql_query g)), (''variables'', JStr (gql_variables g))]) (body_graphql b))]"

lemma body_entry_parts: "body_entry b = (if present (body_parts_entry b) = JObj [] then None else Some (present (body_parts_entry b)))"
  by (simp add: body_entry_def body_parts_entry_def)

lemma kept_body_entry:
  "kept_body (present (body_parts_entry b)) =
     \<lparr>body_mode = NoBody, body_raw = body_raw b, body_urlencoded = map_option (map bare_row) (body_urlencoded b),
      body_multipart = map_option (map nameless_part) (body_multipart b),
      body_binary = map_option (\<lambda>f. \<lparr>bin_file = (bin_file f)\<lparr>file_id := []\<rparr>, bin_content_type = None\<rparr>) (body_binary b),
      body_graphql = body_graphql b\<rparr>"
proof -
  have "body_raw (kept_body (present (body_parts_entry b))) = body_raw b"
    by (cases "body_raw b") (simp_all add: kept_body_def body_parts_entry_def member_present om_get_def)
  moreover have "body_urlencoded (kept_body (present (body_parts_entry b))) = map_option (map bare_row) (body_urlencoded b)"
    by (cases "body_urlencoded b") (simp_all add: kept_body_def body_parts_entry_def member_present)
  moreover have "body_multipart (kept_body (present (body_parts_entry b))) = map_option (map nameless_part) (body_multipart b)"
    by (cases "body_multipart b") (simp_all add: kept_body_def body_parts_entry_def member_present comp_def)
  moreover have "body_binary (kept_body (present (body_parts_entry b))) =
      map_option (\<lambda>f. \<lparr>bin_file = (bin_file f)\<lparr>file_id := []\<rparr>, bin_content_type = None\<rparr>) (body_binary b)"
    by (cases "body_binary b") (simp_all add: kept_body_def body_parts_entry_def member_present om_get_def file_of_body_def)
  moreover have "body_graphql (kept_body (present (body_parts_entry b))) = body_graphql b"
    by (cases "body_graphql b") (simp_all add: kept_body_def body_parts_entry_def member_present om_get_def)
  moreover have "body_mode (kept_body (present (body_parts_entry b))) = NoBody" by (simp add: kept_body_def)
  ultimately show ?thesis by (cases "kept_body (present (body_parts_entry b))") simp
qed

lemma body_read_entry: "body_read (body_entry b) = (postman_body b, file_warning b)"
proof (cases "present (body_parts_entry b) = JObj []")
  case True
  have none: "member (present (body_parts_entry b)) k = None" for k using True by (simp add: om_get_def)
  have "postman_mode (body_mode b) = None" using none [of "''mode''"] by (simp add: body_parts_entry_def member_present)
  then have "body_mode b = NoBody" by (cases "body_mode b") simp_all
  moreover have "body_raw b = None" using none [of "''raw''"] by (simp add: body_parts_entry_def member_present)
  moreover have "body_urlencoded b = None" using none [of "''urlencoded''"] by (simp add: body_parts_entry_def member_present)
  moreover have "body_multipart b = None" using none [of "''formdata''"] by (simp add: body_parts_entry_def member_present)
  moreover have "body_binary b = None" using none [of "''file''"] by (simp add: body_parts_entry_def member_present)
  moreover have "body_graphql b = None" using none [of "''graphql''"] by (simp add: body_parts_entry_def member_present)
  ultimately show ?thesis
    using True by (simp add: body_entry_parts body_read_def postman_body_def empty_body_def file_warning_def names_file_def)
next
  case False
  let ?v = "present (body_parts_entry b)"
  obtain fs where v: "?v = JObj fs" by (simp add: present_def)
  have off: "\<not> switched_off ?v" by (simp add: switched_off_def body_parts_entry_def member_present)
  have mode: "member ?v ''mode'' = map_option JStr (postman_mode (body_mode b))" by (simp add: body_parts_entry_def member_present)
  have lang: "body_raw b = None \<Longrightarrow> member ?v ''options'' = None" by (simp add: body_parts_entry_def member_present)
  have files: "names_file (kept_body ?v) = names_file b"
    by (cases "body_multipart b") (simp_all add: kept_body_entry names_file_def names_file_nameless)
  have "body_read (Some ?v) = (postman_body b, file_warning b)"
    using off mode files lang
    unfolding body_read_def v option.case json.case
    unfolding v [symmetric] Let_def kept_body_entry
    by (cases "body_mode b") (auto simp: postman_body_def file_warning_def kept_body_entry language_read_def split: option.splits)
  then show ?thesis using False by (simp add: body_entry_parts)
qed

subsection \<open>The whole request\<close>

definition postman_content :: "request_content \<Rightarrow> request_content" where
  "postman_content r =
     \<lparr>rc_method = rc_method r, rc_url = rc_url r, rc_params = map bare_row (rc_params r), rc_headers = map bare_row (typed_headers r),
      rc_body = postman_body (rc_body r), rc_auth = postman_auth (rc_auth r), rc_scripts = rc_scripts r, rc_tests = [],
      rc_settings = read_settings\<rparr>"

definition postman_request :: "read_context \<Rightarrow> nat \<Rightarrow> string option \<Rightarrow> nat \<Rightarrow> request_doc \<Rightarrow> request_doc" where
  "postman_request cx n parent order d =
     \<lparr>rd_id = rx_fresh cx n, rd_meta = new_meta cx n, rd_collection_id = rx_top cx, rd_folder_id = parent,
      rd_name = name_or (trim (rd_name d)) (rc_method (rd_content d) @ '' '' @ rc_url (rd_content d)),
      rd_description = (if rd_description d = Some [] then None else rd_description d), rd_order = of_nat order,
      rd_content = postman_content (rd_content d)\<rparr>"

definition request_travels :: "request_content \<Rightarrow> bool" where
  "request_travels r \<longleftrightarrow> is_http_method (rc_method r) \<and> trim (rc_url r) \<noteq> [] \<and> rows_mirror (rc_params r) (rc_url r)"

lemma url_entry_variables: "ra_warnings (address_read (Some (url_entry raw params))) = []"
proof -
  obtain fs where v: "url_entry raw params = JObj fs" by (simp add: url_entry_def Let_def present_def)
  have "map snd (map (path_segment []) ps) = replicate (length ps) Ordinary" for ps
    by (induction ps) (simp_all add: path_segment_def)
  moreover have "path_warnings (replicate n Ordinary) = []" for n
    by (induction n) (simp_all add: path_warnings_def replaced_parts_def named_parts_def List.map_filter_def)
  moreover have "path_warnings [] = []" by (simp add: path_warnings_def replaced_parts_def named_parts_def List.map_filter_def)
  ultimately have "path_warnings (snd (address_of_parts (url_entry raw params) h)) = []" for h
    by (simp add: address_of_parts_def Let_def url_entry_fields(6) loose_objects_def)
  moreover have "member (JObj fs) ''host'' \<noteq> None" using url_entry_fields(1) [of raw params] v by simp
  ultimately show ?thesis by (auto simp: v address_read_def Let_def case_prod_unfold simp del: member_object)
qed

definition sent_request :: "request_doc \<Rightarrow> (string \<times> json option) list" where
  "sent_request d =
     [(''method'', text_field (rc_method (rd_content d))), (''header'', Some (rows_entry None (typed_headers (rd_content d)))),
      (''body'', body_entry (rc_body (rd_content d))), (''url'', Some (url_entry (rc_url (rd_content d)) (rc_params (rd_content d)))),
      (''auth'', auth_entry (rc_auth (rd_content d))), (''description'', filled_text (rd_description d))]"

lemma request_entry_fields:
  "member (request_entry d) ''name'' = Some (JStr (rd_name d))" "request_source (request_entry d) = present (sent_request d)"
  "member (request_entry d) ''event'' = events_entry (rc_scripts (rd_content d))" "member (request_entry d) ''item'' = None"
  "saved_responses (request_entry d) = 0"
proof -
  have "member (request_entry d) ''request'' = Some (present (sent_request d))"
    by (simp add: request_entry_def Let_def member_present sent_request_def)
  then show "request_source (request_entry d) = present (sent_request d)" by (simp add: request_source_def present_def)
qed (simp_all add: request_entry_def Let_def member_present text_field_def saved_responses_def)

lemma description_read_filled: "description_read (filled_text t) = (if t = Some [] then None else t)"
  by (simp add: filled_text_def description_read_def split: option.split)

text \<open>
  A request exported to Postman and read back is the request, with its method, its address, its rows, its scripts and its auth
  as they were; a file its body names is named again, and nothing else is warned of.
\<close>

lemma request_round_trip:
  assumes "request_travels (rd_content d)"
  shows "request_read cx n parent order (request_entry d) =
    (Some (postman_request cx n parent order d),
     warned (named ''request'' (name_or (trim (rd_name d)) ''Request'')) (file_warning (rc_body (rd_content d))))"
proof -
  let ?r = "rd_content d"
  have fields: "member (present (sent_request d)) ''url'' = Some (url_entry (rc_url ?r) (rc_params ?r))"
    "member (present (sent_request d)) ''method'' = Some (JStr (rc_method ?r))" "member (present (sent_request d)) ''body'' = body_entry (rc_body ?r)"
    "member (present (sent_request d)) ''auth'' = auth_entry (rc_auth ?r)"
    "member (present (sent_request d)) ''header'' = Some (rows_entry None (typed_headers ?r))"
    "member (present (sent_request d)) ''description'' = filled_text (rd_description d)"
    by (simp_all add: sent_request_def member_present text_field_def)
  have verb: "request_method (present (sent_request d)) = rc_method ?r"
    using assms to_upper_upper by (simp add: request_method_def fields or_none_def request_travels_def is_http_method_def)
  have url: "ra_url (address_read (Some (url_entry (rc_url ?r) (rc_params ?r)))) = rc_url ?r"
    by (rule address_round_trip)
  have params: "ra_params (address_read (Some (url_entry (rc_url ?r) (rc_params ?r)))) = map bare_row (rc_params ?r)"
    using assms by (intro postman_rows_round_trip) (simp add: request_travels_def)
  show ?thesis
    using assms
    unfolding request_read_def request_entry_fields fields verb Let_def body_read_entry auth_read_entry scripts_read_entry case_prod_conv
      url params url_entry_variables headers_read_entry description_read_filled
    by (simp add: request_travels_def postman_request_def postman_content_def)
qed

end
