(* ===== verification/Resolver.thy ===== *)
theory Resolver
  imports Variables
begin

text \<open>
  \<open>packages/core/src/variables/resolver.ts\<close>: the replacement of \<open>{{name}}\<close> in a text by the
  variable's value. A text is read once into pieces (\<open>pieces\<close>); the resolver walks the pieces,
  and the values of the variables it finds, with the sets it keeps about the whole request as
  an explicit state. A throw of \<open>VariableNestingError\<close> is \<open>Inl\<close> of its chain; the state is what
  was recorded until then, as the source's sets keep it.

  The vault (\<open>rs_secret\<close>) and the values of the dynamic variables (\<open>rs_fresh\<close>, which the
  platform draws from its clock and its random numbers, one for each use) are parameters.
\<close>

datatype variable_scope = Local | Data | Environment | Folder | Collection | Global

definition VARIABLE_SCOPES :: "variable_scope list" where
  "VARIABLE_SCOPES = [Local, Data, Environment, Folder, Collection, Global]"

type_synonym scope_stack = "variable_scope \<Rightarrow> row list"

definition MAX_VARIABLE_DEPTH :: nat where
  "MAX_VARIABLE_DEPTH = 10"

section \<open>Random numbers below a limit\<close>

text \<open>\<open>Math.ceil(Math.log2(limit))\<close>: the fewest bits that hold \<open>limit\<close> values.\<close>

fun ceil_log2 :: "nat \<Rightarrow> nat" where
  "ceil_log2 n = (if n \<le> 1 then 0 else Suc (ceil_log2 ((n + 1) div 2)))"

declare ceil_log2.simps [simp del]

definition random_mask :: "nat \<Rightarrow> nat" where
  "random_mask limit = 2 ^ ceil_log2 limit - 1"

text \<open>
  The draws the platform gives, one after the other; \<open>None\<close> when none of them was in range.
  Masking with all ones keeps the low bits.
\<close>

fun random_below :: "nat \<Rightarrow> nat list \<Rightarrow> nat option" where
  "random_below limit [] = None"
| "random_below limit (d # ds) =
     (let m = d mod (random_mask limit + 1) in if m < limit then Some m else random_below limit ds)"

lemma ceil_log2_bounds: "0 < n \<Longrightarrow> n \<le> 2 ^ ceil_log2 n \<and> (1 < n \<longrightarrow> 2 ^ (ceil_log2 n - 1) < n)"
proof (induction n rule: ceil_log2.induct)
  case (1 n)
  show ?case
  proof (cases "n \<le> 1")
    case True
    with "1.prems" show ?thesis by (simp add: ceil_log2.simps [of n])
  next
    case False
    let ?m = "(n + 1) div 2"
    have IH: "?m \<le> 2 ^ ceil_log2 ?m" "1 < ?m \<Longrightarrow> 2 ^ (ceil_log2 ?m - 1) < ?m"
      using "1.IH" False by auto
    have "n \<le> 2 * ?m" by linarith
    also have "\<dots> \<le> 2 ^ ceil_log2 n" using IH(1) False by (simp add: ceil_log2.simps [of n])
    finally have le: "n \<le> 2 ^ ceil_log2 n" .
    have "2 ^ ceil_log2 ?m < n"
    proof (cases "1 < ?m")
      case True
      then have pos: "0 < ceil_log2 ?m" by (subst ceil_log2.simps) simp
      have "2 ^ ceil_log2 ?m = 2 * (2 ^ (ceil_log2 ?m - 1) :: nat)"
        using pos by (cases "ceil_log2 ?m") auto
      also have "\<dots> \<le> 2 * (?m - 1)" using IH(2) [OF True] by simp
      also have "\<dots> < n" using True by linarith
      finally show ?thesis .
    next
      case False2: False
      then have "?m = 1" using False by linarith
      with False show ?thesis by (simp add: ceil_log2.simps [of 1] ceil_log2.simps [of "Suc 0"])
    qed
    with le False show ?thesis by (simp add: ceil_log2.simps [of n])
  qed
qed

lemma random_below_less: "random_below limit ds = Some n \<Longrightarrow> n < limit"
  by (induction ds) (auto simp: Let_def split: if_splits)

section \<open>Placeholders\<close>

definition no_brace :: "char \<Rightarrow> bool" where
  "no_brace c \<longleftrightarrow> c \<noteq> CHR ''{'' \<and> c \<noteq> CHR ''}''"

text \<open>\<open>/{{([^{}]*)}}/\<close> at the start of a text: what is inside, and what follows.\<close>

definition match_placeholder :: "string \<Rightarrow> (string \<times> string) option" where
  "match_placeholder s =
     (if starts_with s ''{{'' then
        (let (inside, r) = span_of no_brace (drop 2 s)
         in if starts_with r ''}}'' then Some (inside, drop 2 r) else None)
      else None)"

datatype piece = Lit char | Hole string

lemma match_placeholder_parts:
  assumes "match_placeholder s = Some (i, r)"
  shows "s = ''{{'' @ i @ ''}}'' @ r \<and> list_all no_brace i"
proof -
  have s: "s = ''{{'' @ drop 2 s"
    using assms by (auto simp: match_placeholder_def starts_with_prefix prefix_def split: if_splits)
  have i: "i = takeWhile no_brace (drop 2 s)" and e: "starts_with (dropWhile no_brace (drop 2 s)) ''}}''"
    and r: "r = drop 2 (dropWhile no_brace (drop 2 s))"
    using assms by (auto simp: match_placeholder_def span_of_def split: if_splits)
  have "dropWhile no_brace (drop 2 s) = ''}}'' @ r"
    using e r by (auto simp: starts_with_prefix prefix_def)
  then have "drop 2 s = i @ ''}}'' @ r"
    using i by (metis takeWhile_dropWhile_id)
  moreover have "list_all no_brace i" unfolding i by (auto simp: list_all_iff dest: set_takeWhileD)
  ultimately show ?thesis using s by simp
qed

lemma match_placeholder_shorter: "match_placeholder s = Some (i, r) \<Longrightarrow> length r < length s"
  by (drule match_placeholder_parts) auto

text \<open>The matches of the expression in a text, from left to right, and the characters between.\<close>

function pieces :: "string \<Rightarrow> piece list" where
  "pieces [] = []"
| "pieces (c # cs) =
     (case match_placeholder (c # cs) of
        Some (inside, rest) \<Rightarrow> Hole inside # pieces rest
      | None \<Rightarrow> Lit c # pieces cs)"
  by pat_completeness auto
termination
  by (relation "measure length") (auto dest: match_placeholder_shorter)

definition written :: "string \<Rightarrow> string" where
  "written inside = ''{{'' @ inside @ ''}}''"

text \<open>\<open>/^\$?[\w.-]+$/\<close>\<close>

definition is_name_char :: "char \<Rightarrow> bool" where
  "is_name_char c \<longleftrightarrow> is_word c \<or> c = CHR ''.'' \<or> c = CHR ''-''"

definition plain_name :: "string \<Rightarrow> bool" where
  "plain_name s =
     (let t = (case s of c # cs \<Rightarrow> if c = CHR ''$'' then cs else s | [] \<Rightarrow> [])
      in t \<noteq> [] \<and> list_all is_name_char t)"

definition SECRET_PREFIX :: string where
  "SECRET_PREFIX = ''$secret.''"

definition DYNAMIC :: "string list" where
  "DYNAMIC = [''$guid'', ''$randomUUID'', ''$timestamp'', ''$isoTimestamp'', ''$randomInt'', ''$randomAlphaNumeric'']"

lemma match_placeholder_written: "match_placeholder s = Some (i, r) \<Longrightarrow> s = written i @ r"
  by (drule match_placeholder_parts) (simp add: written_def)

fun unpiece :: "piece \<Rightarrow> string" where
  "unpiece (Lit c) = [c]"
| "unpiece (Hole i) = written i"

lemma unpieces: "concat (map unpiece (pieces s)) = s"
  by (induction s rule: pieces.induct)
    (auto dest: match_placeholder_written split: option.splits)

lemma pieces_no_brace: "CHR ''{'' \<notin> set s \<Longrightarrow> pieces s = map Lit s"
  by (induction s) (auto simp: match_placeholder_def starts_with_def)

section \<open>The resolver\<close>

record resolver =
  rs_scopes :: "(variable_scope \<times> (string \<times> string) list) list"
  rs_secret :: "string \<Rightarrow> string option"
  rs_fresh :: "string \<Rightarrow> nat \<Rightarrow> string"

text \<open>What is recorded about the request; \<open>st_draws\<close> counts the dynamic values drawn.\<close>

record resolver_state =
  st_taint :: "string list"
  st_unresolved :: "string list"
  st_locked :: "string list"
  st_vaulted :: "(string \<times> variable_scope option) list"
  st_draws :: nat

definition start_state :: resolver_state where
  "start_state = \<lparr>st_taint = [], st_unresolved = [], st_locked = [], st_vaulted = [], st_draws = 0\<rparr>"

definition new_resolver ::
    "scope_stack \<Rightarrow> (string \<Rightarrow> string option) \<Rightarrow> (string \<Rightarrow> nat \<Rightarrow> string) \<Rightarrow> resolver" where
  "new_resolver stack secret fresh =
     \<lparr>rs_scopes = map (\<lambda>s. (s, variables_by_name (stack s))) VARIABLE_SCOPES,
      rs_secret = secret, rs_fresh = fresh\<rparr>"

fun find_in :: "(variable_scope \<times> (string \<times> string) list) list \<Rightarrow> string \<Rightarrow> (variable_scope \<times> string) option" where
  "find_in [] name = None"
| "find_in ((s, vars) # rest) name =
     (case om_get vars name of Some v \<Rightarrow> Some (s, v) | None \<Rightarrow> find_in rest name)"

definition find_variable :: "resolver \<Rightarrow> string \<Rightarrow> (variable_scope \<times> string) option" where
  "find_variable r name = find_in (rs_scopes r) name"

text \<open>The part of \<open>expand\<close> that asks the vault.\<close>

definition secret_hole ::
    "resolver \<Rightarrow> string list \<Rightarrow> string \<Rightarrow> string \<Rightarrow> resolver_state \<Rightarrow> string \<times> resolver_state" where
  "secret_hole r chain name w st =
     (let i = drop (length SECRET_PREFIX) name
      in case rs_secret r i of
           None \<Rightarrow> (w, st\<lparr>st_locked := set_add i (st_locked st)\<rparr>)
         | Some plaintext \<Rightarrow>
             (let holder = (if chain = [] then None else Some (last chain));
                  scope = (case holder of None \<Rightarrow> None | Some h \<Rightarrow> map_option fst (find_variable r h))
              in (plaintext,
                  st\<lparr>st_taint := set_add plaintext (st_taint st),
                     st_vaulted := om_set (case holder of None \<Rightarrow> w | Some h \<Rightarrow> h) scope (st_vaulted st)\<rparr>)))"

definition unresolved_hole :: "string \<Rightarrow> string \<Rightarrow> resolver_state \<Rightarrow> string \<times> resolver_state" where
  "unresolved_hole name w st =
     (w, if plain_name name then st\<lparr>st_unresolved := set_add name (st_unresolved st)\<rparr> else st)"

text \<open>
  \<open>expand\<close>. The chain is the variables whose values led to these pieces; the guard on its length
  is what ends the recursion through the values. \<open>expand_hole\<close> is the function given to
  \<open>replace\<close>.
\<close>

function expand :: "resolver \<Rightarrow> string list \<Rightarrow> piece list \<Rightarrow> resolver_state \<Rightarrow> (string list + string) \<times> resolver_state"
  and expand_hole :: "resolver \<Rightarrow> string list \<Rightarrow> string \<Rightarrow> resolver_state \<Rightarrow> (string list + string) \<times> resolver_state"
where
  "expand r chain [] st = (Inr [], st)"
| "expand r chain (Lit c # ps) st =
     (case expand r chain ps st of
        (Inl e, st') \<Rightarrow> (Inl e, st')
      | (Inr u, st') \<Rightarrow> (Inr (c # u), st'))"
| "expand r chain (Hole inside # ps) st =
     (case expand_hole r chain inside st of
        (Inl e, st') \<Rightarrow> (Inl e, st')
      | (Inr t, st') \<Rightarrow>
          (case expand r chain ps st' of
             (Inl e, st'') \<Rightarrow> (Inl e, st'')
           | (Inr u, st'') \<Rightarrow> (Inr (t @ u), st'')))"
| "expand_hole r chain inside st =
     (let name = trim inside; w = written inside
      in if starts_with name SECRET_PREFIX then apfst Inr (secret_hole r chain name w st)
         else if name \<in> set DYNAMIC then
           (Inr (rs_fresh r name (st_draws st)), st\<lparr>st_draws := Suc (st_draws st)\<rparr>)
         else
           (case find_variable r name of
              None \<Rightarrow> apfst Inr (unresolved_hole name w st)
            | Some (scope, value) \<Rightarrow>
                if name \<in> set chain \<or> length chain \<ge> MAX_VARIABLE_DEPTH then (Inl (chain @ [name]), st)
                else expand r (chain @ [name]) (pieces value) st))"
  by pat_completeness auto
termination
  by (relation "measures [\<lambda>x. MAX_VARIABLE_DEPTH - (case x of Inl (r, chain, ps, st) \<Rightarrow> length chain
        | Inr (r, chain, i, st) \<Rightarrow> length chain),
      \<lambda>x. case x of Inl (r, chain, ps, st) \<Rightarrow> length ps | Inr _ \<Rightarrow> 0]") auto

lemma find_variable_secret [simp]: "find_variable (r\<lparr>rs_secret := s\<rparr>) n = find_variable r n"
  by (simp add: find_variable_def)

lemma apfst_pair [simp]: "apfst f p = (f (fst p), snd p)"
  by (cases p) simp

definition failure :: "('e + 'a) \<times> 's \<Rightarrow> 'e option" where
  "failure x = (case fst x of Inl e \<Rightarrow> Some e | Inr _ \<Rightarrow> None)"

lemma failure_simps [simp]: "failure (Inl e, st) = Some e" "failure (Inr t, st) = None"
  by (simp_all add: failure_def)

lemma failure_expand:
  "failure (expand r chain (Lit c # ps) st) = failure (expand r chain ps st)"
  "failure (expand r chain (Hole i # ps) st) =
     (case failure (expand_hole r chain i st) of Some e \<Rightarrow> Some e
      | None \<Rightarrow> failure (expand r chain ps (snd (expand_hole r chain i st))))"
  by (auto simp: failure_def split: prod.splits sum.splits)

lemma failure_expand_hole:
  "failure (expand_hole r chain i st) =
     (let name = trim i in
      if starts_with name SECRET_PREFIX \<or> name \<in> set DYNAMIC then None
      else case find_variable r name of None \<Rightarrow> None
           | Some (scope, value) \<Rightarrow>
               if name \<in> set chain \<or> length chain \<ge> MAX_VARIABLE_DEPTH then Some (chain @ [name])
               else failure (expand r (chain @ [name]) (pieces value) st))"
  by (auto simp: Let_def split: option.splits)

lemma snd_expand:
  "snd (expand r chain (Lit c # ps) st) = snd (expand r chain ps st)"
  "snd (expand r chain (Hole i # ps) st) =
     (if failure (expand_hole r chain i st) = None
      then snd (expand r chain ps (snd (expand_hole r chain i st))) else snd (expand_hole r chain i st))"
  by (auto simp: failure_def split: prod.splits sum.splits)

declare expand.simps [simp del] expand_hole.simps [simp del]

lemma expand_Nil [simp]: "expand r chain [] st = (Inr [], st)" by (rule expand.simps)

text \<open>Induction along a run: the rest of a text is read only when the placeholder before it gave a text.\<close>

lemma expand_runs [case_names Nil Lit Hole hole]:
  assumes "\<And>chain st. P chain [] st"
    and "\<And>chain c ps st. P chain ps st \<Longrightarrow> P chain (Lit c # ps) st"
    and "\<And>chain i ps st. Q chain i st \<Longrightarrow>
      (failure (expand_hole r chain i st) = None \<Longrightarrow> P chain ps (snd (expand_hole r chain i st))) \<Longrightarrow>
      P chain (Hole i # ps) st"
    and "\<And>chain i st.
      (\<And>scope value. \<not> starts_with (trim i) SECRET_PREFIX \<Longrightarrow> trim i \<notin> set DYNAMIC \<Longrightarrow>
        find_variable r (trim i) = Some (scope, value) \<Longrightarrow> trim i \<notin> set chain \<Longrightarrow>
        length chain < MAX_VARIABLE_DEPTH \<Longrightarrow> P (chain @ [trim i]) (pieces value) st) \<Longrightarrow>
      Q chain i st"
  shows "P chain ps st" and "Q chain i st"
proof -
  have "r' = r \<Longrightarrow> P chain ps st" and "r' = r \<Longrightarrow> Q chain i st" for r'
  proof (induction r' chain ps st and r' chain i st rule: expand_expand_hole.induct)
    case (3 r' chain inside ps st)
    show ?case
    proof (rule assms(3))
      show "Q chain inside st" using 3 by simp
      assume "failure (expand_hole r chain inside st) = None"
      then obtain t where "fst (expand_hole r' chain inside st) = Inr t"
        using 3(3) by (auto simp: failure_def split: sum.splits)
      from "3.IH"(2) [OF prod.collapse this 3(3)] 3(3)
      show "P chain ps (snd (expand_hole r chain inside st))" by simp
    qed
  next
    case (4 r' chain inside st)
    then show ?case by (intro assms(4)) (auto simp: not_le)
  qed (auto intro: assms)
  then show "P chain ps st" and "Q chain i st" by simp_all
qed

lemma expand_failure_same:
  "failure (expand (r\<lparr>rs_secret := s\<rparr>) chain ps st) = failure (expand (r\<lparr>rs_secret := s'\<rparr>) chain ps st')"
  "failure (expand_hole (r\<lparr>rs_secret := s\<rparr>) chain i st) = failure (expand_hole (r\<lparr>rs_secret := s'\<rparr>) chain i st')"
proof (induction chain ps st and chain i st arbitrary: st' and st' rule: expand_runs [where r = "r\<lparr>rs_secret := s\<rparr>"])
  case (hole chain inside st)
  then show ?case by (auto simp: failure_expand_hole Let_def split: option.splits)
next
  case (Hole chain i ps st)
  then show ?case by (auto simp: failure_expand split: option.splits)
qed (simp_all add: failure_expand)

lemma expand_hole_cases:
  obtains
    (secret) "starts_with (trim i) SECRET_PREFIX"
      "expand_hole r chain i st = apfst Inr (secret_hole r chain (trim i) (written i) st)"
  | (dynamic) "\<not> starts_with (trim i) SECRET_PREFIX" "trim i \<in> set DYNAMIC"
      "expand_hole r chain i st = (Inr (rs_fresh r (trim i) (st_draws st)), st\<lparr>st_draws := Suc (st_draws st)\<rparr>)"
  | (missing) "\<not> starts_with (trim i) SECRET_PREFIX" "trim i \<notin> set DYNAMIC" "find_variable r (trim i) = None"
      "expand_hole r chain i st = apfst Inr (unresolved_hole (trim i) (written i) st)"
  | (nested) scope v where "\<not> starts_with (trim i) SECRET_PREFIX" "trim i \<notin> set DYNAMIC"
      "find_variable r (trim i) = Some (scope, v)" "trim i \<in> set chain \<or> length chain \<ge> MAX_VARIABLE_DEPTH"
      "expand_hole r chain i st = (Inl (chain @ [trim i]), st)"
  | (known) scope v where "\<not> starts_with (trim i) SECRET_PREFIX" "trim i \<notin> set DYNAMIC"
      "find_variable r (trim i) = Some (scope, v)" "trim i \<notin> set chain" "length chain < MAX_VARIABLE_DEPTH"
      "expand_hole r chain i st = expand r (chain @ [trim i]) (pieces v) st"
proof (cases "starts_with (trim i) SECRET_PREFIX")
  case True
  then show thesis by (intro secret) (simp_all add: expand_hole.simps Let_def)
next
  case ns: False
  show thesis
  proof (cases "trim i \<in> set DYNAMIC")
    case True
    then show thesis using ns by (intro dynamic) (simp_all add: expand_hole.simps)
  next
    case nd: False
    show thesis
    proof (cases "find_variable r (trim i)")
      case None
      then show thesis using ns nd by (intro missing) (simp_all add: expand_hole.simps Let_def)
    next
      case (Some sv)
      obtain scope v where sv: "sv = (scope, v)" by (cases sv)
      show thesis
      proof (cases "trim i \<in> set chain \<or> length chain \<ge> MAX_VARIABLE_DEPTH")
        case True
        then show thesis using ns nd Some sv by (intro nested) (simp_all add: expand_hole.simps Let_def)
      next
        case False
        then show thesis using ns nd Some sv by (intro known) (simp_all add: expand_hole.simps Let_def)
      qed
    qed
  qed
qed

text \<open>What was recorded is kept: every set only grows.\<close>

definition grown :: "resolver_state \<Rightarrow> resolver_state \<Rightarrow> bool" where
  "grown a b \<longleftrightarrow> set (st_taint a) \<subseteq> set (st_taint b) \<and> set (st_unresolved a) \<subseteq> set (st_unresolved b) \<and>
     set (st_locked a) \<subseteq> set (st_locked b) \<and> st_draws a \<le> st_draws b"

lemma grown_refl [simp]: "grown a a" by (simp add: grown_def)

lemma grown_trans: "grown a b \<Longrightarrow> grown b c \<Longrightarrow> grown a c" by (auto simp: grown_def)

lemma grown_secret_hole: "grown st (snd (secret_hole r chain name w st))"
  by (auto simp: grown_def secret_hole_def Let_def split: option.splits)

lemma grown_unresolved_hole: "grown st (snd (unresolved_hole name w st))"
  by (auto simp: grown_def unresolved_hole_def)

lemma grown_expand:
  "grown st (snd (expand r chain ps st))" "grown st (snd (expand_hole r chain i st))"
proof (induction chain ps st and chain i st rule: expand_runs [where r = r])
  case (Hole chain i ps st)
  then show ?case by (auto simp: snd_expand intro: grown_trans)
next
  case (hole chain i st)
  show ?case
    by (cases rule: expand_hole_cases [of i r chain st])
      (auto simp: grown_secret_hole grown_unresolved_hole intro: hole, simp add: grown_def)
qed (simp_all add: snd_expand)

abbreviation probe :: "resolver \<Rightarrow> resolver" where
  "probe r \<equiv> r\<lparr>rs_secret := \<lambda>_. None\<rparr>"

lemma expand_agree:
  assumes "\<And>i. i \<in> A \<Longrightarrow> s i = s' i"
  shows "set (st_locked (snd (expand (probe r) chain ps st0))) \<subseteq> A \<Longrightarrow>
      expand (r\<lparr>rs_secret := s\<rparr>) chain ps st = expand (r\<lparr>rs_secret := s'\<rparr>) chain ps st"
    and "set (st_locked (snd (expand_hole (probe r) chain i st0))) \<subseteq> A \<Longrightarrow>
      expand_hole (r\<lparr>rs_secret := s\<rparr>) chain i st = expand_hole (r\<lparr>rs_secret := s'\<rparr>) chain i st"
proof (induction chain ps st0 and chain i st0 arbitrary: st and st rule: expand_runs [where r = "probe r"])
  case (Lit chain c ps st0)
  then show ?case by (simp only: snd_expand) (simp add: expand.simps)
next
  case (Hole chain i ps st0)
  let ?h = "expand_hole (probe r) chain i st0"
  have "grown (snd ?h) (snd (expand (probe r) chain (Hole i # ps) st0))"
    by (auto simp: snd_expand grown_expand)
  with Hole.prems have A: "set (st_locked (snd ?h)) \<subseteq> A" by (auto simp: grown_def)
  have F: "failure ?h = failure (expand_hole (r\<lparr>rs_secret := s\<rparr>) chain i st)"
    by (rule expand_failure_same)
  note H = Hole.IH(1) [OF A]
  show ?case
  proof (cases "failure ?h")
    case (Some e)
    with F H [of st] show ?thesis by (auto simp: expand.simps failure_def split: sum.splits prod.splits)
  next
    case None
    have "set (st_locked (snd (expand (probe r) chain ps (snd ?h)))) \<subseteq> A"
      using Hole.prems None by (simp add: snd_expand)
    with Hole.IH(2) [OF None] H [of st] show ?thesis by (auto simp: expand.simps split: prod.splits sum.splits)
  qed
next
  case (hole chain i st0)
  show ?case
  proof (cases rule: expand_hole_cases [of i "probe r" chain st0])
    case secret
    then have "drop (length SECRET_PREFIX) (trim i) \<in> A"
      using hole.prems by (auto simp: secret_hole_def Let_def)
    with assms secret show ?thesis
      by (auto simp: expand_hole.simps secret_hole_def Let_def split: option.splits)
  next
    case (known scope v)
    with hole.IH [OF known(1-5)] hole.prems show ?thesis
      by (auto simp: expand_hole.simps Let_def)
  qed (auto simp: expand_hole.simps unresolved_hole_def)
qed simp

lemma expand_failure_shape:
  "distinct chain \<Longrightarrow> length chain \<le> MAX_VARIABLE_DEPTH \<Longrightarrow> failure (expand r chain ps st) = Some e \<Longrightarrow>
     distinct (butlast e) \<and> e \<noteq> [] \<and> length e \<le> Suc MAX_VARIABLE_DEPTH \<and>
     (last e \<in> set (butlast e) \<or> length e = Suc MAX_VARIABLE_DEPTH) \<and>
     (\<forall>n \<in> set e. n \<in> set chain \<or> find_variable r n \<noteq> None)"
  "distinct chain \<Longrightarrow> length chain \<le> MAX_VARIABLE_DEPTH \<Longrightarrow> failure (expand_hole r chain i st) = Some e \<Longrightarrow>
     distinct (butlast e) \<and> e \<noteq> [] \<and> length e \<le> Suc MAX_VARIABLE_DEPTH \<and>
     (last e \<in> set (butlast e) \<or> length e = Suc MAX_VARIABLE_DEPTH) \<and>
     (\<forall>n \<in> set e. n \<in> set chain \<or> find_variable r n \<noteq> None)"
proof (induction chain ps st and chain i st arbitrary: e and e rule: expand_runs [where r = r])
  case (Hole chain i ps st)
  then show ?case by (auto simp: failure_expand split: option.splits)
next
  case (hole chain i st)
  show ?case
  proof (cases rule: expand_hole_cases [of i r chain st])
    case (known scope v)
    show ?thesis
      using hole.IH [OF known(1-5), of e] hole.prems known by auto
  qed (use hole.prems in \<open>auto simp: failure_def\<close>)
qed (auto simp: failure_expand)

section \<open>A text of a request\<close>

definition resolve :: "resolver \<Rightarrow> string \<Rightarrow> resolver_state \<Rightarrow> (string list + string) \<times> resolver_state" where
  "resolve r text st = expand r [] (pieces text) st"

text \<open>What the message of a \<open>VariableNestingError\<close> says of its chain.\<close>

datatype nesting_message = Circle "string list" | TooDeep "string list"

definition nesting_message :: "string list \<Rightarrow> nesting_message" where
  "nesting_message chain =
     (case index_of (last chain) chain of
        Some i \<Rightarrow> if i < length chain - 1 then Circle chain else TooDeep chain
      | None \<Rightarrow> Circle chain)"

datatype variable_source = FromScope variable_scope | FromDynamic | FromSecret | Missing

datatype token_location = InUrl | InHeaderRow | InBodyText | InAuth

record variable_token =
  tok_key :: string
  tok_value :: "string option"
  tok_source :: variable_source
  tok_location :: token_location
  tok_field :: string
  tok_error :: "nesting_message option"
  tok_vaulted :: bool

text \<open>\<open>describe\<close>: the source, the value, the error and whether the value is a secret's reference.\<close>

definition describe ::
    "resolver \<Rightarrow> string \<Rightarrow> resolver_state \<Rightarrow>
      (variable_source \<times> string option \<times> nesting_message option \<times> bool) \<times> resolver_state" where
  "describe r name st =
     (if starts_with name SECRET_PREFIX then ((FromSecret, None, None, False), st)
      else if name \<in> set DYNAMIC then ((FromDynamic, None, None, False), st)
      else
        (case find_variable r name of
           None \<Rightarrow> ((Missing, None, None, False), st)
         | Some (scope, value) \<Rightarrow>
             if is_secret_reference value then ((FromScope scope, None, None, True), st)
             else
               (case expand r [name] (pieces value) st of
                  (Inr v, st') \<Rightarrow> ((FromScope scope, Some v, None, False), st')
                | (Inl chain, st') \<Rightarrow> ((FromScope scope, None, Some (nesting_message chain), False), st'))))"

definition names_in :: "string \<Rightarrow> string list" where
  "names_in text =
     fold (\<lambda>p names. case p of Hole i \<Rightarrow> set_add (trim i) names | Lit _ \<Rightarrow> names) (pieces text) []"

fun describe_all ::
    "resolver \<Rightarrow> token_location \<Rightarrow> string \<Rightarrow> string list \<Rightarrow> resolver_state \<Rightarrow> variable_token list \<times> resolver_state" where
  "describe_all r location field [] st = ([], st)"
| "describe_all r location field (key # keys) st =
     (let ((source, value, error, vaulted), st') = describe r key st;
          (rest, st'') = describe_all r location field keys st'
      in (\<lparr>tok_key = key, tok_value = value, tok_source = source, tok_location = location,
           tok_field = field, tok_error = error, tok_vaulted = vaulted\<rparr> # rest, st''))"

definition tokens_of ::
    "resolver \<Rightarrow> string \<Rightarrow> token_location \<Rightarrow> string \<Rightarrow> resolver_state \<Rightarrow> variable_token list \<times> resolver_state" where
  "tokens_of r text location field st =
     describe_all r location field
       (filter (\<lambda>key. plain_name key \<or> find_variable r key \<noteq> None) (names_in text)) st"

text \<open>The texts of one place, each with its field, one after the other.\<close>

fun tokens_of_texts ::
    "resolver \<Rightarrow> token_location \<Rightarrow> (string \<times> string) list \<Rightarrow> resolver_state \<Rightarrow> variable_token list \<times> resolver_state" where
  "tokens_of_texts r location [] st = ([], st)"
| "tokens_of_texts r location ((text, field) # rest) st =
     (let (ts, st') = tokens_of r text location field st;
          (us, st'') = tokens_of_texts r location rest st'
      in (ts @ us, st''))"

definition indexed :: "string \<Rightarrow> string list \<Rightarrow> (string \<times> string) list" where
  "indexed place texts = map (\<lambda>(i, text). (text, place @ ''-'' @ show_nat i)) (enumerate 0 texts)"

definition header_texts :: "(string \<times> string) list \<Rightarrow> (string \<times> string) list" where
  "header_texts rows =
     concat (map (\<lambda>(i, k, v). [(k, ''header-'' @ show_nat i @ ''-key''), (v, ''header-'' @ show_nat i @ ''-value'')])
       (enumerate 0 rows))"

text \<open>\<open>tokens\<close>: the address comes first in the list, and is read last.\<close>

definition tokens ::
    "resolver \<Rightarrow> string \<Rightarrow> (string \<times> string) list \<Rightarrow> string list \<Rightarrow> string list \<Rightarrow> resolver_state \<Rightarrow>
      variable_token list \<times> resolver_state" where
  "tokens r url headers body auth st =
     (let (hs, st1) = tokens_of_texts r InHeaderRow (header_texts headers) st;
          (bs, st2) = tokens_of_texts r InBodyText (indexed ''body'' body) st1;
          (as, st3) = tokens_of_texts r InAuth (indexed ''auth'' auth) st2;
          (us, st4) = tokens_of r url InUrl ''endpoint'' st3
      in (us @ hs @ bs @ as, st4))"

lemma distinct_names_in: "distinct (names_in text)"
proof -
  have "distinct names \<Longrightarrow> distinct (fold (\<lambda>p names. case p of Hole i \<Rightarrow> set_add (trim i) names | Lit _ \<Rightarrow> names) ps names)" for ps names
    by (induction ps arbitrary: names) (auto split: piece.splits)
  then show ?thesis by (simp add: names_in_def)
qed

lemma keys_describe_all: "map tok_key (fst (describe_all r location field keys st)) = keys"
  by (induction keys arbitrary: st) (simp_all add: split_beta Let_def)

subsection \<open>Shapes of texts\<close>

lemma expand_lits: "expand r chain (map Lit s) st = (Inr s, st)"
  by (induction s) (simp_all add: expand.simps)

lemma pieces_written:
  assumes "list_all no_brace i"
  shows "pieces (written i @ s) = Hole i # pieces s"
proof -
  have "takeWhile no_brace (i @ ''}}'' @ s) = i" "dropWhile no_brace (i @ ''}}'' @ s) = ''}}'' @ s"
    using assms by (auto simp: list_all_iff takeWhile_append dropWhile_append no_brace_def)
  then have "match_placeholder (written i @ s) = Some (i, s)"
    by (simp add: match_placeholder_def written_def starts_with_def span_of_def)
  moreover obtain c cs where "written i @ s = c # cs" by (simp add: written_def)
  ultimately show ?thesis by simp
qed

lemma match_placeholder_no_open: "\<not> contains s ''{{'' \<Longrightarrow> match_placeholder s = None"
  by (cases s) (auto simp: match_placeholder_def starts_with_def)

lemma pieces_no_open: "\<not> contains s ''{{'' \<Longrightarrow> pieces s = map Lit s"
proof (induction s)
  case (Cons c cs)
  then show ?case using match_placeholder_no_open [OF Cons.prems] by simp
qed simp

lemma pieces_append_no_brace: "CHR ''{'' \<notin> set a \<Longrightarrow> pieces (a @ s) = map Lit a @ pieces s"
  by (induction a) (auto simp: match_placeholder_def starts_with_def)

lemma find_in_Some:
  "find_in scopes name = Some (scope, value) \<longleftrightarrow>
     (\<exists>pre vars post. scopes = pre @ (scope, vars) # post \<and>
       (\<forall>(s, vs) \<in> set pre. om_get vs name = None) \<and> om_get vars name = Some value)"
proof (induction scopes)
  case (Cons sv scopes)
  obtain s vs where sv: "sv = (s, vs)" by (cases sv)
  show ?case
  proof (cases "om_get vs name")
    case None
    then have "find_in (sv # scopes) name = Some (scope, value) \<longleftrightarrow> find_in scopes name = Some (scope, value)"
      by (simp add: sv)
    also have "\<dots> \<longleftrightarrow> (\<exists>pre vars post. sv # scopes = sv # pre @ (scope, vars) # post \<and>
       (\<forall>(s, vs) \<in> set (sv # pre). om_get vs name = None) \<and> om_get vars name = Some value)"
      using None by (simp add: Cons sv)
    also have "\<dots> \<longleftrightarrow> (\<exists>pre vars post. sv # scopes = pre @ (scope, vars) # post \<and>
       (\<forall>(s, vs) \<in> set pre. om_get vs name = None) \<and> om_get vars name = Some value)" (is "?l \<longleftrightarrow> ?r")
    proof
      assume ?l then show ?r by (metis append_Cons)
    next
      assume ?r
      then obtain pre vars post where p: "sv # scopes = pre @ (scope, vars) # post"
        "\<forall>(s, vs) \<in> set pre. om_get vs name = None" "om_get vars name = Some value" by blast
      with None sv obtain pre' where "pre = sv # pre'" by (cases pre) auto
      with p show ?l by auto
    qed
    finally show ?thesis .
  next
    case (Some v)
    show ?thesis
    proof
      assume "find_in (sv # scopes) name = Some (scope, value)"
      then have "sv # scopes = [] @ (scope, vs) # scopes \<and> om_get vs name = Some value" using Some sv by simp
      then show "\<exists>pre vars post. sv # scopes = pre @ (scope, vars) # post \<and>
        (\<forall>(s, vs) \<in> set pre. om_get vs name = None) \<and> om_get vars name = Some value" by fastforce
    next
      assume "\<exists>pre vars post. sv # scopes = pre @ (scope, vars) # post \<and>
        (\<forall>(s, vs) \<in> set pre. om_get vs name = None) \<and> om_get vars name = Some value"
      then obtain pre vars post where p: "sv # scopes = pre @ (scope, vars) # post"
        "\<forall>(s, vs) \<in> set pre. om_get vs name = None" "om_get vars name = Some value" by blast
      with Some sv have "pre = []" by (cases pre) auto
      with p Some sv show "find_in (sv # scopes) name = Some (scope, value)" by simp
    qed
  qed
qed simp

lemma failure_Inl: "fst x = Inl e \<longleftrightarrow> failure x = Some e"
  by (auto simp: failure_def split: sum.splits)

lemma nesting_message_cases:
  assumes "chain \<noteq> []" and "distinct (butlast chain)"
  shows "nesting_message chain = (if last chain \<in> set (butlast chain) then Circle chain else TooDeep chain)"
proof -
  have "chain = butlast chain @ [last chain]" using assms(1) by simp
  then have "last chain \<in> set chain" by (metis in_set_conv_decomp)
  then obtain i where i: "index_of (last chain) chain = Some i"
    using index_of_None [of "last chain" chain] by (cases "index_of (last chain) chain") auto
  from index_of_Some [OF i] have less: "i < length chain" "chain ! i = last chain" "last chain \<notin> set (take i chain)" by auto
  show ?thesis
  proof (cases "i < length chain - 1")
    case True
    then have "last chain \<in> set (butlast chain)"
      using less by (metis length_butlast nth_butlast nth_mem)
    with True i show ?thesis by (simp add: nesting_message_def)
  next
    case False
    then have "i = length chain - 1" using less by simp
    then have "take i chain = butlast chain" by (simp add: butlast_conv_take)
    with less False i show ?thesis by (simp add: nesting_message_def)
  qed
qed

lemma expand_untainted:
  "st_taint (snd (expand r chain ps st)) = [] \<Longrightarrow> expand (probe r) chain ps st = expand r chain ps st"
  "st_taint (snd (expand_hole r chain i st)) = [] \<Longrightarrow> expand_hole (probe r) chain i st = expand_hole r chain i st"
proof (induction chain ps st and chain i st rule: expand_runs [where r = r])
  case (Lit chain c ps st)
  then show ?case by (simp only: snd_expand) (simp add: expand.simps)
next
  case (Hole chain i ps st)
  let ?h = "expand_hole r chain i st"
  have "grown (snd ?h) (snd (expand r chain (Hole i # ps) st))"
    by (auto simp: snd_expand grown_expand)
  with Hole.prems have H: "expand_hole (probe r) chain i st = ?h"
    by (intro Hole.IH(1)) (auto simp: grown_def)
  show ?case
  proof (cases "failure ?h")
    case (Some e)
    with H show ?thesis by (auto simp: expand.simps failure_def split: sum.splits prod.splits)
  next
    case None
    with Hole.prems have "st_taint (snd (expand r chain ps (snd ?h))) = []" by (simp add: snd_expand)
    with Hole.IH(2) [OF None] H show ?thesis by (auto simp: expand.simps split: prod.splits sum.splits)
  qed
next
  case (hole chain i st)
  show ?case
  proof (cases rule: expand_hole_cases [of i r chain st])
    case secret
    have "set_add x xs \<noteq> []" for x :: string and xs by (auto simp: set_add_def)
    with secret hole.prems show ?thesis
      by (auto simp: expand_hole.simps secret_hole_def Let_def split: option.splits)
  next
    case (known scope v)
    with hole.IH [OF known(1-5)] hole.prems show ?thesis
      by (auto simp: expand_hole.simps Let_def)
  qed (auto simp: expand_hole.simps unresolved_hole_def Let_def)
qed simp

lemma variables_by_name_snoc:
  "om_get (variables_by_name (rows @ [r])) k =
     (if row_enabled r \<and> row_key r \<noteq> [] \<and> row_key r = k then Some (row_value r) else om_get (variables_by_name rows) k)"
  by (auto simp: variables_by_name_get)

lemma variables_by_name_None:
  "om_get (variables_by_name rows) k = None \<longleftrightarrow>
     (\<forall>r \<in> set rows. row_enabled r \<and> row_key r \<noteq> [] \<longrightarrow> row_key r \<noteq> k)"
  by (induction rows rule: rev_induct) (auto simp: variables_by_name_snoc, simp add: variables_by_name_get)

lemma variables_by_name_Some:
  "om_get (variables_by_name rows) k = Some v \<longleftrightarrow>
     (\<exists>before r after. rows = before @ r # after \<and> row_enabled r \<and> row_key r = k \<and> k \<noteq> [] \<and>
        row_value r = v \<and> (\<forall>r' \<in> set after. row_enabled r' \<longrightarrow> row_key r' \<noteq> k))"
  (is "_ \<longleftrightarrow> ?found rows")
proof (induction rows rule: rev_induct)
  case Nil
  then show ?case by (simp add: variables_by_name_get)
next
  case (snoc r rows)
  show ?case
  proof (cases "row_enabled r \<and> row_key r \<noteq> [] \<and> row_key r = k")
    case True
    have "?found (rows @ [r]) \<longleftrightarrow> row_value r = v"
    proof
      assume "?found (rows @ [r])"
      then obtain before r' after where w: "rows @ [r] = before @ r' # after" "row_value r' = v"
        "\<forall>r' \<in> set after. row_enabled r' \<longrightarrow> row_key r' \<noteq> k" by blast
      with True have "after = []" by (cases after rule: rev_cases) auto
      with w show "row_value r = v" by simp
    next
      assume "row_value r = v"
      with True have "rows @ [r] = rows @ r # [] \<and> row_enabled r \<and> row_key r = k \<and> k \<noteq> [] \<and>
          row_value r = v \<and> (\<forall>r' \<in> set []. row_enabled r' \<longrightarrow> row_key r' \<noteq> k)" by auto
      then show "?found (rows @ [r])" by blast
    qed
    with True show ?thesis by (auto simp: variables_by_name_snoc)
  next
    case False
    have "?found (rows @ [r]) \<longleftrightarrow> ?found rows"
    proof
      assume "?found (rows @ [r])"
      then obtain before r' after where w: "rows @ [r] = before @ r' # after" "row_enabled r'" "row_key r' = k"
        "k \<noteq> []" "row_value r' = v" "\<forall>r' \<in> set after. row_enabled r' \<longrightarrow> row_key r' \<noteq> k" by blast
      with False obtain after' where "after = after' @ [r]" by (cases after rule: rev_cases) auto
      with w show "?found rows" by auto
    next
      assume "?found rows"
      then obtain before r' after where w: "rows = before @ r' # after" "row_enabled r'" "row_key r' = k"
        "k \<noteq> []" "row_value r' = v" "\<forall>r' \<in> set after. row_enabled r' \<longrightarrow> row_key r' \<noteq> k" by blast
      have "rows @ [r] = before @ r' # (after @ [r])" using w by simp
      moreover have "\<forall>r' \<in> set (after @ [r]). row_enabled r' \<longrightarrow> row_key r' \<noteq> k" using w False by auto
      ultimately show "?found (rows @ [r])" using w by blast
    qed
    moreover have "om_get (variables_by_name (rows @ [r])) k = om_get (variables_by_name rows) k"
      using False by (auto simp: variables_by_name_snoc)
    ultimately show ?thesis using snoc by simp
  qed
qed

lemma find_variable_new_resolver:
  "find_variable (new_resolver stack secret fresh) name = Some (scope, value) \<longleftrightarrow>
     (\<exists>farther nearer. VARIABLE_SCOPES = nearer @ scope # farther \<and>
       (\<forall>s \<in> set nearer. om_get (variables_by_name (stack s)) name = None) \<and>
       om_get (variables_by_name (stack scope)) name = Some value)"
  by (fastforce simp: find_variable_def new_resolver_def find_in_Some map_eq_append_conv map_eq_Cons_conv)

section \<open>Properties\<close>

text \<open>
  C2: resolving a text always ends, and it fails only for variables that refer to each other in
  a circle, or through more than \<open>MAX_VARIABLE_DEPTH\<close> of them: the chain names variables that
  exist, none twice but the last, is at most eleven long, and the message says which it is.
\<close>

theorem resolve_fails_only_on_nesting:
  assumes "fst (resolve r text st) = Inl chain"
  shows "chain \<noteq> [] \<and> distinct (butlast chain) \<and> length chain \<le> Suc MAX_VARIABLE_DEPTH \<and>
    (\<forall>n \<in> set chain. find_variable r n \<noteq> None) \<and>
    (nesting_message chain = Circle chain \<and> last chain \<in> set (butlast chain) \<or>
     nesting_message chain = TooDeep chain \<and> length chain = Suc MAX_VARIABLE_DEPTH)"
proof -
  have "failure (expand r [] (pieces text) st) = Some chain"
    using assms by (simp add: resolve_def failure_Inl)
  from expand_failure_shape(1) [OF _ _ this] show ?thesis
    by (auto simp: nesting_message_cases)
qed

definition row_of :: "string \<Rightarrow> string \<Rightarrow> row" where
  "row_of k v = \<lparr>row_key = k, row_value = v, row_enabled = True, row_json = False\<rparr>"

definition example_stack :: scope_stack where
  "example_stack s =
     (case s of
        Environment \<Rightarrow> [row_of ''a'' ''{{b}}'', row_of ''b'' ''<{{a}}>'', row_of ''host'' ''dev'']
      | Collection \<Rightarrow> [row_of ''host'' ''prod'', row_of ''key'' ''{{$secret.1}}'']
      | _ \<Rightarrow> [])"

definition example_resolver :: resolver where
  "example_resolver = new_resolver example_stack (map_of [(''1'', ''s{{a}}'')]) (\<lambda>_ _. [])"

lemma resolve_fails_only_on_nesting_witness:
  "[''a'', ''b'', ''a''] \<noteq> [] \<and> nesting_message [''a'', ''b'', ''a''] = Circle [''a'', ''b'', ''a'']"
proof -
  have "fst (resolve example_resolver ''x{{ a }}'' start_state) = Inl [''a'', ''b'', ''a'']" by code_simp
  from resolve_fails_only_on_nesting [OF this] show ?thesis by (auto simp: MAX_VARIABLE_DEPTH_def)
qed

text \<open>
  A text with no opening braces is sent as it is written, and nothing is recorded of it.
\<close>

theorem resolve_plain_text:
  assumes "\<not> contains text ''{{''"
  shows "resolve r text st = (Inr text, st)"
  using assms by (simp add: resolve_def pieces_no_open expand_lits)

lemma resolve_plain_text_witness:
  "resolve example_resolver ''a}}{b}{'' start_state = (Inr ''a}}{b}{'', start_state)"
  by (rule resolve_plain_text) code_simp



text \<open>
  A first reading of a text with no secret at hand finds every secret the text asks for:
  two vaults that agree on those give the same text, and record the same.
\<close>

theorem resolve_asks_what_the_probe_found:
  assumes "\<And>i. i \<in> set (st_locked (snd (resolve (probe r) text st0))) \<Longrightarrow> secret i = secret' i"
  shows "resolve (r\<lparr>rs_secret := secret\<rparr>) text st = resolve (r\<lparr>rs_secret := secret'\<rparr>) text st"
  unfolding resolve_def by (rule expand_agree(1) [OF assms order_refl]) (simp add: resolve_def)

lemma resolve_asks_what_the_probe_found_witness:
  "resolve (example_resolver\<lparr>rs_secret := map_of [(''1'', ''x''), (''2'', ''y'')]\<rparr>) ''{{key}}'' start_state =
   resolve (example_resolver\<lparr>rs_secret := map_of [(''1'', ''x'')]\<rparr>) ''{{key}}'' start_state"
proof (rule resolve_asks_what_the_probe_found [where st0 = start_state])
  fix i
  assume "i \<in> set (st_locked (snd (resolve (probe example_resolver) ''{{key}}'' start_state)))"
  moreover have "st_locked (snd (resolve (probe example_resolver) ''{{key}}'' start_state)) = [''1'']" by code_simp
  ultimately show "map_of [(''1'', ''x''), (''2'', ''y'')] i = map_of [(''1'', ''x'')] i" by simp
qed

text \<open>
  No secret is used without being recorded: where nothing was recorded as tainted, the
  vault had no part in the text.
\<close>

theorem resolve_untainted:
  assumes "st_taint (snd (resolve r text st)) = []"
  shows "resolve r text st = resolve (probe r) text st"
  using assms by (simp add: resolve_def expand_untainted)

lemma resolve_untainted_witness:
  "resolve example_resolver ''{{host}}'' start_state = resolve (probe example_resolver) ''{{host}}'' start_state"
  by (rule resolve_untainted) code_simp

text \<open>
  A name is found in the nearest scope that has it, and within a scope in the last enabled
  row of that name.
\<close>

theorem find_variable_nearest:
  "find_variable (new_resolver stack secret fresh) name = Some (scope, value) \<longleftrightarrow>
     (\<exists>farther nearer. VARIABLE_SCOPES = nearer @ scope # farther \<and>
       (\<forall>s \<in> set nearer. \<forall>r \<in> set (stack s). row_enabled r \<and> row_key r \<noteq> [] \<longrightarrow> row_key r \<noteq> name) \<and>
       (\<exists>before r after. stack scope = before @ r # after \<and> row_enabled r \<and> row_key r = name \<and> name \<noteq> [] \<and>
          row_value r = value \<and> (\<forall>r' \<in> set after. row_enabled r' \<longrightarrow> row_key r' \<noteq> name)))"
  by (simp add: find_variable_new_resolver variables_by_name_None variables_by_name_Some)

lemma find_variable_nearest_witness:
  "\<exists>farther nearer. VARIABLE_SCOPES = nearer @ Environment # farther \<and>
     (\<forall>s \<in> set nearer. \<forall>r \<in> set (example_stack s). row_enabled r \<and> row_key r \<noteq> [] \<longrightarrow> row_key r \<noteq> ''host'') \<and>
     (\<exists>before r after. example_stack Environment = before @ r # after \<and> row_enabled r \<and> row_key r = ''host'' \<and>
        ''host'' \<noteq> ([] :: string) \<and> row_value r = ''dev'' \<and> (\<forall>r' \<in> set after. row_enabled r' \<longrightarrow> row_key r' \<noteq> ''host''))"
proof -
  have "find_variable (new_resolver example_stack (\<lambda>_. None) (\<lambda>_ _. [])) ''host'' = Some (Environment, ''dev'')"
    by code_simp
  then show ?thesis by (rule iffD1 [OF find_variable_nearest])
qed

end
