(* ===== verification/Wire.thy ===== *)
theory Wire
  imports Redact Resolver
begin

text \<open>
  \<open>packages/core/src/send/wire.ts\<close>: the last look at a built request, for a vault placeholder
  that was not replaced.
\<close>

text \<open>What a field of a form holds: a text, or a file by its name.\<close>

datatype form_value = FieldText string | FieldFile string

datatype wire_body = NoWireBody | WireText string | WireBytes | WireForm "(string \<times> form_value) list"

record wire_request =
  wire_url :: string
  wire_headers :: "(string \<times> string) list"
  wire_body :: wire_body

text \<open>\<open>/\{\{\s*\$secret\./\<close>, anywhere in a text.\<close>

definition placeholder_here :: "string \<Rightarrow> bool" where
  "placeholder_here s \<longleftrightarrow> starts_with s ''{{'' \<and> starts_with (dropWhile js_space (drop 2 s)) SECRET_PREFIX"

fun secret_placeholder :: "string \<Rightarrow> bool" where
  "secret_placeholder [] \<longleftrightarrow> False"
| "secret_placeholder (c # s) \<longleftrightarrow> placeholder_here (c # s) \<or> secret_placeholder s"

definition percent_decoded :: "string \<Rightarrow> string" where
  "percent_decoded text = (case decode_uri text of Some t \<Rightarrow> t | None \<Rightarrow> [])"

text \<open>\<open>JSON.stringify\<close> of the headers.\<close>

definition json_headers :: "(string \<times> string) list \<Rightarrow> string" where
  "json_headers headers =
     ''['' @ join '','' (map (\<lambda>(n, v). ''['' @ json_quoted n @ '','' @ json_quoted v @ '']'') headers) @ '']''"

text \<open>\<open>/^\s*Basic\s+(\S+)/i\<close>; \<open>atob\<close> gives one character for each byte.\<close>

definition basic_match :: "string \<Rightarrow> string option" where
  "basic_match value =
     (let s = dropWhile js_space value;
          r = drop 5 s;
          (ws, e) = span_of js_space r;
          encoded = takeWhile (\<lambda>c. \<not> js_space c) e
      in if to_lower (take 5 s) = ''basic'' \<and> ws \<noteq> [] \<and> encoded \<noteq> [] then Some encoded else None)"

definition byte_text :: "byte list \<Rightarrow> string" where
  "byte_text bs = map (\<lambda>b. char_of (unat b)) bs"

definition decode_basic_credentials :: "string \<Rightarrow> string" where
  "decode_basic_credentials value =
     (case basic_match value of
        None \<Rightarrow> []
      | Some encoded \<Rightarrow> (case atob encoded of None \<Rightarrow> [] | Some bs \<Rightarrow> byte_text bs))"

definition body_texts :: "wire_body \<Rightarrow> string list" where
  "body_texts b =
     (case b of
        WireText t \<Rightarrow> [t, percent_decoded (replace_all ''+'' '' '' t)]
      | WireForm fs \<Rightarrow>
          concat (map (\<lambda>(name, v). [name, case v of FieldText t \<Rightarrow> t | FieldFile n \<Rightarrow> n]) fs)
      | _ \<Rightarrow> [])"

definition contains_secret_placeholder :: "wire_request \<Rightarrow> bool" where
  "contains_secret_placeholder request \<longleftrightarrow>
     list_ex secret_placeholder
       ([wire_url request, percent_decoded (wire_url request), json_headers (wire_headers request)]
        @ map (\<lambda>(_, v). decode_basic_credentials v) (wire_headers request)
        @ map (\<lambda>(_, v). percent_decoded (decode_basic_credentials v)) (wire_headers request)
        @ body_texts (wire_body request))"

section \<open>Lemmas\<close>

text \<open>A placeholder as it is written: braces, some white space, and what a secret's name starts with.\<close>

definition placeholder :: "string \<Rightarrow> string" where
  "placeholder ws = ''{{'' @ ws @ SECRET_PREFIX"

lemma SECRET_PREFIX_start: "\<exists>t. SECRET_PREFIX = CHR ''$'' # t"
  by (simp add: SECRET_PREFIX_def)

lemma placeholder_here_placeholder: "list_all js_space ws \<Longrightarrow> placeholder_here (placeholder ws @ s)"
proof -
  assume ws: "list_all js_space ws"
  have "dropWhile js_space (ws @ SECRET_PREFIX @ s) = SECRET_PREFIX @ s"
    using ws by (simp add: list_all_iff SECRET_PREFIX_def js_space_def)
  then show ?thesis by (simp add: placeholder_here_def placeholder_def starts_with_def)
qed

lemma secret_placeholder_append: "secret_placeholder s \<Longrightarrow> secret_placeholder (a @ s)"
  by (induction a) auto

lemma secret_placeholder_sublist:
  assumes "list_all js_space ws" "contains s (placeholder ws)"
  shows "secret_placeholder s"
proof -
  obtain a b where "s = a @ placeholder ws @ b"
    using assms(2) by (auto simp: contains_sublist sublist_def)
  moreover obtain c t where ct: "placeholder ws @ b = c # t" by (simp add: placeholder_def)
  moreover have "secret_placeholder (c # t)"
    using placeholder_here_placeholder [OF assms(1), of b] ct by simp
  ultimately show ?thesis by (simp add: secret_placeholder_append)
qed

lemma secret_placeholder_iff:
  "secret_placeholder s \<longleftrightarrow> (\<exists>ws. list_all js_space ws \<and> contains s (placeholder ws))"
proof
  assume "secret_placeholder s"
  then show "\<exists>ws. list_all js_space ws \<and> contains s (placeholder ws)"
  proof (induction s)
    case (Cons c s)
    show ?case
    proof (cases "placeholder_here (c # s)")
      case True
      let ?r = "drop 2 (c # s)"
      have "c # s = ''{{'' @ ?r" and "dropWhile js_space ?r = SECRET_PREFIX @ drop (length SECRET_PREFIX) (dropWhile js_space ?r)"
        using True by (auto simp: placeholder_here_def starts_with_prefix prefix_def)
      then have "c # s = placeholder (takeWhile js_space ?r) @ drop (length SECRET_PREFIX) (dropWhile js_space ?r)"
        unfolding placeholder_def by (metis append.assoc takeWhile_dropWhile_id)
      then have "contains (c # s) (placeholder (takeWhile js_space ?r))"
        by (metis contains_append append_Nil)
      moreover have "list_all js_space (takeWhile js_space ?r)" by (auto simp: list_all_iff dest: set_takeWhileD)
      ultimately show ?thesis by blast
    next
      case False
      with Cons show ?thesis by (auto simp: contains_sublist sublist_Cons_right)
    qed
  qed simp
next
  assume "\<exists>ws. list_all js_space ws \<and> contains s (placeholder ws)"
  then show "secret_placeholder s" using secret_placeholder_sublist by blast
qed

lemma json_inner_append: "json_inner (a @ b) = json_inner a @ json_inner b"
  by (simp add: json_inner_def)

text \<open>White space that JSON writes as it is.\<close>

definition plain_space :: "char \<Rightarrow> bool" where
  "plain_space c \<longleftrightarrow> c = CHR '' '' \<or> c = CHR 0xA0"

lemma json_inner_plain:
  "list_all (\<lambda>c. 32 \<le> char_nat c \<and> c \<noteq> CHR 0x22 \<and> c \<noteq> CHR 0x5C) s \<Longrightarrow> json_inner s = s"
  by (induction s) (auto simp: json_inner_def json_char_def char_nat_def)

lemma json_inner_placeholder: "list_all plain_space ws \<Longrightarrow> json_inner (placeholder ws) = placeholder ws"
proof (rule json_inner_plain)
  let ?P = "\<lambda>c. 32 \<le> char_nat c \<and> c \<noteq> CHR 0x22 \<and> c \<noteq> CHR 0x5C"
  assume "list_all plain_space ws"
  then have "list_all ?P ws"
    by (rule list.pred_mono_strong) (auto simp: plain_space_def char_nat_def)
  moreover have "list_all ?P ''{{''" "list_all ?P SECRET_PREFIX" by code_simp+
  ultimately show "list_all ?P (placeholder ws)" by (simp only: placeholder_def list_all_append)
qed

lemma sublist_join: "x' \<in> set xs \<Longrightarrow> sublist x' (join sep xs)"
proof (induction sep xs rule: join.induct)
  case (3 sep x y ys)
  show ?case
  proof (cases "x' = x")
    case False
    with 3 have "sublist x' (join sep (y # ys))" by simp
    then have "sublist x' ((x @ sep) @ join sep (y # ys))"
      by (meson sublist_append_leftI sublist_order.order.trans)
    then show ?thesis by simp
  qed simp
qed auto

lemma json_headers_contains:
  assumes "(n, v) \<in> set headers" "p = json_inner n \<or> p = json_inner v"
  shows "sublist p (json_headers headers)"
proof -
  let ?row = "\<lambda>(n, v). ''['' @ json_quoted n @ '','' @ json_quoted v @ '']''"
  have "?row (n, v) \<in> set (map ?row headers)" using assms(1) by force
  then have "sublist (?row (n, v)) (join '','' (map ?row headers))" by (rule sublist_join)
  moreover have "sublist p (?row (n, v))"
  proof -
    have "?row (n, v) = (''['' @ [CHR 0x22]) @ json_inner n @ ([CHR 0x22] @ '','' @ json_quoted v @ '']'')"
      "?row (n, v) = (''['' @ json_quoted n @ '','' @ [CHR 0x22]) @ json_inner v @ ([CHR 0x22] @ '']'')"
      by (simp_all add: json_quoted_def)
    with assms(2) show ?thesis by (metis sublist_appendI)
  qed
  ultimately have "sublist p (join '','' (map ?row headers))" by (rule sublist_order.order.trans [rotated])
  then show ?thesis unfolding json_headers_def
    by (meson sublist_appendI sublist_order.order.trans)
qed

text \<open>What decodes to a text with a placeholder in it is found.\<close>

lemma percent_decoded_escaped:
  "\<forall>(c, k) \<in> set cks. k \<longrightarrow> c \<noteq> CHR ''%'' \<Longrightarrow> percent_decoded (escaped_text cks) = map fst cks"
  by (simp add: percent_decoded_def decode_uri_escaped_text)

text \<open>A form body as the check reads it: its plus signs are spaces, which the escapes leave alone.\<close>

definition form_flags :: "string \<Rightarrow> (char \<times> bool) list" where
  "form_flags s = map (\<lambda>c. (c, form_unreserved c \<or> c = CHR '' '')) s"

lemma replace_all_char: "replace_all [a] [b] s = map (\<lambda>c. if c = a then b else c) s"
  by (induction s) (auto simp: starts_with_def)

lemma hex_digit_not_plus: "n < 16 \<Longrightarrow> hex_digit n \<noteq> CHR ''+''"
  using hex_digit_alnum [of n] by simp

lemma percent_bytes_not_plus: "CHR ''+'' \<notin> set (concat (map percent_byte bs))"
proof -
  have "CHR ''+'' \<notin> set (percent_byte b)" for b
    using hex_digit_not_plus [of "unat b div 16"] hex_digit_not_plus [of "unat b mod 16"]
    by (auto simp: percent_byte_def)
  then show ?thesis by auto
qed

lemma unplus_form_encode:
  "map (\<lambda>c. if c = CHR ''+'' then CHR '' '' else c) (form_encode s) = escaped_text (form_flags s)"
proof (induction s)
  case (Cons c s)
  have "map (\<lambda>c. if c = CHR ''+'' then CHR '' '' else c) (form_char c) = escaped_char (c, form_unreserved c \<or> c = CHR '' '')"
    using form_unreserved_plain [of c] percent_bytes_not_plus [of "utf8_char c"]
    by (auto simp: form_char_def escaped_char_def intro!: map_idI)
  with Cons show ?case by (simp add: form_encode_def form_flags_def escaped_text_Cons)
qed (simp add: form_encode_def form_flags_def escaped_text_def)


lemma map_join: "map f (join sep xs) = join (map f sep) (map (map f) xs)"
  by (induction sep xs rule: join.induct) auto

lemma escaped_text_join: "escaped_text (join sep xs) = join (escaped_text sep) (map escaped_text xs)"
  by (induction sep xs rule: join.induct) (auto simp: escaped_text_append, simp add: escaped_text_def)

lemma form_flags_plain: "\<forall>(c, k) \<in> set (form_flags s). k \<longrightarrow> c \<noteq> CHR ''%''"
  using form_unreserved_plain by (fastforce simp: form_flags_def)

lemma set_join_subset: "set (join sep xs) \<subseteq> set sep \<union> \<Union> (set ` set xs)"
  by (induction sep xs rule: join.induct) auto

lemma percent_decoded_form_body:
  "percent_decoded (replace_all ''+'' '' '' (form_body pairs)) = join ''&'' (map (\<lambda>(k, v). k @ ''='' @ v) pairs)"
proof -
  let ?f = "\<lambda>c. if c = CHR ''+'' then CHR '' '' else c"
  define cks where "cks = join [(CHR ''&'', True)]
    (map (\<lambda>(k, v). form_flags k @ [(CHR ''='', True)] @ form_flags v) pairs)"
  have "map ?f (form_body pairs) =
      join ''&'' (map (\<lambda>(k, v). map ?f (form_encode k) @ ''='' @ map ?f (form_encode v)) pairs)"
    by (simp add: form_body_def map_join comp_def case_prod_unfold)
  also have "\<dots> = escaped_text cks"
    unfolding cks_def escaped_text_join unplus_form_encode
    by (simp add: comp_def case_prod_unfold escaped_text_append escaped_text_Cons escaped_char_def)
      (simp add: escaped_text_def escaped_char_def)
  finally have body: "replace_all ''+'' '' '' (form_body pairs) = escaped_text cks"
    by (simp add: replace_all_char)
  have "\<forall>(c, k) \<in> set cks. k \<longrightarrow> c \<noteq> CHR ''%''"
    using form_flags_plain unfolding cks_def by (fastforce dest: set_join_subset [THEN subsetD])
  with body have "percent_decoded (replace_all ''+'' '' '' (form_body pairs)) = map fst cks"
    by (simp add: percent_decoded_escaped)
  also have "\<dots> = join ''&'' (map (\<lambda>(k, v). k @ ''='' @ v) pairs)"
    by (simp add: cks_def map_join comp_def case_prod_unfold form_flags_def)
  finally show ?thesis .
qed

text \<open>Basic credentials, in which the characters below 128 are their own bytes.\<close>

lemma byte_text_utf8_ascii: "list_all (\<lambda>c. char_nat c < 128) s \<Longrightarrow> byte_text (utf8 s) = s"
  by (induction s) (auto simp: utf8_Cons byte_text_def utf8_char_def unat_of_nat_byte)

lemma byte_text_append: "byte_text (a @ b) = byte_text a @ byte_text b"
  by (simp add: byte_text_def)

lemma basic_match_value: "basic_match (basic_value u p) = Some (base64 (utf8 (u @ '':'' @ p)))"
proof -
  have c: "\<forall>c \<in> set (base64 bs). \<not> js_space c" for bs
  proof -
    have "\<forall>c \<in> set b64_alphabet. \<not> js_space c" "\<not> js_space CHR ''=''"
      by (simp_all add: b64_alphabet_def js_space_def)
    moreover have "set (base64 bs) \<subseteq> insert (CHR ''='') (set (base64_bare bs))"
    proof -
      have "length bs mod 3 = 0 \<or> length bs mod 3 = 1 \<or> length bs mod 3 = 2" by linarith
      then show ?thesis by (auto simp: base64_def numeral_2_eq_2)
    qed
    ultimately show ?thesis using set_base64_bare [of bs] by blast
  qed
  let ?e = "base64 (utf8 (u @ '':'' @ p))"
  have "?e \<noteq> []"
  proof -
    have "0 < length (utf8 (u @ '':'' @ p))" by (rule less_le_trans [OF _ length_utf8]) simp
    then have "0 < length (base64_bare (utf8 (u @ '':'' @ p)))" unfolding length_base64_bare by linarith
    then have "base64_bare (utf8 (u @ '':'' @ p)) \<noteq> []" by (rule length_greater_0_conv [THEN iffD1])
    then show ?thesis by (simp add: base64_def)
  qed
  moreover have sp: "js_space CHR '' ''" and "to_lower ''Basic'' = ''basic''" "\<not> js_space (CHR ''B'')" by code_simp+
  moreover have "takeWhile js_space ?e = []" "dropWhile js_space ?e = ?e"
    using c [of "utf8 (u @ '':'' @ p)"] \<open>?e \<noteq> []\<close> by (cases ?e; simp)+
  moreover have "takeWhile (\<lambda>c. \<not> js_space c) ?e = ?e" using c by (rule takeWhile_eq_all_conv [THEN iffD2])
  ultimately show ?thesis by (simp add: basic_match_def basic_value_def span_of_def Let_def del: takeWhile_eq_all_conv)
qed

lemma decode_basic_value:
  "decode_basic_credentials (basic_value u p) = byte_text (utf8 u) @ '':'' @ byte_text (utf8 p)"
proof -
  have "byte_text (utf8 '':'') = '':''" by (rule byte_text_utf8_ascii) (simp add: char_nat_def)
  moreover have "utf8 (u @ '':'' @ p) = utf8 u @ utf8 '':'' @ utf8 p" by (simp only: utf8_append)
  ultimately show ?thesis
    unfolding decode_basic_credentials_def basic_match_value option.case atob_base64 by (simp only: byte_text_append)
qed

text \<open>A placeholder with spaces in it, in a text, in the four places a request writes a text to.\<close>

lemma secret_placeholder_within:
  assumes "list_all (\<lambda>c. c = CHR '' '') ws" "sublist (placeholder ws) t"
  shows "secret_placeholder t"
proof -
  have "list_all js_space ws" using assms(1) by (auto simp: list_all_iff js_space_def)
  with assms(2) show ?thesis using secret_placeholder_sublist by (simp add: contains_sublist)
qed

lemma placeholder_in_headers:
  assumes "list_all (\<lambda>c. c = CHR '' '') ws" "sublist (placeholder ws) text"
    and "(n, v) \<in> set headers" "n = text \<or> v = text"
  shows "secret_placeholder (json_headers headers)"
proof -
  have plain: "list_all plain_space ws" using assms(1) by (auto simp: list_all_iff plain_space_def)
  obtain a b where parts: "text = a @ placeholder ws @ b" using assms(2) by (auto simp: sublist_def)
  have "sublist (placeholder ws) (json_inner text)"
    using json_inner_placeholder [OF plain] by (simp add: parts json_inner_append)
  moreover have "sublist (json_inner text) (json_headers headers)"
    using assms(4) by (intro json_headers_contains [OF assms(3)]) auto
  ultimately show ?thesis by (meson secret_placeholder_within [OF assms(1)] sublist_order.order.trans)
qed

lemma placeholder_in_basic:
  assumes "list_all (\<lambda>c. c = CHR '' '') ws" "sublist (placeholder ws) text" "u = text \<or> p = text"
  shows "secret_placeholder (decode_basic_credentials (basic_value u p))"
proof -
  obtain a b where parts: "text = a @ placeholder ws @ b" using assms(2) by (auto simp: sublist_def)
  have "byte_text (utf8 (placeholder ws)) = placeholder ws"
  proof (rule byte_text_utf8_ascii)
    have "list_all (\<lambda>c. char_nat c < 128) ws"
      using assms(1) by (rule list.pred_mono_strong) (simp add: char_nat_def)
    moreover have "list_all (\<lambda>c. char_nat c < 128) ''{{''" "list_all (\<lambda>c. char_nat c < 128) SECRET_PREFIX" by code_simp+
    ultimately show "list_all (\<lambda>c. char_nat c < 128) (placeholder ws)" by (simp only: placeholder_def list_all_append)
  qed
  then have "sublist (placeholder ws) (byte_text (utf8 text))" by (simp add: parts utf8_append byte_text_append)
  moreover have "sublist (byte_text (utf8 text)) (decode_basic_credentials (basic_value u p))"
    unfolding decode_basic_value
    using assms(3) sublist_append_leftI [of "byte_text (utf8 p)" "byte_text (utf8 u) @ '':''"] by auto
  ultimately show ?thesis by (meson secret_placeholder_within [OF assms(1)] sublist_order.order.trans)
qed

lemma placeholder_in_form:
  assumes "list_all (\<lambda>c. c = CHR '' '') ws" "sublist (placeholder ws) text"
    and "(k, v) \<in> set pairs" "k = text \<or> v = text"
  shows "secret_placeholder (percent_decoded (replace_all ''+'' '' '' (form_body pairs)))"
proof -
  let ?pair = "\<lambda>(k, v). k @ ''='' @ v"
  have "sublist (?pair (k, v)) (join ''&'' (map ?pair pairs))" using assms(3) by (intro sublist_join) force
  moreover have "sublist text (?pair (k, v))"
    using assms(4) sublist_append_leftI [of v "k @ ''=''"] by auto
  ultimately show ?thesis
    unfolding percent_decoded_form_body
    by (meson secret_placeholder_within [OF assms(1)] assms(2) sublist_order.order.trans)
qed

section \<open>Properties\<close>

text \<open>
  A placeholder of a secret is found wherever a request can put it on the wire: in the
  address, as it is or percent-encoded in whatever way; in the name or the value of a header; in the user
  name or the password of Basic credentials; in a body that is text, or a form; in a field of
  a multipart form or the name of its file. (With spaces between the braces and the name.)
\<close>

theorem wire_check_finds:
  assumes "list_all (\<lambda>c. c = CHR '' '') ws"
    and "contains text (placeholder ws)"
    and "wire_url request = text \<or>
      (\<exists>P. (\<forall>c. P c \<longrightarrow> c \<noteq> CHR ''%'') \<and> wire_url request = percent_text P text) \<or>
      (\<exists>n. (n, text) \<in> set (wire_headers request)) \<or> (\<exists>v. (text, v) \<in> set (wire_headers request)) \<or>
      (\<exists>n u p. (n, basic_value u p) \<in> set (wire_headers request) \<and> (u = text \<or> p = text)) \<or>
      wire_body request = WireText text \<or>
      (\<exists>pairs k v. wire_body request = WireText (form_body pairs) \<and> (k, v) \<in> set pairs \<and> (k = text \<or> v = text)) \<or>
      (\<exists>fs n v. wire_body request = WireForm fs \<and> (n, v) \<in> set fs \<and>
        (n = text \<or> v = FieldText text \<or> v = FieldFile text))"
  shows "contains_secret_placeholder request"
proof -
  have here: "sublist (placeholder ws) text" using assms(2) by (simp add: contains_sublist)
  note found = secret_placeholder_within [OF assms(1) here]
    and json = placeholder_in_headers [OF assms(1) here]
    and basic = placeholder_in_basic [OF assms(1) here]
    and form = placeholder_in_form [OF assms(1) here]
  have address: "percent_decoded (percent_text P text) = text" if "\<forall>c. P c \<longrightarrow> c \<noteq> CHR ''%''" for P
    using that by (simp add: percent_decoded_def decode_uri_percent_text)
  note defs = contains_secret_placeholder_def body_texts_def list_ex_iff
  from assms(3) show ?thesis
  proof (elim disjE exE conjE)
    fix P assume "\<forall>c. P c \<longrightarrow> c \<noteq> CHR ''%''" "wire_url request = percent_text P text"
    then show ?thesis using address [of P] found by (simp add: defs)
  next
    fix n u p assume "(n, basic_value u p) \<in> set (wire_headers request)" "u = text"
    then show ?thesis using basic [of u p] by (force simp: defs)
  next
    fix n u p assume "(n, basic_value u p) \<in> set (wire_headers request)" "p = text"
    then show ?thesis using basic [of u p] by (force simp: defs)
  next
    fix pairs k v assume "wire_body request = WireText (form_body pairs)" "(k, v) \<in> set pairs" "k = text"
    then show ?thesis using form [of k v pairs] by (simp add: defs)
  next
    fix pairs k v assume "wire_body request = WireText (form_body pairs)" "(k, v) \<in> set pairs" "v = text"
    then show ?thesis using form [of k v pairs] by (simp add: defs)
  qed (use json found in \<open>force simp: defs\<close>)+
qed

lemma wire_check_finds_witness:
  "contains_secret_placeholder \<lparr>wire_url = ''https://a/'', wire_headers = [(''Authorization'', basic_value ''me'' ''{{ $secret.7}}'')],
     wire_body = NoWireBody\<rparr>"
  by (rule wire_check_finds [of "'' ''" "''{{ $secret.7}}''"]) (code_simp, code_simp, auto)


end
