(* ===== verification/Platform.thy ===== *)
theory Platform
  imports Forms JsonText "HOL-Library.Multiset"
begin

text \<open>
  What the source takes from the browser and does not define itself. An address is parsed by the
  platform: \<open>url_parse\<close> is a parameter wherever one is used, and a parsed address is a record of
  its parts as the URL standard names them. Everything computed from the parts is here. Hashes,
  the clock and random numbers are parameters of the definitions that use them.
\<close>

section \<open>Addresses\<close>

text \<open>
  Of an \<open>http\<close> or \<open>https\<close> address. \<open>u_login\<close> is the user and password before the host, with the
  \<open>@\<close>, or nothing; \<open>u_search\<close> and \<open>u_hash\<close> hold their mark, or are empty; \<open>u_pairs\<close> is the query
  as \<open>searchParams\<close> reads it.
\<close>

record url =
  u_protocol :: string
  u_login :: string
  u_hostname :: string
  u_port :: string
  u_path :: string
  u_search :: string
  u_hash :: string
  u_pairs :: "(string \<times> string) list"

definition u_host :: "url \<Rightarrow> string" where
  "u_host u = u_hostname u @ (if u_port u = [] then [] else '':'' @ u_port u)"

definition u_origin :: "url \<Rightarrow> string" where
  "u_origin u = u_protocol u @ ''//'' @ u_host u"

definition u_href :: "url \<Rightarrow> string" where
  "u_href u = u_protocol u @ ''//'' @ u_login u @ u_host u @ u_path u @ u_search u @ u_hash u"

text \<open>\<open>searchParams.append\<close> and \<open>set\<close>: the query is written anew from its pairs.\<close>

definition with_pairs :: "(string \<times> string) list \<Rightarrow> url \<Rightarrow> url" where
  "with_pairs pairs u = u\<lparr>u_pairs := pairs, u_search := (if pairs = [] then [] else ''?'' @ form_body pairs)\<rparr>"

definition append_pair :: "string \<Rightarrow> string \<Rightarrow> url \<Rightarrow> url" where
  "append_pair k v u = with_pairs (u_pairs u @ [(k, v)]) u"

fun set_pairs :: "string \<Rightarrow> string \<Rightarrow> (string \<times> string) list \<Rightarrow> (string \<times> string) list" where
  "set_pairs k v [] = [(k, v)]"
| "set_pairs k v ((k', v') # ps) =
     (if k' = k then (k, v) # filter (\<lambda>p. fst p \<noteq> k) ps else (k', v') # set_pairs k v ps)"

definition set_pair :: "string \<Rightarrow> string \<Rightarrow> url \<Rightarrow> url" where
  "set_pair k v u = with_pairs (set_pairs k v (u_pairs u)) u"

section \<open>The order of texts\<close>

text \<open>\<open><\<close> and \<open>sort\<close> compare texts by their code units.\<close>

fun text_le :: "string \<Rightarrow> string \<Rightarrow> bool" where
  "text_le [] t \<longleftrightarrow> True"
| "text_le (c # s) [] \<longleftrightarrow> False"
| "text_le (c # s) (d # t) \<longleftrightarrow> char_nat c < char_nat d \<or> c = d \<and> text_le s t"

lemma text_le_total: "text_le s t \<or> text_le t s"
proof (induction s t rule: text_le.induct)
  case (3 c s d t)
  have "char_nat c < char_nat d \<or> c = d \<or> char_nat d < char_nat c"
    by (metis char_of_char_nat nat_neq_iff)
  with 3 show ?case by auto
qed auto

lemma text_le_trans: "text_le s t \<Longrightarrow> text_le t u \<Longrightarrow> text_le s u"
proof (induction s t arbitrary: u rule: text_le.induct)
  case (3 c s d t)
  then show ?case by (cases u) auto
qed auto

lemma text_le_antisym: "text_le s t \<Longrightarrow> text_le t s \<Longrightarrow> s = t"
proof (induction s t rule: text_le.induct)
  case (2 c s)
  then show ?case by simp
next
  case (1 t)
  then show ?case by (cases t) auto
qed auto

interpretation text_order: total_comparison text_le
  by unfold_locales (use text_le_total text_le_trans in blast)+

definition pair_le :: "string \<times> string \<Rightarrow> string \<times> string \<Rightarrow> bool" where
  "pair_le a b \<longleftrightarrow> (if fst a = fst b then text_le (snd a) (snd b) else text_le (fst a) (fst b))"

interpretation pair_order: total_comparison pair_le
proof
  show "pair_le a b \<or> pair_le b a" for a b
    using text_le_total by (auto simp: pair_le_def)
  show "pair_le a c" if "pair_le a b" "pair_le b c" for a b c
    using that text_le_trans text_le_antisym
    by (auto simp: pair_le_def split: if_splits)
qed

lemma pair_le_antisym: "pair_le a b \<Longrightarrow> pair_le b a \<Longrightarrow> a = b"
  using text_le_antisym by (auto simp: pair_le_def prod_eq_iff split: if_splits)

text \<open>Two lists of the same elements, sorted, are the same.\<close>

lemma sorted_unique:
  assumes "total_comparison le" and antisym: "\<And>a b. le a b \<Longrightarrow> le b a \<Longrightarrow> a = b"
  shows "sorted_wrt le xs \<Longrightarrow> sorted_wrt le ys \<Longrightarrow> mset xs = mset ys \<Longrightarrow> xs = ys"
proof (induction xs arbitrary: ys)
  case Nil
  then show ?case by simp
next
  case (Cons x xs)
  then obtain y zs where ys: "ys = y # zs" by (cases ys) auto
  have "x = y"
  proof (rule ccontr)
    assume "x \<noteq> y"
    moreover have "x \<in> set ys" "y \<in> set (x # xs)"
      using Cons.prems(3) ys by (metis list.set_intros(1) set_mset_mset)+
    ultimately have "le y x" "le x y" using Cons.prems(1,2) ys by auto
    with antisym \<open>x \<noteq> y\<close> show False by blast
  qed
  with Cons ys show ?case by simp
qed

lemma mset_insert_by: "mset (insert_by le x xs) = add_mset x (mset xs)"
  by (induction xs) auto

lemma mset_sort_by: "mset (sort_by le xs) = mset xs"
  by (induction xs) (simp_all add: mset_insert_by)

lemma sort_by_mset:
  assumes "total_comparison le" "\<And>a b. le a b \<Longrightarrow> le b a \<Longrightarrow> a = b" "mset xs = mset ys"
  shows "sort_by le xs = sort_by le ys"
  by (rule sorted_unique [OF assms(1,2)])
    (simp_all add: total_comparison.sorted_sort_by [OF assms(1)] mset_sort_by assms(3))

end
