(* ===== verification/SigV4.thy ===== *)
theory SigV4
  imports Platform Model
begin

text \<open>
  \<open>packages/core/src/auth/sigv4.ts\<close>: AWS Signature Version 4. The hashes are the platform's: \<open>sha\<close>
  (SHA-256) and \<open>mac\<close> (HMAC with SHA-256) are parameters; the address arrives parsed. The time
  is its ISO text, \<open>2026-01-02T03:04:05.678Z\<close>.
\<close>

record sig_request =
  sig_method :: string
  sig_url :: url
  sig_headers :: "(string \<times> string) list"
  sig_body :: "byte list"

record sig_signed =
  signed_headers :: "(string \<times> string) list"
  signed_canonical :: string
  signed_to_sign :: string
  signed_signature :: string

definition hex :: "byte list \<Rightarrow> string" where
  "hex bs = concat (map (\<lambda>b. [hex_lower (unat b div 16), hex_lower (unat b mod 16)]) bs)"

text \<open>RFC 3986: letters, digits, \<open>-\<close>, \<open>.\<close>, \<open>_\<close> and \<open>~\<close> are left.\<close>

definition strict_unreserved :: "char \<Rightarrow> bool" where
  "strict_unreserved c \<longleftrightarrow> uri_unreserved c \<and> c \<notin> set ''!()*'' \<and> c \<noteq> CHR 0x27"

definition sig_encode :: "string \<Rightarrow> string" where
  "sig_encode s = percent_text strict_unreserved s"

definition sig_decode :: "string \<Rightarrow> string" where
  "sig_decode s = (case decode_uri s of Some t \<Rightarrow> t | None \<Rightarrow> s)"

definition sig_path :: "bool \<Rightarrow> string \<Rightarrow> string" where
  "sig_path s3 pathname =
     (let segments = split_on CHR ''/'' pathname;
          kept = filter (\<lambda>s. s \<noteq> []) segments
      in if s3 then join ''/'' (map (\<lambda>s. sig_encode (sig_decode s)) segments)
         else ''/'' @ join ''/'' (map sig_encode kept) @
           (if kept \<noteq> [] \<and> ends_with pathname ''/'' then ''/'' else []))"

definition sig_pair :: "string \<Rightarrow> string \<times> string" where
  "sig_pair pair =
     (case index_of CHR ''='' pair of
        None \<Rightarrow> (sig_encode (sig_decode pair), sig_encode (sig_decode []))
      | Some i \<Rightarrow> (sig_encode (sig_decode (take i pair)), sig_encode (sig_decode (drop (Suc i) pair))))"

definition query_of_pairs :: "string list \<Rightarrow> string" where
  "query_of_pairs pairs =
     join ''&'' (map (\<lambda>(k, v). k @ ''='' @ v) (sort_by pair_le (map sig_pair (filter (\<lambda>p. p \<noteq> []) pairs))))"

definition sig_query :: "string \<Rightarrow> string" where
  "sig_query search = query_of_pairs (split_on CHR ''&'' (drop 1 search))"

text \<open>\<open>replace(/[-:]|\.\d{3}/g, "")\<close>\<close>

fun strip_iso :: "string \<Rightarrow> string" where
  "strip_iso [] = []"
| "strip_iso (c # s) =
     (if c = CHR ''-'' \<or> c = CHR '':'' then strip_iso s
      else if c = CHR ''.'' \<and> 3 \<le> length s \<and> list_all is_digit (take 3 s) then strip_iso (drop 3 s)
      else c # strip_iso s)"

text \<open>\<open>trim().replace(/\s+/g, " ")\<close>\<close>

fun squeeze :: "bool \<Rightarrow> string \<Rightarrow> string" where
  "squeeze in_space [] = []"
| "squeeze in_space (c # s) =
     (if js_space c then (if in_space then squeeze True s else CHR '' '' # squeeze True s)
      else c # squeeze False s)"

definition one_space :: "string \<Rightarrow> string" where
  "one_space s = squeeze False s"

text \<open>What the signer adds.\<close>

definition sig_added :: "string \<Rightarrow> string \<Rightarrow> bool \<Rightarrow> string \<Rightarrow> (string \<times> string) list" where
  "sig_added date token s3 body_hash =
     [(''X-Amz-Date'', date)] @
     (if token \<noteq> [] then [(''X-Amz-Security-Token'', token)] else []) @
     (if s3 then [(''X-Amz-Content-Sha256'', body_hash)] else [])"

definition sig_own :: "(string \<times> string) list \<Rightarrow> (string \<times> string) list \<Rightarrow> (string \<times> string) list" where
  "sig_own added headers =
     filter (\<lambda>(name, _). \<not> list_ex (\<lambda>(w, _). to_lower w = to_lower name) added \<and> to_lower name \<noteq> ''host'') headers"

text \<open>One line per name, with its values in their order.\<close>

definition sig_by_name :: "(string \<times> string) list \<Rightarrow> (string \<times> string list) list" where
  "sig_by_name headers =
     fold (\<lambda>(name, value) m.
       let key = to_lower name
       in om_set key ((case om_get m key of None \<Rightarrow> [] | Some vs \<Rightarrow> vs) @ [one_space (trim value)]) m) headers []"

definition sig_canonical ::
    "string \<Rightarrow> string \<Rightarrow> string \<Rightarrow> (string \<times> string list) list \<Rightarrow> string list \<Rightarrow> string \<Rightarrow> string" where
  "sig_canonical verb path query by_name names body_hash =
     join [CHR 0x0A]
       ([verb, path, query] @
        map (\<lambda>n. n @ '':'' @ join '','' (case om_get by_name n of None \<Rightarrow> [] | Some vs \<Rightarrow> vs)) names @
        [[], join '';'' names, body_hash])"

text \<open>The signature, once the address is in its canonical parts.\<close>

definition sign_parts ::
    "(byte list \<Rightarrow> byte list) \<Rightarrow> (byte list \<Rightarrow> byte list \<Rightarrow> byte list) \<Rightarrow> string \<Rightarrow> string \<Rightarrow> string \<Rightarrow>
      (string \<times> string) list \<Rightarrow> byte list \<Rightarrow> aws_auth \<Rightarrow> string \<Rightarrow> string \<Rightarrow> sig_signed" where
  "sign_parts sha mac verb path query headers body credentials time host =
     (let s3 = aws_service credentials = ''s3'';
          date = strip_iso time;
          day = take 8 date;
          body_hash = hex (sha body);
          added = sig_added date (aws_session_token credentials) s3 body_hash;
          by_name = sig_by_name ([(''Host'', host)] @ sig_own added headers @ added);
          names = sort_by text_le (map fst by_name);
          canonical = sig_canonical verb path query by_name names body_hash;
          scope = day @ ''/'' @ aws_region credentials @ ''/'' @ aws_service credentials @ ''/aws4_request'';
          to_sign = join [CHR 0x0A] [''AWS4-HMAC-SHA256'', date, scope, hex (sha (utf8 canonical))];
          key = fold (\<lambda>part k. mac k (utf8 part)) [day, aws_region credentials, aws_service credentials, ''aws4_request'']
            (utf8 (''AWS4'' @ aws_secret_key credentials));
          signature = hex (mac key (utf8 to_sign))
      in \<lparr>signed_headers = added @ [(''Authorization'',
            ''AWS4-HMAC-SHA256 Credential='' @ aws_access_key credentials @ ''/'' @ scope @
            '', SignedHeaders='' @ join '';'' names @ '', Signature='' @ signature)],
          signed_canonical = canonical, signed_to_sign = to_sign, signed_signature = signature\<rparr>)"

definition sign_v4 ::
    "(byte list \<Rightarrow> byte list) \<Rightarrow> (byte list \<Rightarrow> byte list \<Rightarrow> byte list) \<Rightarrow> sig_request \<Rightarrow> aws_auth \<Rightarrow> string \<Rightarrow> sig_signed" where
  "sign_v4 sha mac request credentials time =
     sign_parts sha mac (sig_method request)
       (sig_path (aws_service credentials = ''s3'') (u_path (sig_url request)))
       (sig_query (u_search (sig_url request))) (sig_headers request) (sig_body request)
       credentials time (u_host (sig_url request))"

section \<open>Lemmas\<close>

lemma query_of_pairs_mset: "mset ps = mset qs \<Longrightarrow> query_of_pairs ps = query_of_pairs qs"
  unfolding query_of_pairs_def
  by (subst sort_by_mset [OF pair_order.total_comparison_axioms pair_le_antisym, of _ "map sig_pair (filter (\<lambda>p. p \<noteq> []) qs)"])
    (simp_all add: mset_map mset_filter)

lemma split_query: "ps \<noteq> [] \<Longrightarrow> \<forall>p \<in> set ps. CHR ''&'' \<notin> set p \<Longrightarrow> sig_query (''?'' @ join ''&'' ps) = query_of_pairs ps"
  by (simp add: sig_query_def split_on_join)

lemma sig_by_name_step:
  "om_get (sig_by_name (hs @ [(n, v)])) k =
     (if to_lower n = k then Some ((case om_get (sig_by_name hs) k of None \<Rightarrow> [] | Some vs \<Rightarrow> vs) @ [one_space (trim v)])
      else om_get (sig_by_name hs) k)"
  by (auto simp: sig_by_name_def Let_def om_get_set)

text \<open>The line of a name holds exactly the values of the headers of that name, in order.\<close>

lemma sig_by_name_values:
  "(case om_get (sig_by_name hs) k of None \<Rightarrow> [] | Some vs \<Rightarrow> vs) =
     map (\<lambda>(_, v). one_space (trim v)) (filter (\<lambda>(n, _). to_lower n = k) hs)"
proof (induction hs rule: rev_induct)
  case (snoc h hs)
  then show ?case by (cases h) (auto simp: sig_by_name_step split: option.splits)
qed (simp add: sig_by_name_def om_get_def)

lemma sig_by_name_keys_gen:
  "set (map fst (fold (\<lambda>(name, value) m. om_set (to_lower name) (f name value m) m) hs m)) =
     set (map fst m) \<union> (\<lambda>(n, _). to_lower n) ` set hs"
  "distinct (map fst m) \<Longrightarrow>
    distinct (map fst (fold (\<lambda>(name, value) m. om_set (to_lower name) (f name value m) m) hs m))"
  by (induction hs arbitrary: m) (simp_all add: case_prod_unfold)

lemma sig_by_name_keys: "set (map fst (sig_by_name hs)) = (\<lambda>(n, _). to_lower n) ` set hs"
  "distinct (map fst (sig_by_name hs))"
  unfolding sig_by_name_def Let_def using sig_by_name_keys_gen [where hs = hs and m = "[]"] by simp_all

lemma sig_own_names:
  "(n, v) \<in> set (sig_own added hs) \<longleftrightarrow>
     (n, v) \<in> set hs \<and> to_lower n \<notin> (\<lambda>(w, _). to_lower w) ` set added \<and> to_lower n \<noteq> ''host''"
  by (force simp: sig_own_def list_ex_iff)

lemma sig_added_once:
  assumes "(n, v) \<in> set (sig_added date token s3 h)"
  shows "filter (\<lambda>(m, _). to_lower m = to_lower n) (sig_added date token s3 h) = [(n, v)]"
    and "to_lower n \<noteq> ''host''"
proof -
  have low: "to_lower ''X-Amz-Date'' = ''x-amz-date''"
    "to_lower ''X-Amz-Security-Token'' = ''x-amz-security-token''"
    "to_lower ''X-Amz-Content-Sha256'' = ''x-amz-content-sha256''" by code_simp+
  have "(n = ''X-Amz-Date'' \<and> v = date) \<or> (n = ''X-Amz-Security-Token'' \<and> v = token \<and> token \<noteq> []) \<or>
      (n = ''X-Amz-Content-Sha256'' \<and> v = h \<and> s3)"
    using assms by (simp add: sig_added_def split: if_splits)
  then show "filter (\<lambda>(m, _). to_lower m = to_lower n) (sig_added date token s3 h) = [(n, v)]"
    "to_lower n \<noteq> ''host''"
    by (elim disjE conjE; simp add: sig_added_def low)+
qed

section \<open>Properties\<close>

text \<open>
  The signature does not depend on the order of the query's parameters: two addresses whose
  queries hold the same pairs give the same canonical request and the same headers.
\<close>

theorem signature_ignores_query_order:
  assumes "\<forall>p \<in> set ps. CHR ''&'' \<notin> set p" and "ps \<noteq> []" and "mset ps = mset qs"
  shows "sign_v4 sha mac (r\<lparr>sig_url := u\<lparr>u_search := ''?'' @ join ''&'' ps\<rparr>\<rparr>) credentials time =
    sign_v4 sha mac (r\<lparr>sig_url := u\<lparr>u_search := ''?'' @ join ''&'' qs\<rparr>\<rparr>) credentials time"
proof -
  have "set ps = set qs" "qs \<noteq> []" using assms by (metis set_mset_mset, metis mset_zero_iff_right)
  then have "sig_query (''?'' @ join ''&'' ps) = sig_query (''?'' @ join ''&'' qs)"
    using assms query_of_pairs_mset [of ps qs] split_query [of ps] split_query [of qs] by simp
  then show ?thesis by (simp add: sign_v4_def u_host_def)
qed

definition example_url :: url where
  "example_url = \<lparr>u_protocol = ''https:'', u_login = [], u_hostname = ''a.example'', u_port = [],
     u_path = ''/'', u_search = [], u_hash = [], u_pairs = []\<rparr>"

definition example_sig_request :: sig_request where
  "example_sig_request = \<lparr>sig_method = ''GET'', sig_url = example_url, sig_headers = [(''X-Amz-Date'', ''now'')],
     sig_body = []\<rparr>"

definition example_aws :: aws_auth where
  "example_aws = \<lparr>aws_access_key = ''AK'', aws_secret_key = ''SK'', aws_session_token = [],
     aws_region = ''eu'', aws_service = ''s3''\<rparr>"

lemma signature_ignores_query_order_witness:
  "sign_v4 rev (@) (example_sig_request\<lparr>sig_url := example_url\<lparr>u_search := ''?'' @ join ''&'' [''b=2'', ''a=1'']\<rparr>\<rparr>)
     example_aws ''2026-01-02T03:04:05.678Z'' =
   sign_v4 rev (@) (example_sig_request\<lparr>sig_url := example_url\<lparr>u_search := ''?'' @ join ''&'' [''a=1'', ''b=2'']\<rparr>\<rparr>)
     example_aws ''2026-01-02T03:04:05.678Z''"
  by (rule signature_ignores_query_order) auto

lemma sig_names_signed:
  "(\<lambda>(n, v :: string). to_lower n) ` set ([(''Host'', host)] @ sig_own added headers @ added) =
     {''host''} \<union> (\<lambda>(n, _). to_lower n) ` set headers \<union> (\<lambda>(n, _). to_lower n) ` set added"
proof -
  let ?f = "\<lambda>(n, v :: string). to_lower n"
  have host: "to_lower ''Host'' = ''host''" by code_simp
  have sub: "?f ` set (sig_own added headers) \<subseteq> ?f ` set headers"
    by (intro image_mono) (auto simp: sig_own_names)
  have sup: "?f ` set headers \<subseteq> insert ''host'' (?f ` set (sig_own added headers) \<union> ?f ` set added)"
  proof (rule image_subsetI)
    fix x assume x: "x \<in> set headers"
    obtain n v where nv: "x = (n, v)" by (cases x)
    have "(n, v) \<in> set (sig_own added headers) \<or> to_lower n \<in> ?f ` set added \<or> to_lower n = ''host''"
      using x nv sig_own_names [of n v added headers] by blast
    then show "?f x \<in> insert ''host'' (?f ` set (sig_own added headers) \<union> ?f ` set added)"
      unfolding nv by force
  qed
  have "A \<subseteq> H \<Longrightarrow> H \<subseteq> insert h (A \<union> B) \<Longrightarrow> insert h (A \<union> B) = {h} \<union> H \<union> B"
    for A B H :: "string set" and h by blast
  from this [OF sub sup] show ?thesis by (simp add: image_Un host)
qed

lemma sig_added_signed:
  assumes "(n, v) \<in> set (sig_added date token s3 body_hash)" "added = sig_added date token s3 body_hash"
  shows "om_get (sig_by_name ([(''Host'', host)] @ sig_own added headers @ added)) (to_lower n) = Some [one_space (trim v)]"
proof -
  let ?hs = "[(''Host'', host)] @ sig_own added headers @ added"
  have host: "to_lower ''Host'' = ''host''" by code_simp
  have "filter (\<lambda>(m, _). to_lower m = to_lower n) (sig_own added headers) = []"
    using assms by (auto simp: filter_empty_conv sig_own_names image_iff)
  moreover have "filter (\<lambda>(m, _). to_lower m = to_lower n) added = [(n, v)]" "to_lower n \<noteq> ''host''"
    using sig_added_once [OF assms(1)] by (simp_all add: assms(2))
  ultimately have "filter (\<lambda>(m, _). to_lower m = to_lower n) ?hs = [(n, v)]" by (simp add: host)
  then have "(case om_get (sig_by_name ?hs) (to_lower n) of None \<Rightarrow> [] | Some vs \<Rightarrow> vs) = [one_space (trim v)]"
    unfolding sig_by_name_values by simp
  then show ?thesis by (simp split: option.splits)
qed

text \<open>
  C19: what is signed: a line for every header given, for the host and for what the signer
  adds, each name once and in order; a header the signer writes itself is signed with the
  signer's value alone, whatever the request had under that name.
\<close>

theorem signature_covers_headers:
  fixes sha :: "byte list \<Rightarrow> byte list" and body :: "byte list" and c :: aws_auth
    and time host :: string and headers :: "(string \<times> string) list"
  defines "added \<equiv> sig_added (strip_iso time) (aws_session_token c) (aws_service c = ''s3'') (hex (sha body))"
  defines "by_name \<equiv> sig_by_name ([(''Host'', host)] @ sig_own added headers @ added)"
  defines "names \<equiv> sort_by text_le (map fst by_name)"
  shows "signed_canonical (sign_parts sha mac verb path query headers body c time host) =
      sig_canonical verb path query by_name names (hex (sha body)) \<and>
    sorted_wrt text_le names \<and> distinct names \<and>
    set names = {''host''} \<union> (\<lambda>(n, _). to_lower n) ` set headers \<union> (\<lambda>(n, _). to_lower n) ` set added \<and>
    (\<forall>(n, v) \<in> set added. om_get by_name (to_lower n) = Some [one_space (trim v)])"
proof (intro conjI)
  show "signed_canonical (sign_parts sha mac verb path query headers body c time host) =
      sig_canonical verb path query by_name names (hex (sha body))"
    by (simp add: sign_parts_def Let_def names_def by_name_def added_def)
  show "sorted_wrt text_le names" unfolding names_def by (rule text_order.sorted_sort_by)
  show "distinct names" by (simp add: names_def by_name_def sig_by_name_keys(2))
  have "set names = (\<lambda>(n, v :: string). to_lower n) ` set ([(''Host'', host)] @ sig_own added headers @ added)"
    unfolding names_def by_name_def by (simp add: sig_by_name_keys(1) [unfolded set_map])
  then show "set names = {''host''} \<union> (\<lambda>(n, _). to_lower n) ` set headers \<union> (\<lambda>(n, _). to_lower n) ` set added"
    unfolding sig_names_signed .
  show "\<forall>(n, v) \<in> set added. om_get by_name (to_lower n) = Some [one_space (trim v)]"
    unfolding by_name_def using sig_added_signed [OF _ refl] by (simp only: added_def) blast
qed

lemma signature_covers_headers_witness:
  "om_get (sig_by_name ([(''Host'', ''a.example'')] @ sig_own [(''X-Amz-Date'', ''20260102T030405Z'')] [(''X-Amz-Date'', ''now'')] @
     [(''X-Amz-Date'', ''20260102T030405Z'')])) ''x-amz-date'' = Some [''20260102T030405Z'']"
proof -
  let ?c = "example_aws\<lparr>aws_service := ''ec2''\<rparr>" and ?time = "''2026-01-02T03:04:05.678Z''"
  have "sig_added (strip_iso ?time) (aws_session_token ?c) (aws_service ?c = ''s3'') (hex (rev [])) =
      [(''X-Amz-Date'', ''20260102T030405Z'')]" by code_simp
  moreover have "to_lower ''X-Amz-Date'' = ''x-amz-date''" "one_space (trim ''20260102T030405Z'') = ''20260102T030405Z''"
    by code_simp+
  ultimately show ?thesis
    using signature_covers_headers [of rev "(@)" "''GET''" "''/''" "[]" "[(''X-Amz-Date'', ''now'')]" "[]" ?c ?time "''a.example''"]
    by (simp only:) simp
qed

end
