(* ===== verification/OAuth.thy ===== *)
theory OAuth
  imports Platform JsValues Model
begin

text \<open>
  \<open>packages/core/src/auth/oauth2.ts\<close>: the requests an OAuth 2.0 token is fetched with, what the
  endpoint answers, and a token as it is kept. The address, the hash and the random identifiers
  are the platform's; the time is a parameter.
\<close>

record oauth_token =
  ot_access :: string
  ot_refresh :: string
  ot_expires_at :: "rat option"

fun grant_text :: "oauth_grant \<Rightarrow> string" where
  "grant_text AuthorizationCode = ''authorization_code''"
| "grant_text ClientCredentials = ''client_credentials''"
| "grant_text PasswordGrant = ''password''"

definition oauth_token_key :: "oauth2_auth \<Rightarrow> string" where
  "oauth_token_key a =
     stringify (JArr (map JStr [grant_text (oa_grant a), oa_token_url a, oa_client_id a, oa_scope a,
       if oa_grant a = PasswordGrant then oa_username a else []]))"

text \<open>\<open>sha\<close> is SHA-256; the two identifiers are new ones.\<close>

definition pkce_pair :: "(byte list \<Rightarrow> byte list) \<Rightarrow> string \<Rightarrow> string \<Rightarrow> string \<times> string" where
  "pkce_pair sha id1 id2 = (let verifier = id1 @ id2 in (verifier, base64url (sha (utf8 verifier))))"

definition authorization_url ::
    "(string \<Rightarrow> url option) \<Rightarrow> oauth2_auth \<Rightarrow> string \<Rightarrow> string \<Rightarrow> string \<Rightarrow> string + string" where
  "authorization_url url_parse a redirect_uri st challenge =
     (case url_parse (oa_auth_url a) of
        None \<Rightarrow> Inl ''The authorization URL is not an address. Nothing was opened.''
      | Some u \<Rightarrow>
          Inr (u_href (fold (\<lambda>(name, value). set_pair name value)
            ([(''response_type'', ''code''), (''client_id'', oa_client_id a), (''redirect_uri'', redirect_uri),
              (''state'', st), (''code_challenge'', challenge), (''code_challenge_method'', ''S256'')] @
             (if oa_scope a \<noteq> [] then [(''scope'', oa_scope a)] else [])) u)))"

datatype oauth_exchange = ForCode string string string | ForRefresh string | ForGrant

record token_request =
  tr_method :: string
  tr_url :: string
  tr_headers :: "(string \<times> string) list"
  tr_body :: string

definition grant_form :: "oauth2_auth \<Rightarrow> oauth_exchange \<Rightarrow> string + (string \<times> string) list" where
  "grant_form a exchange =
     (case exchange of
        ForGrant \<Rightarrow>
          if oa_grant a = AuthorizationCode then
            Inl ''This grant needs a sign-in: choose Get token in the Auth tab.''
          else
            Inr ([(''grant_type'', grant_text (oa_grant a))] @
              (if oa_grant a = PasswordGrant
               then [(''username'', oa_username a), (''password'', oa_password a)] else []) @
              (if oa_scope a \<noteq> [] then [(''scope'', oa_scope a)] else []))
      | ForCode code verifier redirect_uri \<Rightarrow>
          Inr [(''grant_type'', ''authorization_code''), (''code'', code), (''redirect_uri'', redirect_uri),
            (''code_verifier'', verifier)]
      | ForRefresh token \<Rightarrow> Inr [(''grant_type'', ''refresh_token''), (''refresh_token'', token)])"

definition client_in_header :: "oauth2_auth \<Rightarrow> bool" where
  "client_in_header a \<longleftrightarrow> oa_client_auth a = ClientHeader \<and> oa_client_secret a \<noteq> []"

definition token_request :: "oauth2_auth \<Rightarrow> oauth_exchange \<Rightarrow> string + token_request" where
  "token_request a exchange =
     (case grant_form a exchange of
        Inl e \<Rightarrow> Inl e
      | Inr form \<Rightarrow>
          (let headers = [(''Content-Type'', ''application/x-www-form-urlencoded''), (''Accept'', ''application/json'')];
               pair = form_encode (oa_client_id a) @ '':'' @ form_encode (oa_client_secret a)
           in if client_in_header a then
                Inr \<lparr>tr_method = ''POST'', tr_url = oa_token_url a,
                  tr_headers = headers @ [(''Authorization'', ''Basic '' @ base64 (utf8 pair))],
                  tr_body = form_body form\<rparr>
              else
                Inr \<lparr>tr_method = ''POST'', tr_url = oa_token_url a, tr_headers = headers,
                  tr_body = form_body (form @
                    (if oa_client_id a \<noteq> [] then [(''client_id'', oa_client_id a)] else []) @
                    (if oa_client_secret a \<noteq> [] then [(''client_secret'', oa_client_secret a)] else []))\<rparr>))"

text \<open>\<open>previous\<close> is the token the refresh was made with.\<close>

definition read_token_response ::
    "nat \<Rightarrow> string \<Rightarrow> rat \<Rightarrow> oauth_token option \<Rightarrow> string + oauth_token" where
  "read_token_response status body now previous =
     (case parse_json body of
        None \<Rightarrow> Inl (''The token endpoint answered '' @ show_nat status @ '' with something that is not JSON.'')
      | Some answer \<Rightarrow>
          (let failed = (case member answer ''error'' of Some (JStr e) \<Rightarrow> Some e | _ \<Rightarrow> None)
           in if status < 200 \<or> status > 299 \<or> failed \<noteq> None then
                Inl (''The token endpoint refused: '' @
                  (case failed of Some e \<Rightarrow> take 200 e | None \<Rightarrow> show_nat status) @
                  (case member answer ''error_description'' of
                     Some (JStr d) \<Rightarrow> '' ('' @ take 300 d @ '')'' | _ \<Rightarrow> []) @ ''.'')
              else
                (case member answer ''access_token'' of
                   Some (JStr (c # access)) \<Rightarrow>
                     (case (case member answer ''token_type'' of
                              Some (JStr t) \<Rightarrow> if to_lower t \<noteq> ''bearer'' then Some t else None
                            | _ \<Rightarrow> None) of
                        Some t \<Rightarrow> Inl (''The token is of a type the app cannot send ('' @ take 40 t @
                          ''): only Bearer tokens are.'')
                      | None \<Rightarrow>
                          Inr \<lparr>ot_access = c # access,
                            ot_refresh = (case member answer ''refresh_token'' of
                               Some (JStr (r # rs)) \<Rightarrow> r # rs
                             | _ \<Rightarrow> (case previous of Some p \<Rightarrow> ot_refresh p | None \<Rightarrow> [])),
                            ot_expires_at = (case js_number (member answer ''expires_in'') of
                               Finite d \<Rightarrow> if 0 < mantissa d then Some (now + rat_of_num d * 1000) else None
                             | _ \<Rightarrow> None)\<rparr>)
                 | _ \<Rightarrow> Inl (''The token endpoint'' @ [CHR 0x27] @ ''s answer holds no access token.''))))"

definition parse_stored_token :: "string \<Rightarrow> oauth_token option" where
  "parse_stored_token s =
     (case parse_json s of
        None \<Rightarrow> None
      | Some v \<Rightarrow>
          (case (member v ''accessToken'', member v ''refreshToken'', member v ''expiresAt'') of
             (Some (JStr a), Some (JStr r), Some JNull) \<Rightarrow>
               Some \<lparr>ot_access = a, ot_refresh = r, ot_expires_at = None\<rparr>
           | (Some (JStr a), Some (JStr r), Some (JNum d)) \<Rightarrow>
               Some \<lparr>ot_access = a, ot_refresh = r, ot_expires_at = Some (rat_of_num d)\<rparr>
           | _ \<Rightarrow> None))"

definition token_expired :: "oauth_token \<Rightarrow> rat \<Rightarrow> bool" where
  "token_expired t now \<longleftrightarrow> (case ot_expires_at t of None \<Rightarrow> False | Some e \<Rightarrow> e \<le> now)"

section \<open>Properties\<close>

text \<open>
  The name a token is kept under says what the token is for and nothing else: two auths
  share a token exactly when their grant, their endpoint, their client, their scope and, for a
  password grant, their user are the same; no secret is part of the name.
\<close>

theorem token_key_identifies:
  "oauth_token_key a = oauth_token_key b \<longleftrightarrow>
     oa_grant a = oa_grant b \<and> oa_token_url a = oa_token_url b \<and> oa_client_id a = oa_client_id b \<and>
     oa_scope a = oa_scope b \<and> (oa_grant a = PasswordGrant \<longrightarrow> oa_username a = oa_username b)"
proof -
  let ?v = "\<lambda>a. JArr (map JStr [grant_text (oa_grant a), oa_token_url a, oa_client_id a, oa_scope a,
       if oa_grant a = PasswordGrant then oa_username a else []])"
  have inj: "grant_text g = grant_text h \<longleftrightarrow> g = h" for g h by (cases g; cases h) simp_all
  have "parse_json (oauth_token_key x) = Some (?v x)" for x
    unfolding oauth_token_key_def by (rule parse_stringify) simp
  then have "oauth_token_key a = oauth_token_key b \<longleftrightarrow> ?v a = ?v b"
    by (metis (no_types, lifting) oauth_token_key_def option.inject)
  also have "\<dots> \<longleftrightarrow> oa_grant a = oa_grant b \<and> oa_token_url a = oa_token_url b \<and> oa_client_id a = oa_client_id b \<and>
     oa_scope a = oa_scope b \<and> (oa_grant a = PasswordGrant \<longrightarrow> oa_username a = oa_username b)"
    by (auto simp: inj)
  finally show ?thesis .
qed

text \<open>
  A token request names its client exactly once: in the Basic header, from which the
  form-encoded identifier and secret decode, and then not in the form; or in the form, and then
  there is no Authorization header. The form reads back as it was meant.
\<close>

theorem token_request_names_client_once:
  assumes "token_request a exchange = Inr r"
  shows "\<exists>form pairs. grant_form a exchange = Inr form \<and> form_parse (tr_body r) = Some pairs \<and>
    (client_in_header a \<and> pairs = form \<and>
       (\<exists>v. filter (\<lambda>(n, _). n = ''Authorization'') (tr_headers r) = [(''Authorization'', v)] \<and>
          Option.bind (atob (drop (length ''Basic '') v)) utf8_decode =
            Some (form_encode (oa_client_id a) @ '':'' @ form_encode (oa_client_secret a))) \<or>
     \<not> client_in_header a \<and> filter (\<lambda>(n, _). n = ''Authorization'') (tr_headers r) = [] \<and>
       pairs = form @ (if oa_client_id a \<noteq> [] then [(''client_id'', oa_client_id a)] else []) @
         (if oa_client_secret a \<noteq> [] then [(''client_secret'', oa_client_secret a)] else []))"
  using assms by (auto simp: token_request_def Let_def split: sum.splits if_splits)

definition example_oauth :: oauth2_auth where
  "example_oauth = \<lparr>oa_grant = ClientCredentials, oa_auth_url = [], oa_token_url = ''https://id/t'',
     oa_client_id = ''app'', oa_client_secret = ''a:b'', oa_scope = ''read'', oa_username = [], oa_password = [],
     oa_client_auth = ClientHeader, oa_retry_on_401 = False\<rparr>"

lemma token_request_names_client_once_witness:
  "\<exists>r. token_request example_oauth ForGrant = Inr r \<and>
     form_parse (tr_body r) = Some [(''grant_type'', ''client_credentials''), (''scope'', ''read'')]"
proof -
  have "\<exists>r. token_request example_oauth ForGrant = Inr r"
    by (simp add: token_request_def grant_form_def example_oauth_def Let_def)
  then obtain r where r: "token_request example_oauth ForGrant = Inr r" ..
  from token_request_names_client_once [OF r] r show ?thesis
    by (auto simp: grant_form_def example_oauth_def client_in_header_def)
qed

text \<open>
  A token is taken from an answer only when the endpoint answered with success, named no
  error, gave a token that is not empty and is of no other type than Bearer; a refresh that
  brings no refresh token keeps the one it was made with, and one that brings a new one replaces it.
\<close>

theorem token_only_from_success:
  assumes "read_token_response status body now previous = Inr t"
  shows "200 \<le> status \<and> status \<le> 299 \<and> ot_access t \<noteq> [] \<and>
    (\<exists>answer. parse_json body = Some answer \<and>
       member answer ''access_token'' = Some (JStr (ot_access t)) \<and>
       (\<forall>e. member answer ''error'' \<noteq> Some (JStr e)) \<and>
       (\<forall>y. member answer ''token_type'' = Some (JStr y) \<longrightarrow> to_lower y = ''bearer'') \<and>
       (case member answer ''refresh_token'' of
          Some (JStr (c # s)) \<Rightarrow> ot_refresh t = c # s
        | _ \<Rightarrow> ot_refresh t = (case previous of None \<Rightarrow> [] | Some p \<Rightarrow> ot_refresh p))) \<and>
    (\<forall>e. ot_expires_at t = Some e \<longrightarrow> now < e)"
proof -
  obtain answer where json: "parse_json body = Some answer"
    using assms by (auto simp: read_token_response_def split: option.splits)
  define failed where "failed = (case member answer ''error'' of Some (JStr e) \<Rightarrow> Some e | _ \<Rightarrow> None)"
  have ok: "200 \<le> status" "status \<le> 299" "failed = None"
    using assms unfolding read_token_response_def json option.case failed_def [symmetric] Let_def
    by (auto split: if_splits)
  then have no_error: "\<forall>e. member answer ''error'' \<noteq> Some (JStr e)"
    by (auto simp: failed_def)
  have if_not: "\<not> (status < 200 \<or> status > 299 \<or> failed \<noteq> None)" using ok by auto
  note step = assms [unfolded read_token_response_def json option.case failed_def [symmetric] Let_def if_not_P [OF if_not]]
  obtain c access where access: "member answer ''access_token'' = Some (JStr (c # access))"
    using step by (auto split: option.splits json.splits list.splits)
  define other where "other = (case member answer ''token_type'' of
      Some (JStr y) \<Rightarrow> if to_lower y \<noteq> ''bearer'' then Some y else None | _ \<Rightarrow> None)"
  note step2 = step [unfolded access option.case json.case list.case other_def [symmetric]]
  have other: "other = None" using step2 by (auto split: option.splits)
  then have bearer: "\<forall>y. member answer ''token_type'' = Some (JStr y) \<longrightarrow> to_lower y = ''bearer''"
    by (auto simp: other_def split: if_splits)
  have t: "t = \<lparr>ot_access = c # access,
      ot_refresh = (case member answer ''refresh_token'' of
         Some (JStr (r # rs)) \<Rightarrow> r # rs
       | _ \<Rightarrow> (case previous of Some p \<Rightarrow> ot_refresh p | None \<Rightarrow> [])),
      ot_expires_at = (case js_number (member answer ''expires_in'') of
         Finite d \<Rightarrow> if 0 < mantissa d then Some (now + rat_of_num d * 1000) else None
       | _ \<Rightarrow> None)\<rparr>"
    using step2 unfolding other option.case by simp
  have "0 < rat_of_num d" if "0 < mantissa d" for d
    using that by (simp add: rat_of_num_def)
  then have "now < e" if "ot_expires_at t = Some e" for e
    using that unfolding t by (auto split: js_num.splits if_splits)
  moreover have "case member answer ''refresh_token'' of
      Some (JStr (c # s)) \<Rightarrow> ot_refresh t = c # s
    | _ \<Rightarrow> ot_refresh t = (case previous of None \<Rightarrow> [] | Some p \<Rightarrow> ot_refresh p)"
    unfolding t by (simp split: option.splits json.splits list.splits)
  moreover have "ot_access t = c # access" unfolding t by simp
  ultimately show ?thesis using ok json access no_error bearer by simp
qed

lemma token_only_from_success_witness:
  "\<exists>t. read_token_response 200 (stringify (JObj [(''access_token'', JStr ''abc'')])) 0 None = Inr t \<and> ot_access t \<noteq> []"
proof -
  have "\<exists>t. read_token_response 200 (stringify (JObj [(''access_token'', JStr ''abc'')])) 0 None = Inr t"
    by (simp add: read_token_response_def parse_stringify Let_def member_def om_get_def js_number_def)
  then obtain t where t: "read_token_response 200 (stringify (JObj [(''access_token'', JStr ''abc'')])) 0 None = Inr t" ..
  from token_only_from_success [OF t] t show ?thesis by blast
qed

text \<open>
  A token that is kept is read back as it was: its JSON with the time of its end, a decimal.
\<close>

theorem stored_token_round_trip:
  assumes "normal_num d"
  shows "parse_stored_token (stringify (JObj [(''accessToken'', JStr a), (''refreshToken'', JStr r), (''expiresAt'', JNum d)])) =
      Some \<lparr>ot_access = a, ot_refresh = r, ot_expires_at = Some (rat_of_num d)\<rparr> \<and>
    parse_stored_token (stringify (JObj [(''accessToken'', JStr a), (''refreshToken'', JStr r), (''expiresAt'', JNull)])) =
      Some \<lparr>ot_access = a, ot_refresh = r, ot_expires_at = None\<rparr>"
  using assms by (simp add: parse_stored_token_def parse_stringify member_def om_get_def)

lemma stored_token_round_trip_witness:
  "parse_stored_token (stringify (JObj [(''accessToken'', JStr ''a''), (''refreshToken'', JStr []), (''expiresAt'', JNum (Num 15 1))])) =
     Some \<lparr>ot_access = ''a'', ot_refresh = [], ot_expires_at = Some (rat_of_num (Num 15 1))\<rparr>"
  by (rule conjunct1 [OF stored_token_round_trip]) (simp add: normal_num_def)

end
