(* ===== verification/Build.thy ===== *)
theory Build
  imports Wire SigV4 OAuth
begin

text \<open>
  \<open>packages/core/src/send/build.ts\<close>: the request as it is transmitted, from the request as it is
  composed. What the source awaits (the vault, the user's answer, a file, a token) is a field of
  the context, a function of what it is asked; a throw is \<open>Inl\<close>. The variables read within one
  build are the same rows. Each \<open>new VariableResolver\<close> draws its dynamic values from a stream of
  its own (\<open>bc_fresh\<close> by the number of the resolver within the build). What the source awaits at once
  (\<open>Promise.all\<close>) is done in order here: which of two failures at once is reported is not modelled.
\<close>

section \<open>Errors and types\<close>

datatype send_error =
    NestingError "string list"
  | UnresolvedVariables "string list"
  | SendBlocked string
  | SendDeclined string
  | OAuthRefused string
  | OtherError string

record blob =
  blob_type :: string
  blob_bytes :: "byte list"

datatype form_entry = EntryText string | EntryFile blob string

datatype body_data = DataText string | DataFile blob | DataForm "(string \<times> form_entry) list"

record sent_body =
  sb_data :: body_data
  sb_type :: "string option"

record built_request =
  br_method :: string
  br_url :: string
  br_headers :: "(string \<times> string) list"
  br_body :: "body_data option"
  br_secrets :: "string list"
  br_vaulted :: "(string \<times> variable_scope option) list"
  br_credentials :: "string list"

record composed =
  com_url :: string
  com_scopes :: scope_stack
  com_accepted :: "string list option"

record build_context =
  bc_scopes :: scope_stack
  bc_ancestors :: "ancestor list"
  bc_read_secrets :: "string list \<Rightarrow> send_error + (string \<Rightarrow> string option)"
  bc_read_file :: "file_ref \<Rightarrow> send_error + blob"
  bc_block_unresolved :: bool
  bc_composed :: "composed option"
  bc_ask_host :: "(string \<Rightarrow> string \<Rightarrow> bool) option"
  bc_oauth_token :: "(oauth2_auth \<Rightarrow> string \<Rightarrow> bool \<Rightarrow> send_error + string) option"
  bc_renew_token :: bool
  bc_last_event_id :: "string option"
  bc_fresh :: "nat \<Rightarrow> string \<Rightarrow> nat \<Rightarrow> string"

text \<open>What the platform does for a build: addresses, hashes, the time as its ISO text.\<close>

record platform =
  pf_url :: "string \<Rightarrow> url option"
  pf_sha :: "byte list \<Rightarrow> byte list"
  pf_mac :: "byte list \<Rightarrow> byte list \<Rightarrow> byte list"
  pf_has_crypto :: bool
  pf_time :: string

section \<open>The parts of a request\<close>

definition is_body_method :: "string \<Rightarrow> bool" where
  "is_body_method m \<longleftrightarrow> m \<noteq> [] \<and> m \<noteq> ''GET'' \<and> m \<noteq> ''HEAD''"

definition sent_headers :: "row list \<Rightarrow> (string \<times> string) list" where
  "sent_headers rows =
     map (\<lambda>r. (trim (row_key r), row_value r)) (filter (\<lambda>r. row_enabled r \<and> trim (row_key r) \<noteq> []) rows)"

definition has_explicit_scheme :: "string \<Rightarrow> bool" where
  "has_explicit_scheme t \<longleftrightarrow> starts_with (to_lower t) ''http://'' \<or> starts_with (to_lower t) ''https://''"

definition url_dropped :: "char \<Rightarrow> bool" where
  "url_dropped c \<longleftrightarrow> c = CHR 0x09 \<or> c = CHR 0x0A \<or> c = CHR 0x0D"

definition normalize_url :: "string \<Rightarrow> string" where
  "normalize_url t =
     (let address = percent_text (\<lambda>c. \<not> url_dropped c) t
      in if has_explicit_scheme address then address else ''https://'' @ address)"

definition append_query_param :: "(string \<Rightarrow> url option) \<Rightarrow> string \<Rightarrow> string \<Rightarrow> string \<Rightarrow> string" where
  "append_query_param url_parse address key value =
     (case url_parse (normalize_url address) of
        None \<Rightarrow> address
      | Some u \<Rightarrow> u_href (append_pair key value u))"

text \<open>A throw of the resolver, as a send's error.\<close>

definition resolve_text :: "resolver \<Rightarrow> string \<Rightarrow> (resolver_state, send_error, string) action" where
  "resolve_text r t st =
     (case resolve r t st of (Inl chain, st') \<Rightarrow> (Inl (NestingError chain), st') | (Inr s, st') \<Rightarrow> (Inr s, st'))"

definition host_of ::
    "(string \<Rightarrow> url option) \<Rightarrow> (string \<Rightarrow> nat \<Rightarrow> string) \<Rightarrow> string \<Rightarrow> scope_stack \<Rightarrow> send_error + string" where
  "host_of url_parse fresh t scopes =
     (case fst (resolve_text (new_resolver scopes (\<lambda>_. None) fresh) (trim t) start_state) of
        Inl e \<Rightarrow> Inl e
      | Inr s \<Rightarrow> Inr (let address = normalize_url s in case url_parse address of None \<Rightarrow> address | Some u \<Rightarrow> u_host u))"

definition body_content_type :: "request_body \<Rightarrow> string option" where
  "body_content_type b =
     (case body_mode b of
        Raw \<Rightarrow> (case body_raw b of
            Some r \<Rightarrow> if raw_text r \<noteq> [] then Some (RAW_CONTENT_TYPES (raw_language r)) else None
          | None \<Rightarrow> None)
      | Graphql \<Rightarrow> Some ''application/json''
      | Urlencoded \<Rightarrow> Some ''application/x-www-form-urlencoded''
      | Multipart \<Rightarrow> Some ''multipart/form-data''
      | Binary \<Rightarrow> (case Option.bind (body_binary b) bin_content_type of
            Some (c # t) \<Rightarrow> Some (c # t)
          | _ \<Rightarrow> Some ''application/octet-stream'')
      | NoBody \<Rightarrow> None)"

definition template_texts :: "request_body \<Rightarrow> string list" where
  "template_texts b =
     (case body_mode b of
        Raw \<Rightarrow> [case body_raw b of Some r \<Rightarrow> raw_text r | None \<Rightarrow> []]
      | Graphql \<Rightarrow> (case body_graphql b of Some g \<Rightarrow> [gql_query g, gql_variables g] | None \<Rightarrow> [[], []])
      | Urlencoded \<Rightarrow>
          concat (map (\<lambda>r. [row_key r, row_value r]) (case body_urlencoded b of Some rs \<Rightarrow> rs | None \<Rightarrow> []))
      | Multipart \<Rightarrow>
          concat (map (\<lambda>p. [part_key p, case p of TextPart _ _ v \<Rightarrow> v | FilePart _ _ _ \<Rightarrow> []])
            (case body_multipart b of Some ps \<Rightarrow> ps | None \<Rightarrow> []))
      | _ \<Rightarrow> [])"

definition sent_auth :: "auth_config \<Rightarrow> ancestor list \<Rightarrow> auth_config" where
  "sent_auth own ancestors = fst (effective_auth own (map (\<lambda>a. (anc_name a, anc_auth a)) ancestors))"

text \<open>The auth with its variables replaced and no secret read, for the name of its token.\<close>

definition oauth_of ::
    "(string \<Rightarrow> nat \<Rightarrow> string) \<Rightarrow> auth_config \<Rightarrow> ancestor list \<Rightarrow> scope_stack \<Rightarrow> (oauth2_auth \<times> string) option" where
  "oauth_of fresh own ancestors scopes =
     (case sent_auth own ancestors of
        OAuth2 a \<Rightarrow>
          (case fst (resolve_auth (resolve_text (new_resolver scopes (\<lambda>_. None) fresh)) (OAuth2 a) start_state) of
             Inr (OAuth2 a') \<Rightarrow> Some (a, oauth_token_key a')
           | _ \<Rightarrow> None)
      | _ \<Rightarrow> None)"

section \<open>The body\<close>

definition fail :: "'e \<Rightarrow> ('s, 'e, 'a) action" where
  "fail e st = (Inl e, st)"

text \<open>What is done next may depend on the state.\<close>

definition reading :: "('s \<Rightarrow> ('s, 'e, 'a) action) \<Rightarrow> ('s, 'e, 'a) action" where
  "reading f st = f st st"

definition lift_sum :: "'e + 'a \<Rightarrow> ('s, 'e, 'a) action" where
  "lift_sum x st = (x, st)"

fun multipart_form ::
    "build_context \<Rightarrow> (string \<Rightarrow> (resolver_state, send_error, string) action) \<Rightarrow> multipart_part list \<Rightarrow>
      (resolver_state, send_error, (string \<times> form_entry) list) action" where
  "multipart_form ctx res [] = give []"
| "multipart_form ctx res (TextPart k e v # parts) =
     andthen (res k) (\<lambda>k'. andthen (res v) (\<lambda>v'.
     andthen (multipart_form ctx res parts) (\<lambda>rest. give ((k', EntryText v') # rest))))"
| "multipart_form ctx res (FilePart k e f # parts) =
     andthen (res k) (\<lambda>k'. andthen (lift_sum (bc_read_file ctx f)) (\<lambda>b.
     andthen (multipart_form ctx res parts) (\<lambda>rest. give ((k', EntryFile b (file_name f)) # rest))))"

definition binary_file :: "build_context \<Rightarrow> binary_body option \<Rightarrow> (resolver_state, send_error, sent_body) action" where
  "binary_file ctx b =
     (case b of
        None \<Rightarrow> fail (SendBlocked ''Choose a file for the body, or set the body to None.'')
      | Some f \<Rightarrow>
          andthen (lift_sum (bc_read_file ctx (bin_file f))) (\<lambda>file.
            give \<lparr>sb_data = DataFile file,
              sb_type = Some (case bin_content_type f of
                 Some (c # t) \<Rightarrow> c # t
               | _ \<Rightarrow> if blob_type file \<noteq> [] then blob_type file else ''application/octet-stream'')\<rparr>))"

definition resolve_body ::
    "build_context \<Rightarrow> (string \<Rightarrow> (resolver_state, send_error, string) action) \<Rightarrow> request_body \<Rightarrow>
      (resolver_state, send_error, sent_body option) action" where
  "resolve_body ctx res b =
     (case body_mode b of
        NoBody \<Rightarrow> give None
      | Raw \<Rightarrow>
          andthen (res (case body_raw b of Some r \<Rightarrow> raw_text r | None \<Rightarrow> [])) (\<lambda>t.
            give (if t \<noteq> []
              then Some \<lparr>sb_data = DataText t, sb_type = Some (RAW_CONTENT_TYPES
                (case body_raw b of Some r \<Rightarrow> raw_language r | None \<Rightarrow> Text))\<rparr>
              else None))
      | Graphql \<Rightarrow>
          andthen (res (case body_graphql b of Some g \<Rightarrow> gql_query g | None \<Rightarrow> [])) (\<lambda>q.
          andthen (res (case body_graphql b of Some g \<Rightarrow> gql_variables g | None \<Rightarrow> [])) (\<lambda>v.
            (case graphql_payload q v of
               Inl e \<Rightarrow> fail (SendBlocked e)
             | Inr payload \<Rightarrow> give (Some \<lparr>sb_data = DataText payload, sb_type = Some ''application/json''\<rparr>))))
      | Urlencoded \<Rightarrow>
          andthen (each (\<lambda>r. andthen (res (row_key r)) (\<lambda>k. andthen (res (row_value r)) (\<lambda>v. give (k, v))))
             (filter row_enabled (case body_urlencoded b of Some rs \<Rightarrow> rs | None \<Rightarrow> []))) (\<lambda>pairs.
            give (Some \<lparr>sb_data = DataText (form_body pairs), sb_type = Some ''application/x-www-form-urlencoded''\<rparr>))
      | Multipart \<Rightarrow>
          andthen (multipart_form ctx res (filter part_enabled (case body_multipart b of Some ps \<Rightarrow> ps | None \<Rightarrow> [])))
            (\<lambda>form. give (Some \<lparr>sb_data = DataForm form, sb_type = None\<rparr>))
      | Binary \<Rightarrow> andthen (binary_file ctx (body_binary b)) (\<lambda>sb. give (Some sb)))"

section \<open>The request put together\<close>

definition non_empty :: "string list \<Rightarrow> string list" where
  "non_empty = filter (\<lambda>s. s \<noteq> [])"

text \<open>
  The headers, one per name, the later winning: the rows and the auth's, then the token, the
  event's id and the body's type. \<open>byName\<close> of the source, by the name in lower case.
\<close>

definition header_map ::
    "(string \<times> string) list \<Rightarrow> string option \<Rightarrow> string option \<Rightarrow> string option \<Rightarrow> (string \<times> string \<times> string) list" where
  "header_map pairs token last_event content_type =
     (let m0 = om_of (map (\<lambda>(n, v). (to_lower n, (n, v))) pairs);
          m1 = (case token of
                  Some (c # t) \<Rightarrow> om_set ''authorization'' (''Authorization'', ''Bearer '' @ c # t) m0
                | _ \<Rightarrow> m0);
          m2 = (case last_event of Some i \<Rightarrow> om_set ''last-event-id'' (''Last-Event-ID'', i) m1 | None \<Rightarrow> m1)
      in case content_type of
           Some (c # t) \<Rightarrow> if om_has m2 ''content-type'' then m2
             else om_set ''content-type'' (''Content-Type'', c # t) m2
         | _ \<Rightarrow> m2)"

text \<open>The names and the values are resolved; the auth's are for the second time.\<close>

definition assemble_headers ::
    "(string \<Rightarrow> (resolver_state, send_error, string) action) \<Rightarrow> (string \<times> string) list \<Rightarrow>
      string option \<Rightarrow> string option \<Rightarrow> string option \<Rightarrow> (resolver_state, send_error, (string \<times> string) list) action" where
  "assemble_headers res rows token last_event content_type =
     andthen (each (\<lambda>(key, value). andthen (res key) (\<lambda>n. andthen (res value) (\<lambda>v. give (n, v)))) rows)
       (\<lambda>pairs. give (map snd (header_map pairs token last_event content_type)))"

definition built_of ::
    "(string \<Rightarrow> url option) \<Rightarrow> request_content \<Rightarrow> sent_body option \<Rightarrow> string option \<Rightarrow> auth_config \<Rightarrow>
      (string \<times> string) list \<Rightarrow> string \<Rightarrow> resolver_state \<Rightarrow> built_request" where
  "built_of url_parse content sent token auth headers address st =
     (let token_list = (case token of Some (c # s) \<Rightarrow> [c # s] | _ \<Rightarrow> [])
      in \<lparr>br_method = rc_method content,
          br_url = (case build_auth_query_param auth of
             None \<Rightarrow> normalize_url address
           | Some (k, v) \<Rightarrow> append_query_param url_parse (normalize_url address) k v),
          br_headers = headers,
          br_body = map_option sb_data sent,
          br_secrets = st_taint st @ token_list,
          br_vaulted = st_vaulted st @ (if token_list = [] then [] else [(''OAuth 2.0 token'', None)]),
          br_credentials = non_empty (credentials_of auth @
            map snd (filter (\<lambda>(n, _). is_credential_header n) headers))\<rparr>)"

definition assemble ::
    "(string \<Rightarrow> url option) \<Rightarrow> request_content \<Rightarrow> sent_body option \<Rightarrow> resolver \<Rightarrow> ancestor list \<Rightarrow>
      string option \<Rightarrow> string option \<Rightarrow> (resolver_state, send_error, built_request) action" where
  "assemble url_parse content sent r ancestors token last_event =
     andthen (resolve_auth (resolve_text r) (sent_auth (rc_auth content) ancestors)) (\<lambda>auth.
     andthen (assemble_headers (resolve_text r) (sent_headers (rc_headers content) @ build_auth_headers auth) token last_event
        (Option.bind sent sb_type)) (\<lambda>headers.
     andthen (resolve_text r (trim (rc_url content))) (\<lambda>address.
     reading (\<lambda>st. give (built_of url_parse content sent token auth headers address st)))))"

section \<open>Signing and building\<close>

definition sign :: "platform \<Rightarrow> built_request \<Rightarrow> auth_config \<Rightarrow> send_error + built_request" where
  "sign pf built auth =
     (case auth of
        AwsV4 a \<Rightarrow>
          (case pf_url pf (br_url built) of
             None \<Rightarrow> Inr built
           | Some u \<Rightarrow>
               (case br_body built of
                  Some (DataForm _) \<Rightarrow> Inl (SendBlocked ''AWS Signature cannot sign a multipart form: the browser writes the form's boundary as it sends, so the app does not have the bytes to sign. Send a file as a File body, or the fields as a URL-encoded form. Nothing was sent.'')
                | body \<Rightarrow>
                    if \<not> pf_has_crypto pf then
                      Inl (SendBlocked ''AWS Signature needs the browser's cryptography, which a page has only over https or from localhost. Nothing was sent.'')
                    else
                      (let bytes = (case body of Some (DataText t) \<Rightarrow> utf8 t | Some (DataFile b) \<Rightarrow> blob_bytes b | _ \<Rightarrow> []);
                           own = filter (\<lambda>(n, _). to_lower n = ''content-type'' \<or> starts_with (to_lower n) ''x-amz-'')
                             (br_headers built);
                           signature = signed_headers (sign_v4 (pf_sha pf) (pf_mac pf)
                             \<lparr>sig_method = br_method built, sig_url = u, sig_headers = own, sig_body = bytes\<rparr> a (pf_time pf));
                           replaced = map (\<lambda>(n, _). to_lower n) signature
                       in Inr (built\<lparr>br_headers :=
                              filter (\<lambda>(n, _). to_lower n \<notin> set replaced) (br_headers built) @ signature,
                            br_credentials := br_credentials built @
                              map snd (filter (\<lambda>(n, _). is_credential_header n) signature)\<rparr>))))
      | _ \<Rightarrow> Inr built)"

definition no_token_message :: "string list \<Rightarrow> string" where
  "no_token_message names =
     ''The OAuth 2.0 auth uses '' @ join '', '' (map written names) @ '', which '' @
     (if length names = 1 then ''has'' else ''have'') @
     '' no value. No token was asked for, and nothing was sent.''"

definition finish_build ::
    "platform \<Rightarrow> request_content \<Rightarrow> resolver \<Rightarrow> build_context \<Rightarrow> auth_config \<Rightarrow> sent_body option \<Rightarrow> string option \<Rightarrow>
      (resolver_state, send_error, built_request) action" where
  "finish_build pf content r ctx auth sent token =
     andthen (assemble (pf_url pf) content sent r (bc_ancestors ctx) token (bc_last_event_id ctx))
       (\<lambda>built. lift_sum (sign pf built auth))"

definition fetch_token ::
    "build_context \<Rightarrow> oauth2_auth \<Rightarrow> string \<Rightarrow> string list \<Rightarrow> send_error + string" where
  "fetch_token ctx a key without_value =
     (if without_value \<noteq> [] then Inl (SendBlocked (no_token_message without_value))
      else
        (case bc_oauth_token ctx of
           None \<Rightarrow> Inl (SendBlocked ''OAuth 2.0 tokens are not fetched here. Nothing was sent.'')
         | Some fetch \<Rightarrow>
             (case fetch a key (bc_renew_token ctx) of
                Inl (OAuthRefused m) \<Rightarrow> Inl (SendBlocked (m @ '' Nothing was sent.''))
              | x \<Rightarrow> x)))"

text \<open>The token of an OAuth 2.0 auth: none for another auth.\<close>

definition token_for ::
    "build_context \<Rightarrow> request_content \<Rightarrow> auth_config \<Rightarrow> string list \<Rightarrow> send_error + string option" where
  "token_for ctx content auth without_value =
     (case (auth, oauth_of (bc_fresh ctx 2) (rc_auth content) (bc_ancestors ctx) (bc_scopes ctx)) of
        (OAuth2 a, Some (_, key)) \<Rightarrow> map_sum id Some (fetch_token ctx a key without_value)
      | _ \<Rightarrow> Inr None)"

definition build_with ::
    "platform \<Rightarrow> request_content \<Rightarrow> resolver \<Rightarrow> build_context \<Rightarrow> (resolver_state, send_error, built_request) action" where
  "build_with pf content r ctx =
     andthen (resolve_auth (resolve_text r) (sent_auth (rc_auth content) (bc_ancestors ctx))) (\<lambda>auth.
     reading (\<lambda>st0.
     andthen (if is_body_method (rc_method content) then resolve_body ctx (resolve_text r) (rc_body content) else give None) (\<lambda>sent.
     andthen (lift_sum (token_for ctx content auth (st_unresolved st0))) (\<lambda>token.
       finish_build pf content r ctx auth sent token))))"

text \<open>\<open>checked\<close>: a build with a new resolver, held back when a variable has no value.\<close>

definition checked ::
    "platform \<Rightarrow> request_content \<Rightarrow> build_context \<Rightarrow> (string \<Rightarrow> string option) \<Rightarrow> send_error + built_request" where
  "checked pf content ctx secret =
     (case build_with pf content (new_resolver (bc_scopes ctx) secret (bc_fresh ctx 1)) ctx start_state of
        (Inl e, _) \<Rightarrow> Inl e
      | (Inr built, st) \<Rightarrow>
          if st_unresolved st \<noteq> [] \<and> bc_block_unresolved ctx then Inl (UnresolvedVariables (st_unresolved st))
          else Inr built)"

text \<open>The first pass: every text of the request, with no secret at hand.\<close>

definition probe_request :: "request_content \<Rightarrow> build_context \<Rightarrow> send_error + string list" where
  "probe_request content ctx =
     (let r = new_resolver (bc_scopes ctx) (\<lambda>_. None) (bc_fresh ctx 0)
      in case andthen (each (resolve_text r)
              ([rc_url content] @ concat (map (\<lambda>(n, v). [n, v]) (sent_headers (rc_headers content))) @
               template_texts (rc_body content)))
            (\<lambda>_. resolve_auth (resolve_text r) (sent_auth (rc_auth content) (bc_ancestors ctx))) start_state of
           (Inl e, _) \<Rightarrow> Inl e
         | (Inr _, st) \<Rightarrow> Inr (st_locked st))"

text \<open>\<open>buildRequest\<close>, with the hosts the user has said yes to afterwards (\<open>composed.accepted\<close>).\<close>

definition build_request ::
    "platform \<Rightarrow> request_content \<Rightarrow> build_context \<Rightarrow> (send_error + built_request) \<times> string list option" where
  "build_request pf content ctx =
     (let accepted = Option.bind (bc_composed ctx) com_accepted
      in case probe_request content ctx of
           Inl e \<Rightarrow> (Inl e, accepted)
         | Inr [] \<Rightarrow> (checked pf content ctx (\<lambda>_. None), accepted)
         | Inr locked \<Rightarrow>
             (let with_secrets = (case bc_read_secrets ctx locked of
                    Inl e \<Rightarrow> Inl e | Inr secrets \<Rightarrow> checked pf content ctx secrets)
              in case bc_composed ctx of
                   None \<Rightarrow> (case host_of (pf_url pf) (bc_fresh ctx 4) (rc_url content) (bc_scopes ctx) of
                       Inl e \<Rightarrow> (Inl e, accepted) | Inr _ \<Rightarrow> (with_secrets, accepted))
                 | Some com \<Rightarrow>
                     (case host_of (pf_url pf) (bc_fresh ctx 3) (com_url com) (com_scopes com) of
                        Inl e \<Rightarrow> (Inl e, accepted)
                      | Inr from \<Rightarrow>
                          (case host_of (pf_url pf) (bc_fresh ctx 4) (rc_url content) (bc_scopes ctx) of
                             Inl e \<Rightarrow> (Inl e, accepted)
                           | Inr to \<Rightarrow>
                               if from = to \<or> (case accepted of Some hs \<Rightarrow> to \<in> set hs | None \<Rightarrow> False) then (with_secrets, accepted)
                               else if (case bc_ask_host ctx of None \<Rightarrow> False | Some ask \<Rightarrow> ask from to)
                               then (with_secrets, map_option (set_add to) accepted)
                               else (Inl (SendDeclined
                                 ''The request was not sent, and what the pre-request script set was undone.''), accepted)))))"

section \<open>Lemmas\<close>

text \<open>
  An action and the same action with no vault: the sets only grow, and where no secret was
  recorded at the end, both did the same.
\<close>

definition honest :: "(resolver_state, 'e, 'a) action \<Rightarrow> (resolver_state, 'e, 'a) action \<Rightarrow> bool" where
  "honest m m0 \<longleftrightarrow>
     (\<forall>st. grown st (snd (m st)) \<and> (st_taint (snd (m st)) = [] \<longrightarrow> m0 st = m st))"

named_theorems honest_intros

lemma honest_pure [honest_intros]: "honest (give x) (give x)" "honest (fail e) (fail e)" "honest (lift_sum y) (lift_sum y)"
  by (simp_all add: honest_def fail_def lift_sum_def give_def)

lemma honest_andthen [honest_intros]:
  assumes "honest m m0" "\<And>x. honest (k x) (k0 x)"
  shows "honest (andthen m k) (andthen m0 k0)"
  unfolding honest_def
proof (intro allI conjI impI)
  fix st
  note g = assms(1) [unfolded honest_def, rule_format, of st]
  show "grown st (snd (andthen m k st))"
    using g assms(2) by (auto simp: andthen_def honest_def split: prod.splits sum.splits intro: grown_trans)
  assume t: "st_taint (snd (andthen m k st)) = []"
  show "andthen m0 k0 st = andthen m k st"
  proof (cases "fst (m st)")
    case (Inl e)
    with t have "st_taint (snd (m st)) = []" by (auto simp: andthen_def split: prod.splits sum.splits)
    with g have "m0 st = m st" by simp
    with Inl show ?thesis by (auto simp: andthen_def split: prod.splits sum.splits)
  next
    case (Inr x)
    then have k: "andthen m k st = k x (snd (m st))" by (auto simp: andthen_def split: prod.splits)
    have "grown (snd (m st)) (snd (k x (snd (m st))))" using assms(2) [of x] by (simp add: honest_def)
    with t k have "st_taint (snd (m st)) = []" by (auto simp: grown_def)
    with g have "m0 st = m st" by simp
    moreover have "k0 x (snd (m st)) = k x (snd (m st))" using assms(2) [of x] t k by (simp add: honest_def)
    ultimately show ?thesis using Inr k by (auto simp: andthen_def split: prod.splits)
  qed
qed

lemma honest_reading [honest_intros]: "(\<And>st. honest (f st) (f0 st)) \<Longrightarrow> honest (reading f) (reading f0)"
  by (simp add: honest_def reading_def)

lemma honest_each [honest_intros]: "(\<And>x. honest (f x) (f0 x)) \<Longrightarrow> honest (each f xs) (each f0 xs)"
  by (induction xs) (auto intro!: honest_intros)

lemma honest_resolve [honest_intros]: "honest (resolve_text r t) (resolve_text (probe r) t)"
  unfolding honest_def resolve_text_def resolve_def
proof (intro allI conjI impI)
  fix st
  let ?x = "expand r [] (pieces t) st"
  have "snd (case ?x of (Inl chain, st') \<Rightarrow> (Inl (NestingError chain), st') | (Inr s, st') \<Rightarrow> (Inr s, st')) = snd ?x"
    by (simp split: prod.splits sum.splits)
  then show "grown st (snd (case ?x of (Inl chain, st') \<Rightarrow> (Inl (NestingError chain), st') | (Inr s, st') \<Rightarrow> (Inr s, st')))"
    by (simp add: grown_expand)
  assume "st_taint (snd (case ?x of (Inl chain, st') \<Rightarrow> (Inl (NestingError chain), st') | (Inr s, st') \<Rightarrow> (Inr s, st'))) = []"
  then have "expand (probe r) [] (pieces t) st = ?x"
    by (intro expand_untainted) (simp split: prod.splits sum.splits)
  then show "(case expand (probe r) [] (pieces t) st of (Inl chain, st') \<Rightarrow> (Inl (NestingError chain), st') | (Inr s, st') \<Rightarrow> (Inr s, st')) =
    (case ?x of (Inl chain, st') \<Rightarrow> (Inl (NestingError chain), st') | (Inr s, st') \<Rightarrow> (Inr s, st'))" by simp
qed

lemma honest_resolve_auth [honest_intros]:
  "(\<And>t. honest (f t) (f0 t)) \<Longrightarrow> honest (resolve_auth f auth) (resolve_auth f0 auth)"
  by (cases auth) (auto intro!: honest_intros)

lemma honest_multipart [honest_intros]:
  "(\<And>t. honest (f t) (f0 t)) \<Longrightarrow> honest (multipart_form ctx f parts) (multipart_form ctx f0 parts)"
  by (induction ctx f parts rule: multipart_form.induct) (auto intro!: honest_intros)

lemma honest_binary [honest_intros]: "honest (binary_file ctx b) (binary_file ctx b)"
  by (cases b) (auto simp: binary_file_def intro!: honest_intros)

lemma honest_body [honest_intros]:
  "(\<And>t. honest (f t) (f0 t)) \<Longrightarrow> honest (resolve_body ctx f b) (resolve_body ctx f0 b)"
  unfolding resolve_body_def
  by (cases "body_mode b") (auto intro!: honest_intros split: sum.splits)

lemma honest_assemble [honest_intros]:
  "honest (assemble u content sent r ancestors token last_event) (assemble u content sent (probe r) ancestors token last_event)"
  unfolding assemble_def assemble_headers_def by (auto intro!: honest_intros)

lemma honest_finish [honest_intros]:
  "honest (finish_build pf content r ctx auth sent token) (finish_build pf content (probe r) ctx auth sent token)"
  unfolding finish_build_def by (auto intro!: honest_intros)

lemma honest_build: "honest (build_with pf content r ctx) (build_with pf content (probe r) ctx)"
  unfolding build_with_def by (auto intro!: honest_intros)

lemma set_om_set_subset: "set (om_set k v m) \<subseteq> insert (k, v) (set m)"
  by (induction k v m rule: om_set.induct) auto

text \<open>A map of headers by their names in lower case.\<close>

definition by_lower_name :: "(string \<times> string \<times> string) list \<Rightarrow> bool" where
  "by_lower_name m \<longleftrightarrow> distinct (map fst m) \<and> (\<forall>(k, n, v) \<in> set m. k = to_lower n)"

lemma by_lower_name_set:
  assumes "by_lower_name m" "to_lower n = k"
  shows "by_lower_name (om_set k (n, v) m)"
  using assms set_om_set_subset [of k "(n, v)" m] by (auto simp: by_lower_name_def)

lemma by_lower_name_of: "by_lower_name (om_of (map (\<lambda>(n, v). (to_lower n, (n, v))) pairs))"
proof -
  have "by_lower_name m \<Longrightarrow> by_lower_name (fold (\<lambda>(k, v) m. om_set k v m) (map (\<lambda>(n, v). (to_lower n, (n, v))) pairs) m)" for m
    by (induction pairs arbitrary: m) (auto simp: by_lower_name_set)
  from this [of "[]"] show ?thesis by (simp add: om_of_def by_lower_name_def)
qed

lemma header_map_keys: "by_lower_name (header_map pairs token last_event content_type)"
proof -
  have low: "to_lower ''Authorization'' = ''authorization''" "to_lower ''Last-Event-ID'' = ''last-event-id''"
    "to_lower ''Content-Type'' = ''content-type''" by code_simp+
  show ?thesis
    unfolding header_map_def Let_def
    by (simp add: by_lower_name_of by_lower_name_set low split: option.split list.split)
qed

definition one_per_name :: "(string \<times> string) list \<Rightarrow> bool" where
  "one_per_name hs \<longleftrightarrow> distinct (map (\<lambda>(n, _). to_lower n) hs)"

lemma one_per_name_map: "one_per_name (map snd (header_map pairs token last_event content_type))"
proof -
  let ?m = "header_map pairs token last_event content_type"
  have "map (\<lambda>(n, _). to_lower n) (map snd ?m) = map fst ?m"
    using header_map_keys [of pairs token last_event content_type] by (auto simp: by_lower_name_def)
  then show ?thesis using header_map_keys [of pairs token last_event content_type]
    by (simp only: one_per_name_def by_lower_name_def)
qed

lemma sig_added_names: "distinct (map (\<lambda>(n, _). to_lower n) (sig_added date token s3 h @ [(''Authorization'', v)]))"
proof -
  have low: "to_lower ''X-Amz-Date'' = ''x-amz-date''" "to_lower ''Authorization'' = ''authorization''"
    "to_lower ''X-Amz-Security-Token'' = ''x-amz-security-token''"
    "to_lower ''X-Amz-Content-Sha256'' = ''x-amz-content-sha256''" by code_simp+
  show ?thesis by (simp add: sig_added_def low)
qed

lemma signed_headers_names: "one_per_name (signed_headers (sign_v4 sha mac r c time))"
  unfolding one_per_name_def sign_v4_def sign_parts_def Let_def by (simp only: sig_signed.simps sig_added_names)

lemma one_per_name_replace:
  assumes "one_per_name old" "one_per_name new"
  shows "one_per_name (filter (\<lambda>(n, _). to_lower n \<notin> set (map (\<lambda>(n, _). to_lower n) new)) old @ new)"
proof -
  let ?f = "\<lambda>(n, v :: string). to_lower n" and ?keep = "filter (\<lambda>(n, _). to_lower n \<notin> set (map (\<lambda>(n, _). to_lower n) new)) old"
  have "distinct (map ?f ?keep)" using assms(1) by (simp add: one_per_name_def distinct_map_filter)
  moreover have "x \<notin> set (map ?f new)" if "x \<in> set (map ?f ?keep)" for x
    using that by auto
  ultimately show ?thesis using assms(2) unfolding one_per_name_def by (simp only: map_append distinct_append) blast
qed

lemma sign_headers:
  assumes "sign pf built auth = Inr b"
  shows "br_headers b = br_headers built \<or>
    (\<exists>r c time new. new = signed_headers (sign_v4 (pf_sha pf) (pf_mac pf) r c time) \<and>
       br_headers b = filter (\<lambda>(n, _). to_lower n \<notin> set (map (\<lambda>(n, _). to_lower n) new)) (br_headers built) @ new)"
proof (cases "\<exists>a u. auth = AwsV4 a \<and> pf_url pf (br_url built) = Some u")
  case True
  then obtain a u where au: "auth = AwsV4 a" "pf_url pf (br_url built) = Some u" by blast
  let ?bytes = "case br_body built of Some (DataText t) \<Rightarrow> utf8 t | Some (DataFile b) \<Rightarrow> blob_bytes b | _ \<Rightarrow> []"
  let ?own = "filter (\<lambda>(n, _). to_lower n = ''content-type'' \<or> starts_with (to_lower n) ''x-amz-'') (br_headers built)"
  let ?new = "signed_headers (sign_v4 (pf_sha pf) (pf_mac pf)
      \<lparr>sig_method = br_method built, sig_url = u, sig_headers = ?own, sig_body = ?bytes\<rparr> a (pf_time pf))"
  have "br_headers b = filter (\<lambda>(n, _). to_lower n \<notin> set (map (\<lambda>(n, _). to_lower n) ?new)) (br_headers built) @ ?new"
    using assms by (simp add: sign_def au Let_def split: option.splits body_data.splits if_splits) auto
  then show ?thesis by blast
qed (use assms in \<open>auto simp: sign_def split: auth_config.splits option.splits\<close>)

lemma sign_one_per_name: "sign pf built auth = Inr b \<Longrightarrow> one_per_name (br_headers built) \<Longrightarrow> one_per_name (br_headers b)"
  using sign_headers [of pf built auth b] signed_headers_names one_per_name_replace by metis

lemma sign_same:
  "sign pf built auth = Inr b \<Longrightarrow>
     br_secrets b = br_secrets built \<and> br_body b = br_body built \<and> br_url b = br_url built \<and> br_method b = br_method built"
  by (auto simp: sign_def Let_def split: auth_config.splits option.splits body_data.splits if_splits)

text \<open>What every request that was built has gone through.\<close>

lemma assemble_result:
  assumes "assemble url_parse content sent r ancestors token last_event st = (Inr built, st')"
  shows "\<exists>auth pairs address. built = built_of url_parse content sent token auth
      (map snd (header_map pairs token last_event (Option.bind sent sb_type))) address st'"
  using assms by (auto simp: assemble_def assemble_headers_def andthen_Inr reading_def)

lemma build_with_result:
  assumes "build_with pf content r ctx st = (Inr built, st')"
  shows "\<exists>sent token auth pairs address signer.
    (\<not> is_body_method (rc_method content) \<longrightarrow> sent = None) \<and>
    sign pf (built_of (pf_url pf) content sent token auth
      (map snd (header_map pairs token (bc_last_event_id ctx) (Option.bind sent sb_type))) address st') signer = Inr built"
proof -
  obtain auth st0 sent st1 st2 token where
    body: "(if is_body_method (rc_method content) then resolve_body ctx (resolve_text r) (rc_body content) else give None) st0 = (Inr sent, st1)"
    and fin: "finish_build pf content r ctx auth sent token st2 = (Inr built, st')"
    using assms
    by (auto simp: build_with_def andthen_Inr reading_def)
  from fin obtain b where "assemble (pf_url pf) content sent r (bc_ancestors ctx) token (bc_last_event_id ctx) st2 = (Inr b, st')"
    "sign pf b auth = Inr built"
    by (auto simp: finish_build_def andthen_Inr lift_sum_def)
  moreover have "\<not> is_body_method (rc_method content) \<longrightarrow> sent = None" using body by auto
  ultimately show ?thesis using assemble_result by metis
qed

lemma checked_result:
  assumes "checked pf content ctx secret = Inr built"
  obtains st where "build_with pf content (new_resolver (bc_scopes ctx) secret (bc_fresh ctx 1)) ctx start_state = (Inr built, st)"
    "bc_block_unresolved ctx \<Longrightarrow> st_unresolved st = []"
  using assms by (auto simp: checked_def split: prod.splits sum.splits if_splits)

lemma build_request_checked:
  assumes "fst (build_request pf content ctx) = Inr built"
  obtains secret where "checked pf content ctx secret = Inr built"
  using assms
  by (auto simp: build_request_def Let_def split: sum.splits list.splits option.splits if_splits)

lemma probe_new_resolver: "probe (new_resolver scopes secret fresh) = new_resolver scopes (\<lambda>_. None) fresh"
  by (simp add: new_resolver_def)

lemma br_secrets_built: "set (st_taint st) \<subseteq> set (br_secrets (built_of u content sent token auth hs address st))"
  by (simp add: built_of_def Let_def)

section \<open>Properties\<close>

text \<open>
  A request that was built has each header once: no two have the same name, in whatever
  case, and signing keeps that. One that is a GET or a HEAD carries no body.
\<close>

theorem built_headers_once:
  assumes "fst (build_request pf content ctx) = Inr built"
  shows "one_per_name (br_headers built) \<and> br_method built = rc_method content \<and>
    (br_method built = ''GET'' \<or> br_method built = ''HEAD'' \<longrightarrow> br_body built = None)"
proof -
  obtain secret where "checked pf content ctx secret = Inr built"
    using build_request_checked [OF assms] .
  then obtain st where "build_with pf content (new_resolver (bc_scopes ctx) secret (bc_fresh ctx 1)) ctx start_state = (Inr built, st)"
    by (rule checked_result)
  from build_with_result [OF this] obtain sent token auth pairs address signer where
    sent: "\<not> is_body_method (rc_method content) \<longrightarrow> sent = None"
    and s: "sign pf (built_of (pf_url pf) content sent token auth
      (map snd (header_map pairs token (bc_last_event_id ctx) (Option.bind sent sb_type))) address st) signer = Inr built"
    by blast
  have "one_per_name (br_headers built)"
    using sign_one_per_name [OF s] one_per_name_map by (simp add: built_of_def Let_def)
  moreover have "br_method built = rc_method content" "br_body built = map_option sb_data sent"
    using sign_same [OF s] by (simp_all add: built_of_def Let_def)
  ultimately show ?thesis using sent by (auto simp: is_body_method_def)
qed

definition example_platform :: platform where
  "example_platform = \<lparr>pf_url = (\<lambda>_. None), pf_sha = rev, pf_mac = (@), pf_has_crypto = True, pf_time = []\<rparr>"

definition example_context :: build_context where
  "example_context = \<lparr>bc_scopes = example_stack, bc_ancestors = [],
     bc_read_secrets = (\<lambda>ids. Inr (map_of [(''1'', ''{{host}}'')])), bc_read_file = (\<lambda>_. Inl (SendBlocked [])),
     bc_block_unresolved = True, bc_composed = None, bc_ask_host = None, bc_oauth_token = None, bc_renew_token = False,
     bc_last_event_id = None, bc_fresh = (\<lambda>_ _ _. [])\<rparr>"

definition example_request :: request_content where
  "example_request = empty_request\<lparr>rc_url := ''{{host}}/x'', rc_headers := [row_of ''X'' ''1'', row_of ''x'' ''2''],
     rc_auth := Bearer ''{{$secret.1}}''\<rparr>"

lemma built_headers_once_witness:
  "\<exists>built. fst (build_request example_platform example_request example_context) = Inr built \<and>
     one_per_name (br_headers built) \<and> br_body built = None"
proof -
  have "case fst (build_request example_platform example_request example_context) of
      Inr built \<Rightarrow> br_method built = ''GET'' | Inl _ \<Rightarrow> False" by code_simp
  then obtain built where "fst (build_request example_platform example_request example_context) = Inr built"
    "br_method built = ''GET''" by (cases "fst (build_request example_platform example_request example_context)") auto
  with built_headers_once [OF this(1)] show ?thesis by blast
qed



text \<open>
  C3: when a pre-request script left a request with a vault secret going to another host, and
  the user did not say yes to that host, nothing is sent, and the vault is not read: the answer
  is the same whatever the vault would have given.
\<close>

theorem no_secret_to_another_host:
  assumes "probe_request content ctx = Inr locked" and "locked \<noteq> []"
    and "bc_composed ctx = Some com"
    and "host_of (pf_url pf) (bc_fresh ctx 3) (com_url com) (com_scopes com) = Inr host"
    and "host_of (pf_url pf) (bc_fresh ctx 4) (rc_url content) (bc_scopes ctx) = Inr host2"
    and "host \<noteq> host2" and "\<forall>hs. com_accepted com = Some hs \<longrightarrow> host2 \<notin> set hs"
    and "\<forall>ask. bc_ask_host ctx = Some ask \<longrightarrow> \<not> ask host host2"
  shows "\<exists>m. \<forall>vault. build_request pf content (ctx\<lparr>bc_read_secrets := vault\<rparr>) = (Inl (SendDeclined m), com_accepted com)"
proof -
  obtain l ls where "locked = l # ls" using assms(2) by (cases locked) auto
  moreover have "probe_request content (ctx\<lparr>bc_read_secrets := vault\<rparr>) = probe_request content ctx" for vault
    by (simp add: probe_request_def)
  ultimately show ?thesis
    using assms
    by (intro exI [of _ "''The request was not sent, and what the pre-request script set was undone.''"])
      (auto simp: build_request_def Let_def split: option.splits)
qed

definition example_composed :: composed where
  "example_composed = \<lparr>com_url = ''other/x'', com_scopes = example_stack, com_accepted = Some []\<rparr>"

lemma no_secret_to_another_host_witness:
  "\<exists>m. \<forall>vault. build_request example_platform example_request
      (example_context\<lparr>bc_composed := Some example_composed, bc_read_secrets := vault\<rparr>) = (Inl (SendDeclined m), Some [])"
proof -
  let ?ctx = "example_context\<lparr>bc_composed := Some example_composed\<rparr>"
  have p: "probe_request example_request ?ctx = Inr [''1'']" by code_simp
  have h: "host_of (pf_url example_platform) (bc_fresh ?ctx 3) (com_url example_composed) (com_scopes example_composed) =
      Inr ''https://other/x''" by code_simp
  have h2: "host_of (pf_url example_platform) (bc_fresh ?ctx 4) (rc_url example_request) (bc_scopes ?ctx) =
      Inr ''https://dev/x''" by code_simp
  have c: "bc_composed ?ctx = Some example_composed" by simp
  have "\<exists>m. \<forall>vault. build_request example_platform example_request (?ctx\<lparr>bc_read_secrets := vault\<rparr>) =
      (Inl (SendDeclined m), com_accepted example_composed)"
    by (rule no_secret_to_another_host [OF p _ c h h2])
      (simp_all add: example_context_def example_composed_def)
  then show ?thesis by (simp add: example_composed_def)
qed

text \<open>
  A request that is held back for a variable with no value is not sent: with that setting
  on, what is built has no unresolved variable, in any of its texts.
\<close>

theorem unresolved_held_back:
  assumes "bc_block_unresolved ctx" and "fst (build_request pf content ctx) = Inr built"
  shows "\<exists>secret st. build_with pf content (new_resolver (bc_scopes ctx) secret (bc_fresh ctx 1)) ctx start_state = (Inr built, st) \<and>
    st_unresolved st = []"
  using assms(1) build_request_checked [OF assms(2)] checked_result by metis

lemma unresolved_held_back_witness:
  "\<exists>built. fst (build_request example_platform example_request example_context) = Inr built \<and>
     (\<exists>secret st. build_with example_platform example_request (new_resolver example_stack secret (\<lambda>_ _. [])) example_context
       start_state = (Inr built, st) \<and> st_unresolved st = [])"
proof -
  have "case fst (build_request example_platform example_request example_context) of Inr built \<Rightarrow> True | Inl _ \<Rightarrow> False"
    by code_simp
  then obtain built where b: "fst (build_request example_platform example_request example_context) = Inr built"
    by (cases "fst (build_request example_platform example_request example_context)") auto
  have "bc_block_unresolved example_context" by (simp add: example_context_def)
  from unresolved_held_back [OF this b] b show ?thesis by (auto simp: example_context_def)
qed

text \<open>
  The address is always absolute and of the web: it has its scheme, and holds no tab and no
  line break, which a parser of addresses would drop.
\<close>

theorem normalize_url_absolute:
  "has_explicit_scheme (normalize_url t) \<and> list_all (\<lambda>c. \<not> url_dropped c) (normalize_url t) \<and>
   (has_explicit_scheme t \<and> list_all (\<lambda>c. \<not> url_dropped c) t \<longrightarrow> normalize_url t = t)"
proof (intro conjI impI)
  let ?kept = "\<lambda>c. \<not> url_dropped c"
  have "list_all ?kept (percent_byte b)" for b
  proof -
    have "\<forall>n \<in> set [0..<16]. \<not> url_dropped (hex_digit n)" "\<not> url_dropped CHR ''%''" by code_simp+
    then show ?thesis by (simp add: percent_byte_def)
  qed
  then have "list_all ?kept (percent_text ?kept t)"
    by (auto simp: percent_text_def list_all_iff split: if_splits)
  moreover have "list_all ?kept ''https://''" by code_simp
  ultimately show "list_all ?kept (normalize_url t)"
    by (simp only: normalize_url_def Let_def list_all_append split: if_split) simp
  have "to_lower ''https://'' = ''https://''" by code_simp
  then have "has_explicit_scheme (''https://'' @ s)" for s
    unfolding has_explicit_scheme_def to_lower_append by (simp only: starts_with_append simp_thms)
  then show "has_explicit_scheme (normalize_url t)" by (simp only: normalize_url_def Let_def split: if_split) simp
  assume "has_explicit_scheme t \<and> list_all ?kept t"
  moreover from this have "percent_text ?kept t = t"
    by (auto simp: percent_text_def list_all_iff cong: map_cong)
  ultimately show "normalize_url t = t" by (simp add: normalize_url_def)
qed

lemma normalize_url_absolute_witness:
  "normalize_url ''https://api.example.com/a'' = ''https://api.example.com/a''"
proof -
  have "has_explicit_scheme ''https://api.example.com/a''" "list_all (\<lambda>c. \<not> url_dropped c) ''https://api.example.com/a''"
    by code_simp+
  with normalize_url_absolute [of "''https://api.example.com/a''"] show ?thesis by blast
qed


end
