(* ===== verification/Runner.thy ===== *)
theory Runner
  imports Build
begin

text \<open>
  A collection run: \<open>packages/core/src/run/runner.ts\<close> (the order of a run), \<open>run/words.ts\<close>
  (what a run says) and \<open>run/data-file.ts\<close> (the rows of a data file). Sending one request is a
  parameter, as it is in the source: it changes a world \<open>'w\<close>, which the cancel signal is read
  from and which a wait may change too. \<open>setNextRequest\<close> can make a run go on for ever, so the run
  is a partial function: \<open>None\<close> is a run that does not end.
\<close>

section \<open>The order of a run\<close>

record run_request =
  rq_id :: string
  rq_name :: string

record run_iteration =
  it_index :: nat
  it_count :: nat
  it_data :: "row list"

record run_test =
  rt_name :: string
  rt_passed :: bool
  rt_error :: "string option"

text \<open>Of \<open>out_next\<close>, \<open>Some None\<close> is \<open>null\<close> and \<open>None\<close> is a request that named none.\<close>

record run_outcome =
  out_skipped :: bool
  out_status :: "nat option"
  out_status_text :: "string option"
  out_duration :: "rat option"
  out_error :: "string option"
  out_tests :: "run_test list"
  out_next :: "string option option"
  out_end :: "string option"

record run_result =
  res_id :: string
  res_name :: string
  res_iteration :: nat
  res_skipped :: bool
  res_status :: "nat option"
  res_status_text :: "string option"
  res_duration :: "rat option"
  res_error :: "string option"
  res_tests :: "run_test list"

datatype run_ended = Completed | Cancelled | Failed | Ended

record run_report =
  rep_iterations :: nat
  rep_results :: "run_result list"
  rep_ended :: run_ended
  rep_reason :: "string option"

record run_options =
  opt_iterations :: "nat option"
  opt_data :: "row list list"
  opt_delay :: bool
  opt_stop_on_failure :: bool

text \<open>What a run is given: the sender, the wait, who is told each result, and the signal.\<close>

record 'w run_world =
  rw_send :: "run_request \<Rightarrow> run_iteration \<Rightarrow> 'w \<Rightarrow> run_outcome \<times> 'w"
  rw_wait :: "'w \<Rightarrow> 'w"
  rw_on_result :: "run_result \<Rightarrow> 'w \<Rightarrow> 'w"
  rw_aborted :: "'w \<Rightarrow> bool"

definition run_failed :: "string option \<Rightarrow> run_test list \<Rightarrow> bool" where
  "run_failed error tests \<longleftrightarrow> error \<noteq> None \<or> list_ex (\<lambda>t. \<not> rt_passed t) tests"

definition failed_result :: "run_result \<Rightarrow> bool" where
  "failed_result r \<longleftrightarrow> run_failed (res_error r) (res_tests r)"

definition result_of :: "run_request \<Rightarrow> nat \<Rightarrow> run_outcome \<Rightarrow> run_result" where
  "result_of q index out =
     \<lparr>res_id = rq_id q, res_name = rq_name q, res_iteration = index, res_skipped = out_skipped out,
      res_status = out_status out, res_status_text = out_status_text out, res_duration = out_duration out,
      res_error = out_error out, res_tests = out_tests out\<rparr>"

text \<open>\<open>lastIndexOf(true)\<close> of the requests of that name or id; \<open>None\<close> is -1.\<close>

fun last_index_where :: "('a \<Rightarrow> bool) \<Rightarrow> 'a list \<Rightarrow> nat option" where
  "last_index_where P [] = None"
| "last_index_where P (x # xs) =
     (case last_index_where P xs of Some i \<Rightarrow> Some (Suc i) | None \<Rightarrow> if P x then Some 0 else None)"

text \<open>Where the iteration goes on; \<open>None\<close> ends it.\<close>

definition next_at :: "run_request list \<Rightarrow> nat \<Rightarrow> string option option \<Rightarrow> nat option" where
  "next_at requests i nxt =
     (case nxt of
        None \<Rightarrow> Some (Suc i)
      | Some None \<Rightarrow> None
      | Some (Some name) \<Rightarrow> last_index_where (\<lambda>q. rq_id q = name \<or> rq_name q = name) requests)"

definition run_count :: "run_options \<Rightarrow> nat" where
  "run_count opts =
     (case opt_iterations opts of
        Some n \<Rightarrow> n
      | None \<Rightarrow> if opt_data opts = [] then 1 else length (opt_data opts))"

definition iteration_of :: "run_options \<Rightarrow> nat \<Rightarrow> run_iteration" where
  "iteration_of opts index =
     \<lparr>it_index = index, it_count = run_count opts,
      it_data = (if opt_data opts = [] then [] else opt_data opts ! min index (length (opt_data opts) - 1))\<rparr>"

definition report :: "run_options \<Rightarrow> run_result list \<Rightarrow> run_ended \<Rightarrow> string option \<Rightarrow> run_report" where
  "report opts results ended reason =
     \<lparr>rep_iterations = run_count opts, rep_results = results, rep_ended = ended, rep_reason = reason\<rparr>"

text \<open>The two loops: an iteration, and the place in it (\<open>None\<close>: past it); \<open>first\<close>: nothing was sent yet.\<close>

partial_function (option) run_from ::
    "'w run_world \<Rightarrow> run_request list \<Rightarrow> run_options \<Rightarrow> nat \<Rightarrow> nat option \<Rightarrow> bool \<Rightarrow> run_result list \<Rightarrow> 'w \<Rightarrow>
      (run_report \<times> 'w) option" where
  "run_from rw requests opts index place first results w =
     (if run_count opts \<le> index then Some (report opts results Completed None, w)
      else case place of
        None \<Rightarrow> run_from rw requests opts (Suc index) (Some 0) first results w
      | Some i \<Rightarrow>
          if length requests \<le> i then run_from rw requests opts (Suc index) (Some 0) first results w
          else
            (let w0 = (if \<not> first \<and> opt_delay opts then rw_wait rw w else w)
             in if rw_aborted rw w0 then Some (report opts results Cancelled None, w0)
                else
                  (let q = requests ! i;
                       (out, w1) = rw_send rw q (iteration_of opts index) w0;
                       result = result_of q index out;
                       results' = results @ [result];
                       w2 = rw_on_result rw result w1
                   in if rw_aborted rw w2 then Some (report opts results' Cancelled None, w2)
                      else if out_end out \<noteq> None then Some (report opts results' Ended (out_end out), w2)
                      else if opt_stop_on_failure opts \<and> failed_result result
                        then Some (report opts results' Failed None, w2)
                      else run_from rw requests opts index (next_at requests i (out_next out)) False results' w2)))"

definition run_requests ::
    "'w run_world \<Rightarrow> run_request list \<Rightarrow> run_options \<Rightarrow> 'w \<Rightarrow> (run_report \<times> 'w) option" where
  "run_requests rw requests opts w = run_from rw requests opts 0 (Some 0) True [] w"

section \<open>The requests of a run\<close>

text \<open>
  \<open>requestsInOrder\<close>: the children still to come, as the nested calls of \<open>inOrder\<close> leave them, and
  the folders entered.
\<close>

definition folder_ids :: "tree_child list \<Rightarrow> string set" where
  "folder_ids cs = {fol_id f | f. FolderChild f \<in> set cs}"

lemma folder_ids_simps [simp]:
  "folder_ids [] = {}" "folder_ids (RequestChild r # cs) = folder_ids cs"
  "folder_ids (FolderChild f # cs) = insert (fol_id f) (folder_ids cs)"
  "folder_ids (as @ bs) = folder_ids as \<union> folder_ids bs"
  by (auto simp: folder_ids_def)

lemma finite_folder_ids [simp]: "finite (folder_ids cs)"
proof -
  have "folder_ids cs \<subseteq> (\<lambda>c. case c of FolderChild f \<Rightarrow> fol_id f | RequestChild _ \<Rightarrow> []) ` set cs"
    by (force simp: folder_ids_def)
  then show ?thesis by (meson finite_imageI finite_set finite_subset)
qed

lemma folder_ids_children: "folder_ids (children_in_order lc folders requests p) \<subseteq> fol_id ` set folders"
  by (auto simp: folder_ids_def set_children_in_order)

function order_walk ::
    "(string \<Rightarrow> string \<Rightarrow> bool) \<Rightarrow> folder list \<Rightarrow> request_doc list \<Rightarrow> tree_child list \<Rightarrow> string list \<Rightarrow> request_doc list" where
  "order_walk lc folders requests [] entered = []"
| "order_walk lc folders requests (RequestChild r # cs) entered =
     r # order_walk lc folders requests cs entered"
| "order_walk lc folders requests (FolderChild f # cs) entered =
     (if fol_id f \<in> set entered then order_walk lc folders requests cs entered
      else order_walk lc folders requests
        (children_in_order lc folders requests (Some (fol_id f)) @ cs) (fol_id f # entered))"
  by pat_completeness auto

termination
proof (relation "measures [\<lambda>(lc, folders, requests, cs, entered).
    card ((fol_id ` set folders \<union> folder_ids cs) - set entered), \<lambda>(lc, folders, requests, cs, entered). length cs]",
    goal_cases)
  case (4 lc folders requests f cs entered)
  let ?new = "(fol_id ` set folders \<union> folder_ids (children_in_order lc folders requests (Some (fol_id f)) @ cs)) -
      set (fol_id f # entered)"
  let ?old = "(fol_id ` set folders \<union> folder_ids (FolderChild f # cs)) - set entered"
  have "?new \<subset> ?old" using 4 folder_ids_children [of lc folders requests "Some (fol_id f)"] by auto
  then have "card ?new < card ?old" by (intro psubset_card_mono) auto
  then show ?case by simp
next
  case (3 lc folders requests f cs entered)
  have "(fol_id ` set folders \<union> folder_ids cs) - set entered =
      (fol_id ` set folders \<union> folder_ids (FolderChild f # cs)) - set entered" using 3 by auto
  then show ?case by simp
qed auto

definition requests_in_order ::
    "(string \<Rightarrow> string \<Rightarrow> bool) \<Rightarrow> folder list \<Rightarrow> request_doc list \<Rightarrow> string option \<Rightarrow> request_doc list" where
  "requests_in_order lc folders requests folder_id =
     order_walk lc folders requests (children_in_order lc folders requests folder_id)
       (case folder_id of Some i \<Rightarrow> [i] | None \<Rightarrow> [])"

section \<open>What a run says\<close>

definition run_ending :: "run_ended \<Rightarrow> string option \<Rightarrow> string" where
  "run_ending ended reason =
     (case ended of
        Completed \<Rightarrow> ''The run is complete.''
      | Cancelled \<Rightarrow> ''You stopped the run.''
      | Failed \<Rightarrow> ''The run stopped at the first failure.''
      | Ended \<Rightarrow> trim (''The run was stopped. '' @ (case reason of Some r \<Rightarrow> r | None \<Rightarrow> [])))"

definition run_counts :: "run_result list \<Rightarrow> nat \<Rightarrow> string" where
  "run_counts results iterations =
     (let tests = concat (map res_tests results);
          failed = length (filter failed_result results);
          passed = length (filter rt_passed tests)
      in show_nat (length results) @ (if length results = 1 then '' result'' else '' results'') @ '' in '' @
         show_nat iterations @ (if iterations = 1 then '' iteration'' else '' iterations'') @ ''; '' @
         show_nat failed @ '' failed; '' @ show_nat passed @ '' of '' @ show_nat (length tests) @ '' tests passed.'')"

definition shared_errors :: "string option list \<Rightarrow> (string \<times> nat) list" where
  "shared_errors errors =
     (let counts = fold (\<lambda>e m. case e of
            None \<Rightarrow> m
          | Some t \<Rightarrow> om_set t ((case om_get m t of None \<Rightarrow> 0 | Some n \<Rightarrow> n) + 1) m) errors []
      in sort_by (\<lambda>a b. snd b \<le> snd a) (filter (\<lambda>(_, n). 2 \<le> n) counts))"

definition shared_error_heading :: "nat \<Rightarrow> string" where
  "shared_error_heading n = show_nat n @ '' requests failed with the same error.''"

section \<open>Lemmas\<close>

text \<open>One step of the run, for a place within the requests.\<close>

lemma run_from_past:
  "index < run_count opts \<Longrightarrow> place = None \<or> (\<exists>i. place = Some i \<and> length requests \<le> i) \<Longrightarrow>
   run_from rw requests opts index place first results w = run_from rw requests opts (Suc index) (Some 0) first results w"
  by (subst run_from.simps) (auto split: option.splits)

lemma run_from_end:
  "run_count opts \<le> index \<Longrightarrow>
   run_from rw requests opts index place first results w = Some (report opts results Completed None, w)"
  by (subst run_from.simps) simp

text \<open>A sender that names no next request and does not end the run, with no cancel and no stop.\<close>

definition plain_run :: "'w run_world \<Rightarrow> run_options \<Rightarrow> bool" where
  "plain_run rw opts \<longleftrightarrow> \<not> opt_stop_on_failure opts \<and> (\<forall>w. \<not> rw_aborted rw w) \<and>
     (\<forall>q it w. out_next (fst (rw_send rw q it w)) = None \<and> out_end (fst (rw_send rw q it w)) = None)"

definition which :: "run_result \<Rightarrow> nat \<times> string" where
  "which r = (res_iteration r, res_id r)"

lemma plain_step:
  assumes "plain_run rw opts" "index < run_count opts" "i < length requests"
  shows "\<exists>r w'. which r = (index, rq_id (requests ! i)) \<and>
    run_from rw requests opts index (Some i) first results w =
      run_from rw requests opts index (Some (Suc i)) False (results @ [r]) w'"
proof -
  let ?w0 = "if \<not> first \<and> opt_delay opts then rw_wait rw w else w"
  obtain out w1 where send: "rw_send rw (requests ! i) (iteration_of opts index) ?w0 = (out, w1)"
    by (cases "rw_send rw (requests ! i) (iteration_of opts index) ?w0")
  have out: "out_next out = None" "out_end out = None"
    using assms(1) send unfolding plain_run_def by (metis fst_conv)+
  have ab: "\<not> rw_aborted rw v" for v using assms(1) by (simp add: plain_run_def)
  have "run_from rw requests opts index (Some i) first results w =
      run_from rw requests opts index (Some (Suc i)) False (results @ [result_of (requests ! i) index out])
        (rw_on_result rw (result_of (requests ! i) index out) w1)"
    using assms send out
    by (subst run_from.simps) (simp add: ab next_at_def plain_run_def Let_def)
  moreover have "which (result_of (requests ! i) index out) = (index, rq_id (requests ! i))"
    by (simp add: which_def result_of_def)
  ultimately show ?thesis by blast
qed

lemma plain_iteration:
  assumes "plain_run rw opts" "index < run_count opts" "i \<le> length requests"
  shows "\<exists>rs first' w'. map which rs = map (\<lambda>q. (index, rq_id q)) (drop i requests) \<and>
    run_from rw requests opts index (Some i) first results w =
      run_from rw requests opts (Suc index) (Some 0) first' (results @ rs) w'"
  using assms(3)
proof (induction "length requests - i" arbitrary: i first results w)
  case 0
  then show ?case using run_from_past [OF assms(2), of "Some i" requests rw first results w]
    by (intro exI [of _ "[]"]) auto
next
  case (Suc n)
  then have i: "i < length requests" by simp
  obtain r w1 where r: "which r = (index, rq_id (requests ! i))"
    "run_from rw requests opts index (Some i) first results w =
       run_from rw requests opts index (Some (Suc i)) False (results @ [r]) w1"
    using plain_step [OF assms(1,2) i] by blast
  have n: "n = length requests - Suc i" using Suc(2) by simp
  obtain rs first' w' where rs: "map which rs = map (\<lambda>q. (index, rq_id q)) (drop (Suc i) requests)"
    "run_from rw requests opts index (Some (Suc i)) False (results @ [r]) w1 =
       run_from rw requests opts (Suc index) (Some 0) first' ((results @ [r]) @ rs) w'"
    using Suc(1) [of "Suc i" False "results @ [r]" w1, OF n] i by auto
  have "map which (r # rs) = map (\<lambda>q. (index, rq_id q)) (drop i requests)"
    using r(1) rs(1) i by (simp add: Cons_nth_drop_Suc [symmetric])
  with r rs show ?case by (intro exI [of _ "r # rs"]) auto
qed

lemma plain_iterations:
  assumes "plain_run rw opts" "index \<le> run_count opts"
  shows "\<exists>rs w'. map which rs = concat (map (\<lambda>k. map (\<lambda>q. (k, rq_id q)) requests) [index..<run_count opts]) \<and>
    run_from rw requests opts index (Some 0) first results w = Some (report opts (results @ rs) Completed None, w')"
  using assms(2)
proof (induction "run_count opts - index" arbitrary: index first results w)
  case 0
  then show ?case by (intro exI [of _ "[]"]) (simp add: run_from_end)
next
  case (Suc n)
  then have less: "index < run_count opts" by simp
  obtain rs first' w' where rs: "map which rs = map (\<lambda>q. (index, rq_id q)) requests"
    "run_from rw requests opts index (Some 0) first results w =
       run_from rw requests opts (Suc index) (Some 0) first' (results @ rs) w'"
    using plain_iteration [OF assms(1) less, of 0 requests first results w] by auto
  have n: "n = run_count opts - Suc index" using Suc(2) by simp
  obtain ss w'' where ss: "map which ss = concat (map (\<lambda>k. map (\<lambda>q. (k, rq_id q)) requests) [Suc index..<run_count opts])"
    "run_from rw requests opts (Suc index) (Some 0) first' (results @ rs) w' =
       Some (report opts ((results @ rs) @ ss) Completed None, w'')"
    using Suc(1) [of "Suc index" first' "results @ rs" w', OF n] less by auto
  from rs ss less show ?case
    by (intro exI [of _ "rs @ ss"] exI [of _ w'']) (simp add: upt_conv_Cons)
qed

text \<open>What holds of every run that ends, whatever the sender does.\<close>

definition run_ok :: "run_request list \<Rightarrow> run_options \<Rightarrow> run_result list \<Rightarrow> bool" where
  "run_ok requests opts rs \<longleftrightarrow>
     (\<forall>r \<in> set rs. res_iteration r < run_count opts \<and>
        (\<exists>q \<in> set requests. res_id r = rq_id q \<and> res_name r = rq_name q)) \<and>
     sorted (map res_iteration rs)"

definition ends_well :: "run_request list \<Rightarrow> run_options \<Rightarrow> run_report \<Rightarrow> bool" where
  "ends_well requests opts rep \<longleftrightarrow>
     rep_iterations rep = run_count opts \<and> run_ok requests opts (rep_results rep) \<and>
     (opt_stop_on_failure opts \<longrightarrow>
        list_all (\<lambda>r. \<not> failed_result r) (butlast (rep_results rep)) \<and>
        (rep_ended rep = Completed \<longrightarrow> list_all (\<lambda>r. \<not> failed_result r) (rep_results rep))) \<and>
     (rep_ended rep = Failed \<longrightarrow> opt_stop_on_failure opts \<and> rep_results rep \<noteq> [] \<and> failed_result (last (rep_results rep))) \<and>
     (rep_reason rep \<noteq> None \<longleftrightarrow> rep_ended rep = Ended)"

lemma last_index_where_less: "last_index_where P xs = Some i \<Longrightarrow> i < length xs \<and> P (xs ! i)"
  by (induction xs arbitrary: i) (auto split: option.splits if_splits)

lemma run_ok_snoc:
  "run_ok requests opts rs \<Longrightarrow> \<forall>r \<in> set rs. res_iteration r \<le> index \<Longrightarrow> index < run_count opts \<Longrightarrow> i < length requests \<Longrightarrow>
     run_ok requests opts (rs @ [result_of (requests ! i) index out])"
  by (auto simp: run_ok_def result_of_def sorted_append)

text \<open>What has been collected before the iteration \<open>index\<close> goes on.\<close>

definition so_far :: "run_request list \<Rightarrow> run_options \<Rightarrow> nat \<Rightarrow> run_result list \<Rightarrow> bool" where
  "so_far requests opts index rs \<longleftrightarrow> run_ok requests opts rs \<and> (\<forall>r \<in> set rs. res_iteration r \<le> index) \<and>
     (opt_stop_on_failure opts \<longrightarrow> list_all (\<lambda>r. \<not> failed_result r) rs)"

lemma so_far_Suc: "so_far requests opts index rs \<Longrightarrow> so_far requests opts (Suc index) rs"
  by (auto simp: so_far_def)

lemma list_all_butlast: "list_all P xs \<Longrightarrow> list_all P (butlast xs)"
  by (auto simp: list_all_iff dest: in_set_butlastD)

lemma ends_well_report:
  assumes "so_far requests opts index rs" "index < run_count opts" "i < length requests"
    and "r = result_of (requests ! i) index out"
  shows "ends_well requests opts (report opts (rs @ [r]) Cancelled None)"
    and "ends_well requests opts (report opts (rs @ [r]) Ended (Some e))"
    and "opt_stop_on_failure opts \<Longrightarrow> failed_result r \<Longrightarrow> ends_well requests opts (report opts (rs @ [r]) Failed None)"
  using assms run_ok_snoc [of requests opts rs index i out]
  by (auto simp: ends_well_def report_def so_far_def)

lemma so_far_snoc:
  assumes "so_far requests opts index rs" "index < run_count opts" "i < length requests"
    and "\<not> (opt_stop_on_failure opts \<and> failed_result (result_of (requests ! i) index out))"
  shows "so_far requests opts index (rs @ [result_of (requests ! i) index out])"
  using assms run_ok_snoc [of requests opts rs index i out]
  by (auto simp: so_far_def) (auto simp: result_of_def)

lemma run_from_ends:
  "run_from rw requests opts index place first results w = Some y \<Longrightarrow>
     so_far requests opts index results \<longrightarrow> ends_well requests opts (fst y)"
proof (rule run_from.raw_induct [of "\<lambda>rw requests opts index place first results w y.
    so_far requests opts index results \<longrightarrow> ends_well requests opts (fst y)"], goal_cases)
  case (1 f rw requests opts index place first results w y)
  note IH = 1(2)
  show ?case
  proof
    assume sf: "so_far requests opts index results"
    have plain: "ends_well requests opts (report opts results ended None)" if "ended = Completed \<or> ended = Cancelled" for ended
      using sf that by (auto simp: ends_well_def report_def so_far_def list_all_butlast)
    show "ends_well requests opts (fst y)"
    proof (cases "run_count opts \<le> index")
      case True
      with 1(3) plain show ?thesis by auto
    next
      case False
      then have less: "index < run_count opts" by simp
      show ?thesis
      proof (cases "\<exists>i. place = Some i \<and> i < length requests")
        case False
        with 1(3) less have "f rw requests opts (Suc index) (Some 0) first results w = Some y"
          by (auto split: option.splits if_splits)
        from IH [OF this] so_far_Suc [OF sf] show ?thesis by blast
      next
        case True
        then obtain i where i: "place = Some i" "i < length requests" by blast
        define w0 where "w0 = (if \<not> first \<and> opt_delay opts then rw_wait rw w else w)"
        obtain out w1 where send: "rw_send rw (requests ! i) (iteration_of opts index) w0 = (out, w1)"
          by (cases "rw_send rw (requests ! i) (iteration_of opts index) w0")
        define r where "r = result_of (requests ! i) index out"
        define w2 where "w2 = rw_on_result rw r w1"
        note ends = ends_well_report [OF sf less i(2) r_def]
        have step: "(if rw_aborted rw w0 then Some (report opts results Cancelled None, w0)
            else if rw_aborted rw w2 then Some (report opts (results @ [r]) Cancelled None, w2)
            else if out_end out \<noteq> None then Some (report opts (results @ [r]) Ended (out_end out), w2)
            else if opt_stop_on_failure opts \<and> failed_result r then Some (report opts (results @ [r]) Failed None, w2)
            else f rw requests opts index (next_at requests i (out_next out)) False (results @ [r]) w2) = Some y"
          using 1(3) less i(2) unfolding i(1) Let_def w0_def [symmetric] by (simp add: send r_def w2_def cong: if_cong)
        show ?thesis
        proof (cases "rw_aborted rw w0 \<or> rw_aborted rw w2 \<or> out_end out \<noteq> None \<or> opt_stop_on_failure opts \<and> failed_result r")
          case True
          with step ends plain show ?thesis by (auto split: if_splits)
        next
          case False
          with step have "f rw requests opts index (next_at requests i (out_next out)) False (results @ [r]) w2 = Some y"
            by auto
          from IH [OF this] so_far_snoc [OF sf less i(2)] False show ?thesis by (auto simp: r_def)
        qed
      qed
    qed
  qed
qed assumption

section \<open>The order of the requests\<close>

text \<open>The requests a stack of children holds at its top level.\<close>

definition stacked :: "tree_child list \<Rightarrow> request_doc list" where
  "stacked cs = concat (map (\<lambda>c. case c of RequestChild r \<Rightarrow> [r] | FolderChild _ \<Rightarrow> []) cs)"

lemma stacked_simps [simp]:
  "stacked [] = []" "stacked (RequestChild r # cs) = r # stacked cs" "stacked (FolderChild f # cs) = stacked cs"
  "stacked (as @ bs) = stacked as @ stacked bs"
  by (simp_all add: stacked_def)

lemma set_stacked: "r \<in> set (stacked cs) \<longleftrightarrow> RequestChild r \<in> set cs"
  by (induction cs) (auto simp: stacked_def split: tree_child.splits)

lemma stacked_children: "set (stacked (children_in_order lc folders requests p)) = {r \<in> set requests. rd_folder_id r = p}"
  by (auto simp: set_stacked set_children_in_order)

lemma distinct_stacked: "distinct cs \<Longrightarrow> distinct (stacked cs)"
  by (induction cs) (auto simp: stacked_def set_stacked [unfolded stacked_def] split: tree_child.splits)


lemma entry_children:
  "map ent_child (child_entries folders requests p) =
     map FolderChild (filter (\<lambda>f. fol_parent f = p) folders) @ map RequestChild (filter (\<lambda>r. rd_folder_id r = p) requests)"
  by (simp add: child_entries_def comp_def)

lemma distinct_children:
  assumes "distinct folders" "distinct requests"
  shows "distinct (children_in_order lc folders requests p)"
proof -
  have "mset (children_in_order lc folders requests p) = mset (map ent_child (child_entries folders requests p))"
    by (simp add: children_in_order_def mset_sort_by)
  moreover have "distinct (map ent_child (child_entries folders requests p))"
    using assms unfolding entry_children by (auto simp: distinct_map inj_on_def)
  ultimately show ?thesis using mset_eq_imp_distinct_iff by blast
qed

text \<open>
  Walking gives the requests of the stack and, beside them, only requests of folders not entered
  before, each once.
\<close>

lemma order_walk_distinct:
  "distinct folders \<Longrightarrow> distinct requests \<Longrightarrow> distinct (stacked cs) \<Longrightarrow> set (stacked cs) \<subseteq> set requests \<Longrightarrow>
    (\<forall>r \<in> set (stacked cs). \<forall>i. rd_folder_id r = Some i \<longrightarrow> i \<in> set entered) \<Longrightarrow>
    distinct (order_walk lc folders requests cs entered) \<and>
    set (stacked cs) \<subseteq> set (order_walk lc folders requests cs entered) \<and>
    set (order_walk lc folders requests cs entered) \<subseteq>
      set (stacked cs) \<union> {r \<in> set requests. \<exists>i. rd_folder_id r = Some i \<and> i \<notin> set entered}"
proof (induction lc folders requests cs entered rule: order_walk.induct)
  case (2 lc folders requests r cs entered)
  from 2(2-6) have IH: "distinct (order_walk lc folders requests cs entered) \<and>
    set (stacked cs) \<subseteq> set (order_walk lc folders requests cs entered) \<and>
    set (order_walk lc folders requests cs entered) \<subseteq>
      set (stacked cs) \<union> {r \<in> set requests. \<exists>i. rd_folder_id r = Some i \<and> i \<notin> set entered}"
    by (intro 2(1)) auto
  have "r \<notin> set (stacked cs)" using 2(4) by simp
  moreover have "\<not> (\<exists>i. rd_folder_id r = Some i \<and> i \<notin> set entered)" using 2(6) by auto
  ultimately have "r \<notin> set (order_walk lc folders requests cs entered)" using IH by blast
  with IH show ?case by auto
next
  case (3 lc folders requests f cs entered)
  show ?case
  proof (cases "fol_id f \<in> set entered")
    case True
    with 3 show ?thesis by simp
  next
    case False
    let ?ch = "children_in_order lc folders requests (Some (fol_id f))"
    let ?w = "order_walk lc folders requests (?ch @ cs) (fol_id f # entered)"
    have st: "set (stacked ?ch) = {r \<in> set requests. rd_folder_id r = Some (fol_id f)}" by (rule stacked_children)
    have "distinct (stacked ?ch)"
      using distinct_children [OF 3(3,4)] by (rule distinct_stacked)
    moreover have "set (stacked ?ch) \<inter> set (stacked cs) = {}" using st 3(7) False by auto
    ultimately have "distinct ?w \<and> set (stacked (?ch @ cs)) \<subseteq> set ?w \<and>
      set ?w \<subseteq> set (stacked (?ch @ cs)) \<union> {r \<in> set requests. \<exists>i. rd_folder_id r = Some i \<and> i \<notin> set (fol_id f # entered)}"
      using 3(3-7) st by (intro 3(2) False) auto
    with False st show ?thesis by auto
  qed
qed simp


text \<open>The folders a walk goes into: those of the place it starts at, and the folders of those.\<close>

inductive reached :: "folder list \<Rightarrow> string option \<Rightarrow> string option \<Rightarrow> bool" for folders base where
  reached_base: "reached folders base base"
| reached_child: "reached folders base p \<Longrightarrow> f \<in> set folders \<Longrightarrow> fol_parent f = p \<Longrightarrow> reached folders base (Some (fol_id f))"

inductive_cases reached_cases: "reached folders base (Some i)"

lemma order_walk_reached:
  "\<forall>r \<in> set (stacked cs). reached folders base (rd_folder_id r) \<Longrightarrow>
   \<forall>f. FolderChild f \<in> set cs \<longrightarrow> reached folders base (Some (fol_id f)) \<Longrightarrow>
   r \<in> set (order_walk lc folders requests cs entered) \<Longrightarrow> reached folders base (rd_folder_id r)"
proof (induction lc folders requests cs entered rule: order_walk.induct)
  case (2 lc folders requests r' cs entered)
  then show ?case by auto
next
  case (3 lc folders requests f cs entered)
  show ?case
  proof (cases "fol_id f \<in> set entered")
    case True
    with 3 show ?thesis by auto
  next
    case False
    have f: "reached folders base (Some (fol_id f))" using 3(4) by simp
    have "\<forall>r \<in> set (stacked (children_in_order lc folders requests (Some (fol_id f)))). reached folders base (rd_folder_id r)"
      using f by (simp add: stacked_children)
    moreover have "\<forall>g. FolderChild g \<in> set (children_in_order lc folders requests (Some (fol_id f))) \<longrightarrow>
        reached folders base (Some (fol_id g))"
      using reached_child [OF f] by (auto simp: set_children_in_order)
    ultimately show ?thesis using 3 False by (intro 3(2)) auto
  qed
qed simp

text \<open>Nothing reached is left out: what is entered is walked, or stands on the stack.\<close>

definition covered :: "folder list \<Rightarrow> request_doc list \<Rightarrow> tree_child list \<Rightarrow> string option set \<Rightarrow> request_doc set \<Rightarrow> bool" where
  "covered folders requests cs done out \<longleftrightarrow>
     (\<forall>p \<in> done. (\<forall>r \<in> set requests. rd_folder_id r = p \<longrightarrow> r \<in> out \<union> set (stacked cs)) \<and>
        (\<forall>f \<in> set folders. fol_parent f = p \<longrightarrow> Some (fol_id f) \<in> done \<or> FolderChild f \<in> set cs))"

lemma covered_entered:
  "covered folders requests (FolderChild f # cs) done out \<Longrightarrow> Some (fol_id f) \<in> done \<Longrightarrow>
   covered folders requests cs done out"
  by (auto simp: covered_def)

lemma order_walk_covers:
  "covered folders requests cs (insert p0 (Some ` set entered)) out \<Longrightarrow>
   \<exists>done. insert p0 (Some ` set entered) \<subseteq> done \<and>
     covered folders requests [] done (out \<union> set (order_walk lc folders requests cs entered))"
proof (induction lc folders requests cs entered arbitrary: out rule: order_walk.induct)
  case (1 lc folders requests entered)
  then show ?case by auto
next
  case (2 lc folders requests r cs entered)
  have "covered folders requests cs (insert p0 (Some ` set entered)) (insert r out)"
    using 2(2) unfolding covered_def by auto
  from 2(1) [OF this] show ?case by auto
next
  case (3 lc folders requests f cs entered)
  show ?case
  proof (cases "fol_id f \<in> set entered")
    case True
    then have "covered folders requests cs (insert p0 (Some ` set entered)) out"
      using covered_entered [OF 3(3)] by simp
    from 3(1) [OF True this] True show ?thesis by auto
  next
    case False
    let ?ch = "children_in_order lc folders requests (Some (fol_id f))"
    have "covered folders requests (?ch @ cs) (insert p0 (Some ` set (fol_id f # entered))) out"
      using 3(3) unfolding covered_def
      by (auto simp: stacked_children set_children_in_order)
    from 3(2) [OF False this] False show ?thesis by auto
  qed
qed

lemma reached_done:
  assumes "covered folders requests [] done out" "base \<in> done"
  shows "reached folders base p \<Longrightarrow> p \<in> done"
  by (induction rule: reached.induct) (use assms in \<open>auto simp: covered_def\<close>)

text \<open>
  The requests of a run of a collection, or of one of its folders, are the requests of that
  place and of every folder below it, each of them once, whatever the parents of the folders
  say, loops among them included.
\<close>

theorem requests_in_order_once:
  assumes "distinct folders" "distinct requests"
  shows "distinct (requests_in_order lc folders requests base) \<and>
    set (requests_in_order lc folders requests base) = {r \<in> set requests. reached folders base (rd_folder_id r)}"
proof -
  let ?cs = "children_in_order lc folders requests base"
  let ?en = "case base of Some i \<Rightarrow> [i] | None \<Rightarrow> []"
  have st: "set (stacked ?cs) = {r \<in> set requests. rd_folder_id r = base}" by (rule stacked_children)
  have once: "distinct (order_walk lc folders requests ?cs ?en) \<and>
      set (stacked ?cs) \<subseteq> set (order_walk lc folders requests ?cs ?en) \<and>
      set (order_walk lc folders requests ?cs ?en) \<subseteq>
        set (stacked ?cs) \<union> {r \<in> set requests. \<exists>i. rd_folder_id r = Some i \<and> i \<notin> set ?en}"
    using st distinct_stacked [OF distinct_children [OF assms]]
    by (intro order_walk_distinct assms) (auto split: option.splits)
  have below: "reached folders base (rd_folder_id r)" if "r \<in> set (order_walk lc folders requests ?cs ?en)" for r
    using that by (rule order_walk_reached [rotated 2])
      (use st in \<open>auto simp: set_children_in_order intro: reached.intros\<close>)
  have "covered folders requests ?cs (insert base (Some ` set ?en)) {}"
    using st by (auto simp: covered_def set_children_in_order split: option.splits)
  from order_walk_covers [OF this, of lc] obtain dn where dn: "insert base (Some ` set ?en) \<subseteq> dn"
    "covered folders requests [] dn (set (order_walk lc folders requests ?cs ?en))" by auto
  have "r \<in> set (order_walk lc folders requests ?cs ?en)"
    if "r \<in> set requests" "reached folders base (rd_folder_id r)" for r
    using reached_done [OF dn(2)] dn that by (auto simp: covered_def)
  moreover have "set (order_walk lc folders requests ?cs ?en) \<subseteq> set requests" using once st by blast
  ultimately show ?thesis using once below unfolding requests_in_order_def by blast
qed

text \<open>
  Where no script names a next request and nothing stops the run, the requests of every
  iteration are sent, in their order, as many times as the run has iterations, and the run is
  complete.
\<close>

theorem run_plain_complete:
  assumes "plain_run rw opts"
  shows "\<exists>rep w'. run_requests rw requests opts w = Some (rep, w') \<and> rep_ended rep = Completed \<and>
    map which (rep_results rep) = concat (map (\<lambda>k. map (\<lambda>q. (k, rq_id q)) requests) [0..<run_count opts])"
proof -
  obtain rs w' where "map which rs = concat (map (\<lambda>k. map (\<lambda>q. (k, rq_id q)) requests) [0..<run_count opts])"
    "run_from rw requests opts 0 (Some 0) True [] w = Some (report opts ([] @ rs) Completed None, w')"
    using plain_iterations [OF assms, of 0 requests True "[]" w] by auto
  then show ?thesis unfolding run_requests_def
    by (intro exI [of _ "report opts rs Completed None"] exI [of _ w']) (simp add: report_def)
qed

text \<open>
  C20: whatever the sender does, of a run that ends: its results are of its requests, in
  iterations it has, in their order; with \<open>stopOnFailure\<close> none but the last result failed, and a
  complete run has no failure; it ended as failed only at a failed result; it has a reason exactly
  when the sender ended it.
\<close>

theorem run_requests_ends_well:
  assumes "run_requests rw requests opts w = Some (rep, w')"
  shows "ends_well requests opts rep"
proof -
  have "so_far requests opts 0 []" by (simp add: so_far_def run_ok_def)
  with run_from_ends [OF assms [unfolded run_requests_def]] show ?thesis by simp
qed

text \<open>A sender that never goes back: every next request it names stands later, or there is none.\<close>

definition goes_forward :: "'w run_world \<Rightarrow> run_request list \<Rightarrow> bool" where
  "goes_forward rw requests \<longleftrightarrow>
     (\<forall>i < length requests. \<forall>it w j.
        next_at requests i (out_next (fst (rw_send rw (requests ! i) it w))) = Some j \<longrightarrow> i < j)"

lemma run_from_or_next:
  assumes "index < run_count opts" "i < length requests"
  shows "(\<exists>y. run_from rw requests opts index (Some i) first results w = Some y) \<or>
    (\<exists>it v rs v'. run_from rw requests opts index (Some i) first results w =
       run_from rw requests opts index (next_at requests i (out_next (fst (rw_send rw (requests ! i) it v)))) False rs v')"
proof -
  define w0 where "w0 = (if \<not> first \<and> opt_delay opts then rw_wait rw w else w)"
  obtain out w1 where send: "rw_send rw (requests ! i) (iteration_of opts index) w0 = (out, w1)"
    by (cases "rw_send rw (requests ! i) (iteration_of opts index) w0")
  define r where "r = result_of (requests ! i) index out"
  define w2 where "w2 = rw_on_result rw r w1"
  have step: "run_from rw requests opts index (Some i) first results w =
    (if rw_aborted rw w0 then Some (report opts results Cancelled None, w0)
     else if rw_aborted rw w2 then Some (report opts (results @ [r]) Cancelled None, w2)
     else if out_end out \<noteq> None then Some (report opts (results @ [r]) Ended (out_end out), w2)
     else if opt_stop_on_failure opts \<and> failed_result r then Some (report opts (results @ [r]) Failed None, w2)
     else run_from rw requests opts index (next_at requests i (out_next out)) False (results @ [r]) w2)"
    using assms by (subst run_from.simps) (simp add: Let_def w0_def [symmetric] send r_def w2_def cong: if_cong)
  show ?thesis
  proof (cases "rw_aborted rw w0 \<or> rw_aborted rw w2 \<or> out_end out \<noteq> None \<or> opt_stop_on_failure opts \<and> failed_result r")
    case True
    then show ?thesis unfolding step by auto
  next
    case False
    then have "run_from rw requests opts index (Some i) first results w =
      run_from rw requests opts index (next_at requests i (out_next (fst (rw_send rw (requests ! i) (iteration_of opts index) w0)))) False (results @ [r]) w2"
      unfolding step by (auto simp: send)
    then show ?thesis by blast
  qed
qed

lemma forward_ends:
  assumes "goes_forward rw requests"
  shows "\<exists>y. run_from rw requests opts index place first results w = Some y"
proof (induction "(run_count opts - index, case place of None \<Rightarrow> 0 | Some i \<Rightarrow> Suc (length requests) - i)"
    arbitrary: index place first results w rule: wf_induct_rule [OF wf_lex_prod [OF wf_less_than wf_less_than]])
  case (1 index place first results w)
  have later: "index < run_count opts \<Longrightarrow> \<exists>y. run_from rw requests opts (Suc index) (Some 0) first results w = Some y"
    by (rule 1) auto
  have step: "\<exists>y. run_from rw requests opts index p False rs v = Some y"
    if "place = Some i" "i < length requests" "\<forall>j. p = Some j \<longrightarrow> i < j" for i p rs v
    using that by (intro 1) (auto split: option.splits)
  show ?case
  proof (cases place)
    case None
    then show ?thesis using later run_from_past [of index opts place requests rw first results w]
        run_from_end [of opts index rw requests place first results w] by (cases "index < run_count opts") auto
  next
    case (Some i)
    show ?thesis
    proof (cases "index < run_count opts \<and> i < length requests")
      case False
      then show ?thesis using later Some run_from_past [of index opts place requests rw first results w]
          run_from_end [of opts index rw requests place first results w] by (cases "index < run_count opts") auto
    next
      case True
      have next_ok: "\<forall>j. next_at requests i (out_next (fst (rw_send rw (requests ! i) it v))) = Some j \<longrightarrow> i < j" for it v
        using assms True by (auto simp: goes_forward_def)
      show ?thesis using True run_from_or_next [of index opts i requests rw first results w] step [OF Some _ next_ok]
        unfolding Some by metis
    qed
  qed
qed


lemma last_index_where_None: "last_index_where P qs = None \<Longrightarrow> \<forall>q \<in> set qs. \<not> P q"
  by (induction qs) (auto split: option.splits if_splits)

lemma loop_none:
  assumes "\<forall>q it w. out_next (fst (rw_send rw q it w)) = Some (Some name) \<and> out_end (fst (rw_send rw q it w)) = None"
    and "\<forall>w. \<not> rw_aborted rw w" "\<not> opt_stop_on_failure opts" "\<exists>q \<in> set requests. rq_id q = name \<or> rq_name q = name"
  shows "run_from rw requests opts index (Some i) first results w = Some y \<Longrightarrow> index < run_count opts \<Longrightarrow>
    i < length requests \<Longrightarrow> False"
proof -
  obtain k where k: "last_index_where (\<lambda>q. rq_id q = name \<or> rq_name q = name) requests = Some k"
    using last_index_where_None [of "\<lambda>q. rq_id q = name \<or> rq_name q = name" requests] assms(4)
    by (cases "last_index_where (\<lambda>q. rq_id q = name \<or> rq_name q = name) requests") auto
  have less: "k < length requests" using last_index_where_less [OF k] by simp
  have main: "run_from rw' rs' op' index place first results w = Some y \<Longrightarrow>
      rw' = rw \<and> rs' = requests \<and> op' = opts \<and> index < run_count opts \<and> (\<exists>i < length requests. place = Some i) \<longrightarrow> False" 
    for rw' rs' op' index place first results w y
  proof (rule run_from.raw_induct [of "\<lambda>rw' rs' op' index place first results w y.
      rw' = rw \<and> rs' = requests \<and> op' = opts \<and> index < run_count opts \<and> (\<exists>i < length requests. place = Some i) \<longrightarrow> False"], goal_cases)
    case (1 f rw' rs' op' index place first results w y)
    show ?case
    proof
      assume a: "rw' = rw \<and> rs' = requests \<and> op' = opts \<and> index < run_count opts \<and> (\<exists>i < length requests. place = Some i)"
      then obtain i where i: "place = Some i" "i < length requests" by blast
      define w0 where "w0 = (if \<not> first \<and> opt_delay opts then rw_wait rw w else w)"
      obtain out w1 where send: "rw_send rw (requests ! i) (iteration_of opts index) w0 = (out, w1)"
        by (cases "rw_send rw (requests ! i) (iteration_of opts index) w0")
      have out: "out_next out = Some (Some name)" "out_end out = None" using assms(1) send by (metis fst_conv)+
      let ?r = "result_of (requests ! i) index out"
      have "f rw requests opts index (Some k) False (results @ [?r]) (rw_on_result rw ?r w1) = Some y"
        using 1(3) a i assms(2,3) send out k unfolding w0_def [symmetric]
        by (auto simp: Let_def w0_def [symmetric] next_at_def)
      with 1(2) a less show False by blast
    qed
  qed assumption
  show "run_from rw requests opts index (Some i) first results w = Some y \<Longrightarrow> index < run_count opts \<Longrightarrow>
    i < length requests \<Longrightarrow> False" using main by blast
qed


section \<open>Witnesses\<close>

text \<open>A sender that counts what it sends and names \<open>nxt\<close>.\<close>

definition counting_world :: "string option option \<Rightarrow> nat run_world" where
  "counting_world nxt =
     \<lparr>rw_send = (\<lambda>q it w. (\<lparr>out_skipped = False, out_status = Some 200, out_status_text = None, out_duration = None,
        out_error = None, out_tests = [], out_next = nxt, out_end = None\<rparr>, Suc w)),
      rw_wait = (\<lambda>w. w), rw_on_result = (\<lambda>r w. w), rw_aborted = (\<lambda>w. False)\<rparr>"

definition two_requests :: "run_request list" where
  "two_requests = [\<lparr>rq_id = ''a'', rq_name = ''First''\<rparr>, \<lparr>rq_id = ''b'', rq_name = ''Second''\<rparr>]"

definition twice :: run_options where
  "twice = \<lparr>opt_iterations = Some 2, opt_data = [], opt_delay = False, opt_stop_on_failure = False\<rparr>"

lemma plain_counting: "plain_run (counting_world None) twice"
  by (simp add: plain_run_def counting_world_def twice_def)

lemma run_plain_complete_witness:
  "\<exists>rep w'. run_requests (counting_world None) two_requests twice 0 = Some (rep, w') \<and> rep_ended rep = Completed \<and>
    map which (rep_results rep) = [(0, ''a''), (0, ''b''), (1, ''a''), (1, ''b'')]"
  using run_plain_complete [OF plain_counting, of two_requests 0]
  by (simp add: two_requests_def twice_def run_count_def upt_rec)

lemma run_requests_ends_well_witness:
  "\<exists>rep w'. run_requests (counting_world None) [] twice 0 = Some (rep, w') \<and> ends_well [] twice rep"
proof -
  have run: "run_requests (counting_world None) [] twice 0 = Some (report twice [] Completed None, 0)"
    by (simp add: run_requests_def run_from.simps twice_def run_count_def)
  from run_requests_ends_well [OF run] run show ?thesis by blast
qed



text \<open>Two folders that are each other's parent, with a request in each, and one at the top.\<close>

definition sample_folder :: "string \<Rightarrow> string option \<Rightarrow> folder" where
  "sample_folder i parent = \<lparr>fol_id = i, fol_meta = \<lparr>meta_id = i, meta_created_at = 0, meta_updated_at = 0\<rparr>,
     fol_collection_id = ''c'', fol_parent = parent, fol_name = i, fol_description = None, fol_order = 0,
     fol_variables = [], fol_auth = Inherit, fol_scripts = \<lparr>script_pre = [], script_post = []\<rparr>\<rparr>"

definition sample_request :: "string \<Rightarrow> string option \<Rightarrow> request_doc" where
  "sample_request i parent = \<lparr>rd_id = i, rd_meta = \<lparr>meta_id = i, meta_created_at = 0, meta_updated_at = 0\<rparr>,
     rd_collection_id = ''c'', rd_folder_id = parent, rd_name = i, rd_description = None, rd_order = 1,
     rd_content = empty_request\<rparr>"

definition looped_folders :: "folder list" where
  "looped_folders = [sample_folder ''f'' (Some ''g''), sample_folder ''g'' (Some ''f'')]"

definition looped_requests :: "request_doc list" where
  "looped_requests = [sample_request ''1'' (Some ''f''), sample_request ''2'' (Some ''g''), sample_request ''3'' None]"

lemma requests_in_order_once_witness:
  "distinct (requests_in_order text_le looped_folders looped_requests (Some ''f'')) \<and>
   set (requests_in_order text_le looped_folders looped_requests (Some ''f'')) =
     {r \<in> set looped_requests. reached looped_folders (Some ''f'') (rd_folder_id r)}"
  by (rule requests_in_order_once)
    (simp_all add: looped_folders_def looped_requests_def sample_folder_def sample_request_def)

lemma looped_order:
  "map rd_id (requests_in_order text_le looped_folders looped_requests (Some ''f'')) = [''2'', ''1'']"
  by code_simp

end
