(* ===== verification/PostmanTrip.thy ===== *)
theory PostmanTrip
  imports PostmanImport Runner
begin

text \<open>
  A collection exported to Postman and imported again: every request arrives, once, in the order a run of the collection
  has, each with what the format keeps of it.
\<close>

section \<open>What is written of a tree\<close>

definition written_after ::
    "(string \<Rightarrow> string \<Rightarrow> bool) \<Rightarrow> folder list \<Rightarrow> request_doc list \<Rightarrow> tree_child list \<Rightarrow> folder list \<Rightarrow> folder list" where
  "written_after lc fs rs cs w = fst (snd (export_items lc fs rs cs w))"

definition items_of ::
    "(string \<Rightarrow> string \<Rightarrow> bool) \<Rightarrow> folder list \<Rightarrow> request_doc list \<Rightarrow> tree_child list \<Rightarrow> folder list \<Rightarrow> json list" where
  "items_of lc fs rs cs w = fst (export_items lc fs rs cs w)"

abbreviation below :: "(string \<Rightarrow> string \<Rightarrow> bool) \<Rightarrow> folder list \<Rightarrow> request_doc list \<Rightarrow> folder \<Rightarrow> tree_child list" where
  "below lc fs rs f \<equiv> children_in_order lc fs rs (Some (fol_id f))"

lemma written_simps [simp]:
  "written_after lc fs rs [] w = w" "written_after lc fs rs (RequestChild r # cs) w = written_after lc fs rs cs w"
  "written_after lc fs rs (FolderChild f # cs) w =
    (if f \<in> set w then written_after lc fs rs cs w
     else written_after lc fs rs cs (written_after lc fs rs (below lc fs rs f) (f # w) @ f # w))"
  by (simp_all add: written_after_def case_prod_unfold Let_def)

lemma items_simps [simp]:
  "items_of lc fs rs [] w = []" "items_of lc fs rs (RequestChild r # cs) w = request_entry r # items_of lc fs rs cs w"
  "items_of lc fs rs (FolderChild f # cs) w =
    (if f \<in> set w then items_of lc fs rs cs w
     else folder_entry f (items_of lc fs rs (below lc fs rs f) (f # w)) #
       items_of lc fs rs cs (written_after lc fs rs (below lc fs rs f) (f # w) @ f # w))"
  by (simp_all add: items_of_def written_after_def case_prod_unfold Let_def)

text \<open>The induction over what is written, by its two parts.\<close>

lemma export_induct [case_names Nil Request Known New]:
  assumes "\<And>w. P [] w" "\<And>r cs w. P cs w \<Longrightarrow> P (RequestChild r # cs) w"
    "\<And>f cs w. f \<in> set w \<Longrightarrow> P cs w \<Longrightarrow> P (FolderChild f # cs) w"
    "\<And>f cs w. f \<notin> set w \<Longrightarrow> P (below lc fs rs f) (f # w) \<Longrightarrow>
       P cs (written_after lc fs rs (below lc fs rs f) (f # w) @ f # w) \<Longrightarrow> P (FolderChild f # cs) w"
  shows "P cs w"
  using assms
proof (induction lc fs rs cs w rule: export_items.induct)
  case (3 lc fs rs f cs w)
  show ?case
  proof (cases "f \<in> set w")
    case True
    then show ?thesis using "3.IH"(1) [OF True "3.prems"] "3.prems"(3) by blast
  next
    case False
    have "P (below lc fs rs f) (f # w)" by (rule "3.IH"(2) [OF False "3.prems"])
    moreover have "P cs (written_after lc fs rs (below lc fs rs f) (f # w) @ f # w)"
      using "3.IH"(3) [OF False refl surjective_pairing [symmetric] surjective_pairing [symmetric] "3.prems"] by (simp add: written_after_def)
    ultimately show ?thesis using "3.prems"(4) False by blast
  qed
qed simp_all

lemma written_covers:
  "set w \<subseteq> set (written_after lc fs rs cs w) \<and> folders_in cs \<subseteq> set (written_after lc fs rs cs w) \<and>
   (\<forall>g \<in> set (written_after lc fs rs cs w) - set w. folders_in (below lc fs rs g) \<subseteq> set (written_after lc fs rs cs w))"
proof (induction cs w rule: export_induct [of _ lc fs rs])
  case (New f cs w)
  let ?w1 = "written_after lc fs rs (below lc fs rs f) (f # w)"
  let ?w2 = "written_after lc fs rs cs (?w1 @ f # w)"
  have "set ?w1 \<union> {f} \<union> set w \<subseteq> set ?w2" using New(3) by auto
  moreover have "folders_in (below lc fs rs f) \<subseteq> set ?w1" using New(2) by blast
  moreover have "folders_in (below lc fs rs g) \<subseteq> set ?w2" if "g \<in> set ?w2 - set w" for g
  proof (cases "g \<in> set (?w1 @ f # w)")
    case True
    then have "g = f \<or> g \<in> set ?w1 - set (f # w)" using that by auto
    then show ?thesis using New(2) calculation by blast
  next
    case False
    then show ?thesis using New(3) that by blast
  qed
  ultimately show ?case using New(1,3) by auto
qed auto

text \<open>The requests written, in the order they are.\<close>

function visited ::
    "(string \<Rightarrow> string \<Rightarrow> bool) \<Rightarrow> folder list \<Rightarrow> request_doc list \<Rightarrow> tree_child list \<Rightarrow> folder list \<Rightarrow> request_doc list" where
  "visited lc fs rs [] w = []"
| "visited lc fs rs (RequestChild r # cs) w = r # visited lc fs rs cs w"
| "visited lc fs rs (FolderChild f # cs) w =
     (if f \<in> set w then visited lc fs rs cs w
      else visited lc fs rs (below lc fs rs f) (f # w) @
        visited lc fs rs cs (written_after lc fs rs (below lc fs rs f) (f # w) @ f # w))"
  by pat_completeness auto
termination
proof (relation "measures [\<lambda>(lc, fs, rs, cs, w). card ((set fs \<union> folders_in cs) - set w), \<lambda>(lc, fs, rs, cs, w). length cs]", goal_cases)
  case (3 lc fs rs f cs w)
  then have "(set fs \<union> folders_in (FolderChild f # cs)) - set w = (set fs \<union> folders_in cs) - set w" by auto
  then show ?case by simp
next
  case (4 lc fs rs f cs w)
  let ?new = "(set fs \<union> folders_in (below lc fs rs f)) - set (f # w)"
  have "?new \<subset> (set fs \<union> folders_in (FolderChild f # cs)) - set w"
    using 4 folders_in_children [of lc fs rs "Some (fol_id f)"] by auto
  then have "card ?new < card ((set fs \<union> folders_in (FolderChild f # cs)) - set w)" by (intro psubset_card_mono) auto
  then show ?case by simp
next
  case (5 lc fs rs f cs w)
  let ?new = "(set fs \<union> folders_in cs) - set (written_after lc fs rs (below lc fs rs f) (f # w) @ f # w)"
  have "?new \<subset> (set fs \<union> folders_in (FolderChild f # cs)) - set w" using 5 by auto
  then have "card ?new < card ((set fs \<union> folders_in (FolderChild f # cs)) - set w)" by (intro psubset_card_mono) auto
  then show ?case by simp
qed auto

section \<open>The order is the run's\<close>

lemma order_walk_same: "set e = set e' \<Longrightarrow> order_walk lc fs rs cs e = order_walk lc fs rs cs e'"
proof (induction lc fs rs cs e arbitrary: e' rule: order_walk.induct)
  case (3 lc fs rs f cs e)
  then have "set (fol_id f # e) = set (fol_id f # e')" by simp
  then show ?case using 3 by (cases "fol_id f \<in> set e") auto
qed simp_all

lemma written_sub: "folders_in cs \<subseteq> set fs \<Longrightarrow> set w \<subseteq> set fs \<Longrightarrow> set (written_after lc fs rs cs w) \<subseteq> set fs"
proof (induction cs w rule: export_induct [of _ lc fs rs])
  case (New f cs w)
  have "set (written_after lc fs rs (below lc fs rs f) (f # w)) \<subseteq> set fs"
    using New folders_in_children by auto
  then show ?case using New by auto
qed auto

lemma order_walk_visited:
  assumes inj: "inj_on fol_id (set fs)" and "folders_in cs \<subseteq> set fs" "set w \<subseteq> set fs"
  shows "order_walk lc fs rs (cs @ ds) (map fol_id w) = visited lc fs rs cs w @ order_walk lc fs rs ds (map fol_id (written_after lc fs rs cs w))"
  using assms(2,3)
proof (induction cs w arbitrary: ds rule: export_induct [of _ lc fs rs])
  case (Known f cs w)
  then show ?case by auto
next
  case (New f cs w)
  let ?b = "below lc fs rs f" let ?w1 = "written_after lc fs rs (below lc fs rs f) (f # w)"
  have b: "folders_in ?b \<subseteq> set fs" by (rule folders_in_children)
  have f: "f \<in> set fs" "set (f # w) \<subseteq> set fs" using New.prems by auto
  have w1: "set ?w1 \<subseteq> set fs" by (rule written_sub [OF b f(2)])
  have "fol_id f \<notin> set (map fol_id w)"
    using New.hyps inj New.prems f(1) by (auto dest: inj_onD)
  then have "order_walk lc fs rs ((FolderChild f # cs) @ ds) (map fol_id w) = order_walk lc fs rs (?b @ cs @ ds) (map fol_id (f # w))" by simp
  also have "\<dots> = visited lc fs rs ?b (f # w) @ order_walk lc fs rs (cs @ ds) (map fol_id ?w1)"
    by (rule New.IH(1) [OF b f(2)])
  also have "order_walk lc fs rs (cs @ ds) (map fol_id ?w1) = order_walk lc fs rs (cs @ ds) (map fol_id (?w1 @ f # w))"
    by (rule order_walk_same) (use written_covers [of "f # w" lc fs rs ?b] in auto)
  also have "\<dots> = visited lc fs rs cs (?w1 @ f # w) @ order_walk lc fs rs ds (map fol_id (written_after lc fs rs cs (?w1 @ f # w)))"
    using New.prems f w1 by (intro New.IH(2)) auto
  finally show ?case using New.hyps by simp
qed simp_all

section \<open>What is read of it\<close>

definition request_arrived :: "request_doc \<Rightarrow> request_doc \<Rightarrow> bool" where
  "request_arrived d' d \<longleftrightarrow>
     rd_name d' = name_or (trim (rd_name d)) (rc_method (rd_content d) @ '' '' @ rc_url (rd_content d)) \<and>
     rd_description d' = (if rd_description d = Some [] then None else rd_description d) \<and>
     rd_content d' = postman_content (rd_content d)"

lemma arrived: "request_arrived (postman_request cx n p k d) d"
  by (simp add: request_arrived_def postman_request_def)

lemma entries_objects: "filter is_obj_json (items_of lc fs rs cs w) = items_of lc fs rs cs w"
  by (induction cs w rule: export_induct [of _ lc fs rs]) (simp_all add: request_entry_def folder_entry_def Let_def)

lemma walk_items:
  assumes "\<forall>r \<in> set rs. request_travels (rd_content r)" "\<forall>r. RequestChild r \<in> set cs \<longrightarrow> r \<in> set rs"
    "walk_entries cx depth p k (items_of lc fs rs cs w) st = Inr st'"
  shows "\<exists>ds. rs_requests st' = rs_requests st @ ds \<and> list_all2 request_arrived ds (visited lc fs rs cs w)"
  using assms
proof (induction cs w arbitrary: depth p k st st' rule: export_induct [of _ lc fs rs])
  case (Request r cs w)
  have t: "request_travels (rd_content r)" using Request.prems by simp
  let ?n = "rs_ids st"
  let ?st = "st\<lparr>rs_warnings := rs_warnings st @ warned (named ''request'' (name_or (trim (rd_name r)) ''Request'')) (file_warning (rc_body (rd_content r))),
    rs_ids := ?n + 1, rs_requests := rs_requests st @ [postman_request cx ?n p k r]\<rparr>"
  have "walk_entries cx depth p (k + 1) (items_of lc fs rs cs w) ?st = Inr st'"
    using Request.prems(3) request_round_trip [OF t] by (simp add: request_entry_fields Let_def)
  then obtain ds where "rs_requests st' = rs_requests ?st @ ds" "list_all2 request_arrived ds (visited lc fs rs cs w)"
    using Request.IH [OF Request.prems(1)] Request.prems(2) by (metis list.set_intros(2))
  then show ?case using arrived [of cx ?n p k r] by auto
next
  case (New f cs w)
  let ?items = "items_of lc fs rs (below lc fs rs f) (f # w)"
  have item: "member (folder_entry f ?items) ''item'' = Some (JArr ?items)" by (simp add: folder_entry_def member_present)
  have objects: "loose_objects (Some (JArr ?items)) = ?items" by (simp add: loose_objects_def entries_objects)
  obtain g ws where g: "folder_read cx (rs_ids st) p k (folder_entry f ?items) = (g, ws)"
    by (cases "folder_read cx (rs_ids st) p k (folder_entry f ?items)")
  let ?st = "st\<lparr>rs_folders := rs_folders st @ [g], rs_warnings := rs_warnings st @ ws, rs_ids := rs_ids st + 1\<rparr>"
  obtain st2 where w1: "walk_entries cx (depth + 1) (Some (fol_id g)) 0 ?items ?st = Inr st2"
    and w2: "walk_entries cx depth p (k + 1) (items_of lc fs rs cs (written_after lc fs rs (below lc fs rs f) (f # w) @ f # w)) st2 = Inr st'"
    using New.prems(3) New.hyps by (auto simp: item objects g Let_def split: if_splits sum.splits)
  have b: "\<forall>r. RequestChild r \<in> set (below lc fs rs f) \<longrightarrow> r \<in> set rs" by (auto simp: set_children_in_order)
  obtain ds1 where d1: "rs_requests st2 = rs_requests ?st @ ds1" "list_all2 request_arrived ds1 (visited lc fs rs (below lc fs rs f) (f # w))"
    using New.IH(1) [OF New.prems(1) b w1] by blast
  obtain ds2 where d2: "rs_requests st' = rs_requests st2 @ ds2"
    "list_all2 request_arrived ds2 (visited lc fs rs cs (written_after lc fs rs (below lc fs rs f) (f # w) @ f # w))"
    using New.IH(2) [OF New.prems(1) _ w2] New.prems(2) by auto
  then show ?case using New.hyps d1 by (auto intro: list_all2_appendI)
qed simp_all

section \<open>The whole collection\<close>

definition whole_tree :: "folder list \<Rightarrow> request_doc list \<Rightarrow> bool" where
  "whole_tree fs rs \<longleftrightarrow>
     distinct (map fol_id fs) \<and> (\<forall>f \<in> set fs. reached fs None (fol_parent f)) \<and> (\<forall>r \<in> set rs. reached fs None (rd_folder_id r))"

lemma reached_written:
  assumes "W = written_after lc fs rs (children_in_order lc fs rs None) []"
  shows "reached fs None p \<Longrightarrow> \<forall>f \<in> set fs. fol_parent f = p \<longrightarrow> f \<in> set W"
proof (induction rule: reached.induct)
  case reached_base
  have "folders_in (children_in_order lc fs rs None) \<subseteq> set W" using written_covers assms by blast
  then show ?case by (auto simp: folders_in_def set_children_in_order)
next
  case (reached_child p f)
  then have "f \<in> set W" by blast
  then have "folders_in (below lc fs rs f) \<subseteq> set W"
    using written_covers [of "[]" lc fs rs "children_in_order lc fs rs None"] assms by auto
  then show ?case by (auto simp: folders_in_def set_children_in_order)
qed

lemma export_known: "set gs \<subseteq> set w \<Longrightarrow> export_items lc fs rs (map FolderChild gs) w = ([], w, [])"
  by (induction gs) auto

lemma reached_folder: "reached fs None (Some i) \<Longrightarrow> i \<in> fol_id ` set fs"
  by (erule reached_cases) auto

lemma whole_items:
  assumes "whole_tree (tree_folders t) (tree_requests t)"
  shows "fst (postman_items lc t) =
    items_of lc (tree_folders t) (tree_requests t) (children_in_order lc (tree_folders t) (tree_requests t) None) []"
proof -
  let ?fs = "tree_folders t" let ?rs = "tree_requests t" let ?cs = "children_in_order lc ?fs ?rs None"
  let ?w = "written_after lc ?fs ?rs ?cs []"
  have stray: "filter (\<lambda>r. case rd_folder_id r of None \<Rightarrow> False | Some i \<Rightarrow> i \<notin> fol_id ` set ?fs) ?rs = []"
    using assms reached_folder by (auto simp: filter_empty_conv whole_tree_def split: option.split)
  have "set (sort_by (folder_first lc) ?fs) \<subseteq> set ?w"
    using reached_written [OF refl, of ?fs] assms by (auto simp: whole_tree_def)
  then have "export_items lc ?fs ?rs (map FolderChild (sort_by (folder_first lc) ?fs)) ?w = ([], ?w, [])" by (rule export_known)
  then show ?thesis
    by (simp add: postman_items_def Let_def stray case_prod_unfold written_after_def items_of_def)
qed

lemma run_order_visited:
  assumes "distinct (map fol_id fs)"
  shows "visited lc fs rs (children_in_order lc fs rs None) [] = requests_in_order lc fs rs None"
  using order_walk_visited [of fs "children_in_order lc fs rs None" "[]" lc rs "[]"] assms folders_in_children [of lc fs rs None]
  by (simp add: requests_in_order_def distinct_map)

lemma file_items: "member (fst (postman_file lc t)) ''item'' = Some (JArr (fst (postman_items lc t)))"
  by (simp add: postman_file_def Let_def case_prod_unfold member_present)

lemma walk_refusal: "walk_entries cx depth p k es st = Inl err \<Longrightarrow> err = TOO_DEEP"
  by (induction cx depth p k es st rule: walk_entries.induct)
     (auto simp: Let_def split: if_splits sum.splits prod.splits option.splits)

lemma postman_trip:
  assumes tree: "whole_tree (tree_folders t) (tree_requests t)"
    and travels: "\<forall>r \<in> set (tree_requests t). request_travels (rd_content r)"
  shows "case postman_collection_read fresh now (fst (postman_file lc t)) of
      Inl err \<Rightarrow> err = TOO_DEEP
    | Inr (t', ns) \<Rightarrow> list_all2 request_arrived (tree_requests t') (requests_in_order lc (tree_folders t) (tree_requests t) None)"
proof -
  let ?fs = "tree_folders t" let ?rs = "tree_requests t" let ?cs = "children_in_order lc ?fs ?rs None"
  let ?cx = "\<lparr>rx_fresh = fresh, rx_now = now, rx_top = fresh 0\<rparr>"
  let ?st = "\<lparr>rs_folders = [], rs_requests = [], rs_warnings = [], rs_examples = 0, rs_ids = 1\<rparr>"
  have object: "is_obj_json (fst (postman_file lc t))" by (simp add: postman_file_def Let_def case_prod_unfold)
  have entries: "loose_objects (member (fst (postman_file lc t)) ''item'') = items_of lc ?fs ?rs ?cs []"
    by (simp add: file_items whole_items [OF tree] loose_objects_def entries_objects)
  show ?thesis
  proof (cases "walk_entries ?cx 0 None 0 (items_of lc ?fs ?rs ?cs []) ?st")
    case (Inl err)
    then show ?thesis using walk_refusal [OF Inl] by (simp add: postman_collection_read_def object entries Let_def)
  next
    case (Inr st')
    have "\<forall>r. RequestChild r \<in> set ?cs \<longrightarrow> r \<in> set ?rs" by (auto simp: set_children_in_order)
    from walk_items [OF travels this Inr]
    have "list_all2 request_arrived (rs_requests st') (requests_in_order lc ?fs ?rs None)"
      using tree by (simp add: run_order_visited whole_tree_def)
    then show ?thesis by (simp add: postman_collection_read_def object entries Inr Let_def case_prod_unfold del: One_nat_def)
  qed
qed


definition nested_tree :: collection_tree where
  "nested_tree =
     \<lparr>tree_collection = \<lparr>col_id = ''c'', col_meta = \<lparr>meta_id = ''c'', meta_created_at = 0, meta_updated_at = 0\<rparr>, col_name = ''C'',
        col_description = None, col_order = 0, col_variables = [], col_auth = Bearer ''t'',
        col_scripts = \<lparr>script_pre = [], script_post = []\<rparr>, col_route = None, col_script_trust = \<lparr>trusted = True, approved = None\<rparr>\<rparr>,
      tree_folders = [sample_folder ''f'' None, sample_folder ''g'' (Some ''f'')],
      tree_requests =
        [(sample_request ''1'' None)\<lparr>rd_content := empty_request\<lparr>rc_url := ''https://a/''\<rparr>\<rparr>,
         (sample_request ''2'' (Some ''g''))\<lparr>rd_content := empty_request\<lparr>rc_url := ''{{b}}/x''\<rparr>\<rparr>]\<rparr>"

lemma nested_tree_whole: "whole_tree (tree_folders nested_tree) (tree_requests nested_tree)"
proof -
  let ?fs = "tree_folders nested_tree"
  have "reached ?fs None (Some ''f'')"
    using reached_child [OF reached_base, of "sample_folder ''f'' None" ?fs None] by (simp add: nested_tree_def sample_folder_def)
  moreover from reached_child [OF this, of "sample_folder ''g'' (Some ''f'')"] have "reached ?fs None (Some ''g'')"
    by (simp add: nested_tree_def sample_folder_def)
  ultimately show ?thesis
    using reached_base [of ?fs None] by (simp add: whole_tree_def nested_tree_def sample_folder_def sample_request_def)
qed


end
