(* ===== verification/ExchangeRecord.thy ===== *)
theory ExchangeRecord
  imports Resolver JsonText JsValues
begin

text \<open>
  The record of an exchange: \<open>packages/core/src/send/record.ts\<close>, what it says and how a file's record
  is checked. A duration is a rational number of milliseconds, rounded as it is (not as
  the double nearest to it). The dash that stands for no duration is outside the range of
  characters of the model; \<open>NO_DURATION\<close> stands for it.
\<close>

section \<open>The record\<close>

datatype exchange_route = RouteDirect | RouteBridge

datatype failure_kind = FailNetwork | FailTimeout | FailAborted | FailBridge

record filled_secret =
  fs_name :: string
  fs_scope :: "variable_scope option"
  fs_holder :: "string option"

record masked_parts =
  mp_address :: bool
  mp_headers :: "string list"
  mp_body :: bool
  mp_response_headers :: "string list"
  mp_response_body :: bool

record kept_parts =
  kp_response :: bool
  kp_body :: bool
  kp_quote_left_out :: bool

record failure =
  fl_kind :: failure_kind
  fl_reported :: string
  fl_summary :: string

record exchange_record =
  xr_status :: "(nat \<times> string) option"
  xr_duration :: decimal
  xr_route :: exchange_route
  xr_unpaired :: bool
  xr_host :: string
  xr_secrets :: "filled_secret list"
  xr_masked :: masked_parts
  xr_kept :: kept_parts
  xr_failure :: "failure option"

section \<open>Its words\<close>

text \<open>\<open>Math.round\<close>, and \<open>toFixed(1)\<close> of a number that is not negative: the nearer, the upper of two as near.\<close>

definition js_round :: "rat \<Rightarrow> int" where
  "js_round r = \<lfloor>r + 1 / 2\<rfloor>"

definition to_fixed1 :: "rat \<Rightarrow> string" where
  "to_fixed1 r = (let n = nat (js_round (r * 10)) in show_nat (n div 10) @ ''.'' @ show_nat (n mod 10))"

definition NO_DURATION :: string where
  "NO_DURATION = [CHR 0xE2, CHR 0x80, CHR 0x94]"

definition format_duration :: "rat option \<Rightarrow> string" where
  "format_duration ms =
     (case ms of
        None \<Rightarrow> NO_DURATION
      | Some m \<Rightarrow>
          if m < 0 then NO_DURATION
          else if 0 < m \<and> m < 1 / 2 then ''<1 ms''
          else if js_round m < 1000 then show_int (js_round m) @ '' ms''
          else to_fixed1 (m / 1000) @ '' s'')"

definition record_route :: "exchange_record \<Rightarrow> string" where
  "record_route r =
     (case xr_route r of RouteDirect \<Rightarrow> ''Direct'' | RouteBridge \<Rightarrow> ''Local Bridge'') @ '' to '' @ xr_host r"

definition record_headline :: "exchange_record \<Rightarrow> string" where
  "record_headline r =
     (case xr_status r of
        None \<Rightarrow>
          (case xr_failure r of Some f \<Rightarrow> fl_summary f | None \<Rightarrow> ''No response.'') @ '' '' @ record_route r @
          (if xr_unpaired r then '', no bridge paired'' else []) @ ''.''
      | Some (code, t) \<Rightarrow>
          join '', ''
            ([join '' '' ((if code = 0 then [] else [show_nat code]) @ (if t = [] then [] else [t]))] @
             (if 0 < rat_of_num (xr_duration r) then [format_duration (Some (rat_of_num (xr_duration r)))] else []) @
             [record_route r]))"

datatype record_part = Words string | WireText string

datatype record_field = RouteField | SecretsField | MaskedField | KeptField | FailureField

definition line_text :: "record_part list \<Rightarrow> string" where
  "line_text parts = concat (map (\<lambda>p. case p of Words s \<Rightarrow> s | WireText s \<Rightarrow> s) parts)"

definition listed :: "record_part list list \<Rightarrow> record_part list" where
  "listed items =
     concat (map (\<lambda>(index, item).
        (if index = 0 then [] else [Words (if index = length items - 1 then '' and '' else '', '')]) @ item)
       (enumerate 0 items))"

fun scope_name :: "variable_scope \<Rightarrow> string" where
  "scope_name Local = ''local''"
| "scope_name Data = ''data''"
| "scope_name Environment = ''environment''"
| "scope_name Folder = ''folder''"
| "scope_name Collection = ''collection''"
| "scope_name Global = ''global''"

definition secret_item :: "filled_secret \<Rightarrow> record_part list" where
  "secret_item s =
     WireText (fs_name s) #
     (case fs_holder s of
        Some (c # h) \<Rightarrow> [Words ('', from '' @ c # h)]
      | _ \<Rightarrow> (case fs_scope s of Some sc \<Rightarrow> [Words ('', from the '' @ scope_name sc)] | None \<Rightarrow> []))"

definition route_line :: "exchange_record \<Rightarrow> record_part list" where
  "route_line r =
     (case xr_route r of
        RouteBridge \<Rightarrow> [Words ''Sent through the Local Bridge to '', WireText (xr_host r), Words ''.'']
      | RouteDirect \<Rightarrow> [Words ''Sent from this page to '', WireText (xr_host r),
          Words (if xr_unpaired r then ''. No Local Bridge is paired.'' else ''.'')])"

definition secrets_line :: "exchange_record \<Rightarrow> record_part list" where
  "secrets_line r =
     (if xr_secrets r \<noteq> [] then
        Words ''Filled from the vault: '' # listed (map secret_item (xr_secrets r)) @ [Words ''. Each is *** in what is kept.'']
      else [Words ''No vault secret was filled.''])"

definition masked_items :: "masked_parts \<Rightarrow> record_part list list" where
  "masked_items m =
     (if mp_address m then [[Words ''the address'']] else []) @
     map (\<lambda>n. [WireText n]) (mp_headers m) @
     (if mp_body m then [[Words ''the body'']] else []) @
     map (\<lambda>n. [WireText n, Words '' of the response'']) (mp_response_headers m) @
     (if mp_response_body m then [[Words ''the response body'']] else [])"

definition masked_line :: "masked_parts \<Rightarrow> record_part list" where
  "masked_line m =
     (if masked_items m \<noteq> [] then Words ''Masked with *** in what is kept: '' # listed (masked_items m) @ [Words ''.'']
      else [Words ''Nothing was masked.''])"

definition kept_line :: "bool \<Rightarrow> kept_parts \<Rightarrow> string" where
  "kept_line by_run k =
     (let who = (if by_run then ''The run kept '' else ''History kept '');
          request = (if kp_quote_left_out k then ''the request without the response body it quoted'' else ''the request'')
      in if \<not> kp_response k then who @ request @ ''. No response came.''
         else if kp_body k then who @ request @ '' and the response.''
         else if kp_quote_left_out k then who @ request @ '', and the response's status and headers, not its body.''
         else who @ request @ '' and the response's status and headers, not its body.'')"

definition record_lines :: "exchange_record \<Rightarrow> bool \<Rightarrow> (record_field \<times> record_part list) list" where
  "record_lines r by_run =
     (case xr_failure r of
        Some f \<Rightarrow> [(FailureField, [Words ''What was reported: '', WireText (fl_reported f)])]
      | None \<Rightarrow> []) @
     [(RouteField, route_line r)] @
     (if xr_failure r \<noteq> None \<and> xr_secrets r = [] then [] else [(SecretsField, secrets_line r)]) @
     (if xr_failure r \<noteq> None \<and> masked_items (xr_masked r) = [] then [] else [(MaskedField, masked_line (xr_masked r))]) @
     [(KeptField, [Words (kept_line by_run (xr_kept r))])]"

section \<open>The check of a file's record\<close>

type_synonym field_check = "json option \<Rightarrow> string \<Rightarrow> bool \<times> string list"

text \<open>A check that says only yes or no, and one that has problems of its own.\<close>

definition plain_check :: "(json option \<Rightarrow> bool) \<Rightarrow> field_check" where
  "plain_check ok field place = (ok field, [])"

definition optional_check :: "field_check \<Rightarrow> field_check" where
  "optional_check check field place = (if field = None then (True, []) else check field place)"

definition check_object :: "string \<Rightarrow> json option \<Rightarrow> (string \<times> field_check) list \<Rightarrow> string list" where
  "check_object place held checks =
     (case held of
        Some (JObj ms) \<Rightarrow>
          map (\<lambda>(k, _). place @ ''.'' @ k @ '': The app writes no such field.'')
            (filter (\<lambda>(k, _). k \<notin> set (map fst checks)) ms) @
          concat (map (\<lambda>(k, check).
              (let (ok, inner) = check (om_get ms k) (place @ ''.'' @ k)
               in inner @ (if ok then [] else [place @ ''.'' @ k @ '': Value is not one the app writes.'']))) checks)
      | _ \<Rightarrow> [place @ '': Value must be an object.''])"

definition nested_check :: "(string \<times> field_check) list \<Rightarrow> field_check" where
  "nested_check checks field place = (True, check_object place field checks)"

definition is_text :: "json option \<Rightarrow> bool" where
  "is_text v \<longleftrightarrow> (case v of Some (JStr _) \<Rightarrow> True | _ \<Rightarrow> False)"

definition is_yes :: "json option \<Rightarrow> bool" where
  "is_yes v \<longleftrightarrow> v = Some (JBool True)"

definition is_flag :: "json option \<Rightarrow> bool" where
  "is_flag v \<longleftrightarrow> (case v of Some (JBool _) \<Rightarrow> True | _ \<Rightarrow> False)"

definition is_texts :: "json option \<Rightarrow> bool" where
  "is_texts v \<longleftrightarrow> (case v of Some (JArr xs) \<Rightarrow> list_all (\<lambda>x. is_text (Some x)) xs | _ \<Rightarrow> False)"

definition is_one_of :: "string list \<Rightarrow> json option \<Rightarrow> bool" where
  "is_one_of names v \<longleftrightarrow> (case v of Some (JStr s) \<Rightarrow> s \<in> set names | _ \<Rightarrow> False)"

definition is_code :: "json option \<Rightarrow> bool" where
  "is_code v \<longleftrightarrow> (case v of Some (JNum d) \<Rightarrow> scale d = 0 \<and> 0 \<le> mantissa d \<and> mantissa d \<le> 999 | _ \<Rightarrow> False)"

definition is_duration :: "json option \<Rightarrow> bool" where
  "is_duration v \<longleftrightarrow> (case v of Some (JNum d) \<Rightarrow> \<not> num_less d (num_of_int 0) | _ \<Rightarrow> False)"

definition SCOPE_NAMES :: "string list" where
  "SCOPE_NAMES = map scope_name VARIABLE_SCOPES"

definition secrets_check :: field_check where
  "secrets_check field place =
     (case field of
        Some (JArr xs) \<Rightarrow>
          (True, concat (map (\<lambda>(index, secret).
             check_object (place @ ''['' @ show_nat index @ '']'') (Some secret)
               [(''name'', plain_check is_text), (''scope'', optional_check (plain_check (is_one_of SCOPE_NAMES))),
                (''holder'', optional_check (plain_check is_text))]) (enumerate 0 xs)))
      | _ \<Rightarrow> (False, []))"

definition record_problems :: "json option \<Rightarrow> string \<Rightarrow> string list" where
  "record_problems v path =
     check_object path v
       [(''status'', optional_check (nested_check [(''code'', plain_check is_code), (''text'', plain_check is_text)])),
        (''durationMs'', plain_check is_duration),
        (''route'', plain_check (is_one_of [''direct'', ''bridge''])),
        (''unpaired'', optional_check (plain_check is_yes)),
        (''host'', plain_check is_text),
        (''secrets'', secrets_check),
        (''masked'', nested_check
          [(''address'', optional_check (plain_check is_yes)), (''headers'', plain_check is_texts),
           (''body'', optional_check (plain_check is_yes)), (''responseHeaders'', plain_check is_texts),
           (''responseBody'', optional_check (plain_check is_yes))]),
        (''kept'', nested_check
          [(''response'', plain_check is_flag), (''body'', plain_check is_flag),
           (''quoteLeftOut'', optional_check (plain_check is_yes))]),
        (''failure'', optional_check (nested_check
          [(''kind'', plain_check (is_one_of [''network'', ''timeout'', ''aborted'', ''bridge''])),
           (''reported'', plain_check is_text), (''summary'', plain_check is_text)]))]"

section \<open>What the app writes\<close>

fun route_name :: "exchange_route \<Rightarrow> string" where
  "route_name RouteDirect = ''direct''"
| "route_name RouteBridge = ''bridge''"

fun failure_name :: "failure_kind \<Rightarrow> string" where
  "failure_name FailNetwork = ''network''"
| "failure_name FailTimeout = ''timeout''"
| "failure_name FailAborted = ''aborted''"
| "failure_name FailBridge = ''bridge''"

definition status_json :: "nat \<times> string \<Rightarrow> json" where
  "status_json s = present [(''code'', Some (JNum (num_of_int (int (fst s))))), (''text'', text_field (snd s))]"

definition secret_json :: "filled_secret \<Rightarrow> json" where
  "secret_json s = present [(''name'', text_field (fs_name s)), (''scope'', map_option (JStr \<circ> scope_name) (fs_scope s)),
     (''holder'', map_option JStr (fs_holder s))]"

definition masked_json :: "masked_parts \<Rightarrow> json" where
  "masked_json m = present [(''address'', yes_field (mp_address m)), (''headers'', texts_field (mp_headers m)),
     (''body'', yes_field (mp_body m)), (''responseHeaders'', texts_field (mp_response_headers m)),
     (''responseBody'', yes_field (mp_response_body m))]"

definition kept_json :: "kept_parts \<Rightarrow> json" where
  "kept_json k = present [(''response'', Some (JBool (kp_response k))), (''body'', Some (JBool (kp_body k))),
     (''quoteLeftOut'', yes_field (kp_quote_left_out k))]"

definition failure_json :: "failure \<Rightarrow> json" where
  "failure_json f = present [(''kind'', text_field (failure_name (fl_kind f))), (''reported'', text_field (fl_reported f)),
     (''summary'', text_field (fl_summary f))]"

definition record_parts :: "exchange_record \<Rightarrow> (string \<times> json option) list" where
  "record_parts r =
     [(''status'', map_option status_json (xr_status r)), (''durationMs'', Some (JNum (xr_duration r))),
      (''route'', text_field (route_name (xr_route r))), (''unpaired'', yes_field (xr_unpaired r)),
      (''host'', text_field (xr_host r)), (''secrets'', Some (JArr (map secret_json (xr_secrets r)))),
      (''masked'', Some (masked_json (xr_masked r))), (''kept'', Some (kept_json (xr_kept r))),
      (''failure'', map_option failure_json (xr_failure r))]"

definition record_json :: "exchange_record \<Rightarrow> json" where
  "record_json r = present (record_parts r)"

definition record_sound :: "exchange_record \<Rightarrow> bool" where
  "record_sound r \<longleftrightarrow> (\<forall>s. xr_status r = Some s \<longrightarrow> fst s \<le> 999) \<and> \<not> num_less (xr_duration r) (num_of_int 0)"

text \<open>The same value, whatever the order of the fields of its objects.\<close>

inductive agrees :: "json \<Rightarrow> json \<Rightarrow> bool" where
  agrees_same: "agrees v v"
| agrees_list: "list_all2 agrees vs ws \<Longrightarrow> agrees (JArr vs) (JArr ws)"
| agrees_object: "\<forall>k. rel_option agrees (om_get ms k) (om_get ns k) \<Longrightarrow> agrees (JObj ms) (JObj ns)"
monos list.rel_mono option.rel_mono

inductive_simps agrees_simps: "agrees v JNull" "agrees v (JBool b)" "agrees v (JNum d)" "agrees v (JStr s)"
inductive_cases agrees_JArr: "agrees v (JArr ws)"
inductive_cases agrees_JObj: "agrees v (JObj ns)"

text \<open>A check that says yes to exactly the fields that are one of a set.\<close>

definition accepts :: "field_check \<Rightarrow> json option set \<Rightarrow> bool" where
  "accepts check E \<longleftrightarrow> (\<forall>f p. check f p = (True, []) \<longleftrightarrow> (\<exists>e \<in> E. rel_option agrees f e))"

lemma rel_option_None2 [simp]: "rel_option R f None \<longleftrightarrow> f = None"
  by (cases f) auto

lemma rel_option_Some2: "rel_option R f (Some y) \<longleftrightarrow> (\<exists>x. f = Some x \<and> R x y)"
  by (cases f) auto

lemma accepts_optional:
  assumes "accepts c E" "None \<notin> E"
  shows "accepts (optional_check c) (insert None E)"
proof -
  have "\<not> (\<exists>e \<in> E. rel_option agrees None e)" using assms(2) by (metis option.rel_distinct(1) option.exhaust)
  then show ?thesis using assms(1) by (auto simp: accepts_def optional_check_def)
qed

lemma unknown_fields_Nil: "filter (\<lambda>p. fst p \<notin> K) ms = [] \<longleftrightarrow> (\<forall>k. om_get ms k \<noteq> None \<longrightarrow> k \<in> K)"
proof -
  have "filter (\<lambda>p. fst p \<notin> K) ms = [] \<longleftrightarrow> fst ` set ms \<subseteq> K" by (induction ms) auto
  also have "\<dots> \<longleftrightarrow> (\<forall>k. om_get ms k \<noteq> None \<longrightarrow> k \<in> K)" by (auto simp: om_get_def map_of_eq_None_iff)
  finally show ?thesis .
qed

lemma check_said_Nil: "(let s = r in snd s @ (if fst s then [] else [x])) = [] \<longleftrightarrow> r = (True, [])"
  by (cases r) auto

lemma check_object_Nil:
  "check_object p (Some (JObj ms)) checks = [] \<longleftrightarrow>
     (\<forall>k. om_get ms k \<noteq> None \<longrightarrow> k \<in> fst ` set checks) \<and>
     (\<forall>(k, c) \<in> set checks. c (om_get ms k) (p @ ''.'' @ k) = (True, []))"
proof -
  have "set (map fst checks) = fst ` set checks" by simp
  then show ?thesis
    by (simp only: check_object_def option.case json.case append_is_Nil_conv map_is_Nil_conv unknown_fields_Nil
        concat_eq_Nil_conv set_map ball_simps check_said_Nil case_prod_unfold)
qed

lemma check_object_cases: "check_object p v checks = [] \<Longrightarrow> \<exists>ms. v = Some (JObj ms)"
  by (auto simp: check_object_def split: option.splits json.splits)

text \<open>One field of each of a list of checks.\<close>

definition chosen :: "(string \<times> field_check \<times> json option set) list \<Rightarrow> (string \<times> json option) list \<Rightarrow> bool" where
  "chosen ts es \<longleftrightarrow> list_all2 (\<lambda>(k, c, E) (k', e). k' = k \<and> e \<in> E) ts es"

definition checks_of :: "(string \<times> field_check \<times> json option set) list \<Rightarrow> (string \<times> field_check) list" where
  "checks_of ts = map (\<lambda>(k, c, E). (k, c)) ts"

lemma chosen_keys: "chosen ts es \<Longrightarrow> map fst es = map fst ts"
  unfolding chosen_def by (induction rule: list_all2_induct) auto

lemma choose_all:
  "\<forall>(k, c, E) \<in> set ts. \<exists>e \<in> E. P k e \<Longrightarrow> \<exists>es. chosen ts es \<and> (\<forall>(k, e) \<in> set es. P k e)"
proof (induction ts)
  case (Cons t ts)
  obtain k c E where t: "t = (k, c, E)" by (cases t)
  from Cons obtain es where es: "chosen ts es" "\<forall>(k, e) \<in> set es. P k e" by auto
  from Cons.prems t obtain e where "e \<in> E" "P k e" by auto
  with es t show ?case by (intro exI [of _ "(k, e) # es"]) (auto simp: chosen_def)
qed (simp add: chosen_def)

lemma accepts_object:
  assumes "distinct (map fst ts)" "\<forall>(k, c, E) \<in> set ts. accepts c E"
  shows "check_object p v (checks_of ts) = [] \<longleftrightarrow> (\<exists>es. chosen ts es \<and> rel_option agrees v (Some (present es)))"
proof
  assume ok: "check_object p v (checks_of ts) = []"
  then obtain ms where v: "v = Some (JObj ms)" using check_object_cases by blast
  have "\<exists>e \<in> E. rel_option agrees (om_get ms k) e" if "(k, c, E) \<in> set ts" for k c E
  proof -
    have "c (om_get ms k) (p @ ''.'' @ k) = (True, [])"
      using ok that unfolding v check_object_Nil by (force simp: checks_of_def)
    with assms(2) that show ?thesis unfolding accepts_def by blast
  qed
  then have "\<forall>(k, c, E) \<in> set ts. \<exists>e \<in> E. rel_option agrees (om_get ms k) e" by auto
  from choose_all [OF this] obtain es where es: "chosen ts es" "\<forall>(k, e) \<in> set es. rel_option agrees (om_get ms k) e" by blast
  have "rel_option agrees (om_get ms k) (om_get (List.map_filter (\<lambda>(k, e). map_option (Pair k) e) es) k)" for k
  proof (cases "k \<in> fst ` set es")
    case True
    then obtain e where e: "(k, e) \<in> set es" by auto
    then show ?thesis using om_get_present [OF _ e] es assms(1) chosen_keys [OF es(1)] by fastforce
  next
    case False
    moreover have "fst ` set es = fst ` set (checks_of ts)"
      using arg_cong [OF chosen_keys [OF es(1)], of set] by (force simp: checks_of_def)
    ultimately have "k \<notin> fst ` set (checks_of ts)" by simp
    with ok v have "om_get ms k = None" by (auto simp: check_object_Nil)
    with om_get_present_None [OF False] show ?thesis by simp
  qed
  then show "\<exists>es. chosen ts es \<and> rel_option agrees v (Some (present es))"
    using es(1) v agrees_object unfolding present_def by (auto simp: rel_option_Some2)
next
  assume "\<exists>es. chosen ts es \<and> rel_option agrees v (Some (present es))"
  then obtain es w where es: "chosen ts es" "v = Some w" "agrees w (present es)" by (auto simp: rel_option_Some2)
  let ?ns = "List.map_filter (\<lambda>(k, e). map_option (Pair k) e) es"
  from es(3) obtain ms where ms: "w = JObj ms" "\<forall>k. rel_option agrees (om_get ms k) (om_get ?ns k)"
    unfolding present_def by (auto elim!: agrees_JObj intro: option.rel_refl agrees_same)
  have keys: "fst ` set es = fst ` set (checks_of ts)"
    using arg_cong [OF chosen_keys [OF es(1)], of set] by (force simp: checks_of_def)
  have "k \<in> fst ` set (checks_of ts)" if "om_get ms k \<noteq> None" for k
  proof (rule ccontr)
    assume "k \<notin> fst ` set (checks_of ts)"
    with keys om_get_present_None [of k es] ms(2) that show False by (metis rel_option_None2)
  qed
  moreover have "c (om_get ms k) q = (True, [])" if "(k, c) \<in> set (checks_of ts)" for k c q
  proof -
    from that obtain E where t: "(k, c, E) \<in> set ts" by (auto simp: checks_of_def)
    then obtain i where i: "i < length ts" "ts ! i = (k, c, E)" by (meson in_set_conv_nth)
    moreover from es(1) i have "i < length es" "(case ts ! i of (k, c, E) \<Rightarrow> \<lambda>(k', e). k' = k \<and> e \<in> E) (es ! i)"
      by (auto simp: chosen_def list_all2_conv_all_nth)
    ultimately obtain e where e: "(k, e) \<in> set es" "e \<in> E"
      by (cases "es ! i") (auto simp: in_set_conv_nth)
    have "om_get ?ns k = e" using om_get_present [OF _ e(1)] chosen_keys [OF es(1)] assms(1) by simp
    then have "rel_option agrees (om_get ms k) e" using ms(2) by metis
    moreover have "accepts c E" using assms(2) t by auto
    ultimately show ?thesis using e(2) unfolding accepts_def by blast
  qed
  ultimately show "check_object p v (checks_of ts) = []" unfolding es(2) ms(1) check_object_Nil by blast
qed

lemma accepts_fields:
  assumes "distinct (map fst ts)" "\<forall>(k, c, E) \<in> set ts. accepts c E" "checks_of ts = cs" "F = {present es |es. chosen ts es}"
  shows "accepts (nested_check cs) (Some ` F)"
proof -
  have "check_object p f cs = [] \<longleftrightarrow> (\<exists>e \<in> Some ` F. rel_option agrees f e)" for p f
    unfolding accepts_object [OF assms(1,2), of p f, unfolded assms(3)] assms(4) by blast
  then show ?thesis by (simp add: accepts_def nested_check_def)
qed

lemma accepts_text: "accepts (plain_check is_text) (range text_field)"
  by (auto simp: accepts_def plain_check_def is_text_def text_field_def rel_option_Some2 agrees_simps split: option.splits json.splits)

lemma accepts_yes: "accepts (optional_check (plain_check is_yes)) (range yes_field)"
proof -
  have "accepts (plain_check is_yes) {Some (JBool True)}"
    by (auto simp: accepts_def plain_check_def is_yes_def rel_option_Some2 agrees_simps)
  moreover have "insert None {Some (JBool True)} = range yes_field" by (auto simp: yes_field_def image_iff)
  ultimately show ?thesis using accepts_optional by fastforce
qed

lemma accepts_flag: "accepts (plain_check is_flag) (range (\<lambda>b. Some (JBool b)))"
  by (auto simp: accepts_def plain_check_def is_flag_def rel_option_Some2 agrees_simps split: option.splits json.splits)

lemma accepts_one_of: "accepts (plain_check (is_one_of names)) ((\<lambda>n. Some (JStr n)) ` set names)"
  by (auto simp: accepts_def plain_check_def is_one_of_def rel_option_Some2 agrees_simps split: option.splits json.splits)

lemma agrees_texts: "list_all2 agrees vs (map JStr ss) \<longleftrightarrow> vs = map JStr ss"
  by (induction ss arbitrary: vs) (auto simp: list_all2_Cons2 agrees_simps)

lemma all_texts: "list_all (\<lambda>x. is_text (Some x)) xs \<longleftrightarrow> (\<exists>ss. xs = map JStr ss)"
proof (induction xs)
  case (Cons x xs)
  have "(\<exists>ss. x # xs = map JStr ss) \<longleftrightarrow> (\<exists>s. x = JStr s) \<and> (\<exists>ss. xs = map JStr ss)"
    by (auto simp: Cons_eq_map_conv)
  then show ?case using Cons by (cases x) (auto simp: is_text_def)
qed simp

lemma agrees_texts_array: "agrees v (JArr (map JStr ss)) \<longleftrightarrow> v = JArr (map JStr ss)"
  by (auto elim!: agrees_JArr simp: agrees_texts intro: agrees_same)

lemma accepts_texts: "accepts (plain_check is_texts) (range texts_field)"
  by (auto simp: accepts_def plain_check_def is_texts_def texts_field_def rel_option_Some2 agrees_texts_array all_texts
      split: option.splits json.splits)

lemma is_code_iff: "is_code v \<longleftrightarrow> (\<exists>n. n \<le> 999 \<and> v = Some (JNum (num_of_int (int n))))"
proof
  assume "is_code v"
  then obtain m k where "v = Some (JNum (Num m k))" "k = 0" "0 \<le> m" "m \<le> 999"
    by (auto simp: is_code_def split: option.splits json.splits) (metis decimal.collapse)
  then show "\<exists>n. n \<le> 999 \<and> v = Some (JNum (num_of_int (int n)))"
    by (intro exI [of _ "nat m"]) (auto simp: num_of_int_def)
qed (auto simp: is_code_def num_of_int_def)

lemma accepts_code: "accepts (plain_check is_code) {Some (JNum (num_of_int (int n))) |n. n \<le> 999}"
  by (auto simp: accepts_def plain_check_def is_code_iff rel_option_Some2 agrees_simps)

lemma accepts_duration: "accepts (plain_check is_duration) {Some (JNum d) |d. \<not> num_less d (num_of_int 0)}"
  by (auto simp: accepts_def plain_check_def is_duration_def rel_option_Some2 agrees_simps split: option.splits json.splits)

lemma accepts_status:
  "accepts (nested_check [(''code'', plain_check is_code), (''text'', plain_check is_text)])
     (Some ` status_json ` {s. fst s \<le> 999})"
proof (rule accepts_fields)
  let ?ts = "[(''code'', plain_check is_code, {Some (JNum (num_of_int (int n))) |n. n \<le> 999}),
    (''text'', plain_check is_text, range text_field)]"
  show "distinct (map fst ?ts)" by simp
  show "\<forall>(k, c, E) \<in> set ?ts. accepts c E" by (simp add: accepts_code accepts_text)
  show "checks_of ?ts = [(''code'', plain_check is_code), (''text'', plain_check is_text)]" by (simp add: checks_of_def)
  show "status_json ` {s. fst s \<le> 999} = {present es |es. chosen ?ts es}"
    by (force simp: status_json_def chosen_def list_all2_Cons1 image_iff)
qed

definition secret_fields :: "(string \<times> field_check \<times> json option set) list" where
  "secret_fields = [(''name'', plain_check is_text, range text_field),
     (''scope'', optional_check (plain_check (is_one_of SCOPE_NAMES)), insert None ((\<lambda>n. Some (JStr n)) ` set SCOPE_NAMES)),
     (''holder'', optional_check (plain_check is_text), insert None (range text_field))]"

definition masked_fields :: "(string \<times> field_check \<times> json option set) list" where
  "masked_fields = [(''address'', optional_check (plain_check is_yes), range yes_field),
     (''headers'', plain_check is_texts, range texts_field), (''body'', optional_check (plain_check is_yes), range yes_field),
     (''responseHeaders'', plain_check is_texts, range texts_field),
     (''responseBody'', optional_check (plain_check is_yes), range yes_field)]"

definition kept_fields :: "(string \<times> field_check \<times> json option set) list" where
  "kept_fields = [(''response'', plain_check is_flag, range (\<lambda>b. Some (JBool b))), (''body'', plain_check is_flag, range (\<lambda>b. Some (JBool b))),
     (''quoteLeftOut'', optional_check (plain_check is_yes), range yes_field)]"

definition failure_fields :: "(string \<times> field_check \<times> json option set) list" where
  "failure_fields =
     [(''kind'', plain_check (is_one_of [''network'', ''timeout'', ''aborted'', ''bridge'']),
        (\<lambda>n. Some (JStr n)) ` set [''network'', ''timeout'', ''aborted'', ''bridge'']),
      (''reported'', plain_check is_text, range text_field), (''summary'', plain_check is_text, range text_field)]"

lemma scope_names: "set SCOPE_NAMES = range scope_name"
proof -
  have "set VARIABLE_SCOPES = UNIV" by (auto simp: VARIABLE_SCOPES_def) (metis variable_scope.exhaust)
  then show ?thesis by (simp add: SCOPE_NAMES_def)
qed

lemma failure_names: "set [''network'', ''timeout'', ''aborted'', ''bridge''] = range failure_name"
proof -
  have "UNIV = {FailNetwork, FailTimeout, FailAborted, FailBridge}" by (auto intro: failure_kind.exhaust)
  then have "range failure_name = failure_name ` {FailNetwork, FailTimeout, FailAborted, FailBridge}" by (rule arg_cong)
  then show ?thesis by auto
qed

lemma accepts_kept: "accepts (nested_check (checks_of kept_fields)) (Some ` range kept_json)"
proof (rule accepts_fields [OF _ _ refl])
  show "range kept_json = {present es |es. chosen kept_fields es}"
  proof (intro set_eqI iffI)
    fix w assume "w \<in> {present es |es. chosen kept_fields es}"
    then obtain a b c where "w = present [(''response'', Some (JBool a)), (''body'', Some (JBool b)), (''quoteLeftOut'', yes_field c)]"
      by (auto simp: chosen_def kept_fields_def list_all2_Cons1)
    then have "w = kept_json \<lparr>kp_response = a, kp_body = b, kp_quote_left_out = c\<rparr>" by (simp add: kept_json_def)
    then show "w \<in> range kept_json" by blast
  qed (auto simp: chosen_def kept_fields_def kept_json_def list_all2_Cons1)
qed (simp_all add: kept_fields_def accepts_flag accepts_yes)

lemma accepts_masked: "accepts (nested_check (checks_of masked_fields)) (Some ` range masked_json)"
proof (rule accepts_fields [OF _ _ refl])
  show "range masked_json = {present es |es. chosen masked_fields es}"
  proof (intro set_eqI iffI)
    fix w assume "w \<in> {present es |es. chosen masked_fields es}"
    then obtain a h b g c where "w = present [(''address'', yes_field a), (''headers'', texts_field h), (''body'', yes_field b),
        (''responseHeaders'', texts_field g), (''responseBody'', yes_field c)]"
      by (auto simp: chosen_def masked_fields_def list_all2_Cons1)
    then have "w = masked_json \<lparr>mp_address = a, mp_headers = h, mp_body = b, mp_response_headers = g, mp_response_body = c\<rparr>"
      by (simp add: masked_json_def)
    then show "w \<in> range masked_json" by blast
  qed (auto simp: chosen_def masked_fields_def masked_json_def list_all2_Cons1)
qed (simp_all add: masked_fields_def accepts_texts accepts_yes)

lemma accepts_failure: "accepts (nested_check (checks_of failure_fields)) (Some ` range failure_json)"
proof (rule accepts_fields [OF _ _ refl])
  show "range failure_json = {present es |es. chosen failure_fields es}"
  proof (intro set_eqI iffI)
    fix w assume "w \<in> {present es |es. chosen failure_fields es}"
    then obtain k a b where "w = present [(''kind'', text_field (failure_name k)), (''reported'', text_field a), (''summary'', text_field b)]"
      unfolding failure_fields_def failure_names by (auto simp: chosen_def text_field_def list_all2_Cons1)
    then have "w = failure_json \<lparr>fl_kind = k, fl_reported = a, fl_summary = b\<rparr>" by (simp add: failure_json_def)
    then show "w \<in> range failure_json" by blast
  next
    fix w assume "w \<in> range failure_json"
    then show "w \<in> {present es |es. chosen failure_fields es}"
      unfolding failure_fields_def failure_names
      by (auto simp: chosen_def failure_json_def text_field_def list_all2_Cons1)
  qed
qed (simp_all add: failure_fields_def accepts_text accepts_one_of [of "[''network'', ''timeout'', ''aborted'', ''bridge'']", simplified])

lemma accepts_secret: "accepts (nested_check (checks_of secret_fields)) (Some ` range secret_json)"
proof (rule accepts_fields [OF _ _ refl])
  have optional_texts: "insert None (range text_field) = range (map_option JStr)"
    by (auto simp: text_field_def image_iff) (metis map_option_is_None option.exhaust option.map(1,2))+
  have optional_scopes: "insert None ((\<lambda>n. Some (JStr n)) ` range scope_name) = range (map_option (JStr \<circ> scope_name))"
    by (auto simp: image_iff) (metis option.exhaust option.map(1,2) comp_apply)+
  show "range secret_json = {present es |es. chosen secret_fields es}"
    unfolding secret_fields_def scope_names optional_texts optional_scopes
  proof (intro set_eqI iffI)
    fix w assume "w \<in> {present es |es. chosen [(''name'', plain_check is_text, range text_field),
     (''scope'', optional_check (plain_check (is_one_of SCOPE_NAMES)), range (map_option (JStr \<circ> scope_name))),
     (''holder'', optional_check (plain_check is_text), range (map_option JStr))] es}"
    then obtain n s h where "w = present [(''name'', text_field n), (''scope'', map_option (JStr \<circ> scope_name) s), (''holder'', map_option JStr h)]"
      by (auto simp: chosen_def list_all2_Cons1)
    then have "w = secret_json \<lparr>fs_name = n, fs_scope = s, fs_holder = h\<rparr>" by (simp add: secret_json_def)
    then show "w \<in> range secret_json" by blast
  qed (auto simp: chosen_def secret_json_def list_all2_Cons1)
next
  have "None \<notin> range text_field" by (auto simp: text_field_def)
  moreover have "None \<notin> (\<lambda>n. Some (JStr n)) ` set SCOPE_NAMES" by auto
  ultimately show "\<forall>(k, c, E) \<in> set secret_fields. accepts c E"
    by (simp add: secret_fields_def accepts_text accepts_optional [OF accepts_text] accepts_optional [OF accepts_one_of])
qed (simp add: secret_fields_def)

lemma agrees_array: "agrees v (JArr ws) \<longleftrightarrow> (\<exists>vs. v = JArr vs \<and> list_all2 agrees vs ws)"
  by (auto elim!: agrees_JArr intro: agrees_list agrees_same list.rel_refl)

lemma secrets_Nil:
  "(\<And>i x. f i x = [] \<longleftrightarrow> (\<exists>s. agrees x (secret_json s))) \<Longrightarrow>
   concat (map (\<lambda>(i, x). f i x) (enumerate n xs)) = [] \<longleftrightarrow> (\<exists>ss. list_all2 agrees xs (map secret_json ss))"
proof (induction xs arbitrary: n)
  case (Cons x xs)
  have "(\<exists>ss. list_all2 agrees (x # xs) (map secret_json ss)) \<longleftrightarrow>
      (\<exists>s ss. list_all2 agrees (x # xs) (map secret_json (s # ss)))"
    by (metis list.simps(8) list_all2_Nil2 list.exhaust list.distinct(1))
  also have "\<dots> \<longleftrightarrow> (\<exists>s. agrees x (secret_json s)) \<and> (\<exists>ss. list_all2 agrees xs (map secret_json ss))" by simp
  finally have "(\<exists>ss. list_all2 agrees (x # xs) (map secret_json ss)) \<longleftrightarrow>
      (\<exists>s. agrees x (secret_json s)) \<and> (\<exists>ss. list_all2 agrees xs (map secret_json ss))" .
  then show ?case using Cons by simp
qed simp

lemma accepts_secrets: "accepts secrets_check {Some (JArr (map secret_json ss)) |ss. True}"
proof -
  have one: "check_object p (Some x) (checks_of secret_fields) = [] \<longleftrightarrow> (\<exists>s. agrees x (secret_json s))" for p x
    using accepts_secret by (auto simp: accepts_def nested_check_def)
  then have all: "concat (map (\<lambda>(i, x). check_object (p @ ''['' @ show_nat i @ '']'') (Some x) (checks_of secret_fields))
      (enumerate 0 xs)) = [] \<longleftrightarrow> (\<exists>ss. list_all2 agrees xs (map secret_json ss))" for p xs
    by (intro secrets_Nil) 
  have "secrets_check f p = (True, []) \<longleftrightarrow> (\<exists>xs. f = Some (JArr xs) \<and> (\<exists>ss. list_all2 agrees xs (map secret_json ss)))" for f p
  proof (cases "\<exists>xs. f = Some (JArr xs)")
    case True
    then show ?thesis
      using all by (auto simp: secrets_check_def secret_fields_def checks_of_def simp del: concat_eq_Nil_conv)
  next
    case False
    then show ?thesis by (auto simp: secrets_check_def split: option.splits json.splits)
  qed
  moreover have "(\<exists>e \<in> {Some (JArr (map secret_json ss)) |ss. True}. rel_option agrees f e) \<longleftrightarrow>
      (\<exists>xs. f = Some (JArr xs) \<and> (\<exists>ss. list_all2 agrees xs (map secret_json ss)))" for f
    by (simp add: Bex_def) (metis agrees_array rel_option_Some2)
  ultimately show ?thesis by (simp add: accepts_def)
qed

definition record_fields :: "(string \<times> field_check \<times> json option set) list" where
  "record_fields =
     [(''status'', optional_check (nested_check [(''code'', plain_check is_code), (''text'', plain_check is_text)]),
         map_option status_json ` {st. \<forall>s. st = Some s \<longrightarrow> fst s \<le> 999}),
      (''durationMs'', plain_check is_duration, {Some (JNum d) |d. \<not> num_less d (num_of_int 0)}),
      (''route'', plain_check (is_one_of [''direct'', ''bridge'']), range (\<lambda>r. text_field (route_name r))),
      (''unpaired'', optional_check (plain_check is_yes), range yes_field),
      (''host'', plain_check is_text, range text_field),
      (''secrets'', secrets_check, {Some (JArr (map secret_json ss)) |ss. True}),
      (''masked'', nested_check (checks_of masked_fields), Some ` range masked_json),
      (''kept'', nested_check (checks_of kept_fields), Some ` range kept_json),
      (''failure'', optional_check (nested_check (checks_of failure_fields)), range (map_option failure_json))]"

lemma record_problems_fields: "record_problems v p = check_object p v (checks_of record_fields)"
  by (simp add: record_problems_def checks_of_def record_fields_def masked_fields_def kept_fields_def failure_fields_def)

lemma image_map_option: "map_option f ` {x. \<forall>y. x = Some y \<longrightarrow> P y} = insert None (Some ` f ` {y. P y})"
proof (intro set_eqI iffI)
  fix z assume "z \<in> map_option f ` {x. \<forall>y. x = Some y \<longrightarrow> P y}"
  then obtain x where "z = map_option f x" "\<forall>y. x = Some y \<longrightarrow> P y" by blast
  then show "z \<in> insert None (Some ` f ` {y. P y})" by (cases x) auto
next
  fix z assume "z \<in> insert None (Some ` f ` {y. P y})"
  then have "z = map_option f None \<or> (\<exists>y. z = map_option f (Some y) \<and> P y)" by auto
  then show "z \<in> map_option f ` {x. \<forall>y. x = Some y \<longrightarrow> P y}" by (elim disjE exE conjE) (blast, rule rev_image_eqI [of "Some _"], auto)
qed

lemmas optional_status = image_map_option [of status_json "\<lambda>s. fst s \<le> 999"]
lemmas optional_failure = image_map_option [of failure_json "\<lambda>_. True", simplified]

lemma route_names: "range (\<lambda>r. text_field (route_name r)) = (\<lambda>n. Some (JStr n)) ` set [''direct'', ''bridge'']"
proof -
  have "UNIV = {RouteDirect, RouteBridge}" by (auto intro: exchange_route.exhaust)
  then have "range (\<lambda>r. text_field (route_name r)) = (\<lambda>r. text_field (route_name r)) ` {RouteDirect, RouteBridge}" by (rule arg_cong)
  then show ?thesis by (simp add: text_field_def)
qed

lemma record_fields_accepted: "\<forall>(k, c, E) \<in> set record_fields. accepts c E"
proof -
  have "accepts (optional_check (nested_check [(''code'', plain_check is_code), (''text'', plain_check is_text)]))
      (map_option status_json ` {st. \<forall>s. st = Some s \<longrightarrow> fst s \<le> 999})"
    unfolding optional_status by (rule accepts_optional [OF accepts_status]) auto
  moreover have "accepts (optional_check (nested_check (checks_of failure_fields))) (range (map_option failure_json))"
    unfolding optional_failure by (rule accepts_optional [OF accepts_failure]) auto
  moreover note accepts_one_of [of "[''direct'', ''bridge'']", folded route_names]
  ultimately show ?thesis
    using accepts_duration accepts_yes accepts_text accepts_secrets accepts_masked accepts_kept
    by (simp add: record_fields_def)
qed

lemma chosen_record:
  "(\<exists>es. chosen record_fields es \<and> w = present es) \<longleftrightarrow> (\<exists>r. record_sound r \<and> w = record_json r)"
proof
  assume "\<exists>es. chosen record_fields es \<and> w = present es"
  then obtain st d ro u h ss m k fl where w: "w = present [(''status'', map_option status_json st), (''durationMs'', Some (JNum d)),
      (''route'', text_field (route_name ro)), (''unpaired'', yes_field u), (''host'', text_field h),
      (''secrets'', Some (JArr (map secret_json ss))), (''masked'', Some (masked_json m)), (''kept'', Some (kept_json k)),
      (''failure'', map_option failure_json fl)]" and ok: "\<forall>s. st = Some s \<longrightarrow> fst s \<le> 999" "\<not> num_less d (num_of_int 0)"
    by (auto simp: chosen_def record_fields_def list_all2_Cons1 simp del: split_paired_All)
  from w have "w = record_json \<lparr>xr_status = st, xr_duration = d, xr_route = ro, xr_unpaired = u, xr_host = h, xr_secrets = ss,
      xr_masked = m, xr_kept = k, xr_failure = fl\<rparr>" by (simp add: record_json_def record_parts_def)
  with ok show "\<exists>r. record_sound r \<and> w = record_json r"
    by (metis record_sound_def exchange_record.select_convs(1,2))
next
  assume "\<exists>r. record_sound r \<and> w = record_json r"
  then obtain r where "record_sound r" and w: "w = record_json r" by blast
  then have "map_option status_json (xr_status r) \<in> map_option status_json ` {st. \<forall>s. st = Some s \<longrightarrow> fst s \<le> 999}"
    "\<not> num_less (xr_duration r) (num_of_int 0)" unfolding record_sound_def by blast+
  then have "chosen record_fields (record_parts r)"
    by (auto simp: chosen_def record_fields_def record_parts_def simp del: split_paired_All)
  then show "\<exists>es. chosen record_fields es \<and> w = present es" using w by (auto simp: record_json_def)
qed

lemma record_problems_iff:
  "record_problems (Some v) p = [] \<longleftrightarrow> (\<exists>r. record_sound r \<and> agrees v (record_json r))"
proof -
  have "distinct (map fst record_fields)" by (simp add: record_fields_def)
  from accepts_object [OF this record_fields_accepted, of p "Some v"]
  have "record_problems (Some v) p = [] \<longleftrightarrow> (\<exists>es. chosen record_fields es \<and> agrees v (present es))"
    by (simp add: record_problems_fields)
  then show ?thesis using chosen_record by metis
qed

text \<open>
  A record is taken from a file exactly when it is one the app writes: it has no problem when
  and only when it is, up to the order of its fields, what is written of some record whose status is
  at most 999 and whose duration is not negative. Nothing else rides in it.
\<close>

theorem record_problems_none:
  "record_problems (Some v) p = [] \<longleftrightarrow> (\<exists>r. record_sound r \<and> agrees v (record_json r))"
  by (rule record_problems_iff)

definition wires :: "record_part list \<Rightarrow> string list" where
  "wires parts = concat (map (\<lambda>p. case p of WireText s \<Rightarrow> [s] | Words _ \<Rightarrow> []) parts)"

lemma wires_simps [simp]: "wires [] = []" "wires (Words s # ps) = wires ps" "wires (WireText s # ps) = s # wires ps"
  "wires (ps @ qs) = wires ps @ wires qs"
  by (simp_all add: wires_def)

lemma wires_concat: "wires (concat pss) = concat (map wires pss)"
  by (induction pss) simp_all

lemma wires_listed: "wires (listed items) = concat (map wires items)"
proof -
  have "concat (map (\<lambda>(i, item). wires ((if i = 0 then [] else [Words (if i = m - 1 then '' and '' else '', '')]) @ item)) (enumerate n items)) =
      concat (map wires items)" for m n
    by (induction items arbitrary: n) auto
  then show ?thesis by (simp add: listed_def wires_concat comp_def case_prod_unfold)
qed

lemma wires_secrets: "concat (map (wires \<circ> secret_item) ss) = map fs_name ss"
  by (induction ss) (auto simp: secret_item_def split: option.splits list.splits)

lemma wires_masked: "concat (map wires (masked_items m)) = mp_headers m @ mp_response_headers m"
proof -
  have "concat (map (\<lambda>n. wires [WireText n]) xs) = xs" "concat (map (\<lambda>n. wires [WireText n, Words w]) xs) = xs" for xs w
    by (induction xs) simp_all
  then show ?thesis by (simp add: masked_items_def comp_def)
qed

text \<open>
  The words of a record: its sentences name the host it went to, every secret that was filled
  and every header that was masked, as what came over the wire and in their order; only a failed
  send that filled or masked nothing says nothing of it.
\<close>

theorem record_says_what_was_done:
  "concat (map (wires \<circ> snd) (record_lines r by_run)) =
     (case xr_failure r of Some f \<Rightarrow> [fl_reported f] | None \<Rightarrow> []) @ [xr_host r] @ map fs_name (xr_secrets r) @
     mp_headers (xr_masked r) @ mp_response_headers (xr_masked r)"
proof -
  have s: "wires (secrets_line r) = map fs_name (xr_secrets r)"
    by (simp add: secrets_line_def wires_listed wires_secrets)
  have m: "wires (masked_line (xr_masked r)) = mp_headers (xr_masked r) @ mp_response_headers (xr_masked r)"
    using wires_masked [of "xr_masked r"] by (auto simp: masked_line_def wires_listed)
  have "masked_items (xr_masked r) = [] \<Longrightarrow> mp_headers (xr_masked r) @ mp_response_headers (xr_masked r) = []"
    using wires_masked [of "xr_masked r"] by simp
  then show ?thesis
    by (auto simp: record_lines_def route_line_def s m split: option.splits exchange_route.splits)
qed

end
