(* ===== verification/Report.thy ===== *)
theory Report
  imports Validate Runner ExchangeRecord
begin

text \<open>
  What a run leaves as a file, \<open>packages/core/src/run/report.ts\<close>: a JSON document, JUnit XML and a page of HTML. A
  character outside the texts of the model stands as it does in \<open>Encoding\<close>: the replacement character is U+001A,
  and the long dash is its UTF-8, as in \<open>ExchangeRecord\<close>.
\<close>

section \<open>The totals\<close>

definition RUN_REPORT_FORMAT :: string where
  "RUN_REPORT_FORMAT = ''wayfarer/run''"

record run_info =
  ri_name :: string
  ri_started_at :: string

record run_totals =
  tot_requests :: nat
  tot_skipped :: nat
  tot_tests :: nat
  tot_failed_tests :: nat
  tot_errors :: nat

definition failed_tests :: "run_result \<Rightarrow> run_test list" where
  "failed_tests r = filter (\<lambda>t. \<not> rt_passed t) (res_tests r)"

definition totals :: "run_result list \<Rightarrow> run_totals" where
  "totals results =
     \<lparr>tot_requests = length (filter (\<lambda>r. \<not> res_skipped r) results), tot_skipped = length (filter res_skipped results),
      tot_tests = sum_list (map (\<lambda>r. length (res_tests r)) results),
      tot_failed_tests = sum_list (map (\<lambda>r. length (failed_tests r)) results),
      tot_errors = length (filter (\<lambda>r. res_error r \<noteq> None) results)\<rparr>"

section \<open>As JSON\<close>

definition count_json :: "nat \<Rightarrow> json" where
  "count_json n = JNum (Num (int n) 0)"

definition test_json :: "run_test \<Rightarrow> json" where
  "test_json t =
     present [(''name'', text_field (rt_name t)), (''passed'', Some (JBool (rt_passed t))), (''error'', map_option JStr (rt_error t))]"

definition result_json :: "run_result \<Rightarrow> json" where
  "result_json r =
     present [(''id'', text_field (res_id r)), (''name'', text_field (res_name r)), (''iteration'', Some (count_json (res_iteration r))),
       (''skipped'', yes_field (res_skipped r)), (''status'', map_option count_json (res_status r)),
       (''statusText'', map_option JStr (res_status_text r)), (''durationMs'', map_option number_json (res_duration r)),
       (''error'', map_option JStr (res_error r)), (''tests'', Some (JArr (map test_json (res_tests r))))]"

definition totals_json :: "run_totals \<Rightarrow> json" where
  "totals_json t =
     JObj [(''requests'', count_json (tot_requests t)), (''skipped'', count_json (tot_skipped t)), (''tests'', count_json (tot_tests t)),
       (''failedTests'', count_json (tot_failed_tests t)), (''errors'', count_json (tot_errors t))]"

fun ended_name :: "run_ended \<Rightarrow> string" where
  "ended_name Completed = ''completed''"
| "ended_name Cancelled = ''cancelled''"
| "ended_name Failed = ''failed''"
| "ended_name Ended = ''ended''"

definition run_report_json :: "run_report \<Rightarrow> run_info \<Rightarrow> json" where
  "run_report_json rep info =
     present [(''$id'', text_field RUN_REPORT_FORMAT), (''name'', text_field (ri_name info)), (''startedAt'', text_field (ri_started_at info)),
       (''iterations'', Some (count_json (rep_iterations rep))), (''ended'', text_field (ended_name (rep_ended rep))),
       (''reason'', map_option JStr (rep_reason rep)), (''totals'', Some (totals_json (totals (rep_results rep)))),
       (''results'', Some (JArr (map result_json (rep_results rep))))]"

section \<open>As JUnit XML\<close>

abbreviation DQ :: char where
  "DQ \<equiv> CHR 0x22"

abbreviation NL :: char where
  "NL \<equiv> CHR 0x0A"

abbreviation APOS :: char where
  "APOS \<equiv> CHR 0x27"

text \<open>A character XML has no way to write is replaced, and a special one written as its reference.\<close>

definition xml_char :: "char \<Rightarrow> string" where
  "xml_char c =
     (if c = CHR ''&'' then ''&amp;'' else if c = CHR ''<'' then ''&lt;'' else if c = CHR ''>'' then ''&gt;''
      else if c = DQ then ''&quot;'' else if c = CHR 0x09 then ''&#9;'' else if c = NL then ''&#10;''
      else if c = CHR 0x0D then ''&#13;'' else if char_nat c < 32 then [CHR 0x1A] else [c])"

definition xml :: "string \<Rightarrow> string" where
  "xml t = concat (map xml_char t)"

text \<open>\<open>toFixed(3)\<close> of the seconds: the nearest millisecond.\<close>

definition seconds :: "rat option \<Rightarrow> string" where
  "seconds ms =
     (let n = nat (js_round (case ms of Some m \<Rightarrow> m | None \<Rightarrow> 0))
      in show_nat (n div 1000) @ ''.'' @ show_fraction 3 (n mod 1000))"

definition attribute :: "string \<Rightarrow> string \<Rightarrow> string" where
  "attribute name v = '' '' @ name @ ''='' @ [DQ] @ v @ [DQ]"

definition case_open :: "string \<Rightarrow> string \<Rightarrow> string" where
  "case_open name classname = ''    <testcase'' @ attribute ''name'' name @ attribute ''classname'' classname"

definition test_case :: "string \<Rightarrow> run_test \<Rightarrow> string" where
  "test_case classname t =
     case_open (xml (rt_name t)) classname @
     (if rt_passed t then ''/>''
      else ''>'' @ [NL] @ ''      <failure'' @ attribute ''type'' ''AssertionFailure'' @
        attribute ''message'' (xml (case rt_error t of Some e \<Rightarrow> e | None \<Rightarrow> [])) @ ''/>'' @ [NL] @ ''    </testcase>'')"

definition error_case :: "string \<Rightarrow> string \<Rightarrow> string" where
  "error_case classname e =
     case_open classname classname @ ''>'' @ [NL] @ ''      <error'' @ attribute ''type'' ''Error'' @ attribute ''message'' (xml e) @ ''/>'' @
     [NL] @ ''    </testcase>''"

definition skipped_case :: "string \<Rightarrow> string" where
  "skipped_case classname =
     case_open classname classname @ ''>'' @ [NL] @ ''      <skipped'' @ attribute ''message'' ''pm.execution.skipRequest()'' @ ''/>'' @
     [NL] @ ''    </testcase>''"

definition junit_cases :: "run_result \<Rightarrow> string list" where
  "junit_cases r =
     map (test_case (xml (res_name r))) (res_tests r) @
     (case res_error r of Some e \<Rightarrow> [error_case (xml (res_name r)) e] | None \<Rightarrow> []) @
     (if res_skipped r then [skipped_case (xml (res_name r))] else [])"

definition junit_suite :: "nat \<Rightarrow> run_result \<Rightarrow> string" where
  "junit_suite iterations r =
     (let cases = junit_cases r; t = totals [r];
          name = xml (if 1 < iterations then res_name r @ '' (iteration '' @ show_nat (res_iteration r + 1) @ '')'' else res_name r);
          begin_tag = ''  <testsuite'' @ attribute ''name'' name @ attribute ''id'' (xml (res_id r)) @
            attribute ''tests'' (show_nat (length cases)) @ attribute ''failures'' (show_nat (tot_failed_tests t)) @
            attribute ''errors'' (show_nat (tot_errors t)) @ attribute ''skipped'' (show_nat (tot_skipped t)) @
            attribute ''time'' (seconds (res_duration r))
      in if cases = [] then begin_tag @ ''/>''
         else begin_tag @ ''>'' @ [NL] @ join [NL] cases @ [NL] @ ''  </testsuite>'')"

definition junit_xml :: "run_report \<Rightarrow> run_info \<Rightarrow> string" where
  "junit_xml rep info =
     (let t = totals (rep_results rep);
          time = seconds (Some (sum_list (map (\<lambda>r. case res_duration r of Some m \<Rightarrow> m | None \<Rightarrow> 0) (rep_results rep))))
      in join [NL]
        ([''<?xml version='' @ [DQ] @ ''1.0'' @ [DQ] @ '' encoding='' @ [DQ] @ ''UTF-8'' @ [DQ] @ ''?>'',
          ''<testsuites'' @ attribute ''name'' (xml (ri_name info)) @
            attribute ''tests'' (show_nat (tot_tests t + tot_errors t + tot_skipped t)) @
            attribute ''failures'' (show_nat (tot_failed_tests t)) @ attribute ''errors'' (show_nat (tot_errors t)) @
            attribute ''time'' time @ ''>''] @
         map (junit_suite (rep_iterations rep)) (rep_results rep) @ [''</testsuites>'', []]))"

section \<open>As a page\<close>

definition LIGHT_COLOURS :: "(string \<times> string) list" where
  "LIGHT_COLOURS =
     [(''canvas'', ''#FBFAF8''), (''panel'', ''#F6F5F2''), (''primary'', ''#26231E''), (''secondary'', ''#55524D''),
      (''tertiary'', ''#726F69''), (''line'', ''#DEDAD3''), (''error'', ''#A51F1E'')]"

definition DARK_COLOURS :: "(string \<times> string) list" where
  "DARK_COLOURS =
     [(''canvas'', ''#161513''), (''panel'', ''#22211E''), (''primary'', ''#EBE9E4''), (''secondary'', ''#C0BDB6''),
      (''tertiary'', ''#9A9790''), (''line'', ''#423F39''), (''error'', ''#F7958A'')]"

definition palette :: "(string \<times> string) list \<Rightarrow> string" where
  "palette colours = join '' '' (map (\<lambda>(name, colour). ''--'' @ name @ '': '' @ colour @ '';'') colours)"

definition html_char :: "char \<Rightarrow> string" where
  "html_char c =
     (if c = CHR ''&'' then ''&amp;'' else if c = CHR ''<'' then ''&lt;'' else if c = CHR ''>'' then ''&gt;''
      else if c = DQ then ''&quot;'' else if c = APOS then ''&#39;'' else [c])"

definition html :: "string \<Rightarrow> string" where
  "html t = concat (map html_char t)"

definition shared_note :: "(string \<times> nat) list \<Rightarrow> string \<Rightarrow> string" where
  "shared_note shared e =
     (if e \<notin> set (map fst shared) then e
      else if length shared = 1 then ''Same error as above''
      else ''Same error as '' @ show_nat (length (takeWhile (\<lambda>s. fst s \<noteq> e) shared) + 1) @ '' above'')"

definition problem_notes :: "(string \<times> nat) list \<Rightarrow> run_result \<Rightarrow> string list" where
  "problem_notes shared r =
     (case res_error r of None \<Rightarrow> [] | Some e \<Rightarrow> [shared_note shared e]) @
     map (\<lambda>t. case rt_error t of Some (c # e) \<Rightarrow> rt_name t @ '': '' @ c # e | _ \<Rightarrow> rt_name t) (failed_tests r)"

definition status_note :: "run_result \<Rightarrow> string" where
  "status_note r =
     (if res_skipped r then ''Skipped''
      else case res_status r of
             Some (Suc n) \<Rightarrow> trim (show_nat (Suc n) @ '' '' @ (case res_status_text r of Some t \<Rightarrow> t | None \<Rightarrow> []))
           | _ \<Rightarrow> ''No response'')"

definition report_row :: "(string \<times> nat) list \<Rightarrow> nat \<Rightarrow> run_result \<Rightarrow> string" where
  "report_row shared index r =
     ''<tr'' @ (if failed_result r then '' class='' @ [DQ] @ ''failed'' @ [DQ] else []) @ ''>'' @ [NL] @
     ''<td>'' @ show_nat (index + 1) @ ''</td><td>'' @ show_nat (res_iteration r + 1) @ ''</td>'' @ [NL] @
     ''<td>'' @ html (res_name r) @
     concat (map (\<lambda>p. ''<p class='' @ [DQ] @ ''problem'' @ [DQ] @ ''>'' @ html p @ ''</p>'') (problem_notes shared r)) @ ''</td>'' @ [NL] @
     ''<td>'' @ html (status_note r) @ ''</td><td>'' @
     (case res_duration r of None \<Rightarrow> NO_DURATION | Some m \<Rightarrow> js_string (number_json m) @ '' ms'') @ ''</td>'' @ [NL] @
     ''<td>'' @ (if res_tests r = [] then NO_DURATION
               else show_nat (length (res_tests r) - length (failed_tests r)) @ '' of '' @ show_nat (length (res_tests r)) @ '' passed'') @
     ''</td>'' @ [NL] @ ''</tr>''"

definition shared_block :: "(string \<times> nat) list \<Rightarrow> nat \<Rightarrow> string \<times> nat \<Rightarrow> string" where
  "shared_block shared index = (\<lambda>(e, n).
     ''<p class='' @ [DQ] @ ''shared'' @ [DQ] @ ''>'' @ (if 1 < length shared then ''<b>'' @ show_nat (index + 1) @ ''.</b> '' else []) @
     ''<b>'' @ html (shared_error_heading n) @ ''</b> '' @ html e @ ''</p>'')"

definition shared_blocks :: "(string \<times> nat) list \<Rightarrow> string" where
  "shared_blocks shared = join [NL] (map (\<lambda>(i, s). shared_block shared i s) (enumerate 0 shared))"

definition REPORT_STYLE :: string where
  "REPORT_STYLE =
      ''body { margin: 0; padding: 24px 16px; background: var(--canvas); color: var(--primary);'' @ [NL] @
      ''  font: 14px/1.5 '' @ [DQ] @ ''Atkinson Hyperlegible Next'' @ [DQ] @ '', system-ui, sans-serif; }'' @ [NL] @
      ''main { max-width: 1100px; margin: 0 auto; }'' @ [NL] @
      ''h1 { margin: 0 0 4px; font-size: 1.375rem; font-weight: 600; }'' @ [NL] @
      ''.meta, .counts { margin: 0 0 16px; color: var(--secondary); }'' @ [NL] @
      ''.shared { margin: 0 0 12px; padding: 10px 14px; border: 1px solid var(--error); border-radius: 8px; color: var(--error); }'' @
      [NL] @
      ''table { width: 100%; border-collapse: collapse; font-size: 0.8125rem; }'' @ [NL] @
      ''th { text-align: start; font-weight: 500; color: var(--tertiary); }'' @ [NL] @
      ''th, td { padding: 8px 10px; border-bottom: 1px solid var(--line); vertical-align: top; overflow-wrap: anywhere; }'' @
      [NL] @
      ''td:nth-child(4), td:nth-child(5) { font-family: '' @ [DQ] @ ''JetBrains Mono'' @ [DQ] @
      '', ui-monospace, monospace; }'' @ [NL] @
      ''.problem { margin: 4px 0 0; color: var(--error); font-size: 0.75rem; }'' @ [NL] @
      ''tr.failed td:first-child { box-shadow: inset 2px 0 0 var(--error); }'' @ [NL] @
      ''</style>'' @ [NL] @
      ''</head>'' @ [NL]"

definition report_head :: "run_info \<Rightarrow> string" where
  "report_head info =
      ''<!doctype html>'' @ [NL] @
      ''<html lang='' @ [DQ] @ ''en-GB'' @ [DQ] @ ''>'' @ [NL] @
      ''<head>'' @ [NL] @
      ''<meta charset='' @ [DQ] @ ''utf-8'' @ [DQ] @ ''>'' @ [NL] @
      ''<meta name='' @ [DQ] @ ''viewport'' @ [DQ] @ '' content='' @ [DQ] @ ''width=device-width, initial-scale=1'' @ [DQ] @
      ''>'' @ [NL] @
      ''<meta http-equiv='' @ [DQ] @ ''Content-Security-Policy'' @ [DQ] @ '' content='' @ [DQ] @ ''default-src '' @ [APOS] @
      ''none'' @ [APOS] @ ''; style-src '' @ [APOS] @ ''unsafe-inline'' @ [APOS] @ [DQ] @ ''>'' @ [NL] @
      ''<title>Run '' @ html (ri_name info) @ ''</title>'' @ [NL] @
      ''<style>'' @ [NL] @
      '':root { color-scheme: light dark; '' @ palette LIGHT_COLOURS @ '' }'' @ [NL] @
      ''@media (prefers-color-scheme: dark) { :root { '' @ palette DARK_COLOURS @ '' } }'' @ [NL] @
      REPORT_STYLE"

definition report_body :: "run_report \<Rightarrow> run_info \<Rightarrow> (string \<times> nat) list \<Rightarrow> string" where
  "report_body rep info shared =
      ''<body>'' @ [NL] @
      ''<main>'' @ [NL] @
      ''<h1>Run '' @ html (ri_name info) @ ''</h1>'' @ [NL] @
      ''<p class='' @ [DQ] @ ''meta'' @ [DQ] @ ''>Started '' @ html (ri_started_at info) @ ''</p>'' @ [NL] @
      ''<p class='' @ [DQ] @ ''counts'' @ [DQ] @ ''>'' @ html (run_ending (rep_ended rep) (rep_reason rep)) @ '' '' @
      html (run_counts (rep_results rep) (rep_iterations rep)) @ ''</p>'' @ [NL] @
      shared_blocks shared @ [NL] @
      ''<table>'' @ [NL] @
      ''<thead><tr><th scope='' @ [DQ] @ ''col'' @ [DQ] @ ''>#</th><th scope='' @ [DQ] @ ''col'' @ [DQ] @
      ''>Iteration</th><th scope='' @ [DQ] @ ''col'' @ [DQ] @ ''>Request</th><th scope='' @ [DQ] @ ''col'' @ [DQ] @
      ''>Status</th><th scope='' @ [DQ] @ ''col'' @ [DQ] @ ''>Time</th><th scope='' @ [DQ] @ ''col'' @ [DQ] @
      ''>Tests</th></tr></thead>'' @ [NL] @
      ''<tbody>'' @ [NL] @
      join [NL] (map (\<lambda>(i, r). report_row shared i r) (enumerate 0 (rep_results rep))) @ [NL] @
      ''</tbody>'' @ [NL] @
      ''</table>'' @ [NL] @
      ''</main>'' @ [NL] @
      ''</body>'' @ [NL] @
      ''</html>'' @ [NL]"

definition run_report_html :: "run_report \<Rightarrow> run_info \<Rightarrow> string" where
  "run_report_html rep info = report_head info @ report_body rep info (shared_errors (map res_error (rep_results rep)))"

section \<open>The marks of a report\<close>

text \<open>What begins and ends tags and attribute values.\<close>

definition markup_of :: "string \<Rightarrow> string" where
  "markup_of s = filter (\<lambda>c. c = CHR ''<'' \<or> c = CHR ''>'' \<or> c = DQ) s"

lemma markup_append [simp]: "markup_of (s @ t) = markup_of s @ markup_of t"
  by (simp add: markup_of_def)

lemma markup_Cons [simp]:
  "markup_of (c # s) = (if c = CHR ''<'' \<or> c = CHR ''>'' \<or> c = DQ then c # markup_of s else markup_of s)"
  by (simp add: markup_of_def)

lemma markup_Nil [simp]: "markup_of [] = []"
  by (simp add: markup_of_def)

lemma markup_concat: "markup_of (concat ss) = concat (map markup_of ss)"
  by (induction ss) simp_all

lemma markup_join: "markup_of (join [NL] ss) = concat (map markup_of ss)"
proof (induction "[NL]" ss rule: join.induct)
  case (3 x y ys)
  then show ?case by simp
qed simp_all

lemma markup_none: "markup_of s = [] \<longleftrightarrow> CHR ''<'' \<notin> set s \<and> CHR ''>'' \<notin> set s \<and> DQ \<notin> set s"
  by (auto simp: markup_of_def filter_empty_conv)

lemma markup_xml [simp]: "markup_of (xml t) = []"
proof -
  have "markup_of (xml_char c) = []" for c by (auto simp: xml_char_def markup_of_def)
  then show ?thesis by (simp add: xml_def markup_concat)
qed

lemma markup_html [simp]: "markup_of (html t) = []"
proof -
  have "markup_of (html_char c) = []" for c by (auto simp: html_char_def markup_of_def)
  then show ?thesis by (simp add: html_def markup_concat)
qed

lemma markup_digits: "\<forall>c \<in> set s. is_digit c \<Longrightarrow> markup_of s = []"
  by (auto simp: markup_none is_digit_def char_nat_def)

lemma markup_show_nat [simp]: "markup_of (show_nat n) = []"
  by (rule markup_digits) (rule show_nat_digits)

lemma markup_fraction [simp]: "markup_of (show_fraction k n) = []"
  by (rule markup_digits) (rule show_fraction_digits)

lemma markup_seconds [simp]: "markup_of (seconds ms) = []"
  by (simp add: seconds_def Let_def)

lemma markup_number [simp]: "markup_of (js_string (number_json m)) = []"
  by (simp add: number_json_def Let_def case_prod_unfold show_num_def)

text \<open>What a result is but for its texts and numbers.\<close>

definition result_shape :: "run_result \<Rightarrow> bool list \<times> bool \<times> bool" where
  "result_shape r = (map rt_passed (res_tests r), res_error r = None, res_skipped r)"

definition report_shape :: "run_report \<Rightarrow> nat \<times> (bool list \<times> bool \<times> bool) list" where
  "report_shape rep = (length (shared_errors (map res_error (rep_results rep))), map result_shape (rep_results rep))"

lemma map_of_shapes: "map s xs = map s ys \<Longrightarrow> (\<And>x y. s x = s y \<Longrightarrow> f x = g y) \<Longrightarrow> map f xs = map g ys"
proof (induction xs arbitrary: ys)
  case (Cons x xs)
  then obtain z zs where y: "ys = z # zs" "s x = s z" "map s xs = map s zs" by (cases ys) auto
  have "f x = g z" by (rule Cons.prems(2) [OF y(2)])
  moreover have "map f xs = map g zs" by (rule Cons.IH [OF y(3) Cons.prems(2)])
  ultimately show ?case by (simp add: y(1))
qed simp

lemma map_of_places:
  assumes "length xs = length ys" "\<And>k. k < length xs \<Longrightarrow> f k (xs ! k) = g k (ys ! k)"
  shows "map (\<lambda>(k, x). f k x) (enumerate 0 xs) = map (\<lambda>(k, y). g k y) (enumerate 0 ys)"
  by (rule nth_equalityI) (use assms in \<open>simp_all add: nth_enumerate_eq\<close>)

lemma markup_test_case: "rt_passed t = rt_passed u \<Longrightarrow> markup_of (test_case (xml a) t) = markup_of (test_case (xml b) u)"
  by (simp add: test_case_def case_open_def attribute_def)

lemma markup_error_case: "markup_of (error_case (xml a) e) = markup_of (error_case (xml b) e')"
  by (simp add: error_case_def case_open_def attribute_def)

lemma markup_skipped_case: "markup_of (skipped_case (xml a)) = markup_of (skipped_case (xml b))"
  by (simp add: skipped_case_def case_open_def attribute_def)

lemma markup_cases:
  assumes "result_shape r = result_shape q"
  shows "map markup_of (junit_cases r) = map markup_of (junit_cases q)"
proof -
  have "map (\<lambda>t. markup_of (test_case (xml (res_name r)) t)) (res_tests r) = map (\<lambda>t. markup_of (test_case (xml (res_name q)) t)) (res_tests q)"
    by (rule map_of_shapes [of rt_passed]) (use assms in \<open>simp_all add: result_shape_def markup_test_case\<close>)
  with assms show ?thesis
    using markup_error_case markup_skipped_case
    by (auto simp: junit_cases_def result_shape_def comp_def split: option.splits)
qed

lemma markup_suite:
  assumes "result_shape r = result_shape q"
  shows "markup_of (junit_suite k r) = markup_of (junit_suite l q)"
proof -
  have "map markup_of (junit_cases r) = map markup_of (junit_cases q)" by (rule markup_cases [OF assms])
  moreover from this have "junit_cases r = [] \<longleftrightarrow> junit_cases q = []" by (metis map_is_Nil_conv)
  ultimately show ?thesis by (simp add: junit_suite_def Let_def attribute_def markup_join)
qed

lemma markup_junit:
  assumes "map result_shape (rep_results a) = map result_shape (rep_results b)"
  shows "markup_of (junit_xml a i) = markup_of (junit_xml b j)"
proof -
  have "map (\<lambda>r. markup_of (junit_suite (rep_iterations a) r)) (rep_results a) =
      map (\<lambda>r. markup_of (junit_suite (rep_iterations b) r)) (rep_results b)"
    by (rule map_of_shapes [OF assms]) (rule markup_suite)
  then show ?thesis by (simp add: junit_xml_def Let_def attribute_def markup_join comp_def)
qed

lemma failed_of_shape: "result_shape r = result_shape q \<Longrightarrow> length (failed_tests r) = length (failed_tests q)"
proof -
  assume "result_shape r = result_shape q"
  then have "length (filter Not (map rt_passed (res_tests r))) = length (filter Not (map rt_passed (res_tests q)))"
    by (simp add: result_shape_def)
  then show ?thesis by (simp add: failed_tests_def filter_map comp_def)
qed

lemma markup_row:
  assumes "result_shape r = result_shape q" "length s = length t"
  shows "markup_of (report_row s k r) = markup_of (report_row t l q)"
proof -
  have "failed_result r = failed_result q"
  proof -
    have "list_ex Not (map rt_passed (res_tests r)) = list_ex Not (map rt_passed (res_tests q))"
      using assms(1) by (simp add: result_shape_def)
    then show ?thesis using assms(1) by (simp add: failed_result_def run_failed_def result_shape_def list_ex_iff)
  qed
  moreover have "length (problem_notes s r) = length (problem_notes t q)"
    using assms(1) failed_of_shape [OF assms(1)] by (auto simp: problem_notes_def result_shape_def split: option.splits)
  moreover have "(res_tests r = []) = (res_tests q = [])" using assms(1) by (auto simp: result_shape_def)
  moreover have "markup_of NO_DURATION = []" by (simp add: NO_DURATION_def)
  ultimately show ?thesis
    by (simp add: report_row_def markup_concat comp_def map_replicate_const split: option.split)
qed

lemma markup_blocks:
  assumes "length s = length t"
  shows "markup_of (shared_blocks s) = markup_of (shared_blocks t)"
proof -
  have "markup_of (shared_block s i x) = markup_of (shared_block t j y)" for i j x y
    by (cases x; cases y) (simp add: shared_block_def assms)
  then have "map (\<lambda>(i, x). markup_of (shared_block s i x)) (enumerate 0 s) = map (\<lambda>(i, x). markup_of (shared_block t i x)) (enumerate 0 t)"
    by (rule map_of_places [OF assms])
  then show ?thesis by (simp add: shared_blocks_def markup_join comp_def case_prod_unfold)
qed

lemma markup_page:
  assumes "report_shape a = report_shape b"
  shows "markup_of (run_report_html a i) = markup_of (run_report_html b j)"
proof -
  let ?s = "shared_errors (map res_error (rep_results a))" and ?t = "shared_errors (map res_error (rep_results b))"
  have len: "length ?s = length ?t" "map result_shape (rep_results a) = map result_shape (rep_results b)"
    using assms by (simp_all add: report_shape_def)
  have n: "length (rep_results a) = length (rep_results b)" using len(2) by (metis length_map)
  have at_k: "result_shape (rep_results a ! k) = result_shape (rep_results b ! k)" if "k < length (rep_results a)" for k
    using len(2) that n by (metis nth_map)
  have "map (\<lambda>(k, r). markup_of (report_row ?s k r)) (enumerate 0 (rep_results a)) =
      map (\<lambda>(k, r). markup_of (report_row ?t k r)) (enumerate 0 (rep_results b))"
    by (rule map_of_places [OF n]) (rule markup_row [OF at_k len(1)])
  then show ?thesis
    using markup_blocks [OF len(1)]
    unfolding run_report_html_def report_head_def report_body_def
    by (simp only: markup_append markup_html markup_join map_map comp_def case_prod_unfold append_Nil)
qed


definition told_report :: "string \<Rightarrow> string \<Rightarrow> run_report" where
  "told_report name message =
     \<lparr>rep_iterations = 1,
      rep_results = [\<lparr>res_id = ''r'', res_name = name, res_iteration = 0, res_skipped = False, res_status = Some 200,
        res_status_text = Some ''OK'', res_duration = Some 12, res_error = None,
        res_tests = [\<lparr>rt_name = name, rt_passed = False, rt_error = Some message\<rparr>]\<rparr>],
      rep_ended = Completed, rep_reason = None\<rparr>"

definition told_info :: run_info where
  "told_info = \<lparr>ri_name = ''Shop'', ri_started_at = ''2026-07-01''\<rparr>"


end
