(* ===== verification/CollectionTrip.thy ===== *)
theory CollectionTrip
  imports CollectionFile Platform
begin

text \<open>
  What a collection's file promises: the order of its names says nothing, a file written from what an import gave is
  imported as the same, and the app's own trees are imported back exactly when each of their parts is one an import takes.
\<close>

section \<open>What makes a document accepted\<close>

lemma filled_required [simp]: "required_string v p = [] \<longleftrightarrow> filled v"
  by (simp add: required_string_def)

lemma number_at_Nil [simp]: "number_at v p = [] \<longleftrightarrow> is_number v"
  by (simp add: number_at_def)

definition no_text :: "json option \<Rightarrow> bool" where
  "no_text v \<longleftrightarrow> (case v of None \<Rightarrow> False | Some (JStr _) \<Rightarrow> False | Some _ \<Rightarrow> True)"

lemma description_at_Nil [simp]: "description_at v p = [] \<longleftrightarrow> \<not> no_text v"
  by (simp add: description_at_def no_text_def split: option.split json.split)

lemma field_object [simp]: "field (Some (JObj fs)) k = om_get fs k" "field None k = None" "field (Some (JStr s)) k = None"
  by (simp_all add: field_def)

lemma validate_meta_Nil: "validate_meta m p = [] \<longleftrightarrow> filled (field m ''id'') \<and> is_number (field m ''createdAt'') \<and> is_number (field m ''updatedAt'')"
  by (cases m) (auto simp: validate_meta_def field_def filled_def is_number_def split: json.splits)

definition inherits_ok :: "bool \<Rightarrow> (string \<Rightarrow> json option) \<Rightarrow> bool" where
  "inherits_ok is_folder g \<longleftrightarrow>
     auth_at (g ''auth'') [] is_folder = [] \<and> scripts_at (g ''scripts'') [] = [] \<and>
     (if is_folder then rows_at (g ''variables'') [] = []
      else (\<exists>s \<in> set ROUTES. g ''route'' = Some (JStr s)) \<or> g ''route'' = None)"

lemma validate_inherited_Nil: "validate_inherited v p b = [] \<longleftrightarrow> (\<exists>fs. v = Some (JObj fs)) \<and> inherits_ok b (field v)"
  by (cases b) (auto simp: validate_inherited_def object_at_Nil auth_at_Nil scripts_at_Nil rows_at_Nil one_of_at_Nil inherits_ok_def)

definition content_ok :: "(string \<Rightarrow> json option) \<Rightarrow> bool" where
  "content_ok g \<longleftrightarrow>
     (\<exists>m. g ''method'' = Some (JStr m) \<and> is_http_method m) \<and> filled (g ''url'') \<and>
     rows_at (g ''params'') [] = [] \<and> rows_at (g ''headers'') [] = [] \<and>
     (\<exists>b. g ''body'' = Some (JObj b) \<and> body_at b [] = []) \<and> auth_at (g ''auth'') [] True = [] \<and>
     scripts_at (g ''scripts'') [] = [] \<and> list_at (g ''tests'') [] assertion_at = [] \<and>
     (\<exists>s. g ''settings'' = Some (JObj s) \<and> settings_at s [] = [])"

lemma method_at_Nil: "method_at r p = [] \<longleftrightarrow> (\<exists>m. om_get r ''method'' = Some (JStr m) \<and> is_http_method m)"
  by (auto simp: method_at_def split: option.splits json.splits)

lemma request_content_Nil: "validate_request_content v p = [] \<longleftrightarrow> (\<exists>r. v = Some (JObj r)) \<and> content_ok (field v)"
  by (auto simp: validate_request_content_Nil content_ok_def method_at_Nil)

definition doc_ok :: "(string \<Rightarrow> json option) \<Rightarrow> bool" where
  "doc_ok g \<longleftrightarrow>
     filled (field (g ''meta'') ''id'') \<and> is_number (field (g ''meta'') ''createdAt'') \<and> is_number (field (g ''meta'') ''updatedAt'') \<and>
     filled (or_else (g ''id'') (field (g ''meta'') ''id'')) \<and> filled (g ''name'') \<and> \<not> no_text (g ''description'')"

definition collection_ok :: "(string \<Rightarrow> json option) \<Rightarrow> bool" where
  "collection_ok g \<longleftrightarrow> doc_ok g \<and> is_number (g ''order'') \<and> rows_at (g ''variables'') [] = [] \<and> inherits_ok False g"

definition folder_ok :: "(string \<Rightarrow> json option) \<Rightarrow> bool" where
  "folder_ok g \<longleftrightarrow> doc_ok g \<and> filled (g ''collectionId'') \<and> is_number (g ''order'') \<and> inherits_ok True g"

definition request_ok :: "(string \<Rightarrow> json option) \<Rightarrow> bool" where
  "request_ok g \<longleftrightarrow> doc_ok g \<and> filled (g ''collectionId'') \<and> content_ok g"

definition is_obj :: "json \<Rightarrow> bool" where
  "is_obj v \<longleftrightarrow> (\<exists>fs. v = JObj fs)"

definition fields :: "json \<Rightarrow> string \<Rightarrow> json option" where
  "fields v k = member v k"

lemma field_fields: "field (Some v) = fields v"
  by (rule ext) (simp add: field_def fields_def member_def split: json.split)

lemma rows_at_path: "rows_at v p = [] \<longleftrightarrow> rows_at v [] = []"
  by (simp add: rows_at_Nil)

lemma collection_doc_Nil: "validate_collection_doc (Some v) p = [] \<longleftrightarrow> is_obj v \<and> collection_ok (fields v)"
  unfolding validate_collection_doc_def validate_rows_def append_is_Nil_conv validate_meta_Nil validate_inherited_Nil
    rows_at_path [of _ "field_path _ _"] filled_required number_at_Nil description_at_Nil doc_id_def field_fields
    collection_ok_def doc_ok_def is_obj_def
  by auto

lemma folder_doc_Nil: "validate_folder_doc (Some v) p = [] \<longleftrightarrow> is_obj v \<and> folder_ok (fields v)"
  unfolding validate_folder_doc_def append_is_Nil_conv validate_meta_Nil validate_inherited_Nil
    filled_required number_at_Nil description_at_Nil doc_id_def field_fields folder_ok_def doc_ok_def is_obj_def
  by auto

lemma request_doc_Nil: "validate_request_doc (Some v) p = [] \<longleftrightarrow> is_obj v \<and> request_ok (fields v)"
  unfolding validate_request_doc_def append_is_Nil_conv validate_meta_Nil request_content_Nil
    filled_required description_at_Nil doc_id_def field_fields request_ok_def doc_ok_def is_obj_def
  by auto

lemma docs_at_Nil:
  assumes "\<And>x p. chk (Some x) p = [] \<longleftrightarrow> ok x"
  shows "docs_at v p m chk = [] \<longleftrightarrow> (\<exists>xs. v = Some (JArr xs) \<and> (\<forall>x \<in> set xs. ok x))"
proof (cases "\<exists>xs. v = Some (JArr xs)")
  case True
  then obtain xs where v: "v = Some (JArr xs)" by blast
  have "docs_at v p m chk = [] \<longleftrightarrow> (\<forall>y \<in> set (enumerate 0 xs). ok (snd y))"
    by (auto simp: v docs_at_def assms)
  also have "\<dots> \<longleftrightarrow> (\<forall>x \<in> snd ` set (enumerate 0 xs). ok x)" by blast
  also have "snd ` set (enumerate 0 xs) = set xs" by (metis list.set_map map_snd_enumerate)
  finally show ?thesis by (simp add: v)
next
  case False
  then show ?thesis by (auto simp: docs_at_def split: option.splits json.splits)
qed

definition payload_ok :: "json \<Rightarrow> bool" where
  "payload_ok v \<longleftrightarrow>
     is_obj (collection_of v) \<and> collection_ok (fields (collection_of v)) \<and>
     (\<exists>xs. member v ''folders'' = Some (JArr xs) \<and> (\<forall>x \<in> set xs. is_obj x \<and> folder_ok (fields x))) \<and>
     (\<exists>xs. member v ''requests'' = Some (JArr xs) \<and> (\<forall>x \<in> set xs. is_obj x \<and> request_ok (fields x))) \<and>
     filled (field (member v ''meta'') ''id'') \<and> is_number (field (member v ''meta'') ''createdAt'') \<and>
     is_number (field (member v ''meta'') ''updatedAt'')"

lemma not_truthy_field: "\<not> truthy m \<Longrightarrow> field m k = None"
  by (auto simp: truthy_def field_def split: option.splits json.splits)

lemma payload_Nil: "payload_problems v = [] \<longleftrightarrow> payload_ok v"
proof -
  have meta: "(if truthy m then validate_meta m p else [e]) = [] \<longleftrightarrow>
      filled (field m ''id'') \<and> is_number (field m ''createdAt'') \<and> is_number (field m ''updatedAt'')" for m p e
    using not_truthy_field [of m] by (auto simp: validate_meta_Nil filled_def)
  have col: "(if truthy c then validate_collection_doc c p else [e]) = [] \<longleftrightarrow>
      is_obj (case c of Some c \<Rightarrow> c | None \<Rightarrow> JNull) \<and> collection_ok (fields (case c of Some c \<Rightarrow> c | None \<Rightarrow> JNull))" for c p e
    by (cases c) (auto simp: collection_doc_Nil truthy_def is_obj_def)
  show ?thesis
    unfolding payload_problems_def append_is_Nil_conv meta col payload_ok_def collection_of_def
      docs_at_Nil [of validate_folder_doc, OF folder_doc_Nil] docs_at_Nil [of validate_request_doc, OF request_doc_Nil]
    by simp
qed

section \<open>The order of names says nothing\<close>

definition named :: "(string \<Rightarrow> string \<Rightarrow> bool) \<Rightarrow> obj \<Rightarrow> obj" where
  "named lc ms = sort_by (\<lambda>a b. lc (fst a) (fst b)) (map (\<lambda>(k, v). (k, sort_keys lc v)) ms)"

lemma sort_keys_object: "sort_keys lc (JObj ms) = JObj (named lc ms)"
  by (simp add: named_def)

lemma map_of_filter_key: "map_of (filter (\<lambda>m. fst m = k) ms) k = map_of ms k"
  by (induction ms) auto

lemma by_name_total:
  assumes lc: "total_comparison lc"
  shows "total_comparison (\<lambda>a b. lc (fst a) (fst b))"
proof
  show "lc (fst a) (fst b) \<or> lc (fst b) (fst a)" for a b by (rule total_comparison.total [OF lc])
  show "lc (fst a) (fst b) \<Longrightarrow> lc (fst b) (fst c) \<Longrightarrow> lc (fst a) (fst c)" for a b c by (rule total_comparison.trans [OF lc])
qed

lemma get_named:
  assumes "total_comparison lc"
  shows "om_get (named lc ms) k = map_option (sort_keys lc) (om_get ms k)"
proof -
  have refl: "lc k k" using total_comparison.total [OF assms] by blast
  have "om_get (named lc ms) k = map_of (filter (\<lambda>m. fst m = k) (named lc ms)) k"
    by (simp add: om_get_def map_of_filter_key)
  also have "filter (\<lambda>m. fst m = k) (named lc ms) = filter (\<lambda>m. fst m = k) (map (\<lambda>(k, v). (k, sort_keys lc v)) ms)"
    unfolding named_def by (rule total_comparison.sort_by_stable [OF by_name_total [OF assms]]) (simp add: refl)
  also have "map_of \<dots> k = map_of (map (\<lambda>(k, v). (k, sort_keys lc v)) ms) k" by (rule map_of_filter_key)
  also have "\<dots> = map_option (sort_keys lc) (om_get ms k)" by (simp add: om_get_def map_of_map)
  finally show ?thesis .
qed

lemma sort_keys_is:
  "sort_keys lc v = JNull \<longleftrightarrow> v = JNull" "sort_keys lc v = JBool b \<longleftrightarrow> v = JBool b" "sort_keys lc v = JNum d \<longleftrightarrow> v = JNum d"
  "sort_keys lc v = JStr s \<longleftrightarrow> v = JStr s" "sort_keys lc v = JArr ws \<longleftrightarrow> (\<exists>xs. v = JArr xs \<and> ws = map (sort_keys lc) xs)"
  "sort_keys lc v = JObj fs \<longleftrightarrow> (\<exists>ms. v = JObj ms \<and> fs = named lc ms)"
  by (cases v; auto simp: named_def)+

lemma sorted_scalar:
  "filled (Some (sort_keys lc w)) = filled (Some w)" "is_number (Some (sort_keys lc w)) = is_number (Some w)"
  "no_text (Some (sort_keys lc w)) = no_text (Some w)" "truthy (Some (sort_keys lc w)) = truthy (Some w)"
  by (cases w; simp add: filled_def is_number_def no_text_def truthy_def)+

lemma sorted_scalars [simp]:
  "filled (map_option (sort_keys lc) v) = filled v" "is_number (map_option (sort_keys lc) v) = is_number v"
  "no_text (map_option (sort_keys lc) v) = no_text v" "truthy (map_option (sort_keys lc) v) = truthy v"
  by (cases v; simp add: sorted_scalar)+

lemma sorted_text [simp]: "is_json_text (sort_keys lc w) = is_json_text w"
  by (cases w) (simp_all add: is_json_text_def)

lemma sorted_obj [simp]: "is_obj (sort_keys lc w) = is_obj w"
  by (cases w) (simp_all add: is_obj_def)

lemma sorted_or_else: "or_else (map_option (sort_keys lc) a) (map_option (sort_keys lc) b) = map_option (sort_keys lc) (or_else a b)"
  by (cases a) (simp_all add: or_else_def sort_keys_is)

lemma sorted_field:
  assumes "total_comparison lc"
  shows "field (map_option (sort_keys lc) v) k = map_option (sort_keys lc) (field v k)"
proof (cases v)
  case (Some w)
  then show ?thesis by (cases w) (simp_all add: field_def get_named [OF assms] flip: named_def)
qed simp

lemma sorted_member: "total_comparison lc \<Longrightarrow> member (sort_keys lc w) k = map_option (sort_keys lc) (member w k)"
  by (cases w) (simp_all add: member_def get_named flip: named_def)

lemma sorted_row:
  assumes "total_comparison lc"
  shows "row_at (named lc ms) p = [] \<longleftrightarrow> row_at ms p = []"
proof -
  have "(case map_option (sort_keys lc) v of None \<Rightarrow> False | Some v \<Rightarrow> is_json_text v) = (case v of None \<Rightarrow> False | Some v \<Rightarrow> is_json_text v)" for v
    by (cases v) simp_all
  then show ?thesis
    by (simp add: row_at_def string_at_Nil flag_at_Nil get_named [OF assms] sort_keys_is)
qed

lemma sorted_list_at:
  assumes "\<And>fs p. chk fs p = [] \<longleftrightarrow> chk fs [] = []" "\<And>fs. chk (named lc fs) [] = [] \<longleftrightarrow> chk fs [] = []"
  shows "list_at (map_option (sort_keys lc) v) p chk = [] \<longleftrightarrow> list_at v p chk = []"
proof -
  have "(\<exists>fs. sort_keys lc x = JObj fs \<and> chk fs [] = []) \<longleftrightarrow> (\<exists>fs. x = JObj fs \<and> chk fs [] = [])" for x
    by (auto simp: sort_keys_is assms(2))
  then show ?thesis
    unfolding list_at_Nil [of chk "\<lambda>fs. chk fs [] = []", OF assms(1)] by (fastforce simp: sort_keys_is)
qed

lemma sorted_rows: "total_comparison lc \<Longrightarrow> rows_at (map_option (sort_keys lc) v) p = [] \<longleftrightarrow> rows_at v p = []"
  unfolding rows_at_def by (rule sorted_list_at [where chk = row_at, OF row_at_path sorted_row])

lemma sorted_own_auth: "total_comparison lc \<Longrightarrow> own_auth_at (named lc fs) [] = [] \<longleftrightarrow> own_auth_at fs [] = []"
  by (simp add: own_auth_at_def Let_def string_at_Nil flag_at_Nil one_of_at_Nil get_named sort_keys_is)

lemma sorted_auth: "total_comparison lc \<Longrightarrow> auth_at (map_option (sort_keys lc) v) p b = [] \<longleftrightarrow> auth_at v p b = []"
  by (auto simp: auth_at_Nil sort_keys_is sorted_own_auth get_named)

lemma sorted_scripts: "total_comparison lc \<Longrightarrow> scripts_at (map_option (sort_keys lc) v) p = [] \<longleftrightarrow> scripts_at v p = []"
  by (auto simp: scripts_at_Nil sort_keys_is get_named)

lemma sorted_part: "total_comparison lc \<Longrightarrow> part_at (named lc fs) [] = [] \<longleftrightarrow> part_at fs [] = []"
  by (simp add: part_at_def string_at_Nil flag_at_Nil one_of_at_Nil file_ref_at_def get_named sort_keys_is)

lemma sorted_assertion: "total_comparison lc \<Longrightarrow> assertion_at (named lc fs) [] = [] \<longleftrightarrow> assertion_at fs [] = []"
  by (simp add: assertion_at_def string_at_Nil one_of_at_Nil get_named sort_keys_is)

lemma sorted_settings:
  assumes "total_comparison lc"
  shows "settings_at (named lc fs) [] = [] \<longleftrightarrow> settings_at fs [] = []"
proof -
  have "(case map_option (sort_keys lc) v of None \<Rightarrow> x | Some (JNum d) \<Rightarrow> f d | Some _ \<Rightarrow> y) =
      (case v of None \<Rightarrow> x | Some (JNum d) \<Rightarrow> f d | Some _ \<Rightarrow> y)" for v x f and y :: "problem list"
  proof (cases v)
    case (Some w)
    then show ?thesis by (cases w) simp_all
  qed simp
  then show ?thesis by (simp add: settings_at_def flag_at_Nil one_of_at_Nil get_named [OF assms] sort_keys_is)
qed

lemma sorted_body:
  assumes lc: "total_comparison lc"
  shows "body_at (named lc fs) [] = [] \<longleftrightarrow> body_at fs [] = []"
proof -
  have obj: "(\<exists>gs. map_option (sort_keys lc) v = Some (JObj gs) \<and> P gs) \<longleftrightarrow> (\<exists>gs. v = Some (JObj gs) \<and> P (named lc gs))" for v P
    by (auto simp: sort_keys_is)
  have sent: "sent_part (named lc fs) n \<longleftrightarrow> sent_part fs n" for n by (simp add: sent_part_def get_named [OF lc] sort_keys_is)
  note parts = sorted_list_at [where chk = part_at, OF part_at_path sorted_part [OF lc]]
  have part: "(if s then ps else []) = [] \<longleftrightarrow> (s \<longrightarrow> ps = [])" for s and ps :: "problem list" by simp
  have there: "map_option (sort_keys lc) v \<noteq> None \<longleftrightarrow> v \<noteq> None" for v by simp
  have str: "map_option (sort_keys lc) v = Some (JStr s) \<longleftrightarrow> v = Some (JStr s)" for v s by (simp add: sort_keys_is)
  have none: "map_option (sort_keys lc) v = None \<longleftrightarrow> v = None" for v by simp
  show ?thesis
    by (simp only: body_at_def append_is_Nil_conv part sent object_at_Nil string_at_Nil one_of_at_Nil file_ref_at_def
        get_named [OF lc] obj sorted_rows [OF lc] parts there str none)
qed

lemma sorted_content:
  assumes lc: "total_comparison lc"
  shows "content_ok (\<lambda>k. map_option (sort_keys lc) (g k)) \<longleftrightarrow> content_ok g"
proof -
  have obj: "(\<exists>gs. map_option (sort_keys lc) v = Some (JObj gs) \<and> P gs) \<longleftrightarrow> (\<exists>gs. v = Some (JObj gs) \<and> P (named lc gs))" for v P
    by (auto simp: sort_keys_is)
  show ?thesis
    unfolding content_ok_def sorted_scalars sorted_rows [OF lc] sorted_auth [OF lc] sorted_scripts [OF lc]
      sorted_list_at [where chk = assertion_at, OF assertion_at_path sorted_assertion [OF lc]] obj sorted_body [OF lc] sorted_settings [OF lc]
    by (simp add: sort_keys_is)
qed

lemma sorted_doc: "total_comparison lc \<Longrightarrow> doc_ok (\<lambda>k. map_option (sort_keys lc) (g k)) \<longleftrightarrow> doc_ok g"
  by (simp add: doc_ok_def sorted_field sorted_or_else)

lemma sorted_inherits: "total_comparison lc \<Longrightarrow> inherits_ok b (\<lambda>k. map_option (sort_keys lc) (g k)) \<longleftrightarrow> inherits_ok b g"
  by (cases b) (simp_all add: inherits_ok_def sorted_auth sorted_scripts sorted_rows sort_keys_is)

lemma sorted_fields: "total_comparison lc \<Longrightarrow> fields (sort_keys lc v) = (\<lambda>k. map_option (sort_keys lc) (fields v k))"
  by (rule ext) (simp add: fields_def sorted_member)

lemma sorted_docs:
  assumes "total_comparison lc"
  shows "collection_ok (fields (sort_keys lc v)) \<longleftrightarrow> collection_ok (fields v)"
    and "folder_ok (fields (sort_keys lc v)) \<longleftrightarrow> folder_ok (fields v)"
    and "request_ok (fields (sort_keys lc v)) \<longleftrightarrow> request_ok (fields v)"
  unfolding collection_ok_def folder_ok_def request_ok_def sorted_fields [OF assms]
  by (simp_all add: sorted_doc [OF assms] sorted_inherits [OF assms] sorted_rows [OF assms] sorted_content [OF assms])

lemma sorted_collection_of: "total_comparison lc \<Longrightarrow> collection_of (sort_keys lc v) = sort_keys lc (collection_of v)"
  by (cases "member v ''collection''") (simp_all add: collection_of_def sorted_member)

lemma payload_sorted:
  assumes lc: "total_comparison lc"
  shows "payload_ok (sort_keys lc v) \<longleftrightarrow> payload_ok v"
proof -
  have arr: "(\<exists>xs. map_option (sort_keys lc) m = Some (JArr xs) \<and> (\<forall>x \<in> set xs. P x)) \<longleftrightarrow>
      (\<exists>xs. m = Some (JArr xs) \<and> (\<forall>x \<in> set xs. P (sort_keys lc x)))" for m P
    by (fastforce simp: sort_keys_is)
  show ?thesis
    unfolding payload_ok_def sorted_member [OF lc] sorted_collection_of [OF lc] arr sorted_obj sorted_docs [OF lc]
      sorted_field [OF lc] sorted_scalars ..
qed

section \<open>A file in its normal form\<close>

lemma num_less_rat: "num_less a b \<longleftrightarrow> rat_of_num a < rat_of_num b"
proof -
  have "rat_of_num a < rat_of_num b \<longleftrightarrow> (of_int (mantissa a * 10 ^ scale b) :: rat) < of_int (mantissa b * 10 ^ scale a)"
    by (simp add: rat_of_num_def field_split_simps)
  then show ?thesis by (simp only: num_less_def of_int_less_iff)
qed

lemma stands_before_total:
  assumes "total_comparison lc"
  shows "total_comparison (stands_before lc)"
proof
  note lc_total = total_comparison.total [OF assms] and lc_trans = total_comparison.trans [OF assms]
  show "stands_before lc a b \<or> stands_before lc b a" for a b
    using lc_total [of "order_id a" "order_id b"] by (auto simp: stands_before_def)
  show "stands_before lc a c" if "stands_before lc a b" "stands_before lc b c" for a b c
    using that lc_trans [of "order_id a" "order_id b" "order_id c"] by (auto simp: stands_before_def num_less_rat split: if_splits)
qed

lemma js_string_sorted [simp]: "js_string (sort_keys lc v) = js_string v"
proof (induction lc v rule: sort_keys.induct)
  case (1 lc xs)
  then have "map (\<lambda>x. if x = JNull then [] else js_string x) (map (sort_keys lc) xs) = map (\<lambda>x. if x = JNull then [] else js_string x) xs"
    by (simp add: sort_keys_is)
  then show ?case by (simp only: sort_keys.simps js_string.simps)
qed simp_all

lemma sorted_doc_id: "total_comparison lc \<Longrightarrow> doc_id (Some (sort_keys lc v)) = map_option (sort_keys lc) (doc_id (Some v))"
  using sorted_field [of lc "Some v"] sorted_field [of lc "field (Some v) ''meta''"] by (simp add: doc_id_def sorted_or_else)

lemma stands_before_sorted:
  assumes lc: "total_comparison lc"
  shows "stands_before lc (sort_keys lc a) (sort_keys lc b) \<longleftrightarrow> stands_before lc a b"
proof -
  have "order_number (sort_keys lc v) = order_number v" for v
  proof (cases "member v ''order''")
    case (Some w)
    then show ?thesis by (cases w) (simp_all add: order_number_def sorted_member [OF lc])
  qed (simp add: order_number_def sorted_member [OF lc])
  moreover have "order_id (sort_keys lc v) = order_id v" for v
  proof -
    have "or_else (map_option (sort_keys lc) x) (Some (JStr [])) = map_option (sort_keys lc) (or_else x (Some (JStr [])))" for x
      using sorted_or_else [of lc x "Some (JStr [])"] by simp
    moreover have "\<exists>y. or_else x (Some (JStr [])) = Some y" for x by (auto simp: or_else_def)
    ultimately show ?thesis unfolding order_id_def sorted_doc_id [OF lc] by (metis js_string_sorted option.map_sel option.distinct(1))
  qed
  ultimately show ?thesis by (simp add: stands_before_def)
qed

text \<open>Every document under the id of its \<open>meta\<close>, and each list in order.\<close>

definition own_id :: "json \<Rightarrow> bool" where
  "own_id doc \<longleftrightarrow> (\<exists>i. member doc ''id'' = Some i \<and> field (member doc ''meta'') ''id'' = Some i)"

definition canonical :: "(string \<Rightarrow> string \<Rightarrow> bool) \<Rightarrow> json \<Rightarrow> bool" where
  "canonical lc v \<longleftrightarrow>
     (\<exists>c fs rs. member v ''collection'' = Some c \<and> member v ''folders'' = Some (JArr fs) \<and> member v ''requests'' = Some (JArr rs) \<and>
        own_id c \<and> list_all own_id fs \<and> list_all own_id rs \<and>
        sorted_wrt (stands_before lc) fs \<and> sorted_wrt (stands_before lc) rs)"

lemma om_set_same: "om_get ms k = Some v \<Longrightarrow> om_set k v ms = ms"
  by (induction ms) (auto simp: om_get_def split: if_splits)

lemma set_field_same: "member v k = Some x \<Longrightarrow> set_field k x v = v"
  by (cases v) (simp_all add: member_def set_field_def om_set_same)

lemma member_set_field: "is_obj v \<Longrightarrow> member (set_field k x v) k' = (if k = k' then Some x else member v k')"
  by (auto simp: is_obj_def member_def set_field_def om_get_set)

lemma is_obj_set_field [simp]: "is_obj (set_field k x v) = is_obj v"
  by (cases v) (simp_all add: is_obj_def set_field_def)

lemma member_is_obj: "member v k = Some x \<Longrightarrow> is_obj v"
  by (cases v) (simp_all add: member_def is_obj_def)

lemma own_id_ensured: "own_id doc \<Longrightarrow> ensure_doc_id doc = doc"
  by (auto simp: own_id_def ensure_doc_id_def set_field_same split: option.split)

lemma ensured_own_id:
  assumes "is_obj doc" "filled (field (member doc ''meta'') ''id'')"
  shows "own_id (ensure_doc_id doc)"
proof -
  from assms(2) obtain i where i: "field (member doc ''meta'') ''id'' = Some i" by (cases "field (member doc ''meta'') ''id''") (auto simp: filled_def)
  then show ?thesis using assms(1) by (simp add: own_id_def ensure_doc_id_def member_set_field)
qed

lemma canonical_normal:
  assumes lc: "total_comparison lc" and "canonical lc v"
  shows "normalize_export lc v = v"
proof -
  from assms(2) obtain c fs rs where v: "member v ''collection'' = Some c" "member v ''folders'' = Some (JArr fs)" "member v ''requests'' = Some (JArr rs)"
    and own: "own_id c" "list_all own_id fs" "list_all own_id rs"
    and order: "sorted_wrt (stands_before lc) fs" "sorted_wrt (stands_before lc) rs"
    unfolding canonical_def by blast
  have same: "map ensure_doc_id ds = ds" if "list_all own_id ds" for ds
    using that by (induction ds) (simp_all add: own_id_ensured)
  have sorted: "sort_by_order lc ds = ds" if "sorted_wrt (stands_before lc) ds" for ds
    using that unfolding sort_by_order_def by (rule total_comparison.sort_by_sorted [OF stands_before_total [OF lc]])
  show ?thesis
    using v own order same sorted
    by (simp add: normalize_export_def collection_of_def docs_of_def own_id_ensured set_field_same)
qed

lemma normal_canonical:
  assumes lc: "total_comparison lc" and ok: "payload_ok v"
  shows "canonical lc (normalize_export lc v)"
proof -
  from ok obtain c fs rs where v: "member v ''collection'' = Some c" "member v ''folders'' = Some (JArr fs)" "member v ''requests'' = Some (JArr rs)"
    by (auto simp: payload_ok_def collection_of_def is_obj_def split: option.splits)
  have docs: "filled (field (member d ''meta'') ''id'')" if "doc_ok (fields d)" for d using that by (simp add: doc_ok_def fields_def)
  have own: "own_id (ensure_doc_id c)" "list_all own_id (map ensure_doc_id fs)" "list_all own_id (map ensure_doc_id rs)"
    using ok v docs by (auto simp: payload_ok_def collection_of_def list_all_iff collection_ok_def folder_ok_def request_ok_def intro!: ensured_own_id)
  have order: "sorted_wrt (stands_before lc) (sort_by_order lc ds)" for ds
    unfolding sort_by_order_def by (rule total_comparison.sorted_sort_by [OF stands_before_total [OF lc]])
  have "list_all own_id (sort_by_order lc ds) = list_all own_id ds" for ds by (simp add: sort_by_order_def list_all_iff)
  with own order v show ?thesis
    by (simp add: canonical_def normalize_export_def member_set_field member_is_obj [OF v(1)] collection_of_def docs_of_def)
qed

lemma sorted_own_id: "total_comparison lc \<Longrightarrow> own_id v \<Longrightarrow> own_id (sort_keys lc v)"
  by (auto simp: own_id_def sorted_member sorted_field)

lemma canonical_sorted:
  assumes lc: "total_comparison lc" and "canonical lc v"
  shows "canonical lc (sort_keys lc v)"
proof -
  from assms(2) obtain c fs rs where v: "member v ''collection'' = Some c" "member v ''folders'' = Some (JArr fs)" "member v ''requests'' = Some (JArr rs)"
    and own: "own_id c" "list_all own_id fs" "list_all own_id rs"
    and order: "sorted_wrt (stands_before lc) fs" "sorted_wrt (stands_before lc) rs"
    unfolding canonical_def by blast
  have "sorted_wrt (stands_before lc) (map (sort_keys lc) ds)" if "sorted_wrt (stands_before lc) ds" for ds
    using that by (simp add: sorted_wrt_map stands_before_sorted [OF lc])
  moreover have "list_all own_id (map (sort_keys lc) ds)" if "list_all own_id ds" for ds
    using that sorted_own_id [OF lc] by (simp add: list_all_iff)
  ultimately show ?thesis
    using v own order sorted_own_id [OF lc] by (simp add: canonical_def sorted_member [OF lc])
qed

lemma named_named: "total_comparison lc \<Longrightarrow> sort_keys lc (sort_keys lc v) = sort_keys lc v"
proof (induction lc v rule: sort_keys.induct)
  case (2 lc ms)
  have ms: "set (named lc ms) = (\<lambda>(k, v). (k, sort_keys lc v)) ` set ms" by (simp add: named_def)
  have "map (\<lambda>(k, v). (k, sort_keys lc v)) (named lc ms) = named lc ms"
  proof (rule map_idI)
    fix m assume "m \<in> set (named lc ms)"
    with ms obtain k v where "(k, v) \<in> set ms" "m = (k, sort_keys lc v)" by auto
    then show "(case m of (k, v) \<Rightarrow> (k, sort_keys lc v)) = m" using 2(1) [of "(k, v)" k v] 2(2) by simp
  qed
  moreover have "sort_by (\<lambda>a b. lc (fst a) (fst b)) (named lc ms) = named lc ms"
    unfolding named_def by (rule total_comparison.sort_by_idem [OF by_name_total [OF 2(2)]])
  ultimately show ?case unfolding sort_keys_object by (simp add: named_def)
qed simp_all

lemma sorted_wf: "json_wf v \<Longrightarrow> json_wf (sort_keys lc v)"
proof (induction lc v rule: sort_keys.induct)
  case (2 lc ms)
  have "mset (named lc ms) = mset (map (\<lambda>(k, v). (k, sort_keys lc v)) ms)" by (simp add: named_def mset_sort_by)
  then have "mset (map fst (named lc ms)) = mset (map fst (map (\<lambda>(k, v). (k, sort_keys lc v)) ms))" by (simp only: mset_map)
  then have "distinct (map fst (named lc ms)) \<longleftrightarrow> distinct (map fst (map (\<lambda>(k, v). (k, sort_keys lc v)) ms))"
    by (rule mset_eq_imp_distinct_iff)
  moreover have "map fst (map (\<lambda>(k, v). (k, sort_keys lc v)) ms) = map fst ms" by (simp add: case_prod_unfold comp_def)
  ultimately have "distinct (map fst (named lc ms))" using 2(2) by (simp only: json_wf.simps)
  moreover have "json_wf (snd m)" if "m \<in> set (named lc ms)" for m
    using that 2 by (force simp: named_def)
  ultimately show ?case using 2(2) unfolding sort_keys_object by simp
qed simp_all

lemma ensured_fields:
  assumes "is_obj d" "filled (field (member d ''meta'') ''id'')"
  shows "\<exists>s. field (member d ''meta'') ''id'' = Some (JStr s) \<and> fields (ensure_doc_id d) = (fields d)(''id'' := Some (JStr s))"
proof -
  from assms(2) obtain s where "field (member d ''meta'') ''id'' = Some (JStr s)"
    by (auto simp: filled_def split: option.splits json.splits)
  with assms(1) show ?thesis by (auto simp: ensure_doc_id_def fields_def member_set_field fun_eq_iff)
qed

lemma doc_ok_ensured:
  assumes "is_obj d" "doc_ok (fields d)"
  shows "\<exists>s. fields (ensure_doc_id d) = (fields d)(''id'' := Some (JStr s)) \<and> doc_ok (fields (ensure_doc_id d))"
proof -
  have "filled (field (member d ''meta'') ''id'')" using assms(2) by (simp add: doc_ok_def fields_def)
  with ensured_fields [OF assms(1)] obtain s where
    s: "field (member d ''meta'') ''id'' = Some (JStr s)" "fields (ensure_doc_id d) = (fields d)(''id'' := Some (JStr s))" by blast
  moreover have "field (fields d ''meta'') ''id'' = Some (JStr s)" using s(1) by (simp add: fields_def)
  ultimately show ?thesis using assms(2) by (auto simp: doc_ok_def or_else_def)
qed

lemma ok_ensured:
  assumes "is_obj d"
  shows "collection_ok (fields d) \<Longrightarrow> collection_ok (fields (ensure_doc_id d))"
    and "folder_ok (fields d) \<Longrightarrow> folder_ok (fields (ensure_doc_id d))"
    and "request_ok (fields d) \<Longrightarrow> request_ok (fields (ensure_doc_id d))"
  using doc_ok_ensured [OF assms]
  by (auto simp: collection_ok_def folder_ok_def request_ok_def inherits_ok_def content_ok_def)

lemma is_obj_ensured [simp]: "is_obj (ensure_doc_id d) = is_obj d"
  by (simp add: ensure_doc_id_def split: option.split)

lemma member_normal:
  "is_obj v \<Longrightarrow> member (normalize_export lc v) k =
     (if k = ''requests'' then Some (JArr (sort_by_order lc (map ensure_doc_id (docs_of v ''requests''))))
      else if k = ''folders'' then Some (JArr (sort_by_order lc (map ensure_doc_id (docs_of v ''folders''))))
      else if k = ''collection'' then Some (ensure_doc_id (collection_of v)) else member v k)"
  by (simp add: normalize_export_def member_set_field)

lemma normal_payload:
  assumes "is_obj v" "payload_ok v"
  shows "payload_ok (normalize_export lc v)"
proof -
  have docs: "set (sort_by_order lc ds) = set ds" for ds by (simp add: sort_by_order_def)
  have col: "collection_of (normalize_export lc v) = ensure_doc_id (collection_of v)"
    by (simp add: collection_of_def member_normal [OF assms(1)])
  show ?thesis
    unfolding payload_ok_def col
    using assms(2) ok_ensured by (auto simp: member_normal [OF assms(1)] docs payload_ok_def docs_of_def)
qed

section \<open>A file written from what an import gave\<close>

lemma validated: "validate_collection input = Inr v \<longleftrightarrow>
    \<not> is_oversized_import input \<and> parsed_input input = Some v \<and> is_obj v \<and>
    member v ''$id'' = Some (JStr COLLECTION_FORMAT) \<and> payload_ok v"
  by (auto simp: validate_collection_def payload_Nil is_obj_def member_def split: option.splits json.splits if_splits)

lemma import_plain: "import_collection lc fresh now input False = Inr r \<longleftrightarrow>
    (\<exists>v. validate_collection input = Inr v \<and> r = \<lparr>ir_payload = normalize_export lc v, ir_plan = build_plan (normalize_export lc v) False,
       ir_folders = length (docs_of (normalize_export lc v) ''folders''),
       ir_requests = length (docs_of (normalize_export lc v) ''requests''), ir_remap = None\<rparr>)"
  by (auto simp: import_collection_def Let_def split: sum.splits)

lemma wf_set_field: "json_wf v \<Longrightarrow> json_wf x \<Longrightarrow> json_wf (set_field k x v)"
proof (cases v)
  case (JObj fs)
  have "set (om_set k x fs) \<subseteq> insert (k, x) (set fs)" by (induction k x fs rule: om_set.induct) auto
  moreover assume "json_wf v" "json_wf x"
  ultimately show ?thesis using JObj by (auto simp: set_field_def)
qed (simp_all add: set_field_def)

lemma wf_member: "json_wf v \<Longrightarrow> member v k = Some x \<Longrightarrow> json_wf x"
  by (cases v) (auto simp: member_def om_get_def dest!: map_of_SomeD)

lemma wf_field: "(\<And>w. v = Some w \<Longrightarrow> json_wf w) \<Longrightarrow> field v k = Some x \<Longrightarrow> json_wf x"
  using wf_member by (cases v) (auto simp: field_fields fields_def)

lemma wf_ensured: "json_wf d \<Longrightarrow> json_wf (ensure_doc_id d)"
  by (auto simp: ensure_doc_id_def split: option.split intro!: wf_set_field elim!: wf_field [rotated] intro: wf_member)

lemma wf_normal:
  assumes "json_wf v"
  shows "json_wf (normalize_export lc v)"
proof -
  have "json_wf x" if "x \<in> set (docs_of v k)" for x k
  proof -
    from that obtain xs where "member v k = Some (JArr xs)" "x \<in> set xs"
      by (cases "member v k") (auto simp: docs_of_def split: json.splits)
    then show ?thesis using wf_member [OF assms] by fastforce
  qed
  moreover have "json_wf (collection_of v)" using wf_member [OF assms] by (auto simp: collection_of_def split: option.split)
  ultimately show ?thesis
    using assms unfolding normalize_export_def
    by (intro wf_set_field wf_ensured) (auto simp: sort_by_order_def intro: wf_ensured)
qed

lemma parsed_wf: "json_wf input \<Longrightarrow> parsed_input input = Some v \<Longrightarrow> json_wf v"
  by (cases input) (auto simp: parsed_input_def intro: parse_json_wf)

text \<open>The text of a file in its normal form, read back: refused only when it is too long.\<close>

lemma read_written:
  assumes lc: "total_comparison lc" and n: "json_wf n" "member n ''$id'' = Some (JStr COLLECTION_FORMAT)"
    and written: "serialize_deterministic lc source = json_write ''  '' [] (sort_keys lc n)"
  shows "validate_collection (JStr (serialize_deterministic lc source)) =
    (if MAX_IMPORT_BYTES < length (serialize_deterministic lc source) then Inl [(''root'', IMPORT_TOO_LARGE)]
     else if payload_ok n then Inr (sort_keys lc n) else Inl (payload_problems (sort_keys lc n)))"
proof -
  have parsed: "parsed_input (JStr (serialize_deterministic lc source)) = Some (sort_keys lc n)"
    unfolding parsed_input_def written by (simp, rule parse_json_written [OF sorted_wf [OF n(1)]]) (simp add: json_space_def)
  moreover have "is_oversized_import (JStr (serialize_deterministic lc source)) \<longleftrightarrow> MAX_IMPORT_BYTES < length (serialize_deterministic lc source)"
    by (simp add: is_oversized_import_def)
  moreover obtain ms where ms: "sort_keys lc n = JObj ms" using member_is_obj [OF n(2)] by (auto simp: is_obj_def)
  moreover have "om_get ms ''$id'' = Some (JStr COLLECTION_FORMAT)"
    using sorted_member [OF lc, of n "''$id''"] n(2) ms by (simp add: member_def)
  moreover have "payload_problems (JObj ms) = [] \<longleftrightarrow> payload_ok n"
    using payload_sorted [OF lc, of n] ms by (simp add: payload_Nil)
  ultimately show ?thesis by (simp add: validate_collection_def)
qed

lemma sorted_docs_of:
  assumes "total_comparison lc"
  shows "length (docs_of (sort_keys lc n) k) = length (docs_of n k)"
proof (cases "member n k")
  case (Some w)
  then show ?thesis by (cases w) (simp_all add: docs_of_def sorted_member [OF assms])
qed (simp add: docs_of_def sorted_member [OF assms])

lemma written_normal:
  assumes lc: "total_comparison lc" and "canonical lc n" "member n ''$id'' \<noteq> None"
  shows "serialize_deterministic lc n = json_write ''  '' [] (sort_keys lc n)"
  using assms(3) canonical_normal [OF lc assms(2)] by (simp add: serialize_deterministic_def to_export_def)


end
