(* ===== verification/EnvironmentsFile.thy ===== *)
theory EnvironmentsFile
  imports CollectionTrip Variables
begin

text \<open>
  The environments' file, \<open>packages/core/src/import/wayfarer-environments.ts\<close>: what it holds of a protected variable, how
  it is written and what is checked of one.
\<close>

section \<open>A protected variable in a file\<close>

text \<open>\<open>PlainValues\<close>: the secrets' plaintexts by id.\<close>

datatype protected_values = StripValues | ReferenceValues "json option" | PlainValues "(string \<times> string) list"

text \<open>\<open>/\{\{\s*\$secret\.([a-z0-9-]+)\s*\}\}/i\<close> at the start of a text: the id, and what follows.\<close>

definition reference_at :: "string \<Rightarrow> (string \<times> string) option" where
  "reference_at s =
     (case after_ci ''{{'' s of
        None \<Rightarrow> None
      | Some a \<Rightarrow>
          (case after_ci ''$secret.'' (dropWhile js_space a) of
             None \<Rightarrow> None
           | Some b \<Rightarrow>
               (let (i, c) = span_of is_secret_id_char b
                in if i = [] then None else map_option (Pair i) (after_ci ''}}'' (dropWhile js_space c)))))"

lemma after_ci_shorter: "after_ci p s = Some r \<Longrightarrow> length r + length p = length s"
proof -
  assume r: "after_ci p s = Some r"
  then have "starts_with (to_lower s) (to_lower p)" "r = drop (length p) s" by (auto simp: after_ci_def split: if_splits)
  then have "length (to_lower p) \<le> length (to_lower s)" by (auto simp: starts_with_prefix dest: prefix_length_le)
  with \<open>r = _\<close> show ?thesis by simp
qed

lemma reference_at_shorter: "reference_at s = Some (i, r) \<Longrightarrow> length r < length s"
proof -
  assume "reference_at s = Some (i, r)"
  then obtain a b c where a: "after_ci ''{{'' s = Some a" and b: "after_ci ''$secret.'' (dropWhile js_space a) = Some b"
    and c: "span_of is_secret_id_char b = (i, c)" and r: "after_ci ''}}'' (dropWhile js_space c) = Some r"
    by (auto simp: reference_at_def split: option.splits prod.splits if_splits)
  have "length c \<le> length b" using span_of_length [of is_secret_id_char b] c by simp
  moreover have "length (dropWhile js_space c) \<le> length c" "length (dropWhile js_space a) \<le> length a" by (rule length_dropWhile_le)+
  moreover have "length a + 2 = length s" "length r + 2 = length (dropWhile js_space c)" "length b + 8 = length (dropWhile js_space a)"
    using after_ci_shorter [OF a] after_ci_shorter [OF b] after_ci_shorter [OF r] by simp_all
  ultimately show ?thesis by linarith
qed

function replace_references :: "(string \<Rightarrow> string) \<Rightarrow> string \<Rightarrow> string" where
  "replace_references f [] = []"
| "replace_references f (c # s) =
     (case reference_at (c # s) of
        Some (i, r) \<Rightarrow> f i @ replace_references f r
      | None \<Rightarrow> c # replace_references f s)"
  by pat_completeness auto
termination
  by (relation "measure (\<lambda>(f, s). length s)") (auto dest: reference_at_shorter)

fun exported_value :: "protected_values \<Rightarrow> string \<Rightarrow> string" where
  "exported_value (ReferenceValues vault) t = t"
| "exported_value StripValues t = replace_references (\<lambda>_. []) t"
| "exported_value (PlainValues plaintexts) t =
     replace_references (\<lambda>i. case om_get plaintexts i of Some p \<Rightarrow> p | None \<Rightarrow> []) t"

section \<open>The file\<close>

definition ensure_env_id :: "json \<Rightarrow> json" where
  "ensure_env_id env =
     (let i = field (member env ''meta'') ''id''
      in if \<not> truthy (member env ''id'') \<and> truthy i then set_field ''id'' (the i) env else env)"

definition prepare_environments :: "(string \<Rightarrow> string \<Rightarrow> bool) \<Rightarrow> json list \<Rightarrow> json list" where
  "prepare_environments lc envs = map ensure_env_id (sort_by_order lc envs)"

definition exported_row :: "protected_values \<Rightarrow> json \<Rightarrow> json" where
  "exported_row protected row = (case member row ''value'' of Some (JStr v) \<Rightarrow> set_field ''value'' (JStr (exported_value protected v)) row | _ \<Rightarrow> row)"

definition exported_environment :: "protected_values \<Rightarrow> json \<Rightarrow> json" where
  "exported_environment protected env = set_field ''vars'' (JArr (map (exported_row protected) (docs_of env ''vars''))) env"

definition serialize_environments :: "(string \<Rightarrow> string \<Rightarrow> bool) \<Rightarrow> json list \<Rightarrow> protected_values \<Rightarrow> string" where
  "serialize_environments lc envs protected =
     json_write ''  '' [] (sort_keys lc (present
       [(''$id'', text_field ENVIRONMENTS_FORMAT),
        (''environments'', Some (JArr (map (exported_environment protected) (prepare_environments lc envs)))),
        (''vault'', case protected of ReferenceValues (Some vault) \<Rightarrow> Some vault | _ \<Rightarrow> None)]))"

definition environment_problems :: "nat \<Rightarrow> json \<Rightarrow> string list" where
  "environment_problems i env =
     (let p = item_path ''environments'' i; said = (\<lambda>(path, message). path @ '': '' @ message)
      in if \<not> (case env of JObj _ \<Rightarrow> True | JArr _ \<Rightarrow> True | _ \<Rightarrow> False) then [p @ '' must be an object.'']
         else
           (if truthy (member env ''meta'') \<and> (case member env ''meta'' of Some (JObj _) \<Rightarrow> True | Some (JArr _) \<Rightarrow> True | _ \<Rightarrow> False) then []
            else [p @ ''.meta is missing.'']) @
           (if filled (member env ''name'') then [] else [p @ ''.name is required.'']) @
           (if is_number (member env ''order'') then [] else [p @ ''.order must be a number.'']) @
           map said (validate_rows (member env ''vars'') (p @ ''.vars'')))"

definition validate_environments :: "(string \<Rightarrow> string \<Rightarrow> bool) \<Rightarrow> json \<Rightarrow> string list + json list" where
  "validate_environments lc input =
     (if is_oversized_import input then Inl [IMPORT_TOO_LARGE]
      else case parsed_input input of
             None \<Rightarrow> Inl [''File does not contain a valid JSON payload.'']
           | Some v \<Rightarrow>
               if \<not> truthy (Some v) then Inl [''File does not contain a valid JSON payload.'']
               else if member v ''$id'' \<noteq> Some (JStr ENVIRONMENTS_FORMAT)
               then Inl [''Not a Wayfarer environments file: '' @ [CHR 0x22] @ ''$id'' @ [CHR 0x22] @ '' must be '' @ [CHR 0x22] @ ENVIRONMENTS_FORMAT @ [CHR 0x22] @ ''.'']
               else (case member v ''environments'' of
                       Some (JArr envs) \<Rightarrow>
                         (let problems = concat (map (\<lambda>(i, env). environment_problems i env) (enumerate 0 envs))
                          in if problems = [] then Inr (prepare_environments lc envs) else Inl problems)
                     | _ \<Rightarrow> Inl [''Expected an array of environments.'']))"

section \<open>What a file says of a secret\<close>

lemma after_brace: "after_ci ''{{'' (c # s) = Some r \<Longrightarrow> c = CHR ''{''"
proof -
  assume "after_ci ''{{'' (c # s) = Some r"
  then have "starts_with (to_lower (c # s)) (to_lower ''{{'')" by (auto simp: after_ci_def split: if_splits)
  then have l: "lower_char c = CHR ''{''" by (simp add: to_lower_def starts_with_prefix lower_char_def char_nat_def)
  show ?thesis
  proof (cases "(65 \<le> char_nat c \<and> char_nat c \<le> 90) \<or> (192 \<le> char_nat c \<and> char_nat c \<le> 222 \<and> char_nat c \<noteq> 215)")
    case True
    then have "char_nat (char_of (char_nat c + 32)) = char_nat c + 32" by (auto simp: char_nat_def of_char_of)
    moreover have "lower_char c = char_of (char_nat c + 32)" using True by (simp only: lower_char_def Let_def if_True)
    ultimately have "char_nat c + 32 = char_nat (lower_char c)" by simp
    also have "\<dots> = 123" by (simp only: l) (simp add: char_nat_def)
    finally have "char_nat c + 32 = 123" .
    with True show ?thesis by arith
  next
    case False
    then have "lower_char c = c" by (simp only: lower_char_def Let_def if_False)
    with l show ?thesis by simp
  qed
qed

lemma space_not_reference: "js_space c \<Longrightarrow> reference_at (c # s) = None"
proof -
  assume "js_space c"
  then have "c \<noteq> CHR ''{''" by (auto simp: js_space_def)
  then have "after_ci ''{{'' (c # s) = None" using after_brace by (cases "after_ci ''{{'' (c # s)") auto
  then show ?thesis by (simp add: reference_at_def)
qed

lemma replace_spaces: "list_all js_space ws \<Longrightarrow> replace_references f (ws @ r) = ws @ replace_references f r"
  by (induction ws) (auto simp: space_not_reference)

lemma replace_only_spaces: "list_all js_space ws \<Longrightarrow> replace_references f ws = ws"
  using replace_spaces [of ws f "[]"] by simp

lemma replace_reference: "reference_at s = Some (i, r) \<Longrightarrow> replace_references f s = f i @ replace_references f r"
  by (cases s) (auto simp: reference_at_def after_ci_def to_lower_def starts_with_prefix)

lemma reference_of_protected:
  assumes p: "protected_secret_id v = Some i"
  shows "\<exists>d. reference_at (dropWhile js_space v) = Some (i, d) \<and> list_all js_space d"
proof -
  let ?r = "dropWhile js_space v"
  obtain a where a: "after_ci ''{{'' ?r = Some a" using p by (cases "after_ci ''{{'' ?r") (simp_all add: protected_secret_id_def)
  obtain b where b: "after_ci ''$secret.'' (dropWhile js_space a) = Some b"
    using p a by (cases "after_ci ''$secret.'' (dropWhile js_space a)") (simp_all add: protected_secret_id_def)
  obtain j c where c: "span_of is_secret_id_char b = (j, c)" by (cases "span_of is_secret_id_char b")
  have j: "j \<noteq> []" using p a b c by (auto simp: protected_secret_id_def)
  obtain d where d: "after_ci ''}}'' (dropWhile js_space c) = Some d"
    using p a b c j by (cases "after_ci ''}}'' (dropWhile js_space c)") (simp_all add: protected_secret_id_def)
  have e: "dropWhile js_space d = []" "j = i" using p a b c j d by (simp_all add: protected_secret_id_def split: if_splits)
  from e(1) have "list_all js_space d" by (simp add: list_all_iff)
  with a b c j d e show ?thesis by (simp add: reference_at_def)
qed

lemma trim_between:
  assumes "list_all js_space ws" "list_all js_space d"
  shows "trim (ws @ x @ d) = trim x"
proof (cases "list_all js_space x")
  case True
  have n: "dropWhile js_space y = []" if "list_all js_space y" for y using that by (simp add: list_all_iff)
  have "list_all js_space (ws @ x @ d)" using True assms by simp
  with True show ?thesis by (simp only: trim_def n rev.simps dropWhile.simps)
next
  case False
  with assms show ?thesis by (auto simp: trim_def list_all_iff dropWhile_append)
qed

lemma replaced_protected:
  assumes "protected_secret_id v = Some i"
  shows "trim (replace_references f v) = trim (f i)"
proof -
  obtain d where d: "reference_at (dropWhile js_space v) = Some (i, d)" "list_all js_space d" using reference_of_protected [OF assms] by blast
  have w: "list_all js_space (takeWhile js_space v)" by (auto simp: list_all_iff dest: set_takeWhileD)
  have "replace_references f v = takeWhile js_space v @ replace_references f (dropWhile js_space v)"
    using replace_spaces [OF w, of f "dropWhile js_space v"] by simp
  also have "\<dots> = takeWhile js_space v @ f i @ d" by (simp add: replace_reference [OF d(1)] replace_only_spaces [OF d(2)])
  finally show ?thesis using w d(2) by (simp add: trim_between)
qed

text \<open>
  An environments' file holds of a protected variable, whose value is a reference to the vault and nothing else, no
  text where protected values are stripped, and the secret's own text where they are written out, or none where the vault
  gave none.
\<close>

theorem protected_value_in_file:
  assumes "protected_secret_id v = Some i"
  shows "trim (exported_value StripValues v) = [] \<and>
    trim (exported_value (PlainValues plaintexts) v) = trim (case om_get plaintexts i of Some p \<Rightarrow> p | None \<Rightarrow> [])"
  using replaced_protected [OF assms] by simp

lemma protected_value_in_file_witness:
  "trim (exported_value StripValues '' {{ $secret.s-2 }} '') = [] \<and>
   trim (exported_value (PlainValues [(''s-2'', ''hunter2'')]) '' {{ $secret.s-2 }} '') = ''hunter2''"
proof -
  have "protected_secret_id '' {{ $secret.s-2 }} '' = Some ''s-2''" by code_simp
  from protected_value_in_file [OF this, of "[(''s-2'', ''hunter2'')]"]
  have "trim (exported_value StripValues '' {{ $secret.s-2 }} '') = []"
    "trim (exported_value (PlainValues [(''s-2'', ''hunter2'')]) '' {{ $secret.s-2 }} '') = trim ''hunter2''"
    by (simp_all add: om_get_def)
  moreover have "trim ''hunter2'' = ''hunter2''" by code_simp
  ultimately show ?thesis by simp
qed

text \<open>The references are replaced in one pass: what stands around one may be a reference afterwards.\<close>

lemma stripped_value_is_a_reference:
  "protected_secret_id (exported_value StripValues ''{{$secret.{{$secret.a}}b}}'') = Some ''b''"
  by code_simp

end
