(* ===== verification/CollectionOwn.thy ===== *)
theory CollectionOwn
  imports CollectionTrip
begin

text \<open>
  The app's own trees as files: which of them an import takes back, and what an import as new makes of the places and the
  ids of a file.
\<close>

section \<open>A tree's file\<close>

lemma wf_present: "distinct (map fst es) \<Longrightarrow> \<forall>(k, e) \<in> set es. \<forall>v. e = Some v \<longrightarrow> json_wf v \<Longrightarrow> json_wf (present es)"
  by (fastforce simp: present_object distinct_present_fields elem_present_fields)

lemma wf_texts [simp]: "\<forall>v. text_field s = Some v \<longrightarrow> json_wf v" "\<forall>v. yes_field b = Some v \<longrightarrow> json_wf v"
  by (simp_all add: text_field_def yes_field_def)

lemma wf_number [simp]: "json_wf (number_json x)"
  by (simp add: number_json_def case_prod_unfold Let_def normal_norm_num)

lemma wf_rows [simp]: "json_wf (rows_object rs)"
  by (auto simp: rows_object_def row_object_def intro!: wf_present)

lemma wf_auth [simp]: "json_wf (auth_object a)"
  unfolding auth_object_def by (rule wf_present; cases a) simp_all

lemma wf_scripts [simp]: "json_wf (scripts_object s)"
  unfolding scripts_object_def by (rule wf_present) simp_all

lemma wf_part [simp]: "json_wf (part_object q)"
  by (cases q) (simp_all add: file_fields_def wf_present)

lemma wf_body [simp]: "json_wf (body_object b)"
proof -
  have "json_wf (binary_object y)" for y unfolding binary_object_def file_fields_def by (rule wf_present) auto
  moreover have "json_wf (raw_object r)" for r unfolding raw_object_def by (rule wf_present) auto
  moreover have "json_wf (graphql_object g)" for g unfolding graphql_object_def by (rule wf_present) auto
  ultimately show ?thesis unfolding body_object_def by (intro wf_present) auto
qed

lemma wf_assertion [simp]: "json_wf (assertion_object t)"
  unfolding assertion_object_def by (rule wf_present) auto

lemma wf_settings [simp]: "json_wf (settings_object s)"
  unfolding settings_object_def by (rule wf_present) auto

lemma wf_meta [simp]: "json_wf (meta_object m)"
  unfolding meta_object_def by (rule wf_present) auto

lemma wf_collection: "json_wf (present (collection_fields c))"
  unfolding collection_fields_def by (rule wf_present) auto

lemma wf_folder: "json_wf (folder_object f)"
  unfolding folder_object_def by (rule wf_present) auto

lemma wf_request: "json_wf (request_object r)"
  unfolding request_object_def place_fields_def content_fields_def by (rule wf_present) auto

lemma without_trust: "to_export (tree_object t) = present
    [(''$id'', text_field COLLECTION_FORMAT), (''meta'', Some (meta_object (col_meta (tree_collection t)))),
     (''collection'', Some (present (collection_fields (tree_collection t)))),
     (''folders'', Some (JArr (map folder_object (tree_folders t)))), (''requests'', Some (JArr (map request_object (tree_requests t))))]"
proof -
  let ?c = "tree_collection t"
  have keys: "fst m \<noteq> ''scriptTrust''" if "m \<in> set (present_fields (collection_fields ?c))" for m
    using that by (auto simp: present_fields_def collection_fields_def List.map_filter_def split: option.splits if_splits)
  have "present_fields (collection_fields ?c @ [(''scriptTrust'', Some x)]) = present_fields (collection_fields ?c) @ [(''scriptTrust'', x)]" for x
    by (simp add: present_fields_def List.map_filter_def)
  then have "collection_object ?c = JObj (present_fields (collection_fields ?c) @ [(''scriptTrust'', trust_object (col_script_trust ?c))])"
    by (simp add: collection_object_def present_object)
  moreover have "filter (\<lambda>m. fst m \<noteq> ''scriptTrust'') (present_fields (collection_fields ?c)) = present_fields (collection_fields ?c)"
    using keys by (intro filter_True) blast
  moreover have tree: "tree_object t = JObj (present_fields [(''collection'', Some (collection_object ?c)),
      (''folders'', Some (JArr (map folder_object (tree_folders t)))), (''requests'', Some (JArr (map request_object (tree_requests t))))])"
    by (simp add: tree_object_def present_object)
  moreover have "om_get (present_fields (collection_fields ?c)) ''meta'' = Some (meta_object (col_meta ?c))"
    by (simp add: om_get_fields collection_fields_def)
  ultimately show ?thesis
    unfolding to_export_def collection_of_def tree member_def by (simp add: om_get_fields present_object)
qed

text \<open>A document of the tree under the id of its \<open>meta\<close>.\<close>

lemma fields_present: "distinct (map fst es) \<Longrightarrow> fields (present es) k = Option.bind (map_of es k) (\<lambda>e. e)"
  by (simp add: fields_def member_def present_object om_get_fields)

lemma is_obj_present [simp]: "is_obj (present es)"
  by (simp add: is_obj_def present_object)

lemma meta_fields [simp]:
  "field (Some (meta_object m)) ''id'' = Some (JStr (meta_id m))" "is_number (field (Some (meta_object m)) ''createdAt'')"
  "is_number (field (Some (meta_object m)) ''updatedAt'')"
proof -
  have "is_number (Some (number_json x))" for x using number_json_sign [of x] by (auto simp: is_number_def)
  then show "field (Some (meta_object m)) ''id'' = Some (JStr (meta_id m))" "is_number (field (Some (meta_object m)) ''createdAt'')"
    "is_number (field (Some (meta_object m)) ''updatedAt'')"
    by (simp_all add: meta_object_def field_fields fields_present text_field_def)
qed

lemma ensured_object:
  assumes "distinct (map fst ((''id'', text_field i) # (''meta'', Some (meta_object m)) # es))"
  shows "ensure_doc_id (present ((''id'', text_field i) # (''meta'', Some (meta_object m)) # es)) =
    present ((''id'', text_field (meta_id m)) # (''meta'', Some (meta_object m)) # es)"
proof -
  have "member (present ((''id'', text_field i) # (''meta'', Some (meta_object m)) # es)) ''meta'' = Some (meta_object m)"
    using fields_present [OF assms, of "''meta''"] by (simp add: fields_def)
  then show ?thesis
    by (simp add: ensure_doc_id_def present_object present_fields_def List.map_filter_def text_field_def set_field_def)
qed

definition own_collection :: "collection \<Rightarrow> collection" where
  "own_collection c = c\<lparr>col_id := meta_id (col_meta c)\<rparr>"

definition own_folder :: "folder \<Rightarrow> folder" where
  "own_folder f = f\<lparr>fol_id := meta_id (fol_meta f)\<rparr>"

definition own_request :: "request_doc \<Rightarrow> request_doc" where
  "own_request r = r\<lparr>rd_id := meta_id (rd_meta r)\<rparr>"

lemma ensured_docs:
  "ensure_doc_id (present (collection_fields c)) = present (collection_fields (own_collection c))"
  "ensure_doc_id (folder_object f) = folder_object (own_folder f)"
  "ensure_doc_id (request_object r) = request_object (own_request r)"
  by (simp_all add: collection_fields_def folder_object_def request_object_def place_fields_def content_fields_def
      own_collection_def own_folder_def own_request_def ensured_object)

lemma text_scalars [simp]:
  "filled (Some (JStr s)) \<longleftrightarrow> trim s \<noteq> []" "\<not> no_text (Some (JStr s))" "\<not> no_text (map_option JStr d)"
  "is_number (Some (number_json x))" "or_else (Some (JStr s)) v = Some (JStr s)"
  using number_json_sign [of x] by (cases d; auto simp: filled_def no_text_def is_number_def or_else_def)+

lemma collection_accepted: "collection_ok (fields (present (collection_fields (own_collection c)))) \<longleftrightarrow> collection_sound c"
proof -
  have get: "fields (present (collection_fields (own_collection c))) k = Option.bind (map_of (collection_fields (own_collection c)) k) (\<lambda>e. e)" for k
    by (rule fields_present) (simp add: collection_fields_def)
  have route: "(\<exists>s \<in> set ROUTES. map_option (JStr \<circ> route_text) r = Some (JStr s)) \<or> map_option (JStr \<circ> route_text) r = None" for r
    by (cases r) auto
  show ?thesis
    unfolding collection_ok_def doc_ok_def inherits_ok_def get
    by (simp add: collection_fields_def own_collection_def text_field_def rows_accepted auth_accepted collection_sound_def)
       (use route [of "col_route c"] in auto)
qed

lemma folder_accepted: "folder_ok (fields (folder_object (own_folder f))) \<longleftrightarrow> folder_sound f"
  by (simp add: folder_ok_def doc_ok_def inherits_ok_def folder_object_def fields_present own_folder_def text_field_def rows_accepted
      auth_accepted folder_sound_def conj_left_commute)

lemma request_accepted: "request_ok (fields (request_object (own_request r))) \<longleftrightarrow> request_sound r"
proof -
  let ?es = "place_fields (own_request r) @ content_fields (rd_content r)"
  have es: "request_object (own_request r) = present ?es" by (simp add: request_object_def own_request_def)
  have distinct: "distinct (map fst ?es)" by (simp add: place_fields_def content_fields_def)
  have "content_ok (fields (present ?es)) \<longleftrightarrow> content_sound (rd_content r)"
    using content_accepted [OF distinct, of "rd_content r" "[]"]
    by (auto simp: request_content_Nil field_fields present_object)
  moreover have "fields (present ?es) k = Option.bind (map_of (place_fields (own_request r)) k) (\<lambda>e. e)"
    if "k \<in> fst ` set (place_fields (own_request r))" for k
    using that fields_present [OF distinct, of k] by (auto simp: map_add_def split: option.split dest: weak_map_of_SomeI)
  ultimately show ?thesis
    by (simp add: request_ok_def es doc_ok_def request_sound_def)
       (simp add: place_fields_def own_request_def text_field_def conj_left_commute)
qed

lemma tree_accepted: "payload_ok (normalize_export lc (to_export (tree_object t))) \<longleftrightarrow> tree_sound t"
proof -
  let ?v = "to_export (tree_object t)" and ?n = "normalize_export lc (to_export (tree_object t))"
  have obj: "is_obj ?v" by (simp add: without_trust)
  have get: "member ?v ''collection'' = Some (present (collection_fields (tree_collection t)))"
    "member ?v ''folders'' = Some (JArr (map folder_object (tree_folders t)))"
    "member ?v ''requests'' = Some (JArr (map request_object (tree_requests t)))"
    "member ?v ''meta'' = Some (meta_object (col_meta (tree_collection t)))"
    unfolding without_trust by (simp_all add: member_def present_object om_get_fields)
  have col: "collection_of ?n = present (collection_fields (own_collection (tree_collection t)))"
    by (simp add: collection_of_def member_normal [OF obj] get ensured_docs)
  have docs: "member ?n ''folders'' = Some (JArr (sort_by_order lc (map (folder_object \<circ> own_folder) (tree_folders t))))"
    "member ?n ''requests'' = Some (JArr (sort_by_order lc (map (request_object \<circ> own_request) (tree_requests t))))"
    "member ?n ''meta'' = Some (meta_object (col_meta (tree_collection t)))"
    by (simp_all add: member_normal [OF obj] docs_of_def get ensured_docs comp_def)
  have is_folder: "is_obj (folder_object f)" for f by (simp add: folder_object_def)
  have is_request: "is_obj (request_object r)" for r by (simp add: request_object_def)
  have "trim (meta_id (col_meta (tree_collection t))) \<noteq> []" if "collection_sound (tree_collection t)"
    using that by (simp add: collection_sound_def)
  then show ?thesis
    unfolding payload_ok_def col docs
    using is_folder is_request
    by (auto simp: sort_by_order_def collection_accepted folder_accepted request_accepted tree_sound_def list_all_iff)
qed

lemma own_export_read:
  assumes lc: "total_comparison lc"
  shows "(\<exists>v. validate_collection (JStr (serialize_deterministic lc (tree_object t))) = Inr v) \<longleftrightarrow>
    tree_sound t \<and> length (serialize_deterministic lc (tree_object t)) \<le> MAX_IMPORT_BYTES"
proof -
  let ?n = "normalize_export lc (to_export (tree_object t))"
  have "json_wf (to_export (tree_object t))"
    unfolding without_trust by (rule wf_present) (auto simp: wf_collection wf_folder wf_request)
  then have "json_wf ?n" by (rule wf_normal)
  moreover have "member ?n ''$id'' = Some (JStr COLLECTION_FORMAT)"
    by (simp add: member_normal without_trust) (simp add: member_def present_object om_get_fields text_field_def)
  ultimately have "validate_collection (JStr (serialize_deterministic lc (tree_object t))) =
      (if MAX_IMPORT_BYTES < length (serialize_deterministic lc (tree_object t)) then Inl [(''root'', IMPORT_TOO_LARGE)]
       else if payload_ok ?n then Inr (sort_keys lc ?n) else Inl (payload_problems (sort_keys lc ?n)))"
    by (rule read_written [OF lc]) (simp add: serialize_deterministic_def)
  then show ?thesis by (auto simp: tree_accepted not_less)
qed

text \<open>
  C14: the app takes its own export of a collection back exactly when each of its parts is one an import takes: among
  the rest, when no request has an empty address, which one just made has.
\<close>

theorem own_export_imports:
  assumes "total_comparison lc"
  shows "(\<exists>r. import_collection lc fresh now (JStr (serialize_deterministic lc (tree_object t))) duplicate = Inr r) \<longleftrightarrow>
    tree_sound t \<and> length (serialize_deterministic lc (tree_object t)) \<le> MAX_IMPORT_BYTES"
proof -
  have "(\<exists>r. import_collection lc fresh now input duplicate = Inr r) \<longleftrightarrow> (\<exists>v. validate_collection input = Inr v)" for input
    by (auto simp: import_collection_def Let_def case_prod_unfold split: sum.splits)
  then show ?thesis using own_export_read [OF assms] by blast
qed

text \<open>A collection with one request just made in it: the file the app writes of it is refused.\<close>

definition new_tree :: collection_tree where
  "new_tree =
     (let m = (\<lambda>i. \<lparr>meta_id = i, meta_created_at = 1, meta_updated_at = 1\<rparr>)
      in \<lparr>tree_collection = \<lparr>col_id = ''c'', col_meta = m ''c'', col_name = ''Shop'', col_description = None, col_order = 0, col_variables = [],
            col_auth = NoAuth, col_scripts = \<lparr>script_pre = [], script_post = []\<rparr>, col_route = None,
            col_script_trust = \<lparr>trusted = True, approved = None\<rparr>\<rparr>,
          tree_folders = [],
          tree_requests = [\<lparr>rd_id = ''r'', rd_meta = m ''r'', rd_collection_id = ''c'', rd_folder_id = None, rd_name = ''Login'',
            rd_description = None, rd_order = 0, rd_content = empty_request\<rparr>]\<rparr>)"

lemma all_equal: "total_comparison (\<lambda>_ _. True)"
  by unfold_locales simp_all

theorem own_export_imports_witness:
  "\<not> (\<exists>r. import_collection (\<lambda>_ _. True) (\<lambda>_. []) 0 (JStr (serialize_deterministic (\<lambda>_ _. True) (tree_object new_tree))) False = Inr r)"
  unfolding own_export_imports [OF all_equal]
  by (simp add: tree_sound_def new_tree_def request_sound_def content_sound_def empty_request_def)

definition sound_tree :: collection_tree where
  "sound_tree = new_tree\<lparr>tree_requests := map (\<lambda>r. r\<lparr>rd_content := (rd_content r)\<lparr>rc_url := ''https://a.example/''\<rparr>\<rparr>) (tree_requests new_tree)\<rparr>"

lemma sound_tree_sound: "tree_sound sound_tree"
  by (simp add: sound_tree_def new_tree_def tree_sound_def collection_sound_def request_sound_def content_sound_def empty_request_def
      empty_body_def body_sound_def is_http_method_def is_method_char_def trim_def js_space_def is_upper_def is_digit_def char_nat_def)


section \<open>An import as new\<close>

text \<open>A document's id as text, and the new ids of a file's folders.\<close>

definition text_id :: "json \<Rightarrow> string" where
  "text_id doc = (case field (member doc ''meta'') ''id'' of Some (JStr s) \<Rightarrow> s | _ \<Rightarrow> [])"

definition identified :: "json \<Rightarrow> bool" where
  "identified doc \<longleftrightarrow> is_obj doc \<and> text_id doc \<noteq> [] \<and> member doc ''id'' = Some (JStr (text_id doc)) \<and>
     (\<exists>m. member doc ''meta'' = Some (JObj m))"

lemma filled_text: "filled v \<Longrightarrow> \<exists>s. v = Some (JStr s) \<and> s \<noteq> []"
  by (auto simp: filled_def split: option.splits json.splits)

lemma ensured_identified:
  assumes "is_obj d" "doc_ok (fields d)"
  shows "identified (ensure_doc_id d)"
proof -
  have "filled (field (member d ''meta'') ''id'')" using assms(2) by (simp add: doc_ok_def fields_def)
  then obtain s where s: "field (member d ''meta'') ''id'' = Some (JStr s)" "s \<noteq> []" using filled_text by blast
  then obtain m where "member d ''meta'' = Some (JObj m)" by (cases "member d ''meta''") (auto simp: field_def split: json.splits)
  then show ?thesis using assms(1) s by (simp add: identified_def ensure_doc_id_def text_id_def member_set_field)
qed

lemma original_identified: "identified doc \<Longrightarrow> original_id doc = text_id doc"
  by (simp add: identified_def original_id_def doc_id_def or_else_def field_fields fields_def)

lemma touched_id:
  assumes "identified doc"
  shows "text_id (touched now i doc) = i" and "k \<notin> {''id'', ''meta''} \<Longrightarrow> member (touched now i doc) k = member doc k"
proof -
  obtain m where m: "member doc ''meta'' = Some (JObj m)" and obj: "is_obj doc" using assms by (auto simp: identified_def)
  show "text_id (touched now i doc) = i"
    by (simp add: touched_def text_id_def member_set_field obj field_or_null_def m field_fields fields_def is_obj_def [of "JObj m"])
  show "k \<notin> {''id'', ''meta''} \<Longrightarrow> member (touched now i doc) k = member doc k"
    by (auto simp: touched_def member_set_field obj)
qed

lemma set_field_identified: "identified doc \<Longrightarrow> k \<notin> {''id'', ''meta''} \<Longrightarrow> identified (set_field k x doc)"
  by (simp add: identified_def member_set_field text_id_def)

lemma remapped_identified: "identified doc \<Longrightarrow> k \<notin> {''id'', ''meta''} \<Longrightarrow> identified (remapped ids k doc)"
  by (simp add: remapped_def set_field_identified split: option.split)

lemma remapped_reference:
  assumes "is_obj doc" "member doc k = Some (JStr s)" "s \<noteq> []" "om_get ids s = Some i"
  shows "member (remapped ids k doc) k = Some (JStr i)"
  using assms by (simp add: remapped_def truthy_def field_or_null_def member_set_field)

abbreviation new_ids :: "(nat \<Rightarrow> string) \<Rightarrow> nat \<Rightarrow> json list \<Rightarrow> id_map \<Rightarrow> id_map" where
  "new_ids fresh n fs ids \<equiv> fold (\<lambda>(i, f) m. om_set (original_id f) (fresh i) m) (enumerate n fs) ids"

lemma new_id_other: "k \<notin> original_id ` set fs \<Longrightarrow> om_get (new_ids fresh n fs ids) k = om_get ids k"
  by (induction fs arbitrary: n ids) (simp_all add: om_get_set)

lemma new_id_at:
  assumes "distinct (map original_id fs)" "j < length fs"
  shows "om_get (new_ids fresh n fs ids) (original_id (fs ! j)) = Some (fresh (n + j))"
  using assms
proof (induction fs arbitrary: n ids j)
  case (Cons f fs)
  show ?case
  proof (cases j)
    case 0
    with Cons.prems show ?thesis by (simp add: new_id_other om_get_set)
  next
    case (Suc i)
    with Cons show ?thesis by simp
  qed
qed simp

lemma remap_requests_length [simp]: "length (fst (remap_requests fresh n now c ids rs)) = length rs"
  by (induction rs arbitrary: n ids) (simp_all add: case_prod_unfold Let_def)

text \<open>A request's new place: its folder's new id is the same for every request whose id no folder has.\<close>

lemma remap_requests_nth:
  assumes "\<forall>r \<in> set rs. identified r" "j < length rs"
  shows "\<exists>ids'. (\<forall>k. k \<notin> original_id ` set rs \<longrightarrow> om_get ids' k = om_get ids k) \<and>
    fst (remap_requests fresh n now c ids rs) ! j =
      touched now (fresh (n + j)) (remapped ids' ''folderId'' (set_field ''collectionId'' (JStr c) (rs ! j)))"
  using assms
proof (induction rs arbitrary: n ids j)
  case (Cons r rs)
  let ?ids = "om_set (original_id r) (fresh n) ids"
  show ?case
  proof (cases j)
    case 0
    then show ?thesis by (intro exI [of _ ?ids]) (simp add: om_get_set case_prod_unfold Let_def)
  next
    case (Suc i)
    then obtain ids' where "\<forall>k. k \<notin> original_id ` set rs \<longrightarrow> om_get ids' k = om_get ?ids k"
      "fst (remap_requests fresh (Suc n) now c ?ids rs) ! i =
        touched now (fresh (Suc n + i)) (remapped ids' ''folderId'' (set_field ''collectionId'' (JStr c) (rs ! i)))"
      using Cons.IH [where n = "Suc n" and ids = ?ids and j = i] Cons.prems by auto
    then show ?thesis using Suc by (intro exI [of _ ids']) (simp add: om_get_set case_prod_unfold Let_def)
  qed
qed simp

lemma placed_anew:
  assumes "identified doc" "k \<notin> {''id'', ''meta'', ''collectionId''}" "member doc k = Some (JStr s)" "s \<noteq> []" "om_get ids s = Some t"
  shows "member (touched now i (remapped ids k (set_field ''collectionId'' (JStr c) doc))) k = Some (JStr t)"
    and "text_id (touched now i (remapped ids k (set_field ''collectionId'' (JStr c) doc))) = i"
proof -
  have doc: "identified (set_field ''collectionId'' (JStr c) doc)" by (rule set_field_identified [OF assms(1)]) simp
  then have obj: "is_obj (set_field ''collectionId'' (JStr c) doc)" by (simp add: identified_def)
  have here: "member (set_field ''collectionId'' (JStr c) doc) k = Some (JStr s)"
    using assms(1-3) by (auto simp: identified_def member_set_field)
  have ready: "identified (remapped ids k (set_field ''collectionId'' (JStr c) doc))"
    by (rule remapped_identified [OF doc]) (use assms(2) in simp)
  show "member (touched now i (remapped ids k (set_field ''collectionId'' (JStr c) doc))) k = Some (JStr t)"
    using touched_id(2) [OF ready, of k] remapped_reference [OF obj here assms(4,5)] assms(2) by simp
  show "text_id (touched now i (remapped ids k (set_field ''collectionId'' (JStr c) doc))) = i" by (rule touched_id(1) [OF ready])
qed

lemma remapped_parts:
  assumes "is_obj v"
  shows "docs_of (fst (remap_identifiers fresh now v)) ''folders'' =
      map (remap_folder (new_ids fresh 1 (docs_of v ''folders'') (om_set (original_id (collection_of v)) (fresh 0) [])) now (fresh 0)) (docs_of v ''folders'')"
    and "docs_of (fst (remap_identifiers fresh now v)) ''requests'' =
      fst (remap_requests fresh (Suc (length (docs_of v ''folders''))) now (fresh 0)
        (new_ids fresh 1 (docs_of v ''folders'') (om_set (original_id (collection_of v)) (fresh 0) [])) (docs_of v ''requests''))"
  using assms by (simp_all add: remap_identifiers_def Let_def case_prod_unfold docs_of_def member_set_field)

lemma remapped_places:
  assumes "is_obj v" "\<forall>f \<in> set (docs_of v ''folders''). identified f" "\<forall>r \<in> set (docs_of v ''requests''). identified r"
    and apart: "distinct (map text_id (docs_of v ''folders''))" "text_id ` set (docs_of v ''folders'') \<inter> text_id ` set (docs_of v ''requests'') = {}"
    and here: "i < length (docs_of v ''folders'')" "j < length (docs_of v ''folders'')" "k < length (docs_of v ''requests'')"
    and inside: "member (docs_of v ''folders'' ! i) ''parentFolderId'' = Some (JStr (text_id (docs_of v ''folders'' ! j)))"
      "member (docs_of v ''requests'' ! k) ''folderId'' = Some (JStr (text_id (docs_of v ''folders'' ! j)))"
  shows "let new = fst (remap_identifiers fresh now v)
    in text_id (docs_of new ''folders'' ! i) = fresh (1 + i) \<and>
       text_id (docs_of new ''requests'' ! k) = fresh (1 + length (docs_of v ''folders'') + k) \<and>
       member (docs_of new ''folders'' ! i) ''parentFolderId'' = Some (JStr (fresh (1 + j))) \<and>
       member (docs_of new ''requests'' ! k) ''folderId'' = Some (JStr (fresh (1 + j)))"
proof -
  let ?fs = "docs_of v ''folders''" and ?rs = "docs_of v ''requests''"
  let ?ids = "new_ids fresh 1 ?fs (om_set (original_id (collection_of v)) (fresh 0) [])"
  have ids: "map original_id ?fs = map text_id ?fs" "original_id ` set ?rs = text_id ` set ?rs"
    using assms(2,3) original_identified by (auto simp: image_iff)
  have new: "om_get ?ids (text_id (?fs ! m)) = Some (fresh (1 + m))" if "m < length ?fs" for m
    using new_id_at [of ?fs m fresh 1] that apart(1) ids(1) assms(2) original_identified by (simp add: nth_mem)
  have parent: "text_id (?fs ! j) \<noteq> []" "identified (?fs ! i)" "identified (?rs ! k)" using assms(2,3) here by (auto simp: identified_def)
  have folder: "remap_folder ?ids now (fresh 0) (?fs ! i) =
      touched now (fresh (1 + i)) (remapped ?ids ''parentFolderId'' (set_field ''collectionId'' (JStr (fresh 0)) (?fs ! i)))"
    using new [OF here(1)] original_identified [OF parent(2)] by (simp add: remap_folder_def)
  have "text_id (?fs ! j) \<notin> original_id ` set ?rs" using apart(2) here(2) unfolding ids(2) by (auto dest: nth_mem)
  then obtain ids' where "om_get ids' (text_id (?fs ! j)) = Some (fresh (1 + j))"
    "fst (remap_requests fresh (Suc (length ?fs)) now (fresh 0) ?ids ?rs) ! k =
      touched now (fresh (Suc (length ?fs) + k)) (remapped ids' ''folderId'' (set_field ''collectionId'' (JStr (fresh 0)) (?rs ! k)))"
    using remap_requests_nth [OF assms(3) here(3), of ?ids fresh "Suc (length ?fs)" now "fresh 0"] new [OF here(2)] by auto
  then show ?thesis
    using placed_anew [OF parent(2) _ inside(1) parent(1) new [OF here(2)]] placed_anew [OF parent(3) _ inside(2) parent(1)] folder here
    by (simp add: Let_def remapped_parts [OF assms(1)])
qed

lemma normal_identified:
  assumes "is_obj v" "payload_ok v" "d \<in> set (docs_of (normalize_export lc v) k)" "k = ''folders'' \<or> k = ''requests''"
  shows "identified d"
proof -
  from assms(3,4) obtain e where d: "d = ensure_doc_id e" "e \<in> set (docs_of v k)"
    by (auto simp: docs_of_def [of "normalize_export lc v"] member_normal [OF assms(1)] sort_by_order_def)
  with assms(2,4) have "is_obj e \<and> doc_ok (fields e)"
    by (auto simp: payload_ok_def docs_of_def folder_ok_def request_ok_def)
  with d(1) show ?thesis by (simp add: ensured_identified)
qed


text \<open>Two folders, one in the other, and a request in the outer one, as the witness's file has them.\<close>

definition placed_folder :: "string \<Rightarrow> string option \<Rightarrow> folder" where
  "placed_folder i p = \<lparr>fol_id = i, fol_meta = \<lparr>meta_id = i, meta_created_at = 1, meta_updated_at = 1\<rparr>, fol_collection_id = ''c'', fol_parent = p,
     fol_name = ''Orders'', fol_description = None, fol_order = 0, fol_variables = [], fol_auth = Inherit,
     fol_scripts = \<lparr>script_pre = [], script_post = []\<rparr>\<rparr>"

definition placed_request :: request_doc where
  "placed_request = (hd (tree_requests sound_tree))\<lparr>rd_folder_id := Some ''g''\<rparr>"

definition placed_tree :: collection_tree where
  "placed_tree = sound_tree\<lparr>tree_folders := [placed_folder ''f'' (Some ''g''), placed_folder ''g'' None], tree_requests := [placed_request]\<rparr>"

lemma placed_own:
  "own_folder (placed_folder i p) = placed_folder i p" "own_request placed_request = placed_request"
  "own_collection (tree_collection placed_tree) = tree_collection placed_tree"
  by (simp_all add: own_folder_def placed_folder_def own_request_def placed_request_def own_collection_def placed_tree_def
      sound_tree_def new_tree_def Let_def)

lemma placed_sound: "collection_sound (tree_collection placed_tree)" "folder_sound (placed_folder ''f'' p)" "folder_sound (placed_folder ''g'' p)"
  "request_sound placed_request"
  using sound_tree_sound
  by (simp_all add: placed_tree_def tree_sound_def folder_sound_def placed_folder_def trim_def js_space_def char_nat_def)
     (simp add: request_sound_def placed_request_def sound_tree_def new_tree_def Let_def)

abbreviation placed_input :: json where
  "placed_input \<equiv> to_export (tree_object placed_tree)"

lemma placed_members:
  "collection_of placed_input = present (collection_fields (tree_collection placed_tree))"
  "member placed_input ''folders'' = Some (JArr [folder_object (placed_folder ''f'' (Some ''g'')), folder_object (placed_folder ''g'' None)])"
  "member placed_input ''requests'' = Some (JArr [request_object placed_request])"
  "member placed_input ''meta'' = Some (meta_object (col_meta (tree_collection placed_tree)))"
  "member placed_input ''$id'' = Some (JStr COLLECTION_FORMAT)"
  unfolding without_trust
  by (simp_all add: collection_of_def member_def present_object om_get_fields text_field_def) (simp_all add: placed_tree_def)

lemma placed_valid: "validate_collection placed_input = Inr placed_input" "is_obj placed_input" "payload_ok placed_input"
proof -
  have meta: "trim (meta_id (col_meta (tree_collection placed_tree))) \<noteq> []" using placed_sound(1) by (simp add: collection_sound_def)
  show obj: "is_obj placed_input" by (simp add: without_trust)
  have docs: "is_obj (folder_object f)" "is_obj (request_object r)" for f r by (simp_all add: folder_object_def request_object_def)
  show ok: "payload_ok placed_input"
    using collection_accepted [of "tree_collection placed_tree"] folder_accepted [of "placed_folder _ _"] request_accepted [of placed_request]
      placed_sound meta docs
    by (simp add: payload_ok_def placed_members placed_own)
  from obj obtain ms where "placed_input = JObj ms" unfolding is_obj_def by blast
  then show "validate_collection placed_input = Inr placed_input"
    unfolding validated using ok placed_members(5) by (simp add: is_oversized_import_def parsed_input_def is_obj_def)
qed

lemma sort_two: "fol_order f = fol_order g \<Longrightarrow>
    sort_by_order (\<lambda>_ _. True) [folder_object f, folder_object g] = [folder_object f, folder_object g]"
proof -
  assume same: "fol_order f = fol_order g"
  have "member (folder_object h) ''order'' = Some (number_json (fol_order h))" for h
    by (simp add: folder_object_def member_def present_object om_get_fields)
  with same have "order_number (folder_object f) = order_number (folder_object g)" by (simp add: order_number_def)
  then have "stands_before (\<lambda>_ _. True) (folder_object f) (folder_object g)" by (simp add: stands_before_def)
  then show ?thesis by (simp add: sort_by_order_def)
qed

lemma placed_docs:
  "docs_of (normalize_export (\<lambda>_ _. True) placed_input) ''folders'' = [folder_object (placed_folder ''f'' (Some ''g'')), folder_object (placed_folder ''g'' None)]"
  "docs_of (normalize_export (\<lambda>_ _. True) placed_input) ''requests'' = [request_object placed_request]"
proof -
  have "fol_order (placed_folder ''f'' (Some ''g'')) = fol_order (placed_folder ''g'' None)" by (simp add: placed_folder_def)
  note sort = sort_two [OF this]
  have "docs_of placed_input ''folders'' = [folder_object (placed_folder ''f'' (Some ''g'')), folder_object (placed_folder ''g'' None)]"
    "docs_of placed_input ''requests'' = [request_object placed_request]"
    by (simp_all add: docs_of_def placed_members)
  then show "docs_of (normalize_export (\<lambda>_ _. True) placed_input) ''folders'' = [folder_object (placed_folder ''f'' (Some ''g'')), folder_object (placed_folder ''g'' None)]"
    "docs_of (normalize_export (\<lambda>_ _. True) placed_input) ''requests'' = [request_object placed_request]"
    by (simp_all add: docs_of_def [of "normalize_export _ _"] member_normal [OF placed_valid(2)] ensured_docs placed_own sort, simp add: sort_by_order_def)
qed

lemma object_ids: "text_id (folder_object f) = meta_id (fol_meta f)" "text_id (request_object r) = meta_id (rd_meta r)"
  by (simp_all add: text_id_def folder_object_def request_object_def place_fields_def content_fields_def member_def present_object om_get_fields)

lemma object_places: "member (folder_object f) ''parentFolderId'' = map_option JStr (fol_parent f)"
  "member (request_object r) ''folderId'' = map_option JStr (rd_folder_id r)"
  by (simp_all add: folder_object_def request_object_def place_fields_def content_fields_def member_def present_object om_get_fields)


text \<open>A request that has a folder's id in the file takes the folder's place in the map before its own folder is looked up.\<close>

theorem shared_id_loses_folder:
  assumes "identified r" "member r ''folderId'' = Some (JStr (text_id r))"
  shows "member (hd (fst (remap_requests fresh n now c ids (r # rs)))) ''folderId'' = Some (JStr (fresh n))"
proof -
  have "om_get (om_set (original_id r) (fresh n) ids) (text_id r) = Some (fresh n)"
    by (simp add: om_get_set original_identified [OF assms(1)])
  moreover have "text_id r \<noteq> []" using assms(1) by (simp add: identified_def)
  ultimately show ?thesis
    using placed_anew(1) [OF assms(1) _ assms(2)] by (simp add: case_prod_unfold Let_def)
qed

end
