(* ===== verification/VaultCrypto.thy ===== *)
theory VaultCrypto
  imports JsValues Encoding
begin

text \<open>
  The vault's cryptography (\<open>packages/core/src/vault/vault-crypto.ts\<close>): a data key encrypts every secret, with the
  secret's id bound to it, and is itself wrapped under a key made of the passphrase. WebCrypto is a parameter
  (\<open>crypto\<close>), \<open>TextDecoder\<close> one of its fields; random bytes are arguments. \<open>aead_ok\<close> is what WebCrypto documents of AES-GCM: what was
  encrypted is read back under the same key, IV and bound data, and nothing else comes of what was wrapped.
\<close>

section \<open>What is stored\<close>

definition KDF_ITERATIONS :: nat where
  "KDF_ITERATIONS = 600000"

definition MAX_KDF_ITERATIONS :: nat where
  "MAX_KDF_ITERATIONS = 10000000"

definition SALT_BYTES :: nat where
  "SALT_BYTES = 16"

definition IV_BYTES :: nat where
  "IV_BYTES = 12"

definition VAULT_FILE_FORMAT :: string where
  "VAULT_FILE_FORMAT = ''wayfarer/vault''"

text \<open>The algorithm of \<open>kdf\<close> is always \<open>PBKDF2-SHA256\<close>.\<close>

record kdf =
  kdf_iterations :: nat
  kdf_salt :: string

record vault_record =
  vr_kdf :: kdf
  vr_wrapped_dek :: string

record secret_envelope =
  se_iv :: string
  se_ct :: string

record file_secret =
  fs_id :: string
  fs_name :: string
  fs_environment :: "string option"
  fs_envelope :: secret_envelope

record vault_file =
  vf_vault :: vault_record
  vf_secrets :: "file_secret list"

section \<open>WebCrypto\<close>

text \<open>What may be thrown: a \<open>DOMException\<close> by its name, or an error by its message.\<close>

datatype thrown = Dom string | Err string

record 'k crypto =
  cr_subtle :: bool
  cr_derive :: "byte list \<Rightarrow> byte list \<Rightarrow> nat \<Rightarrow> 'k"
  cr_wrap :: "'k \<Rightarrow> byte list \<Rightarrow> 'k \<Rightarrow> byte list"
  cr_unwrap :: "'k \<Rightarrow> byte list \<Rightarrow> byte list \<Rightarrow> string + 'k"
  cr_encrypt :: "'k \<Rightarrow> byte list \<Rightarrow> byte list \<Rightarrow> byte list \<Rightarrow> byte list"
  cr_decrypt :: "'k \<Rightarrow> byte list \<Rightarrow> byte list \<Rightarrow> byte list \<Rightarrow> string + byte list"
  cr_text :: "byte list \<Rightarrow> string"

definition aead_ok :: "'k crypto \<Rightarrow> bool" where
  "aead_ok cr \<longleftrightarrow>
     (\<forall>kek iv dek. cr_unwrap cr kek iv (cr_wrap cr kek iv dek) = Inr dek) \<and>
     (\<forall>kek iv kek' iv' dek dek'. cr_unwrap cr kek' iv' (cr_wrap cr kek iv dek) = Inr dek' \<longrightarrow> dek' = dek) \<and>
     (\<forall>key iv aad plain. cr_decrypt cr key iv aad (cr_encrypt cr key iv aad plain) = Inr plain \<and>
        cr_encrypt cr key iv aad plain \<noteq> []) \<and>
     (\<forall>text. cr_text cr (utf8 text) = text)"

lemma aead_okD:
  assumes "aead_ok cr"
  shows "cr_unwrap cr kek iv (cr_wrap cr kek iv dek) = Inr dek"
    and "cr_unwrap cr kek' iv' (cr_wrap cr kek iv dek) = Inr dek' \<Longrightarrow> dek' = dek"
    and "cr_decrypt cr key iv aad (cr_encrypt cr key iv aad plain) = Inr plain"
    and "cr_text cr (utf8 text) = text"
    and "cr_encrypt cr key iv aad plain \<noteq> []"
  using assms unfolding aead_ok_def by blast+

section \<open>The data key\<close>

definition NOT_SECURE :: string where
  "NOT_SECURE = ''The vault needs a secure page: open Wayfarer over https or on localhost.''"

text \<open>\<open>fromBase64Url\<close>: what \<open>atob\<close> refuses is thrown.\<close>

definition bytes_of :: "string \<Rightarrow> thrown + byte list" where
  "bytes_of text = (case from_base64url text of None \<Rightarrow> Inl (Dom ''InvalidCharacterError'') | Some bs \<Rightarrow> Inr bs)"

definition derive_kek :: "'k crypto \<Rightarrow> string \<Rightarrow> kdf \<Rightarrow> thrown + 'k" where
  "derive_kek cr passphrase kdf =
     (if \<not> cr_subtle cr then Inl (Err NOT_SECURE)
      else case bytes_of (kdf_salt kdf) of
             Inl e \<Rightarrow> Inl e
           | Inr salt \<Rightarrow> Inr (cr_derive cr (utf8 passphrase) salt (kdf_iterations kdf)))"

definition wrap_dek :: "'k crypto \<Rightarrow> byte list \<Rightarrow> byte list \<Rightarrow> 'k \<Rightarrow> string \<Rightarrow> thrown + vault_record" where
  "wrap_dek cr salt iv dek passphrase =
     (let kdf = \<lparr>kdf_iterations = KDF_ITERATIONS, kdf_salt = base64url salt\<rparr>
      in case derive_kek cr passphrase kdf of
           Inl e \<Rightarrow> Inl e
         | Inr kek \<Rightarrow> Inr \<lparr>vr_kdf = kdf, vr_wrapped_dek = base64url (iv @ cr_wrap cr kek iv dek)\<rparr>)"

text \<open>The data key, or \<open>None\<close> when the passphrase is not the vault's. Any other error is thrown on.\<close>

definition unwrap_dek :: "'k crypto \<Rightarrow> vault_record \<Rightarrow> string \<Rightarrow> thrown + 'k option" where
  "unwrap_dek cr vault passphrase =
     (case bytes_of (vr_wrapped_dek vault) of
        Inl e \<Rightarrow> Inl e
      | Inr bytes \<Rightarrow>
          (case derive_kek cr passphrase (vr_kdf vault) of
             Inl e \<Rightarrow> Inl e
           | Inr kek \<Rightarrow>
               (case cr_unwrap cr kek (take IV_BYTES bytes) (drop IV_BYTES bytes) of
                  Inr dek \<Rightarrow> Inr (Some dek)
                | Inl name \<Rightarrow> if name = ''OperationError'' then Inr None else Inl (Dom name))))"

text \<open>\<open>fresh\<close> is the key \<open>generateKey\<close> gives.\<close>

definition create_vault :: "'k crypto \<Rightarrow> 'k \<Rightarrow> byte list \<Rightarrow> byte list \<Rightarrow> string \<Rightarrow> thrown + (vault_record \<times> 'k)" where
  "create_vault cr fresh salt iv passphrase =
     (if \<not> cr_subtle cr then Inl (Err NOT_SECURE)
      else case wrap_dek cr salt iv fresh passphrase of
             Inl e \<Rightarrow> Inl e
           | Inr vault \<Rightarrow>
               (case unwrap_dek cr vault passphrase of
                  Inl e \<Rightarrow> Inl e
                | Inr None \<Rightarrow> Inl (Err ''The new vault could not be opened with its own passphrase.'')
                | Inr (Some dek) \<Rightarrow> Inr (vault, dek)))"

definition rewrap_dek ::
    "'k crypto \<Rightarrow> byte list \<Rightarrow> byte list \<Rightarrow> vault_record \<Rightarrow> string \<Rightarrow> string \<Rightarrow> thrown + vault_record option" where
  "rewrap_dek cr salt iv vault current next_passphrase =
     (case unwrap_dek cr vault current of
        Inl e \<Rightarrow> Inl e
      | Inr None \<Rightarrow> Inr None
      | Inr (Some dek) \<Rightarrow>
          (case wrap_dek cr salt iv dek next_passphrase of Inl e \<Rightarrow> Inl e | Inr r \<Rightarrow> Inr (Some r)))"

definition encrypt_secret :: "'k crypto \<Rightarrow> byte list \<Rightarrow> 'k \<Rightarrow> string \<Rightarrow> string \<Rightarrow> secret_envelope" where
  "encrypt_secret cr iv dek i plaintext =
     \<lparr>se_iv = base64url iv, se_ct = base64url (cr_encrypt cr dek iv (utf8 i) (utf8 plaintext))\<rparr>"

definition decrypt_secret :: "'k crypto \<Rightarrow> 'k \<Rightarrow> string \<Rightarrow> secret_envelope \<Rightarrow> thrown + string" where
  "decrypt_secret cr dek i envelope =
     (case bytes_of (se_iv envelope) of
        Inl e \<Rightarrow> Inl e
      | Inr iv \<Rightarrow>
          (case bytes_of (se_ct envelope) of
             Inl e \<Rightarrow> Inl e
           | Inr ct \<Rightarrow>
               (case cr_decrypt cr dek iv (utf8 i) ct of
                  Inl name \<Rightarrow> Inl (Dom name)
                | Inr plain \<Rightarrow> Inr (cr_text cr plain))))"

lemma bytes_of_base64url [simp]: "bytes_of (base64url bs) = Inr bs"
  by (simp add: bytes_of_def)

lemma decrypt_encrypt: "aead_ok cr \<Longrightarrow> decrypt_secret cr dek i (encrypt_secret cr iv dek i plaintext) = Inr plaintext"
  by (simp add: decrypt_secret_def encrypt_secret_def aead_okD)

text \<open>A record that holds this data key, under whatever passphrase.\<close>

definition wraps :: "'k crypto \<Rightarrow> vault_record \<Rightarrow> 'k \<Rightarrow> bool" where
  "wraps cr vault dek \<longleftrightarrow>
     (\<exists>kek iv. length iv = IV_BYTES \<and> vr_wrapped_dek vault = base64url (iv @ cr_wrap cr kek iv dek))"

lemma wrap_wraps:
  assumes "length iv = IV_BYTES" "wrap_dek cr salt iv dek p = Inr vault"
  shows "wraps cr vault dek"
proof -
  from assms(2) obtain kek where "vr_wrapped_dek vault = base64url (iv @ cr_wrap cr kek iv dek)"
    by (auto simp: wrap_dek_def Let_def split: sum.splits)
  with assms(1) show ?thesis unfolding wraps_def by blast
qed

lemma unwrap_wraps: "aead_ok cr \<Longrightarrow> wraps cr vault dek \<Longrightarrow> unwrap_dek cr vault p = Inr (Some dek') \<Longrightarrow> dek' = dek"
  by (auto simp: unwrap_dek_def wraps_def split: sum.splits if_splits dest: aead_okD(2))

lemma unwrap_wrapped:
  assumes "aead_ok cr" "length iv = IV_BYTES" "wrap_dek cr salt iv dek p = Inr vault"
  shows "unwrap_dek cr vault p = Inr (Some dek)"
  using assms(2,3) by (auto simp: wrap_dek_def unwrap_dek_def Let_def aead_okD [OF assms(1)] split: sum.splits)

lemma create_wraps:
  assumes "aead_ok cr" "length iv = IV_BYTES" "create_vault cr fresh salt iv p = Inr (vault, dek)"
  shows "dek = fresh \<and> wraps cr vault fresh \<and> unwrap_dek cr vault p = Inr (Some fresh)"
  using assms(3) wrap_wraps [OF assms(2)] unwrap_wrapped [OF assms(1,2)]
  by (auto simp: create_vault_def split: if_splits sum.splits option.splits)

lemma create_works:
  assumes "aead_ok cr" "cr_subtle cr" "length iv = IV_BYTES"
  shows "\<exists>vault. create_vault cr fresh salt iv p = Inr (vault, fresh) \<and> unwrap_dek cr vault p = Inr (Some fresh)"
proof -
  obtain vault where wrapped: "wrap_dek cr salt iv fresh p = Inr vault"
    using assms(2) by (simp add: wrap_dek_def derive_kek_def Let_def)
  with unwrap_wrapped [OF assms(1,3) wrapped] assms(2) show ?thesis by (simp add: create_vault_def)
qed

lemma rewrap_wraps:
  assumes "aead_ok cr" "length iv = IV_BYTES" "wraps cr vault dek" "rewrap_dek cr salt iv vault p q = Inr (Some vault')"
  shows "wraps cr vault' dek \<and> unwrap_dek cr vault' q = Inr (Some dek)"
  using assms(4) wrap_wraps [OF assms(2)] unwrap_wrapped [OF assms(1,2)] unwrap_wraps [OF assms(1,3)]
  by (auto simp: rewrap_dek_def split: sum.splits option.splits)

section \<open>The check of a vault file\<close>

type_synonym issue = "string \<times> string"

definition is_object :: "json option \<Rightarrow> bool" where
  "is_object v \<longleftrightarrow> (case v of Some (JObj _) \<Rightarrow> True | Some (JArr _) \<Rightarrow> True | _ \<Rightarrow> False)"

definition field_of :: "json option \<Rightarrow> string \<Rightarrow> json option" where
  "field_of v k = Option.bind v (\<lambda>x. member x k)"

definition base64url_char :: "char \<Rightarrow> bool" where
  "base64url_char c \<longleftrightarrow> is_word c \<or> c = CHR ''-''"

definition is_base64url :: "json option \<Rightarrow> bool" where
  "is_base64url v \<longleftrightarrow> (case v of Some (JStr s) \<Rightarrow> s \<noteq> [] \<and> list_all base64url_char s | _ \<Rightarrow> False)"

definition is_iterations :: "json option \<Rightarrow> bool" where
  "is_iterations v \<longleftrightarrow>
     (case v of
        Some (JNum d) \<Rightarrow> scale d = 0 \<and> int KDF_ITERATIONS \<le> mantissa d \<and> mantissa d \<le> int MAX_KDF_ITERATIONS
      | _ \<Rightarrow> False)"

definition MUST_BE_OBJECT :: string where
  "MUST_BE_OBJECT = ''Value must be an object.''"

definition MUST_BE_BASE64URL :: string where
  "MUST_BE_BASE64URL = ''Value must be base64url text.''"

definition MUST_BE_STRING :: string where
  "MUST_BE_STRING = ''Value must be a string.''"

definition kdf_issues :: "json option \<Rightarrow> issue list" where
  "kdf_issues kdf =
     (if \<not> is_object kdf then [(''vault.kdf'', MUST_BE_OBJECT)]
      else
        (if field_of kdf ''alg'' \<noteq> Some (JStr ''PBKDF2-SHA256'')
         then [(''vault.kdf.alg'', ''Value must be '' @ CHR 0x22 # ''PBKDF2-SHA256'' @ CHR 0x22 # ''.'')] else []) @
        (if \<not> is_iterations (field_of kdf ''iterations'')
         then [(''vault.kdf.iterations'', ''Value must be a whole number from '' @ show_nat KDF_ITERATIONS @ '' to '' @
             show_nat MAX_KDF_ITERATIONS @ ''.'')] else []) @
        (if \<not> is_base64url (field_of kdf ''salt'') then [(''vault.kdf.salt'', MUST_BE_BASE64URL)] else []))"

definition vault_issues :: "json option \<Rightarrow> issue list" where
  "vault_issues vault =
     (if \<not> is_object vault then [(''vault'', MUST_BE_OBJECT)]
      else kdf_issues (field_of vault ''kdf'') @
        (if \<not> is_base64url (field_of vault ''wrappedDek'') then [(''vault.wrappedDek'', MUST_BE_BASE64URL)] else []))"

definition envelope_issues :: "string \<Rightarrow> json option \<Rightarrow> issue list" where
  "envelope_issues path envelope =
     (if \<not> is_object envelope then [(path, MUST_BE_OBJECT)]
      else (if \<not> is_base64url (field_of envelope ''iv'') then [(path @ ''.iv'', MUST_BE_BASE64URL)] else []) @
        (if \<not> is_base64url (field_of envelope ''ct'') then [(path @ ''.ct'', MUST_BE_BASE64URL)] else []))"

definition is_string :: "json option \<Rightarrow> bool" where
  "is_string v \<longleftrightarrow> (case v of Some (JStr _) \<Rightarrow> True | _ \<Rightarrow> False)"

definition secret_issues :: "nat \<Rightarrow> json \<Rightarrow> issue list" where
  "secret_issues index secret =
     (let path = ''secrets['' @ show_nat index @ '']''; field = field_of (Some secret)
      in if \<not> is_object (Some secret) then [(path, MUST_BE_OBJECT)]
         else
           (if \<not> is_string (field ''id'') \<or> field ''id'' = Some (JStr []) then [(path @ ''.id'', ''Value must be a non-empty string.'')] else []) @
           (if \<not> is_string (field ''name'') then [(path @ ''.name'', MUST_BE_STRING)] else []) @
           (if field ''environmentId'' \<noteq> None \<and> \<not> is_string (field ''environmentId'')
            then [(path @ ''.environmentId'', MUST_BE_STRING)] else []) @
           envelope_issues (path @ ''.envelope'') (field ''envelope''))"

definition validate_vault_file :: "json \<Rightarrow> issue list" where
  "validate_vault_file v =
     (if \<not> is_object (Some v) then [(''$'', MUST_BE_OBJECT)]
      else if member v ''$id'' \<noteq> Some (JStr VAULT_FILE_FORMAT)
      then [(''$id'', ''Not a Wayfarer vault file: '' @ CHR 0x22 # ''$id'' @ CHR 0x22 # '' must be '' @ CHR 0x22 # VAULT_FILE_FORMAT @ CHR 0x22 # ''.'')]
      else vault_issues (member v ''vault'') @
        (case member v ''secrets'' of
           Some (JArr secrets) \<Rightarrow> concat (map (\<lambda>(index, secret). secret_issues index secret) (enumerate 0 secrets))
         | _ \<Rightarrow> [(''secrets'', ''Value must be an array.'')]))"

section \<open>A vault file as JSON\<close>

definition envelope_json :: "secret_envelope \<Rightarrow> json" where
  "envelope_json e = JObj [(''iv'', JStr (se_iv e)), (''ct'', JStr (se_ct e))]"

definition file_secret_json :: "file_secret \<Rightarrow> json" where
  "file_secret_json s =
     JObj ([(''id'', JStr (fs_id s)), (''name'', JStr (fs_name s))] @
       (case fs_environment s of None \<Rightarrow> [] | Some e \<Rightarrow> [(''environmentId'', JStr e)]) @
       [(''envelope'', envelope_json (fs_envelope s))])"

definition vault_record_json :: "vault_record \<Rightarrow> json" where
  "vault_record_json r =
     JObj [(''kdf'', JObj [(''alg'', JStr ''PBKDF2-SHA256''), (''iterations'', JNum (num_of_int (int (kdf_iterations (vr_kdf r))))),
         (''salt'', JStr (kdf_salt (vr_kdf r)))]),
       (''wrappedDek'', JStr (vr_wrapped_dek r))]"

definition vault_file_json :: "vault_file \<Rightarrow> json" where
  "vault_file_json f =
     JObj [(''$id'', JStr VAULT_FILE_FORMAT), (''vault'', vault_record_json (vf_vault f)),
       (''secrets'', JArr (map file_secret_json (vf_secrets f)))]"

text \<open>What a checked file's content is used as.\<close>

definition text_at :: "json option \<Rightarrow> string \<Rightarrow> string" where
  "text_at v k = (case field_of v k of Some (JStr s) \<Rightarrow> s | _ \<Rightarrow> [])"

definition file_secret_of :: "json \<Rightarrow> file_secret" where
  "file_secret_of v =
     \<lparr>fs_id = text_at (Some v) ''id'', fs_name = text_at (Some v) ''name'',
      fs_environment = (case member v ''environmentId'' of Some (JStr s) \<Rightarrow> Some s | _ \<Rightarrow> None),
      fs_envelope = \<lparr>se_iv = text_at (member v ''envelope'') ''iv'', se_ct = text_at (member v ''envelope'') ''ct''\<rparr>\<rparr>"

definition vault_file_of :: "json \<Rightarrow> vault_file" where
  "vault_file_of v =
     (let vault = member v ''vault''; kdf = field_of vault ''kdf''
      in \<lparr>vf_vault = \<lparr>vr_kdf = \<lparr>kdf_iterations = (case field_of kdf ''iterations'' of Some (JNum d) \<Rightarrow> nat (mantissa d) | _ \<Rightarrow> 0),
               kdf_salt = text_at kdf ''salt''\<rparr>, vr_wrapped_dek = text_at vault ''wrappedDek''\<rparr>,
          vf_secrets = (case member v ''secrets'' of Some (JArr xs) \<Rightarrow> map file_secret_of xs | _ \<Rightarrow> [])\<rparr>)"

definition base64url_text :: "string \<Rightarrow> bool" where
  "base64url_text s \<longleftrightarrow> is_base64url (Some (JStr s))"

definition vault_sound :: "vault_record \<Rightarrow> bool" where
  "vault_sound r \<longleftrightarrow>
     KDF_ITERATIONS \<le> kdf_iterations (vr_kdf r) \<and> kdf_iterations (vr_kdf r) \<le> MAX_KDF_ITERATIONS \<and>
     base64url_text (kdf_salt (vr_kdf r)) \<and> base64url_text (vr_wrapped_dek r)"

definition envelope_sound :: "secret_envelope \<Rightarrow> bool" where
  "envelope_sound e \<longleftrightarrow> base64url_text (se_iv e) \<and> base64url_text (se_ct e)"

lemma om_get_Cons: "om_get ((k, v) # m) k' = (if k = k' then Some v else om_get m k')"
  by (simp add: om_get_def)

lemma om_get_Nil: "om_get [] k = None"
  by (simp add: om_get_def)

lemma om_get_app: "om_get (m @ m') k = (case om_get m k of None \<Rightarrow> om_get m' k | Some v \<Rightarrow> Some v)"
  by (induction m) (auto simp: om_get_def)

lemmas reads = field_of_def member_def om_get_Cons om_get_Nil is_object_def is_string_def text_at_def

lemma file_secret_read: "file_secret_of (file_secret_json s) = s"
  by (cases "fs_environment s") (simp_all add: file_secret_of_def file_secret_json_def envelope_json_def reads)

lemma vault_file_read: "vault_file_of (vault_file_json f) = f"
  by (simp add: vault_file_of_def vault_file_json_def vault_record_json_def reads file_secret_read num_of_int_def comp_def)

lemma secret_accepted:
  "fs_id s \<noteq> [] \<Longrightarrow> envelope_sound (fs_envelope s) \<Longrightarrow> secret_issues n (file_secret_json s) = []"
  by (cases "fs_environment s")
    (simp_all add: secret_issues_def file_secret_json_def envelope_json_def envelope_issues_def envelope_sound_def
      base64url_text_def reads Let_def)

text \<open>What the app writes, its check accepts.\<close>

lemma secrets_accepted:
  "\<forall>s \<in> set ss. fs_id s \<noteq> [] \<and> envelope_sound (fs_envelope s) \<Longrightarrow>
   concat (map (\<lambda>(index, secret). secret_issues index secret) (enumerate n (map file_secret_json ss))) = []"
  by (induction ss arbitrary: n) (simp_all add: secret_accepted)

lemma vault_file_accepted:
  assumes "vault_sound (vf_vault f)" "\<forall>s \<in> set (vf_secrets f). fs_id s \<noteq> [] \<and> envelope_sound (fs_envelope s)"
  shows "validate_vault_file (vault_file_json f) = []"
  using assms(1) secrets_accepted [OF assms(2)]
  by (simp add: validate_vault_file_def vault_file_json_def vault_record_json_def vault_issues_def kdf_issues_def reads
      vault_sound_def base64url_text_def is_iterations_def num_of_int_def del: concat_eq_Nil_conv)

lemma length_quoted: "length (json_quoted s) \<le> 6 * length s + 2"
proof -
  have "length (json_char c) \<le> 6" for c by (simp add: json_char_def unicode_escape_def)
  then have "length (json_inner s) \<le> 6 * length s"
    by (induction s) (auto simp: json_inner_def add_le_mono)
  then show ?thesis by (simp add: json_quoted_def)
qed

lemma vault_file_wf: "json_wf (vault_file_json f)"
  by (auto simp: vault_file_json_def vault_record_json_def file_secret_json_def envelope_json_def normal_num_def num_of_int_def
      split: option.splits)

lemma base64url_chars: "c \<in> set (base64url bs) \<Longrightarrow> base64url_char c"
proof -
  have "list_all (\<lambda>c. base64url_char (url_char c)) b64_alphabet" by code_simp
  then show "c \<in> set (base64url bs) \<Longrightarrow> base64url_char c"
    using set_base64_bare [of bs] by (auto simp: base64url_def list_all_iff)
qed

lemma base64url_written: "bs \<noteq> [] \<Longrightarrow> base64url_text (base64url bs)"
proof -
  assume "bs \<noteq> []"
  then have "base64url bs \<noteq> []" by (cases bs rule: sextets.cases) (simp_all add: base64url_def base64_bare_def)
  then show ?thesis by (auto simp: base64url_text_def is_base64url_def list_all_iff base64url_chars)
qed

lemma wrap_sound: "salt \<noteq> [] \<Longrightarrow> length iv = IV_BYTES \<Longrightarrow> wrap_dek cr salt iv dek p = Inr vault \<Longrightarrow> vault_sound vault"
  by (cases iv) (auto simp: wrap_dek_def Let_def vault_sound_def KDF_ITERATIONS_def MAX_KDF_ITERATIONS_def IV_BYTES_def
      intro!: base64url_written split: sum.splits)

lemma encrypt_sound:
  "aead_ok cr \<Longrightarrow> length iv = IV_BYTES \<Longrightarrow> envelope_sound (encrypt_secret cr iv dek i p)"
  by (cases iv) (auto simp: envelope_sound_def encrypt_secret_def IV_BYTES_def intro!: base64url_written dest: aead_okD(5))

end
