(* ===== verification/WorkspaceFile.thy ===== *)
theory WorkspaceFile
  imports EnvironmentsFile CollectionOwn ExchangeRecord VaultCrypto
begin

text \<open>
  A whole workspace as one file, \<open>packages/core/src/import/workspace.ts\<close> and \<open>src/app/services/workspace-backup.ts\<close>:
  what is checked of it, how it is written and read back, and when the reminder to make one is due. The file is JSON
  here; the stores it comes from and goes to are the records it holds.
\<close>

section \<open>What is checked\<close>

definition WORKSPACE_FORMAT :: string where
  "WORKSPACE_FORMAT = ''wayfarer/workspace''"

definition META_STATE_KEY :: string where
  "META_STATE_KEY = ''state''"

definition META_GLOBALS_KEY :: string where
  "META_GLOBALS_KEY = ''globals''"

definition META_VAULT_KEY :: string where
  "META_VAULT_KEY = ''vault''"

definition plain_object :: "json option \<Rightarrow> bool" where
  "plain_object v \<longleftrightarrow> (case v of Some (JObj _) \<Rightarrow> True | _ \<Rightarrow> False)"

text \<open>\<open>===\<close> between values that were parsed: an object or an array is no other one.\<close>

fun same_value :: "json option \<Rightarrow> json option \<Rightarrow> bool" where
  "same_value (Some (JObj _)) _ = False"
| "same_value (Some (JArr _)) _ = False"
| "same_value (Some (JNum a)) (Some (JNum b)) = (\<not> num_less a b \<and> \<not> num_less b a)"
| "same_value a b = (a = b)"

text \<open>\<open>String(value)\<close>.\<close>

definition any_string :: "json option \<Rightarrow> string" where
  "any_string v = (case v of None \<Rightarrow> ''undefined'' | Some v \<Rightarrow> js_string v)"

definition is_text_value :: "json option \<Rightarrow> bool" where
  "is_text_value v \<longleftrightarrow> (case v of Some (JStr _) \<Rightarrow> True | _ \<Rightarrow> False)"

text \<open>The records of a store, or what is wrong with it.\<close>

definition store_records :: "json \<Rightarrow> string \<Rightarrow> string list + json list" where
  "store_records stores name =
     (case member stores name of
        Some (JArr records) \<Rightarrow>
          if list_all (\<lambda>r. plain_object (Some r)) records then Inr records
          else Inl [''stores.'' @ name @ '': Value must be an array of objects.'']
      | _ \<Rightarrow> Inl [''stores.'' @ name @ '': Value must be an array of objects.''])"

definition records_of :: "json \<Rightarrow> string \<Rightarrow> json list" where
  "records_of stores name = (case store_records stores name of Inr records \<Rightarrow> records | Inl _ \<Rightarrow> [])"

definition store_problems :: "json \<Rightarrow> string \<Rightarrow> string list" where
  "store_problems stores name = (case store_records stores name of Inr _ \<Rightarrow> [] | Inl problems \<Rightarrow> problems)"

definition KEPT_STORES :: "string list" where
  "KEPT_STORES = [''collections'', ''folders'', ''requests'', ''environments'', ''secrets'', ''meta'']"

definition record_id :: "json \<Rightarrow> json option" where
  "record_id doc = (if plain_object (member doc ''meta'') then field (member doc ''meta'') ''id'' else None)"

text \<open>A collection with its folders and requests, as a collection file holds them.\<close>

definition belongs :: "json \<Rightarrow> json \<Rightarrow> bool" where
  "belongs collection doc \<longleftrightarrow> same_value (member doc ''collectionId'') (record_id collection)"

definition collection_part :: "json \<Rightarrow> json list \<Rightarrow> json list \<Rightarrow> json" where
  "collection_part collection folders requests =
     present [(''$id'', text_field COLLECTION_FORMAT), (''meta'', member collection ''meta''), (''collection'', Some collection),
       (''folders'', Some (JArr (filter (belongs collection) folders))),
       (''requests'', Some (JArr (filter (belongs collection) requests)))]"

definition named_collection :: "json \<Rightarrow> string" where
  "named_collection collection = ''collection '' @ [CHR 0x22] @ any_string (member collection ''name'') @ [CHR 0x22] @ '': ''"

definition said :: "problem \<Rightarrow> string" where
  "said = (\<lambda>(path, message). path @ '': '' @ message)"

definition collection_problems :: "json list \<Rightarrow> json list \<Rightarrow> json \<Rightarrow> string list" where
  "collection_problems folders requests collection =
     map (\<lambda>issue. named_collection collection @ said issue)
       (case validate_collection (collection_part collection folders requests) of Inl issues \<Rightarrow> issues | Inr _ \<Rightarrow> []) @
     (if plain_object (member collection ''scriptTrust'') then [] else [named_collection collection @ ''scriptTrust is missing.''])"

definition stray_problems :: "json list \<Rightarrow> string \<Rightarrow> json list \<Rightarrow> string list" where
  "stray_problems collections kind docs =
     concat (map (\<lambda>(i, doc).
       if list_ex (\<lambda>c. belongs c doc) collections then []
       else [''stores.'' @ item_path kind i @ '': belongs to a collection that is not in the file.'']) (enumerate 0 docs))"

text \<open>The \<open>meta\<close> records: each one's own problems, and the vault's record, of which the last counts.\<close>

definition meta_problems :: "json \<Rightarrow> string list" where
  "meta_problems r =
     (let key = member r ''key''
      in if key = Some (JStr META_STATE_KEY) then
           (case member r ''activeEnvironmentId'' of
              None \<Rightarrow> [] | Some JNull \<Rightarrow> [] | Some (JStr _) \<Rightarrow> []
            | Some _ \<Rightarrow> [''stores.meta: the active environment must be an id or null.''])
         else if key = Some (JStr META_GLOBALS_KEY) then
           map said (validate_rows (member r ''variables'') ''stores.meta.globals.variables'')
         else if key = Some (JStr META_VAULT_KEY) then []
         else [''stores.meta: '' @ [CHR 0x22] @ any_string key @ [CHR 0x22] @ '' is not a record the app keeps.''])"

definition vault_of_meta :: "json list \<Rightarrow> json option" where
  "vault_of_meta records = List.find (\<lambda>r. member r ''key'' = Some (JStr META_VAULT_KEY)) (rev records)"

definition vault_part :: "json option \<Rightarrow> json list \<Rightarrow> json" where
  "vault_part vault secrets =
     present [(''$id'', text_field VAULT_FILE_FORMAT), (''vault'', vault), (''secrets'', Some (JArr secrets))]"

definition vault_problems :: "json option \<Rightarrow> json list \<Rightarrow> string list" where
  "vault_problems vault secrets =
     (if vault = None \<and> secrets = [] then []
      else map (\<lambda>issue. ''vault: '' @ said issue) (validate_vault_file (vault_part vault secrets)) @
        concat (map (\<lambda>(i, secret).
          if same_value (record_id secret) (member secret ''id'') \<and> plain_object (member secret ''meta'') then []
          else [''stores.'' @ item_path ''secrets'' i @ '': meta.id must be the secret's id.'']) (enumerate 0 secrets)))"

section \<open>The history of a file\<close>

definition only_keys :: "string list \<Rightarrow> json option \<Rightarrow> bool" where
  "only_keys ks v \<longleftrightarrow> (case v of Some (JObj fs) \<Rightarrow> list_all (\<lambda>(k, _). k \<in> set ks) fs | _ \<Rightarrow> True)"

definition model_problems :: "string \<Rightarrow> json option \<Rightarrow> string list" where
  "model_problems p m =
     (if plain_object m \<and> any_string (field m ''action'') \<in> set [''tests'', ''draft'', ''explain'', ''test''] \<and>
        is_text_value (field m ''model'') \<and> only_keys [''action'', ''model''] m then []
      else [p @ ''.model: Value must be the action and the model's name.''])"

definition sent_from_problems :: "string \<Rightarrow> json option \<Rightarrow> string list" where
  "sent_from_problems p from =
     (if plain_object from \<and> is_text_value (field from ''name'') \<and>
        (case field from ''path'' of Some (JArr names) \<Rightarrow> list_all (\<lambda>n. is_text_value (Some n)) names | _ \<Rightarrow> False) \<and>
        only_keys [''name'', ''path''] from then []
      else [p @ ''.sentFrom: Value must be the request's name and the names of its collection and folders.''])"

definition entry_problems :: "nat \<Rightarrow> json \<Rightarrow> string list" where
  "entry_problems i entry =
     (let p = ''stores.'' @ item_path ''history'' i; sent = member entry ''sent''
      in (if is_number (member entry ''createdAt'') then [] else [p @ ''.createdAt: Value must be a number.'']) @
         (if member entry ''route'' = Some (JStr ''direct'') \<or> member entry ''route'' = Some (JStr ''bridge'') then []
          else [p @ ''.route: Value must be direct or bridge.'']) @
         (if plain_object sent \<and> is_text_value (field sent ''method'') \<and> is_text_value (field sent ''url'') \<and>
            (case field sent ''headers'' of Some (JArr _) \<Rightarrow> True | _ \<Rightarrow> False) then []
          else [p @ ''.sent: Value must hold a method, a URL and headers.'']) @
         map said (validate_request_content (member entry ''template'') (p @ ''.template'')) @
         (if member entry ''record'' = None then [] else record_problems (member entry ''record'') (p @ ''.record'')) @
         (if member entry ''model'' = None then [] else model_problems p (member entry ''model'')) @
         (if member entry ''sentFrom'' = None then [] else sent_from_problems p (member entry ''sentFrom'')))"

definition history_problems :: "json \<Rightarrow> string list" where
  "history_problems stores =
     (if member stores ''history'' = None then []
      else store_problems stores ''history'' @
        concat (map (\<lambda>(i, entry). entry_problems i entry) (enumerate 0 (records_of stores ''history''))))"

section \<open>The whole file\<close>

definition validate_workspace_file :: "(string \<Rightarrow> string \<Rightarrow> bool) \<Rightarrow> json \<Rightarrow> string list" where
  "validate_workspace_file lc v =
     (if member v ''$id'' \<noteq> Some (JStr WORKSPACE_FORMAT)
      then [''Not a Wayfarer workspace file: '' @ [CHR 0x22] @ ''$id'' @ [CHR 0x22] @ '' must be '' @ [CHR 0x22] @ WORKSPACE_FORMAT @ [CHR 0x22] @ ''.'']
      else case member v ''stores'' of
             Some (JObj fs) \<Rightarrow>
               (let stores = JObj fs; errors = concat (map (store_problems stores) KEPT_STORES)
                in if errors \<noteq> [] then errors
                   else (let collections = records_of stores ''collections''; folders = records_of stores ''folders'';
                             requests = records_of stores ''requests''; secrets = records_of stores ''secrets'';
                             meta = records_of stores ''meta''
                         in concat (map (collection_problems folders requests) collections) @
                            stray_problems collections ''folders'' folders @ stray_problems collections ''requests'' requests @
                            (case validate_environments lc (present [(''$id'', text_field ENVIRONMENTS_FORMAT),
                                (''environments'', Some (JArr (records_of stores ''environments'')))]) of
                               Inl errors \<Rightarrow> errors | Inr _ \<Rightarrow> []) @
                            concat (map meta_problems meta) @
                            vault_problems (vault_of_meta meta) secrets @ history_problems stores))
           | _ \<Rightarrow> [''stores: Value must be an object.''])"

section \<open>Backup and restore\<close>

definition backup_file :: "rat \<Rightarrow> json \<Rightarrow> json" where
  "backup_file now stores = JObj [(''$id'', JStr WORKSPACE_FORMAT), (''exportedAt'', number_json now), (''stores'', stores)]"

definition export_workspace :: "rat \<Rightarrow> json \<Rightarrow> string" where
  "export_workspace now stores = json_write ''  '' [] (backup_file now stores)"

text \<open>A restored collection's scripts are not trusted.\<close>

definition untrusted_collection :: "json \<Rightarrow> json" where
  "untrusted_collection collection = set_field ''scriptTrust'' (JObj [(''trusted'', JBool False)]) collection"

definition untrusted_stores :: "json \<Rightarrow> json" where
  "untrusted_stores stores = set_field ''collections'' (JArr (map untrusted_collection (docs_of stores ''collections''))) stores"

definition restore_workspace :: "(string \<Rightarrow> string \<Rightarrow> bool) \<Rightarrow> string \<Rightarrow> string list + json" where
  "restore_workspace lc t =
     (if is_oversized_import (JStr t) then Inl [IMPORT_TOO_LARGE]
      else case parse_json t of
             None \<Rightarrow> Inl [''The file is not JSON.'']
           | Some v \<Rightarrow>
               let errors = validate_workspace_file lc v
               in if errors \<noteq> [] then Inl errors
                  else Inr (untrusted_stores (case member v ''stores'' of Some s \<Rightarrow> s | None \<Rightarrow> JNull)))"

section \<open>The reminder to make a backup\<close>

text \<open>
  When the last backup was made, from when the days count and when the reminder was put off, as the browser's storage
  holds them (0 where it holds none); \<open>persisted\<close> is what the browser promised of the data, and \<open>first_save\<close> how often
  something was saved for the first time.
\<close>

record backup_times =
  last_backup :: int
  reminder_from :: int
  put_off :: int

definition DAY_MS :: int where
  "DAY_MS = 24 * 60 * 60 * 1000"

definition REMINDER_AFTER_MS :: int where
  "REMINDER_AFTER_MS = 14 * DAY_MS"

definition UNKEPT_REMINDER_AFTER_MS :: int where
  "UNKEPT_REMINDER_AFTER_MS = 5 * DAY_MS"

definition first_use :: "int \<Rightarrow> backup_times \<Rightarrow> backup_times" where
  "first_use now b = (if last_backup b = 0 \<and> reminder_from b = 0 then b\<lparr>reminder_from := now\<rparr> else b)"

definition backup_made :: "int \<Rightarrow> backup_times \<Rightarrow> backup_times" where
  "backup_made now b = b\<lparr>last_backup := now\<rparr>"

definition dismiss_reminder :: "int \<Rightarrow> backup_times \<Rightarrow> backup_times" where
  "dismiss_reminder now b = b\<lparr>reminder_from := now, put_off := now\<rparr>"

definition reminder_due :: "bool option \<Rightarrow> int \<Rightarrow> int \<Rightarrow> backup_times \<Rightarrow> bool" where
  "reminder_due persisted first_save now b \<longleftrightarrow>
     (let counted = max (last_backup b) (reminder_from b)
      in if 0 < counted \<and> now - counted > REMINDER_AFTER_MS then True
         else if persisted \<noteq> Some False then False
         else (let answered = max (last_backup b) (put_off b)
               in if answered \<noteq> 0 then now - answered > UNKEPT_REMINDER_AFTER_MS else 0 < first_save))"

text \<open>A backup or a Not now is answered for five days at least; two weeks after it the reminder is due.\<close>

lemma reminder_waits:
  assumes "0 < t" "now \<le> t + UNKEPT_REMINDER_AFTER_MS" "b' = backup_made t b \<or> b' = dismiss_reminder t b"
  shows "\<not> reminder_due persisted first_save now b'"
  using assms by (auto simp: reminder_due_def backup_made_def dismiss_reminder_def REMINDER_AFTER_MS_def UNKEPT_REMINDER_AFTER_MS_def
      DAY_MS_def Let_def split: if_splits)

lemma reminder_comes:
  "0 < t \<Longrightarrow> max (last_backup b) (reminder_from b) = t \<Longrightarrow> t + REMINDER_AFTER_MS < now \<Longrightarrow> reminder_due persisted first_save now b"
  by (simp add: reminder_due_def Let_def)

section \<open>What an accepted file holds\<close>

lemma docs_of_records: "store_problems stores n = [] \<Longrightarrow> member stores n = Some (JArr (docs_of stores n)) \<and> records_of stores n = docs_of stores n"
  by (auto simp: store_problems_def store_records_def records_of_def docs_of_def split: option.splits json.splits if_splits)

definition parts_sound :: "json \<Rightarrow> bool" where
  "parts_sound stores \<longleftrightarrow>
     is_obj stores \<and>
     list_all (\<lambda>n. store_problems stores n = []) KEPT_STORES \<and>
     (\<forall>c \<in> set (docs_of stores ''collections''). collection_problems (docs_of stores ''folders'') (docs_of stores ''requests'') c = []) \<and>
     stray_problems (docs_of stores ''collections'') ''folders'' (docs_of stores ''folders'') = [] \<and>
     stray_problems (docs_of stores ''collections'') ''requests'' (docs_of stores ''requests'') = []"

lemma accepted_parts:
  assumes "validate_workspace_file lc v = []"
  shows "\<exists>stores. member v ''stores'' = Some stores \<and> parts_sound stores"
proof -
  obtain fs where s: "member v ''stores'' = Some (JObj fs)"
    using assms by (auto simp: validate_workspace_file_def split: if_splits option.splits json.splits)
  have i: "member v ''$id'' = Some (JStr WORKSPACE_FORMAT)" using assms by (auto simp: validate_workspace_file_def split: if_splits)
  have e: "concat (map (store_problems (JObj fs)) KEPT_STORES) = []"
    using assms by (auto simp: validate_workspace_file_def s i Let_def split: if_splits)
  then have k: "list_all (\<lambda>n. store_problems (JObj fs) n = []) KEPT_STORES" by (simp add: list_all_iff)
  then have r: "records_of (JObj fs) n = docs_of (JObj fs) n" if "n \<in> set KEPT_STORES" for n
    using docs_of_records that by (simp add: list_all_iff)
  have rs: "records_of (JObj fs) ''collections'' = docs_of (JObj fs) ''collections''"
    "records_of (JObj fs) ''folders'' = docs_of (JObj fs) ''folders''" "records_of (JObj fs) ''requests'' = docs_of (JObj fs) ''requests''"
    by (rule r, simp add: KEPT_STORES_def)+
  have "concat (map (collection_problems (docs_of (JObj fs) ''folders'') (docs_of (JObj fs) ''requests'')) (docs_of (JObj fs) ''collections'')) = []"
    "stray_problems (docs_of (JObj fs) ''collections'') ''folders'' (docs_of (JObj fs) ''folders'') = []"
    "stray_problems (docs_of (JObj fs) ''collections'') ''requests'' (docs_of (JObj fs) ''requests'') = []"
    using assms e unfolding validate_workspace_file_def s i Let_def option.case json.case rs append_is_Nil_conv if_False not_not simp_thms
    by (simp_all only: append_is_Nil_conv if_False if_True simp_thms)
  with s k show ?thesis by (auto simp: parts_sound_def is_obj_def)
qed

lemma found_collection:
  assumes "stray_problems collections kind docs = []" "d \<in> set docs"
  shows "\<exists>c \<in> set collections. belongs c d"
proof -
  obtain i where "i < length docs" "d = docs ! i" using assms(2) by (auto simp: in_set_conv_nth)
  then have "(i, d) \<in> set (enumerate 0 docs)" by (simp add: in_set_enumerate_eq)
  with assms(1) have "list_ex (\<lambda>c. belongs c d) collections" by (fastforce simp: stray_problems_def split: if_splits)
  then show ?thesis by (simp add: list_ex_iff)
qed

lemma refusal_says: "validate_collection x \<noteq> Inl []"
  by (auto simp: validate_collection_def split: option.splits json.splits)

lemma accepted_collection:
  assumes "collection_problems folders requests c = []"
  shows "is_obj c \<and> collection_ok (CollectionTrip.fields c) \<and> plain_object (member c ''scriptTrust'') \<and>
    (\<forall>f \<in> set folders. belongs c f \<longrightarrow> is_obj f \<and> folder_ok (CollectionTrip.fields f)) \<and>
    (\<forall>r \<in> set requests. belongs c r \<longrightarrow> is_obj r \<and> request_ok (CollectionTrip.fields r))"
proof -
  let ?p = "collection_part c folders requests"
  have trust: "plain_object (member c ''scriptTrust'')" using assms by (simp add: collection_problems_def split: if_splits)
  obtain w where w: "validate_collection ?p = Inr w"
    using assms refusal_says [of ?p] by (cases "validate_collection ?p") (auto simp: collection_problems_def)
  have "w = ?p" using w by (auto simp: validated collection_part_def present_def parsed_input_def)
  then have ok: "payload_ok ?p" using w validated by blast
  have "member ?p ''folders'' = Some (JArr (filter (belongs c) folders))" "member ?p ''requests'' = Some (JArr (filter (belongs c) requests))"
    "member ?p ''collection'' = Some c"
    unfolding collection_part_def by (simp_all add: member_present)
  with ok trust show ?thesis by (auto simp: payload_ok_def collection_of_def)
qed

lemma belongs_id:
  assumes "belongs c d" "collection_ok (CollectionTrip.fields c)"
  shows "\<exists>i. member d ''collectionId'' = Some (JStr i) \<and> field (member c ''meta'') ''id'' = Some (JStr i)"
proof -
  have f: "filled (field (member c ''meta'') ''id'')" using assms(2) by (simp add: collection_ok_def doc_ok_def CollectionTrip.fields_def)
  then obtain i where i: "field (member c ''meta'') ''id'' = Some (JStr i)" by (auto simp: filled_def split: option.splits json.splits)
  then have "plain_object (member c ''meta'')" by (auto simp: plain_object_def field_def split: option.splits json.splits)
  with assms(1) i have "same_value (member d ''collectionId'') (Some (JStr i))" by (simp add: belongs_def record_id_def)
  then have "member d ''collectionId'' = Some (JStr i)"
    by (cases "(member d ''collectionId'', Some (JStr i))" rule: same_value.cases) auto
  with i show ?thesis by blast
qed

definition restored_sound :: "json \<Rightarrow> bool" where
  "restored_sound stores \<longleftrightarrow>
     list_all (\<lambda>c. validate_collection_doc (Some c) [] = [] \<and> member c ''scriptTrust'' = Some (JObj [(''trusted'', JBool False)]))
       (docs_of stores ''collections'') \<and>
     list_all (\<lambda>f. validate_folder_doc (Some f) [] = [] \<and>
         list_ex (\<lambda>c. member f ''collectionId'' = field (member c ''meta'') ''id'') (docs_of stores ''collections''))
       (docs_of stores ''folders'') \<and>
     list_all (\<lambda>r. validate_request_doc (Some r) [] = [] \<and>
         list_ex (\<lambda>c. member r ''collectionId'' = field (member c ''meta'') ''id'') (docs_of stores ''collections''))
       (docs_of stores ''requests'')"

lemma untrusted_fields:
  "is_obj c \<Longrightarrow> member (untrusted_collection c) k = (if k = ''scriptTrust'' then Some (JObj [(''trusted'', JBool False)]) else member c k)"
  by (simp add: untrusted_collection_def member_set_field)

lemma collection_ok_fields:
  "(\<And>k. k \<in> {''meta'', ''id'', ''name'', ''description'', ''order'', ''variables'', ''auth'', ''scripts'', ''route''} \<Longrightarrow> g k = h k) \<Longrightarrow>
    collection_ok g = collection_ok h"
  by (simp add: collection_ok_def doc_ok_def inherits_ok_def)

lemma docs_untrusted:
  assumes "is_obj stores"
  shows "docs_of (untrusted_stores stores) ''collections'' = map untrusted_collection (docs_of stores ''collections'')"
    "k \<noteq> ''collections'' \<Longrightarrow> docs_of (untrusted_stores stores) k = docs_of stores k"
  using assms by (simp_all add: untrusted_stores_def docs_of_def member_set_field)

lemma restored_parts:
  assumes p: "parts_sound stores"
  shows "restored_sound (untrusted_stores stores)"
proof -
  let ?cs = "docs_of stores ''collections''" and ?fs = "docs_of stores ''folders''" and ?rs = "docs_of stores ''requests''"
  have o: "is_obj stores" using p by (simp add: parts_sound_def)
  have col: "is_obj c \<and> collection_ok (CollectionTrip.fields c) \<and> (\<forall>f \<in> set ?fs. belongs c f \<longrightarrow> is_obj f \<and> folder_ok (CollectionTrip.fields f)) \<and>
      (\<forall>r \<in> set ?rs. belongs c r \<longrightarrow> is_obj r \<and> request_ok (CollectionTrip.fields r))" if "c \<in> set ?cs" for c
    using accepted_collection p that by (auto simp: parts_sound_def)
  have place: "list_ex (\<lambda>c. member d ''collectionId'' = field (member c ''meta'') ''id'') (map untrusted_collection ?cs)"
    if "c \<in> set ?cs" "belongs c d" for c d
    using that col [OF that(1)] belongs_id [OF that(2)] untrusted_fields [of c] by (auto simp: list_ex_iff intro!: bexI [of _ c])
  have "validate_collection_doc (Some (untrusted_collection c)) [] = []" if "c \<in> set ?cs" for c
  proof -
    have "collection_ok (CollectionTrip.fields (untrusted_collection c)) = collection_ok (CollectionTrip.fields c)"
      using col [OF that] by (intro collection_ok_fields) (auto simp: CollectionTrip.fields_def untrusted_fields)
    with col [OF that] show ?thesis by (simp add: collection_doc_Nil) (simp add: untrusted_collection_def)
  qed
  then have cols: "list_all (\<lambda>c. validate_collection_doc (Some c) [] = [] \<and> member c ''scriptTrust'' = Some (JObj [(''trusted'', JBool False)]))
      (map untrusted_collection ?cs)"
    using col by (simp add: list_all_iff untrusted_fields)
  have stray: "stray_problems ?cs ''folders'' ?fs = []" "stray_problems ?cs ''requests'' ?rs = []" using p by (simp_all add: parts_sound_def)
  have fols: "validate_folder_doc (Some f) [] = [] \<and>
      list_ex (\<lambda>c. member f ''collectionId'' = field (member c ''meta'') ''id'') (map untrusted_collection ?cs)" if f: "f \<in> set ?fs" for f
  proof -
    obtain c where c: "c \<in> set ?cs" "belongs c f" using found_collection [OF stray(1) f] by blast
    have "is_obj f \<and> folder_ok (CollectionTrip.fields f)" using col [OF c(1)] c(2) f by blast
    then show ?thesis using place [OF c] by (simp add: folder_doc_Nil)
  qed
  have reqs: "validate_request_doc (Some r) [] = [] \<and>
      list_ex (\<lambda>c. member r ''collectionId'' = field (member c ''meta'') ''id'') (map untrusted_collection ?cs)" if r: "r \<in> set ?rs" for r
  proof -
    obtain c where c: "c \<in> set ?cs" "belongs c r" using found_collection [OF stray(2) r] by blast
    have "is_obj r \<and> request_ok (CollectionTrip.fields r)" using col [OF c(1)] c(2) r by blast
    then show ?thesis using place [OF c] by (simp add: request_doc_Nil)
  qed
  have "docs_of (untrusted_stores stores) ''folders'' = ?fs" "docs_of (untrusted_stores stores) ''requests'' = ?rs"
    by (simp_all add: docs_untrusted(2) [OF o])
  then show ?thesis
    using cols fols reqs by (simp only: restored_sound_def docs_untrusted(1) [OF o] list_all_iff) blast
qed

text \<open>What was written is restored, but for the trust in its scripts, when it is a workspace and no file too long.\<close>

lemma restore_exported:
  assumes "json_wf stores"
  shows "restore_workspace lc (export_workspace now stores) =
    (if MAX_IMPORT_BYTES < length (export_workspace now stores) then Inl [IMPORT_TOO_LARGE]
     else if validate_workspace_file lc (backup_file now stores) \<noteq> [] then Inl (validate_workspace_file lc (backup_file now stores))
     else Inr (untrusted_stores stores))"
proof -
  have "json_wf (backup_file now stores)" using assms by (simp add: backup_file_def wf_number)
  then have "parse_json (export_workspace now stores) = Some (backup_file now stores)"
    unfolding export_workspace_def by (rule parse_json_written) (simp add: json_space_def)
  moreover have "member (backup_file now stores) ''stores'' = Some stores" by (simp add: backup_file_def member_def om_get_def)
  ultimately show ?thesis by (simp add: restore_workspace_def is_oversized_import_def Let_def)
qed

text \<open>
  C29: whatever text is restored as a workspace, what reaches the stores is a whole workspace: every collection, folder and
  request passes the checks its own file would, every folder and request is of a collection that is restored with it, and
  no collection's scripts are trusted, whatever the file says.
\<close>

theorem restored_workspace:
  assumes "restore_workspace lc t = Inr stores"
  shows "restored_sound stores"
proof -
  obtain v where v: "validate_workspace_file lc v = []"
    and s: "stores = untrusted_stores (case member v ''stores'' of Some s \<Rightarrow> s | None \<Rightarrow> JNull)"
    using assms by (auto simp: restore_workspace_def Let_def split: if_splits option.splits)
  then show ?thesis using accepted_parts [OF v] restored_parts by auto
qed

text \<open>A request without a URL, as a new one is: no workspace that has it is restored, though it is written.\<close>

lemma blank_request_refused:
  assumes "member v ''stores'' = Some stores" "r \<in> set (docs_of stores ''requests'')" "\<not> filled (member r ''url'')"
  shows "validate_workspace_file lc v \<noteq> []"
proof
  assume "validate_workspace_file lc v = []"
  with assms(1) have p: "parts_sound stores" using accepted_parts by fastforce
  then have "stray_problems (docs_of stores ''collections'') ''requests'' (docs_of stores ''requests'') = []" by (simp add: parts_sound_def)
  then obtain c where c: "c \<in> set (docs_of stores ''collections'')" "belongs c r" using found_collection [OF _ assms(2)] by blast
  then have "collection_problems (docs_of stores ''folders'') (docs_of stores ''requests'') c = []" using p by (simp add: parts_sound_def)
  then have "request_ok (CollectionTrip.fields r)" using accepted_collection c(2) assms(2) by blast
  then show False using assms(3) by (simp add: request_ok_def content_ok_def CollectionTrip.fields_def)
qed

definition small_stores :: json where
  "small_stores =
     (let meta = \<lambda>i. (''meta'', JObj [(''id'', JStr i), (''createdAt'', JNum (Num 1 0)), (''updatedAt'', JNum (Num 1 0))]);
          none = JArr []; scripts = JObj [(''pre'', JStr []), (''post'', JStr [])]
      in JObj [(''collections'', JArr [JObj [meta ''c'', (''name'', JStr ''C''), (''order'', JNum (Num 0 0)), (''variables'', none),
             (''auth'', JObj [(''type'', JStr ''none'')]), (''scripts'', scripts), (''scriptTrust'', JObj [(''trusted'', JBool True)])]]),
           (''folders'', JArr [JObj [meta ''f'', (''collectionId'', JStr ''c''), (''name'', JStr ''F''), (''order'', JNum (Num 0 0)),
             (''variables'', none), (''auth'', JObj [(''type'', JStr ''inherit'')]), (''scripts'', scripts)]]),
           (''requests'', JArr [JObj ([meta ''r'', (''collectionId'', JStr ''c''), (''folderId'', JStr ''f''), (''name'', JStr ''R''), (''order'', JNum (Num 0 0))] @
             present_fields (content_fields (empty_request\<lparr>rc_url := ''https://a.example/''\<rparr>)))]),
           (''environments'', none), (''secrets'', none), (''meta'', none)])"

lemma small_valid: "validate_workspace_file (\<lambda>_ _. True) (backup_file 0 small_stores) = []"
  by code_simp

lemma small_wf: "json_wf small_stores"
  by code_simp

lemma small_short: "length (export_workspace 0 small_stores) < 2000"
  by code_simp

theorem restored_workspace_witness:
  "\<exists>stores. restore_workspace (\<lambda>_ _. True) (export_workspace 0 small_stores) = Inr stores \<and> restored_sound stores \<and>
    length (docs_of stores ''requests'') = 1"
proof -
  have "length (export_workspace 0 small_stores) \<le> MAX_IMPORT_BYTES" using small_short by (simp add: MAX_IMPORT_BYTES_def)
  then have r: "restore_workspace (\<lambda>_ _. True) (export_workspace 0 small_stores) = Inr (untrusted_stores small_stores)"
    using restore_exported [of small_stores "\<lambda>_ _. True" 0] small_wf small_valid by simp
  moreover have "length (docs_of (untrusted_stores small_stores) ''requests'') = 1" by code_simp
  ultimately show ?thesis using restored_workspace [OF r] by blast
qed

end
