(* ===== verification/Har.thy ===== *)
theory Har
  imports Validate ExportRequest Platform
begin

text \<open>
  The HAR log of exchanges (\<open>packages/core/src/export/har.ts\<close>) and its reading as requests (\<open>import/har.ts\<close>). The
  platform's \<open>URL.parse\<close>, \<open>Date.parse\<close> followed by \<open>toISOString\<close> and the reading of a form are parameters.
\<close>

section \<open>Writing\<close>

definition HAR_MAX_BODY_CHARS :: nat where
  "HAR_MAX_BODY_CHARS = 256 * 1024"

record har_response =
  hr_status :: nat
  hr_status_text :: string
  hr_headers :: "(string \<times> string) list"
  hr_text :: "string option"
  hr_size :: "decimal option"

record har_timings =
  ht_dns :: "decimal option"
  ht_connect :: "decimal option"
  ht_ssl :: "decimal option"
  ht_send :: "decimal option"
  ht_wait :: "decimal option"
  ht_receive :: "decimal option"

record har_exchange =
  hx_started :: string
  hx_time :: decimal
  hx_request :: export_request
  hx_response :: "har_response option"
  hx_timings :: "har_timings option"
  hx_comment :: string

definition pairs_json :: "(string \<times> string) list \<Rightarrow> json" where
  "pairs_json ps = JArr (map (\<lambda>(n, v). JObj [(''name'', JStr n), (''value'', JStr v)]) ps)"

definition header_of :: "(string \<times> string) list \<Rightarrow> string \<Rightarrow> string option" where
  "header_of headers name = map_option snd (List.find (\<lambda>(k, v). to_lower k = name) headers)"

definition known :: "decimal option \<Rightarrow> json" where
  "known v =
     (case v of None \<Rightarrow> JNum (num_of_int (- 1)) | Some d \<Rightarrow> if num_less d (num_of_int 0) then JNum (num_of_int (- 1)) else JNum d)"

text \<open>A text up to its first \<open>=\<close>, and after it.\<close>

definition has_pair :: "string \<Rightarrow> bool" where
  "has_pair s \<longleftrightarrow> CHR ''='' \<in> set s \<and> \<not> starts_with s ''=''"

definition pair_name :: "string \<Rightarrow> string" where
  "pair_name s = takeWhile (\<lambda>c. c \<noteq> CHR ''='') s"

definition pair_value :: "string \<Rightarrow> string" where
  "pair_value s = tl (dropWhile (\<lambda>c. c \<noteq> CHR ''='') s)"

definition sent_cookies :: "(string \<times> string) list \<Rightarrow> json" where
  "sent_cookies headers =
     pairs_json (map (\<lambda>p. (trim (pair_name p), trim (pair_value p)))
       (filter has_pair (map trim (concat (map (\<lambda>(n, v). split_on (CHR '';'') v) (filter (\<lambda>(n, v). to_lower n = ''cookie'') headers))))))"

definition cookie_json :: "(string \<Rightarrow> string option) \<Rightarrow> string \<Rightarrow> json" where
  "cookie_json iso_date value =
     (let parts = map trim (split_on (CHR '';'') value); pair = hd parts; attributes = tl parts;
          attribute = (\<lambda>name. map_option (drop (length name + 1)) (List.find (\<lambda>t. starts_with (to_lower t) (name @ ''='')) attributes));
          flag = (\<lambda>name. if name \<in> set (map to_lower attributes) then Some (JBool True) else None);
          shown = (\<lambda>name. case attribute name of Some t \<Rightarrow> if t = [] then None else Some (JStr t) | None \<Rightarrow> None)
      in present
           [(''name'', text_field (pair_name pair)), (''value'', text_field (pair_value pair)), (''path'', shown ''path''),
            (''domain'', shown ''domain''), (''expires'', map_option JStr (iso_date (case attribute ''expires'' of Some t \<Rightarrow> t | None \<Rightarrow> []))),
            (''httpOnly'', flag ''httponly''), (''secure'', flag ''secure'')])"

definition set_cookies :: "(string \<Rightarrow> string option) \<Rightarrow> (string \<times> string) list \<Rightarrow> json" where
  "set_cookies iso_date headers =
     JArr (map (\<lambda>(n, v). cookie_json iso_date v)
       (filter (\<lambda>(n, v). to_lower n = ''set-cookie'' \<and> has_pair (hd (split_on (CHR '';'') v))) headers))"

definition query_of :: "(string \<Rightarrow> url option) \<Rightarrow> string \<Rightarrow> json" where
  "query_of url_parse address = pairs_json (case url_parse address of Some u \<Rightarrow> u_pairs u | None \<Rightarrow> [])"

definition TOO_LONG :: string where
  "TOO_LONG = ''The body is left out: it is longer than '' @ show_nat (HAR_MAX_BODY_CHARS div 1024) @ '' KB.''"

fun part_json :: "export_part \<Rightarrow> json" where
  "part_json (ValuePart n v) = JObj [(''name'', JStr n), (''value'', JStr v)]"
| "part_json (NamedFile n f) = JObj [(''name'', JStr n), (''fileName'', JStr f)]"

definition mime_type :: "(string \<times> string) list \<Rightarrow> string \<Rightarrow> json option" where
  "mime_type headers other = text_field (case header_of headers ''content-type'' of Some t \<Rightarrow> t | None \<Rightarrow> other)"

fun post_data :: "(string \<times> string) list \<Rightarrow> export_body \<Rightarrow> json option" where
  "post_data headers NoExport = None"
| "post_data headers (RawExport t) =
     Some (if HAR_MAX_BODY_CHARS < length t
           then present [(''mimeType'', mime_type headers ''text/plain''), (''text'', text_field []), (''comment'', text_field TOO_LONG)]
           else present [(''mimeType'', mime_type headers ''text/plain''), (''text'', text_field t)])"
| "post_data headers (FormExport qs) =
     Some (present [(''mimeType'', mime_type headers ''application/x-www-form-urlencoded''), (''params'', Some (pairs_json qs)),
       (''text'', text_field (form_body qs))])"
| "post_data headers (PartsExport parts) =
     Some (present [(''mimeType'', mime_type headers ''multipart/form-data''), (''params'', Some (JArr (map part_json parts))),
       (''text'', text_field []), (''comment'', text_field ''A file part is named, not included.'')])"
| "post_data headers (FileExport f) =
     Some (present [(''mimeType'', mime_type headers ''application/octet-stream''), (''text'', text_field []),
       (''comment'', text_field (''The body is the file '' @ [CHR 0x22] @ f @ [CHR 0x22] @ '', which is named, not included.''))])"

definition minus_one :: "json option" where
  "minus_one = Some (JNum (num_of_int (- 1)))"

definition request_json :: "(string \<Rightarrow> url option) \<Rightarrow> export_request \<Rightarrow> json" where
  "request_json url_parse r = present
     [(''method'', text_field (xr_method r)), (''url'', text_field (xr_url r)), (''httpVersion'', text_field ''HTTP/1.1''),
      (''cookies'', Some (sent_cookies (xr_headers r))), (''headers'', Some (pairs_json (xr_headers r))),
      (''queryString'', Some (query_of url_parse (xr_url r))), (''postData'', post_data (xr_headers r) (xr_body r)),
      (''headersSize'', minus_one), (''bodySize'', minus_one)]"

definition response_text :: "har_response \<Rightarrow> string option \<times> string option" where
  "response_text r =
     (case hr_text r of
        None \<Rightarrow> (None, Some ''The body is left out: it is not text.'')
      | Some t \<Rightarrow> if HAR_MAX_BODY_CHARS < length t then (None, Some TOO_LONG) else (Some t, None))"

definition response_json :: "(string \<Rightarrow> string option) \<Rightarrow> har_response option \<Rightarrow> json" where
  "response_json iso_date response =
     (let headers = (case response of Some r \<Rightarrow> hr_headers r | None \<Rightarrow> []);
          size = Option.bind response hr_size;
          (text_kept, left) = (case response of Some r \<Rightarrow> response_text r | None \<Rightarrow> (None, None));
          header = (\<lambda>name. text_field (case header_of headers name of Some t \<Rightarrow> t | None \<Rightarrow> []))
      in present
           [(''status'', Some (JNum (num_of_int (case response of Some r \<Rightarrow> int (hr_status r) | None \<Rightarrow> 0)))),
            (''statusText'', text_field (case response of Some r \<Rightarrow> hr_status_text r | None \<Rightarrow> [])), (''httpVersion'', text_field ''HTTP/1.1''),
            (''cookies'', Some (set_cookies iso_date headers)), (''headers'', Some (pairs_json headers)),
            (''content'', Some (present [(''size'', Some (known size)), (''mimeType'', header ''content-type''),
               (''text'', map_option JStr text_kept), (''comment'', map_option JStr left)])),
            (''redirectURL'', header ''location''), (''headersSize'', minus_one), (''bodySize'', Some (known size))])"

definition timings_json :: "har_timings option \<Rightarrow> json" where
  "timings_json timings =
     (let part = (\<lambda>f. Some (known (Option.bind timings f)))
      in present [(''blocked'', minus_one), (''dns'', part ht_dns), (''connect'', part ht_connect), (''send'', part ht_send),
           (''wait'', part ht_wait), (''receive'', part ht_receive), (''ssl'', part ht_ssl)])"

definition entry_json :: "(string \<Rightarrow> url option) \<Rightarrow> (string \<Rightarrow> string option) \<Rightarrow> har_exchange \<Rightarrow> json" where
  "entry_json url_parse iso_date x = present
     [(''startedDateTime'', text_field (hx_started x)), (''time'', Some (known (Some (hx_time x)))),
      (''request'', Some (request_json url_parse (hx_request x))), (''response'', Some (response_json iso_date (hx_response x))),
      (''cache'', Some (JObj [])), (''timings'', Some (timings_json (hx_timings x))),
      (''comment'', if hx_comment x = [] then None else text_field (hx_comment x))]"

definition build_har ::
    "(string \<Rightarrow> url option) \<Rightarrow> (string \<Rightarrow> string option) \<Rightarrow> har_exchange list \<Rightarrow> string \<times> string \<Rightarrow> json" where
  "build_har url_parse iso_date exchanges creator =
     JObj [(''log'', JObj [(''version'', JStr ''1.2''), (''creator'', JObj [(''name'', JStr (fst creator)), (''version'', JStr (snd creator))]),
       (''entries'', JArr (map (entry_json url_parse iso_date) exchanges))])]"

section \<open>Reading\<close>

definition text_of :: "json option \<Rightarrow> string" where
  "text_of v = (case v of Some (JStr s) \<Rightarrow> s | _ \<Rightarrow> [])"

definition objects_of :: "json option \<Rightarrow> json list" where
  "objects_of v = (case v of Some (JArr xs) \<Rightarrow> filter (\<lambda>x. case x of JObj _ \<Rightarrow> True | _ \<Rightarrow> False) xs | _ \<Rightarrow> [])"

definition entries_of :: "json \<Rightarrow> json list option" where
  "entries_of v = (case member v ''log'' of Some l \<Rightarrow> (case member l ''entries'' of Some (JArr xs) \<Rightarrow> Some xs | _ \<Rightarrow> None) | None \<Rightarrow> None)"

definition is_har :: "json \<Rightarrow> bool" where
  "is_har v \<longleftrightarrow> entries_of v \<noteq> None"

record har_request =
  hq_name :: string
  hq_request :: export_request
  hq_warnings :: "string list"

definition MULTIPART_AS_TEXT :: string where
  "MULTIPART_AS_TEXT = ''Its multipart body is in the file as text only, with a boundary of that one send. It is kept as text.''"

definition BINARY_LEFT_OUT :: string where
  "BINARY_LEFT_OUT = ''Its body is binary (base64 in the file) and was left out.''"

definition part_read :: "json \<Rightarrow> export_part" where
  "part_read p =
     (case member p ''fileName'' of
        Some (JStr f) \<Rightarrow> NamedFile (text_of (member p ''name'')) f
      | _ \<Rightarrow> ValuePart (text_of (member p ''name'')) (text_of (member p ''value'')))"

definition body_read :: "(string \<Rightarrow> (string \<times> string) list) \<Rightarrow> json option \<Rightarrow> export_body \<times> string list" where
  "body_read read_form v =
     (case v of
        Some (JObj fs) \<Rightarrow>
          (let data = JObj fs; type = to_lower (text_of (member data ''mimeType'')); params = objects_of (member data ''params'');
               body = text_of (member data ''text'')
           in if starts_with type ''multipart/form-data'' then
                (if params = [] then (RawExport body, [MULTIPART_AS_TEXT]) else (PartsExport (map part_read params), []))
              else if starts_with type ''application/x-www-form-urlencoded'' then
                (FormExport (if params \<noteq> [] then map (\<lambda>p. (text_of (member p ''name''), text_of (member p ''value''))) params else read_form body), [])
              else if member data ''encoding'' = Some (JStr ''base64'') then (NoExport, [BINARY_LEFT_OUT])
              else if body \<noteq> [] then (RawExport body, []) else (NoExport, []))
      | _ \<Rightarrow> (NoExport, []))"

definition NOT_A_HAR :: string where
  "NOT_A_HAR = ''The file is not a HAR: it has no log.entries.''"

definition entry_read ::
    "(string \<Rightarrow> url option) \<Rightarrow> (string \<Rightarrow> (string \<times> string) list) \<Rightarrow> nat \<Rightarrow> json \<Rightarrow> string + har_request" where
  "entry_read url_parse read_form i entry =
     (let request = member entry ''request''; of_request = (\<lambda>k. Option.bind request (\<lambda>r. member r k));
          verb = to_upper (text_of (of_request ''method'')); address = text_of (of_request ''url'')
      in if verb = [] \<or> address = [] then Inl (''The HAR's entry '' @ show_nat (i + 1) @ '' has no request with a method and a URL.'')
         else
           (let headers = filter (\<lambda>(n, v). n \<noteq> [] \<and> \<not> starts_with n '':'')
                  (map (\<lambda>h. (text_of (member h ''name''), text_of (member h ''value''))) (objects_of (of_request ''headers'')));
                (body, warnings) = body_read read_form (of_request ''postData'')
            in Inr \<lparr>hq_name = verb @ '' '' @ (case url_parse address of Some u \<Rightarrow> u_path u | None \<Rightarrow> address),
                 hq_request = \<lparr>xr_method = verb, xr_url = address, xr_headers = headers, xr_body = body\<rparr>, hq_warnings = warnings\<rparr>))"

fun all_or_first :: "('e + 'a) list \<Rightarrow> 'e + 'a list" where
  "all_or_first [] = Inr []"
| "all_or_first (Inl e # xs) = Inl e"
| "all_or_first (Inr x # xs) = (case all_or_first xs of Inl e \<Rightarrow> Inl e | Inr ys \<Rightarrow> Inr (x # ys))"

definition parse_har ::
    "(string \<Rightarrow> url option) \<Rightarrow> (string \<Rightarrow> (string \<times> string) list) \<Rightarrow> json \<Rightarrow> string + har_request list" where
  "parse_har url_parse read_form v =
     (case entries_of v of
        None \<Rightarrow> Inl NOT_A_HAR
      | Some xs \<Rightarrow>
          all_or_first (map (\<lambda>(i, e). entry_read url_parse read_form i e) (enumerate 0 (objects_of (Some (JArr xs))))))"

section \<open>A log is read as it was written\<close>

text \<open>
  What a log holds of a request: a body whose type says what it is and is not too long; a file is named only, and is read
  as no body.
\<close>

definition typed :: "(string \<times> string) list \<Rightarrow> string \<Rightarrow> string" where
  "typed headers other = to_lower (case header_of headers ''content-type'' of Some t \<Rightarrow> t | None \<Rightarrow> other)"

definition own_type :: "(string \<times> string) list \<Rightarrow> string \<Rightarrow> bool" where
  "own_type headers other \<longleftrightarrow>
     \<not> starts_with (typed headers other) ''multipart/form-data'' \<and> \<not> starts_with (typed headers other) ''application/x-www-form-urlencoded''"

fun har_holds :: "(string \<times> string) list \<Rightarrow> export_body \<Rightarrow> bool" where
  "har_holds headers NoExport \<longleftrightarrow> True"
| "har_holds headers (RawExport t) \<longleftrightarrow> t \<noteq> [] \<and> length t \<le> HAR_MAX_BODY_CHARS \<and> own_type headers ''text/plain''"
| "har_holds headers (FormExport qs) \<longleftrightarrow>
     qs \<noteq> [] \<and> starts_with (typed headers ''application/x-www-form-urlencoded'') ''application/x-www-form-urlencoded''"
| "har_holds headers (PartsExport parts) \<longleftrightarrow> parts \<noteq> [] \<and> starts_with (typed headers ''multipart/form-data'') ''multipart/form-data''"
| "har_holds headers (FileExport f) \<longleftrightarrow> own_type headers ''application/octet-stream''"

fun har_body :: "export_body \<Rightarrow> export_body" where
  "har_body (FileExport f) = NoExport"
| "har_body b = b"

definition har_sound :: "export_request \<Rightarrow> bool" where
  "har_sound r \<longleftrightarrow>
     xr_method r \<noteq> [] \<and> to_upper (xr_method r) = xr_method r \<and> xr_url r \<noteq> [] \<and>
     list_all (\<lambda>(n, v). n \<noteq> [] \<and> \<not> starts_with n '':'') (xr_headers r) \<and> har_holds (xr_headers r) (xr_body r)"

definition har_read :: "(string \<Rightarrow> url option) \<Rightarrow> export_request \<Rightarrow> har_request" where
  "har_read url_parse r =
     \<lparr>hq_name = xr_method r @ '' '' @ (case url_parse (xr_url r) of Some u \<Rightarrow> u_path u | None \<Rightarrow> xr_url r),
      hq_request = r\<lparr>xr_body := har_body (xr_body r)\<rparr>, hq_warnings = []\<rparr>"

lemma present_is_object: "\<exists>fs. present es = JObj fs"
  by (simp add: present_def)

lemma objects_pairs: "objects_of (Some (pairs_json ps)) = map (\<lambda>(n, v). JObj [(''name'', JStr n), (''value'', JStr v)]) ps"
  by (auto simp: objects_of_def pairs_json_def filter_id_conv)

lemma pair_fields: "text_of (member (JObj [(''name'', JStr n), (''value'', JStr v)]) ''name'') = n"
  "text_of (member (JObj [(''name'', JStr n), (''value'', JStr v)]) ''value'') = v"
  by (simp_all add: text_of_def member_def om_get_def)

lemma parts_read: "map part_read (objects_of (Some (JArr (map part_json ps)))) = ps"
proof -
  have "\<exists>fs. part_json p = JObj fs" for p by (cases p) simp_all
  then have "objects_of (Some (JArr (map part_json ps))) = map part_json ps"
    by (auto simp: objects_of_def filter_id_conv split: json.split) (metis json.distinct)+
  moreover have "part_read (part_json p) = p" for p
    by (cases p) (simp_all add: part_read_def member_def om_get_def text_of_def)
  ultimately show ?thesis by (simp add: map_idI comp_def)
qed

lemma text_of_field [simp]: "text_of (text_field s) = s" "text_of None = []"
  by (simp_all add: text_of_def text_field_def)

lemma mime_typed: "to_lower (text_of (mime_type headers other)) = typed headers other"
  by (simp add: mime_type_def text_of_def text_field_def typed_def)

lemma body_round_trip:
  assumes "har_holds headers b"
  shows "body_read read_form (post_data headers b) = (har_body b, [])"
proof -
  have object: "body_read read_form (Some (present es)) =
      (let type = to_lower (text_of (member (present es) ''mimeType'')); params = objects_of (member (present es) ''params'');
           body = text_of (member (present es) ''text'')
       in if starts_with type ''multipart/form-data'' then
            (if params = [] then (RawExport body, [MULTIPART_AS_TEXT]) else (PartsExport (map part_read params), []))
          else if starts_with type ''application/x-www-form-urlencoded'' then
            (FormExport (if params \<noteq> [] then map (\<lambda>p. (text_of (member p ''name''), text_of (member p ''value''))) params else read_form body), [])
          else if member (present es) ''encoding'' = Some (JStr ''base64'') then (NoExport, [BINARY_LEFT_OUT])
          else if body \<noteq> [] then (RawExport body, []) else (NoExport, []))" for es
  proof -
    obtain fs where "present es = JObj fs" using present_is_object by blast
    then show ?thesis by (simp only: body_read_def option.case json.case Let_def)
  qed
  show ?thesis
  proof (cases b)
    case (FormExport qs)
    then have start: "starts_with (typed headers ''application/x-www-form-urlencoded'') ''application/x-www-form-urlencoded''" "qs \<noteq> []"
      using assms by simp_all
    then obtain t where "typed headers ''application/x-www-form-urlencoded'' = ''application/x-www-form-urlencoded'' @ t"
      by (auto simp: starts_with_prefix prefix_def)
    then have "\<not> starts_with (typed headers ''application/x-www-form-urlencoded'') ''multipart/form-data''"
      by (simp add: starts_with_prefix)
    then show ?thesis
      using start by (simp add: FormExport object member_present mime_typed objects_pairs Let_def comp_def case_prod_unfold pair_fields)
  next
    case (PartsExport parts)
    then have "objects_of (Some (JArr (map part_json parts))) \<noteq> []" using assms parts_read [of parts] by auto
    then show ?thesis
      using assms by (simp add: PartsExport object member_present mime_typed parts_read Let_def)
  qed (use assms in \<open>simp_all add: object member_present mime_typed own_type_def Let_def objects_of_def, simp add: body_read_def\<close>)
qed

lemma headers_round_trip:
  assumes "list_all (\<lambda>(n, v). n \<noteq> [] \<and> \<not> starts_with n '':'') headers"
  shows "filter (\<lambda>(n, v). n \<noteq> [] \<and> \<not> starts_with n '':'')
    (map (\<lambda>h. (text_of (member h ''name''), text_of (member h ''value''))) (objects_of (Some (pairs_json headers)))) = headers"
  using assms by (simp add: objects_pairs comp_def case_prod_unfold pair_fields filter_id_conv list_all_iff)

lemma entry_round_trip:
  assumes "har_sound (hx_request x)"
  shows "entry_read url_parse read_form i (entry_json url_parse iso_date x) = Inr (har_read url_parse (hx_request x))"
proof -
  let ?r = "hx_request x"
  have request: "member (entry_json url_parse iso_date x) ''request'' = Some (request_json url_parse ?r)"
    by (simp add: entry_json_def member_present)
  have fields: "member (request_json url_parse ?r) ''method'' = Some (JStr (xr_method ?r))"
    "member (request_json url_parse ?r) ''url'' = Some (JStr (xr_url ?r))"
    "member (request_json url_parse ?r) ''headers'' = Some (pairs_json (xr_headers ?r))"
    "member (request_json url_parse ?r) ''postData'' = post_data (xr_headers ?r) (xr_body ?r)"
    by (simp_all add: request_json_def member_present text_field_def)
  have body: "body_read read_form (post_data (xr_headers ?r) (xr_body ?r)) = (har_body (xr_body ?r), [])"
    using assms by (simp add: har_sound_def body_round_trip)
  have headers: "filter (\<lambda>(n, v). n \<noteq> [] \<and> \<not> starts_with n '':'')
    (map (\<lambda>h. (text_of (member h ''name''), text_of (member h ''value''))) (objects_of (Some (pairs_json (xr_headers ?r))))) = xr_headers ?r"
    using assms by (simp add: har_sound_def headers_round_trip)
  have texts: "text_of (Some (JStr s)) = s" for s by (simp add: text_of_def)
  have named: "to_upper (xr_method ?r) = xr_method ?r" "xr_method ?r \<noteq> []" "xr_url ?r \<noteq> []" using assms by (simp_all add: har_sound_def)
  show ?thesis
    unfolding entry_read_def request Option.bind.bind_lunit fields texts headers body named Let_def
    using named by (simp add: har_read_def)
qed


definition har_examples :: "har_exchange list" where
  "har_examples =
     (let x = (\<lambda>r. \<lparr>hx_started = ''2026-01-01T00:00:00.000Z'', hx_time = num_of_int 12, hx_request = r, hx_response = None, hx_timings = None, hx_comment = []\<rparr>);
          r = \<lparr>xr_method = ''POST'', xr_url = ''https://a.example/'', xr_headers = [(''Accept'', ''*/*'')], xr_body = RawExport ''hi''\<rparr>
      in [x r, x (r\<lparr>xr_body := FormExport [(''a'', ''b c'')]\<rparr>),
          x (r\<lparr>xr_headers := [(''Content-Type'', ''multipart/form-data; boundary=x'')], xr_body := PartsExport [ValuePart ''k'' ''v'', NamedFile ''f'' ''a.png'']\<rparr>),
          x (r\<lparr>xr_body := FileExport ''a.bin''\<rparr>)])"

lemma har_examples_sound: "list_all (\<lambda>x. har_sound (hx_request x)) har_examples"
proof -
  have own: "own_type [(''Accept'', ''*/*'')] ''text/plain''" "own_type [(''Accept'', ''*/*'')] ''application/octet-stream''" by code_simp+
  have form: "starts_with (typed [(''Accept'', ''*/*'')] ''application/x-www-form-urlencoded'') ''application/x-www-form-urlencoded''" by code_simp
  have multi: "starts_with (typed [(''Content-Type'', ''multipart/form-data; boundary=x'')] ''multipart/form-data'') ''multipart/form-data''" by code_simp
  have upper: "to_upper ''POST'' = ''POST''" by code_simp
  show ?thesis
    by (simp add: har_examples_def Let_def har_sound_def own form multi upper HAR_MAX_BODY_CHARS_def)
qed


end
