(* ===== verification/RequestView.thy ===== *)
theory RequestView
  imports Variables JsValues SigV4
begin

text \<open>
  A request as a script sees it and leaves it, \<open>packages/core/src/scripting/request-view.ts\<close>, and whether scripts may run,
  \<open>scripting/trust.ts\<close>. \<open>URLSearchParams\<close>, which reads a form's text, is a parameter, and so is SHA-256.
\<close>

section \<open>What a script sees\<close>

datatype script_body = ScriptRaw string | ScriptForm "(string \<times> string) list" | ScriptMode body_mode

record script_request =
  sq_method :: string
  sq_url :: string
  sq_headers :: "(string \<times> string) list"
  sq_body :: script_body

definition seen_rows :: "row list \<Rightarrow> (string \<times> string) list" where
  "seen_rows rows = map (\<lambda>r. (row_key r, row_value r)) (filter (\<lambda>r. row_enabled r \<and> row_key r \<noteq> []) rows)"

definition raw_text_of :: "request_body \<Rightarrow> string" where
  "raw_text_of b = (case body_raw b of None \<Rightarrow> [] | Some r \<Rightarrow> raw_text r)"

definition graphql_text_of :: "request_body \<Rightarrow> string" where
  "graphql_text_of b =
     (case body_graphql b of None \<Rightarrow> graphql_text [] [] | Some g \<Rightarrow> graphql_text (gql_query g) (gql_variables g))"

definition script_request_of :: "request_content \<Rightarrow> script_request" where
  "script_request_of content =
     (let body = rc_body content
      in \<lparr>sq_method = rc_method content, sq_url = rc_url content, sq_headers = seen_rows (rc_headers content),
          sq_body =
            (case body_mode body of
               Raw \<Rightarrow> ScriptRaw (raw_text_of body)
             | Graphql \<Rightarrow> ScriptRaw (graphql_text_of body)
             | Urlencoded \<Rightarrow> ScriptForm (seen_rows (case body_urlencoded body of None \<Rightarrow> [] | Some rows \<Rightarrow> rows))
             | mode \<Rightarrow> ScriptMode mode)\<rparr>)"

section \<open>What a script leaves\<close>

definition left_rows :: "(string \<times> string) list \<Rightarrow> row list" where
  "left_rows pairs = map (\<lambda>(k, v). \<lparr>row_key = k, row_value = v, row_enabled = True, row_json = False\<rparr>) pairs"

definition with_script_request :: "request_content \<Rightarrow> script_request \<Rightarrow> request_content" where
  "with_script_request content request =
     (let body = rc_body content;
          left =
            (case sq_body request of
               ScriptRaw t \<Rightarrow>
                 if body_mode body = Graphql \<and> t = graphql_text_of body then body
                 else body\<lparr>body_mode := Raw, body_raw := Some
                   \<lparr>raw_language =
                      (if body_mode body = Graphql then Json
                       else (case body_raw body of None \<Rightarrow> Text | Some r \<Rightarrow> raw_language r)),
                    raw_text = t\<rparr>\<rparr>
             | ScriptForm pairs \<Rightarrow> body\<lparr>body_mode := Urlencoded, body_urlencoded := Some (left_rows pairs)\<rparr>
             | ScriptMode _ \<Rightarrow> body)
      in content\<lparr>rc_method := sq_method request, rc_url := sq_url request,
           rc_headers := left_rows (sq_headers request), rc_body := left\<rparr>)"

text \<open>The request as it went out.\<close>

definition sent_script_request ::
    "(string \<Rightarrow> (string \<times> string) list) \<Rightarrow> request_content \<Rightarrow> string \<Rightarrow> string \<Rightarrow> (string \<times> string) list \<Rightarrow>
      string option \<Rightarrow> script_request" where
  "sent_script_request read_form content verb url headers sent_body =
     (let mode = body_mode (rc_body content)
      in \<lparr>sq_method = verb, sq_url = url, sq_headers = headers,
          sq_body =
            (if mode = Multipart \<or> mode = Binary then ScriptMode mode
             else (case sent_body of
                     None \<Rightarrow> ScriptMode NoBody
                   | Some t \<Rightarrow> if mode = Urlencoded then ScriptForm (read_form t) else ScriptRaw t))\<rparr>)"

section \<open>Whether scripts may run\<close>

definition script_digest :: "(byte list \<Rightarrow> byte list) \<Rightarrow> string \<Rightarrow> string" where
  "script_digest sha text = hex (sha (utf8 text))"

definition scripts_of :: "scripts \<Rightarrow> string list" where
  "scripts_of held = filter (\<lambda>s. trim s \<noteq> []) [script_pre held, script_post held]"

definition scripts_approved :: "(byte list \<Rightarrow> byte list) \<Rightarrow> script_trust option \<Rightarrow> string list \<Rightarrow> bool" where
  "scripts_approved sha trust texts \<longleftrightarrow>
     texts = [] \<or>
     (case trust of
        None \<Rightarrow> False
      | Some t \<Rightarrow>
          trusted t \<and>
          (let known = (case approved t of None \<Rightarrow> [] | Some ds \<Rightarrow> ds)
           in list_all (\<lambda>d. d \<in> set known) (map (script_digest sha) texts)))"

section \<open>Properties\<close>

text \<open>A request a script can leave: every row has a name, and a body it cannot write is the one it saw.\<close>

definition writable :: "request_content \<Rightarrow> script_request \<Rightarrow> bool" where
  "writable content request \<longleftrightarrow>
     list_all (\<lambda>(k, _). k \<noteq> []) (sq_headers request) \<and>
     (case sq_body request of
        ScriptRaw _ \<Rightarrow> True
      | ScriptForm pairs \<Rightarrow> list_all (\<lambda>(k, _). k \<noteq> []) pairs
      | ScriptMode m \<Rightarrow> m = body_mode (rc_body content) \<and> m \<in> {NoBody, Multipart, Binary})"

lemma seen_left_rows: "list_all (\<lambda>(k, _). k \<noteq> []) pairs \<Longrightarrow> seen_rows (left_rows pairs) = pairs"
  by (induction pairs) (auto simp: seen_rows_def left_rows_def)

lemma seen_rows_named: "list_all (\<lambda>(k, _). k \<noteq> []) (seen_rows rows)"
  by (auto simp: seen_rows_def list_all_iff)

lemma seen_is_writable: "writable content (script_request_of content)"
  by (auto simp: writable_def script_request_of_def Let_def seen_rows_named split: body_mode.splits)

text \<open>
  What a script leaves is what is sent: of the request as the script left it, a script sees what was left,
  method, address, headers and body, so the next script and the build start from there; and a script that
  changes nothing changes nothing that is seen.
\<close>

theorem script_request_round_trip:
  assumes "writable content request"
  shows "script_request_of (with_script_request content request) = request \<and>
    script_request_of (with_script_request content (script_request_of content)) = script_request_of content"
proof -
  have "script_request_of (with_script_request content r) = r" if "writable content r" for r
    using that
    by (cases r) (auto simp: script_request_of_def with_script_request_def writable_def Let_def seen_left_rows
        raw_text_of_def split: script_body.splits body_mode.splits)
  from this [OF assms] this [OF seen_is_writable] show ?thesis ..
qed

lemma script_request_round_trip_witness:
  "script_request_of (with_script_request empty_request
     \<lparr>sq_method = ''PUT'', sq_url = ''https://a/'', sq_headers = [(''X'', ''1'')], sq_body = ScriptRaw ''{}''\<rparr>) =
   \<lparr>sq_method = ''PUT'', sq_url = ''https://a/'', sq_headers = [(''X'', ''1'')], sq_body = ScriptRaw ''{}''\<rparr>"
  by (rule script_request_round_trip [THEN conjunct1]) (simp add: writable_def)

text \<open>What a GraphQL body is to a script that leaves it alone: the body it was, not its JSON.\<close>

lemma untouched_graphql:
  "body_mode (rc_body content) = Graphql \<Longrightarrow>
   rc_body (with_script_request content (script_request_of content)) = rc_body content"
  by (simp add: with_script_request_def script_request_of_def Let_def)


end
