(* ===== verification/Receive.thy ===== *)
theory Receive
  imports Build RequestView
begin

text \<open>
  What the report of an import tells the person who received a collection: where it sends
  (\<open>packages/core/src/import/hosts.ts\<close>), and what it needs of them and brings along (\<open>import/receiver-lines.ts\<close>).
\<close>

section \<open>The hosts a collection sends to\<close>

text \<open>What the collection itself gives a request in these holders, and nothing else.\<close>

definition own_scopes :: "ancestor list \<Rightarrow> scope_stack" where
  "own_scopes chain scope =
     (case scope of
        Collection \<Rightarrow> anc_variables (hd chain) | Folder \<Rightarrow> concat (map anc_variables (tl chain)) | _ \<Rightarrow> [])"

definition filled_address :: "(string \<Rightarrow> nat \<Rightarrow> string) \<Rightarrow> string \<Rightarrow> ancestor list \<Rightarrow> string" where
  "filled_address fresh address chain =
     (case fst (resolve (new_resolver (own_scopes chain) (\<lambda>_. None) fresh) address start_state) of
        Inl e \<Rightarrow> address
      | Inr s \<Rightarrow> s)"

text \<open>\<open>/^wss?:/i\<close>, and what is left without the scheme: \<open>/^wss?:[/\\]*/i\<close> and \<open>/^[a-z][a-z0-9+.-]*:\/\//i\<close>.\<close>

definition is_socket :: "string \<Rightarrow> bool" where
  "is_socket t \<longleftrightarrow> starts_with (to_lower t) ''ws:'' \<or> starts_with (to_lower t) ''wss:''"

definition slash :: "char \<Rightarrow> bool" where
  "slash c \<longleftrightarrow> c = CHR ''/'' \<or> c = CHR 0x5C"

definition scheme_char :: "char \<Rightarrow> bool" where
  "scheme_char c \<longleftrightarrow> is_alnum c \<or> c = CHR ''+'' \<or> c = CHR ''.'' \<or> c = CHR ''-''"

definition without_scheme :: "string \<Rightarrow> string" where
  "without_scheme t =
     (if is_socket t then dropWhile slash (tl (dropWhile (\<lambda>c. c \<noteq> CHR '':'') t))
      else
        (let (s, r) = span_of scheme_char t
         in if s \<noteq> [] \<and> (is_upper (hd s) \<or> is_lower (hd s)) \<and> starts_with r ''://'' then drop 3 r else t))"

definition written_host :: "string \<Rightarrow> string" where
  "written_host t = takeWhile (\<lambda>c. \<not> slash c \<and> c \<noteq> CHR ''?'' \<and> c \<noteq> CHR ''#'') (without_scheme t)"

definition shown_host :: "(string \<Rightarrow> url option) \<Rightarrow> string \<Rightarrow> string" where
  "shown_host url_parse address =
     (let t = trim address; written = written_host t
      in if t = [] then []
         else if contains written ''{{'' then written
         else case url_parse (if is_socket t then t else normalize_url t) of Some u \<Rightarrow> u_host u | None \<Rightarrow> written)"

definition sign_in_addresses :: "(string \<Rightarrow> nat \<Rightarrow> string) \<Rightarrow> auth_config \<Rightarrow> ancestor list \<Rightarrow> string list" where
  "sign_in_addresses fresh auth chain =
     (case auth of
        OAuth2 a \<Rightarrow> [filled_address fresh (oa_auth_url a) chain, filled_address fresh (oa_token_url a) chain]
      | _ \<Rightarrow> [])"

definition sent_addresses :: "(string \<Rightarrow> nat \<Rightarrow> string) \<Rightarrow> collection \<Rightarrow> folder list \<Rightarrow> request_doc list \<Rightarrow> string list" where
  "sent_addresses fresh c fs rs =
     (let chain = ancestors_of c fs
      in map (\<lambda>r. filled_address fresh (rc_url (rd_content r)) (chain (rd_folder_id r))) rs @
         sign_in_addresses fresh (col_auth c) (chain None) @
         concat (map (\<lambda>f. sign_in_addresses fresh (fol_auth f) (chain (Some (meta_id (fol_meta f))))) fs) @
         concat (map (\<lambda>r. sign_in_addresses fresh (rc_auth (rd_content r)) (chain (rd_folder_id r))) rs))"

definition collection_hosts ::
    "(string \<Rightarrow> url option) \<Rightarrow> (string \<Rightarrow> nat \<Rightarrow> string) \<Rightarrow> collection \<Rightarrow> folder list \<Rightarrow> request_doc list \<Rightarrow> string list" where
  "collection_hosts url_parse fresh c fs rs =
     sort_by text_le (fold set_add (filter (\<lambda>h. h \<noteq> []) (map (shown_host url_parse) (sent_addresses fresh c fs rs))) [])"

section \<open>What the receiver is told\<close>

datatype line_kind = SecretsMissing | SecretsSameName | SecretsUnknown | SecretsYours | Credentials | ScriptsCame

record receiver_line =
  ln_kind :: line_kind
  ln_text :: string
  ln_names :: "string list"
  ln_after :: string

definition noun :: "nat \<Rightarrow> string \<Rightarrow> string" where
  "noun n word = (if n = 1 then word else word @ ''s'')"

definition count_of :: "nat \<Rightarrow> string \<Rightarrow> string" where
  "count_of n word = show_nat n @ '' '' @ noun n word"

definition with_capital :: "string \<Rightarrow> string" where
  "with_capital s = to_upper (take 1 s) @ drop 1 s"

definition secrets_note :: "string list \<Rightarrow> string \<Rightarrow> string" where
  "secrets_note names lead =
     (let one = (length names = 1);
          sent = (if one then ''a request that uses it is'' else ''requests that use them are'') @
            '' not sent until you give the '' @ (if one then ''variable a value'' else ''variables values'') @ ''.''
      in if ends_with lead '','' then lead @ '' '' @ sent
         else join '' '' (filter (\<lambda>s. s \<noteq> []) [lead, with_capital sent]))"

definition secrets_line :: "line_kind \<Rightarrow> string \<Rightarrow> string list \<Rightarrow> string \<Rightarrow> receiver_line" where
  "secrets_line kind t names lead = \<lparr>ln_kind = kind, ln_text = t, ln_names = names, ln_after = secrets_note names lead\<rparr>"

text \<open>The protected variables of the collection and its folders: the secret each refers to, and its name.\<close>

definition protected_rows :: "row list \<Rightarrow> (string \<times> string) list" where
  "protected_rows rows = List.map_filter (\<lambda>r. map_option (\<lambda>i. (i, trim (row_key r))) (protected_secret_id (row_value r))) rows"

definition names_of :: "(string \<times> string) list \<Rightarrow> string list" where
  "names_of rows = fold (\<lambda>r names. set_add (snd r) names) rows []"

text \<open>\<open>vault\<close>: the ids and the names of this vault's secrets, or that it could not be read.\<close>

definition secret_lines :: "(string \<times> string) list \<Rightarrow> (string \<times> string) list option \<Rightarrow> receiver_line list" where
  "secret_lines rows vault =
     (case vault of
        None \<Rightarrow>
          (let needed = names_of rows
           in if needed = [] then []
              else [secrets_line SecretsUnknown (''Needs '' @ count_of (length needed) ''secret'' @ '':'') needed
                     (''If your vault does not have '' @ (if length needed = 1 then ''it'' else ''them'') @ '','')])
      | Some secrets \<Rightarrow>
          (let here = (\<lambda>r. fst r \<in> set (map fst secrets)); named = (\<lambda>r. snd r \<in> set (map (trim \<circ> snd) secrets));
               others = filter (\<lambda>r. \<not> here r) rows; yours = names_of (filter here rows);
               same_name = names_of (filter named others); missing = names_of (filter (\<lambda>r. \<not> named r) others)
           in (if missing = [] then []
               else [secrets_line SecretsMissing (''Needs '' @ count_of (length missing) ''secret'' @ '' you do not have:'') missing []]) @
              (if same_name = [] then []
               else [secrets_line SecretsSameName
                      (if length same_name = 1 then ''Needs 1 of the sender's secrets:''
                       else ''Needs '' @ show_nat (length same_name) @ '' of the sender's secrets:'') same_name
                      (''Your vault has '' @ (if length same_name = 1 then ''a secret'' else ''secrets'') @ '' of '' @
                       (if length same_name = 1 then ''that name'' else ''those names'') @
                       '', but this collection refers to the sender's.'')]) @
              (if yours = [] then []
               else [\<lparr>ln_kind = SecretsYours, ln_text = ''Uses your '' @ noun (length yours) ''secret'' @ '':'', ln_names = yours, ln_after = []\<rparr>])))"

definition credential_lines :: "nat \<Rightarrow> receiver_line list" where
  "credential_lines n =
     (if n = 0 then []
      else [\<lparr>ln_kind = Credentials,
             ln_text = count_of n ''credential'' @ (if n = 1 then '' was'' else '' were'') @ '' not shared and '' @
               (if n = 1 then ''is'' else ''are'') @ '' '' @ MASK @ ''. Type yours in Auth.'', ln_names = [], ln_after = []\<rparr>])"

definition script_lines :: "nat \<Rightarrow> receiver_line list" where
  "script_lines n =
     (if n = 0 then []
      else [\<lparr>ln_kind = ScriptsCame,
             ln_text = count_of n ''script'' @ '' came with it. '' @ (if n = 1 then ''It does'' else ''They do'') @ '' not run until you read '' @
               (if n = 1 then ''it'' else ''them'') @ '' and trust '' @ (if n = 1 then ''it'' else ''them'') @ ''.'',
             ln_names = [], ln_after = []\<rparr>])"

definition receiver_lines :: "collection \<Rightarrow> folder list \<Rightarrow> request_doc list \<Rightarrow> (string \<times> string) list option \<Rightarrow> receiver_line list" where
  "receiver_lines c fs rs vault =
     (let rows = concat (map protected_rows (col_variables c # map fol_variables fs));
          auths = (col_auth c # map fol_auth fs) @ map (rc_auth \<circ> rd_content) rs;
          held = (col_scripts c # map fol_scripts fs) @ map (rc_scripts \<circ> rd_content) rs
      in secret_lines rows vault @
         credential_lines (length (filter (\<lambda>v. v = MASK) (concat (map credentials_of auths)))) @
         script_lines (length (concat (map scripts_of held))))"

definition line_words :: "receiver_line \<Rightarrow> string" where
  "line_words l =
     join '' '' (filter (\<lambda>s. s \<noteq> []) [ln_text l, join '', '' (ln_names l) @ (if ln_names l = [] then [] else ''.''), ln_after l])"

section \<open>No host is left out\<close>

lemma set_fold_add: "set (fold set_add xs ys) = set xs \<union> set ys"
  by (induction xs arbitrary: ys) auto

lemma set_names_of: "set (names_of rows) = snd ` set rows"
proof -
  have "set (fold (\<lambda>r names. set_add (snd r) names) rows ns) = snd ` set rows \<union> set ns" for ns
    by (induction rows arbitrary: ns) auto
  then show ?thesis by (simp add: names_of_def)
qed

lemma host_in: "h \<in> set (collection_hosts url_parse fresh c fs rs) \<longleftrightarrow>
    h \<noteq> [] \<and> h \<in> shown_host url_parse ` set (sent_addresses fresh c fs rs)"
  by (auto simp: collection_hosts_def set_fold_add)

text \<open>
  The host a request of the collection is sent to, when the receiver's own variables add nothing, is among those
  the receiver is shown before anything is stored.
\<close>

theorem hosts_shown:
  assumes "r \<in> set rs" and "trim (rc_url (rd_content r)) = rc_url (rd_content r)"
    and sent: "host_of url_parse fresh (rc_url (rd_content r)) (own_scopes (ancestors_of c fs (rd_folder_id r))) = Inr h"
    and address: "filled_address fresh (rc_url (rd_content r)) (ancestors_of c fs (rd_folder_id r)) = address"
    and plain: "trim address = address" "\<not> is_socket address" "\<not> contains (written_host address) ''{{''"
      "url_parse (normalize_url address) \<noteq> None" and "address \<noteq> []" "h \<noteq> []"
  shows "h \<in> set (collection_hosts url_parse fresh c fs rs)"
proof -
  let ?r = "new_resolver (own_scopes (ancestors_of c fs (rd_folder_id r))) (\<lambda>_. None) fresh"
  obtain s st where s: "resolve ?r (rc_url (rd_content r)) start_state = (Inr s, st)"
    using sent assms(2) by (auto simp: host_of_def resolve_text_def split: prod.splits sum.splits)
  with address have "s = address" by (simp add: filled_address_def)
  with sent s assms(2) plain(4) obtain u where u: "url_parse (normalize_url address) = Some u" "h = u_host u"
    by (auto simp: host_of_def resolve_text_def Let_def)
  have "shown_host url_parse address = h" using plain u assms(9) by (simp add: shown_host_def Let_def)
  moreover have "address \<in> set (sent_addresses fresh c fs rs)"
    using address assms(1) by (force simp: sent_addresses_def Let_def)
  ultimately show ?thesis using assms(10) unfolding host_in by blast
qed

definition shown_collection :: collection where
  "shown_collection =
     \<lparr>col_id = ''c'', col_meta = \<lparr>meta_id = ''c'', meta_created_at = 1, meta_updated_at = 1\<rparr>, col_name = ''Shop'', col_description = None,
      col_order = 0, col_variables = [row_of ''key'' ''{{$secret.s-1}}'', row_of ''code'' ''{{$secret.s-2}}'', row_of ''base'' ''/v1''],
      col_auth = Bearer MASK, col_scripts = \<lparr>script_pre = ''pm.test()'', script_post = []\<rparr>, col_route = None,
      col_script_trust = \<lparr>trusted = True, approved = None\<rparr>\<rparr>"

definition shown_request :: request_doc where
  "shown_request =
     \<lparr>rd_id = ''r'', rd_meta = \<lparr>meta_id = ''r'', meta_created_at = 1, meta_updated_at = 1\<rparr>, rd_collection_id = ''c'', rd_folder_id = None,
      rd_name = ''Login'', rd_description = None, rd_order = 0, rd_content = empty_request\<lparr>rc_url := ''a.example/login''\<rparr>\<rparr>"

definition shown_url :: url where
  "shown_url = \<lparr>u_protocol = ''https:'', u_login = [], u_hostname = ''a.example'', u_port = [], u_path = ''/login'', u_search = [],
     u_hash = [], u_pairs = []\<rparr>"

theorem hosts_shown_witness:
  "''a.example'' \<in> set (collection_hosts (\<lambda>_. Some shown_url) (\<lambda>_ _. []) shown_collection [] [shown_request])"
proof (rule hosts_shown [where r = shown_request and address = "''a.example/login''"])
  let ?url = "rc_url (rd_content shown_request)"
  have url: "?url = ''a.example/login''" by (simp add: shown_request_def)
  have trimmed: "trim ''a.example/login'' = ''a.example/login''" by code_simp
  have plain: "\<not> contains ''a.example/login'' ''{{''" by code_simp
  show "trim ?url = ?url" "trim ''a.example/login'' = ''a.example/login''" using url trimmed by simp_all
  show "host_of (\<lambda>_. Some shown_url) (\<lambda>_ _. []) ?url (own_scopes (ancestors_of shown_collection [] (rd_folder_id shown_request))) = Inr ''a.example''"
    using plain by (simp add: url trimmed host_of_def resolve_text_def resolve_plain_text Let_def shown_url_def u_host_def)
  show "filled_address (\<lambda>_ _. []) ?url (ancestors_of shown_collection [] (rd_folder_id shown_request)) = ''a.example/login''"
    using plain by (simp add: url filled_address_def resolve_plain_text)
  show "\<not> is_socket ''a.example/login''" by code_simp
  show "\<not> contains (written_host ''a.example/login'') ''{{''" by code_simp
qed simp_all

lemma protected_rows_told:
  assumes "(i, name) \<in> set rows"
  shows "\<exists>line \<in> set (secret_lines rows (Some secrets)). name \<in> set (ln_names line) \<and>
    ln_kind line = (if i \<in> fst ` set secrets then SecretsYours
      else if name \<in> (trim \<circ> snd) ` set secrets then SecretsSameName else SecretsMissing)"
proof -
  let ?here = "\<lambda>r. fst r \<in> set (map fst secrets)" and ?named = "\<lambda>r. snd r \<in> set (map (trim \<circ> snd) secrets)"
  have told: "name \<in> set (names_of (filter P rows))" "names_of (filter P rows) \<noteq> []" if "P (i, name)" for P
  proof -
    show "name \<in> set (names_of (filter P rows))" using that assms by (force simp: set_names_of)
    then show "names_of (filter P rows) \<noteq> []" by auto
  qed
  show ?thesis
  proof (cases "i \<in> fst ` set secrets")
    case True
    then show ?thesis using told [of ?here] by (auto simp: secret_lines_def Let_def)
  next
    case False
    then show ?thesis
      using told [of "\<lambda>r. \<not> ?here r \<and> ?named r"] told [of "\<lambda>r. \<not> ?here r \<and> \<not> ?named r"]
      by (auto simp: secret_lines_def Let_def secrets_line_def conj_commute)
  qed
qed



text \<open>The whole report of a collection with two protected variables, one masked credential and a script.\<close>

lemma shown_report:
  "map ln_kind (receiver_lines shown_collection [] [shown_request] (Some [(''s-1'', ''key'')])) =
     [SecretsMissing, SecretsYours, Credentials, ScriptsCame]"
  by code_simp

end
