(* ===== verification/ObjectStore.thy ===== *)
theory ObjectStore
  imports Prelude
begin

text \<open>
  An object store of the browser's database (\<open>src/app/data/idb-core.ts\<close>), as its documentation gives
  it: one record for each key, records read in the order of their keys, \<open>put\<close> that replaces, \<open>add\<close> that
  refuses a key that is there. A transaction is all of its work or none of it: \<open>commit\<close> is
  \<open>commitOrRollback\<close>. The laws the repositories rely on are a locale; the store of this theory has them
  for every way a record may name its key.
\<close>

section \<open>Keys in their order\<close>

text \<open>Texts as keys: code unit by code unit.\<close>

fun key_less :: "string \<Rightarrow> string \<Rightarrow> bool" where
  "key_less s [] \<longleftrightarrow> False"
| "key_less [] (_ # _) \<longleftrightarrow> True"
| "key_less (a # s) (b # t) \<longleftrightarrow> char_nat a < char_nat b \<or> a = b \<and> key_less s t"

lemma key_less_irrefl [simp]: "\<not> key_less s s"
  by (induction s) auto

lemma key_less_trans: "key_less a b \<Longrightarrow> key_less b c \<Longrightarrow> key_less a c"
proof (induction a b arbitrary: c rule: key_less.induct)
  case (2 b t)
  then show ?case by (cases c) auto
next
  case (3 a s b t)
  then show ?case by (cases c) auto
qed simp

lemma key_less_total: "s \<noteq> t \<Longrightarrow> key_less s t \<or> key_less t s"
proof (induction s t rule: key_less.induct)
  case (1 s)
  then show ?case by (cases s) auto
next
  case (3 a s b t)
  then show ?case by (metis char_of_char_nat key_less.simps(3) nat_neq_iff)
qed simp

section \<open>A store\<close>

definition store_get :: "('a \<Rightarrow> string) \<Rightarrow> 'a list \<Rightarrow> string \<Rightarrow> 'a option" where
  "store_get key st k = List.find (\<lambda>x. key x = k) st"

fun store_put :: "('a \<Rightarrow> string) \<Rightarrow> 'a \<Rightarrow> 'a list \<Rightarrow> 'a list" where
  "store_put key x [] = [x]"
| "store_put key x (y # ys) =
     (if key y = key x then x # ys
      else if key_less (key x) (key y) then x # y # ys
      else y # store_put key x ys)"

definition store_delete :: "('a \<Rightarrow> string) \<Rightarrow> string \<Rightarrow> 'a list \<Rightarrow> 'a list" where
  "store_delete key k st = filter (\<lambda>x. key x \<noteq> k) st"

definition store_ok :: "('a \<Rightarrow> string) \<Rightarrow> 'a list \<Rightarrow> bool" where
  "store_ok key st \<longleftrightarrow> sorted_wrt (\<lambda>a b. key_less (key a) (key b)) st"

definition store_add :: "('a \<Rightarrow> string) \<Rightarrow> 'a \<Rightarrow> 'a list \<Rightarrow> string + 'a list" where
  "store_add key x st =
     (if store_get key st (key x) \<noteq> None then Inl ''ConstraintError'' else Inr (store_put key x st))"

definition store_puts :: "('a \<Rightarrow> string) \<Rightarrow> 'a list \<Rightarrow> 'a list \<Rightarrow> 'a list" where
  "store_puts key xs st = fold (store_put key) xs st"

definition store_deletes :: "('a \<Rightarrow> string) \<Rightarrow> string list \<Rightarrow> 'a list \<Rightarrow> 'a list" where
  "store_deletes key ks st = fold (store_delete key) ks st"

section \<open>A transaction\<close>

definition commit :: "('d \<Rightarrow> string + ('a \<times> 'd)) \<Rightarrow> 'd \<Rightarrow> (string + 'a) \<times> 'd" where
  "commit work db = (case work db of Inl e \<Rightarrow> (Inl e, db) | Inr (a, db') \<Rightarrow> (Inr a, db'))"

section \<open>What the repositories rely on\<close>

locale object_store =
  fixes key :: "'a \<Rightarrow> string"
    and get :: "'a list \<Rightarrow> string \<Rightarrow> 'a option"
    and put :: "'a \<Rightarrow> 'a list \<Rightarrow> 'a list"
    and del :: "string \<Rightarrow> 'a list \<Rightarrow> 'a list"
    and ok :: "'a list \<Rightarrow> bool"
  assumes get_put: "ok st \<Longrightarrow> get (put x st) k = (if k = key x then Some x else get st k)"
    and get_del: "get (del k st) k' = (if k' = k then None else get st k')"
    and ok_put: "ok st \<Longrightarrow> ok (put x st)"
    and ok_del: "ok st \<Longrightarrow> ok (del k st)"
    and get_Some: "get st k = Some x \<Longrightarrow> key x = k \<and> x \<in> set st"
    and get_in: "ok st \<Longrightarrow> x \<in> set st \<Longrightarrow> get st (key x) = Some x"
    and same_store: "ok st \<Longrightarrow> ok st' \<Longrightarrow> (\<And>k. get st k = get st' k) \<Longrightarrow> st = st'"
begin

definition puts :: "'a list \<Rightarrow> 'a list \<Rightarrow> 'a list" where
  "puts xs st = fold put xs st"

definition dels :: "string list \<Rightarrow> 'a list \<Rightarrow> 'a list" where
  "dels ks st = fold del ks st"

lemma ok_puts: "ok st \<Longrightarrow> ok (puts xs st)"
  unfolding puts_def by (induction xs arbitrary: st) (simp_all add: ok_put)

lemma ok_dels: "ok st \<Longrightarrow> ok (dels ks st)"
  unfolding dels_def by (induction ks arbitrary: st) (simp_all add: ok_del)

lemma in_store: "ok st \<Longrightarrow> x \<in> set st \<longleftrightarrow> get st (key x) = Some x"
  using get_in get_Some by blast

lemma set_put: "ok st \<Longrightarrow> set (put x st) = insert x {y \<in> set st. key y \<noteq> key x}"
  by (auto simp: in_store [OF ok_put] in_store get_put split: if_splits)

lemma get_dels: "get (dels ks st) k = (if k \<in> set ks then None else get st k)"
  unfolding dels_def by (induction ks arbitrary: st) (simp_all add: get_del)

lemma set_dels: "ok st \<Longrightarrow> set (dels ks st) = {x \<in> set st. key x \<notin> set ks}"
  by (auto simp: in_store [OF ok_dels] in_store get_dels split: if_splits)

text \<open>Records put one after the other, of which any two of one key are the same.\<close>

lemma get_puts:
  assumes "ok st" "\<And>x y. x \<in> set xs \<Longrightarrow> y \<in> set xs \<Longrightarrow> key x = key y \<Longrightarrow> x = y"
  shows "get (puts xs st) k = (case List.find (\<lambda>x. key x = k) xs of Some x \<Rightarrow> Some x | None \<Rightarrow> get st k)"
  using assms
proof (induction xs arbitrary: st)
  case (Cons x xs)
  have "get (puts xs (put x st)) k = (case List.find (\<lambda>x. key x = k) xs of Some x \<Rightarrow> Some x | None \<Rightarrow> get (put x st) k)"
  proof (rule Cons.IH)
    show "ok (put x st)" by (rule ok_put [OF Cons.prems(1)])
    show "y = z" if "y \<in> set xs" "z \<in> set xs" "key y = key z" for y z
      by (rule Cons.prems(2)) (use that in simp_all)
  qed
  moreover have "y = x" if "List.find (\<lambda>x. key x = k) xs = Some y" "key x = k" for y
  proof (rule Cons.prems(2))
    have "y \<in> set xs \<and> key y = k" using that(1) by (auto simp: find_Some_iff)
    with that(2) show "y \<in> set (x # xs)" "x \<in> set (x # xs)" "key y = key x" by simp_all
  qed
  ultimately show ?case
    by (cases "List.find (\<lambda>x. key x = k) xs") (auto simp: puts_def get_put [OF Cons.prems(1)])
qed (simp add: puts_def)

lemma set_puts:
  assumes "ok st" "\<And>x y. x \<in> set xs \<Longrightarrow> y \<in> set xs \<Longrightarrow> key x = key y \<Longrightarrow> x = y"
  shows "set (puts xs st) = set xs \<union> {y \<in> set st. key y \<notin> key ` set xs}"
  using assms
proof (induction xs arbitrary: st)
  case (Cons x xs)
  have "set (puts xs (put x st)) = set xs \<union> {y \<in> set (put x st). key y \<notin> key ` set xs}"
  proof (rule Cons.IH)
    show "ok (put x st)" by (rule ok_put [OF Cons.prems(1)])
    show "y = z" if "y \<in> set xs" "z \<in> set xs" "key y = key z" for y z
      by (rule Cons.prems(2)) (use that in simp_all)
  qed
  moreover have "x \<in> set xs" if "key x \<in> key ` set xs"
  proof -
    from that obtain y where "y \<in> set xs" "key x = key y" by blast
    with Cons.prems(2) [of x y] show ?thesis by simp
  qed
  ultimately show ?case by (auto simp: puts_def set_put [OF Cons.prems(1)])
qed (simp add: puts_def)

text \<open>What was taken out and put back again.\<close>

lemma puts_back:
  assumes "ok st" "ok st'" "set xs \<subseteq> set st" "set st' \<subseteq> set st" "set st \<subseteq> set st' \<union> set xs"
  shows "puts xs st' = st"
proof (rule same_store)
  fix k
  have apart: "x = y" if "x \<in> set xs" "y \<in> set xs" "key x = key y" for x y
    using that assms(1,3) by (metis get_in option.inject subsetD)
  show "get (puts xs st') k = get st k"
  proof (cases "List.find (\<lambda>x. key x = k) xs")
    case None
    then have none: "\<forall>x \<in> set xs. key x \<noteq> k" by (auto simp: find_None_iff)
    have "get st' k = get st k"
    proof (cases "get st k")
      case None
      then show ?thesis using assms(1,4) get_Some get_in by (metis not_None_eq subsetD)
    next
      case (Some x)
      then have "key x = k" "x \<in> set st" using get_Some by blast+
      with none assms(5) have "x \<in> set st'" by blast
      with Some \<open>key x = k\<close> assms(2) get_in show ?thesis by metis
    qed
    with None show ?thesis by (simp add: get_puts [OF assms(2) apart])
  next
    case (Some x)
    then have "x \<in> set xs" "key x = k" by (auto simp: find_Some_iff)
    then have "get st k = Some x" using assms(1,3) get_in by blast
    with Some show ?thesis by (simp add: get_puts [OF assms(2) apart])
  qed
qed (simp_all add: assms ok_puts)

lemma dels_puts_back:
  assumes "ok st" "set xs \<subseteq> set st"
  shows "puts xs (dels (map key xs) st) = st"
proof (rule puts_back)
  show "set st \<subseteq> set (dels (map key xs) st) \<union> set xs"
  proof
    fix x assume x: "x \<in> set st"
    have "x \<in> set xs" if "key x \<in> set (map key xs)"
    proof -
      from that obtain y where "y \<in> set xs" "key y = key x" by auto
      with assms x show ?thesis by (metis get_in option.inject subsetD)
    qed
    with x show "x \<in> set (dels (map key xs) st) \<union> set xs" by (auto simp: set_dels [OF assms(1)])
  qed
qed (simp_all add: assms ok_dels set_dels)

end

lemma store_ok_Cons: "store_ok key (x # st) \<longleftrightarrow> (\<forall>y \<in> set st. key_less (key x) (key y)) \<and> store_ok key st"
  by (simp add: store_ok_def)

lemma set_store_put: "set (store_put key x st) \<subseteq> insert x (set st)"
  by (induction st) auto

lemma store_ok_put: "store_ok key st \<Longrightarrow> store_ok key (store_put key x st)"
proof (induction st)
  case (Cons y ys)
  show ?case
  proof (cases "key y = key x \<or> key_less (key x) (key y)")
    case True
    with Cons.prems show ?thesis by (auto simp: store_ok_Cons intro: key_less_trans)
  next
    case False
    then have "key_less (key y) (key x)" using key_less_total by metis
    with False Cons set_store_put [of key x ys] show ?thesis by (auto simp: store_ok_Cons)
  qed
qed (simp add: store_ok_def)

lemma store_get_put: "store_ok key st \<Longrightarrow> store_get key (store_put key x st) k = (if k = key x then Some x else store_get key st k)"
proof (induction st)
  case (Cons y ys)
  then show ?case by (auto simp: store_get_def store_ok_Cons find_None_iff)
qed (simp add: store_get_def)

lemma store_get_in: "store_ok key st \<Longrightarrow> x \<in> set st \<Longrightarrow> store_get key st (key x) = Some x"
  by (induction st) (auto simp: store_get_def store_ok_Cons)

lemma store_get_Some: "store_get key st k = Some x \<Longrightarrow> key x = k \<and> x \<in> set st"
  by (auto simp: store_get_def find_Some_iff)

lemma store_same:
  assumes "store_ok key st" "store_ok key st'" "\<And>k. store_get key st k = store_get key st' k"
  shows "st = st'"
proof -
  have sub: "set a \<subseteq> set b" if "store_ok key a" "\<And>k. store_get key a k = store_get key b k" for a b
    using that store_get_in store_get_Some by (metis subsetI)
  have "set st = set st'"
    using sub [OF assms(1,3)] sub [OF assms(2) assms(3) [symmetric]] by blast
  with assms(1,2) show ?thesis
  proof (induction st arbitrary: st')
    case (Cons x st)
    then obtain y tl where st': "st' = y # tl" by (cases st') auto
    have "x = y"
    proof (rule ccontr)
      assume "x \<noteq> y"
      with Cons.prems st' have "key_less (key x) (key y)" "key_less (key y) (key x)"
        by (auto simp: store_ok_Cons)
      then show False using key_less_trans key_less_irrefl by blast
    qed
    moreover have "x \<notin> set st" "y \<notin> set tl" using Cons.prems st' by (auto simp: store_ok_Cons)
    ultimately have "set st = set tl" using Cons.prems(3) st' by auto
    with Cons st' \<open>x = y\<close> show ?case by (simp add: store_ok_Cons)
  qed simp
qed

interpretation ob: object_store key "store_get key" "store_put key" "store_delete key" "store_ok key" for key :: "'a \<Rightarrow> string"
proof
  fix st st' :: "'a list" and x k k'
  show "store_get key (store_delete key k st) k' = (if k' = k then None else store_get key st k')"
    by (induction st) (auto simp: store_get_def store_delete_def)
  show "store_ok key st \<Longrightarrow> store_ok key (store_delete key k st)"
    by (simp add: store_ok_def store_delete_def sorted_wrt_filter)
qed (fact store_get_put store_ok_put store_get_Some store_get_in store_same)+

lemma store_puts_eq: "store_puts key = ob.puts key"
  by (simp add: store_puts_def ob.puts_def fun_eq_iff)

lemma store_deletes_eq: "store_deletes key = ob.dels key"
  by (simp add: store_deletes_def ob.dels_def fun_eq_iff)

text \<open>What a key has after a list of records was put.\<close>

lemma get_puts_other:
  assumes "store_ok key st" "k \<notin> key ` set xs"
  shows "store_get key (store_puts key xs st) k = store_get key st k"
  using assms
proof (induction xs arbitrary: st)
  case (Cons x xs)
  have "store_get key (store_puts key xs (store_put key x st)) k = store_get key (store_put key x st) k"
    by (rule Cons.IH) (use Cons.prems in \<open>simp_all add: ob.ok_put\<close>)
  with Cons.prems show ?case by (simp add: store_puts_def ob.get_put)
qed (simp add: store_puts_def)

lemma get_puts_these:
  assumes "store_ok key st" "k \<in> key ` set xs"
  shows "\<exists>x \<in> set xs. store_get key (store_puts key xs st) k = Some x"
  using assms
proof (induction xs arbitrary: st)
  case (Cons x xs)
  have ok: "store_ok key (store_put key x st)" using Cons.prems by (simp add: ob.ok_put)
  show ?case
  proof (cases "k \<in> key ` set xs")
    case True
    from Cons.IH [OF ok True] show ?thesis by (auto simp: store_puts_def)
  next
    case False
    with get_puts_other [OF ok False] Cons.prems show ?thesis by (auto simp: store_puts_def ob.get_put)
  qed
qed simp

lemma elem_puts:
  assumes "store_ok key st" "y \<in> set (store_puts key xs st)"
  shows "y \<in> set xs \<or> y \<in> set st \<and> key y \<notin> key ` set xs"
proof -
  have "store_ok key (store_puts key xs st)" using assms(1) by (simp add: store_puts_eq ob.ok_puts)
  from ob.get_in [OF this assms(2)] have get: "store_get key (store_puts key xs st) (key y) = Some y" .
  show ?thesis
  proof (cases "key y \<in> key ` set xs")
    case True
    from get_puts_these [OF assms(1) True] get show ?thesis by auto
  next
    case False
    with get get_puts_other [OF assms(1) False] show ?thesis using ob.get_Some by metis
  qed
qed

end
