(* ===== verification/Workspace.thy ===== *)
theory Workspace
  imports ObjectStore Variables
begin

text \<open>
  The tree of collections as the app stores it (\<open>src/app/data\<close>: \<open>collections-repository.ts\<close>,
  \<open>folders-repository.ts\<close>, \<open>collection-requests-repository.ts\<close>, \<open>removed.ts\<close>, \<open>request-files.ts\<close>): the
  stores of collections, folders, requests and the files of requests' bodies, and every operation on them
  as one transaction. What \<open>createMeta\<close> gives (an id of \<open>newId\<close> and the time) is a parameter: \<open>fresh n\<close> is
  what the operation's call number \<open>n\<close> gives; \<open>now\<close> is the time \<open>touchMeta\<close> reads. \<open>localeCompare\<close> is a
  parameter of the two lists that sort by it.
\<close>

section \<open>The stores\<close>

record stored_file =
  sf_bytes :: string
  sf_type :: string

record database =
  db_collections :: "collection list"
  db_folders :: "folder list"
  db_requests :: "request_doc list"
  db_files :: "(string \<times> stored_file) list"

definition col_key :: "collection \<Rightarrow> string" where
  "col_key c = meta_id (col_meta c)"

definition fol_key :: "folder \<Rightarrow> string" where
  "fol_key f = meta_id (fol_meta f)"

definition req_key :: "request_doc \<Rightarrow> string" where
  "req_key r = meta_id (rd_meta r)"

text \<open>\<open>ensureId\<close>: a record without an id of its own takes its key's.\<close>

definition ensure_collection :: "collection \<Rightarrow> collection" where
  "ensure_collection c = (if col_id c = [] then c\<lparr>col_id := col_key c\<rparr> else c)"

definition ensure_folder :: "folder \<Rightarrow> folder" where
  "ensure_folder f = (if fol_id f = [] then f\<lparr>fol_id := fol_key f\<rparr> else f)"

definition ensure_request :: "request_doc \<Rightarrow> request_doc" where
  "ensure_request r = (if rd_id r = [] then r\<lparr>rd_id := req_key r\<rparr> else r)"

definition touch_meta :: "rat \<Rightarrow> meta \<Rightarrow> meta" where
  "touch_meta now m = m\<lparr>meta_updated_at := now\<rparr>"

text \<open>The place after the last of every store given.\<close>

definition next_order :: "rat list list \<Rightarrow> rat" where
  "next_order orders = fold (\<lambda>os m. fold max os m) orders 0 + 1"

definition tree_order :: "database \<Rightarrow> rat" where
  "tree_order db = next_order [map fol_order (db_folders db), map rd_order (db_requests db)]"

definition folders_in_collection :: "database \<Rightarrow> string \<Rightarrow> folder list" where
  "folders_in_collection db c = filter (\<lambda>f. fol_collection_id f = c) (db_folders db)"

definition requests_in_collection :: "database \<Rightarrow> string \<Rightarrow> request_doc list" where
  "requests_in_collection db c = filter (\<lambda>r. rd_collection_id r = c) (db_requests db)"

definition folders_inside :: "database \<Rightarrow> string \<Rightarrow> folder list" where
  "folders_inside db p = filter (\<lambda>f. fol_parent f = Some p) (db_folders db)"

definition requests_inside :: "database \<Rightarrow> string \<Rightarrow> request_doc list" where
  "requests_inside db f = filter (\<lambda>r. rd_folder_id r = Some f) (db_requests db)"

text \<open>\<open>a.order - b.order || a.meta.id.localeCompare(b.meta.id)\<close>\<close>

definition folder_before :: "(string \<Rightarrow> string \<Rightarrow> bool) \<Rightarrow> folder \<Rightarrow> folder \<Rightarrow> bool" where
  "folder_before locale_le a b \<longleftrightarrow>
     fol_order a < fol_order b \<or> fol_order a = fol_order b \<and> locale_le (fol_key a) (fol_key b)"

definition request_before :: "(string \<Rightarrow> string \<Rightarrow> bool) \<Rightarrow> request_doc \<Rightarrow> request_doc \<Rightarrow> bool" where
  "request_before locale_le a b \<longleftrightarrow>
     rd_order a < rd_order b \<or> rd_order a = rd_order b \<and> locale_le (req_key a) (req_key b)"

section \<open>Files\<close>

definition request_files :: "request_doc \<Rightarrow> string list" where
  "request_files r = file_ids_of (rc_body (rd_content r))"

definition used_files :: "request_doc list \<Rightarrow> string list" where
  "used_files rs = concat (map request_files rs)"

definition sweep_files :: "database \<Rightarrow> database" where
  "sweep_files db = db\<lparr>db_files := filter (\<lambda>(i, _). i \<in> set (used_files (db_requests db))) (db_files db)\<rparr>"

definition files_of :: "database \<Rightarrow> request_doc list \<Rightarrow> (string \<times> stored_file) list" where
  "files_of db rs =
     concat (map (\<lambda>i. case store_get fst (db_files db) i of None \<Rightarrow> [] | Some f \<Rightarrow> [f]) (fold set_add (used_files rs) []))"

definition store_files :: "(string \<times> stored_file) list \<Rightarrow> database \<Rightarrow> database" where
  "store_files files db = db\<lparr>db_files := store_puts fst files (db_files db)\<rparr>"

section \<open>What a delete takes out, and Undo\<close>

record removed =
  rm_collections :: "collection list"
  rm_folders :: "folder list"
  rm_requests :: "request_doc list"
  rm_files :: "(string \<times> stored_file) list"

definition has_collection :: "database \<Rightarrow> string \<Rightarrow> bool" where
  "has_collection db c \<longleftrightarrow> store_get col_key (db_collections db) c \<noteq> None"

definition put_back :: "removed \<Rightarrow> database \<Rightarrow> database" where
  "put_back rm db =
     (let db1 = db\<lparr>db_collections := store_puts col_key (rm_collections rm) (db_collections db)\<rparr>;
          db2 = db1\<lparr>db_folders := store_puts fol_key (filter (\<lambda>f. has_collection db1 (fol_collection_id f)) (rm_folders rm)) (db_folders db1)\<rparr>;
          requests = filter (\<lambda>r. has_collection db1 (rd_collection_id r)) (rm_requests rm);
          db3 = db2\<lparr>db_requests := store_puts req_key requests (db_requests db2)\<rparr>
      in if requests \<noteq> [] then store_files (rm_files rm) db3 else db3)"

definition restore :: "removed \<Rightarrow> database \<Rightarrow> (string + unit) \<times> database" where
  "restore rm = commit (\<lambda>db. Inr ((), put_back rm db))"

section \<open>Folders\<close>

definition list_folders :: "(string \<Rightarrow> string \<Rightarrow> bool) \<Rightarrow> database \<Rightarrow> string \<Rightarrow> folder list" where
  "list_folders locale_le db c =
     map ensure_folder (sort_by (folder_before locale_le) (folders_in_collection db c))"

record new_folder =
  nf_collection :: string
  nf_name :: string
  nf_parent :: "string option"
  nf_order :: "rat option"

definition create_folder :: "meta \<Rightarrow> new_folder \<Rightarrow> database \<Rightarrow> (string + folder) \<times> database" where
  "create_folder m payload = commit (\<lambda>db.
     let doc = ensure_folder
           \<lparr>fol_id = meta_id m, fol_meta = m, fol_collection_id = nf_collection payload, fol_parent = nf_parent payload,
            fol_name = trim (nf_name payload), fol_description = None,
            fol_order = (case nf_order payload of Some n \<Rightarrow> n | None \<Rightarrow> tree_order db), fol_variables = [],
            fol_auth = Inherit, fol_scripts = \<lparr>script_pre = [], script_post = []\<rparr>\<rparr>
     in case store_add fol_key doc (db_folders db) of
          Inl e \<Rightarrow> Inl e
        | Inr fs \<Rightarrow> Inr (doc, db\<lparr>db_folders := fs\<rparr>))"

text \<open>\<open>change\<close>: what the folder becomes, with its time; nothing when it is not there.\<close>

definition change_folder :: "rat \<Rightarrow> string \<Rightarrow> (folder \<Rightarrow> folder) \<Rightarrow> database \<Rightarrow> (string + folder option) \<times> database" where
  "change_folder now i change = commit (\<lambda>db.
     case store_get fol_key (db_folders db) i of
       None \<Rightarrow> Inr (None, db)
     | Some doc \<Rightarrow>
         let updated = (change doc)\<lparr>fol_meta := touch_meta now (fol_meta doc)\<rparr>
         in Inr (Some updated, db\<lparr>db_folders := store_put fol_key updated (db_folders db)\<rparr>))"

definition set_folder_inherited ::
    "rat \<Rightarrow> string \<Rightarrow> auth_config \<Rightarrow> scripts \<Rightarrow> database \<Rightarrow> (string + folder option) \<times> database" where
  "set_folder_inherited now i a s = change_folder now i (\<lambda>f. f\<lparr>fol_auth := a, fol_scripts := s\<rparr>)"

definition change_folder_variables ::
    "rat \<Rightarrow> string \<Rightarrow> variable_change list \<Rightarrow> database \<Rightarrow> (string + folder option) \<times> database" where
  "change_folder_variables now i changes =
     change_folder now i (\<lambda>f. f\<lparr>fol_variables := apply_variable_changes (fol_variables f) changes\<rparr>)"

definition rename_folder :: "rat \<Rightarrow> string \<Rightarrow> string \<Rightarrow> database \<Rightarrow> (string + folder option) \<times> database" where
  "rename_folder now i n = commit (\<lambda>db.
     case store_get fol_key (db_folders db) i of
       None \<Rightarrow> Inr (None, db)
     | Some doc \<Rightarrow>
         let doc' = ensure_folder (doc\<lparr>fol_name := trim n, fol_meta := touch_meta now (fol_meta doc)\<rparr>)
         in Inr (Some doc', db\<lparr>db_folders := store_put fol_key doc' (db_folders db)\<rparr>))"

text \<open>The folders inside a folder: what was seen, what was found, what is still to be opened.\<close>

definition subtree_step :: "folder \<Rightarrow> string list \<times> folder list \<times> string list \<Rightarrow> string list \<times> folder list \<times> string list" where
  "subtree_step f st =
     (case st of (seen, found, queue) \<Rightarrow>
        if fol_key f \<in> set seen then st else (seen @ [fol_key f], found @ [f], queue @ [fol_key f]))"

lemma subtree_step_seen: "fol_key f \<in> set seen \<Longrightarrow> subtree_step f (seen, found, queue) = (seen, found, queue)"
  by (simp add: subtree_step_def)

lemma subtree_step_new:
  "fol_key f \<notin> set seen \<Longrightarrow>
   subtree_step f (seen, found, queue) = (seen @ [fol_key f], found @ [f], queue @ [fol_key f])"
  by (simp add: subtree_step_def)

lemma subtree_step_sizes:
  assumes "fold subtree_step fs (seen, found, queue) = (seen', found', queue')" "set fs \<subseteq> set folders"
  shows "length queue' + card (fol_key ` set folders - set seen') \<le> length queue + card (fol_key ` set folders - set seen)"
  using assms
proof (induction fs arbitrary: seen found queue)
  case (Cons f fs)
  show ?case
  proof (cases "fol_key f \<in> set seen")
    case True
    with Cons show ?thesis by (simp add: subtree_step_seen)
  next
    case False
    let ?K = "fol_key ` set folders"
    have "fol_key f \<in> ?K - set seen" using False Cons.prems(2) by auto
    then have "card (?K - set (seen @ [fol_key f])) < card (?K - set seen)"
      by (intro psubset_card_mono) auto
    moreover have "length queue' + card (?K - set seen') \<le> length (queue @ [fol_key f]) + card (?K - set (seen @ [fol_key f]))"
    proof (rule Cons.IH)
      show "fold subtree_step fs (seen @ [fol_key f], found @ [f], queue @ [fol_key f]) = (seen', found', queue')"
        using Cons.prems(1) False by (simp add: subtree_step_new)
      show "set fs \<subseteq> set folders" using Cons.prems(2) by simp
    qed
    ultimately show ?thesis by simp
  qed
qed simp

function subtree_loop :: "folder list \<Rightarrow> string list \<Rightarrow> folder list \<Rightarrow> string list \<Rightarrow> folder list" where
  "subtree_loop folders seen found [] = found"
| "subtree_loop folders seen found (p # queue) =
     (case fold subtree_step (filter (\<lambda>f. fol_parent f = Some p) folders) (seen, found, queue) of
        (seen', found', queue') \<Rightarrow> subtree_loop folders seen' found' queue')"
  by pat_completeness auto
termination
proof (relation "measure (\<lambda>(folders, seen, found, queue). length queue + card (fol_key ` set folders - set seen))", goal_cases)
  case 1 show ?case by simp
next
  case (2 folders seen found p queue x y xa ya)
  then have "fold subtree_step (filter (\<lambda>f. fol_parent f = Some p) folders) (seen, found, queue) = (x, xa, ya)"
    by simp
  from subtree_step_sizes [OF this, of folders] show ?case by auto
qed

definition subtree :: "database \<Rightarrow> string \<Rightarrow> folder list" where
  "subtree db i = subtree_loop (db_folders db) [i] [] [i]"

text \<open>
  A copy of a folder: each folder of the list is copied under the next id, into the copy of its parent, and its
  requests after it. \<open>copies\<close> is the map from a folder to its copy; \<open>n\<close> counts the ids made.
\<close>

fun copy_requests :: "(nat \<Rightarrow> meta) \<Rightarrow> string \<Rightarrow> string \<Rightarrow> request_doc list \<Rightarrow> nat \<times> database \<Rightarrow> string + (nat \<times> database)" where
  "copy_requests fresh c f [] st = Inr st"
| "copy_requests fresh c f (r # rs) (n, db) =
     (let m = fresh n; copy = ensure_request (r\<lparr>rd_id := meta_id m, rd_meta := m, rd_folder_id := Some f, rd_collection_id := c\<rparr>)
      in case store_add req_key copy (db_requests db) of
           Inl e \<Rightarrow> Inl e
         | Inr rs' \<Rightarrow> copy_requests fresh c f rs (Suc n, db\<lparr>db_requests := rs'\<rparr>))"

definition folder_copy :: "meta \<Rightarrow> folder \<Rightarrow> bool \<Rightarrow> (string \<times> string) list \<Rightarrow> database \<Rightarrow> folder" where
  "folder_copy m f first copies db =
     ensure_folder
       (if first then f\<lparr>fol_id := meta_id m, fol_meta := m, fol_name := fol_name f @ '' copy'', fol_order := tree_order db\<rparr>
        else f\<lparr>fol_id := meta_id m, fol_meta := m,
            fol_parent := om_get copies (case fol_parent f of None \<Rightarrow> [] | Some p \<Rightarrow> p)\<rparr>)"

fun copy_folders ::
    "(nat \<Rightarrow> meta) \<Rightarrow> string \<Rightarrow> bool \<Rightarrow> folder list \<Rightarrow> (string \<times> string) list \<Rightarrow> nat \<times> database \<Rightarrow> string + (nat \<times> database)" where
  "copy_folders fresh c first [] copies st = Inr st"
| "copy_folders fresh c first (f # fs) copies (n, db) =
     (let m = fresh n; copies' = om_set (fol_key f) (meta_id m) copies; copy = folder_copy m f first copies' db
      in case store_add fol_key copy (db_folders db) of
           Inl e \<Rightarrow> Inl e
         | Inr fs' \<Rightarrow>
             let db1 = db\<lparr>db_folders := fs'\<rparr>
             in case copy_requests fresh c (meta_id m) (requests_inside db1 (fol_key f)) (Suc n, db1) of
                  Inl e \<Rightarrow> Inl e
                | Inr st \<Rightarrow> copy_folders fresh c False fs copies' st)"

definition duplicate_folder :: "(nat \<Rightarrow> meta) \<Rightarrow> string \<Rightarrow> database \<Rightarrow> (string + folder option) \<times> database" where
  "duplicate_folder fresh i = commit (\<lambda>db.
     case store_get fol_key (db_folders db) i of
       None \<Rightarrow> Inr (None, db)
     | Some original \<Rightarrow>
         (case copy_folders fresh (fol_collection_id original) True (original # subtree db i) [] (0, db) of
            Inl e \<Rightarrow> Inl e
          | Inr (_, db') \<Rightarrow>
              Inr (Some (folder_copy (fresh 0) original True [(fol_key original, meta_id (fresh 0))] db), db')))"

definition delete_folder :: "string \<Rightarrow> database \<Rightarrow> (string + removed) \<times> database" where
  "delete_folder i = commit (\<lambda>db.
     let folders = (case store_get fol_key (db_folders db) i of None \<Rightarrow> [] | Some f \<Rightarrow> [f]) @ subtree db i;
         requests = concat (map (\<lambda>f. requests_inside db (fol_key f)) folders);
         files = files_of db requests;
         db' = sweep_files (db\<lparr>db_folders := store_deletes fol_key (map fol_key folders) (db_folders db),
           db_requests := store_deletes req_key (map req_key requests) (db_requests db)\<rparr>)
     in Inr (\<lparr>rm_collections = [], rm_folders = folders, rm_requests = requests, rm_files = files\<rparr>, db'))"

definition reorder_child :: "rat \<Rightarrow> string \<times> rat \<Rightarrow> database \<Rightarrow> database" where
  "reorder_child now entry db =
     (case store_get fol_key (db_folders db) (fst entry) of
        Some f \<Rightarrow>
          db\<lparr>db_folders := store_put fol_key (f\<lparr>fol_order := snd entry, fol_meta := touch_meta now (fol_meta f)\<rparr>) (db_folders db)\<rparr>
      | None \<Rightarrow>
          (case store_get req_key (db_requests db) (fst entry) of
             Some r \<Rightarrow>
               db\<lparr>db_requests := store_put req_key (r\<lparr>rd_order := snd entry, rd_meta := touch_meta now (rd_meta r)\<rparr>) (db_requests db)\<rparr>
           | None \<Rightarrow> db))"

definition reorder_children :: "rat \<Rightarrow> (string \<times> rat) list \<Rightarrow> database \<Rightarrow> (string + unit) \<times> database" where
  "reorder_children now entries = commit (\<lambda>db. Inr ((), fold (reorder_child now) entries db))"

section \<open>Collections\<close>

text \<open>\<open>getAll\<close> of the index \<open>by-order\<close>: by the order, then by the key.\<close>

definition list_collections :: "database \<Rightarrow> collection list" where
  "list_collections db =
     map ensure_collection
       (sort_by (\<lambda>a b. col_order a < col_order b \<or> col_order a = col_order b \<and> \<not> key_less (col_key b) (col_key a))
         (db_collections db))"

definition described :: "string option \<Rightarrow> string option" where
  "described d = (case d of None \<Rightarrow> None | Some t \<Rightarrow> if trim t = [] then None else Some (trim t))"

definition create_collection :: "meta \<Rightarrow> string \<Rightarrow> string option \<Rightarrow> database \<Rightarrow> (string + collection) \<times> database" where
  "create_collection m n description = commit (\<lambda>db.
     let doc = ensure_collection
           \<lparr>col_id = meta_id m, col_meta = m, col_name = trim n, col_description = described description,
            col_order = next_order [map col_order (db_collections db)], col_variables = [], col_auth = NoAuth,
            col_scripts = \<lparr>script_pre = [], script_post = []\<rparr>, col_route = None,
            col_script_trust = \<lparr>trusted = True, approved = None\<rparr>\<rparr>
     in case store_add col_key doc (db_collections db) of
          Inl e \<Rightarrow> Inl e
        | Inr cs \<Rightarrow> Inr (doc, db\<lparr>db_collections := cs\<rparr>))"

text \<open>A collection read, changed and written back, with its time; nothing when it is not there.\<close>

definition change_collection ::
    "rat \<Rightarrow> string \<Rightarrow> (collection \<Rightarrow> collection option) \<Rightarrow> database \<Rightarrow> (string + collection option) \<times> database" where
  "change_collection now i change = commit (\<lambda>db.
     case Option.bind (store_get col_key (db_collections db) i) (\<lambda>c. map_option (\<lambda>d. (c, d)) (change c)) of
       None \<Rightarrow> Inr (None, db)
     | Some (doc, changed) \<Rightarrow>
         let updated = changed\<lparr>col_meta := touch_meta now (col_meta doc)\<rparr>
         in Inr (Some updated, db\<lparr>db_collections := store_put col_key updated (db_collections db)\<rparr>))"

definition approved_by :: "string list \<Rightarrow> bool \<Rightarrow> collection \<Rightarrow> collection option" where
  "approved_by digests review c =
     (if \<not> review \<and> \<not> trusted (col_script_trust c) then None
      else Some (c\<lparr>col_script_trust := \<lparr>trusted = True,
        approved = Some (if review then digests
          else fold set_add ((case approved (col_script_trust c) of None \<Rightarrow> [] | Some ds \<Rightarrow> ds) @ digests) [])\<rparr>\<rparr>))"

definition approve_scripts :: "rat \<Rightarrow> string \<Rightarrow> string list \<Rightarrow> bool \<Rightarrow> database \<Rightarrow> (string + collection option) \<times> database" where
  "approve_scripts now i digests review = change_collection now i (approved_by digests review)"

definition change_collection_variables ::
    "rat \<Rightarrow> string \<Rightarrow> variable_change list \<Rightarrow> database \<Rightarrow> (string + collection option) \<times> database" where
  "change_collection_variables now i changes =
     change_collection now i (\<lambda>c. Some (c\<lparr>col_variables := apply_variable_changes (col_variables c) changes\<rparr>))"

definition set_collection_inherited ::
    "rat \<Rightarrow> string \<Rightarrow> auth_config \<Rightarrow> scripts \<Rightarrow> route option \<Rightarrow> database \<Rightarrow> (string + collection option) \<times> database" where
  "set_collection_inherited now i a s r =
     change_collection now i (\<lambda>c. Some (c\<lparr>col_auth := a, col_scripts := s, col_route := r\<rparr>))"

text \<open>A new name, a new description or both; a field left out is \<open>None\<close>.\<close>

definition rename_collection ::
    "rat \<Rightarrow> string \<Rightarrow> string option \<Rightarrow> string option \<Rightarrow> database \<Rightarrow> (string + collection option) \<times> database" where
  "rename_collection now i n d =
     change_collection now i (\<lambda>c. Some (ensure_collection
       (c\<lparr>col_name := (case n of None \<Rightarrow> col_name c | Some t \<Rightarrow> trim t),
          col_description := (case d of None \<Rightarrow> col_description c | Some t \<Rightarrow> described (Some t))\<rparr>)))"

text \<open>Every record of a list added in its turn.\<close>

fun store_adds :: "('a \<Rightarrow> string) \<Rightarrow> 'a list \<Rightarrow> 'a list \<Rightarrow> string + 'a list" where
  "store_adds key [] st = Inr st"
| "store_adds key (x # xs) st =
     (case store_add key x st of Inl e \<Rightarrow> Inl e | Inr st' \<Rightarrow> store_adds key xs st')"

text \<open>The copies of a collection's folders by the folders' keys: the copies' ids follow the collection's own.\<close>

definition copy_ids :: "(nat \<Rightarrow> meta) \<Rightarrow> folder list \<Rightarrow> (string \<times> string) list" where
  "copy_ids fresh fs = om_of (map (\<lambda>(n, f). (fol_key f, meta_id (fresh n))) (enumerate 1 fs))"

definition copied_folder :: "string \<Rightarrow> (string \<times> string) list \<Rightarrow> meta \<Rightarrow> folder \<Rightarrow> folder" where
  "copied_folder c ids m f =
     f\<lparr>fol_id := meta_id m, fol_meta := m, fol_collection_id := c,
       fol_parent := (case fol_parent f of None \<Rightarrow> None | Some p \<Rightarrow> if p = [] then Some p else om_get ids p)\<rparr>"

definition copied_folders :: "(nat \<Rightarrow> meta) \<Rightarrow> string \<Rightarrow> folder list \<Rightarrow> folder list" where
  "copied_folders fresh c fs = map (\<lambda>(n, f). copied_folder c (copy_ids fresh fs) (fresh n) f) (enumerate 1 fs)"

definition copied_request :: "string \<Rightarrow> (string \<times> string) list \<Rightarrow> meta \<Rightarrow> request_doc \<Rightarrow> request_doc" where
  "copied_request c ids m r =
     r\<lparr>rd_id := meta_id m, rd_meta := m, rd_collection_id := c,
       rd_folder_id := (case rd_folder_id r of None \<Rightarrow> None | Some f \<Rightarrow> if f = [] then None else om_get ids f)\<rparr>"

definition copied_requests :: "(nat \<Rightarrow> meta) \<Rightarrow> string \<Rightarrow> folder list \<Rightarrow> request_doc list \<Rightarrow> request_doc list" where
  "copied_requests fresh c fs rs =
     map (\<lambda>(n, r). copied_request c (copy_ids fresh fs) (fresh n) r) (enumerate (1 + length fs) rs)"

definition duplicate_collection ::
    "(string \<Rightarrow> string \<Rightarrow> bool) \<Rightarrow> (nat \<Rightarrow> meta) \<Rightarrow> string \<Rightarrow> database \<Rightarrow> (string + collection option) \<times> database" where
  "duplicate_collection locale_le fresh i = commit (\<lambda>db.
     case store_get col_key (db_collections db) i of
       None \<Rightarrow> Inr (None, db)
     | Some original \<Rightarrow>
         (let duplicate = ensure_collection (original\<lparr>col_id := meta_id (fresh 0), col_meta := fresh 0,
                col_name := col_name original @ '' copy'', col_order := next_order [map col_order (db_collections db)]\<rparr>)
          in case store_add col_key duplicate (db_collections db) of
               Inl e \<Rightarrow> Inl e
             | Inr cs \<Rightarrow>
                 (let folders = sort_by (folder_before locale_le) (folders_in_collection db i);
                      requests = sort_by (request_before locale_le) (requests_in_collection db i)
                  in case store_adds fol_key (copied_folders fresh (col_key duplicate) folders) (db_folders db) of
                       Inl e \<Rightarrow> Inl e
                     | Inr fs \<Rightarrow>
                         (case store_adds req_key (copied_requests fresh (col_key duplicate) folders requests) (db_requests db) of
                            Inl e \<Rightarrow> Inl e
                          | Inr rs \<Rightarrow> Inr (Some duplicate, db\<lparr>db_collections := cs, db_folders := fs, db_requests := rs\<rparr>)))))"

text \<open>A collection and everything in it taken out of the stores, and what went.\<close>

definition taken_out :: "string \<Rightarrow> database \<Rightarrow> removed" where
  "taken_out i db =
     \<lparr>rm_collections = (case store_get col_key (db_collections db) i of None \<Rightarrow> [] | Some c \<Rightarrow> [c]),
      rm_folders = folders_in_collection db i, rm_requests = requests_in_collection db i,
      rm_files = files_of db (requests_in_collection db i)\<rparr>"

definition without_collection :: "string \<Rightarrow> database \<Rightarrow> database" where
  "without_collection i db =
     db\<lparr>db_collections := store_delete col_key i (db_collections db),
        db_folders := store_deletes fol_key (map fol_key (folders_in_collection db i)) (db_folders db),
        db_requests := store_deletes req_key (map req_key (requests_in_collection db i)) (db_requests db)\<rparr>"

definition delete_collection :: "string \<Rightarrow> database \<Rightarrow> (string + removed) \<times> database" where
  "delete_collection i = commit (\<lambda>db. Inr (taken_out i db, sweep_files (without_collection i db)))"

definition reorder_collection :: "rat \<Rightarrow> string \<times> rat \<Rightarrow> database \<Rightarrow> database" where
  "reorder_collection now entry db =
     (case store_get col_key (db_collections db) (fst entry) of
        None \<Rightarrow> db
      | Some c \<Rightarrow>
          db\<lparr>db_collections :=
            store_put col_key (c\<lparr>col_order := snd entry, col_meta := touch_meta now (col_meta c)\<rparr>) (db_collections db)\<rparr>)"

definition reorder_collections :: "rat \<Rightarrow> (string \<times> rat) list \<Rightarrow> database \<Rightarrow> (string + unit) \<times> database" where
  "reorder_collections now entries = commit (\<lambda>db. Inr ((), fold (reorder_collection now) entries db))"

text \<open>What is exported: the tree, without the trust its scripts have in this browser.\<close>

definition get_collection_export :: "string \<Rightarrow> database \<Rightarrow> collection_tree option" where
  "get_collection_export i db =
     map_option (\<lambda>c. \<lparr>tree_collection = (ensure_collection c)\<lparr>col_script_trust := \<lparr>trusted = False, approved = None\<rparr>\<rparr>,
         tree_folders = map ensure_folder (folders_in_collection db i),
         tree_requests = map ensure_request (requests_in_collection db i)\<rparr>)
       (store_get col_key (db_collections db) i)"

text \<open>
  The import of a collection's file: the stored one of its id is taken out first, unless the file is imported as a new
  one; what another collection holds under an id of the file is taken from there. Both are handed to Undo.
\<close>

definition others :: "string \<Rightarrow> collection_tree \<Rightarrow> database \<Rightarrow> removed" where
  "others c tree db =
     (let requests = concat (map (\<lambda>r. case store_get req_key (db_requests db) (req_key r) of
            Some other \<Rightarrow> if rd_collection_id other \<noteq> c then [other] else [] | None \<Rightarrow> []) (tree_requests tree))
      in \<lparr>rm_collections = [],
          rm_folders = concat (map (\<lambda>f. case store_get fol_key (db_folders db) (fol_key f) of
            Some other \<Rightarrow> if fol_collection_id other \<noteq> c then [other] else [] | None \<Rightarrow> []) (tree_folders tree)),
          rm_requests = requests, rm_files = files_of db requests\<rparr>)"

definition imported_request :: "string \<Rightarrow> folder list \<Rightarrow> request_doc \<Rightarrow> request_doc" where
  "imported_request c folders r =
     r\<lparr>rd_collection_id := c,
       rd_folder_id := (case rd_folder_id r of
          None \<Rightarrow> None
        | Some i \<Rightarrow> if i = [] \<or> (\<exists>f \<in> set folders. fol_key f = i \<or> fol_id f = i) then Some i else None)\<rparr>"

definition import_collection_export ::
    "collection_tree \<Rightarrow> bool \<Rightarrow> database \<Rightarrow> (string + (collection \<times> removed list)) \<times> database" where
  "import_collection_export payload as_new = commit (\<lambda>db.
     let data = \<lparr>tree_collection = ensure_collection (tree_collection payload),
           tree_folders = map ensure_folder (tree_folders payload), tree_requests = map ensure_request (tree_requests payload)\<rparr>;
         c = col_key (tree_collection data)
     in if c = [] then Inl ''Collection payload is missing an identifier.''
        else
          (let replaced = (if \<not> as_new \<and> has_collection db c then [taken_out c db] else []);
               db1 = (if as_new then db else without_collection c db);
               collection = (tree_collection data)\<lparr>col_script_trust := \<lparr>trusted = False, approved = None\<rparr>\<rparr>;
               db2 = db1\<lparr>db_collections := store_put col_key collection (db_collections db1)\<rparr>;
               others_taken = others c data db2;
               taken = (if rm_folders others_taken \<noteq> [] \<or> rm_requests others_taken \<noteq> [] then [others_taken] else []);
               db3 = db2\<lparr>db_folders := store_puts fol_key
                   (map (\<lambda>f. f\<lparr>fol_collection_id := c\<rparr>) (tree_folders data)) (db_folders db2),
                 db_requests := store_puts req_key
                   (map (imported_request c (tree_folders data)) (tree_requests data)) (db_requests db2)\<rparr>
           in Inr ((collection, replaced @ taken), sweep_files db3)))"

section \<open>Requests\<close>

definition list_requests :: "(string \<Rightarrow> string \<Rightarrow> bool) \<Rightarrow> database \<Rightarrow> string \<Rightarrow> request_doc list" where
  "list_requests locale_le db c = map ensure_request (sort_by (request_before locale_le) (requests_in_collection db c))"

text \<open>
  A new request: the fields of a content the caller gives are laid over the empty one with an inherited auth
  (\<open>nr_content\<close> is that laying over).
\<close>

record new_request =
  nr_collection :: string
  nr_name :: string
  nr_folder :: "string option"
  nr_order :: "rat option"
  nr_content :: "request_content \<Rightarrow> request_content"

definition create_request ::
    "meta \<Rightarrow> new_request \<Rightarrow> (string \<times> stored_file) list \<Rightarrow> database \<Rightarrow> (string + request_doc) \<times> database" where
  "create_request m payload files = commit (\<lambda>db.
     let db1 = store_files files db;
         doc = ensure_request
           \<lparr>rd_id = meta_id m, rd_meta = m, rd_collection_id = nr_collection payload, rd_folder_id = nr_folder payload,
            rd_name = trim (nr_name payload), rd_description = None,
            rd_order = (case nr_order payload of Some n \<Rightarrow> n | None \<Rightarrow> tree_order db1),
            rd_content = nr_content payload (empty_request\<lparr>rc_auth := Inherit\<rparr>)\<rparr>
     in case store_add req_key doc (db_requests db1) of
          Inl e \<Rightarrow> Inl e
        | Inr rs \<Rightarrow> Inr (doc, db1\<lparr>db_requests := rs\<rparr>))"

definition rename_request :: "rat \<Rightarrow> string \<Rightarrow> string \<Rightarrow> database \<Rightarrow> (string + request_doc option) \<times> database" where
  "rename_request now i n = commit (\<lambda>db.
     case store_get req_key (db_requests db) i of
       None \<Rightarrow> Inr (None, db)
     | Some doc \<Rightarrow>
         let doc' = ensure_request (doc\<lparr>rd_name := trim n, rd_meta := touch_meta now (rd_meta doc)\<rparr>)
         in Inr (Some doc', db\<lparr>db_requests := store_put req_key doc' (db_requests db)\<rparr>))"

text \<open>What a save writes: a name, a folder (which may be none) and fields of the content; \<open>rp_body\<close> is whether its body is one.\<close>

record request_patch =
  rp_name :: "string option"
  rp_folder :: "string option option"
  rp_content :: "request_content \<Rightarrow> request_content"
  rp_body :: bool

definition patched :: "request_patch \<Rightarrow> request_doc \<Rightarrow> request_doc" where
  "patched p r =
     r\<lparr>rd_name := (case rp_name p of None \<Rightarrow> rd_name r | Some n \<Rightarrow> trim n),
       rd_folder_id := (case rp_folder p of None \<Rightarrow> rd_folder_id r | Some f \<Rightarrow> f),
       rd_content := rp_content p (rd_content r)\<rparr>"

definition update_request ::
    "rat \<Rightarrow> string \<Rightarrow> request_patch \<Rightarrow> (string \<times> stored_file) list \<Rightarrow> database \<Rightarrow> (string + request_doc option) \<times> database" where
  "update_request now i p files = commit (\<lambda>db.
     case store_get req_key (db_requests db) i of
       None \<Rightarrow> Inr (None, db)
     | Some doc \<Rightarrow>
         let doc' = ensure_request ((patched p doc)\<lparr>rd_meta := touch_meta now (rd_meta doc)\<rparr>);
             db1 = store_files files db;
             db2 = db1\<lparr>db_requests := store_put req_key doc' (db_requests db1)\<rparr>
         in Inr (Some doc', if rp_body p then sweep_files db2 else db2))"

definition duplicate_request :: "meta \<Rightarrow> string \<Rightarrow> database \<Rightarrow> (string + request_doc option) \<times> database" where
  "duplicate_request m i = commit (\<lambda>db.
     case store_get req_key (db_requests db) i of
       None \<Rightarrow> Inr (None, db)
     | Some doc \<Rightarrow>
         let clone = ensure_request (doc\<lparr>rd_id := meta_id m, rd_meta := m, rd_name := rd_name doc @ '' copy'', rd_order := tree_order db\<rparr>)
         in case store_add req_key clone (db_requests db) of
              Inl e \<Rightarrow> Inl e
            | Inr rs \<Rightarrow> Inr (Some clone, db\<lparr>db_requests := rs\<rparr>))"

definition delete_request :: "string \<Rightarrow> database \<Rightarrow> (string + removed) \<times> database" where
  "delete_request i = commit (\<lambda>db.
     let requests = (case store_get req_key (db_requests db) i of None \<Rightarrow> [] | Some r \<Rightarrow> [r]);
         files = files_of db requests
     in Inr (\<lparr>rm_collections = [], rm_folders = [], rm_requests = requests, rm_files = files\<rparr>,
          sweep_files (db\<lparr>db_requests := store_delete req_key i (db_requests db)\<rparr>)))"

end
