(* ===== verification/WorkspaceUndo.thy ===== *)
theory WorkspaceUndo
  imports Workspace
begin

text \<open>
  What a delete takes out of the tree, and Undo: a folder goes with every folder inside it at any depth, once
  each and whatever circle its folders name; and putting back what went gives the stores as they were.
\<close>

section \<open>The folders inside a folder\<close>

text \<open>What is inside a folder: the folders that name it, and those that name one inside it.\<close>

inductive inside :: "folder list \<Rightarrow> string \<Rightarrow> folder \<Rightarrow> bool" for folders i where
  child: "f \<in> set folders \<Longrightarrow> fol_parent f = Some i \<Longrightarrow> inside folders i f"
| deeper: "inside folders i g \<Longrightarrow> f \<in> set folders \<Longrightarrow> fol_parent f = Some (fol_key g) \<Longrightarrow> inside folders i f"

fun parents_first :: "string list \<Rightarrow> folder list \<Rightarrow> bool" where
  "parents_first known [] \<longleftrightarrow> True"
| "parents_first known (f # fs) \<longleftrightarrow> (\<exists>p \<in> set known. fol_parent f = Some p) \<and> parents_first (fol_key f # known) fs"

lemma parents_first_mono: "parents_first known fs \<Longrightarrow> set known \<subseteq> set known' \<Longrightarrow> parents_first known' fs"
proof (induction fs arbitrary: known known')
  case (Cons f fs)
  then have "parents_first (fol_key f # known') fs"
    using Cons.IH [of "fol_key f # known" "fol_key f # known'"] by auto
  with Cons.prems show ?case by auto
qed simp

lemma parents_first_append:
  "parents_first known (a @ b) \<longleftrightarrow> parents_first known a \<and> parents_first (map fol_key a @ known) b"
proof (induction a arbitrary: known)
  case (Cons f a)
  have "parents_first (map fol_key a @ fol_key f # known) b \<longleftrightarrow> parents_first (fol_key f # map fol_key a @ known) b"
    using parents_first_mono [of _ b] by auto
  with Cons show ?case by simp
qed simp

lemma subtree_steps:
  "\<exists>new. fold subtree_step cs (seen, found, queue) = (seen @ map fol_key new, found @ new, queue @ map fol_key new) \<and>
     set new \<subseteq> set cs \<and> distinct (map fol_key new) \<and> fol_key ` set new \<inter> set seen = {} \<and>
     fol_key ` set cs \<subseteq> set seen \<union> fol_key ` set new"
proof (induction cs arbitrary: seen found queue)
  case Nil
  then show ?case by simp
next
  case (Cons c cs)
  show ?case
  proof (cases "fol_key c \<in> set seen")
    case True
    with Cons [of seen found queue] show ?thesis by (auto simp: subtree_step_seen)
  next
    case False
    obtain new where new: "fold subtree_step cs (seen @ [fol_key c], found @ [c], queue @ [fol_key c]) =
        ((seen @ [fol_key c]) @ map fol_key new, (found @ [c]) @ new, (queue @ [fol_key c]) @ map fol_key new)"
      "set new \<subseteq> set cs" "distinct (map fol_key new)" "fol_key ` set new \<inter> set (seen @ [fol_key c]) = {}"
      "fol_key ` set cs \<subseteq> set (seen @ [fol_key c]) \<union> fol_key ` set new"
      using Cons [of "seen @ [fol_key c]" "found @ [c]" "queue @ [fol_key c]"] by blast
    show ?thesis
      by (rule exI [of _ "c # new"]) (use new False in \<open>auto simp: subtree_step_new\<close>)
  qed
qed

definition walked :: "folder list \<Rightarrow> string \<Rightarrow> string list \<Rightarrow> folder list \<Rightarrow> string list \<Rightarrow> bool" where
  "walked folders i seen found queue \<longleftrightarrow>
     set seen = insert i (fol_key ` set found) \<and> set found \<subseteq> {f. inside folders i f} \<and>
     set queue \<subseteq> set seen \<and> distinct (map fol_key found) \<and> i \<notin> fol_key ` set found \<and> parents_first [i] found \<and>
     (\<forall>f \<in> set folders. \<forall>k \<in> set seen - set queue. fol_parent f = Some k \<longrightarrow> fol_key f \<in> set seen)"

lemma inside_folder: "inside folders i f \<Longrightarrow> f \<in> set folders"
  by (erule inside.cases) auto

lemma walked_step:
  assumes w: "walked folders i seen found (p # queue)"
    and fold: "fold subtree_step (filter (\<lambda>f. fol_parent f = Some p) folders) (seen, found, queue) = (seen', found', queue')"
  shows "walked folders i seen' found' queue'"
proof -
  let ?cs = "filter (\<lambda>f. fol_parent f = Some p) folders"
  obtain new where new: "seen' = seen @ map fol_key new" "found' = found @ new" "queue' = queue @ map fol_key new"
    "set new \<subseteq> set ?cs" "distinct (map fol_key new)" "fol_key ` set new \<inter> set seen = {}"
    "fol_key ` set ?cs \<subseteq> set seen \<union> fol_key ` set new"
    using subtree_steps [of ?cs seen found queue] fold by auto
  have seen: "set seen = insert i (fol_key ` set found)" and found: "set found \<subseteq> {f. inside folders i f}"
    and p: "p \<in> set seen" and i: "i \<notin> fol_key ` set found"
    using w by (auto simp: walked_def)
  have parent: "f \<in> set folders \<and> fol_parent f = Some p" if "f \<in> set new" for f using that new(4) by auto
  have "inside folders i f" if "f \<in> set new" for f
  proof (cases "p = i")
    case True
    with parent [OF that] show ?thesis by (auto intro: child)
  next
    case False
    with p seen obtain g where "g \<in> set found" "fol_key g = p" by auto
    with found parent [OF that] show ?thesis by (auto intro: deeper)
  qed
  moreover have "parents_first [i] (found @ new)"
  proof -
    have "p \<in> set (map fol_key found @ [i])" using p seen by auto
    moreover have "parents_first known new" if "p \<in> set known" for known
      using that parent by (induction new arbitrary: known) auto
    ultimately show ?thesis using w by (simp add: parents_first_append walked_def)
  qed
  moreover have "fol_key f \<in> set seen'" if f: "f \<in> set folders" and k: "k \<in> set seen' - set queue'" and "fol_parent f = Some k" for f k
  proof (cases "k = p")
    case True
    with that have "f \<in> set ?cs" by simp
    then show ?thesis using new(1,7) by auto
  next
    case False
    with k new(1,3) have "k \<in> set seen - set (p # queue)" by auto
    moreover have "\<forall>f \<in> set folders. \<forall>k \<in> set seen - set (p # queue). fol_parent f = Some k \<longrightarrow> fol_key f \<in> set seen"
      using w unfolding walked_def by blast
    ultimately have "fol_key f \<in> set seen" using f that(3) by blast
    then show ?thesis by (simp add: new(1))
  qed
  ultimately show ?thesis
    using w seen new i by (auto simp: walked_def)
qed

lemma subtree_walked:
  "walked folders i seen found queue \<Longrightarrow> \<exists>seen'. walked folders i seen' (subtree_loop folders seen found queue) []"
proof (induction folders seen found queue rule: subtree_loop.induct)
  case (2 folders seen found p queue)
  obtain seen' found' queue' where fold: "fold subtree_step (filter (\<lambda>f. fol_parent f = Some p) folders) (seen, found, queue) = (seen', found', queue')"
    by (metis prod_cases3)
  from "2.IH" [OF fold [symmetric] refl] walked_step [OF "2.prems" fold] fold show ?case by simp
qed auto

lemma subtree_facts:
  assumes "store_ok fol_key (db_folders db)"
  shows "set (subtree db i) = {f. inside (db_folders db) i f \<and> fol_key f \<noteq> i}"
    and "distinct (map fol_key (subtree db i))" and "parents_first [i] (subtree db i)"
proof -
  let ?fs = "db_folders db"
  have "walked ?fs i [i] [] [i]" by (simp add: walked_def)
  from subtree_walked [OF this] obtain seen where w: "walked ?fs i seen (subtree db i) []"
    by (auto simp: subtree_def)
  then show "distinct (map fol_key (subtree db i))" "parents_first [i] (subtree db i)" by (simp_all add: walked_def)
  have closed: "fol_key f \<in> set seen" if "inside ?fs i f" for f
    using that by induction (use w in \<open>auto simp: walked_def\<close>)
  have "f \<in> set (subtree db i)" if "inside ?fs i f" "fol_key f \<noteq> i" for f
  proof -
    from closed [OF that(1)] that(2) w obtain g where g: "g \<in> set (subtree db i)" "fol_key g = fol_key f"
      by (auto simp: walked_def)
    then have "g \<in> set ?fs" "f \<in> set ?fs" using w that(1) inside_folder by (auto simp: walked_def)
    with g assms have "g = f" by (metis option.inject ob.get_in)
    with g show ?thesis by simp
  qed
  with w show "set (subtree db i) = {f. inside ?fs i f \<and> fol_key f \<noteq> i}" by (auto simp: walked_def)
qed

text \<open>
  The folders a delete or a copy takes along are exactly those inside the folder, at any depth, each once and each
  after its parent; the folder itself is not among them, also when the folders stored name each other in a circle.
\<close>

theorem subtree_exact:
  assumes "store_ok fol_key (db_folders db)"
  shows "set (subtree db i) = {f. inside (db_folders db) i f \<and> fol_key f \<noteq> i} \<and>
    distinct (map fol_key (subtree db i)) \<and> parents_first [i] (subtree db i)"
  using subtree_facts [OF assms] by blast

section \<open>Undo\<close>

text \<open>The stores as every operation leaves them: in the order of their keys, nothing outside a collection, no file without a use.\<close>

definition stores_ok :: "database \<Rightarrow> bool" where
  "stores_ok db \<longleftrightarrow>
     store_ok col_key (db_collections db) \<and> store_ok fol_key (db_folders db) \<and>
     store_ok req_key (db_requests db) \<and> store_ok fst (db_files db)"

definition in_collections :: "database \<Rightarrow> bool" where
  "in_collections db \<longleftrightarrow>
     (\<forall>f \<in> set (db_folders db). has_collection db (fol_collection_id f)) \<and>
     (\<forall>r \<in> set (db_requests db). has_collection db (rd_collection_id r))"

definition files_used :: "database \<Rightarrow> bool" where
  "files_used db \<longleftrightarrow> fst ` set (db_files db) \<subseteq> set (used_files (db_requests db))"

lemma set_fold_set_add: "set (fold set_add xs ys) = set xs \<union> set ys"
  by (induction xs arbitrary: ys) auto

lemma set_case_option: "set (case m of None \<Rightarrow> [] | Some f \<Rightarrow> [f]) = set_option m"
  by (cases m) simp_all

lemma set_files_of:
  assumes "store_ok fst (db_files db)"
  shows "set (files_of db rs) = {f \<in> set (db_files db). fst f \<in> set (used_files rs)}"
proof -
  have "set (files_of db rs) = (\<Union>i \<in> set (used_files rs). set_option (store_get fst (db_files db) i))"
    by (simp add: files_of_def set_case_option set_fold_set_add)
  moreover have "f \<in> set_option (store_get fst (db_files db) i) \<longleftrightarrow> f \<in> set (db_files db) \<and> fst f = i" for f i
    using ob.get_in [OF assms] ob.get_Some by (metis elem_set)
  ultimately show ?thesis by (simp add: set_eq_iff)
qed

lemma set_used_files: "set (used_files rs) = (\<Union>r \<in> set rs. set (request_files r))"
  by (simp add: used_files_def)

text \<open>The stores less some of what is in them, and the files that nothing uses any more.\<close>

definition less_stores :: "collection list \<Rightarrow> folder list \<Rightarrow> request_doc list \<Rightarrow> database \<Rightarrow> database" where
  "less_stores cs fs rs db =
     sweep_files (db\<lparr>db_collections := store_deletes col_key (map col_key cs) (db_collections db),
       db_folders := store_deletes fol_key (map fol_key fs) (db_folders db),
       db_requests := store_deletes req_key (map req_key rs) (db_requests db)\<rparr>)"

lemma put_back_less_stores:
  assumes ok: "stores_ok db" "in_collections db" "files_used db"
    and sub: "set cs \<subseteq> set (db_collections db)" "set fs \<subseteq> set (db_folders db)" "set rs \<subseteq> set (db_requests db)"
  shows "put_back \<lparr>rm_collections = cs, rm_folders = fs, rm_requests = rs, rm_files = files_of db rs\<rparr> (less_stores cs fs rs db) = db"
proof -
  note oks = ok(1) [unfolded stores_ok_def]
  let ?db = "less_stores cs fs rs db"
  let ?P = "\<lambda>f. fst f \<in> set (used_files (db_requests ?db))"
  have cols: "store_puts col_key cs (db_collections ?db) = db_collections db"
    and fols: "store_puts fol_key fs (db_folders ?db) = db_folders db"
    and reqs: "store_puts req_key rs (db_requests ?db) = db_requests db"
    using oks sub
    by (simp_all add: less_stores_def sweep_files_def store_puts_eq store_deletes_eq ob.dels_puts_back)
  have rest: "db_requests ?db = store_deletes req_key (map req_key rs) (db_requests db)"
    by (simp add: less_stores_def sweep_files_def)
  have kept: "db_files ?db = filter ?P (db_files db)"
    by (simp add: less_stores_def sweep_files_def case_prod_unfold)
  have used: "set (used_files (db_requests db)) = set (used_files (db_requests ?db)) \<union> set (used_files rs)"
  proof -
    have "set (db_requests db) = set (db_requests ?db) \<union> set rs"
      using reqs ob.set_dels [of req_key "db_requests db" "map req_key rs"] oks sub(3)
      by (auto simp: rest store_deletes_eq) (metis ob.get_in option.inject subsetD)
    then show ?thesis by (auto simp: set_used_files)
  qed
  have refill: "store_puts fst (files_of db rs) (db_files ?db) = db_files db"
    unfolding store_puts_eq kept
  proof (rule ob.puts_back)
    show "store_ok fst (filter ?P (db_files db))"
      using oks by (simp add: store_ok_def sorted_wrt_filter)
    show "set (db_files db) \<subseteq> set (filter ?P (db_files db)) \<union> set (files_of db rs)"
      using ok(3) used oks by (auto simp: files_used_def set_files_of)
  qed (use oks in \<open>auto simp: set_files_of\<close>)
  have none: "db_files ?db = db_files db" if "rs = []"
  proof -
    have "db_requests ?db = db_requests db" unfolding rest using that by (simp add: store_deletes_def)
    with ok(3) show ?thesis unfolding kept by (auto simp: files_used_def intro!: filter_True)
  qed
  have all: "filter (\<lambda>f. has_collection db' (fol_collection_id f)) fs = fs"
    "filter (\<lambda>r. has_collection db' (rd_collection_id r)) rs = rs" if "db_collections db' = db_collections db" for db'
    using ok(2) sub(2,3) that by (auto simp: in_collections_def has_collection_def filter_id_conv)
  show ?thesis
  proof (cases "rs = []")
    case True
    then show ?thesis
      using cols fols reqs none by (simp add: put_back_def Let_def all store_puts_def [of req_key])
  next
    case False
    then show ?thesis
      using cols fols reqs refill by (simp add: put_back_def Let_def all store_files_def)
  qed
qed

lemma requests_inside_sub: "set (requests_inside db f) \<subseteq> set (db_requests db)"
  by (auto simp: requests_inside_def)

text \<open>Each delete is the stores less what it takes out.\<close>

definition found_one :: "'a option \<Rightarrow> 'a list" where
  "found_one x = (case x of None \<Rightarrow> [] | Some y \<Rightarrow> [y])"

lemma delete_found:
  assumes "store_ok key st"
  shows "store_deletes key (map key (found_one (store_get key st i))) st = store_delete key i st"
proof (cases "store_get key st i")
  case None
  then have "\<forall>x \<in> set st. key x \<noteq> i" using ob.get_in [OF assms] by fastforce
  with None show ?thesis by (simp add: found_one_def store_deletes_def store_delete_def filter_id_conv)
next
  case (Some x)
  then show ?thesis using ob.get_Some [OF Some] by (simp add: found_one_def store_deletes_def)
qed

lemma found_sub: "set (found_one (store_get key st i)) \<subseteq> set st"
  using ob.get_Some [of key st i] by (auto simp: found_one_def split: option.splits)

definition folders_going :: "string \<Rightarrow> database \<Rightarrow> folder list" where
  "folders_going i db = found_one (store_get fol_key (db_folders db) i) @ subtree db i"

definition requests_going :: "string \<Rightarrow> database \<Rightarrow> request_doc list" where
  "requests_going i db = concat (map (\<lambda>f. requests_inside db (fol_key f)) (folders_going i db))"

lemma delete_folder_less:
  "delete_folder i db =
     (Inr \<lparr>rm_collections = [], rm_folders = folders_going i db, rm_requests = requests_going i db,
        rm_files = files_of db (requests_going i db)\<rparr>,
      less_stores [] (folders_going i db) (requests_going i db) db)"
  by (simp add: delete_folder_def commit_def Let_def less_stores_def folders_going_def requests_going_def found_one_def
      store_deletes_def [of col_key])

lemma delete_collection_less:
  "stores_ok db \<Longrightarrow>
   delete_collection i db =
     (Inr (taken_out i db),
      less_stores (found_one (store_get col_key (db_collections db) i)) (folders_in_collection db i) (requests_in_collection db i) db)"
  by (simp add: delete_collection_def commit_def less_stores_def without_collection_def delete_found stores_ok_def)

lemma delete_request_less:
  "stores_ok db \<Longrightarrow>
   delete_request i db =
     (Inr \<lparr>rm_collections = [], rm_folders = [], rm_requests = found_one (store_get req_key (db_requests db) i),
        rm_files = files_of db (found_one (store_get req_key (db_requests db) i))\<rparr>,
      less_stores [] [] (found_one (store_get req_key (db_requests db) i)) db)"
  by (simp add: delete_request_def commit_def Let_def less_stores_def found_one_def [symmetric] delete_found stores_ok_def)
    (simp add: store_deletes_def)

lemma folders_going_sub: "stores_ok db \<Longrightarrow> set (folders_going i db) \<subseteq> set (db_folders db)"
  using found_sub [of fol_key "db_folders db" i] subtree_facts(1) [of db i]
  by (auto simp: folders_going_def stores_ok_def dest: inside_folder)

lemma requests_going_sub: "set (requests_going i db) \<subseteq> set (db_requests db)"
  using requests_inside_sub by (fastforce simp: requests_going_def)

text \<open>
  Undo of a delete gives back the stores exactly as they were: of a folder with everything in it, of a
  collection, of a request; every record with its id and its place, and every file of a body, whether or not another
  request uses it.
\<close>

lemma undo_exact:
  assumes "stores_ok db" "in_collections db" "files_used db"
    and "delete \<in> {delete_folder, delete_collection, delete_request}"
  shows "\<exists>rm db'. delete i db = (Inr rm, db') \<and> restore rm db' = (Inr (), db)"
proof -
  note undone = put_back_less_stores [OF assms(1-3)]
  consider "delete = delete_folder" | "delete = delete_collection" | "delete = delete_request"
    using assms(4) by blast
  then show ?thesis
  proof cases
    case 1
    then show ?thesis
      using undone [of "[]" "folders_going i db" "requests_going i db"] folders_going_sub [OF assms(1)] requests_going_sub
      by (simp add: delete_folder_less restore_def commit_def)
  next
    case 2
    then show ?thesis
      using undone [of "found_one (store_get col_key (db_collections db) i)" "folders_in_collection db i" "requests_in_collection db i"]
        found_sub [of col_key "db_collections db" i]
      by (simp add: delete_collection_less [OF assms(1)] restore_def commit_def taken_out_def found_one_def [symmetric]
          folders_in_collection_def requests_in_collection_def)
  next
    case 3
    then show ?thesis
      using undone [of "[]" "[]" "found_one (store_get req_key (db_requests db) i)"] found_sub [of req_key "db_requests db" i]
      by (simp add: delete_request_less [OF assms(1)] restore_def commit_def)
  qed
qed

end
