(* ===== verification/WorkspaceInvariant.thy ===== *)
theory WorkspaceInvariant
  imports WorkspaceUndo
begin

text \<open>
  The tree of collections stays a tree: whatever operations the app runs on the stores, one transaction after
  the other, every folder and request is in a collection that is there, in a folder of that collection that is there or in
  none, and a file is stored exactly as long as a request's body names it.
\<close>

section \<open>The invariant\<close>

definition folder_at :: "database \<Rightarrow> string \<Rightarrow> folder option" where
  "folder_at db i = store_get fol_key (db_folders db) i"

definition place_ok :: "database \<Rightarrow> string \<Rightarrow> string option \<Rightarrow> bool" where
  "place_ok db c p \<longleftrightarrow>
     (case p of None \<Rightarrow> True | Some i \<Rightarrow> i \<noteq> [] \<and> (\<exists>g. folder_at db i = Some g \<and> fol_collection_id g = c))"

lemma place_ok_code [code]:
  "place_ok db c p \<longleftrightarrow>
     (case p of None \<Rightarrow> True
      | Some i \<Rightarrow> i \<noteq> [] \<and> (case folder_at db i of None \<Rightarrow> False | Some g \<Rightarrow> fol_collection_id g = c))"
  by (simp add: place_ok_def split: option.split)

definition placed :: "database \<Rightarrow> bool" where
  "placed db \<longleftrightarrow>
     (\<forall>f \<in> set (db_folders db). place_ok db (fol_collection_id f) (fol_parent f)) \<and>
     (\<forall>r \<in> set (db_requests db). place_ok db (rd_collection_id r) (rd_folder_id r))"

definition tree_ok :: "database \<Rightarrow> bool" where
  "tree_ok db \<longleftrightarrow> stores_ok db \<and> in_collections db \<and> files_used db \<and> placed db"

lemmas tree_defs = tree_ok_def stores_ok_def in_collections_def placed_def

lemma tree_ok_stores:
  assumes "tree_ok db"
  shows "store_ok col_key (db_collections db)" "store_ok fol_key (db_folders db)" "store_ok req_key (db_requests db)"
    "store_ok fst (db_files db)"
  using assms by (simp_all add: tree_defs)

lemma same_folders [simp]:
  "folder_at (db\<lparr>db_collections := cs\<rparr>) = folder_at db" "folder_at (db\<lparr>db_requests := rs\<rparr>) = folder_at db"
  "folder_at (db\<lparr>db_files := xs\<rparr>) = folder_at db"
  "place_ok (db\<lparr>db_collections := cs\<rparr>) = place_ok db" "place_ok (db\<lparr>db_requests := rs\<rparr>) = place_ok db"
  "place_ok (db\<lparr>db_files := xs\<rparr>) = place_ok db"
  by (auto simp: folder_at_def place_ok_def fun_eq_iff split: option.split)

lemma same_collections [simp]:
  "has_collection (db\<lparr>db_folders := fs\<rparr>) = has_collection db" "has_collection (db\<lparr>db_requests := rs\<rparr>) = has_collection db"
  "has_collection (db\<lparr>db_files := xs\<rparr>) = has_collection db"
  by (simp_all add: has_collection_def fun_eq_iff)

lemma has_collection_put:
  "store_ok col_key (db_collections db) \<Longrightarrow>
   has_collection (db\<lparr>db_collections := store_put col_key c (db_collections db)\<rparr>) i \<longleftrightarrow> i = col_key c \<or> has_collection db i"
  by (simp add: has_collection_def ob.get_put)

text \<open>A transaction that failed changed nothing.\<close>

lemma commit_Inl: "commit work db = (Inl e, db') \<Longrightarrow> db' = db"
  by (auto simp: commit_def split: sum.splits)

lemma commit_Inr: "commit work db = (Inr a, db') \<longleftrightarrow> work db = Inr (a, db')"
  by (auto simp: commit_def split: sum.splits)

section \<open>Collections\<close>

lemma collections_put:
  assumes "tree_ok db"
  shows "tree_ok (db\<lparr>db_collections := store_put col_key c (db_collections db)\<rparr>)"
  using assms
  by (auto simp: tree_defs files_used_def has_collection_put ob.ok_put)

lemma change_collection_ok:
  "tree_ok db \<Longrightarrow> change_collection now i change db = (Inr c, db') \<Longrightarrow> tree_ok db'"
  by (auto simp: change_collection_def commit_Inr Let_def collections_put split: option.splits)

lemma create_collection_ok: "tree_ok db \<Longrightarrow> create_collection m n d db = (Inr c, db') \<Longrightarrow> tree_ok db'"
  by (auto simp: create_collection_def commit_Inr Let_def store_add_def collections_put split: if_splits sum.splits)

lemma reorder_collections_ok: "tree_ok db \<Longrightarrow> reorder_collections now es db = (Inr u, db') \<Longrightarrow> tree_ok db'"
proof -
  have "tree_ok db \<Longrightarrow> tree_ok (fold (reorder_collection now) es db)" for db
    by (induction es arbitrary: db) (auto simp: reorder_collection_def collections_put split: option.splits)
  then show "tree_ok db \<Longrightarrow> reorder_collections now es db = (Inr u, db') \<Longrightarrow> tree_ok db'"
    by (auto simp: reorder_collections_def commit_Inr)
qed

section \<open>Folders and requests\<close>

text \<open>A folder written: one that is new, or one that stays in its collection.\<close>

definition folder_fits :: "database \<Rightarrow> folder \<Rightarrow> bool" where
  "folder_fits db f \<longleftrightarrow>
     has_collection db (fol_collection_id f) \<and> place_ok db (fol_collection_id f) (fol_parent f) \<and>
     (\<forall>g. folder_at db (fol_key f) = Some g \<longrightarrow> fol_collection_id g = fol_collection_id f)"

lemma folders_put:
  assumes ok: "tree_ok db" and fits: "folder_fits db f"
  shows "tree_ok (db\<lparr>db_folders := store_put fol_key f (db_folders db)\<rparr>)"
proof -
  let ?db = "db\<lparr>db_folders := store_put fol_key f (db_folders db)\<rparr>"
  note oks = tree_ok_stores [OF ok]
  have "folder_at ?db i = (if i = fol_key f then Some f else folder_at db i)" for i
    using oks by (simp add: folder_at_def ob.get_put)
  then have "place_ok db c p \<Longrightarrow> place_ok ?db c p" for c p
    using fits by (auto simp: place_ok_def folder_fits_def split: option.splits)
  with ok fits oks show ?thesis
    by (auto simp: tree_defs files_used_def folder_fits_def ob.ok_put ob.set_put)
qed

lemma folder_fits_same:
  assumes "tree_ok db" "store_get fol_key (db_folders db) i = Some f" "fol_key g = fol_key f" "fol_collection_id g = fol_collection_id f"
    "fol_parent g = fol_parent f"
  shows "folder_fits db g"
proof -
  have "f \<in> set (db_folders db)" "fol_key f = i" using ob.get_Some [OF assms(2)] by simp_all
  with assms show ?thesis by (auto simp: tree_defs folder_fits_def folder_at_def)
qed

text \<open>A request written: its files are stored as long as a request names them.\<close>

definition request_fits :: "database \<Rightarrow> request_doc \<Rightarrow> bool" where
  "request_fits db r \<longleftrightarrow>
     has_collection db (rd_collection_id r) \<and> place_ok db (rd_collection_id r) (rd_folder_id r) \<and>
     (\<forall>q. store_get req_key (db_requests db) (req_key r) = Some q \<longrightarrow> set (request_files q) \<subseteq> set (request_files r))"

lemma requests_put:
  assumes ok: "tree_ok db" and fits: "request_fits db r"
  shows "tree_ok (db\<lparr>db_requests := store_put req_key r (db_requests db)\<rparr>)"
proof -
  let ?db = "db\<lparr>db_requests := store_put req_key r (db_requests db)\<rparr>"
  note oks = tree_ok_stores [OF ok]
  have "set (used_files (db_requests db)) \<subseteq> set (used_files (db_requests ?db))"
    using fits ob.get_in [OF oks(3)] by (fastforce simp: set_used_files ob.set_put [OF oks(3)] request_fits_def)
  with ok fits oks show ?thesis
    by (auto simp: tree_defs files_used_def request_fits_def ob.ok_put ob.set_put)
qed

lemma request_fits_same:
  assumes "tree_ok db" "store_get req_key (db_requests db) i = Some q" "req_key r = req_key q"
    "rd_collection_id r = rd_collection_id q" "rd_folder_id r = rd_folder_id q" "rd_content r = rd_content q"
  shows "request_fits db r"
proof -
  have "q \<in> set (db_requests db)" "req_key q = i" using ob.get_Some [OF assms(2)] by simp_all
  with assms show ?thesis by (auto simp: tree_defs request_fits_def request_files_def)
qed

lemma key_simps [simp]:
  "fol_key (ensure_folder f) = fol_key f" "fol_collection_id (ensure_folder f) = fol_collection_id f"
  "fol_parent (ensure_folder f) = fol_parent f"
  "req_key (ensure_request r) = req_key r" "rd_collection_id (ensure_request r) = rd_collection_id r"
  "rd_folder_id (ensure_request r) = rd_folder_id r" "rd_content (ensure_request r) = rd_content r"
  "meta_id (touch_meta now m) = meta_id m"
  by (simp_all add: ensure_folder_def ensure_request_def touch_meta_def fol_key_def req_key_def)

lemma change_folder_ok:
  assumes "tree_ok db" "change_folder now i change db = (Inr f, db')"
    "\<And>f. fol_collection_id (change f) = fol_collection_id f" "\<And>f. fol_parent (change f) = fol_parent f"
  shows "tree_ok db'"
  using assms
  by (auto simp: change_folder_def commit_Inr Let_def fol_key_def intro!: folders_put [OF assms(1)]
      elim!: folder_fits_same [OF assms(1)] split: option.splits)

lemma rename_folder_ok: "tree_ok db \<Longrightarrow> rename_folder now i n db = (Inr f, db') \<Longrightarrow> tree_ok db'"
  by (auto simp: rename_folder_def commit_Inr Let_def intro!: folders_put elim!: folder_fits_same split: option.splits)
    (simp_all add: fol_key_def)

lemma reorder_children_ok: "tree_ok db \<Longrightarrow> reorder_children now es db = (Inr u, db') \<Longrightarrow> tree_ok db'"
proof -
  have one: "tree_ok (reorder_child now e db)" if "tree_ok db" for e db
    using that
    by (auto simp: reorder_child_def intro!: folders_put requests_put elim!: folder_fits_same request_fits_same split: option.splits)
      (simp_all add: fol_key_def req_key_def)
  have "tree_ok db \<Longrightarrow> tree_ok (fold (reorder_child now) es db)" for db
    by (induction es arbitrary: db) (simp_all add: one)
  then show "tree_ok db \<Longrightarrow> reorder_children now es db = (Inr u, db') \<Longrightarrow> tree_ok db'"
    by (auto simp: reorder_children_def commit_Inr)
qed

lemma rename_request_ok: "tree_ok db \<Longrightarrow> rename_request now i n db = (Inr r, db') \<Longrightarrow> tree_ok db'"
  by (auto simp: rename_request_def commit_Inr Let_def intro!: requests_put elim!: request_fits_same split: option.splits)
    (simp_all add: req_key_def)

lemma request_fits_new:
  "store_get req_key (db_requests db) (req_key r) = None \<Longrightarrow> has_collection db (rd_collection_id r) \<Longrightarrow>
   place_ok db (rd_collection_id r) (rd_folder_id r) \<Longrightarrow> request_fits db r"
  by (simp add: request_fits_def)

lemma folder_fits_new:
  "folder_at db (fol_key f) = None \<Longrightarrow> has_collection db (fol_collection_id f) \<Longrightarrow>
   place_ok db (fol_collection_id f) (fol_parent f) \<Longrightarrow> folder_fits db f"
  by (simp add: folder_fits_def)

lemma duplicate_request_ok:
  assumes ok: "tree_ok db" and run: "duplicate_request m i db = (Inr r, db')"
  shows "tree_ok db'"
proof (cases "store_get req_key (db_requests db) i")
  case None
  with ok run show ?thesis by (simp add: duplicate_request_def commit_Inr)
next
  case (Some q)
  then have "request_fits db q"
    using request_fits_same [OF ok Some] by simp
  with Some run ok show ?thesis
    by (auto simp: duplicate_request_def commit_Inr Let_def store_add_def request_fits_def intro!: requests_put
        split: sum.splits if_splits)
qed

text \<open>A folder or a request created where the caller says: in a collection that is there, in a folder of it or in none.\<close>

lemma create_folder_ok:
  assumes "tree_ok db" "create_folder m payload db = (Inr f, db')"
    "has_collection db (nf_collection payload)" "place_ok db (nf_collection payload) (nf_parent payload)"
  shows "tree_ok db'"
  using assms
  by (auto simp: create_folder_def commit_Inr Let_def store_add_def folder_at_def intro!: folders_put folder_fits_new
      split: sum.splits if_splits)

section \<open>Requests and their files\<close>

text \<open>The invariant but for the files, which the sweep puts right.\<close>

definition tree_but_files :: "database \<Rightarrow> bool" where
  "tree_but_files db \<longleftrightarrow> stores_ok db \<and> in_collections db \<and> placed db"

lemma tree_ok_but: "tree_ok db \<longleftrightarrow> tree_but_files db \<and> files_used db"
  by (auto simp: tree_ok_def tree_but_files_def)

lemma sweep_ok:
  assumes "tree_but_files db"
  shows "tree_ok (sweep_files db)"
  using assms
  by (auto simp: tree_ok_but tree_but_files_def stores_ok_def in_collections_def placed_def files_used_def sweep_files_def
      store_ok_def sorted_wrt_filter)

lemma store_files_but: "tree_but_files db \<Longrightarrow> tree_but_files (store_files files db)"
  by (simp add: tree_but_files_def stores_ok_def in_collections_def placed_def store_files_def store_puts_eq ob.ok_puts)

lemma requests_put_but:
  assumes "tree_but_files db" "has_collection db (rd_collection_id r)" "place_ok db (rd_collection_id r) (rd_folder_id r)"
  shows "tree_but_files (db\<lparr>db_requests := store_put req_key r (db_requests db)\<rparr>)"
  using assms
  by (auto simp: tree_but_files_def stores_ok_def in_collections_def placed_def ob.ok_put ob.set_put)

lemma keys_puts: "key ` set (store_puts key xs st) \<subseteq> key ` set st \<union> key ` set xs"
proof (induction xs arbitrary: st)
  case (Cons x xs)
  have "key ` set (store_put key x st) \<subseteq> insert (key x) (key ` set st)" using set_store_put [of key x st] by auto
  with Cons [of "store_put key x st"] show ?case by (auto simp: store_puts_def)
qed (simp add: store_puts_def)

lemma request_written:
  assumes ok: "tree_ok db" and fits: "request_fits db r" and sub: "fst ` set xs \<subseteq> set (request_files r)"
  shows "tree_ok ((store_files xs db)\<lparr>db_requests := store_put req_key r (db_requests db)\<rparr>)"
proof -
  let ?db = "db\<lparr>db_requests := store_put req_key r (db_requests db)\<rparr>"
  have written: "tree_ok ?db" by (rule requests_put [OF ok fits])
  have same: "(store_files xs db)\<lparr>db_requests := store_put req_key r (db_requests db)\<rparr> = store_files xs ?db"
    by (simp add: store_files_def)
  have "set (request_files r) \<subseteq> set (used_files (db_requests ?db))"
    using tree_ok_stores(3) [OF ok] by (auto simp: set_used_files ob.set_put)
  moreover have "fst ` set (db_files db) \<subseteq> set (used_files (db_requests ?db))"
    using written by (simp add: tree_ok_def files_used_def)
  ultimately have all: "fst ` set (db_files db) \<union> fst ` set xs \<subseteq> set (used_files (db_requests ?db))"
    using sub by blast
  have "files_used (store_files xs ?db)"
    using order.trans [OF keys_puts all] by (simp add: files_used_def store_files_def)
  with written show ?thesis unfolding same tree_ok_but by (simp add: store_files_but)
qed

lemma create_request_ok:
  assumes "tree_ok db" "create_request m payload xs db = (Inr r, db')"
    "has_collection db (nr_collection payload)" "place_ok db (nr_collection payload) (nr_folder payload)"
    "fst ` set xs \<subseteq> set (request_files r)"
  shows "tree_ok db'"
proof -
  have "db_requests (store_files xs db) = db_requests db" by (simp add: store_files_def)
  with assms show ?thesis
    by (auto simp: create_request_def commit_Inr Let_def store_add_def intro!: request_written request_fits_new
        split: sum.splits if_splits)
qed

text \<open>What a save may write: a place that is there; and files its body names, when it writes a body.\<close>

definition patch_fits :: "request_patch \<Rightarrow> (string \<times> stored_file) list \<Rightarrow> string \<Rightarrow> database \<Rightarrow> bool" where
  "patch_fits p xs i db \<longleftrightarrow>
     (\<forall>q. store_get req_key (db_requests db) i = Some q \<longrightarrow>
        place_ok db (rd_collection_id q) (rd_folder_id (patched p q)) \<and>
        (\<not> rp_body p \<longrightarrow> request_files (patched p q) = request_files q \<and> fst ` set xs \<subseteq> set (request_files q)))"

lemma update_request_ok:
  assumes ok: "tree_ok db" and run: "update_request now i p xs db = (Inr r, db')" and fits: "patch_fits p xs i db"
  shows "tree_ok db'"
proof (cases "store_get req_key (db_requests db) i")
  case None
  with ok run show ?thesis by (simp add: update_request_def commit_Inr)
next
  case (Some q)
  define doc where "doc = ensure_request ((patched p q)\<lparr>rd_meta := touch_meta now (rd_meta q)\<rparr>)"
  let ?db = "(store_files xs db)\<lparr>db_requests := store_put req_key doc (db_requests db)\<rparr>"
  have doc: "rd_collection_id doc = rd_collection_id q" "rd_folder_id doc = rd_folder_id (patched p q)" "req_key doc = req_key q"
    "request_files doc = request_files (patched p q)"
    by (simp_all add: doc_def request_files_def) (simp_all add: patched_def req_key_def)
  have q: "q \<in> set (db_requests db)" "req_key q = i" using ob.get_Some [OF Some] by simp_all
  have requests: "db_requests (store_files xs db) = db_requests db" by (simp add: store_files_def)
  have db': "db' = (if rp_body p then sweep_files ?db else ?db)"
    using run Some by (auto simp: update_request_def commit_Inr Let_def doc_def requests)
  have c: "has_collection db (rd_collection_id q)" and place: "place_ok db (rd_collection_id q) (rd_folder_id (patched p q))"
    using ok q(1) fits Some by (simp_all add: tree_defs patch_fits_def)
  show ?thesis
  proof (cases "rp_body p")
    case True
    have "tree_but_files (store_files xs db)" using ok by (simp add: tree_ok_but store_files_but)
    then have "tree_but_files ?db"
      using requests_put_but [of "store_files xs db" doc] c place doc by (simp add: store_files_def)
    with True show ?thesis by (simp add: db' sweep_ok)
  next
    case False
    with fits Some have "request_files doc = request_files q" "fst ` set xs \<subseteq> set (request_files q)"
      by (simp_all add: patch_fits_def doc(4))
    moreover from this have "request_fits db doc"
      using c place doc Some q(2) by (simp add: request_fits_def)
    ultimately show ?thesis using False request_written [OF ok, of doc xs] by (simp add: db')
  qed
qed

section \<open>Deletes\<close>

lemma less_stores_ok:
  assumes ok: "tree_ok db"
    and fs: "\<And>f. f \<in> set (db_folders db) \<Longrightarrow> f \<notin> set fs \<Longrightarrow>
      fol_collection_id f \<notin> col_key ` set cs \<and> (\<forall>p. fol_parent f = Some p \<longrightarrow> p \<notin> fol_key ` set fs)"
    and rs: "\<And>r. r \<in> set (db_requests db) \<Longrightarrow> r \<notin> set rs \<Longrightarrow>
      rd_collection_id r \<notin> col_key ` set cs \<and> (\<forall>p. rd_folder_id r = Some p \<longrightarrow> p \<notin> fol_key ` set fs)"
  shows "tree_ok (less_stores cs fs rs db)"
proof -
  note oks = tree_ok_stores [OF ok]
  define db1 where "db1 = db\<lparr>db_collections := store_deletes col_key (map col_key cs) (db_collections db),
       db_folders := store_deletes fol_key (map fol_key fs) (db_folders db),
       db_requests := store_deletes req_key (map req_key rs) (db_requests db)\<rparr>"
  have has: "has_collection db1 c" if "has_collection db c" "c \<notin> col_key ` set cs" for c
    using that by (auto simp: db1_def has_collection_def store_deletes_eq ob.get_dels)
  have place: "place_ok db1 c p" if "place_ok db c p" "\<forall>i. p = Some i \<longrightarrow> i \<notin> fol_key ` set fs" for c p
    using that by (auto simp: db1_def place_ok_def folder_at_def store_deletes_eq ob.get_dels split: option.splits)
  have f: "f \<in> set (db_folders db) \<and> f \<notin> set fs" if "f \<in> set (db_folders db1)" for f
    using that oks by (auto simp: db1_def store_deletes_eq ob.set_dels)
  have r: "r \<in> set (db_requests db) \<and> r \<notin> set rs" if "r \<in> set (db_requests db1)" for r
    using that oks by (auto simp: db1_def store_deletes_eq ob.set_dels)
  have "stores_ok db1"
    using oks by (simp add: db1_def stores_ok_def store_deletes_eq ob.ok_dels)
  moreover have "has_collection db1 (fol_collection_id g) \<and> place_ok db1 (fol_collection_id g) (fol_parent g)"
    if "g \<in> set (db_folders db1)" for g
    using f [OF that] fs [of g] ok by (auto simp: tree_defs intro!: has place)
  moreover have "has_collection db1 (rd_collection_id q) \<and> place_ok db1 (rd_collection_id q) (rd_folder_id q)"
    if "q \<in> set (db_requests db1)" for q
    using r [OF that] rs [of q] ok by (auto simp: tree_defs intro!: has place)
  ultimately have "stores_ok db1" "in_collections db1" "placed db1"
    unfolding in_collections_def placed_def by blast+
  then have "tree_but_files db1" by (simp add: tree_but_files_def)
  then show ?thesis unfolding less_stores_def db1_def [symmetric] by (rule sweep_ok)
qed

lemma delete_folder_ok:
  assumes ok: "tree_ok db" and run: "delete_folder i db = (Inr rm, db')"
  shows "tree_ok db'"
proof -
  note oks = tree_ok_stores [OF ok]
  let ?fs = "folders_going i db"
  have closed: "f \<in> set ?fs" if f: "f \<in> set (db_folders db)" and p: "fol_parent f = Some p" "p \<in> fol_key ` set ?fs" for f p
  proof -
    have "inside (db_folders db) i f"
    proof (cases "p = i")
      case True
      with f p show ?thesis by (auto intro: child)
    next
      case False
      with p(2) obtain g where "g \<in> set (subtree db i)" "fol_key g = p"
        using ob.get_Some [of fol_key "db_folders db" i] by (auto simp: folders_going_def found_one_def split: option.splits)
      with f p(1) subtree_facts(1) [OF oks(2), of i] show ?thesis by (auto intro: deeper)
    qed
    then show ?thesis
      using f ob.get_in [OF oks(2), of f] subtree_facts(1) [OF oks(2), of i]
      by (cases "fol_key f = i") (auto simp: folders_going_def found_one_def)
  qed
  have "tree_ok (less_stores [] ?fs (requests_going i db) db)"
    by (rule less_stores_ok [OF ok]) (use closed in \<open>auto simp: requests_going_def requests_inside_def\<close>)
  with run show ?thesis by (simp add: delete_folder_less)
qed

lemma delete_collection_ok:
  assumes ok: "tree_ok db" and run: "delete_collection i db = (Inr rm, db')"
  shows "tree_ok db'"
proof -
  let ?cs = "found_one (store_get col_key (db_collections db) i)"
  have stores: "stores_ok db" using ok by (simp add: tree_ok_def)
  have cs: "col_key ` set ?cs \<subseteq> {i}"
    using ob.get_Some [of col_key "db_collections db" i] by (auto simp: found_one_def split: option.splits)
  have apart: "p \<notin> fol_key ` set (folders_in_collection db i)" if "place_ok db c (Some p)" "c \<noteq> i" for c p
    using that ob.get_in [OF tree_ok_stores(2) [OF ok]]
    by (auto simp: place_ok_def folder_at_def folders_in_collection_def)
  have "tree_ok (less_stores ?cs (folders_in_collection db i) (requests_in_collection db i) db)"
  proof (rule less_stores_ok [OF ok])
    fix f assume f: "f \<in> set (db_folders db)" "f \<notin> set (folders_in_collection db i)"
    then have "fol_collection_id f \<noteq> i" "place_ok db (fol_collection_id f) (fol_parent f)"
      using ok by (auto simp: folders_in_collection_def tree_defs)
    then have "\<forall>p. fol_parent f = Some p \<longrightarrow> p \<notin> fol_key ` set (folders_in_collection db i)"
      using apart by metis
    with cs \<open>fol_collection_id f \<noteq> i\<close> show "fol_collection_id f \<notin> col_key ` set ?cs \<and>
      (\<forall>p. fol_parent f = Some p \<longrightarrow> p \<notin> fol_key ` set (folders_in_collection db i))" by blast
  next
    fix r assume r: "r \<in> set (db_requests db)" "r \<notin> set (requests_in_collection db i)"
    then have "rd_collection_id r \<noteq> i" "place_ok db (rd_collection_id r) (rd_folder_id r)"
      using ok by (auto simp: requests_in_collection_def tree_defs)
    then have "\<forall>p. rd_folder_id r = Some p \<longrightarrow> p \<notin> fol_key ` set (folders_in_collection db i)"
      using apart by metis
    with cs \<open>rd_collection_id r \<noteq> i\<close> show "rd_collection_id r \<notin> col_key ` set ?cs \<and>
      (\<forall>p. rd_folder_id r = Some p \<longrightarrow> p \<notin> fol_key ` set (folders_in_collection db i))" by blast
  qed
  with run show ?thesis by (simp add: delete_collection_less [OF stores])
qed

lemma delete_request_ok:
  assumes ok: "tree_ok db" and run: "delete_request i db = (Inr rm, db')"
  shows "tree_ok db'"
proof -
  have stores: "stores_ok db" using ok by (simp add: tree_ok_def)
  have "tree_ok (less_stores [] [] (found_one (store_get req_key (db_requests db) i)) db)"
    by (rule less_stores_ok [OF ok]) simp_all
  with run show ?thesis by (simp add: delete_request_less [OF stores])
qed

section \<open>Copies\<close>

lemma store_add_Inr: "store_add key x st = Inr st' \<longleftrightarrow> store_get key st (key x) = None \<and> st' = store_put key x st"
  by (auto simp: store_add_def)

lemma copy_requests_ok:
  assumes "copy_requests fresh c f rs (n, db) = Inr (n', db')" "tree_ok db" "has_collection db c" "place_ok db c (Some f)"
  shows "tree_ok db' \<and> db_folders db' = db_folders db \<and> db_collections db' = db_collections db"
  using assms
proof (induction rs arbitrary: n db)
  case (Cons r rs)
  let ?copy = "ensure_request (r\<lparr>rd_id := meta_id (fresh n), rd_meta := fresh n, rd_folder_id := Some f, rd_collection_id := c\<rparr>)"
  let ?db = "db\<lparr>db_requests := store_put req_key ?copy (db_requests db)\<rparr>"
  have none: "store_get req_key (db_requests db) (req_key ?copy) = None"
    and rest: "copy_requests fresh c f rs (Suc n, ?db) = Inr (n', db')"
    using Cons.prems(1) by (auto simp: Let_def store_add_Inr split: sum.splits)
  have "tree_ok ?db"
    using Cons.prems(2-4) none by (intro requests_put request_fits_new) simp_all
  with Cons.IH [OF rest] Cons.prems(3,4) show ?case by simp
qed simp

definition copies_ok :: "database \<Rightarrow> string \<Rightarrow> (string \<times> string) list \<Rightarrow> bool" where
  "copies_ok db c copies \<longleftrightarrow> (\<forall>k v. om_get copies k = Some v \<longrightarrow> place_ok db c (Some v))"

lemma place_ok_put:
  assumes "store_ok fol_key (db_folders db)" "folder_at db (fol_key f) = None"
  shows "place_ok db c p \<Longrightarrow> place_ok (db\<lparr>db_folders := store_put fol_key f (db_folders db)\<rparr>) c p"
    and "fol_key f \<noteq> [] \<Longrightarrow> fol_collection_id f = c \<Longrightarrow>
      place_ok (db\<lparr>db_folders := store_put fol_key f (db_folders db)\<rparr>) c (Some (fol_key f))"
  using assms by (auto simp: place_ok_def folder_at_def ob.get_put split: option.splits)

text \<open>One folder copied, with its requests.\<close>

lemma copy_one:
  assumes run: "copy_folders fresh c first (f # fs) copies (n, db) = Inr (n', db')"
    and ok: "tree_ok db" "has_collection db c" "copies_ok db c copies" "fol_collection_id f = c" "\<And>n. meta_id (fresh n) \<noteq> []"
    and place: "place_ok db c (fol_parent (folder_copy (fresh n) f first (om_set (fol_key f) (meta_id (fresh n)) copies) db))"
  obtains n1 db1 where "copy_folders fresh c False fs (om_set (fol_key f) (meta_id (fresh n)) copies) (n1, db1) = Inr (n', db')"
    "tree_ok db1" "has_collection db1 c" "copies_ok db1 c (om_set (fol_key f) (meta_id (fresh n)) copies)"
proof -
  let ?copies = "om_set (fol_key f) (meta_id (fresh n)) copies"
  let ?copy = "folder_copy (fresh n) f first ?copies db"
  let ?db = "db\<lparr>db_folders := store_put fol_key ?copy (db_folders db)\<rparr>"
  have key: "fol_key ?copy = meta_id (fresh n)" "fol_collection_id ?copy = c"
    using ok(4) by (simp_all add: folder_copy_def) (simp_all add: fol_key_def)
  obtain n1 db1 where none: "folder_at db (fol_key ?copy) = None"
    and requests: "copy_requests fresh c (meta_id (fresh n)) (requests_inside ?db (fol_key f)) (Suc n, ?db) = Inr (n1, db1)"
    and rest: "copy_folders fresh c False fs ?copies (n1, db1) = Inr (n', db')"
    using run by (auto simp: Let_def store_add_Inr folder_at_def split: sum.splits)
  note puts = place_ok_put [OF tree_ok_stores(2) [OF ok(1)] none]
  have db: "tree_ok ?db" using ok place none key by (intro folders_put folder_fits_new) simp_all
  have new: "place_ok ?db c (Some (meta_id (fresh n)))"
    using puts(2) key ok(5) by simp
  from copy_requests_ok [OF requests db _ new] ok(2)
  have db1: "tree_ok db1" "db_folders db1 = db_folders ?db" "db_collections db1 = db_collections db" by simp_all
  then have "place_ok db1 = place_ok ?db" by (auto simp: fun_eq_iff place_ok_def folder_at_def split: option.split)
  moreover have "copies_ok ?db c ?copies"
    using ok(3) new puts(1) by (auto simp: copies_ok_def om_get_set)
  ultimately have "copies_ok db1 c ?copies" by (simp add: copies_ok_def)
  moreover have "has_collection db1 c" using ok(2) db1(3) by (simp add: has_collection_def)
  ultimately show ?thesis using that rest db1(1) by blast
qed

lemma copy_folders_ok:
  assumes "copy_folders fresh c False fs copies (n, db) = Inr (n', db')"
    and "tree_ok db" "has_collection db c" "copies_ok db c copies" "\<And>n. meta_id (fresh n) \<noteq> []"
    and "\<And>f. f \<in> set fs \<Longrightarrow> fol_collection_id f = c"
    and "parents_first (map fst copies) fs" "distinct (map fol_key fs)" "fol_key ` set fs \<inter> fst ` set copies = {}"
  shows "tree_ok db'"
  using assms
proof (induction fs arbitrary: copies n db)
  case (Cons f fs)
  let ?copies = "om_set (fol_key f) (meta_id (fresh n)) copies"
  obtain p where p: "fol_parent f = Some p" "p \<in> set (map fst copies)" using Cons.prems(7) by auto
  have "fol_key f \<notin> set (map fst copies)" using Cons.prems(9) by simp
  with p(2) have "p \<noteq> fol_key f" by metis
  moreover obtain v where v: "om_get copies p = Some v"
    using p(2) om_has_get [of copies p] by (auto simp: om_has_def)
  ultimately have "place_ok db c (fol_parent (folder_copy (fresh n) f False ?copies db))"
    using p(1) Cons.prems(4) by (simp add: folder_copy_def om_get_set copies_ok_def)
  from copy_one [OF Cons.prems(1-4) _ Cons.prems(5) this] Cons.prems(6)
  obtain n1 db1 where rest: "copy_folders fresh c False fs ?copies (n1, db1) = Inr (n', db')"
    "tree_ok db1" "has_collection db1 c" "copies_ok db1 c ?copies"
    by (metis list.set_intros(1))
  show ?case
  proof (rule Cons.IH [OF rest Cons.prems(5)])
    show "fol_collection_id g = c" if "g \<in> set fs" for g using that Cons.prems(6) by simp
    show "parents_first (map fst ?copies) fs"
      using Cons.prems(7) by (auto elim!: parents_first_mono)
    show "distinct (map fol_key fs)" "fol_key ` set fs \<inter> fst ` set ?copies = {}"
      using Cons.prems(8,9) by auto
  qed
qed simp

lemma subtree_collection:
  assumes "tree_ok db" "folder_at db i = Some f" "g \<in> set (subtree db i)"
  shows "fol_collection_id g = fol_collection_id f"
proof -
  have "inside (db_folders db) i g"
    using assms(3) subtree_facts(1) [OF tree_ok_stores(2) [OF assms(1)]] by simp
  then show ?thesis
  proof induction
    case (child g)
    with assms(1,2) show ?case by (auto simp: tree_defs place_ok_def)
  next
    case (deeper g h)
    have "folder_at db (fol_key g) = Some g"
      using inside_folder [OF deeper.hyps(1)] ob.get_in [OF tree_ok_stores(2) [OF assms(1)]] by (simp add: folder_at_def)
    with deeper assms(1) show ?case by (auto simp: tree_defs place_ok_def)
  qed
qed

lemma duplicate_folder_ok:
  assumes ok: "tree_ok db" and run: "duplicate_folder fresh i db = (Inr f, db')" and fresh: "\<And>n. meta_id (fresh n) \<noteq> []"
  shows "tree_ok db'"
proof (cases "store_get fol_key (db_folders db) i")
  case None
  with ok run show ?thesis by (simp add: duplicate_folder_def commit_Inr)
next
  case (Some top0)
  let ?c = "fol_collection_id top0"
  let ?copies = "om_set (fol_key top0) (meta_id (fresh 0)) []"
  have key: "fol_key top0 = i" "top0 \<in> set (db_folders db)" using ob.get_Some [OF Some] by simp_all
  from run Some obtain n' where copies: "copy_folders fresh ?c True (top0 # subtree db i) [] (0, db) = Inr (n', db')"
    by (auto simp: duplicate_folder_def commit_Inr simp del: copy_folders.simps split: sum.splits)
  have c: "has_collection db ?c" and place: "place_ok db ?c (fol_parent top0)" using ok key(2) by (simp_all add: tree_defs)
  then have pl: "place_ok db ?c (fol_parent (folder_copy (fresh 0) top0 True ?copies db))" by (simp add: folder_copy_def)
  have none: "copies_ok db ?c []" by (simp add: copies_ok_def om_get_def)
  obtain n1 db1 where rest: "copy_folders fresh ?c False (subtree db i) ?copies (n1, db1) = Inr (n', db')"
    "tree_ok db1" "has_collection db1 ?c" "copies_ok db1 ?c ?copies"
    by (rule copy_one [OF copies ok c none refl fresh pl])
  note facts = subtree_facts [OF tree_ok_stores(2) [OF ok], of i]
  show ?thesis
  proof (rule copy_folders_ok [OF rest fresh])
    show "fol_collection_id g = ?c" if "g \<in> set (subtree db i)" for g
      using subtree_collection [OF ok _ that] Some by (simp add: folder_at_def)
    show "fol_key ` set (subtree db i) \<inter> fst ` set ?copies = {}" by (simp add: facts(1) key(1)) blast
  qed (use facts(2,3) key in simp_all)
qed

text \<open>A collection copied: its folders and requests are added together, each copy in the copy of its parent.\<close>

lemma store_adds_Inr:
  "store_ok key st \<Longrightarrow> store_adds key xs st = Inr st' \<Longrightarrow> store_ok key st' \<and> set st' = set st \<union> set xs"
proof (induction xs arbitrary: st)
  case (Cons x xs)
  then have none: "store_get key st (key x) = None" and rest: "store_adds key xs (store_put key x st) = Inr st'"
    by (auto simp: store_add_Inr split: sum.splits)
  have "\<forall>y \<in> set st. key y \<noteq> key x" using none ob.get_in [OF Cons.prems(1)] by fastforce
  then have "set (store_put key x st) = insert x (set st)" by (auto simp: ob.set_put [OF Cons.prems(1)])
  with Cons.IH [OF ob.ok_put [OF Cons.prems(1)] rest] show ?case by auto
qed simp

lemma om_get_of_in: "om_get (om_of kvs) k = Some v \<Longrightarrow> (k, v) \<in> set kvs"
  by (auto simp: om_get_of dest!: map_of_SomeD)

lemma copied_folder_key:
  assumes "om_get (copy_ids fresh fs) p = Some v"
  shows "\<exists>g \<in> set (copied_folders fresh c fs). fol_key g = v \<and> fol_collection_id g = c"
proof -
  from om_get_of_in [OF assms [unfolded copy_ids_def]] obtain n f where n: "(n, f) \<in> set (enumerate 1 fs)" "v = meta_id (fresh n)"
    by auto
  then have "copied_folder c (copy_ids fresh fs) (fresh n) f \<in> set (copied_folders fresh c fs)"
    by (force simp: copied_folders_def)
  with n(2) show ?thesis by (intro bexI) (simp_all add: copied_folder_def fol_key_def)
qed

lemma copied_folders_elem:
  assumes "f \<in> set (copied_folders fresh c fs)"
  shows "\<exists>g \<in> set fs. \<exists>m. f = copied_folder c (copy_ids fresh fs) m g"
proof -
  from assms obtain x where x: "x \<in> set (enumerate 1 fs)" and f: "f = (\<lambda>(n, g). copied_folder c (copy_ids fresh fs) (fresh n) g) x"
    unfolding copied_folders_def set_map by (rule imageE)
  from x have "snd x \<in> set fs" by (metis enumerate_eq_zip set_zip_rightD surjective_pairing)
  with f show ?thesis by (cases x) auto
qed

lemma copied_requests_elem:
  assumes "r \<in> set (copied_requests fresh c fs rs)"
  shows "\<exists>q \<in> set rs. \<exists>m. r = copied_request c (copy_ids fresh fs) m q"
proof -
  from assms obtain x where x: "x \<in> set (enumerate (1 + length fs) rs)"
      and r: "r = (\<lambda>(n, q). copied_request c (copy_ids fresh fs) (fresh n) q) x"
    unfolding copied_requests_def set_map by (rule imageE)
  from x have "snd x \<in> set rs" by (metis enumerate_eq_zip set_zip_rightD surjective_pairing)
  with r show ?thesis by (cases x) auto
qed

lemma duplicate_collection_ok:
  assumes ok: "tree_ok db" and run: "duplicate_collection le fresh i db = (Inr d, db')" and fresh: "\<And>n. meta_id (fresh n) \<noteq> []"
  shows "tree_ok db'"
proof (cases "store_get col_key (db_collections db) i")
  case None
  with ok run show ?thesis by (simp add: duplicate_collection_def commit_Inr)
next
  case (Some original)
  note oks = tree_ok_stores [OF ok]
  let ?fs = "sort_by (folder_before le) (folders_in_collection db i)"
  let ?rs = "sort_by (request_before le) (requests_in_collection db i)"
  from run Some obtain c cs fols reqs where c: "cs = store_put col_key c (db_collections db)"
    and fols: "store_adds fol_key (copied_folders fresh (col_key c) ?fs) (db_folders db) = Inr fols"
    and reqs: "store_adds req_key (copied_requests fresh (col_key c) ?fs ?rs) (db_requests db) = Inr reqs"
    and db': "db' = db\<lparr>db_collections := cs, db_folders := fols, db_requests := reqs\<rparr>"
    by (auto simp: duplicate_collection_def commit_Inr Let_def store_add_Inr split: sum.splits)
  note fols = store_adds_Inr [OF oks(2) fols] and reqs = store_adds_Inr [OF oks(3) reqs]
  have has: "has_collection db' k \<longleftrightarrow> k = col_key c \<or> has_collection db k" for k
    using has_collection_put [OF oks(1)] by (simp add: db' c)
  have at: "folder_at db' (fol_key f) = Some f" if "f \<in> set fols" for f
    using that fols by (simp add: db' folder_at_def ob.get_in)
  have old: "place_ok db' k p" if "place_ok db k p" for k p
  proof (cases p)
    case (Some j)
    with that obtain g where g: "folder_at db j = Some g" "fol_collection_id g = k" "j \<noteq> []" by (auto simp: place_ok_def)
    then have "g \<in> set (db_folders db)" "fol_key g = j" using ob.get_Some [of fol_key] by (auto simp: folder_at_def)
    with g at [of g] fols Some show ?thesis by (auto simp: place_ok_def)
  qed (simp add: place_ok_def)
  have new: "place_ok db' (col_key c) (om_get (copy_ids fresh ?fs) p)" for p
  proof (cases "om_get (copy_ids fresh ?fs) p")
    case (Some v)
    from copied_folder_key [OF this] obtain g where "g \<in> set (copied_folders fresh (col_key c) ?fs)" "fol_key g = v"
      "fol_collection_id g = col_key c" by blast
    moreover have "v \<noteq> []" using om_get_of_in [OF Some [unfolded copy_ids_def]] fresh by auto
    ultimately show ?thesis using at [of g] fols Some by (auto simp: place_ok_def)
  qed (simp add: place_ok_def)
  have nowhere: "place_ok db' k None" for k by (simp add: place_ok_def)
  have f: "fol_collection_id f = col_key c \<and> place_ok db' (col_key c) (fol_parent f)"
    if "f \<in> set (copied_folders fresh (col_key c) ?fs)" for f
  proof -
    from copied_folders_elem [OF that] obtain g m where g: "g \<in> set ?fs"
      and f: "f = copied_folder (col_key c) (copy_ids fresh ?fs) m g" by blast
    from g have "g \<in> set (db_folders db)" by (simp add: folders_in_collection_def)
    then have "fol_parent g \<noteq> Some []" using ok by (auto simp: tree_defs place_ok_def)
    then show ?thesis by (cases "fol_parent g") (simp_all add: f copied_folder_def new nowhere)
  qed
  have r: "rd_collection_id r = col_key c \<and> place_ok db' (col_key c) (rd_folder_id r) \<and> (\<exists>q \<in> set (db_requests db). request_files r = request_files q)"
    if "r \<in> set (copied_requests fresh (col_key c) ?fs ?rs)" for r
  proof -
    from copied_requests_elem [OF that] obtain q m where q: "q \<in> set ?rs"
      and r: "r = copied_request (col_key c) (copy_ids fresh ?fs) m q" by blast
    from q have "q \<in> set (db_requests db)" by (simp add: requests_in_collection_def)
    moreover have "request_files r = request_files q" by (simp add: r copied_request_def request_files_def)
    moreover have "place_ok db' (col_key c) (rd_folder_id r)"
      by (cases "rd_folder_id q") (simp_all add: r copied_request_def new nowhere)
    ultimately show ?thesis by (auto simp: r copied_request_def)
  qed
  have "in_collections db'" "placed db'"
    using ok f r fols reqs old has by (auto simp: tree_defs db')
  moreover have "files_used db'"
    using ok reqs by (auto simp: tree_ok_def files_used_def set_used_files db')
  moreover have "stores_ok db'" using oks fols reqs by (simp add: stores_ok_def db' c ob.ok_put)
  ultimately show ?thesis by (simp add: tree_ok_def)
qed

end
