(* ===== verification/WorkspaceSteps.thy ===== *)
theory WorkspaceSteps
  imports WorkspaceInvariant
begin

text \<open>
  The operations on the stores as steps, one transaction each, and what every state reached has: the tree of
  \<open>WorkspaceInvariant\<close>. The guards are what the app's callers give: a place that is there, ids that are not empty,
  and a file of a collection whose folders and requests are in one another and under no other collection's ids.
\<close>

section \<open>The import of a collection's file\<close>

text \<open>A file whose folders and requests are in folders of the file, and under no id another collection's folder has.\<close>

definition in_file :: "folder list \<Rightarrow> string option \<Rightarrow> bool" where
  "in_file fs p \<longleftrightarrow> (case p of None \<Rightarrow> True | Some i \<Rightarrow> i \<noteq> [] \<and> i \<in> fol_key ` set fs)"

definition import_fits :: "collection_tree \<Rightarrow> bool \<Rightarrow> database \<Rightarrow> bool" where
  "import_fits tree as_new db \<longleftrightarrow>
     (let c = col_key (tree_collection tree); fs = tree_folders tree
      in (as_new \<longrightarrow> \<not> has_collection db c) \<and>
         (\<forall>f \<in> set fs. fol_id f \<in> {[], fol_key f} \<and> in_file fs (fol_parent f)) \<and>
         (\<forall>r \<in> set (tree_requests tree). rd_folder_id r \<noteq> Some []) \<and>
         (\<forall>f \<in> set (db_folders db). fol_collection_id f \<noteq> c \<longrightarrow> fol_key f \<notin> fol_key ` set fs))"

lemma moved_key [simp]: "fol_key (f\<lparr>fol_collection_id := c\<rparr>) = fol_key f"
  by (simp add: fol_key_def)

lemma tree_puts:
  assumes ok: "tree_but_files db" and gone: "\<not> has_collection db c"
    and col: "col_key col = c"
    and fs: "\<And>f. f \<in> set fs \<Longrightarrow> fol_collection_id f = c \<and> in_file fs (fol_parent f)"
    and rs: "\<And>r. r \<in> set rs \<Longrightarrow> rd_collection_id r = c \<and> in_file fs (rd_folder_id r)"
    and apart: "\<And>f. f \<in> set (db_folders db) \<Longrightarrow> fol_key f \<notin> fol_key ` set fs"
  shows "tree_but_files (db\<lparr>db_collections := store_put col_key col (db_collections db),
      db_folders := store_puts fol_key fs (db_folders db), db_requests := store_puts req_key rs (db_requests db)\<rparr>)"
    (is "tree_but_files ?db")
proof -
  have stores: "store_ok col_key (db_collections db)" "store_ok fol_key (db_folders db)" "store_ok req_key (db_requests db)"
    "store_ok fst (db_files db)" using ok by (simp_all add: tree_but_files_def stores_ok_def)
  have has: "has_collection ?db k \<longleftrightarrow> k = c \<or> has_collection db k" for k
    using has_collection_put [OF stores(1)] col by simp
  have old: "place_ok ?db k p" if "place_ok db k p" for k p
  proof (cases p)
    case (Some j)
    with that obtain g where g: "folder_at db j = Some g" "fol_collection_id g = k" "j \<noteq> []" by (auto simp: place_ok_def)
    then have "g \<in> set (db_folders db)" "fol_key g = j" using ob.get_Some [of fol_key] by (auto simp: folder_at_def)
    with apart have "j \<notin> fol_key ` set fs" by blast
    then have "folder_at ?db j = folder_at db j" by (simp add: folder_at_def get_puts_other [OF stores(2)])
    with g Some show ?thesis by (simp add: place_ok_def)
  qed (simp add: place_ok_def)
  have new: "place_ok ?db c p" if "in_file fs p" for p
  proof (cases p)
    case (Some j)
    with that get_puts_these [OF stores(2), of j fs] fs show ?thesis by (auto simp: in_file_def place_ok_def folder_at_def)
  qed (simp add: place_ok_def)
  have f: "has_collection ?db (fol_collection_id f) \<and> place_ok ?db (fol_collection_id f) (fol_parent f)"
    if "f \<in> set (db_folders ?db)" for f
    using elem_puts [OF stores(2), of f fs] that fs new old has ok
    by (auto simp: tree_but_files_def in_collections_def placed_def)
  have r: "has_collection ?db (rd_collection_id r) \<and> place_ok ?db (rd_collection_id r) (rd_folder_id r)"
    if "r \<in> set (db_requests ?db)" for r
    using elem_puts [OF stores(3), of r rs] that rs new old has ok
    by (auto simp: tree_but_files_def in_collections_def placed_def)
  have "stores_ok ?db" using stores by (simp add: stores_ok_def ob.ok_put store_puts_eq ob.ok_puts)
  with f r show ?thesis by (simp add: tree_but_files_def in_collections_def placed_def)
qed

lemma sweep_but: "tree_but_files (sweep_files db) \<Longrightarrow> store_ok fst (db_files db) \<Longrightarrow> tree_but_files db"
  by (auto simp: tree_but_files_def stores_ok_def in_collections_def placed_def sweep_files_def)

lemma without_ok:
  assumes "tree_ok db"
  shows "tree_but_files (without_collection c db)" "\<not> has_collection (without_collection c db) c"
    "set (db_folders (without_collection c db)) = {f \<in> set (db_folders db). fol_collection_id f \<noteq> c}"
proof -
  have "delete_collection c db = (Inr (taken_out c db), sweep_files (without_collection c db))"
    by (simp add: delete_collection_def commit_Inr)
  from delete_collection_ok [OF assms this] have "tree_but_files (sweep_files (without_collection c db))"
    by (simp add: tree_ok_but)
  then show "tree_but_files (without_collection c db)"
    by (rule sweep_but) (simp add: without_collection_def tree_ok_stores [OF assms])
  show "\<not> has_collection (without_collection c db) c"
    by (simp add: has_collection_def without_collection_def ob.get_del)
  show "set (db_folders (without_collection c db)) = {f \<in> set (db_folders db). fol_collection_id f \<noteq> c}"
  proof -
    note fols = tree_ok_stores(2) [OF assms]
    have taken: "fol_key f \<in> fol_key ` set (folders_in_collection db c) \<longleftrightarrow> fol_collection_id f = c" if "f \<in> set (db_folders db)" for f
    proof
      assume "fol_key f \<in> fol_key ` set (folders_in_collection db c)"
      then obtain g where "fol_key f = fol_key g" "g \<in> set (folders_in_collection db c)" by (rule imageE)
      moreover from this have "g \<in> set (db_folders db)" "fol_collection_id g = c" by (simp_all add: folders_in_collection_def)
      ultimately show "fol_collection_id f = c" using that ob.get_in [OF fols] by (metis option.inject)
    next
      assume "fol_collection_id f = c"
      with that show "fol_key f \<in> fol_key ` set (folders_in_collection db c)" by (simp add: folders_in_collection_def)
    qed
    have "set (db_folders (without_collection c db)) =
        {f \<in> set (db_folders db). fol_key f \<notin> fol_key ` set (folders_in_collection db c)}"
      by (simp add: without_collection_def store_deletes_eq ob.set_dels [OF fols])
    also have "\<dots> = {f \<in> set (db_folders db). fol_collection_id f \<noteq> c}" by (rule Collect_cong) (simp add: taken cong: conj_cong)
    finally show ?thesis .
  qed
qed

lemma imported_in_file:
  assumes "\<forall>f \<in> set fs. fol_id f \<in> {[], fol_key f}" "rd_folder_id r \<noteq> Some []"
  shows "in_file (map (\<lambda>f. f\<lparr>fol_collection_id := c\<rparr>) (map ensure_folder fs))
      (rd_folder_id (imported_request c (map ensure_folder fs) (ensure_request r)))"
  using assms
  by (auto simp: in_file_def imported_request_def ensure_request_def ensure_folder_def fol_key_def image_image
      split: option.splits if_splits)

lemma import_ok:
  assumes ok: "tree_ok db" and run: "import_collection_export payload as_new db = (Inr out, db')"
    and fits: "import_fits payload as_new db"
  shows "tree_ok db'"
proof -
  let ?c = "col_key (tree_collection payload)"
  let ?db1 = "if as_new then db else without_collection ?c db"
  let ?fs = "map (\<lambda>f. f\<lparr>fol_collection_id := ?c\<rparr>) (map ensure_folder (tree_folders payload))"
  let ?rs = "map (imported_request ?c (map ensure_folder (tree_folders payload))) (map ensure_request (tree_requests payload))"
  let ?col = "(ensure_collection (tree_collection payload))\<lparr>col_script_trust := \<lparr>trusted = False, approved = None\<rparr>\<rparr>"
  have key: "col_key (ensure_collection c) = col_key c" for c by (simp add: ensure_collection_def col_key_def)
  have db': "db' = sweep_files (?db1\<lparr>db_collections := store_put col_key ?col (db_collections ?db1),
      db_folders := store_puts fol_key ?fs (db_folders ?db1), db_requests := store_puts req_key ?rs (db_requests ?db1)\<rparr>)"
    using run by (auto simp: import_collection_export_def commit_Inr Let_def key comp_def split: if_splits)
  have keys: "fol_key ` set ?fs = fol_key ` set (tree_folders payload)"
    by (simp add: image_image)
  have same: "in_file ?fs p \<longleftrightarrow> in_file (tree_folders payload) p" for p by (simp only: in_file_def keys)
  note fits = fits [unfolded import_fits_def Let_def]
  have "tree_but_files (?db1\<lparr>db_collections := store_put col_key ?col (db_collections ?db1),
      db_folders := store_puts fol_key ?fs (db_folders ?db1), db_requests := store_puts req_key ?rs (db_requests ?db1)\<rparr>)"
  proof (rule tree_puts)
    show "tree_but_files ?db1" using ok without_ok(1) [OF ok] by (simp add: tree_ok_but)
    show none: "\<not> has_collection ?db1 ?c" using fits without_ok(2) [OF ok] by simp
    show "col_key ?col = ?c" by (simp add: ensure_collection_def col_key_def)
    show "fol_collection_id f = ?c \<and> in_file ?fs (fol_parent f)" if "f \<in> set ?fs" for f
    proof -
      from that obtain h where "h \<in> set (tree_folders payload)" and f: "f = (ensure_folder h)\<lparr>fol_collection_id := ?c\<rparr>"
        by auto
      with fits same show ?thesis by (simp add: f)
    qed
    show "rd_collection_id r = ?c \<and> in_file ?fs (rd_folder_id r)" if "r \<in> set ?rs" for r
    proof -
      from that obtain q where "q \<in> set (tree_requests payload)"
        and r: "r = imported_request ?c (map ensure_folder (tree_folders payload)) (ensure_request q)" by auto
      with fits imported_in_file [of "tree_folders payload" q ?c] show ?thesis
        by (simp add: imported_request_def)
    qed
    show "fol_key f \<notin> fol_key ` set ?fs" if "f \<in> set (db_folders ?db1)" for f
    proof -
      have "f \<in> set (db_folders db) \<and> fol_collection_id f \<noteq> ?c"
      proof (cases as_new)
        case True
        with that none ok show ?thesis by (auto simp: tree_ok_def in_collections_def)
      next
        case False
        with that without_ok(3) [OF ok] show ?thesis by simp
      qed
      with fits show ?thesis unfolding keys by blast
    qed
  qed
  from sweep_ok [OF this] show ?thesis by (simp add: db')
qed

section \<open>The steps\<close>

definition empty_database :: database where
  "empty_database = \<lparr>db_collections = [], db_folders = [], db_requests = [], db_files = []\<rparr>"

definition new_content :: "new_request \<Rightarrow> request_content" where
  "new_content payload = nr_content payload (empty_request\<lparr>rc_auth := Inherit\<rparr>)"

text \<open>One operation run as the app's callers run it; one that fails has left the stores as they were.\<close>

inductive tree_step :: "database \<Rightarrow> database \<Rightarrow> bool" where
  step_create_collection: "tree_step db (snd (create_collection m n d db))"
| step_rename_collection: "tree_step db (snd (rename_collection now i n' d db))"
| step_collection_inherited: "tree_step db (snd (set_collection_inherited now i a s r db))"
| step_collection_variables: "tree_step db (snd (change_collection_variables now i changes db))"
| step_approve: "tree_step db (snd (approve_scripts now i digests review db))"
| step_reorder_collections: "tree_step db (snd (reorder_collections now entries db))"
| step_duplicate_collection:
    "(\<And>n. meta_id (fresh n) \<noteq> []) \<Longrightarrow> tree_step db (snd (duplicate_collection locale_le fresh i db))"
| step_delete_collection: "tree_step db (snd (delete_collection i db))"
| step_import: "import_fits tree as_new db \<Longrightarrow> tree_step db (snd (import_collection_export tree as_new db))"
| step_create_folder:
    "has_collection db (nf_collection folder) \<Longrightarrow> place_ok db (nf_collection folder) (nf_parent folder) \<Longrightarrow>
     tree_step db (snd (create_folder m folder db))"
| step_rename_folder: "tree_step db (snd (rename_folder now i n db))"
| step_folder_inherited: "tree_step db (snd (set_folder_inherited now i a s db))"
| step_folder_variables: "tree_step db (snd (change_folder_variables now i changes db))"
| step_reorder_children: "tree_step db (snd (reorder_children now entries db))"
| step_duplicate_folder: "(\<And>n. meta_id (fresh n) \<noteq> []) \<Longrightarrow> tree_step db (snd (duplicate_folder fresh i db))"
| step_delete_folder: "tree_step db (snd (delete_folder i db))"
| step_create_request:
    "has_collection db (nr_collection request) \<Longrightarrow> place_ok db (nr_collection request) (nr_folder request) \<Longrightarrow>
     fst ` set files \<subseteq> set (file_ids_of (rc_body (new_content request))) \<Longrightarrow>
     tree_step db (snd (create_request m request files db))"
| step_rename_request: "tree_step db (snd (rename_request now i n db))"
| step_update_request: "patch_fits patch files i db \<Longrightarrow> tree_step db (snd (update_request now i patch files db))"
| step_duplicate_request: "tree_step db (snd (duplicate_request m i db))"
| step_delete_request: "tree_step db (snd (delete_request i db))"
| step_undo: "delete \<in> {delete_folder, delete_collection, delete_request} \<Longrightarrow> delete i db = (Inr gone, db') \<Longrightarrow>
     tree_step db (snd (restore gone db'))"

lemma runs:
  assumes "run = commit work" "tree_ok db" "\<And>a db'. run db = (Inr a, db') \<Longrightarrow> tree_ok db'"
  shows "tree_ok (snd (run db))"
proof (cases "run db")
  case (Pair out db')
  with assms commit_Inl [of work db] show ?thesis by (cases out) auto
qed

lemma created_files: "create_request m payload xs db = (Inr r, db') \<Longrightarrow> request_files r = file_ids_of (rc_body (new_content payload))"
  by (auto simp: create_request_def commit_Inr Let_def request_files_def new_content_def split: sum.splits)

lemmas by_change_folder = set_folder_inherited_def [unfolded change_folder_def] change_folder_variables_def [unfolded change_folder_def]

lemmas by_change_collection = rename_collection_def [unfolded change_collection_def]
  set_collection_inherited_def [unfolded change_collection_def]
  change_collection_variables_def [unfolded change_collection_def] approve_scripts_def [unfolded change_collection_def]

lemma changed_folder_ok:
  "tree_ok db \<Longrightarrow> set_folder_inherited now i a s db = (Inr f, db') \<Longrightarrow> tree_ok db'"
  "tree_ok db \<Longrightarrow> change_folder_variables now i changes db = (Inr f, db') \<Longrightarrow> tree_ok db'"
  unfolding set_folder_inherited_def change_folder_variables_def by (erule (1) change_folder_ok; simp)+

lemma changed_collection_ok:
  "tree_ok db \<Longrightarrow> rename_collection now i n' d db = (Inr c, db') \<Longrightarrow> tree_ok db'"
  "tree_ok db \<Longrightarrow> set_collection_inherited now i a s r db = (Inr c, db') \<Longrightarrow> tree_ok db'"
  "tree_ok db \<Longrightarrow> change_collection_variables now i changes db = (Inr c, db') \<Longrightarrow> tree_ok db'"
  "tree_ok db \<Longrightarrow> approve_scripts now i digests review db = (Inr c, db') \<Longrightarrow> tree_ok db'"
  unfolding rename_collection_def set_collection_inherited_def change_collection_variables_def approve_scripts_def
  by (erule (1) change_collection_ok)+

lemma tree_step_ok: "tree_step db db' \<Longrightarrow> tree_ok db \<Longrightarrow> tree_ok db'"
proof (induction rule: tree_step.induct)
  case (step_create_collection db m n d)
  show ?case by (rule runs [OF create_collection_def step_create_collection create_collection_ok [OF step_create_collection]])
next
  case (step_rename_collection db now i n' d)
  show ?case by (rule runs [OF by_change_collection(1) step_rename_collection changed_collection_ok(1) [OF step_rename_collection]])
next
  case (step_collection_inherited db now i a s r)
  show ?case by (rule runs [OF by_change_collection(2) step_collection_inherited changed_collection_ok(2) [OF step_collection_inherited]])
next
  case (step_collection_variables db now i changes)
  show ?case by (rule runs [OF by_change_collection(3) step_collection_variables changed_collection_ok(3) [OF step_collection_variables]])
next
  case (step_approve db now i digests review)
  show ?case by (rule runs [OF by_change_collection(4) step_approve changed_collection_ok(4) [OF step_approve]])
next
  case (step_reorder_collections db now entries)
  show ?case by (rule runs [OF reorder_collections_def step_reorder_collections reorder_collections_ok [OF step_reorder_collections]])
next
  case (step_duplicate_collection fresh db le i)
  show ?case by (rule runs [OF duplicate_collection_def step_duplicate_collection(2)]) (erule duplicate_collection_ok [OF step_duplicate_collection(2) _ step_duplicate_collection(1)])
next
  case (step_delete_collection db i)
  show ?case by (rule runs [OF delete_collection_def step_delete_collection delete_collection_ok [OF step_delete_collection]])
next
  case (step_import tree as_new db)
  show ?case by (rule runs [OF import_collection_export_def step_import(2)]) (erule import_ok [OF step_import(2) _ step_import(1)])
next
  case (step_create_folder db folder m)
  show ?case by (rule runs [OF create_folder_def step_create_folder(3)]) (erule create_folder_ok [OF step_create_folder(3) _ step_create_folder(1,2)])
next
  case (step_rename_folder db now i n)
  show ?case by (rule runs [OF rename_folder_def step_rename_folder rename_folder_ok [OF step_rename_folder]])
next
  case (step_folder_inherited db now i a s)
  show ?case by (rule runs [OF by_change_folder(1) step_folder_inherited changed_folder_ok(1) [OF step_folder_inherited]])
next
  case (step_folder_variables db now i changes)
  show ?case by (rule runs [OF by_change_folder(2) step_folder_variables changed_folder_ok(2) [OF step_folder_variables]])
next
  case (step_reorder_children db now entries)
  show ?case by (rule runs [OF reorder_children_def step_reorder_children reorder_children_ok [OF step_reorder_children]])
next
  case (step_duplicate_folder fresh db i)
  show ?case by (rule runs [OF duplicate_folder_def step_duplicate_folder(2)]) (erule duplicate_folder_ok [OF step_duplicate_folder(2) _ step_duplicate_folder(1)])
next
  case (step_delete_folder db i)
  show ?case by (rule runs [OF delete_folder_def step_delete_folder delete_folder_ok [OF step_delete_folder]])
next
  case (step_create_request db request files m)
  have "fst ` set files \<subseteq> set (request_files r)" if "create_request m request files db = (Inr r, db')" for r db'
    using created_files [OF that] step_create_request(3) by simp
  then show ?case
    by (intro runs [OF create_request_def step_create_request(4)] create_request_ok [OF step_create_request(4) _ step_create_request(1,2)])
next
  case (step_rename_request db now i n)
  show ?case by (rule runs [OF rename_request_def step_rename_request rename_request_ok [OF step_rename_request]])
next
  case (step_update_request patch files i db now)
  show ?case by (rule runs [OF update_request_def step_update_request(2)]) (erule update_request_ok [OF step_update_request(2) _ step_update_request(1)])
next
  case (step_duplicate_request db m i)
  show ?case by (rule runs [OF duplicate_request_def step_duplicate_request duplicate_request_ok [OF step_duplicate_request]])
next
  case (step_delete_request db i)
  show ?case by (rule runs [OF delete_request_def step_delete_request delete_request_ok [OF step_delete_request]])
next
  case (step_undo delete i db gone db')
  with undo_exact [of db delete i] show ?case by (auto simp: tree_ok_def)
qed

lemma reached_ok: "tree_step\<^sup>*\<^sup>* empty_database db \<Longrightarrow> tree_ok db"
  by (induction rule: rtranclp_induct)
    (simp_all add: tree_step_ok, simp add: tree_defs empty_database_def store_ok_def files_used_def)


text \<open>
  C13: undo of a delete gives back the stores exactly as they were, from every state the app reaches: of a folder with
  everything in it, of a collection, of a request; every record with its id and its place, and every file of a
  body, whether or not another request uses it.
\<close>

theorem undo_restores:
  assumes "tree_step\<^sup>*\<^sup>* empty_database db"
    and "delete \<in> {delete_folder, delete_collection, delete_request}"
  shows "\<exists>gone db'. delete i db = (Inr gone, db') \<and> restore gone db' = (Inr (), db)"
  using reached_ok [OF assms(1)] assms(2) by (intro undo_exact) (simp_all add: tree_ok_def)

section \<open>A small state\<close>

definition meta_of :: "string \<Rightarrow> meta" where
  "meta_of i = \<lparr>meta_id = i, meta_created_at = 1, meta_updated_at = 1\<rparr>"

definition small_database :: database where
  "small_database =
     snd (create_folder (meta_of ''g'') \<lparr>nf_collection = ''c'', nf_name = ''inner'', nf_parent = Some ''f'', nf_order = None\<rparr>
       (snd (create_folder (meta_of ''f'') \<lparr>nf_collection = ''c'', nf_name = ''outer'', nf_parent = None, nf_order = None\<rparr>
         (snd (create_collection (meta_of ''c'') ''API'' None empty_database)))))"

lemma reach_more: "tree_step\<^sup>*\<^sup>* a b \<Longrightarrow> tree_step b c \<Longrightarrow> tree_step\<^sup>*\<^sup>* a c"
  by (rule rtranclp.rtrancl_into_rtrancl)

lemma small_reached: "tree_step\<^sup>*\<^sup>* empty_database small_database"
proof -
  let ?a = "snd (create_collection (meta_of ''c'') ''API'' None empty_database)"
  let ?b = "snd (create_folder (meta_of ''f'') \<lparr>nf_collection = ''c'', nf_name = ''outer'', nf_parent = None, nf_order = None\<rparr> ?a)"
  have "tree_step\<^sup>*\<^sup>* empty_database ?a" by (rule r_into_rtranclp) (rule step_create_collection)
  moreover have "tree_step ?a ?b" by (rule step_create_folder; code_simp)
  moreover have "tree_step ?b small_database" unfolding small_database_def by (rule step_create_folder; code_simp)
  ultimately show ?thesis by (blast intro: reach_more)
qed


theorem undo_restores_witness:
  "\<exists>gone db'. delete_folder ''f'' small_database = (Inr gone, db') \<and> restore gone db' = (Inr (), small_database)"
  using undo_restores [OF small_reached, of delete_folder "''f''"] by simp

theorem subtree_exact_witness:
  "set (subtree small_database ''f'') = {f. inside (db_folders small_database) ''f'' f \<and> fol_key f \<noteq> ''f''} \<and>
   map fol_key (subtree small_database ''f'') = [''g'']"
proof -
  have "store_ok fol_key (db_folders small_database)" by code_simp
  note exact = subtree_exact [OF this, of "''f''"]
  have "map fol_key (subtree small_database ''f'') = [''g'']" by code_simp
  with exact show ?thesis by simp
qed

end
