(* ===== verification/SecretsVault.thy ===== *)
theory SecretsVault
  imports VaultCrypto ObjectStore Model
begin

text \<open>
  The secrets vault (\<open>src/app/services/secrets-vault.ts\<close>) over its stores (\<open>src/app/data/secrets-repository.ts\<close>).
  The stores are the browser's and shared by its tabs; the key is held by a tab. Random bytes, the new id and
  the time are arguments. What is left out: the note in Diagnostics of a save that takes long.
\<close>

section \<open>The stores\<close>

record secret_doc =
  sd_id :: string
  sd_meta :: meta
  sd_name :: string
  sd_environment :: "string option"
  sd_envelope :: secret_envelope

definition sec_key :: "secret_doc \<Rightarrow> string" where
  "sec_key d = meta_id (sd_meta d)"

record vault_store =
  vs_vault :: "vault_record option"
  vs_secrets :: "secret_doc list"

definition meta_with_id :: "rat \<Rightarrow> string \<Rightarrow> meta" where
  "meta_with_id now i = \<lparr>meta_id = i, meta_created_at = now, meta_updated_at = now\<rparr>"

definition ensure_secret :: "secret_doc \<Rightarrow> secret_doc" where
  "ensure_secret d = (if sd_id d = [] then d\<lparr>sd_id := sec_key d\<rparr> else d)"

definition write_cipher :: "rat \<Rightarrow> file_secret \<Rightarrow> vault_store \<Rightarrow> vault_store" where
  "write_cipher now s st =
     st\<lparr>vs_secrets := store_put sec_key (ensure_secret
       \<lparr>sd_id = fs_id s, sd_meta = meta_with_id now (fs_id s), sd_name = fs_name s, sd_environment = fs_environment s,
        sd_envelope = fs_envelope s\<rparr>) (vs_secrets st)\<rparr>"

definition replace_cipher :: "string \<Rightarrow> secret_envelope \<Rightarrow> vault_store \<Rightarrow> bool \<times> vault_store" where
  "replace_cipher i envelope st =
     (case store_get sec_key (vs_secrets st) i of
        None \<Rightarrow> (False, st)
      | Some doc \<Rightarrow> (True, st\<lparr>vs_secrets := store_put sec_key (doc\<lparr>sd_envelope := envelope\<rparr>) (vs_secrets st)\<rparr>))"

definition read_cipher :: "string \<Rightarrow> vault_store \<Rightarrow> secret_envelope option" where
  "read_cipher i st = map_option sd_envelope (store_get sec_key (vs_secrets st) i)"

definition write_vault :: "vault_record \<Rightarrow> bool \<Rightarrow> vault_store \<Rightarrow> bool \<times> vault_store" where
  "write_vault vault replacing st =
     (if (vs_vault st \<noteq> None) \<noteq> replacing then (False, st) else (True, st\<lparr>vs_vault := Some vault\<rparr>))"

text \<open>The secrets of a file, each with the id it had there.\<close>

definition stored_secret :: "rat \<Rightarrow> file_secret \<Rightarrow> secret_doc" where
  "stored_secret now s =
     \<lparr>sd_id = fs_id s, sd_meta = meta_with_id now (fs_id s), sd_name = fs_name s, sd_environment = fs_environment s,
      sd_envelope = fs_envelope s\<rparr>"

definition write_secrets :: "rat \<Rightarrow> file_secret list \<Rightarrow> vault_store \<Rightarrow> vault_store" where
  "write_secrets now ss st = st\<lparr>vs_secrets := store_puts sec_key (map (stored_secret now) ss) (vs_secrets st)\<rparr>"

definition list_all_secrets :: "vault_store \<Rightarrow> secret_doc list" where
  "list_all_secrets st = map ensure_secret (vs_secrets st)"

definition rename_secret :: "string \<Rightarrow> string \<Rightarrow> vault_store \<Rightarrow> secret_doc option \<times> vault_store" where
  "rename_secret i n st =
     (case store_get sec_key (vs_secrets st) i of
        None \<Rightarrow> (None, st)
      | Some doc \<Rightarrow>
          let doc' = doc\<lparr>sd_name := (if trim n \<noteq> [] then trim n else sd_name doc)\<rparr>
          in (Some doc', st\<lparr>vs_secrets := store_put sec_key doc' (vs_secrets st)\<rparr>))"

definition delete_secret :: "string \<Rightarrow> vault_store \<Rightarrow> vault_store" where
  "delete_secret i st = st\<lparr>vs_secrets := store_delete sec_key i (vs_secrets st)\<rparr>"

section \<open>A tab\<close>

text \<open>
  \<open>vt_waiting\<close> is the request that waits for the unlock dialog; \<open>vt_timer\<close> the milliseconds the idle timer was set to.
\<close>

record 'k vault_tab =
  vt_dek :: "'k option"
  vt_made :: "bool option"
  vt_idle :: nat
  vt_timer :: "nat option"
  vt_asked :: bool
  vt_reason :: string
  vt_waiting :: "nat option"

definition DEFAULT_IDLE_MINUTES :: nat where
  "DEFAULT_IDLE_MINUTES = 15"

definition MAX_IDLE_MINUTES :: nat where
  "MAX_IDLE_MINUTES = 240"

definition passphrase_problem :: "string \<Rightarrow> string \<Rightarrow> string option" where
  "passphrase_problem passphrase confirmation =
     (if length passphrase < 8 then Some ''A passphrase needs at least 8 characters.''
      else if passphrase \<noteq> confirmation then Some ''The passphrases do not match.''
      else None)"

definition restart_idle_timer :: "'k vault_tab \<Rightarrow> 'k vault_tab" where
  "restart_idle_timer tab =
     tab\<lparr>vt_timer := (if vt_dek tab \<noteq> None \<and> 0 < vt_idle tab then Some (vt_idle tab * 60000) else None)\<rparr>"

definition hold_key :: "'k \<Rightarrow> 'k vault_tab \<Rightarrow> 'k vault_tab" where
  "hold_key dek tab = restart_idle_timer (tab\<lparr>vt_dek := Some dek\<rparr>)"

definition drop_key :: "'k vault_tab \<Rightarrow> 'k vault_tab" where
  "drop_key tab = tab\<lparr>vt_dek := None, vt_timer := None\<rparr>"

text \<open>The setting as it is stored (\<open>None\<close> is a number that is not finite), and as a new tab reads it.\<close>

definition idle_minutes :: "rat option \<Rightarrow> nat" where
  "idle_minutes v = (case v of Some n \<Rightarrow> if 0 < n then min (nat \<lfloor>n\<rfloor>) MAX_IDLE_MINUTES else 0 | None \<Rightarrow> 0)"

definition set_idle_minutes :: "rat option \<Rightarrow> 'k vault_tab \<Rightarrow> string \<times> 'k vault_tab" where
  "set_idle_minutes v tab = (show_nat (idle_minutes v), restart_idle_timer (tab\<lparr>vt_idle := idle_minutes v\<rparr>))"

definition load_idle_minutes :: "string option \<Rightarrow> nat" where
  "load_idle_minutes stored =
     (case (case stored of None \<Rightarrow> Finite (num_of_int (int DEFAULT_IDLE_MINUTES)) | Some t \<Rightarrow> number_of_text t) of
        Finite d \<Rightarrow> if 0 \<le> mantissa d then min (nat \<lfloor>rat_of_num d\<rfloor>) MAX_IDLE_MINUTES else DEFAULT_IDLE_MINUTES
      | _ \<Rightarrow> DEFAULT_IDLE_MINUTES)"

definition new_tab :: "string option \<Rightarrow> 'k vault_tab" where
  "new_tab stored =
     \<lparr>vt_dek = None, vt_made = None, vt_idle = load_idle_minutes stored, vt_timer = None, vt_asked = False, vt_reason = [],
      vt_waiting = None\<rparr>"

text \<open>
  Asking for the vault: what was answered, by the number of the request, and the tab. A second request takes the place
  of one that waits, which is told no.
\<close>

definition answered :: "bool \<Rightarrow> 'k vault_tab \<Rightarrow> (nat \<times> bool) list" where
  "answered yes tab = (case vt_waiting tab of None \<Rightarrow> [] | Some n \<Rightarrow> [(n, yes)])"

definition ensure_unlocked :: "nat \<Rightarrow> string \<Rightarrow> 'k vault_tab \<Rightarrow> (nat \<times> bool) list \<times> 'k vault_tab" where
  "ensure_unlocked n reason tab =
     (if vt_dek tab \<noteq> None then ([(n, True)], tab)
      else (answered False tab, tab\<lparr>vt_reason := reason, vt_waiting := Some n, vt_asked := True\<rparr>))"

definition unlock_dialog_closed :: "'k vault_tab \<Rightarrow> (nat \<times> bool) list \<times> 'k vault_tab" where
  "unlock_dialog_closed tab =
     (answered (vt_dek tab \<noteq> None) tab, tab\<lparr>vt_asked := False, vt_reason := [], vt_waiting := None\<rparr>)"

section \<open>The vault's operations\<close>

type_synonym ('k, 'r) vault_run = "vault_store \<times> 'k vault_tab \<Rightarrow> (thrown + 'r) \<times> vault_store \<times> 'k vault_tab"

definition vault_exists :: "('k, bool) vault_run" where
  "vault_exists s = (case s of (st, tab) \<Rightarrow> (Inr (vs_vault st \<noteq> None), st, tab\<lparr>vt_made := Some (vs_vault st \<noteq> None)\<rparr>))"

definition vault_create :: "'k crypto \<Rightarrow> 'k \<Rightarrow> byte list \<Rightarrow> byte list \<Rightarrow> string \<Rightarrow> ('k, bool) vault_run" where
  "vault_create cr fresh salt iv passphrase s =
     (case s of (st, tab) \<Rightarrow>
        (case create_vault cr fresh salt iv passphrase of
           Inl e \<Rightarrow> (Inl e, s)
         | Inr (vault, dek) \<Rightarrow>
             (case write_vault vault False st of
                (False, _) \<Rightarrow> (Inr False, s)
              | (True, st') \<Rightarrow> (Inr True, st', hold_key dek (tab\<lparr>vt_made := Some True\<rparr>)))))"

definition vault_unlock :: "'k crypto \<Rightarrow> string \<Rightarrow> ('k, bool) vault_run" where
  "vault_unlock cr passphrase s =
     (case s of (st, tab) \<Rightarrow>
        (case vs_vault st of
           None \<Rightarrow> (Inr False, s)
         | Some vault \<Rightarrow>
             (case unwrap_dek cr vault passphrase of
                Inl e \<Rightarrow> (Inl e, s)
              | Inr None \<Rightarrow> (Inr False, s)
              | Inr (Some dek) \<Rightarrow> (Inr True, st, hold_key dek tab))))"

definition VAULT_LOCKED :: string where
  "VAULT_LOCKED = ''The vault is locked. Unlock it to save this secret.''"

definition save_secret ::
    "'k crypto \<Rightarrow> string \<Rightarrow> rat \<Rightarrow> byte list \<Rightarrow> string \<Rightarrow> string option \<Rightarrow> string \<Rightarrow> ('k, string) vault_run" where
  "save_secret cr i now iv n environment plaintext s =
     (case s of (st, tab) \<Rightarrow>
        (case vt_dek tab of
           None \<Rightarrow> (Inl (Err VAULT_LOCKED), s)
         | Some dek \<Rightarrow>
             (Inr i, write_cipher now \<lparr>fs_id = i, fs_name = n, fs_environment = environment,
               fs_envelope = encrypt_secret cr iv dek i plaintext\<rparr> st, tab)))"

definition replace_secret :: "'k crypto \<Rightarrow> byte list \<Rightarrow> string \<Rightarrow> string \<Rightarrow> ('k, bool) vault_run" where
  "replace_secret cr iv i plaintext s =
     (case s of (st, tab) \<Rightarrow>
        (case vt_dek tab of
           None \<Rightarrow> (Inr False, s)
         | Some dek \<Rightarrow>
             (case replace_cipher i (encrypt_secret cr iv dek i plaintext) st of (did, st') \<Rightarrow> (Inr did, st', tab))))"

definition read_secret :: "'k crypto \<Rightarrow> string \<Rightarrow> vault_store \<times> 'k vault_tab \<Rightarrow> thrown + string option" where
  "read_secret cr i s =
     (case s of (st, tab) \<Rightarrow>
        (case vt_dek tab of
           None \<Rightarrow> Inr None
         | Some dek \<Rightarrow>
             (case read_cipher i st of
                None \<Rightarrow> Inr None
              | Some envelope \<Rightarrow> map_sum id Some (decrypt_secret cr dek i envelope))))"

definition change_passphrase :: "'k crypto \<Rightarrow> byte list \<Rightarrow> byte list \<Rightarrow> string \<Rightarrow> string \<Rightarrow> ('k, bool) vault_run" where
  "change_passphrase cr salt iv current next_passphrase s =
     (case s of (st, tab) \<Rightarrow>
        (case vs_vault st of
           None \<Rightarrow> (Inr False, s)
         | Some vault \<Rightarrow>
             (case rewrap_dek cr salt iv vault current next_passphrase of
                Inl e \<Rightarrow> (Inl e, s)
              | Inr None \<Rightarrow> (Inr False, s)
              | Inr (Some rotated) \<Rightarrow> (case write_vault rotated True st of (did, st') \<Rightarrow> (Inr did, st', tab)))))"

definition file_secret_at :: "secret_doc \<Rightarrow> file_secret" where
  "file_secret_at d = \<lparr>fs_id = sd_id d, fs_name = sd_name d, fs_environment = sd_environment d, fs_envelope = sd_envelope d\<rparr>"

definition vault_bundle :: "vault_store \<Rightarrow> vault_file option" where
  "vault_bundle st =
     (case vs_vault st of
        None \<Rightarrow> None
      | Some vault \<Rightarrow> Some \<lparr>vf_vault = vault, vf_secrets = map file_secret_at (list_all_secrets st)\<rparr>)"

definition export_file :: "'k crypto \<Rightarrow> string \<Rightarrow> vault_store \<Rightarrow> thrown + string option" where
  "export_file cr passphrase st =
     (case vs_vault st of
        None \<Rightarrow> Inr None
      | Some vault \<Rightarrow>
          (case unwrap_dek cr vault passphrase of
             Inl e \<Rightarrow> Inl e
           | Inr None \<Rightarrow> Inr None
           | Inr (Some _) \<Rightarrow>
               Inr (Some (json_write ''  '' [] (case vault_bundle st of None \<Rightarrow> JNull | Some f \<Rightarrow> vault_file_json f)))))"

section \<open>The import of a vault file\<close>

datatype vault_import = Imported nat | Refused string

definition IMPORT_TOO_LARGE :: string where
  "IMPORT_TOO_LARGE = ''A file to import can be 10 MB at most, and this one is larger.''"

text \<open>The vault file itself, or the one inside an environments file.\<close>

definition vault_content :: "json \<Rightarrow> json" where
  "vault_content v = (case member v ''vault'' of Some inner \<Rightarrow> if member v ''secrets'' = None then inner else v | None \<Rightarrow> v)"

definition damaged :: "string \<Rightarrow> string" where
  "damaged n = ''The secret '' @ CHR 0x22 # n @ CHR 0x22 # '' in the file is damaged. Nothing was imported.''"

text \<open>Each secret read with the file's key and encrypted under this vault's; \<open>ivs n\<close> is the IV of the file's secret \<open>n\<close>.\<close>

fun import_secrets ::
    "'k crypto \<Rightarrow> 'k \<Rightarrow> 'k \<Rightarrow> (nat \<Rightarrow> byte list) \<Rightarrow> nat \<Rightarrow> file_secret list \<Rightarrow> thrown + (string + file_secret list)" where
  "import_secrets cr theirs local ivs n [] = Inr (Inr [])"
| "import_secrets cr theirs local ivs n (s # ss) =
     (case decrypt_secret cr theirs (fs_id s) (fs_envelope s) of
        Inl (Dom _) \<Rightarrow> Inr (Inl (damaged (fs_name s)))
      | Inl (Err e) \<Rightarrow> Inl (Err e)
      | Inr plaintext \<Rightarrow>
          (case import_secrets cr theirs local ivs (Suc n) ss of
             Inr (Inr docs) \<Rightarrow> Inr (Inr (s\<lparr>fs_envelope := encrypt_secret cr (ivs n) local (fs_id s) plaintext\<rparr> # docs))
           | other \<Rightarrow> other))"

definition import_checked ::
    "'k crypto \<Rightarrow> (nat \<Rightarrow> byte list) \<Rightarrow> rat \<Rightarrow> vault_file \<Rightarrow> string \<Rightarrow> ('k, vault_import) vault_run" where
  "import_checked cr ivs now file passphrase s =
     (case s of (st, tab) \<Rightarrow>
        (case vt_dek tab of
           None \<Rightarrow> (Inl (Err VAULT_LOCKED), s)
         | Some local \<Rightarrow>
             (case unwrap_dek cr (vf_vault file) passphrase of
                Inl e \<Rightarrow> (Inl e, s)
              | Inr None \<Rightarrow> (Inr (Refused ''That is not the passphrase this file was exported with.''), s)
              | Inr (Some theirs) \<Rightarrow>
                  (case import_secrets cr theirs local ivs 0 (vf_secrets file) of
                     Inl e \<Rightarrow> (Inl e, s)
                   | Inr (Inl message) \<Rightarrow> (Inr (Refused message), s)
                   | Inr (Inr docs) \<Rightarrow> (Inr (Imported (length docs)), write_secrets now docs st, tab)))))"

definition import_file :: "'k crypto \<Rightarrow> (nat \<Rightarrow> byte list) \<Rightarrow> rat \<Rightarrow> string \<Rightarrow> string \<Rightarrow> ('k, vault_import) vault_run" where
  "import_file cr ivs now text passphrase s =
     (if is_oversized_import (JStr text) then (Inr (Refused IMPORT_TOO_LARGE), s)
      else case parse_json text of
             None \<Rightarrow> (Inr (Refused ''The file is not JSON.''), s)
           | Some v \<Rightarrow>
               (case validate_vault_file (vault_content v) of
                  (path, message) # _ \<Rightarrow> (Inr (Refused (path @ '': '' @ message)), s)
                | [] \<Rightarrow> import_checked cr ivs now (vault_file_of (vault_content v)) passphrase s))"

end
