(* ===== verification/VaultTabs.thy ===== *)
theory VaultTabs
  imports SecretsVault
begin

text \<open>
  The vault over the tabs of one browser: the operations of \<open>SecretsVault\<close> run by any tab in any order. Whatever they do,
  there is one data key: every tab that is unlocked holds it, the stored record wraps it, and every stored secret
  opens with it.
\<close>

section \<open>The tabs\<close>

text \<open>\<open>vw_told\<close>: the tabs that another tab's lock was sent to and has not reached yet.\<close>

record 'k vaults =
  vw_store :: vault_store
  vw_tabs :: "nat \<Rightarrow> 'k vault_tab"
  vw_told :: "nat \<Rightarrow> bool"

definition on_tab ::
    "nat \<Rightarrow> (vault_store \<times> 'k vault_tab \<Rightarrow> 'r \<times> vault_store \<times> 'k vault_tab) \<Rightarrow> 'k vaults \<Rightarrow> 'k vaults" where
  "on_tab t run w =
     (case run (vw_store w, vw_tabs w t) of (_, st, tab) \<Rightarrow> w\<lparr>vw_store := st, vw_tabs := (vw_tabs w)(t := tab)\<rparr>)"

definition set_tab :: "nat \<Rightarrow> 'k vault_tab \<Rightarrow> 'k vaults \<Rightarrow> 'k vaults" where
  "set_tab t tab w = w\<lparr>vw_tabs := (vw_tabs w)(t := tab)\<rparr>"

definition lock_vault :: "nat \<Rightarrow> 'k vaults \<Rightarrow> 'k vaults" where
  "lock_vault t w = (set_tab t (drop_key (vw_tabs w t)) w)\<lparr>vw_told := (\<lambda>u. u \<noteq> t \<or> vw_told w u)\<rparr>"

definition lock_told :: "nat \<Rightarrow> 'k vaults \<Rightarrow> 'k vaults" where
  "lock_told u w = (set_tab u (drop_key (vw_tabs w u)) w)\<lparr>vw_told := (vw_told w)(u := False)\<rparr>"

definition no_vault :: "'k vaults" where
  "no_vault = \<lparr>vw_store = \<lparr>vs_vault = None, vs_secrets = []\<rparr>, vw_tabs = (\<lambda>_. new_tab None), vw_told = (\<lambda>_. False)\<rparr>"

inductive vault_step :: "'k crypto \<Rightarrow> 'k vaults \<Rightarrow> 'k vaults \<Rightarrow> bool" for cr :: "'k crypto" where
  step_exists: "vault_step cr w (on_tab t vault_exists w)"
| step_create: "length salt = SALT_BYTES \<Longrightarrow> length iv = IV_BYTES \<Longrightarrow>
    vault_step cr w (on_tab t (vault_create cr fresh salt iv passphrase) w)"
| step_unlock: "vault_step cr w (on_tab t (vault_unlock cr passphrase) w)"
| step_save: "i \<noteq> [] \<Longrightarrow> length iv = IV_BYTES \<Longrightarrow>
    vault_step cr w (on_tab t (save_secret cr i now iv n environment plaintext) w)"
| step_replace: "length iv = IV_BYTES \<Longrightarrow> vault_step cr w (on_tab t (replace_secret cr iv i plaintext) w)"
| step_change: "length salt = SALT_BYTES \<Longrightarrow> length iv = IV_BYTES \<Longrightarrow>
    vault_step cr w (on_tab t (change_passphrase cr salt iv current passphrase) w)"
| step_import: "(\<And>n. length (ivs n) = IV_BYTES) \<Longrightarrow> vault_step cr w (on_tab t (import_file cr ivs now file passphrase) w)"
| step_rename: "vault_step cr w (w\<lparr>vw_store := snd (rename_secret i n (vw_store w))\<rparr>)"
| step_delete: "vault_step cr w (w\<lparr>vw_store := delete_secret i (vw_store w)\<rparr>)"
| step_ask: "vault_step cr w (set_tab t (snd (ensure_unlocked k reason (vw_tabs w t))) w)"
| step_closed: "vault_step cr w (set_tab t (snd (unlock_dialog_closed (vw_tabs w t))) w)"
| step_idle_set: "vault_step cr w (set_tab t (snd (set_idle_minutes minutes (vw_tabs w t))) w)"
| step_used: "vault_step cr w (set_tab t (restart_idle_timer (vw_tabs w t)) w)"
| step_idle: "vt_timer (vw_tabs w t) \<noteq> None \<Longrightarrow> vault_step cr w (set_tab t (drop_key (vw_tabs w t)) w)"
| step_lock: "vault_step cr w (lock_vault t w)"
| step_told: "vw_told w u \<Longrightarrow> vault_step cr w (lock_told u w)"
| step_reload: "vault_step cr w (set_tab t (new_tab stored) w)"

section \<open>One data key\<close>

definition opens :: "'k crypto \<Rightarrow> 'k \<Rightarrow> secret_doc \<Rightarrow> bool" where
  "opens cr dek d \<longleftrightarrow>
     sd_id d = sec_key d \<and> sd_id d \<noteq> [] \<and> envelope_sound (sd_envelope d) \<and>
     (\<exists>p. decrypt_secret cr dek (sd_id d) (sd_envelope d) = Inr p)"

definition one_key :: "'k crypto \<Rightarrow> 'k \<Rightarrow> vault_store \<Rightarrow> (nat \<Rightarrow> 'k vault_tab) \<Rightarrow> bool" where
  "one_key cr dek st tabs \<longleftrightarrow>
     (\<exists>vault. vs_vault st = Some vault \<and> vault_sound vault \<and> wraps cr vault dek) \<and>
     (\<forall>t. vt_dek (tabs t) \<in> {None, Some dek}) \<and>
     store_ok sec_key (vs_secrets st) \<and> (\<forall>d \<in> set (vs_secrets st). opens cr dek d)"

definition vaults_ok :: "'k crypto \<Rightarrow> 'k vaults \<Rightarrow> bool" where
  "vaults_ok cr w \<longleftrightarrow>
     vw_store w = \<lparr>vs_vault = None, vs_secrets = []\<rparr> \<and> (\<forall>t. vt_dek (vw_tabs w t) = None) \<or>
     (\<exists>dek. one_key cr dek (vw_store w) (vw_tabs w))"

lemma vaults_ok_cases:
  assumes "vaults_ok cr w"
  obtains (none) "vw_store w = \<lparr>vs_vault = None, vs_secrets = []\<rparr>" "\<And>t. vt_dek (vw_tabs w t) = None"
    | (made) dek where "one_key cr dek (vw_store w) (vw_tabs w)"
  using assms unfolding vaults_ok_def by blast

lemma tab_ok:
  assumes "vaults_ok cr w" "vt_dek tab \<in> {None, vt_dek (vw_tabs w t)}"
  shows "vaults_ok cr (set_tab t tab w)"
  using assms(1)
proof (cases rule: vaults_ok_cases)
  case none
  with assms(2) show ?thesis by (simp add: vaults_ok_def set_tab_def)
next
  case (made dek)
  with assms(2) have "one_key cr dek (vw_store w) ((vw_tabs w)(t := tab))" by (auto simp: one_key_def)
  then show ?thesis by (auto simp: vaults_ok_def set_tab_def)
qed

lemma told_ok: "vaults_ok cr w \<Longrightarrow> vaults_ok cr (w\<lparr>vw_told := f\<rparr>)"
  by (simp add: vaults_ok_def)

lemma store_ok_here:
  assumes "one_key cr dek (vw_store w) (vw_tabs w)" "store_ok sec_key ss" "\<forall>d \<in> set ss. opens cr dek d"
  shows "one_key cr dek ((vw_store w)\<lparr>vs_secrets := ss\<rparr>) (vw_tabs w)"
  using assms by (simp add: one_key_def)

lemma opens_written:
  assumes "aead_ok cr" "length iv = IV_BYTES" "i \<noteq> []"
  shows "opens cr dek \<lparr>sd_id = i, sd_meta = meta_with_id now i, sd_name = n, sd_environment = e,
    sd_envelope = encrypt_secret cr iv dek i p\<rparr>"
  using assms by (simp add: opens_def sec_key_def meta_with_id_def decrypt_encrypt encrypt_sound)

lemma one_key_put:
  assumes "one_key cr dek st tabs" "opens cr dek d"
  shows "one_key cr dek (st\<lparr>vs_secrets := store_put sec_key d (vs_secrets st)\<rparr>) tabs"
  using assms by (auto simp: one_key_def ob.ok_put ob.set_put)

lemma one_key_puts:
  assumes "one_key cr dek st tabs" "\<forall>d \<in> set ds. opens cr dek d"
  shows "one_key cr dek (st\<lparr>vs_secrets := store_puts sec_key ds (vs_secrets st)\<rparr>) tabs"
  using assms
proof (induction ds arbitrary: st)
  case (Cons d ds)
  then have "one_key cr dek (st\<lparr>vs_secrets := store_put sec_key d (vs_secrets st)\<rparr>) tabs" by (simp add: one_key_put)
  from Cons.IH [OF this] Cons.prems show ?case by (simp add: store_puts_def)
qed (simp add: store_puts_def)

lemma one_key_found:
  "one_key cr dek st tabs \<Longrightarrow> store_get sec_key (vs_secrets st) i = Some d \<Longrightarrow> opens cr dek d \<and> sd_id d = i"
proof -
  assume one: "one_key cr dek st tabs" and found: "store_get sec_key (vs_secrets st) i = Some d"
  from ob.get_Some [OF found] one have "opens cr dek d" "sec_key d = i" by (simp_all add: one_key_def)
  then show ?thesis by (auto simp: opens_def)
qed

lemma one_key_tab: "one_key cr dek st tabs \<Longrightarrow> vt_dek (tabs t) = Some k \<Longrightarrow> k = dek"
  unfolding one_key_def by (metis insert_iff option.distinct(1) option.inject singletonD)

lemma one_key_set: "one_key cr dek st tabs \<Longrightarrow> vt_dek tab \<in> {None, Some dek} \<Longrightarrow> one_key cr dek st (tabs(t := tab))"
  by (simp add: one_key_def)

lemma holds [simp]:
  "vt_dek (hold_key dek tab) = Some dek" "vt_dek (drop_key tab) = None" "vt_dek (restart_idle_timer tab) = vt_dek tab"
  by (simp_all add: hold_key_def restart_idle_timer_def drop_key_def)

section \<open>Every operation keeps it\<close>

lemma one_key_ok: "one_key cr dek (vw_store w) (vw_tabs w) \<Longrightarrow> vaults_ok cr w"
  by (auto simp: vaults_ok_def)

lemma on_tab_same: "run (vw_store w, vw_tabs w t) = (out, vw_store w, vw_tabs w t) \<Longrightarrow> on_tab t run w = w"
  by (simp add: on_tab_def)

lemma on_tab_one_key:
  assumes "run (vw_store w, vw_tabs w t) = (out, st, tab)" "one_key cr dek st (vw_tabs w)" "vt_dek tab \<in> {None, Some dek}"
  shows "vaults_ok cr (on_tab t run w)"
  using assms(1) one_key_set [OF assms(2,3), of t] by (auto simp: on_tab_def vaults_ok_def)

lemma create_ok:
  assumes cr: "aead_ok cr" and ok: "vaults_ok cr w" and salt: "length salt = SALT_BYTES" and iv: "length iv = IV_BYTES"
  shows "vaults_ok cr (on_tab t (vault_create cr fresh salt iv p) w)"
proof (cases "create_vault cr fresh salt iv p")
  case (Inl e)
  then show ?thesis using ok on_tab_same [of "vault_create cr fresh salt iv p"] by (simp add: vault_create_def)
next
  case (Inr made)
  then obtain vault where made: "create_vault cr fresh salt iv p = Inr (vault, fresh)" and w: "wraps cr vault fresh"
    using create_wraps [OF cr iv] by (cases made) auto
  have sound: "vault_sound vault"
    using made wrap_sound [of salt iv cr fresh p] salt iv
    by (cases salt) (auto simp: create_vault_def SALT_BYTES_def split: if_splits sum.splits option.splits)
  show ?thesis
    using ok
  proof (cases rule: vaults_ok_cases)
    case none
    have "one_key cr fresh \<lparr>vs_vault = Some vault, vs_secrets = []\<rparr> (vw_tabs w)"
      using none sound w by (simp add: one_key_def store_ok_def)
    then show ?thesis
      by (intro on_tab_one_key [where tab = "hold_key fresh ((vw_tabs w t)\<lparr>vt_made := Some True\<rparr>)" and dek = fresh])
        (simp_all add: vault_create_def made write_vault_def none)
  next
    case (made dek)
    then have "vs_vault (vw_store w) \<noteq> None" by (auto simp: one_key_def)
    then show ?thesis using ok on_tab_same [of "vault_create cr fresh salt iv p"]
      by (cases "create_vault cr fresh salt iv p") (auto simp: vault_create_def write_vault_def)
  qed
qed

lemma unlock_ok:
  assumes cr: "aead_ok cr" and ok: "vaults_ok cr w"
  shows "vaults_ok cr (on_tab t (vault_unlock cr p) w)"
  using ok
proof (cases rule: vaults_ok_cases)
  case none
  with ok show ?thesis by (simp add: on_tab_same vault_unlock_def)
next
  case (made dek)
  then obtain vault where v: "vs_vault (vw_store w) = Some vault" "wraps cr vault dek" by (auto simp: one_key_def)
  show ?thesis
  proof (cases "unwrap_dek cr vault p")
    case (Inl e)
    with v ok show ?thesis by (simp add: on_tab_same vault_unlock_def)
  next
    case (Inr found)
    show ?thesis
    proof (cases found)
      case None
      with v ok Inr show ?thesis by (simp add: on_tab_same vault_unlock_def)
    next
      case (Some d)
      then have "d = dek" using unwrap_wraps [OF cr v(2)] Inr by simp
      then have "vault_unlock cr p (vw_store w, vw_tabs w t) = (Inr True, vw_store w, hold_key dek (vw_tabs w t))"
        using v Inr Some by (simp add: vault_unlock_def)
      then show ?thesis by (rule on_tab_one_key [OF _ made]) simp
    qed
  qed
qed

lemma save_ok:
  assumes cr: "aead_ok cr" and ok: "vaults_ok cr w" and i: "i \<noteq> []" and iv: "length iv = IV_BYTES"
  shows "vaults_ok cr (on_tab t (save_secret cr i now iv n environment p) w)"
proof (cases "vt_dek (vw_tabs w t)")
  case None
  with ok show ?thesis by (simp add: on_tab_same save_secret_def)
next
  case (Some k)
  from ok show ?thesis
  proof (cases rule: vaults_ok_cases)
    case none
    with Some show ?thesis by simp
  next
    case (made dek)
    have k: "k = dek" by (rule one_key_tab [OF made Some])
    have "opens cr dek \<lparr>sd_id = i, sd_meta = meta_with_id now i, sd_name = n, sd_environment = environment,
        sd_envelope = encrypt_secret cr iv dek i p\<rparr>" by (rule opens_written [OF cr iv i])
    from one_key_put [OF made this] Some i show ?thesis
      by (intro on_tab_one_key [where tab = "vw_tabs w t" and dek = dek])
        (simp_all add: save_secret_def write_cipher_def ensure_secret_def k)
  qed
qed

lemma replace_ok:
  assumes cr: "aead_ok cr" and ok: "vaults_ok cr w" and iv: "length iv = IV_BYTES"
  shows "vaults_ok cr (on_tab t (replace_secret cr iv i p) w)"
proof (cases "vt_dek (vw_tabs w t)")
  case None
  with ok show ?thesis by (simp add: on_tab_same replace_secret_def)
next
  case (Some k)
  from ok show ?thesis
  proof (cases rule: vaults_ok_cases)
    case none
    with Some show ?thesis by simp
  next
    case (made dek)
    have k: "k = dek" by (rule one_key_tab [OF made Some])
    show ?thesis
    proof (cases "store_get sec_key (vs_secrets (vw_store w)) i")
      case None
      with Some ok show ?thesis by (simp add: on_tab_same replace_secret_def replace_cipher_def)
    next
      case found: (Some d)
      have "opens cr dek (d\<lparr>sd_envelope := encrypt_secret cr iv dek i p\<rparr>)"
        using one_key_found [OF made found] by (auto simp: opens_def sec_key_def decrypt_encrypt [OF cr] encrypt_sound [OF cr iv])
      from one_key_put [OF made this] found Some show ?thesis
        by (intro on_tab_one_key [where tab = "vw_tabs w t" and dek = dek])
          (simp_all add: replace_secret_def replace_cipher_def k)
    qed
  qed
qed

lemma change_ok:
  assumes cr: "aead_ok cr" and ok: "vaults_ok cr w" and salt: "length salt = SALT_BYTES" and iv: "length iv = IV_BYTES"
  shows "vaults_ok cr (on_tab t (change_passphrase cr salt iv p q) w)"
  using ok
proof (cases rule: vaults_ok_cases)
  case none
  with ok show ?thesis by (simp add: on_tab_same change_passphrase_def)
next
  case (made dek)
  then obtain vault where v: "vs_vault (vw_store w) = Some vault" "wraps cr vault dek" by (auto simp: one_key_def)
  show ?thesis
  proof (cases "rewrap_dek cr salt iv vault p q")
    case (Inl e)
    with v ok show ?thesis by (simp add: on_tab_same change_passphrase_def)
  next
    case (Inr found)
    show ?thesis
    proof (cases found)
      case None
      with v ok Inr show ?thesis by (simp add: on_tab_same change_passphrase_def)
    next
      case (Some vault')
      have "wraps cr vault' dek" using rewrap_wraps [OF cr iv v(2)] Inr Some by simp
      moreover have "vault_sound vault'"
        using Inr Some salt wrap_sound [of salt iv cr _ q vault'] iv
        by (cases salt) (auto simp: rewrap_dek_def SALT_BYTES_def split: sum.splits option.splits)
      ultimately have "one_key cr dek ((vw_store w)\<lparr>vs_vault := Some vault'\<rparr>) (vw_tabs w)"
        using made by (simp add: one_key_def)
      moreover have "vt_dek (vw_tabs w t) \<in> {None, Some dek}" using made by (simp add: one_key_def)
      ultimately show ?thesis using v Inr Some
        by (intro on_tab_one_key [where tab = "vw_tabs w t" and dek = dek])
          (simp_all add: change_passphrase_def write_vault_def)
    qed
  qed
qed

text \<open>Secrets read with one key and written under another: each as it was, but for its envelope.\<close>

lemma import_secrets_opens:
  assumes cr: "aead_ok cr" and iv: "\<And>n. length (ivs n) = IV_BYTES"
  shows "import_secrets cr theirs dek ivs n ss = Inr (Inr docs) \<Longrightarrow> \<forall>s \<in> set ss. fs_id s \<noteq> [] \<Longrightarrow>
    \<forall>d \<in> set (map (stored_secret now) docs). opens cr dek d"
proof (induction ss arbitrary: n docs)
  case (Cons s ss)
  from Cons.prems(1) obtain plaintext rest where rest: "import_secrets cr theirs dek ivs (Suc n) ss = Inr (Inr rest)"
    and docs: "docs = s\<lparr>fs_envelope := encrypt_secret cr (ivs n) dek (fs_id s) plaintext\<rparr> # rest"
    by (auto split: sum.splits thrown.splits)
  have "opens cr dek (stored_secret now (s\<lparr>fs_envelope := encrypt_secret cr (ivs n) dek (fs_id s) plaintext\<rparr>))"
    using opens_written [OF cr iv] Cons.prems(2) by (simp add: stored_secret_def)
  with Cons.IH [OF rest] Cons.prems(2) docs show ?case by simp
qed simp

lemma checked_ids:
  assumes "validate_vault_file v = []"
  shows "\<forall>s \<in> set (vf_secrets (vault_file_of v)). fs_id s \<noteq> []"
proof -
  have id: "fs_id (file_secret_of x) \<noteq> []" if "secret_issues n x = []" for n x
    using that by (auto simp: secret_issues_def file_secret_of_def text_at_def is_string_def Let_def
        split: if_splits option.splits json.splits)
  have "\<forall>s \<in> set (map file_secret_of xs). fs_id s \<noteq> []"
    if "concat (map (\<lambda>(index, secret). secret_issues index secret) (enumerate n xs)) = []" for n xs
    using that by (induction xs arbitrary: n) (auto simp: id)
  then show ?thesis using assms
    by (auto simp: validate_vault_file_def vault_file_of_def Let_def split: if_splits option.splits json.splits)
qed

lemma file_import_ok:
  assumes cr: "aead_ok cr" and ok: "vaults_ok cr w" and iv: "\<And>n. length (ivs n) = IV_BYTES"
  shows "vaults_ok cr (on_tab t (import_file cr ivs now text p) w)"
proof (cases "fst (import_file cr ivs now text p (vw_store w, vw_tabs w t))")
  case (Inl e)
  then have "import_file cr ivs now text p (vw_store w, vw_tabs w t) = (Inl e, vw_store w, vw_tabs w t)"
    by (auto simp: import_file_def import_checked_def split: if_splits option.splits list.splits sum.splits)
  with ok show ?thesis by (simp add: on_tab_same)
next
  case (Inr out)
  show ?thesis
  proof (cases out)
    case (Refused message)
    with Inr have "import_file cr ivs now text p (vw_store w, vw_tabs w t) = (Inr (Refused message), vw_store w, vw_tabs w t)"
      by (auto simp: import_file_def import_checked_def split: if_splits option.splits list.splits sum.splits)
    with ok show ?thesis by (simp add: on_tab_same)
  next
    case (Imported k)
    with Inr obtain v local theirs docs where v: "validate_vault_file v = []" and local: "vt_dek (vw_tabs w t) = Some local"
      and docs: "import_secrets cr theirs local ivs 0 (vf_secrets (vault_file_of v)) = Inr (Inr docs)"
      and run: "import_file cr ivs now text p (vw_store w, vw_tabs w t) =
        (Inr (Imported (length docs)), write_secrets now docs (vw_store w), vw_tabs w t)"
      by (auto simp: import_file_def import_checked_def split: if_splits option.splits list.splits sum.splits)
    from ok show ?thesis
    proof (cases rule: vaults_ok_cases)
      case none
      with local show ?thesis by simp
    next
      case (made dek)
      have "local = dek" by (rule one_key_tab [OF made local])
      with import_secrets_opens [OF cr iv docs checked_ids [OF v], of now]
      have "\<forall>d \<in> set (map (stored_secret now) docs). opens cr dek d" by simp
      from one_key_puts [OF made this] show ?thesis
        using run local \<open>local = dek\<close> by (intro on_tab_one_key [where tab = "vw_tabs w t" and dek = dek]) (simp_all add: write_secrets_def)
    qed
  qed
qed

lemma vault_step_ok:
  assumes "aead_ok cr" "vault_step cr w w'" "vaults_ok cr w"
  shows "vaults_ok cr w'"
  using assms(2,3)
proof (induction rule: vault_step.induct)
  case (step_exists w t)
  have "on_tab t vault_exists w = set_tab t ((vw_tabs w t)\<lparr>vt_made := Some (vs_vault (vw_store w) \<noteq> None)\<rparr>) w"
    by (simp add: on_tab_def vault_exists_def set_tab_def)
  with step_exists show ?case by (simp add: tab_ok)
next
  case (step_rename w i n)
  from step_rename show ?case
  proof (cases rule: vaults_ok_cases)
    case none
    with step_rename show ?thesis by (simp add: rename_secret_def store_get_def vaults_ok_def)
  next
    case (made dek)
    show ?thesis
    proof (cases "store_get sec_key (vs_secrets (vw_store w)) i")
      case None
      with step_rename show ?thesis by (simp add: rename_secret_def)
    next
      case (Some d)
      then have "opens cr dek (d\<lparr>sd_name := m\<rparr>)" for m
        using one_key_found [OF made Some] by (auto simp: opens_def sec_key_def)
      from one_key_put [OF made this] Some show ?thesis
        by (intro one_key_ok [where dek = dek]) (simp add: rename_secret_def Let_def)
    qed
  qed
next
  case (step_delete w i)
  from step_delete show ?case
  proof (cases rule: vaults_ok_cases)
    case none
    with step_delete show ?thesis by (simp add: delete_secret_def store_delete_def vaults_ok_def)
  next
    case (made dek)
    have "store_ok sec_key (store_delete sec_key i (vs_secrets (vw_store w)))"
      "\<forall>d \<in> set (store_delete sec_key i (vs_secrets (vw_store w))). opens cr dek d"
      using made by (simp add: one_key_def ob.ok_del) (use made in \<open>simp add: one_key_def store_delete_def\<close>)
    from store_ok_here [OF made this] show ?thesis
      by (intro one_key_ok [where dek = dek]) (simp add: delete_secret_def)
  qed
qed (use assms(1) in \<open>simp_all add: create_ok unlock_ok save_ok replace_ok change_ok file_import_ok tab_ok told_ok lock_vault_def lock_told_def
      ensure_unlocked_def unlock_dialog_closed_def set_idle_minutes_def new_tab_def\<close>)

lemma vaults_reached_ok:
  assumes "aead_ok cr" "(vault_step cr)\<^sup>*\<^sup>* no_vault w"
  shows "vaults_ok cr w"
  using assms(2)
proof (induction rule: rtranclp_induct)
  case base
  show ?case by (simp add: vaults_ok_def no_vault_def new_tab_def)
next
  case (step w w')
  then show ?case by (simp add: vault_step_ok [OF assms(1)])
qed

section \<open>What it gives\<close>

lemma read_opened:
  assumes "one_key cr dek st tabs" "vt_dek tab = Some dek" "d \<in> set (vs_secrets st)"
  shows "read_secret cr (sd_id d) (st, tab) = map_sum id Some (decrypt_secret cr dek (sd_id d) (sd_envelope d))"
proof -
  have "store_get sec_key (vs_secrets st) (sd_id d) = Some d" "sd_id d = sec_key d"
    using assms ob.get_in [of sec_key "vs_secrets st" d] by (auto simp: one_key_def opens_def)
  with assms(2) show ?thesis by (simp add: read_secret_def read_cipher_def)
qed

lemma unlocked_key:
  assumes "vaults_ok cr w" "vt_dek (vw_tabs w t) = Some k"
  shows "one_key cr k (vw_store w) (vw_tabs w)"
  using assms(1)
proof (cases rule: vaults_ok_cases)
  case none
  with assms(2) show ?thesis by simp
next
  case (made dek)
  with one_key_tab [OF made assms(2)] show ?thesis by simp
qed

text \<open>
  C8: whatever the tabs do, in whatever order (make the vault, unlock, lock, save, rename, delete, import, change the
  passphrase, reload), the tabs that are unlocked hold one key, and every secret stored opens with it under its own id.
\<close>

theorem one_vault_key:
  assumes "aead_ok cr" "(vault_step cr)\<^sup>*\<^sup>* no_vault w" "vt_dek (vw_tabs w t) = Some k"
  shows "(\<forall>u. vt_dek (vw_tabs w u) \<in> {None, Some k}) \<and>
    (\<forall>d \<in> set (vs_secrets (vw_store w)). \<exists>p. read_secret cr (sd_id d) (vw_store w, vw_tabs w t) = Inr (Some p))"
proof -
  have one: "one_key cr k (vw_store w) (vw_tabs w)" by (rule unlocked_key [OF vaults_reached_ok [OF assms(1,2)] assms(3)])
  then have "\<exists>p. read_secret cr (sd_id d) (vw_store w, vw_tabs w t) = Inr (Some p)" if "d \<in> set (vs_secrets (vw_store w))" for d
    using read_opened [OF one assms(3) that] that by (auto simp: one_key_def opens_def)
  with one show ?thesis by (auto simp: one_key_def)
qed

text \<open>
  A secret saved in one tab is read back as it was typed in every unlocked tab, and every other secret is
  read as before.
\<close>

theorem saved_secret_read:
  assumes "aead_ok cr" "(vault_step cr)\<^sup>*\<^sup>* no_vault w" "vt_dek (vw_tabs w t) = Some k" "vt_dek (vw_tabs w u) = Some k'"
    and "save_secret cr i now iv n environment plaintext (vw_store w, vw_tabs w t) = (out, st', tab')"
  shows "out = Inr i \<and> read_secret cr i (st', vw_tabs w u) = Inr (Some plaintext) \<and>
    (\<forall>j. j \<noteq> i \<longrightarrow> read_secret cr j (st', vw_tabs w u) = read_secret cr j (vw_store w, vw_tabs w u))"
proof -
  have one: "one_key cr k (vw_store w) (vw_tabs w)" by (rule unlocked_key [OF vaults_reached_ok [OF assms(1,2)] assms(3)])
  then have ok: "store_ok sec_key (vs_secrets (vw_store w))" and k': "k' = k"
    using one_key_tab [OF one assms(4)] by (simp_all add: one_key_def)
  have "ensure_secret \<lparr>sd_id = i, sd_meta = meta_with_id now i, sd_name = n, sd_environment = environment, sd_envelope = e\<rparr> =
      \<lparr>sd_id = i, sd_meta = meta_with_id now i, sd_name = n, sd_environment = environment, sd_envelope = e\<rparr>" for e
    by (simp add: ensure_secret_def sec_key_def meta_with_id_def)
  with assms(3,4,5) show ?thesis
    by (auto simp: save_secret_def write_cipher_def read_secret_def read_cipher_def ob.get_put [OF ok] k'
        decrypt_encrypt [OF assms(1)] sec_key_def meta_with_id_def)
qed

text \<open>
  A change of the passphrase rewrites no secret, and with the new one any tab unlocks and reads every secret as
  it did with the old one.
\<close>

theorem passphrase_changed:
  assumes "aead_ok cr" "(vault_step cr)\<^sup>*\<^sup>* no_vault w" "length iv = IV_BYTES"
    and "change_passphrase cr salt iv p q (vw_store w, vw_tabs w t) = (Inr True, st', tab')"
  shows "vs_secrets st' = vs_secrets (vw_store w) \<and> fst (vault_unlock cr q (st', tab)) = Inr True \<and>
    (\<forall>i. read_secret cr i (snd (vault_unlock cr q (st', tab))) = read_secret cr i (snd (vault_unlock cr p (vw_store w, tab))))"
proof -
  from assms(4) obtain vault rotated where v: "vs_vault (vw_store w) = Some vault"
    and re: "rewrap_dek cr salt iv vault p q = Inr (Some rotated)" and st': "st' = (vw_store w)\<lparr>vs_vault := Some rotated\<rparr>"
    by (auto simp: change_passphrase_def write_vault_def split: option.splits sum.splits)
  from re obtain dek where p: "unwrap_dek cr vault p = Inr (Some dek)" and wrap: "wrap_dek cr salt iv dek q = Inr rotated"
    by (auto simp: rewrap_dek_def split: sum.splits option.splits)
  have q: "unwrap_dek cr rotated q = Inr (Some dek)" by (rule unwrap_wrapped [OF assms(1,3) wrap])
  show ?thesis by (auto simp: vault_unlock_def v p q st' read_secret_def read_cipher_def)
qed


end
