(* ===== verification/VaultMoves.thy ===== *)
theory VaultMoves
  imports VaultTabs
begin

text \<open>
  A vault taken to another browser: the file it is exported as, read there with the passphrase it was written under, gives
  every secret with its id and its text. And the vault's hypotheses met at a concrete cipher.
\<close>

section \<open>Every secret of the file is read\<close>

definition moved_secret :: "'k crypto \<Rightarrow> 'k \<Rightarrow> 'k \<Rightarrow> file_secret \<Rightarrow> file_secret \<Rightarrow> bool" where
  "moved_secret cr theirs local s d \<longleftrightarrow>
     fs_id d = fs_id s \<and>
     decrypt_secret cr local (fs_id s) (fs_envelope d) = decrypt_secret cr theirs (fs_id s) (fs_envelope s)"

lemma import_secrets_moves:
  assumes cr: "aead_ok cr"
  shows "\<forall>s \<in> set ss. \<exists>p. decrypt_secret cr theirs (fs_id s) (fs_envelope s) = Inr p \<Longrightarrow>
    \<exists>docs. import_secrets cr theirs local ivs n ss = Inr (Inr docs) \<and> list_all2 (moved_secret cr theirs local) ss docs"
proof (induction ss arbitrary: n)
  case (Cons s ss)
  then obtain p docs where p: "decrypt_secret cr theirs (fs_id s) (fs_envelope s) = Inr p"
    and docs: "import_secrets cr theirs local ivs (Suc n) ss = Inr (Inr docs)" "list_all2 (moved_secret cr theirs local) ss docs"
    by (metis list.set_intros)
  have "moved_secret cr theirs local s (s\<lparr>fs_envelope := encrypt_secret cr (ivs n) local (fs_id s) p\<rparr>)"
    by (simp add: moved_secret_def decrypt_encrypt [OF cr] p)
  with p docs show ?case by simp
qed simp

lemma listed_as_stored:
  assumes "one_key cr dek st tabs"
  shows "list_all_secrets st = vs_secrets st"
  using assms by (auto simp: list_all_secrets_def ensure_secret_def one_key_def opens_def intro!: map_idI)

lemma bundle_accepted:
  assumes "one_key cr dek st tabs" "vault_bundle st = Some f"
  shows "validate_vault_file (vault_file_json f) = []"
proof -
  have sound: "\<forall>d \<in> set (vs_secrets st). sd_id d \<noteq> [] \<and> envelope_sound (sd_envelope d)"
    using assms(1) unfolding one_key_def opens_def by blast
  obtain vault where "vs_vault st = Some vault" "vault_sound vault" using assms(1) by (auto simp: one_key_def)
  with assms(2) sound show ?thesis
    by (intro vault_file_accepted) (auto simp: vault_bundle_def listed_as_stored [OF assms(1)] file_secret_at_def simp del: One_nat_def)
qed

lemma bundle_is_file: "vault_content (vault_file_json f) = vault_file_json f"
  by (simp add: vault_content_def vault_file_json_def reads)

lemma import_of_export:
  assumes "one_key cr dek st tabs" "vault_bundle st = Some f"
    and "length (json_write ''  '' [] (vault_file_json f)) \<le> MAX_IMPORT_BYTES"
  shows "import_file cr ivs now (json_write ''  '' [] (vault_file_json f)) p s = import_checked cr ivs now f p s"
proof -
  have "parse_json (json_write ''  '' [] (vault_file_json f)) = Some (vault_file_json f)"
    by (rule parse_json_written [OF vault_file_wf]) (simp add: json_space_def)
  with assms(3) show ?thesis
    by (simp add: import_file_def is_oversized_import_def bundle_is_file bundle_accepted [OF assms(1,2)] vault_file_read)
qed

lemma moved_read:
  assumes one: "one_key cr dek st tabs" and moved: "list_all2 (moved_secret cr dek k) (map file_secret_at (vs_secrets st)) docs"
    and ok: "store_ok sec_key (vs_secrets there)" and d: "d \<in> set (vs_secrets st)"
    and tabs: "vt_dek tab = Some k" "vt_dek home = Some dek"
  shows "read_secret cr (sd_id d) (write_secrets now docs there, tab) = read_secret cr (sd_id d) (st, home)"
proof -
  let ?ss = "vs_secrets st"
  have key: "sec_key (stored_secret now s) = fs_id s" for s by (simp add: stored_secret_def sec_key_def meta_with_id_def)
  have same: "d' = d" if "d' \<in> set ?ss" "sd_id d' = sd_id d" for d'
    using that d one ob.get_in [of sec_key ?ss] unfolding one_key_def opens_def by (metis option.inject)
  have moved_at: "\<exists>d' \<in> set ?ss. moved_secret cr dek k (file_secret_at d') e" if "e \<in> set docs" for e
    using moved that by (auto simp: list_all2_conv_all_nth in_set_conv_nth) (metis nth_mem)
  from d obtain i where i: "i < length ?ss" "d = ?ss ! i" by (auto simp: in_set_conv_nth)
  with moved have "fs_id (docs ! i) = sd_id d" "i < length docs"
    by (auto simp: list_all2_conv_all_nth moved_secret_def file_secret_at_def)
  then have "sd_id d \<in> fs_id ` set docs" by (metis image_eqI nth_mem)
  then have "sd_id d \<in> sec_key ` set (map (stored_secret now) docs)" by (auto simp: key image_image)
  from get_puts_these [OF ok this] obtain e where e: "e \<in> set docs"
    and got: "store_get sec_key (vs_secrets (write_secrets now docs there)) (sd_id d) = Some (stored_secret now e)"
    by (auto simp: write_secrets_def)
  then have id: "fs_id e = sd_id d" using ob.get_Some [OF got] key by simp
  from moved_at [OF e] obtain d' where d': "d' \<in> set ?ss" and m: "moved_secret cr dek k (file_secret_at d') e" by blast
  from m have "sd_id d' = fs_id e" by (simp add: moved_secret_def file_secret_at_def)
  then have "d' = d" using id by (intro same d') simp
  with m have "decrypt_secret cr k (sd_id d) (fs_envelope e) = decrypt_secret cr dek (sd_id d) (sd_envelope d)"
    by (simp add: moved_secret_def file_secret_at_def)
  with got tabs read_opened [OF one tabs(2) d] show ?thesis
    by (simp add: read_secret_def read_cipher_def stored_secret_def)
qed

text \<open>
  C9: a vault exported with its passphrase and imported into another browser's open vault has every secret there, each under
  the id it had and with the text it has at home; no tab's key changes.
\<close>

theorem vault_moves:
  assumes "aead_ok cr"
    and "(vault_step cr)\<^sup>*\<^sup>* no_vault w" "export_file cr p (vw_store w) = Inr (Some text)" "length text \<le> MAX_IMPORT_BYTES"
    and "(vault_step cr)\<^sup>*\<^sup>* no_vault w'" "vt_dek (vw_tabs w' u) = Some k"
  shows "\<exists>st. import_file cr ivs now text p (vw_store w', vw_tabs w' u) =
      (Inr (Imported (length (vs_secrets (vw_store w)))), st, vw_tabs w' u) \<and>
    (\<forall>d \<in> set (vs_secrets (vw_store w)).
       read_secret cr (sd_id d) (st, vw_tabs w' u) = read_secret cr (sd_id d) (snd (vault_unlock cr p (vw_store w, vw_tabs w v))))"
proof -
  let ?st = "vw_store w" and ?ss = "vs_secrets (vw_store w)"
  from assms(3) obtain vault dek where v: "vs_vault ?st = Some vault" and un: "unwrap_dek cr vault p = Inr (Some dek)"
    by (auto simp: export_file_def split: option.splits sum.splits)
  have one: "one_key cr dek ?st (vw_tabs w)"
    using vaults_reached_ok [OF assms(1,2)]
  proof (cases rule: vaults_ok_cases)
    case none
    with v show ?thesis by simp
  next
    case (made d)
    then have "wraps cr vault d" using v by (auto simp: one_key_def)
    with unwrap_wraps [OF assms(1) _ un] made show ?thesis by simp
  qed
  let ?f = "\<lparr>vf_vault = vault, vf_secrets = map file_secret_at ?ss\<rparr>"
  have f: "vault_bundle ?st = Some ?f" using v listed_as_stored [OF one] by (simp add: vault_bundle_def)
  have written: "text = json_write ''  '' [] (vault_file_json ?f)" using assms(3) v un f by (simp add: export_file_def)
  have "\<forall>s \<in> set (map file_secret_at ?ss). \<exists>p. decrypt_secret cr dek (fs_id s) (fs_envelope s) = Inr p"
    using one by (auto simp: one_key_def opens_def file_secret_at_def)
  from import_secrets_moves [OF assms(1) this] obtain docs
    where docs: "import_secrets cr dek k ivs 0 (map file_secret_at ?ss) = Inr (Inr docs)"
      and moved: "list_all2 (moved_secret cr dek k) (map file_secret_at ?ss) docs" by blast
  let ?new = "write_secrets now docs (vw_store w')"
  have run: "import_file cr ivs now text p (vw_store w', vw_tabs w' u) = (Inr (Imported (length ?ss)), ?new, vw_tabs w' u)"
    using import_of_export [OF one f] assms(4,6) written un docs list_all2_lengthD [OF moved] by (simp add: import_checked_def)
  have home: "snd (vault_unlock cr p (?st, vw_tabs w v)) = (?st, hold_key dek (vw_tabs w v))"
    by (simp add: vault_unlock_def v un)
  have "store_ok sec_key (vs_secrets (vw_store w'))"
    using unlocked_key [OF vaults_reached_ok [OF assms(1,5)] assms(6)] by (simp add: one_key_def)
  note read = moved_read [OF one moved this]
  have "read_secret cr (sd_id d) (?new, vw_tabs w' u) = read_secret cr (sd_id d) (?st, hold_key dek (vw_tabs w v))"
    if "d \<in> set ?ss" for d by (rule read [OF that assms(6)]) simp
  with run home show ?thesis by simp
qed

section \<open>What the check of a file lets through\<close>

text \<open>
  The check of a vault file asks for the characters of base64url, not for a length \<open>atob\<close> takes: a file whose wrapped
  key is one character passes it, and its import throws instead of saying what is wrong.
\<close>

definition short_key_file :: vault_file where
  "short_key_file =
     \<lparr>vf_vault = \<lparr>vr_kdf = \<lparr>kdf_iterations = KDF_ITERATIONS, kdf_salt = ''AA''\<rparr>, vr_wrapped_dek = ''A''\<rparr>, vf_secrets = []\<rparr>"

lemma short_key_file_throws:
  "validate_vault_file (vault_file_json short_key_file) = [] \<and>
   fst (import_checked cr ivs now short_key_file p (st, tab\<lparr>vt_dek := Some k\<rparr>)) = Inl (Dom ''InvalidCharacterError'')"
proof -
  have "base64url_text ''A''" "base64url_text ''AA''" "from_base64url ''A'' = None" by code_simp+
  then have "validate_vault_file (vault_file_json short_key_file) = []"
    by (intro vault_file_accepted) (simp_all add: short_key_file_def vault_sound_def KDF_ITERATIONS_def MAX_KDF_ITERATIONS_def)
  moreover have "unwrap_dek cr (vf_vault short_key_file) p = Inl (Dom ''InvalidCharacterError'')"
    using \<open>from_base64url ''A'' = None\<close> by (simp add: short_key_file_def unwrap_dek_def bytes_of_def)
  ultimately show ?thesis by (simp add: import_checked_def)
qed

section \<open>A cipher and two vaults\<close>

definition numbered :: "nat \<Rightarrow> byte list \<Rightarrow> byte list" where
  "numbered k bs = replicate k 1 @ 0 # bs"

definition unnumbered :: "nat \<Rightarrow> byte list \<Rightarrow> string + byte list" where
  "unnumbered k bs = (if takeWhile (\<lambda>b. b = 1) bs = replicate k 1 then Inr (tl (dropWhile (\<lambda>b. b = 1) bs)) else Inl ''OperationError'')"

lemma unnumbered: "unnumbered k' (numbered k bs) = (if k' = k then Inr bs else Inl ''OperationError'')"
proof -
  have "takeWhile (\<lambda>b. b = 1) (numbered k bs) = replicate k 1" "dropWhile (\<lambda>b. b = 1) (numbered k bs) = 0 # bs"
    by (induction k) (simp_all add: numbered_def)
  then show ?thesis by (auto simp: unnumbered_def replicate_eq_replicate)
qed

definition plain_cipher :: "nat crypto" where
  "plain_cipher =
     \<lparr>cr_subtle = True, cr_derive = (\<lambda>p _ _. length p), cr_wrap = (\<lambda>kek _ dek. numbered kek (replicate dek 1)),
      cr_unwrap = (\<lambda>kek _ ct. map_sum id length (unnumbered kek ct)), cr_encrypt = (\<lambda>k _ _ bs. numbered k bs),
      cr_decrypt = (\<lambda>k _ _ ct. unnumbered k ct),
      cr_text = (\<lambda>bs. case utf8_decode bs of None \<Rightarrow> [] | Some s \<Rightarrow> s)\<rparr>"

lemma plain_cipher_ok: "aead_ok plain_cipher"
proof -
  have "numbered k bs \<noteq> []" for k bs by (simp add: numbered_def)
  then show ?thesis by (simp add: aead_ok_def plain_cipher_def unnumbered)
qed

definition zeros :: "nat \<Rightarrow> byte list" where
  "zeros n = replicate n 0"

definition made_vault :: "nat \<Rightarrow> string \<Rightarrow> nat vaults" where
  "made_vault key passphrase = on_tab 0 (vault_create plain_cipher key (zeros 16) (zeros 12) passphrase) no_vault"

definition first_vault :: "nat vaults" where
  "first_vault =
     on_tab 1 (vault_unlock plain_cipher ''passphrase'')
       (on_tab 0 (save_secret plain_cipher ''s1'' 0 (zeros 12) ''token'' None ''abc'') (made_vault 7 ''passphrase''))"

lemma zeros_lengths: "length (zeros 16) = SALT_BYTES" "length (zeros 12) = IV_BYTES"
  by (simp_all add: zeros_def SALT_BYTES_def IV_BYTES_def)

lemma made_reached: "(vault_step plain_cipher)\<^sup>*\<^sup>* no_vault (made_vault key p)"
  unfolding made_vault_def by (intro r_into_rtranclp step_create zeros_lengths)

lemma first_reached: "(vault_step plain_cipher)\<^sup>*\<^sup>* no_vault first_vault"
proof -
  let ?w = "on_tab 0 (save_secret plain_cipher ''s1'' 0 (zeros 12) ''token'' None ''abc'') (made_vault 7 ''passphrase'')"
  have "vault_step plain_cipher (made_vault 7 ''passphrase'') ?w" by (intro step_save zeros_lengths) simp
  moreover have "vault_step plain_cipher ?w first_vault" unfolding first_vault_def by (rule step_unlock)
  ultimately show ?thesis using made_reached [of 7 "''passphrase''"] by (meson rtranclp.rtrancl_into_rtrancl)
qed

lemma made_one:
  "\<exists>vault. vs_vault (vw_store (made_vault key p)) = Some vault \<and> unwrap_dek plain_cipher vault p = Inr (Some key) \<and>
     vs_secrets (vw_store (made_vault key p)) = [] \<and> vt_dek (vw_tabs (made_vault key p) 0) = Some key"
proof -
  have "cr_subtle plain_cipher" by (simp add: plain_cipher_def)
  from create_works [OF plain_cipher_ok this zeros_lengths(2)] obtain vault
    where "create_vault plain_cipher key (zeros 16) (zeros 12) p = Inr (vault, key)" "unwrap_dek plain_cipher vault p = Inr (Some key)"
    by blast
  then show ?thesis by (simp add: made_vault_def on_tab_def vault_create_def no_vault_def write_vault_def)
qed

lemma first_one:
  "\<exists>vault. vs_vault (vw_store first_vault) = Some vault \<and> unwrap_dek plain_cipher vault ''passphrase'' = Inr (Some 7) \<and>
     vt_dek (vw_tabs first_vault 0) = Some 7 \<and> vt_dek (vw_tabs first_vault 1) = Some 7 \<and>
     map sd_id (vs_secrets (vw_store first_vault)) = [''s1'']"
  using made_one [of 7 "''passphrase''"]
  by (auto simp: first_vault_def on_tab_def save_secret_def write_cipher_def ensure_secret_def vault_unlock_def)

lemma held: "vt_dek (vw_tabs first_vault 0) = Some 7" "vt_dek (vw_tabs first_vault 1) = Some 7"
  using first_one by auto

theorem one_vault_key_witness:
  "\<exists>p. read_secret plain_cipher ''s1'' (vw_store first_vault, vw_tabs first_vault 1) = Inr (Some p)"
proof -
  obtain d where "d \<in> set (vs_secrets (vw_store first_vault))" "sd_id d = ''s1''" using first_one by auto
  with one_vault_key [OF plain_cipher_ok first_reached held(2)] show ?thesis by metis
qed

theorem saved_secret_read_witness:
  "read_secret plain_cipher ''s2''
     (fst (snd (save_secret plain_cipher ''s2'' 0 (zeros 12) ''key'' None ''xyz'' (vw_store first_vault, vw_tabs first_vault 1))),
      vw_tabs first_vault 0) = Inr (Some ''xyz'')"
proof (cases "save_secret plain_cipher ''s2'' 0 (zeros 12) ''key'' None ''xyz'' (vw_store first_vault, vw_tabs first_vault 1)")
  case (fields out st tab)
  from saved_secret_read [OF plain_cipher_ok first_reached held(2,1) fields] fields show ?thesis by simp
qed


theorem passphrase_changed_witness:
  "\<exists>st tab. change_passphrase plain_cipher (zeros 16) (zeros 12) ''passphrase'' ''new words'' (vw_store first_vault, vw_tabs first_vault 0) =
     (Inr True, st, tab) \<and> fst (vault_unlock plain_cipher ''new words'' (st, new_tab None)) = Inr True"
proof -
  have subtle: "cr_subtle plain_cipher" by (simp add: plain_cipher_def)
  then obtain rotated where "wrap_dek plain_cipher (zeros 16) (zeros 12) 7 ''new words'' = Inr rotated"
    by (simp add: wrap_dek_def derive_kek_def Let_def)
  with first_one obtain st where run: "change_passphrase plain_cipher (zeros 16) (zeros 12) ''passphrase'' ''new words''
      (vw_store first_vault, vw_tabs first_vault 0) = (Inr True, st, vw_tabs first_vault 0)"
    by (auto simp: change_passphrase_def rewrap_dek_def write_vault_def)
  with passphrase_changed [OF plain_cipher_ok first_reached zeros_lengths(2) run] show ?thesis by blast
qed

lemma first_length: "length (vs_secrets (vw_store first_vault)) = 1"
proof -
  have "length (map sd_id (vs_secrets (vw_store first_vault))) = 1" using first_one by auto
  then show ?thesis by simp
qed

lemma length_show_nat: "length (show_nat n) \<le> Suc n"
  by (induction n rule: show_nat.induct) (subst show_nat.simps, auto)

lemma file_length:
  assumes "fs_environment s = None"
  shows "length (json_write ''  '' [] (vault_file_json \<lparr>vf_vault = v, vf_secrets = [s]\<rparr>)) \<le>
    2000 + kdf_iterations (vr_kdf v) + 6 * (length (kdf_salt (vr_kdf v)) + length (vr_wrapped_dek v) + length (fs_id s) +
      length (fs_name s) + length (se_iv (fs_envelope s)) + length (se_ct (fs_envelope s)))"
proof -
  note quoted = length_quoted [of "''$id''"] length_quoted [of VAULT_FILE_FORMAT]
    length_quoted [of "''vault''"] length_quoted [of "''kdf''"] length_quoted [of "''alg''"] length_quoted [of "''PBKDF2-SHA256''"]
    length_quoted [of "''iterations''"] length_quoted [of "''salt''"] length_quoted [of "''wrappedDek''"]
    length_quoted [of "''secrets''"] length_quoted [of "''id''"] length_quoted [of "''name''"] length_quoted [of "''envelope''"]
    length_quoted [of "''iv''"] length_quoted [of "''ct''"] length_quoted [of "kdf_salt (vr_kdf v)"] length_quoted [of "vr_wrapped_dek v"]
    length_quoted [of "fs_id s"] length_quoted [of "fs_name s"] length_quoted [of "se_iv (fs_envelope s)"] length_quoted [of "se_ct (fs_envelope s)"]
  have "length (show_num (num_of_int (int n))) \<le> Suc n" for n
    using length_show_nat [of n] by (simp add: show_num_def num_of_int_def)
  from quoted this [of "kdf_iterations (vr_kdf v)"] show ?thesis
    by (simp add: vault_file_json_def vault_record_json_def file_secret_json_def envelope_json_def assms line_break_def VAULT_FILE_FORMAT_def)
qed

lemma first_bundle:
  "vault_bundle (vw_store first_vault) = Some
     \<lparr>vf_vault = \<lparr>vr_kdf = \<lparr>kdf_iterations = KDF_ITERATIONS, kdf_salt = base64url (zeros 16)\<rparr>,
          vr_wrapped_dek = base64url (zeros 12 @ numbered (length (utf8 ''passphrase'')) (replicate 7 1))\<rparr>,
      vf_secrets = [\<lparr>fs_id = ''s1'', fs_name = ''token'', fs_environment = None,
          fs_envelope = encrypt_secret plain_cipher (zeros 12) 7 ''s1'' ''abc''\<rparr>]\<rparr>"
proof -
  have sub: "cr_subtle plain_cipher" "cr_derive plain_cipher p s n = length p" "cr_wrap plain_cipher k i d = numbered k (replicate d 1)" for p s n k i d
    by (simp_all add: plain_cipher_def)
  have "wrap_dek plain_cipher (zeros 16) (zeros 12) 7 ''passphrase'' = Inr
      \<lparr>vr_kdf = \<lparr>kdf_iterations = KDF_ITERATIONS, kdf_salt = base64url (zeros 16)\<rparr>,
       vr_wrapped_dek = base64url (zeros 12 @ numbered (length (utf8 ''passphrase'')) (replicate 7 1))\<rparr>"
    by (simp add: wrap_dek_def derive_kek_def Let_def sub)
  moreover from create_works [OF plain_cipher_ok sub(1) zeros_lengths(2), of 7 "zeros 16" "''passphrase''"] this
  have "create_vault plain_cipher 7 (zeros 16) (zeros 12) ''passphrase'' =
      map_sum id (\<lambda>v. (v, 7)) (wrap_dek plain_cipher (zeros 16) (zeros 12) 7 ''passphrase'')"
    by (auto simp: create_vault_def sub split: sum.splits option.splits)
  ultimately show ?thesis
    by (simp add: first_vault_def made_vault_def on_tab_def vault_create_def no_vault_def write_vault_def save_secret_def write_cipher_def
        ensure_secret_def vault_unlock_def vault_bundle_def list_all_secrets_def file_secret_at_def split: sum.splits option.splits)
qed

lemma first_export_short:
  "\<exists>exported. export_file plain_cipher ''passphrase'' (vw_store first_vault) = Inr (Some exported) \<and> length exported \<le> MAX_IMPORT_BYTES"
proof -
  from first_one obtain vault where v: "vs_vault (vw_store first_vault) = Some vault"
    "unwrap_dek plain_cipher vault ''passphrase'' = Inr (Some 7)" by blast
  have utf8: "length (utf8 ''passphrase'') = 10" "length (utf8 ''abc'') = 3" by code_simp+
  have bare: "length (base64url bs) = (length bs * 4 + 2) div 3" for bs by (simp add: base64url_def)
  have "length (json_write ''  '' [] (vault_file_json (the (vault_bundle (vw_store first_vault))))) \<le> 2000 + 600000 + 6 * 1000"
    unfolding first_bundle option.sel
    by (rule order.trans [OF file_length])
      (simp_all add: bare zeros_def numbered_def utf8 encrypt_secret_def plain_cipher_def KDF_ITERATIONS_def)
  with v first_bundle show ?thesis by (simp add: export_file_def MAX_IMPORT_BYTES_def)
qed

theorem vault_moves_witness:
  "\<exists>exported st. export_file plain_cipher ''passphrase'' (vw_store first_vault) = Inr (Some exported) \<and>
     import_file plain_cipher (\<lambda>_. zeros 12) 0 exported ''passphrase'' (vw_store (made_vault 3 ''another one''), vw_tabs (made_vault 3 ''another one'') 0) =
       (Inr (Imported 1), st, vw_tabs (made_vault 3 ''another one'') 0)"
proof -
  from first_export_short obtain exported where e: "export_file plain_cipher ''passphrase'' (vw_store first_vault) = Inr (Some exported)"
    "length exported \<le> MAX_IMPORT_BYTES" by blast
  from made_one [of 3 "''another one''"] have k: "vt_dek (vw_tabs (made_vault 3 ''another one'') 0) = Some 3" by blast
  from vault_moves [OF plain_cipher_ok first_reached e made_reached k, of "\<lambda>_. zeros 12" 0 0] e(1) first_length
  show ?thesis by auto
qed

end
