(* ===== verification/ShareLink.thy ===== *)
theory ShareLink
  imports VaultCrypto Model
begin

text \<open>
  A collection as a link (\<open>packages/core/src/share/link.ts\<close>): the file compressed and encrypted after the \<open>#\<close> of the app's
  address. Compression, AES-GCM and the decoding of text are parameters (\<open>share_crypto\<close>), with what their documentation
  promises in \<open>share_ok\<close>; the random key and IV are arguments.
\<close>

section \<open>The browser's part\<close>

text \<open>
  \<open>sc_inflate\<close> gives the chunks of the decompressed stream, or nothing when the stream fails; \<open>sc_text\<close> is a
  \<open>TextDecoder\<close> that refuses what is no UTF-8.
\<close>

record 'k share_crypto =
  sc_key :: "byte list \<Rightarrow> 'k"
  sc_encrypt :: "'k \<Rightarrow> byte list \<Rightarrow> byte list \<Rightarrow> byte list"
  sc_decrypt :: "'k \<Rightarrow> byte list \<Rightarrow> byte list \<Rightarrow> byte list option"
  sc_deflate :: "byte list \<Rightarrow> byte list"
  sc_inflate :: "byte list \<Rightarrow> byte list list option"
  sc_text :: "byte list \<Rightarrow> string option"

definition TAG_BYTES :: nat where
  "TAG_BYTES = 16"

definition share_ok :: "'k share_crypto \<Rightarrow> bool" where
  "share_ok sc \<longleftrightarrow>
     (\<forall>key iv plain. sc_decrypt sc key iv (sc_encrypt sc key iv plain) = Some plain \<and>
        length (sc_encrypt sc key iv plain) = length plain + TAG_BYTES) \<and>
     (\<forall>bytes. map_option concat (sc_inflate sc (sc_deflate sc bytes)) = Some bytes \<and> sc_deflate sc bytes \<noteq> []) \<and>
     (\<forall>text. sc_text sc (utf8 text) = Some text)"

section \<open>The link\<close>

definition PREFIX :: string where
  "PREFIX = ''#share=''"

definition KEY_PARAM :: string where
  "KEY_PARAM = ''key=''"

definition SHARE_CODE_BYTES :: nat where
  "SHARE_CODE_BYTES = 32"

definition SHARE_LINK_MAX_BYTES :: nat where
  "SHARE_LINK_MAX_BYTES = 12 * 1024"

definition LINK_WRONG_CODE :: string where
  "LINK_WRONG_CODE = ''This code does not open the link. Check it with the person who sent it.''"

definition LINK_DAMAGED :: string where
  "LINK_DAMAGED = ''This link is incomplete: it ends before the collection does. Ask for the whole link, or for a file.''"

definition LINK_NOT_COLLECTION :: string where
  "LINK_NOT_COLLECTION = ''This link does not hold a Wayfarer collection.''"

record share_link =
  sl_data :: string
  sl_code :: string

record share_content =
  sh_sealed :: "byte list"
  sh_code :: "string option"

definition share_fragment :: "share_link \<Rightarrow> bool \<Rightarrow> string" where
  "share_fragment link with_code =
     PREFIX @ sl_data link @ (if with_code then ''&'' @ KEY_PARAM @ sl_code link else [])"

definition is_share_fragment :: "string \<Rightarrow> bool" where
  "is_share_fragment hash \<longleftrightarrow> starts_with hash PREFIX"

definition typed_code :: "string \<Rightarrow> string" where
  "typed_code s = filter (\<lambda>c. \<not> js_space c) s"

text \<open>Four characters and a space, wherever another follows; \<open>.\<close> is any character but a line's end.\<close>

definition dot :: "char \<Rightarrow> bool" where
  "dot c \<longleftrightarrow> c \<noteq> CHR 0x0A \<and> c \<noteq> CHR 0x0D"

fun grouped_code :: "string \<Rightarrow> string" where
  "grouped_code (a # b # c # d # e # s) =
     (if list_all dot [a, b, c, d, e] then a # b # c # d # CHR 0x20 # grouped_code (e # s)
      else a # grouped_code (b # c # d # e # s))"
| "grouped_code s = s"

definition encode_share_link :: "'k share_crypto \<Rightarrow> byte list \<Rightarrow> byte list \<Rightarrow> string \<Rightarrow> share_link" where
  "encode_share_link sc raw iv file =
     \<lparr>sl_data = base64url (iv @ sc_encrypt sc (sc_key sc raw) iv (sc_deflate sc (utf8 file))), sl_code = base64url raw\<rparr>"

section \<open>Reading a fragment\<close>

definition base64url_only :: "string \<Rightarrow> bool" where
  "base64url_only s \<longleftrightarrow> s \<noteq> [] \<and> list_all base64url_char s"

definition decoded :: "string \<Rightarrow> byte list option" where
  "decoded s = (if length s mod 4 = 1 then None else from_base64url s)"

definition code_bytes :: "string \<Rightarrow> byte list option" where
  "code_bytes code =
     (if \<not> base64url_only code then None
      else case decoded code of
             None \<Rightarrow> None
           | Some bs \<Rightarrow> if length bs = SHARE_CODE_BYTES \<and> base64url bs = code then Some bs else None)"

definition parse_share_fragment :: "string \<Rightarrow> string + share_content" where
  "parse_share_fragment hash =
     (if \<not> is_share_fragment hash \<or> SHARE_LINK_MAX_BYTES < length hash then Inl LINK_NOT_COLLECTION
      else
        (let parts = split_on (CHR ''&'') (drop (length PREFIX) hash); data = hd parts; rest = tl parts
         in if length rest > 1 \<or> (\<exists>key \<in> set (take 1 rest). \<not> starts_with key KEY_PARAM) then Inl LINK_NOT_COLLECTION
            else if \<not> base64url_only data then Inl LINK_DAMAGED
            else case decoded data of
                   None \<Rightarrow> Inl LINK_DAMAGED
                 | Some sealed \<Rightarrow>
                     if length sealed < IV_BYTES + TAG_BYTES + 1 then Inl LINK_DAMAGED
                     else case rest of
                            [] \<Rightarrow> Inr \<lparr>sh_sealed = sealed, sh_code = None\<rparr>
                          | key # _ \<Rightarrow>
                              (let code = drop (length KEY_PARAM) key
                               in if code_bytes code = None then Inl LINK_DAMAGED
                                  else Inr \<lparr>sh_sealed = sealed, sh_code = Some code\<rparr>)))"

section \<open>Opening a link\<close>

text \<open>Bytes through a decompression stream, stopped once what came out passes the limit.\<close>

fun through_chunks :: "nat \<Rightarrow> nat \<Rightarrow> byte list list \<Rightarrow> byte list option" where
  "through_chunks limit n [] = Some []"
| "through_chunks limit n (chunk # chunks) =
     (if limit < n + length chunk then None
      else map_option ((@) chunk) (through_chunks limit (n + length chunk) chunks))"

definition is_collection_text :: "string \<Rightarrow> bool" where
  "is_collection_text file \<longleftrightarrow>
     (case parse_json file of None \<Rightarrow> False | Some v \<Rightarrow> member v ''$id'' = Some (JStr COLLECTION_FORMAT))"

definition open_share_link :: "'k share_crypto \<Rightarrow> share_content \<Rightarrow> string \<Rightarrow> string + string" where
  "open_share_link sc content typed =
     (let code = (case sh_code content of Some c \<Rightarrow> c | None \<Rightarrow> typed_code typed);
          failed = (case sh_code content of Some c \<Rightarrow> if c \<noteq> [] then LINK_DAMAGED else LINK_WRONG_CODE | None \<Rightarrow> LINK_WRONG_CODE)
      in case code_bytes code of
           None \<Rightarrow> Inl failed
         | Some raw \<Rightarrow>
             (case sc_decrypt sc (sc_key sc raw) (take IV_BYTES (sh_sealed content)) (drop IV_BYTES (sh_sealed content)) of
                None \<Rightarrow> Inl failed
              | Some compressed \<Rightarrow>
                  (case Option.bind (Option.bind (sc_inflate sc compressed) (through_chunks MAX_IMPORT_BYTES 0)) (sc_text sc) of
                     None \<Rightarrow> Inl LINK_NOT_COLLECTION
                   | Some file \<Rightarrow> if is_collection_text file then Inr file else Inl LINK_NOT_COLLECTION)))"

section \<open>A link opens what it was made of\<close>

lemma through_chunks_all: "n + length (concat chunks) \<le> limit \<Longrightarrow> through_chunks limit n chunks = Some (concat chunks)"
  by (induction chunks arbitrary: n) simp_all

lemma through_chunks_bound: "through_chunks limit n chunks = Some bs \<Longrightarrow> n \<le> limit \<Longrightarrow> n + length bs \<le> limit"
  by (induction chunks arbitrary: n bs) (auto split: if_splits, fastforce)

lemma base64url_only_written: "bs \<noteq> [] \<Longrightarrow> base64url_only (base64url bs)"
  using base64url_written [of bs] by (simp add: base64url_text_def is_base64url_def base64url_only_def)

lemma length_base64url: "length (base64url bs) = (length bs * 4 + 2) div 3"
  by (simp add: base64url_def)

lemma not_one_over: "length (base64url bs) mod 4 \<noteq> 1"
  using bare_not_one [of bs] by (simp add: base64url_def)

lemma decoded_written: "decoded (base64url bs) = Some bs"
  using not_one_over [of bs] by (simp add: decoded_def)

lemma code_bytes_written: "length raw = SHARE_CODE_BYTES \<Longrightarrow> code_bytes (base64url raw) = Some raw"
  by (cases raw) (simp_all add: code_bytes_def base64url_only_written decoded_written SHARE_CODE_BYTES_def)

lemma written_plain:
  assumes "c \<in> set (base64url bs)"
  shows "c \<noteq> CHR ''&'' \<and> \<not> js_space c \<and> dot c"
proof -
  have "base64url_char c" by (rule base64url_chars [OF assms])
  then show ?thesis
    by (auto simp: base64url_char_def is_word_def is_alnum_def is_digit_def is_upper_def is_lower_def js_space_def dot_def char_nat_def)
qed

lemma typed_grouped: "list_all (\<lambda>c. \<not> js_space c) s \<Longrightarrow> typed_code (grouped_code s) = s"
  by (induction s rule: grouped_code.induct) (auto simp: typed_code_def js_space_def)

lemma split_on_free: "c \<notin> set s \<Longrightarrow> split_on c s = [s]"
  by (induction s) auto

lemma split_on_at: "c \<notin> set s \<Longrightarrow> split_on c (s @ c # t) = s # split_on c t"
  by (induction s) auto

lemma share_okD:
  assumes "share_ok sc"
  shows "sc_decrypt sc key iv (sc_encrypt sc key iv plain) = Some plain"
    and "length (sc_encrypt sc key iv plain) = length plain + TAG_BYTES"
    and "map_option concat (sc_inflate sc (sc_deflate sc bytes)) = Some bytes"
    and "sc_deflate sc bytes \<noteq> []" and "sc_text sc (utf8 file) = Some file"
  using assms unfolding share_ok_def by blast+

lemma opened:
  assumes sc: "share_ok sc" and raw: "length raw = SHARE_CODE_BYTES" and iv: "length iv = IV_BYTES"
    and content: "is_collection_text file" "length (utf8 file) \<le> MAX_IMPORT_BYTES"
    and code: "(case code of Some c \<Rightarrow> c | None \<Rightarrow> typed_code typed) = base64url raw"
  shows "open_share_link sc \<lparr>sh_sealed = iv @ sc_encrypt sc (sc_key sc raw) iv (sc_deflate sc (utf8 file)), sh_code = code\<rparr> typed = Inr file"
proof -
  obtain chunks where "sc_inflate sc (sc_deflate sc (utf8 file)) = Some chunks" "concat chunks = utf8 file"
    using share_okD(3) [OF sc, of "utf8 file"] by auto
  moreover from this have "through_chunks MAX_IMPORT_BYTES 0 chunks = Some (utf8 file)"
    using content(2) through_chunks_all [of 0 chunks MAX_IMPORT_BYTES] by simp
  ultimately show ?thesis
    using code iv content(1) by (simp add: open_share_link_def Let_def code_bytes_written [OF raw] share_okD [OF sc])
qed

lemma parsed:
  assumes sealed: "IV_BYTES + TAG_BYTES < length sealed" and raw: "length raw = SHARE_CODE_BYTES"
    and short: "length (share_fragment \<lparr>sl_data = base64url sealed, sl_code = base64url raw\<rparr> with_code) \<le> SHARE_LINK_MAX_BYTES"
  shows "parse_share_fragment (share_fragment \<lparr>sl_data = base64url sealed, sl_code = base64url raw\<rparr> with_code) =
    Inr \<lparr>sh_sealed = sealed, sh_code = (if with_code then Some (base64url raw) else None)\<rparr>"
proof -
  have free: "CHR ''&'' \<notin> set (base64url bs)" for bs using written_plain by blast
  then have key: "CHR ''&'' \<notin> set (KEY_PARAM @ base64url raw)" by (simp add: KEY_PARAM_def)
  have only: "base64url_only (base64url sealed)" using sealed by (intro base64url_only_written) auto
  have code: "code_bytes (base64url raw) = Some raw" by (rule code_bytes_written [OF raw])
  have parts: "split_on (CHR ''&'') (base64url sealed) = [base64url sealed]"
    "split_on (CHR ''&'') (base64url sealed @ CHR ''&'' # KEY_PARAM @ base64url raw) = [base64url sealed, KEY_PARAM @ base64url raw]"
    using split_on_at [OF free [of sealed], of "KEY_PARAM @ base64url raw"] split_on_free [OF free [of sealed]] split_on_free [OF key] by simp_all
  have start: "is_share_fragment (share_fragment l b)" "drop (length PREFIX) (share_fragment l b) =
      sl_data l @ (if b then CHR ''&'' # KEY_PARAM @ sl_code l else [])" for l b
    by (simp_all add: is_share_fragment_def share_fragment_def starts_with_def)
  show ?thesis
    using short sealed
    by (cases with_code) (simp_all add: parse_share_fragment_def start parts only decoded_written code Let_def starts_with_def)
qed

text \<open>
  C27: a collection's link gives back the file it was made of, whether the code is in the link or typed the way it is
  shown, in groups of four.
\<close>

theorem share_link_round_trip:
  assumes "share_ok sc" "length raw = SHARE_CODE_BYTES" "length iv = IV_BYTES"
    and "is_collection_text file" "length (utf8 file) \<le> MAX_IMPORT_BYTES"
    and "length (share_fragment (encode_share_link sc raw iv file) with_code) \<le> SHARE_LINK_MAX_BYTES"
  shows "(case parse_share_fragment (share_fragment (encode_share_link sc raw iv file) with_code) of
      Inl e \<Rightarrow> Inl e
    | Inr content \<Rightarrow> open_share_link sc content (grouped_code (sl_code (encode_share_link sc raw iv file)))) = Inr file"
proof -
  let ?sealed = "iv @ sc_encrypt sc (sc_key sc raw) iv (sc_deflate sc (utf8 file))"
  have "IV_BYTES + TAG_BYTES < length ?sealed"
    using assms(3) share_okD(2,4) [OF assms(1)] by simp
  from parsed [OF this assms(2)] assms(6)
  have "parse_share_fragment (share_fragment (encode_share_link sc raw iv file) with_code) =
      Inr \<lparr>sh_sealed = ?sealed, sh_code = (if with_code then Some (base64url raw) else None)\<rparr>"
    by (simp add: encode_share_link_def)
  moreover have "typed_code (grouped_code (base64url raw)) = base64url raw"
    using written_plain by (intro typed_grouped) (auto simp: list_all_iff)
  ultimately show ?thesis
    by (simp add: opened [OF assms(1-5)]) (simp add: encode_share_link_def opened [OF assms(1-5)])
qed

text \<open>
  Whatever a link holds, what is opened of it is a Wayfarer collection's file and no longer, decompressed, than
  a file to import may be; anything else is refused.
\<close>

theorem opened_is_collection:
  assumes "open_share_link sc content typed = Inr file"
  shows "is_collection_text file \<and> (\<exists>bytes. sc_text sc bytes = Some file \<and> length bytes \<le> MAX_IMPORT_BYTES)"
proof -
  from assms obtain compressed chunks bytes where "sc_inflate sc compressed = Some chunks"
    and bytes: "through_chunks MAX_IMPORT_BYTES 0 chunks = Some bytes" "sc_text sc bytes = Some file" and "is_collection_text file"
    by (auto simp: open_share_link_def Let_def bind_eq_Some_conv split: option.splits if_splits)
  with through_chunks_bound [OF bytes(1)] show ?thesis by auto
qed

section \<open>A link made and opened\<close>

definition plain_share :: "byte list share_crypto" where
  "plain_share =
     \<lparr>sc_key = id, sc_encrypt = (\<lambda>_ _ plain. plain @ replicate TAG_BYTES 0), sc_decrypt = (\<lambda>_ _ ct. Some (take (length ct - TAG_BYTES) ct)),
      sc_deflate = (\<lambda>bs. 0 # bs), sc_inflate = (\<lambda>bs. Some [tl bs]), sc_text = utf8_decode\<rparr>"

lemma plain_share_ok: "share_ok plain_share"
  by (simp add: share_ok_def plain_share_def)

definition small_file :: string where
  "small_file = stringify (JObj [(''$id'', JStr COLLECTION_FORMAT)])"

lemma small_is_collection: "is_collection_text small_file"
proof -
  have "parse_json small_file = Some (JObj [(''$id'', JStr COLLECTION_FORMAT)])"
    unfolding small_file_def by (rule parse_stringify) simp
  then show ?thesis by (simp add: is_collection_text_def member_def om_get_def)
qed

lemma small_length: "length (utf8 small_file) \<le> 400"
proof -
  have "length (utf8 s) \<le> 2 * length s" for s by (induction s) (auto simp: utf8_Cons utf8_char_def Let_def)
  from this [of small_file] have "length (utf8 small_file) \<le> 2 * length small_file" .
  moreover have "length small_file \<le> 200"
    using length_quoted [of "''$id''"] length_quoted [of COLLECTION_FORMAT]
    by (simp add: small_file_def stringify_def line_break_def COLLECTION_FORMAT_def)
  ultimately show ?thesis by linarith
qed

theorem share_link_round_trip_witness:
  "(case parse_share_fragment (share_fragment (encode_share_link plain_share (replicate 32 7) (replicate 12 9) small_file) False) of
      Inl e \<Rightarrow> Inl e
    | Inr content \<Rightarrow> open_share_link plain_share content
        (grouped_code (sl_code (encode_share_link plain_share (replicate 32 7) (replicate 12 9) small_file)))) = Inr small_file"
proof (rule share_link_round_trip [OF plain_share_ok _ _ small_is_collection])
  show "length (utf8 small_file) \<le> MAX_IMPORT_BYTES" using small_length by (simp add: MAX_IMPORT_BYTES_def)
  show "length (share_fragment (encode_share_link plain_share (replicate 32 7) (replicate 12 9) small_file) False) \<le> SHARE_LINK_MAX_BYTES"
    using small_length
    by (simp add: share_fragment_def encode_share_link_def length_base64url plain_share_def PREFIX_def SHARE_LINK_MAX_BYTES_def TAG_BYTES_def)
qed (simp_all add: SHARE_CODE_BYTES_def IV_BYTES_def)

theorem opened_is_collection_witness:
  "\<exists>bytes. sc_text plain_share bytes = Some small_file \<and> length bytes \<le> MAX_IMPORT_BYTES"
proof -
  have "open_share_link plain_share
      \<lparr>sh_sealed = replicate 12 9 @ sc_encrypt plain_share (sc_key plain_share (replicate 32 7)) (replicate 12 9) (sc_deflate plain_share (utf8 small_file)),
       sh_code = Some (base64url (replicate 32 7))\<rparr> [] = Inr small_file"
    using small_length by (intro opened [OF plain_share_ok _ _ small_is_collection]) (simp_all add: SHARE_CODE_BYTES_def IV_BYTES_def MAX_IMPORT_BYTES_def)
  from opened_is_collection [OF this] show ?thesis by simp
qed

end
