(* ===== verification/History.thy ===== *)
theory History
  imports ObjectStore Complex_Main
begin

text \<open>
  The history of sends (\<open>src/app/data/history-repository.ts\<close>): the store the browser keeps, whose keys count up, and the
  list in memory that stands in for it where there is no database. Entries are of any type; \<open>created\<close> reads
  an entry's \<open>createdAt\<close>. What IndexedDB throws is logged and the call gives nothing: left out.
\<close>

section \<open>The store\<close>

record 'a history =
  hs_entries :: "(nat \<times> 'a) list"
  hs_next :: nat

definition empty_history :: "'a history" where
  "empty_history = \<lparr>hs_entries = [], hs_next = 1\<rparr>"

text \<open>The index \<open>by-createdAt\<close>, read forward and backward: equal times by the key.\<close>

definition oldest_first :: "('a \<Rightarrow> rat) \<Rightarrow> nat \<times> 'a \<Rightarrow> nat \<times> 'a \<Rightarrow> bool" where
  "oldest_first created a b \<longleftrightarrow>
     created (snd a) < created (snd b) \<or> created (snd a) = created (snd b) \<and> fst a \<le> fst b"

definition newest_first :: "('a \<Rightarrow> rat) \<Rightarrow> nat \<times> 'a \<Rightarrow> nat \<times> 'a \<Rightarrow> bool" where
  "newest_first created a b = oldest_first created b a"

interpretation oldest: total_comparison "oldest_first created" for created
  by unfold_locales (auto simp: oldest_first_def)

interpretation newest: total_comparison "newest_first created" for created
  by unfold_locales (auto simp: newest_first_def oldest_first_def)

definition history_put :: "'a \<Rightarrow> 'a history \<Rightarrow> 'a history" where
  "history_put entry h = \<lparr>hs_entries = hs_entries h @ [(hs_next h, entry)], hs_next = Suc (hs_next h)\<rparr>"

text \<open>An entry added and the oldest beyond \<open>cap\<close> deleted, in one transaction.\<close>

definition history_add :: "('a \<Rightarrow> rat) \<Rightarrow> nat \<Rightarrow> 'a \<Rightarrow> 'a history \<Rightarrow> nat \<times> 'a history" where
  "history_add created cap entry h =
     (let h1 = history_put entry h;
          oldest = take (length (hs_entries h1) - cap) (sort_by (oldest_first created) (hs_entries h1))
      in (hs_next h, h1\<lparr>hs_entries := filter (\<lambda>e. fst e \<notin> fst ` set oldest) (hs_entries h1)\<rparr>))"

definition history_get :: "nat \<Rightarrow> 'a history \<Rightarrow> 'a option" where
  "history_get i h = map_option snd (List.find (\<lambda>e. fst e = i) (hs_entries h))"

text \<open>\<open>None\<close> is no limit.\<close>

definition limited :: "nat option \<Rightarrow> 'b list \<Rightarrow> 'b list" where
  "limited limit xs = (case limit of None \<Rightarrow> xs | Some n \<Rightarrow> take n xs)"

definition history_latest :: "('a \<Rightarrow> rat) \<Rightarrow> nat option \<Rightarrow> 'a history \<Rightarrow> (nat \<times> 'a) list" where
  "history_latest created limit h = limited limit (sort_by (newest_first created) (hs_entries h))"

definition history_delete :: "nat \<Rightarrow> 'a history \<Rightarrow> 'a history" where
  "history_delete i h = h\<lparr>hs_entries := filter (\<lambda>e. fst e \<noteq> i) (hs_entries h)\<rparr>"

definition history_clear :: "'a history \<Rightarrow> 'a history" where
  "history_clear h = h\<lparr>hs_entries := []\<rparr>"

section \<open>The list in memory\<close>

record 'a memory =
  mm_entries :: "(nat \<times> 'a) list"
  mm_next :: nat

definition empty_memory :: "'a memory" where
  "empty_memory = \<lparr>mm_entries = [], mm_next = 1\<rparr>"

text \<open>\<open>sort((a, b) => b.createdAt - a.createdAt)\<close>, which leaves equal times as they stand.\<close>

definition memory_order :: "('a \<Rightarrow> rat) \<Rightarrow> nat \<times> 'a \<Rightarrow> nat \<times> 'a \<Rightarrow> bool" where
  "memory_order created a b \<longleftrightarrow> created (snd b) \<le> created (snd a)"

interpretation in_memory: total_comparison "memory_order created" for created
  by unfold_locales (auto simp: memory_order_def)

definition memory_add :: "('a \<Rightarrow> rat) \<Rightarrow> nat \<Rightarrow> 'a \<Rightarrow> 'a memory \<Rightarrow> nat \<times> 'a memory" where
  "memory_add created cap entry m =
     (mm_next m, \<lparr>mm_entries = take cap (sort_by (memory_order created) (mm_entries m @ [(mm_next m, entry)])), mm_next = Suc (mm_next m)\<rparr>)"

definition memory_get :: "nat \<Rightarrow> 'a memory \<Rightarrow> 'a option" where
  "memory_get i m = map_option snd (List.find (\<lambda>e. fst e = i) (mm_entries m))"

definition memory_latest :: "nat option \<Rightarrow> 'a memory \<Rightarrow> (nat \<times> 'a) list" where
  "memory_latest limit m = limited limit (mm_entries m)"

definition memory_delete :: "nat \<Rightarrow> 'a memory \<Rightarrow> 'a memory" where
  "memory_delete i m = m\<lparr>mm_entries := filter (\<lambda>e. fst e \<noteq> i) (mm_entries m)\<rparr>"

definition reset_memory :: "'a memory \<Rightarrow> 'a memory" where
  "reset_memory m = empty_memory"

section \<open>Lists in one order\<close>

text \<open>Two lists sorted by a strict order are the same when they hold the same.\<close>

lemma strictly_sorted_same:
  assumes "\<And>a b. R a b \<Longrightarrow> \<not> R b a"
  shows "sorted_wrt R xs \<Longrightarrow> sorted_wrt R ys \<Longrightarrow> set xs = set ys \<Longrightarrow> xs = ys"
proof (induction xs arbitrary: ys)
  case (Cons x xs)
  then obtain y ys' where ys: "ys = y # ys'" by (cases ys) auto
  have "x = y"
  proof (rule ccontr)
    assume "x \<noteq> y"
    with Cons.prems ys have "R x y" "R y x" by auto
    with assms show False by blast
  qed
  moreover have "\<not> R a a" for a using assms by blast
  then have "x \<notin> set xs" "y \<notin> set ys'" using Cons.prems(1,2) ys by auto
  ultimately have "set xs = set ys'" using Cons.prems(3) ys by auto
  with Cons ys \<open>x = y\<close> show ?case by simp
qed simp

definition strictly_newer :: "('a \<Rightarrow> rat) \<Rightarrow> nat \<times> 'a \<Rightarrow> nat \<times> 'a \<Rightarrow> bool" where
  "strictly_newer created a b \<longleftrightarrow> newest_first created a b \<and> fst a \<noteq> fst b"

lemma strictly_newer_asym: "strictly_newer created a b \<Longrightarrow> \<not> strictly_newer created b a"
  by (auto simp: strictly_newer_def newest_first_def oldest_first_def)

lemma sorted_strictly:
  assumes "sorted_wrt (newest_first created) xs" "distinct (map fst xs)"
  shows "sorted_wrt (strictly_newer created) xs"
  using assms by (induction xs) (auto simp: strictly_newer_def)

lemma distinct_keys_sort: "distinct (map fst (sort_by before xs)) \<longleftrightarrow> distinct (map fst xs)"
proof -
  have "distinct (map fst (insert_by before x xs)) \<longleftrightarrow> fst x \<notin> fst ` set xs \<and> distinct (map fst xs)" for x and xs :: "('a \<times> 'b) list"
    by (induction xs) auto
  then show ?thesis by (induction xs) auto
qed

text \<open>What the index read backward gives, told by what is in it and its order.\<close>

lemma sort_newest_eq:
  assumes "distinct (map fst xs)" "set ys = set xs" "sorted_wrt (newest_first created) ys" "distinct (map fst ys)"
  shows "sort_by (newest_first created) xs = ys"
proof (rule strictly_sorted_same [where R = "strictly_newer created"])
  show "sorted_wrt (strictly_newer created) (sort_by (newest_first created) xs)"
    by (rule sorted_strictly [OF newest.sorted_sort_by]) (simp add: distinct_keys_sort assms(1))
  show "sorted_wrt (strictly_newer created) ys" by (rule sorted_strictly [OF assms(3,4)])
qed (simp_all add: assms(2) strictly_newer_asym)

lemma sort_newest_rev:
  assumes "distinct (map fst xs)"
  shows "sort_by (newest_first created) xs = rev (sort_by (oldest_first created) xs)"
proof (rule sort_newest_eq [OF assms])
  have "sorted_wrt (oldest_first created) (sort_by (oldest_first created) xs)" by (rule oldest.sorted_sort_by)
  then show "sorted_wrt (newest_first created) (rev (sort_by (oldest_first created) xs))"
    by (simp add: sorted_wrt_rev newest_first_def [abs_def])
qed (simp_all add: distinct_keys_sort assms rev_map [symmetric])

section \<open>The newest are kept\<close>

definition history_ok :: "'a history \<Rightarrow> bool" where
  "history_ok h \<longleftrightarrow> distinct (map fst (hs_entries h)) \<and> (\<forall>e \<in> set (hs_entries h). fst e < hs_next h)"

lemma history_put_ok: "history_ok h \<Longrightarrow> history_ok (history_put entry h)"
  by (auto simp: history_ok_def history_put_def)

lemma filter_ok: "history_ok h \<Longrightarrow> history_ok (h\<lparr>hs_entries := filter P (hs_entries h)\<rparr>)"
  by (auto simp: history_ok_def distinct_map_filter)

lemma history_add_ok: "history_ok h \<Longrightarrow> history_ok (snd (history_add created cap entry h))"
  by (simp add: history_add_def Let_def filter_ok history_put_ok)

lemma without_first:
  assumes "distinct (map fst S)" "set E = set S"
  shows "set (filter (\<lambda>e. fst e \<notin> fst ` set (take n S)) E) = set (drop n S)"
proof -
  have "distinct (map fst (take n S @ drop n S))" using assms(1) by simp
  then have "fst ` set (take n S) \<inter> fst ` set (drop n S) = {}" unfolding map_append distinct_append by simp
  moreover have "set S = set (take n S) \<union> set (drop n S)" by (metis append_take_drop_id set_append)
  ultimately show ?thesis using assms(2) by auto
qed

lemma add_latest:
  assumes "history_ok h"
  shows "history_latest created None (snd (history_add created cap entry h)) =
    take cap (history_latest created None (history_put entry h))"
proof -
  let ?E = "hs_entries (history_put entry h)"
  let ?S = "sort_by (oldest_first created) ?E"
  let ?n = "length ?E - cap"
  have dist: "distinct (map fst ?E)" using history_put_ok [OF assms] by (simp add: history_ok_def)
  then have distS: "distinct (map fst ?S)" by (simp add: distinct_keys_sort)
  have kept: "take cap (rev ?S) = rev (drop ?n ?S)" by (simp add: take_rev)
  have "sort_by (newest_first created) (filter (\<lambda>e. fst e \<notin> fst ` set (take ?n ?S)) ?E) = rev (drop ?n ?S)"
  proof (rule sort_newest_eq)
    show "distinct (map fst (filter (\<lambda>e. fst e \<notin> fst ` set (take ?n ?S)) ?E))" by (rule distinct_map_filter [OF dist])
    show "set (rev (drop ?n ?S)) = set (filter (\<lambda>e. fst e \<notin> fst ` set (take ?n ?S)) ?E)"
      using without_first [OF distS, of ?E ?n] by simp
    have "sorted_wrt (newest_first created) (rev ?S)" unfolding sort_newest_rev [OF dist, symmetric] by (rule newest.sorted_sort_by)
    then show "sorted_wrt (newest_first created) (rev (drop ?n ?S))" unfolding kept [symmetric] by (rule sorted_wrt_take)
    have "distinct (map fst (drop ?n ?S))" unfolding drop_map [symmetric] by (rule distinct_drop [OF distS])
    then show "distinct (map fst (rev (drop ?n ?S)))" by (simp add: rev_map [symmetric])
  qed
  then show ?thesis
    by (simp add: history_add_def history_latest_def limited_def Let_def sort_newest_rev [OF dist] kept)
qed

section \<open>Runs of operations\<close>

datatype 'a history_op = AddEntry nat 'a | DeleteEntry nat | ClearAll

fun history_step :: "('a \<Rightarrow> rat) \<Rightarrow> 'a history_op \<Rightarrow> 'a history \<Rightarrow> 'a history" where
  "history_step created (AddEntry cap entry) h = snd (history_add created cap entry h)"
| "history_step created (DeleteEntry i) h = history_delete i h"
| "history_step created ClearAll h = history_clear h"

fun memory_step :: "('a \<Rightarrow> rat) \<Rightarrow> 'a history_op \<Rightarrow> 'a memory \<Rightarrow> 'a memory" where
  "memory_step created (AddEntry cap entry) m = snd (memory_add created cap entry m)"
| "memory_step created (DeleteEntry i) m = memory_delete i m"
| "memory_step created ClearAll m = reset_memory m"

lemma history_step_ok: "history_ok h \<Longrightarrow> history_ok (history_step created op h)"
  by (cases op) (simp_all add: history_add_ok history_delete_def filter_ok, simp add: history_ok_def history_clear_def)

lemma history_run_ok: "history_ok (fold (history_step created) ops empty_history)"
proof -
  have "history_ok h \<Longrightarrow> history_ok (fold (history_step created) ops h)" for h
    by (induction ops arbitrary: h) (simp_all add: history_step_ok)
  then show ?thesis by (simp add: history_ok_def empty_history_def)
qed

text \<open>
  After any sends, deletes and clears, an entry added leaves the history with its \<open>cap\<close> newest entries, in their
  order, and none more.
\<close>

theorem history_keeps_newest:
  fixes created :: "'a \<Rightarrow> rat"
  shows "history_latest created None (snd (history_add created cap entry (fold (history_step created) ops empty_history))) =
      take cap (history_latest created None (history_put entry (fold (history_step created) ops empty_history))) \<and>
    length (hs_entries (snd (history_add created cap entry (fold (history_step created) ops empty_history)))) \<le> cap"
proof -
  let ?h = "fold (history_step created) ops empty_history"
  note kept = add_latest [OF history_run_ok [where created = created and ops = ops], of created cap entry]
  have "length (hs_entries (snd (history_add created cap entry ?h))) = length (history_latest created None (snd (history_add created cap entry ?h)))"
    by (simp add: history_latest_def limited_def)
  with kept show ?thesis by simp
qed

section \<open>The list in memory does what the store does\<close>

definition added :: "'a history_op list \<Rightarrow> 'a list" where
  "added ops = concat (map (\<lambda>op. case op of AddEntry _ entry \<Rightarrow> [entry] | _ \<Rightarrow> []) ops)"

definition in_step :: "('a \<Rightarrow> rat) \<Rightarrow> 'a list \<Rightarrow> 'a history \<Rightarrow> 'a memory \<Rightarrow> bool" where
  "in_step created seen h m \<longleftrightarrow>
     history_ok h \<and> mm_next m = hs_next h \<and> mm_entries m = history_latest created None h \<and>
     distinct (map (\<lambda>e. created (snd e)) (hs_entries h)) \<and> snd ` set (hs_entries h) \<subseteq> set seen"

lemma memory_sorted_same:
  assumes "distinct (map (\<lambda>e. created (snd e)) xs)" "distinct (map fst xs)" "set ys = set xs" "distinct ys" "distinct xs"
  shows "sort_by (memory_order created) ys = sort_by (newest_first created) xs"
proof (rule sort_newest_eq [symmetric, OF assms(2)])
  show "set (sort_by (memory_order created) ys) = set xs" by (simp add: assms(3))
  have inj: "inj_on (\<lambda>e. created (snd e)) (set xs)" "inj_on fst (set xs)" using assms(1,2) by (simp_all add: distinct_map)
  have "sorted_wrt (memory_order created) zs \<Longrightarrow> distinct zs \<Longrightarrow> set zs \<subseteq> set xs \<Longrightarrow> sorted_wrt (newest_first created) zs" for zs
  proof (induction zs)
    case (Cons z zs)
    have "newest_first created z w" if "w \<in> set zs" for w
    proof -
      have "created (snd w) \<le> created (snd z)" "z \<noteq> w" using Cons.prems that by (auto simp: memory_order_def)
      moreover have "created (snd w) \<noteq> created (snd z)"
        using inj(1) that Cons.prems(3) \<open>z \<noteq> w\<close> by (auto dest: inj_onD)
      ultimately show ?thesis by (simp add: newest_first_def oldest_first_def)
    qed
    with Cons show ?case by simp
  qed simp
  from this [of "sort_by (memory_order created) ys"] show "sorted_wrt (newest_first created) (sort_by (memory_order created) ys)"
    using assms(3,4) in_memory.sorted_sort_by [of created ys] by simp
  have "inj_on fst (set ys)" using inj(2) assms(3) by simp
  then show "distinct (map fst (sort_by (memory_order created) ys))"
    using assms(4) by (simp add: distinct_keys_sort distinct_map)
qed

lemma add_in_step:
  assumes "in_step created seen h m" "created entry \<notin> created ` set seen"
  shows "in_step created (entry # seen) (snd (history_add created cap entry h)) (snd (memory_add created cap entry m))"
proof -
  let ?h1 = "history_put entry h"
  have ok: "history_ok h" and m: "mm_next m = hs_next h" "mm_entries m = history_latest created None h"
    and times: "distinct (map (\<lambda>e. created (snd e)) (hs_entries h))" "snd ` set (hs_entries h) \<subseteq> set seen"
    using assms(1) by (simp_all add: in_step_def)
  have ok1: "history_ok ?h1" by (rule history_put_ok [OF ok])
  have times1: "distinct (map (\<lambda>e. created (snd e)) (hs_entries ?h1))"
    using times assms(2) by (auto simp: history_put_def)
  have E1: "hs_entries ?h1 = hs_entries h @ [(hs_next h, entry)]" by (simp add: history_put_def)
  have new: "(hs_next h, entry) \<notin> set (hs_entries h)" using ok by (auto simp: history_ok_def)
  have dist: "distinct (hs_entries h)" "distinct (hs_entries ?h1)" using ok ok1 by (simp_all add: history_ok_def distinct_map)
  have "sort_by (memory_order created) (mm_entries m @ [(mm_next m, entry)]) = sort_by (newest_first created) (hs_entries ?h1)"
  proof (rule memory_sorted_same [OF times1])
    show "distinct (map fst (hs_entries ?h1))" using ok1 by (simp add: history_ok_def)
    show "distinct (mm_entries m @ [(mm_next m, entry)])"
      using dist(2) by (simp add: m E1 history_latest_def limited_def)
  qed (use new dist in \<open>simp_all add: m E1 history_latest_def limited_def\<close>)
  then have "mm_entries (snd (memory_add created cap entry m)) = history_latest created None (snd (history_add created cap entry h))"
    by (simp add: memory_add_def add_latest [OF ok]) (simp add: history_latest_def limited_def)
  moreover have "set (hs_entries (snd (history_add created cap entry h))) \<subseteq> set (hs_entries ?h1)"
    by (auto simp: history_add_def Let_def)
  moreover have "distinct (map (\<lambda>e. created (snd e)) (hs_entries (snd (history_add created cap entry h))))"
    using times1 by (simp add: history_add_def Let_def distinct_map_filter)
  ultimately show ?thesis
    using history_add_ok [OF ok] times(2) m
    by (auto simp: in_step_def memory_add_def history_add_def Let_def history_put_def)
qed

lemma delete_in_step:
  assumes "in_step created seen h m"
  shows "in_step created seen (history_delete i h) (memory_delete i m)"
proof -
  have dist: "distinct (map fst (hs_entries h))" using assms by (simp add: in_step_def history_ok_def)
  have "sort_by (newest_first created) (filter (\<lambda>e. fst e \<noteq> i) (hs_entries h)) =
      filter (\<lambda>e. fst e \<noteq> i) (sort_by (newest_first created) (hs_entries h))"
    by (rule sort_newest_eq)
      (simp_all add: distinct_map_filter dist distinct_keys_sort sorted_wrt_filter newest.sorted_sort_by)
  with assms show ?thesis
    by (auto simp: in_step_def history_delete_def memory_delete_def filter_ok history_latest_def limited_def distinct_map_filter)
qed

text \<open>
  Where there is no database the list in memory stands in for the store: after the same sends and deletes, of which no
  two sends are of one moment, it lists the same entries under the same ids in the same order.
\<close>

theorem memory_stands_in:
  assumes "distinct (map created (added ops))" "ClearAll \<notin> set ops"
  shows "memory_latest limit (fold (memory_step created) ops empty_memory) =
    history_latest created limit (fold (history_step created) ops empty_history)"
proof -
  have "in_step created (rev (added ops) @ seen) (fold (history_step created) ops h) (fold (memory_step created) ops m)"
    if "in_step created seen h m" "distinct (map created (added ops @ seen))" "ClearAll \<notin> set ops" for h m seen
    using that
  proof (induction ops arbitrary: h m seen)
    case (Cons op ops)
    show ?case
    proof (cases op)
      case (AddEntry cap entry)
      have "in_step created (entry # seen) (history_step created op h) (memory_step created op m)"
        using Cons.prems(2) AddEntry by (simp add: add_in_step [OF Cons.prems(1)] added_def)
      from Cons.IH [OF this] Cons.prems(2,3) AddEntry show ?thesis by (simp add: added_def)
    next
      case (DeleteEntry i)
      with Cons.IH [OF delete_in_step [OF Cons.prems(1), of i]] Cons.prems(2,3) show ?thesis by (simp add: added_def)
    next
      case ClearAll
      with Cons.prems(3) show ?thesis by simp
    qed
  qed (simp add: added_def)
  from this [of "[]" empty_history empty_memory] assms
  have "mm_entries (fold (memory_step created) ops empty_memory) = history_latest created None (fold (history_step created) ops empty_history)"
    by (simp add: in_step_def history_ok_def empty_history_def empty_memory_def history_latest_def limited_def)
  then show ?thesis by (simp add: memory_latest_def history_latest_def limited_def split: option.split)
qed

theorem memory_stands_in_witness:
  "memory_latest (Some 1) (fold (memory_step id) [AddEntry 2 1, AddEntry 2 5, AddEntry 2 3, DeleteEntry 2] empty_memory) =
   history_latest id (Some 1) (fold (history_step id) [AddEntry 2 1, AddEntry 2 5, AddEntry 2 3, DeleteEntry 2] empty_history)"
  by (rule memory_stands_in) (simp_all add: added_def)

end
