(* ===== verification/Environments.thy ===== *)
theory Environments
  imports Workspace
begin

text \<open>
  Environments, the globals and the environment in use, as the app stores them
  (\<open>src/app/data/environments-repository.ts\<close>). A delete is two transactions, the second of which forgets the choice
  of the one deleted; its Undo puts both back.
\<close>

section \<open>The stores\<close>

text \<open>\<open>activeEnvironmentId\<close>: absent, \<open>null\<close> or an id.\<close>

datatype active_environment = NotChosen | NoEnvironment | Chosen string

record environments =
  es_environments :: "environment_doc list"
  es_globals :: "row list option"
  es_active :: active_environment

definition env_key :: "environment_doc \<Rightarrow> string" where
  "env_key e = meta_id (env_meta e)"

definition ensure_environment :: "environment_doc \<Rightarrow> environment_doc" where
  "ensure_environment e = (if env_id e = [] then e\<lparr>env_id := env_key e\<rparr> else e)"

definition list_environments :: "environments \<Rightarrow> environment_doc list" where
  "list_environments db =
     map ensure_environment
       (sort_by (\<lambda>a b. env_order a < env_order b \<or> env_order a = env_order b \<and> \<not> key_less (env_key b) (env_key a))
         (es_environments db))"

definition environment_order :: "environments \<Rightarrow> rat" where
  "environment_order db = next_order [map env_order (es_environments db)]"

definition create_environment ::
    "meta \<Rightarrow> string \<Rightarrow> string option \<Rightarrow> row list option \<Rightarrow> environments \<Rightarrow> (string + environment_doc) \<times> environments" where
  "create_environment m n description vars = commit (\<lambda>db.
     let doc = ensure_environment
           \<lparr>env_id = meta_id m, env_meta = m, env_name = trim n, env_description = described description,
            env_vars = (case vars of None \<Rightarrow> [] | Some rows \<Rightarrow> rows), env_order = environment_order db\<rparr>
     in case store_add env_key doc (es_environments db) of
          Inl e \<Rightarrow> Inl e
        | Inr es \<Rightarrow> Inr (doc, db\<lparr>es_environments := es\<rparr>))"

text \<open>A name and a description, each when it is given.\<close>

definition with_details :: "string option \<Rightarrow> string option \<Rightarrow> environment_doc \<Rightarrow> environment_doc" where
  "with_details n description e =
     e\<lparr>env_name := (case n of None \<Rightarrow> env_name e | Some t \<Rightarrow> trim t),
       env_description := (case description of None \<Rightarrow> env_description e | Some t \<Rightarrow> described (Some t))\<rparr>"

definition write_environment ::
    "rat \<Rightarrow> string \<Rightarrow> (environment_doc \<Rightarrow> environment_doc) \<Rightarrow> environments \<Rightarrow> (string + environment_doc option) \<times> environments" where
  "write_environment now i change = commit (\<lambda>db.
     case store_get env_key (es_environments db) i of
       None \<Rightarrow> Inr (None, db)
     | Some doc \<Rightarrow>
         let doc' = ensure_environment ((change doc)\<lparr>env_meta := touch_meta now (env_meta doc)\<rparr>)
         in Inr (Some doc', db\<lparr>es_environments := store_put env_key doc' (es_environments db)\<rparr>))"

definition update_environment ::
    "rat \<Rightarrow> string \<Rightarrow> string option \<Rightarrow> string option \<Rightarrow> row list option \<Rightarrow> environments \<Rightarrow>
     (string + environment_doc option) \<times> environments" where
  "update_environment now i n description vars =
     write_environment now i (\<lambda>e. (with_details n description e)\<lparr>env_vars := (case vars of None \<Rightarrow> env_vars e | Some rows \<Rightarrow> rows)\<rparr>)"

definition change_environment ::
    "rat \<Rightarrow> string \<Rightarrow> variable_change list \<Rightarrow> string option \<Rightarrow> string option \<Rightarrow> environments \<Rightarrow>
     (string + environment_doc option) \<times> environments" where
  "change_environment now i changes n description =
     write_environment now i (\<lambda>e. (with_details n description e)\<lparr>env_vars := apply_variable_changes (env_vars e) changes\<rparr>)"

definition duplicate_environment :: "meta \<Rightarrow> string \<Rightarrow> environments \<Rightarrow> (string + environment_doc option) \<times> environments" where
  "duplicate_environment m i = commit (\<lambda>db.
     case store_get env_key (es_environments db) i of
       None \<Rightarrow> Inr (None, db)
     | Some doc \<Rightarrow>
         let clone = ensure_environment
               (doc\<lparr>env_id := meta_id m, env_meta := m, env_name := env_name doc @ '' copy'', env_order := environment_order db\<rparr>)
         in case store_add env_key clone (es_environments db) of
              Inl e \<Rightarrow> Inl e
            | Inr es \<Rightarrow> Inr (Some clone, db\<lparr>es_environments := es\<rparr>))"

definition set_active_environment :: "active_environment \<Rightarrow> environments \<Rightarrow> environments" where
  "set_active_environment choice db = db\<lparr>es_active := choice\<rparr>"

definition delete_environment :: "string \<Rightarrow> environments \<Rightarrow> (environment_doc \<times> bool) option \<times> environments" where
  "delete_environment i db =
     (let found = store_get env_key (es_environments db) i;
          db1 = db\<lparr>es_environments := store_delete env_key i (es_environments db)\<rparr>;
          was_active = (es_active db1 = Chosen i);
          db2 = (if was_active then set_active_environment NotChosen db1 else db1)
      in (map_option (\<lambda>doc. (doc, was_active)) found, db2))"

definition restore_environment :: "environment_doc \<times> bool \<Rightarrow> environments \<Rightarrow> environments" where
  "restore_environment removed db =
     (let db1 = db\<lparr>es_environments := store_put env_key (fst removed) (es_environments db)\<rparr>
      in if snd removed then set_active_environment (Chosen (env_key (fst removed))) db1 else db1)"

definition reorder_environment :: "rat \<Rightarrow> string \<times> rat \<Rightarrow> environments \<Rightarrow> environments" where
  "reorder_environment now entry db =
     (case store_get env_key (es_environments db) (fst entry) of
        None \<Rightarrow> db
      | Some e \<Rightarrow>
          db\<lparr>es_environments :=
            store_put env_key (e\<lparr>env_order := snd entry, env_meta := touch_meta now (env_meta e)\<rparr>) (es_environments db)\<rparr>)"

definition reorder_environments :: "rat \<Rightarrow> (string \<times> rat) list \<Rightarrow> environments \<Rightarrow> (string + unit) \<times> environments" where
  "reorder_environments now entries = commit (\<lambda>db. Inr ((), fold (reorder_environment now) entries db))"

definition get_globals :: "environments \<Rightarrow> row list" where
  "get_globals db = (case es_globals db of None \<Rightarrow> [] | Some rows \<Rightarrow> rows)"

definition change_globals :: "variable_change list \<Rightarrow> environments \<Rightarrow> row list \<times> environments" where
  "change_globals changes db =
     (let rows = apply_variable_changes (get_globals db) changes in (rows, db\<lparr>es_globals := Some rows\<rparr>))"

section \<open>Laws\<close>

text \<open>Undo of a delete: the environment is back in its place, and in use again if it was.\<close>

lemma restore_deleted:
  assumes "store_ok env_key (es_environments db)" "delete_environment i db = (Some removed, db')"
  shows "restore_environment removed db' = db"
proof -
  from assms(2) obtain doc where found: "store_get env_key (es_environments db) i = Some doc"
    and removed: "removed = (doc, es_active db = Chosen i)"
    and db': "db' = (if es_active db = Chosen i then db\<lparr>es_environments := store_delete env_key i (es_environments db), es_active := NotChosen\<rparr>
      else db\<lparr>es_environments := store_delete env_key i (es_environments db)\<rparr>)"
    by (auto simp: delete_environment_def set_active_environment_def Let_def split: if_splits)
  have doc: "env_key doc = i" using ob.get_Some [OF found] by simp
  have "store_put env_key doc (store_delete env_key i (es_environments db)) = es_environments db"
  proof (rule ob.same_store [of env_key])
    show "store_get env_key (store_put env_key doc (store_delete env_key i (es_environments db))) k =
        store_get env_key (es_environments db) k" for k
      using found doc by (simp add: ob.get_put ob.ok_del assms(1) ob.get_del)
  qed (simp_all add: assms(1) ob.ok_put ob.ok_del)
  then show ?thesis using doc by (simp add: restore_environment_def removed db' set_active_environment_def)
qed

text \<open>
  Two tabs that change variables of one environment: a change of the one to other variables leaves what the other wrote,
  row for row, whichever comes second.
\<close>

lemma other_tabs_change_kept:
  assumes "store_ok env_key (es_environments db)"
    and "change_environment now i changes n d db = (Inr (Some e), db')" "k \<notin> vc_key ` set changes"
  shows "\<exists>e0. store_get env_key (es_environments db) i = Some e0 \<and> store_get env_key (es_environments db') i = Some e \<and>
    filter (\<lambda>r. row_key r = k) (env_vars e) = filter (\<lambda>r. row_key r = k) (env_vars e0)"
proof -
  from assms(2) obtain e0 where found: "store_get env_key (es_environments db) i = Some e0"
    and e: "e = ensure_environment (((with_details n d e0)\<lparr>env_vars := apply_variable_changes (env_vars e0) changes\<rparr>)
      \<lparr>env_meta := touch_meta now (env_meta e0)\<rparr>)"
    and db': "db' = db\<lparr>es_environments := store_put env_key e (es_environments db)\<rparr>"
    by (auto simp: change_environment_def write_environment_def commit_def Let_def split: option.splits)
  have key: "env_key e = i"
    using ob.get_Some [OF found] by (simp add: e ensure_environment_def env_key_def touch_meta_def)
  have "env_vars e = apply_variable_changes (env_vars e0) changes" by (simp add: e ensure_environment_def)
  with apply_changes_other [OF assms(3)] found key show ?thesis by (simp add: db' ob.get_put [OF assms(1)])
qed

end
