(* ===== verification/DataFile.thy ===== *)
theory DataFile
  imports Runner JsValues
begin

text \<open>
  The data file of a run: \<open>packages/core/src/run/data-file.ts\<close>. A byte order mark is outside the
  range of characters of the model, so no text starts with one here. The entries of a JSON object
  stand in the order of the text.
\<close>

section \<open>CSV\<close>

text \<open>
  The loop of \<open>parseCsv\<close>, with its variables: the records so far, the record and the field being
  read, and whether it is in quotes. \<open>None\<close> is the error.
\<close>

fun csv_loop :: "string \<Rightarrow> string list list \<Rightarrow> string list \<Rightarrow> string \<Rightarrow> bool \<Rightarrow> string list list option" where
  "csv_loop [] records record_now field quoted =
     (if quoted then None
      else if field \<noteq> [] \<or> record_now \<noteq> [] then Some (records @ [record_now @ [field]])
      else Some records)"
| "csv_loop (c # s) records record_now field quoted =
     (if quoted then
        (if c \<noteq> CHR 0x22 then csv_loop s records record_now (field @ [c]) True
         else
           (case s of
              d # s' \<Rightarrow>
                if d = CHR 0x22 then csv_loop s' records record_now (field @ [CHR 0x22]) True
                else csv_loop s records record_now field False
            | [] \<Rightarrow> csv_loop s records record_now field False))
      else if c = CHR 0x22 \<and> field = [] then csv_loop s records record_now field True
      else if c = CHR '','' then csv_loop s records (record_now @ [field]) [] False
      else if c = CHR 0x0A then csv_loop s (records @ [record_now @ [field]]) [] [] False
      else if c = CHR 0x0D then
        (case s of
           d # s' \<Rightarrow>
             if d = CHR 0x0A then csv_loop s' (records @ [record_now @ [field]]) [] [] False
             else csv_loop s records record_now (field @ [c]) False
         | [] \<Rightarrow> csv_loop s records record_now (field @ [c]) False)
      else csv_loop s records record_now (field @ [c]) False)"

definition parse_csv :: "string \<Rightarrow> string list list option" where
  "parse_csv text = csv_loop text [] [] [] False"

section \<open>The rows\<close>

datatype data_error = NotRecords | NoNames | OpenQuote

fun data_message :: "data_error \<Rightarrow> string" where
  "data_message NotRecords = ''A JSON data file is a list of objects, one for each iteration.''"
| "data_message NoNames = ''A CSV data file has the names of its values in its first line.''"
| "data_message OpenQuote = ''The CSV file ends inside a quoted field.''"

definition is_json_name :: "string \<Rightarrow> bool" where
  "is_json_name fname \<longleftrightarrow> ends_with (to_lower fname) ''.json''"

definition entry_row :: "string \<times> json \<Rightarrow> row" where
  "entry_row e =
     (case e of
        (key, JStr v) \<Rightarrow> \<lparr>row_key = key, row_value = v, row_enabled = True, row_json = False\<rparr>
      | (key, v) \<Rightarrow> \<lparr>row_key = key, row_value = stringify v, row_enabled = True, row_json = True\<rparr>)"

definition json_rows :: "json option \<Rightarrow> data_error + row list list" where
  "json_rows parsed =
     (case parsed of
        Some (JArr vs) \<Rightarrow>
          if list_all (\<lambda>v. case v of JObj _ \<Rightarrow> True | _ \<Rightarrow> False) vs
          then Inr (map (\<lambda>v. case v of JObj es \<Rightarrow> map entry_row es | _ \<Rightarrow> []) vs)
          else Inl NotRecords
      | _ \<Rightarrow> Inl NotRecords)"

text \<open>A record's rows: one for each name that is not empty; a value that is missing is empty.\<close>

definition csv_row :: "string list \<Rightarrow> string list \<Rightarrow> row list" where
  "csv_row names record_now =
     concat (map (\<lambda>(index, key). if key = [] then [] else
         [\<lparr>row_key = key, row_value = (if index < length record_now then record_now ! index else []),
           row_enabled = True, row_json = False\<rparr>])
       (enumerate 0 names))"

definition csv_rows :: "string list list option \<Rightarrow> data_error + row list list" where
  "csv_rows parsed =
     (case parsed of
        None \<Rightarrow> Inl OpenQuote
      | Some [] \<Rightarrow> Inl NoNames
      | Some (names # records) \<Rightarrow>
          if \<not> list_ex (\<lambda>name. name \<noteq> []) names then Inl NoNames
          else Inr (map (csv_row names) (filter (\<lambda>r. r \<noteq> [[]]) records)))"

definition parse_data_file :: "string \<Rightarrow> string \<Rightarrow> data_error + row list list" where
  "parse_data_file text fname =
     (if is_json_name fname then json_rows (parse_json text) else csv_rows (parse_csv text))"

section \<open>What is written in CSV\<close>

text \<open>A field in quotes, its quotes doubled; a record with its cells parted by commas.\<close>

fun csv_escape :: "string \<Rightarrow> string" where
  "csv_escape [] = []"
| "csv_escape (c # s) = (if c = CHR 0x22 then [CHR 0x22, CHR 0x22] else [c]) @ csv_escape s"

definition csv_quote :: "string \<Rightarrow> string" where
  "csv_quote field = CHR 0x22 # csv_escape field @ [CHR 0x22]"

definition csv_bare :: "string \<Rightarrow> bool" where
  "csv_bare field \<longleftrightarrow> set field \<inter> {CHR 0x22, CHR '','', CHR 0x0A, CHR 0x0D} = {}"

text \<open>A field may stand as it is when none of its characters means something.\<close>

definition csv_field :: "string \<times> bool \<Rightarrow> string" where
  "csv_field = (\<lambda>(field, bare). if bare \<and> csv_bare field then field else csv_quote field)"

definition csv_line :: "(string \<times> bool) list \<Rightarrow> string \<Rightarrow> string" where
  "csv_line cells eol = join '','' (map csv_field cells) @ eol"

lemma csv_quoted:
  assumes "rest = [] \<or> hd rest \<noteq> CHR 0x22"
  shows "csv_loop (csv_escape s @ CHR 0x22 # rest) records rec f True = csv_loop rest records rec (f @ s) False"
proof (induction s arbitrary: f)
  case Nil
  then show ?case using assms by (cases rest) auto
qed auto

lemma csv_plain:
  "csv_bare s \<Longrightarrow> csv_loop (s @ rest) records rec f False = csv_loop rest records rec (f @ s) False"
  by (induction s arbitrary: f) (auto simp: csv_bare_def)

lemma csv_one_field:
  assumes "rest = [] \<or> hd rest \<noteq> CHR 0x22"
  shows "csv_loop (csv_field (s, b) @ rest) records rec [] False = csv_loop rest records rec s False"
  using assms csv_plain [of s rest records rec "[]"]
  by (auto simp: csv_field_def csv_quote_def csv_quoted)

definition csv_eol :: "string \<Rightarrow> bool" where
  "csv_eol eol \<longleftrightarrow> eol = [CHR 0x0A] \<or> eol = [CHR 0x0D, CHR 0x0A]"

lemma csv_one_line:
  assumes "cells \<noteq> []" "csv_eol eol"
  shows "csv_loop (csv_line cells eol @ rest) records rec [] False =
    csv_loop rest (records @ [rec @ map fst cells]) [] [] False"
  using assms(1)
proof (induction cells arbitrary: rec)
  case (Cons x xs)
  obtain s b where x: "x = (s, b)" by (cases x)
  show ?case
  proof (cases xs)
    case Nil
    have "csv_loop (csv_field (s, b) @ eol @ rest) records rec [] False = csv_loop (eol @ rest) records rec s False"
      by (rule csv_one_field) (use assms(2) in \<open>auto simp: csv_eol_def\<close>)
    then show ?thesis using x Nil assms(2) by (auto simp: csv_line_def csv_eol_def)
  next
    case (Cons y ys)
    then have line: "csv_line (x # xs) eol @ rest = csv_field (s, b) @ CHR '','' # csv_line xs eol @ rest"
      using x by (simp add: csv_line_def)
    have "csv_loop (csv_field (s, b) @ CHR '','' # csv_line xs eol @ rest) records rec [] False =
        csv_loop (CHR '','' # csv_line xs eol @ rest) records rec s False"
      by (rule csv_one_field) simp
    then show ?thesis unfolding line using Cons.IH [of "rec @ [s]"] x local.Cons by simp
  qed
qed simp

lemma csv_lines:
  "list_all (\<lambda>(cells, eol). cells \<noteq> [] \<and> csv_eol eol) lines \<Longrightarrow>
   csv_loop (concat (map (\<lambda>(cells, eol). csv_line cells eol) lines) @ rest) records [] [] False =
     csv_loop rest (records @ map (\<lambda>(cells, _). map fst cells) lines) [] [] False"
proof (induction lines arbitrary: records)
  case (Cons l ls)
  obtain cells eol where l: "l = (cells, eol)" by (cases l)
  with Cons.prems have ok: "cells \<noteq> []" "csv_eol eol" "list_all (\<lambda>(cells, eol). cells \<noteq> [] \<and> csv_eol eol) ls" by auto
  show ?case using Cons.IH [OF ok(3)] csv_one_line [OF ok(1,2)] l by simp
qed simp

text \<open>
  What is written as CSV (RFC 4180) is read back: every field, in quotes with its quotes
  doubled or, when no character of it means something, as it is, whatever commas, quotes and line
  breaks it holds; the records may end in CRLF or LF, each as it likes.
\<close>

theorem csv_round_trip:
  assumes "list_all (\<lambda>(cells, eol). cells \<noteq> [] \<and> csv_eol eol) lines"
  shows "parse_csv (concat (map (\<lambda>(cells, eol). csv_line cells eol) lines)) =
    Some (map (\<lambda>(cells, _). map fst cells) lines)"
  using csv_lines [OF assms, of "[]" "[]"] by (simp add: parse_csv_def)

lemma csv_round_trip_witness:
  "parse_csv (csv_line [(''a,b'', True), (''c'', True)] [CHR 0x0D, CHR 0x0A] @ csv_line [(''d'' @ [CHR 0x22], False)] [CHR 0x0A]) =
     Some [[''a,b'', ''c''], [''d'' @ [CHR 0x22]]]"
  using csv_round_trip [of "[([(''a,b'', True), (''c'', True)], [CHR 0x0D, CHR 0x0A]), ([(''d'' @ [CHR 0x22], False)], [CHR 0x0A])]"]
  by (simp add: csv_eol_def)

lemma csv_row_keys: "map row_key (csv_row names rec) = filter (\<lambda>n. n \<noteq> []) names"
proof -
  have "map row_key (concat (map (\<lambda>(index, key). if key = [] then [] else
         [\<lparr>row_key = key, row_value = f index, row_enabled = True, row_json = False\<rparr>]) (enumerate k names))) =
      filter (\<lambda>n. n \<noteq> []) names" for f k
    by (induction names arbitrary: k) auto
  then show ?thesis by (simp add: csv_row_def)
qed

lemma csv_row_values:
  assumes "r \<in> set (csv_row names rec)"
  shows "row_enabled r \<and> \<not> row_json r \<and> (\<exists>i < length names. names ! i = row_key r \<and>
    row_value r = (if i < length rec then rec ! i else []))"
  using assms by (fastforce simp: csv_row_def in_set_enumerate_eq split: if_splits)

text \<open>What a row says of a JSON value, and of a CSV record.\<close>

definition row_says :: "string \<times> json \<Rightarrow> row \<Rightarrow> bool" where
  "row_says e r \<longleftrightarrow> row_key r = fst e \<and> row_enabled r \<and>
     (if row_json r then parse_json (row_value r) = Some (snd e) \<and> (\<forall>t. snd e \<noteq> JStr t)
      else snd e = JStr (row_value r))"

definition record_says :: "string list \<Rightarrow> string list \<Rightarrow> row list \<Rightarrow> bool" where
  "record_says names fs rows \<longleftrightarrow> map row_key rows = filter (\<lambda>n. n \<noteq> []) names \<and>
     (\<forall>r \<in> set rows. row_enabled r \<and> \<not> row_json r \<and> (\<exists>i < length names. names ! i = row_key r \<and>
        row_value r = (if i < length fs then fs ! i else [])))"

lemma entry_row_says: "json_wf (snd e) \<Longrightarrow> row_says e (entry_row e)"
  by (cases e; cases "snd e") (simp_all add: entry_row_def row_says_def parse_stringify del: json_wf.simps)

lemma json_rows_say:
  assumes "parse_json text = Some (JArr vs)" "json_rows (Some (JArr vs)) = Inr rows"
  shows "\<exists>objects. vs = map JObj objects \<and> list_all2 (list_all2 row_says) objects rows"
proof -
  have wf: "json_wf (JArr vs)" using parse_json_wf [OF assms(1)] .
  have all: "list_all (\<lambda>v. case v of JObj _ \<Rightarrow> True | _ \<Rightarrow> False) vs"
    and rows: "rows = map (\<lambda>v. case v of JObj es \<Rightarrow> map entry_row es | _ \<Rightarrow> []) vs"
    using assms(2) by (auto simp: json_rows_def split: if_splits)
  define objects where "objects = map (\<lambda>v. case v of JObj es \<Rightarrow> es | _ \<Rightarrow> []) vs"
  have vs: "vs = map JObj objects"
    using all unfolding objects_def by (induction vs) (auto split: json.splits)
  have "list_all2 row_says es (map entry_row es)" if "es \<in> set objects" for es
    using wf that entry_row_says unfolding vs by (auto simp: list_all2_map2 list_all2_same)
  then have "list_all2 (list_all2 row_says) objects (map (map entry_row) objects)"
    by (simp add: list_all2_map2 list_all2_same)
  moreover have "rows = map (map entry_row) objects" unfolding rows vs by simp
  ultimately show ?thesis using vs by blast
qed

text \<open>
  The rows of a data file: a CSV file gives each record that is not an empty line a row for
  every name that is not empty, with the record's value at that name's place or the empty text; a
  JSON file gives every object a row for each entry, whose value is the entry's text, or reads
  back as its JSON.
\<close>

theorem data_file_rows:
  assumes "parse_data_file text fname = Inr rows"
  shows "if is_json_name fname
    then \<exists>objects. parse_json text = Some (JArr (map JObj objects)) \<and> list_all2 (list_all2 row_says) objects rows
    else \<exists>names records. parse_csv text = Some (names # records) \<and>
      list_all2 (record_says names) (filter (\<lambda>r. r \<noteq> [[]]) records) rows"
proof (cases "is_json_name fname")
  case True
  then obtain vs where vs: "parse_json text = Some (JArr vs)"
    using assms by (auto simp: parse_data_file_def json_rows_def split: option.splits json.splits)
  then show ?thesis using True assms json_rows_say [OF vs] by (auto simp: parse_data_file_def)
next
  case False
  then obtain names records where "parse_csv text = Some (names # records)"
    "rows = map (csv_row names) (filter (\<lambda>r. r \<noteq> [[]]) records)"
    using assms by (auto simp: parse_data_file_def csv_rows_def split: option.splits list.splits if_splits)
  then show ?thesis using False csv_row_keys csv_row_values
    by (auto simp: list_all2_map2 list_all2_same record_says_def)
qed

lemma data_file_rows_witness:
  "\<exists>rows. parse_data_file (''a,,b'' @ [CHR 0x0A] @ ''1,2'') ''rows.csv'' = Inr rows \<and>
     list_all2 (record_says [''a'', [], ''b'']) [[''1'', ''2'']] rows"
proof -
  let ?text = "''a,,b'' @ [CHR 0x0A] @ ''1,2''"
  have csv: "parse_csv ?text = Some [[''a'', [], ''b''], [''1'', ''2'']]" and name: "\<not> is_json_name ''rows.csv''"
    by code_simp+
  have "\<exists>rows. parse_data_file ?text ''rows.csv'' = Inr rows"
    using csv name by (simp add: parse_data_file_def csv_rows_def)
  then obtain rows where rows: "parse_data_file ?text ''rows.csv'' = Inr rows" by blast
  from data_file_rows [OF rows] rows csv name show ?thesis by auto
qed

end
