(* ===== verification/Assertions.thy ===== *)
theory Assertions
  imports Model JsValues Forms
begin

text \<open>
  The assertions of a request and the paths they read a body by:
  \<open>packages/core/src/send/assertions.ts\<close> and \<open>view/json-path.ts\<close>. A value the language may leave
  \<open>undefined\<close> is a \<open>json option\<close>. A duration is a decimal.
\<close>

section \<open>A path into a JSON value\<close>

definition EVERY :: string where
  "EVERY = [CHR 0x00]"

text \<open>\<open>/\[(\d+)\]/g\<close> with \<open>.$1\<close>.\<close>

function unbracket :: "string \<Rightarrow> string" where
  "unbracket [] = []"
| "unbracket (c # s) =
     (let (ds, r) = span_of is_digit s
      in if c = CHR ''['' \<and> ds \<noteq> [] \<and> starts_with r '']'' then CHR ''.'' # ds @ unbracket (tl r)
         else c # unbracket s)"
  by pat_completeness auto
termination
  by (relation "measure length") (auto simp: span_of_def less_Suc_eq_le intro: le_trans [OF diff_le_self length_dropWhile_le])

definition path_segments :: "string \<Rightarrow> string list" where
  "path_segments path =
     (let s = replace_all ''[*]'' (CHR ''.'' # EVERY) path
      in filter (\<lambda>p. p \<noteq> []) (split_on CHR ''.'' (unbracket s)))"

text \<open>An own key of what a value is as an object; the indices of a list and of a text are its keys.\<close>

definition index_key :: "string \<Rightarrow> nat \<Rightarrow> nat option" where
  "index_key segment n =
     (if segment \<noteq> [] \<and> list_all is_digit segment \<and> show_nat (read_nat segment) = segment \<and> read_nat segment < n
      then Some (read_nat segment) else None)"

definition own_value :: "json \<Rightarrow> string \<Rightarrow> json option" where
  "own_value v segment =
     (case v of
        JObj ms \<Rightarrow> om_get ms segment
      | JArr xs \<Rightarrow>
          if segment = ''length'' then Some (JNum (num_of_int (int (length xs))))
          else map_option (\<lambda>i. xs ! i) (index_key segment (length xs))
      | JStr s \<Rightarrow>
          if segment = ''length'' then Some (JNum (num_of_int (int (length s))))
          else map_option (\<lambda>i. JStr [s ! i]) (index_key segment (length s))
      | _ \<Rightarrow> None)"

definition items_of :: "json \<Rightarrow> json list" where
  "items_of v = (case v of JArr xs \<Rightarrow> xs | JObj ms \<Rightarrow> map snd ms | _ \<Rightarrow> [])"

definition list_items :: "json \<Rightarrow> json list" where
  "list_items v = (case v of JArr xs \<Rightarrow> xs | _ \<Rightarrow> [v])"

fun walk :: "json option \<Rightarrow> string list \<Rightarrow> json option" where
  "walk current [] = current"
| "walk current (segment # rest) =
     (if current = None \<or> current = Some JNull then None
      else if segment = EVERY then
        Some (JArr (concat (map (\<lambda>item.
          (case walk (Some item) rest of
             None \<Rightarrow> []
           | Some found \<Rightarrow> if EVERY \<in> set rest then list_items found else [found])) (items_of (the current)))))
      else walk (own_value (the current) segment) rest)"

definition evaluate_path :: "json option \<Rightarrow> string \<Rightarrow> json option" where
  "evaluate_path v path = walk v (path_segments path)"

section \<open>The assertions\<close>

datatype test_source = FromAssertion | FromScript

record test_result =
  tr_label :: string
  tr_passed :: bool
  tr_actual :: "json option"
  tr_expected :: "string option"
  tr_error :: "string option"
  tr_source :: test_source

record assertion_response =
  ar_status :: nat
  ar_body :: "json option"
  ar_headers :: "(string \<times> string) list"
  ar_duration :: "decimal option"

definition parse_body :: "json option \<Rightarrow> json" where
  "parse_body body =
     (case body of
        None \<Rightarrow> JNull
      | Some (JStr s) \<Rightarrow> (case parse_json s of Some v \<Rightarrow> v | None \<Rightarrow> JStr s)
      | Some v \<Rightarrow> v)"

definition resolve_actual :: "assertion_target \<Rightarrow> string option \<Rightarrow> assertion_response \<Rightarrow> json option" where
  "resolve_actual target key response =
     (case target of
        OnStatus \<Rightarrow> Some (JNum (num_of_int (int (ar_status response))))
      | OnDuration \<Rightarrow> Some (JNum (case ar_duration response of None \<Rightarrow> num_of_int 0 | Some d \<Rightarrow> d))
      | OnHeader \<Rightarrow>
          (case key of
             None \<Rightarrow> None
           | Some k \<Rightarrow>
               if k = [] then None
               else map_option (\<lambda>(_, v). JStr v) (List.find (\<lambda>(n, _). to_lower n = to_lower k) (ar_headers response)))
      | OnBody \<Rightarrow>
          (case key of
             None \<Rightarrow> Some (parse_body (ar_body response))
           | Some k \<Rightarrow>
               if trim k = [] then Some (parse_body (ar_body response))
               else evaluate_path (Some (parse_body (ar_body response))) k))"

text \<open>
  What \<open>===\<close> is asked of, after both sides were coerced. Lists and objects are compared as
  objects, and the expected side is never one.
\<close>

datatype coerced = CNull | CBool bool | CNum js_num | CText string | CObject

definition coerce_text :: "string \<Rightarrow> coerced" where
  "coerce_text s =
     (if s = ''true'' then CBool True
      else if s = ''false'' then CBool False
      else if s = ''null'' then CNull
      else if number_of_text s \<noteq> NaN \<and> trim s \<noteq> [] then CNum (number_of_text s)
      else CText s)"

definition coerce :: "json option \<Rightarrow> coerced" where
  "coerce v =
     (case v of
        None \<Rightarrow> CNull
      | Some JNull \<Rightarrow> CNull
      | Some (JBool b) \<Rightarrow> CBool b
      | Some (JNum d) \<Rightarrow> CNum (Finite d)
      | Some (JStr s) \<Rightarrow> coerce_text s
      | Some _ \<Rightarrow> CObject)"

definition strict_equal :: "coerced \<Rightarrow> coerced \<Rightarrow> bool" where
  "strict_equal a b \<longleftrightarrow> a = b \<and> a \<noteq> CObject \<and> a \<noteq> CNum NaN"

text \<open>
  \<open>String(value)\<close> of an object asks its \<open>toString\<close>; a value of that name in the JSON is no
  function, and the language throws.
\<close>

fun no_text :: "json \<Rightarrow> bool" where
  "no_text (JObj ms) \<longleftrightarrow> om_get ms ''toString'' \<noteq> None"
| "no_text (JArr xs) \<longleftrightarrow> list_ex no_text xs"
| "no_text _ \<longleftrightarrow> False"

definition text_of :: "json option \<Rightarrow> string + string" where
  "text_of actual =
     (case actual of
        None \<Rightarrow> Inr []
      | Some JNull \<Rightarrow> Inr []
      | Some v \<Rightarrow> if no_text v then Inl ''Cannot convert object to primitive value'' else Inr (js_string v))"

definition compare_numbers :: "(js_num \<Rightarrow> js_num \<Rightarrow> bool) \<Rightarrow> json option \<Rightarrow> string option \<Rightarrow> bool" where
  "compare_numbers smaller actual expected \<longleftrightarrow>
     (case actual of
        Some (JNum d) \<Rightarrow> smaller (Finite d) (case expected of None \<Rightarrow> NaN | Some t \<Rightarrow> number_of_text t)
      | _ \<Rightarrow> False)"

fun apply_operator :: "assertion_operator \<Rightarrow> json option \<Rightarrow> string option \<Rightarrow> string + bool" where
  "apply_operator Equals actual expected = Inr (strict_equal (coerce actual) (coerce (map_option JStr expected)))"
| "apply_operator NotEquals actual expected = Inr (\<not> strict_equal (coerce actual) (coerce (map_option JStr expected)))"
| "apply_operator Contains actual expected =
     map_sum id (\<lambda>t. contains t (case expected of None \<Rightarrow> [] | Some e \<Rightarrow> e)) (text_of actual)"
| "apply_operator NotContains actual expected =
     map_sum id (\<lambda>t. \<not> contains t (case expected of None \<Rightarrow> [] | Some e \<Rightarrow> e)) (text_of actual)"
| "apply_operator Exists actual expected = Inr (actual \<noteq> None \<and> actual \<noteq> Some JNull)"
| "apply_operator NotExists actual expected = Inr (actual = None \<or> actual = Some JNull)"
| "apply_operator IsArray actual expected = Inr (case actual of Some (JArr _) \<Rightarrow> True | _ \<Rightarrow> False)"
| "apply_operator IsObject actual expected = Inr (case actual of Some (JObj _) \<Rightarrow> True | _ \<Rightarrow> False)"
| "apply_operator LessThan actual expected = Inr (compare_numbers num_lt actual expected)"
| "apply_operator GreaterThan actual expected = Inr (compare_numbers (\<lambda>a b. num_lt b a) actual expected)"

fun operator_label :: "assertion_operator \<Rightarrow> string" where
  "operator_label Equals = ''equals''"
| "operator_label NotEquals = ''does not equal''"
| "operator_label Contains = ''contains''"
| "operator_label NotContains = ''does not contain''"
| "operator_label Exists = ''exists''"
| "operator_label NotExists = ''does not exist''"
| "operator_label IsArray = ''is an array''"
| "operator_label IsObject = ''is an object''"
| "operator_label LessThan = ''is less than''"
| "operator_label GreaterThan = ''is greater than''"

definition label_of_target :: "assertion_target \<Rightarrow> string option \<Rightarrow> string" where
  "label_of_target target key =
     (let k = (case key of None \<Rightarrow> [] | Some k \<Rightarrow> k)
      in case target of
           OnStatus \<Rightarrow> ''Status code''
         | OnDuration \<Rightarrow> ''Duration (ms)''
         | OnHeader \<Rightarrow> if k = [] then ''Header'' else ''Header '' @ [CHR 0x22] @ k @ [CHR 0x22]
         | OnBody \<Rightarrow> if k = [] then ''Body'' else ''Body.'' @ k)"

definition build_label :: "test_assertion \<Rightarrow> string" where
  "build_label a =
     label_of_target (ta_target a) (ta_key a) @ '' '' @ operator_label (ta_operator a) @
     (case ta_expected a of None \<Rightarrow> [] | Some e \<Rightarrow> if e = [] then [] else '' '' @ e)"

definition evaluate_assertion :: "test_assertion \<Rightarrow> assertion_response \<Rightarrow> test_result" where
  "evaluate_assertion a response =
     (let actual = resolve_actual (ta_target a) (ta_key a) response
      in case apply_operator (ta_operator a) actual (ta_expected a) of
           Inr passed \<Rightarrow> \<lparr>tr_label = build_label a, tr_passed = passed, tr_actual = actual,
              tr_expected = ta_expected a, tr_error = None, tr_source = FromAssertion\<rparr>
         | Inl e \<Rightarrow> \<lparr>tr_label = build_label a, tr_passed = False, tr_actual = None,
              tr_expected = None, tr_error = Some e, tr_source = FromAssertion\<rparr>)"

definition run_assertions :: "test_assertion list \<Rightarrow> assertion_response \<Rightarrow> test_result list" where
  "run_assertions assertions response = map (\<lambda>a. evaluate_assertion a response) assertions"

section \<open>What a path finds\<close>

text \<open>Every place a path leads to, in order: each item at a \<open>[*]\<close>, the one own key elsewhere.\<close>

fun places :: "json \<Rightarrow> string list \<Rightarrow> json list" where
  "places v [] = [v]"
| "places v (segment # rest) =
     (if v = JNull then []
      else if segment = EVERY then concat (map (\<lambda>item. places item rest) (items_of v))
      else (case own_value v segment of None \<Rightarrow> [] | Some w \<Rightarrow> places w rest))"

text \<open>Where the first \<open>[*]\<close> of a path is taken; \<open>None\<close> when the path does not lead there.\<close>

definition star_at :: "json \<Rightarrow> string list \<Rightarrow> json option" where
  "star_at v segments =
     (case walk (Some v) (takeWhile (\<lambda>s. s \<noteq> EVERY) segments) of Some JNull \<Rightarrow> None | found \<Rightarrow> found)"

lemma walk_None [simp]: "walk None segments = None"
  by (cases segments) auto

lemma walk_one_place:
  "EVERY \<notin> set segments \<Longrightarrow> places v segments = (case walk (Some v) segments of None \<Rightarrow> [] | Some w \<Rightarrow> [w])"
  by (induction v segments rule: places.induct) (auto split: option.splits)

lemma walk_places:
  "EVERY \<in> set segments \<Longrightarrow>
   walk (Some v) segments = map_option (\<lambda>_. JArr (places v segments)) (star_at v segments) \<and>
   (star_at v segments = None \<longrightarrow> places v segments = [])"
proof (induction v segments rule: places.induct)
  case (2 v segment rest)
  show ?case
  proof (cases "v = JNull \<or> segment = EVERY")
    case True
    show ?thesis
    proof (cases "v = JNull")
      case True
      then show ?thesis by (auto simp: star_at_def)
    next
      case False
      with True have seg: "segment = EVERY" by simp
      have "(case walk (Some item) rest of None \<Rightarrow> []
           | Some found \<Rightarrow> if EVERY \<in> set rest then list_items found else [found]) = places item rest"
        if "item \<in> set (items_of v)" for item
      proof (cases "EVERY \<in> set rest")
        case True
        from 2(1) [OF False seg that True] True show ?thesis
          by (cases "star_at item rest") (auto simp: list_items_def)
      next
        case no: False
        then show ?thesis using walk_one_place [OF no, of item] by (simp split: option.splits)
      qed
      then have "map (\<lambda>item. case walk (Some item) rest of None \<Rightarrow> []
           | Some found \<Rightarrow> if EVERY \<in> set rest then list_items found else [found]) (items_of v) =
          map (\<lambda>item. places item rest) (items_of v)" by simp
      moreover have "star_at v (segment # rest) = Some v" using False seg by (cases v) (simp_all add: star_at_def)
      ultimately show ?thesis using False seg by (simp del: map_eq_conv)
    qed
  next
    case False
    then have star: "EVERY \<in> set rest" using 2(3) by auto
    show ?thesis
    proof (cases "own_value v segment")
      case None
      then show ?thesis using False by (simp add: star_at_def)
    next
      case (Some w)
      from 2(2) [OF _ _ Some star] False Some show ?thesis by (simp add: star_at_def)
    qed
  qed
qed simp

text \<open>
  C36: a path gives what it leads to: with no \<open>[*]\<close> the one place its keys lead to, or nothing;
  with \<open>[*]\<close>, nothing when the keys before the first one lead nowhere (or to \<open>null\<close>), and
  otherwise one flat list of every place the path leads to, in order, however many \<open>[*]\<close> it has.
\<close>

theorem path_finds_places:
  "evaluate_path (Some v) path =
     (let segments = path_segments path; found = places v segments
      in if EVERY \<notin> set segments then (case found of [] \<Rightarrow> None | w # _ \<Rightarrow> Some w)
         else if star_at v segments = None then None
         else Some (JArr found))"
proof (cases "EVERY \<in> set (path_segments path)")
  case True
  then show ?thesis using walk_places [OF True, of v] by (auto simp: evaluate_path_def Let_def)
next
  case False
  then show ?thesis using walk_one_place [OF False, of v]
    by (auto simp: evaluate_path_def Let_def split: option.splits)
qed

text \<open>A path as it is written: a key, an index, every item.\<close>

datatype path_step = KeyStep string | IndexStep nat | EveryStep

fun spell :: "path_step \<Rightarrow> string" where
  "spell (KeyStep k) = CHR ''.'' # k"
| "spell (IndexStep n) = CHR ''['' # show_nat n @ '']''"
| "spell EveryStep = ''[*]''"

fun step_segment :: "path_step \<Rightarrow> string" where
  "step_segment (KeyStep k) = k"
| "step_segment (IndexStep n) = show_nat n"
| "step_segment EveryStep = EVERY"

definition spellable :: "path_step \<Rightarrow> bool" where
  "spellable p \<longleftrightarrow> (case p of KeyStep k \<Rightarrow> k \<noteq> [] \<and> set k \<inter> {CHR ''.'', CHR ''[''} = {} | _ \<Rightarrow> True)"

lemma replace_star_plain:
  "CHR ''['' \<notin> set s \<Longrightarrow> replace_all ''[*]'' r (s @ t) = s @ replace_all ''[*]'' r t"
  by (induction s) (auto simp: starts_with_def)

lemma unbracket_plain: "CHR ''['' \<notin> set s \<Longrightarrow> unbracket (s @ t) = s @ unbracket t"
  by (induction s) (auto simp: span_of_def)

lemma show_nat_no_bracket: "c \<in> set (show_nat n) \<Longrightarrow> c \<noteq> CHR ''['' \<and> c \<noteq> CHR ''.'' \<and> c \<noteq> CHR '']''"
  using show_nat_digits [of n] by (auto simp: is_digit_def char_nat_def)

lemma digits_then_bracket: "takeWhile is_digit (show_nat n @ '']'' @ t) = show_nat n \<and>
    dropWhile is_digit (show_nat n @ '']'' @ t) = '']'' @ t"
  using show_nat_digits [of n] by (simp add: takeWhile_append dropWhile_append is_digit_def char_nat_def)

lemma unbracket_index: "unbracket (CHR ''['' # show_nat n @ CHR '']'' # t) = CHR ''.'' # show_nat n @ unbracket t"
  using digits_then_bracket [of n t] by (simp add: span_of_def)

lemma replace_star_index:
  "replace_all ''[*]'' r (CHR ''['' # show_nat n @ CHR '']'' # t) = CHR ''['' # show_nat n @ CHR '']'' # replace_all ''[*]'' r t"
proof -
  obtain d ds where d: "show_nat n = d # ds" by (cases "show_nat n") auto
  have "d \<noteq> CHR ''*''" using show_nat_digits [of n] d by (auto simp: is_digit_def char_nat_def)
  then have "\<not> starts_with (CHR ''['' # show_nat n @ CHR '']'' # t) ''[*]''" using d by (simp add: starts_with_def)
  moreover have "CHR ''['' \<notin> set (show_nat n @ '']'')" using show_nat_no_bracket by auto
  ultimately show ?thesis using replace_star_plain [of "show_nat n @ '']''" r t] by simp
qed

text \<open>Each step leaves a dot and its segment; the star's is not a text a key can be.\<close>

lemma spelled_steps:
  "list_all spellable steps \<Longrightarrow>
   unbracket (replace_all ''[*]'' (CHR ''.'' # EVERY) (concat (map spell steps))) =
     concat (map (\<lambda>p. CHR ''.'' # step_segment p) steps)"
proof (induction steps)
  case (Cons p ps)
  then show ?case
  proof (cases p)
    case (KeyStep k)
    with Cons.prems have "CHR ''['' \<notin> set (CHR ''.'' # k)" by (auto simp: spellable_def)
    with Cons KeyStep show ?thesis
      using replace_star_plain [of "CHR ''.'' # k"] unbracket_plain [of "CHR ''.'' # k"] by simp
  next
    case (IndexStep n)
    with Cons show ?thesis by (simp add: replace_star_index unbracket_index del: replace_all.simps unbracket.simps)
  next
    case EveryStep
    have "CHR ''['' \<notin> set (CHR ''.'' # EVERY)" by (simp add: EVERY_def)
    with Cons EveryStep show ?thesis using unbracket_plain [of "CHR ''.'' # EVERY"]
      by (simp add: starts_with_def)
  qed
qed (simp add: EVERY_def)

lemma split_dotted:
  "\<forall>s \<in> set ss. CHR ''.'' \<notin> set s \<Longrightarrow> split_on CHR ''.'' (concat (map (\<lambda>s. CHR ''.'' # s) ss)) = [] # ss"
proof (induction ss)
  case (Cons s ss)
  show ?case
  proof (cases ss)
    case Nil
    with Cons.prems show ?thesis by (simp add: split_on_none)
  next
    case (Cons t ts)
    have "split_on CHR ''.'' (s @ CHR ''.'' # (t @ concat (map (\<lambda>s. CHR ''.'' # s) ts))) =
        s # split_on CHR ''.'' (t @ concat (map (\<lambda>s. CHR ''.'' # s) ts))"
      using Cons.prems by (intro split_on_append) simp
    with Cons.IH Cons.prems local.Cons show ?thesis by auto
  qed
qed simp

lemma spellable_segment: "spellable p \<Longrightarrow> CHR ''.'' \<notin> set (step_segment p) \<and> step_segment p \<noteq> []"
  using show_nat_no_bracket by (cases p) (auto simp: spellable_def EVERY_def)

lemma path_segments_spell:
  assumes "list_all spellable steps"
  shows "path_segments (concat (map spell steps)) = map step_segment steps"
proof -
  have plain: "\<forall>s \<in> set (map step_segment steps). CHR ''.'' \<notin> set s \<and> s \<noteq> []"
    using assms spellable_segment by (auto simp: list_all_iff)
  have "concat (map (\<lambda>p. CHR ''.'' # step_segment p) steps) = concat (map (\<lambda>s. CHR ''.'' # s) (map step_segment steps))"
    by (simp add: comp_def)
  then have "path_segments (concat (map spell steps)) = filter (\<lambda>p. p \<noteq> []) ([] # map step_segment steps)"
    unfolding path_segments_def spelled_steps [OF assms] Let_def using split_dotted [of "map step_segment steps"] plain
    by simp
  also have "\<dots> = map step_segment steps" using plain by (simp add: filter_id_conv)
  finally show ?thesis .
qed

text \<open>
  A path is read as it is written: steps written as \<open>.key\<close>, \<open>[0]\<close> and \<open>[*]\<close> lead where
  those keys, indices and stars lead.
\<close>

theorem path_spelled:
  assumes "list_all spellable steps"
  shows "evaluate_path v (concat (map spell steps)) = walk v (map step_segment steps)"
  using path_segments_spell [OF assms] by (simp add: evaluate_path_def)

lemma path_spelled_witness:
  "evaluate_path (Some (JObj [(''a'', JArr [JObj [(''b'', JBool True)], JNull])])) ''.a[*].b'' = Some (JArr [JBool True]) \<and>
   evaluate_path (Some (JObj [(''a'', JArr [JObj [(''b'', JBool True)], JNull])])) ''.a[0].b'' = Some (JBool True)"
proof -
  have star: "evaluate_path v ''.a[*].b'' = walk v [''a'', EVERY, ''b'']" for v
    using path_spelled [of "[KeyStep ''a'', EveryStep, KeyStep ''b'']" v] by (simp add: spellable_def del: walk.simps)
  have "show_nat 0 = ''0''" by code_simp
  then have zero: "evaluate_path v ''.a[0].b'' = walk v [''a'', ''0'', ''b'']" for v
    using path_spelled [of "[KeyStep ''a'', IndexStep 0, KeyStep ''b'']" v] by (simp add: spellable_def del: walk.simps)
  show ?thesis unfolding star zero by code_simp
qed

section \<open>What the assertions say\<close>

fun opposite :: "assertion_operator \<Rightarrow> assertion_operator option" where
  "opposite Equals = Some NotEquals"
| "opposite NotEquals = Some Equals"
| "opposite Contains = Some NotContains"
| "opposite NotContains = Some Contains"
| "opposite Exists = Some NotExists"
| "opposite NotExists = Some Exists"
| "opposite _ = None"

text \<open>
  Of an assertion and the one with the opposite operator exactly one passes, unless the value
  has no text, and then neither does: both say so as an error. No other assertion ends in an error.
\<close>

theorem assertion_or_opposite:
  assumes "opposite (ta_operator a) = Some op"
  shows "let r = evaluate_assertion a response; r' = evaluate_assertion (a\<lparr>ta_operator := op\<rparr>) response;
      found = resolve_actual (ta_target a) (ta_key a) response
    in if ta_operator a \<in> {Contains, NotContains} \<and> (\<exists>v. found = Some v \<and> no_text v)
       then tr_error r \<noteq> None \<and> tr_error r' = tr_error r \<and> \<not> tr_passed r \<and> \<not> tr_passed r'
       else tr_error r = None \<and> tr_error r' = None \<and> tr_passed r \<noteq> tr_passed r'"
proof -
  have t: "text_of found = (if \<exists>v. found = Some v \<and> no_text v then Inl ''Cannot convert object to primitive value''
      else Inr (case found of None \<Rightarrow> [] | Some JNull \<Rightarrow> [] | Some v \<Rightarrow> js_string v))" for found
    by (auto simp: text_of_def split: option.splits json.splits)
  show ?thesis using assms
    by (cases "ta_operator a") (auto simp: evaluate_assertion_def Let_def t)
qed

lemma assertion_or_opposite_witness:
  "(let a = \<lparr>ta_id = [], ta_target = OnBody, ta_key = Some ''n'', ta_operator = Equals, ta_expected = Some ''5''\<rparr>;
        response = \<lparr>ar_status = 200, ar_body = Some (JStr (CHR ''{'' # CHR 0x22 # CHR ''n'' # CHR 0x22 # '': 5.0}'')), ar_headers = [], ar_duration = None\<rparr>
    in tr_passed (evaluate_assertion a response) \<and> \<not> tr_passed (evaluate_assertion (a\<lparr>ta_operator := NotEquals\<rparr>) response))"
proof -
  let ?a = "\<lparr>ta_id = [], ta_target = OnBody, ta_key = Some ''n'', ta_operator = Equals, ta_expected = Some ''5''\<rparr>"
  let ?r = "\<lparr>ar_status = 200, ar_body = Some (JStr (CHR ''{'' # CHR 0x22 # CHR ''n'' # CHR 0x22 # '': 5.0}'')), ar_headers = [], ar_duration = None\<rparr>"
  have passed: "tr_passed (evaluate_assertion ?a ?r)" by code_simp
  from assertion_or_opposite [of ?a NotEquals ?r] passed show ?thesis by (simp add: Let_def)
qed

text \<open>
  \<open>equals\<close> compares values, not spellings: a body's number equals the expected text exactly
  when the text reads as that number, and a body's text that reads as a number is compared the
  same way; \<open>null\<close>, what is missing and the text \<open>null\<close> are one.
\<close>

theorem equals_compares_values:
  "apply_operator Equals (Some (JNum d)) (Some t) = Inr (number_of_text t = Finite d \<and> trim t \<noteq> [])"
  "apply_operator Equals None (Some t) = Inr (t = ''null'')"
  "apply_operator Equals (Some (JBool b)) (Some t) = Inr (t = (if b then ''true'' else ''false''))"
  "apply_operator Equals (Some (JStr s)) (Some t) =
     Inr (s = t \<or> number_of_text s \<noteq> NaN \<and> number_of_text s = number_of_text t \<and> trim s \<noteq> [] \<and> trim t \<noteq> [])"
proof -
  have words: "number_of_text ''true'' = NaN" "number_of_text ''false'' = NaN" "number_of_text ''null'' = NaN"
    by code_simp+
  show "apply_operator Equals (Some (JNum d)) (Some t) = Inr (number_of_text t = Finite d \<and> trim t \<noteq> [])"
    using words by (auto simp: strict_equal_def coerce_def coerce_text_def)
  show "apply_operator Equals None (Some t) = Inr (t = ''null'')"
    by (auto simp: strict_equal_def coerce_def coerce_text_def)
  show "apply_operator Equals (Some (JBool b)) (Some t) = Inr (t = (if b then ''true'' else ''false''))"
    by (auto simp: strict_equal_def coerce_def coerce_text_def)
  show "apply_operator Equals (Some (JStr s)) (Some t) =
     Inr (s = t \<or> number_of_text s \<noteq> NaN \<and> number_of_text s = number_of_text t \<and> trim s \<noteq> [] \<and> trim t \<noteq> [])"
    using words by (auto simp: strict_equal_def coerce_def coerce_text_def)
qed

end
