(* ===== verification/Cookies.thy ===== *)
theory Cookies
  imports Platform Encoding JsValues
begin

text \<open>
  The cookie jar: \<open>packages/core/src/cookies/jar.ts\<close>. Times are whole milliseconds. \<open>URL.parse\<close> and
  \<open>Date.parse\<close> are parameters; of a date \<open>None\<close> is one that is not finite. The jar is a list in
  the order the cookies were set; a cookie that is found in it is the first of its name, domain and
  path, which is the object the source compares by identity.
\<close>

section \<open>A cookie\<close>

datatype same_site = Strict | Lax | SameSiteNone

record cookie =
  ck_name :: string
  ck_value :: string
  ck_domain :: string
  ck_host_only :: bool
  ck_path :: string
  ck_secure :: bool
  ck_http_only :: bool
  ck_same_site :: "same_site option"
  ck_expires :: "int option"
  ck_created :: int

definition MAX_COOKIE_BYTES :: nat where
  "MAX_COOKIE_BYTES = 4096"

definition MAX_COOKIES :: nat where
  "MAX_COOKIES = 1000"

text \<open>\<open>/^\d{1,3}(\.\d{1,3}){3}$/\<close>, or an address in brackets.\<close>

definition is_ip :: "string \<Rightarrow> bool" where
  "is_ip host \<longleftrightarrow>
     (let parts = split_on CHR ''.'' host
      in length parts = 4 \<and> list_all (\<lambda>p. 1 \<le> length p \<and> length p \<le> 3 \<and> list_all is_digit p) parts) \<or>
     starts_with host ''[''"

definition http_url :: "(string \<Rightarrow> url option) \<Rightarrow> string \<Rightarrow> url option" where
  "http_url parse url =
     (case parse url of
        None \<Rightarrow> None
      | Some u \<Rightarrow> if u_protocol u = ''http:'' \<or> u_protocol u = ''https:'' then Some u else None)"

definition domain_matches :: "string \<Rightarrow> string \<Rightarrow> bool" where
  "domain_matches host domain \<longleftrightarrow> host = domain \<or> \<not> is_ip host \<and> ends_with host (CHR ''.'' # domain)"

text \<open>Up to the last slash; \<open>None\<close> of the last index is -1.\<close>

definition default_path :: "string \<Rightarrow> string" where
  "default_path pathname =
     (let before = rev (dropWhile (\<lambda>c. c \<noteq> CHR ''/'') (rev pathname))
      in if 1 < length before then butlast before else ''/'')"

definition path_matches :: "string \<Rightarrow> string \<Rightarrow> bool" where
  "path_matches request_path cookie_path \<longleftrightarrow>
     request_path = cookie_path \<or>
     starts_with request_path cookie_path \<and>
       (ends_with cookie_path ''/'' \<or>
        length cookie_path < length request_path \<and> request_path ! length cookie_path = CHR ''/'')"

section \<open>Reading Set-Cookie\<close>

definition is_control :: "char \<Rightarrow> bool" where
  "is_control c \<longleftrightarrow> char_nat c < 32 \<or> char_nat c = 127"

text \<open>A text before and after its first equals sign; what there is before when there is none.\<close>

definition before_equals :: "string \<Rightarrow> string" where
  "before_equals s = takeWhile (\<lambda>c. c \<noteq> CHR ''='') s"

definition after_equals :: "string \<Rightarrow> string" where
  "after_equals s = (if CHR ''='' \<in> set s then tl (dropWhile (\<lambda>c. c \<noteq> CHR ''='') s) else [])"

definition attribute_key :: "string \<Rightarrow> string" where
  "attribute_key attribute = to_lower (trim (before_equals attribute))"

definition attribute_text :: "string \<Rightarrow> string" where
  "attribute_text attribute = trim (after_equals attribute)"

definition whole_number :: "string \<Rightarrow> int option" where
  "whole_number t =
     (let neg = starts_with t ''-''; ds = (if neg then tl t else t)
      in if ds \<noteq> [] \<and> list_all is_digit ds then Some (if neg then - int (read_nat ds) else int (read_nat ds)) else None)"

definition same_site_of :: "string \<Rightarrow> same_site option" where
  "same_site_of t =
     (let l = to_lower t
      in if l = ''strict'' then Some Strict else if l = ''lax'' then Some Lax
         else if l = ''none'' then Some SameSiteNone else None)"

text \<open>A \<open>Domain\<close> for a host: what the cookie's domain is then, or no cookie.\<close>

definition set_domain :: "string \<Rightarrow> string \<Rightarrow> cookie \<Rightarrow> cookie option" where
  "set_domain host t c =
     (let domain = to_lower (if starts_with t ''.'' then tl t else t);
          wide = CHR ''.'' \<in> set domain \<and> \<not> is_ip domain
      in if \<not> domain_matches host domain then None
         else if \<not> wide \<and> domain \<noteq> host then None
         else Some (c\<lparr>ck_domain := domain, ck_host_only := \<not> wide\<rparr>))"

text \<open>One attribute; the second of the pair is \<open>maxAge\<close>.\<close>

definition cookie_attribute ::
    "(string \<Rightarrow> int option) \<Rightarrow> string \<Rightarrow> string \<Rightarrow> cookie \<times> int option \<Rightarrow> (cookie \<times> int option) option" where
  "cookie_attribute date host attribute cm =
     (let key = attribute_key attribute; t = attribute_text attribute; (c, max_age) = cm
      in if key = ''secure'' then Some (c\<lparr>ck_secure := True\<rparr>, max_age)
         else if key = ''httponly'' then Some (c\<lparr>ck_http_only := True\<rparr>, max_age)
         else if key = ''path'' \<and> starts_with t ''/'' then Some (c\<lparr>ck_path := t\<rparr>, max_age)
         else if key = ''samesite'' \<and> same_site_of t \<noteq> None then Some (c\<lparr>ck_same_site := same_site_of t\<rparr>, max_age)
         else if key = ''max-age'' \<and> whole_number t \<noteq> None then Some (c, whole_number t)
         else if key = ''expires'' \<and> date t \<noteq> None then Some (c\<lparr>ck_expires := date t\<rparr>, max_age)
         else if key = ''domain'' \<and> t \<noteq> [] then map_option (\<lambda>c'. (c', max_age)) (set_domain host t c)
         else Some (c, max_age))"

fun cookie_attributes ::
    "(string \<Rightarrow> int option) \<Rightarrow> string \<Rightarrow> string list \<Rightarrow> cookie \<times> int option \<Rightarrow> (cookie \<times> int option) option" where
  "cookie_attributes date host [] cm = Some cm"
| "cookie_attributes date host (a # as) cm =
     (case cookie_attribute date host a cm of
        None \<Rightarrow> None
      | Some cm' \<Rightarrow> cookie_attributes date host as cm')"

definition may_keep :: "url \<Rightarrow> cookie \<Rightarrow> bool" where
  "may_keep u c \<longleftrightarrow>
     \<not> (ck_secure c \<and> u_protocol u \<noteq> ''https:'') \<and>
     \<not> (starts_with (ck_name c) ''__Secure-'' \<and> \<not> ck_secure c) \<and>
     \<not> (starts_with (ck_name c) ''__Host-'' \<and> \<not> (ck_secure c \<and> ck_host_only c \<and> ck_path c = ''/''))"

definition parse_set_cookie ::
    "(string \<Rightarrow> url option) \<Rightarrow> (string \<Rightarrow> int option) \<Rightarrow> string \<Rightarrow> string \<Rightarrow> int \<Rightarrow> cookie option" where
  "parse_set_cookie parse date header url now =
     (case http_url parse url of
        None \<Rightarrow> None
      | Some u \<Rightarrow>
          (let pair = hd (split_on CHR '';'' header); attributes = tl (split_on CHR '';'' header);
               name = trim (before_equals pair); val = trim (after_equals pair);
               host = to_lower (u_hostname u)
           in if CHR ''='' \<notin> set pair \<or> before_equals pair = [] \<or> name = [] \<or> list_ex is_control pair \<or>
                 MAX_COOKIE_BYTES < byte_length (name @ val) then None
              else
                (case cookie_attributes date host attributes
                   (\<lparr>ck_name = name, ck_value = val, ck_domain = host, ck_host_only = True,
                     ck_path = default_path (u_path u), ck_secure = False, ck_http_only = False,
                     ck_same_site = None, ck_expires = None, ck_created = now\<rparr>, None) of
                   None \<Rightarrow> None
                 | Some (c, max_age) \<Rightarrow>
                     (let c' = (case max_age of
                            None \<Rightarrow> c
                          | Some n \<Rightarrow> c\<lparr>ck_expires := Some (if n \<le> 0 then 0 else now + n * 1000)\<rparr>)
                      in if may_keep u c' then Some c' else None))))"

section \<open>The jar\<close>

type_synonym cookie_key = "string \<times> string \<times> string"

definition cookie_key :: "cookie \<Rightarrow> cookie_key" where
  "cookie_key c = (ck_name c, ck_domain c, ck_path c)"

definition expired :: "cookie \<Rightarrow> int \<Rightarrow> bool" where
  "expired c now \<longleftrightarrow> (case ck_expires c of None \<Rightarrow> False | Some e \<Rightarrow> e \<le> now)"

fun without_same :: "cookie \<Rightarrow> cookie list \<Rightarrow> cookie list" where
  "without_same c [] = []"
| "without_same c (held # jar) = (if cookie_key held = cookie_key c then jar else held # without_same c jar)"

fun in_place :: "cookie \<Rightarrow> cookie list \<Rightarrow> cookie list" where
  "in_place c [] = [c]"
| "in_place c (held # jar) =
     (if cookie_key held = cookie_key c then c\<lparr>ck_created := ck_created held\<rparr> # jar else held # in_place c jar)"

definition store_cookie :: "cookie list \<Rightarrow> cookie \<Rightarrow> int \<Rightarrow> cookie list" where
  "store_cookie jar c now =
     (if expired c now then without_same c jar
      else
        (let nxt = in_place c jar
         in if MAX_COOKIES < length nxt
            then drop (length nxt - MAX_COOKIES) (sort_by (\<lambda>a b. ck_created a \<le> ck_created b) nxt)
            else nxt))"

definition goes_to :: "url \<Rightarrow> int \<Rightarrow> cookie \<Rightarrow> bool" where
  "goes_to u now c \<longleftrightarrow>
     \<not> expired c now \<and>
     (if ck_host_only c then to_lower (u_hostname u) = ck_domain c
      else domain_matches (to_lower (u_hostname u)) (ck_domain c)) \<and>
     path_matches (u_path u) (ck_path c) \<and>
     (\<not> ck_secure c \<or> u_protocol u = ''https:'')"

definition sent_before :: "cookie \<Rightarrow> cookie \<Rightarrow> bool" where
  "sent_before a b \<longleftrightarrow>
     length (ck_path b) < length (ck_path a) \<or>
     length (ck_path a) = length (ck_path b) \<and> ck_created a \<le> ck_created b"

definition cookies_for :: "(string \<Rightarrow> url option) \<Rightarrow> cookie list \<Rightarrow> string \<Rightarrow> int \<Rightarrow> cookie list" where
  "cookies_for parse jar url now =
     (case http_url parse url of
        None \<Rightarrow> []
      | Some u \<Rightarrow> sort_by sent_before (filter (goes_to u now) jar))"

definition cookie_header :: "cookie list \<Rightarrow> string" where
  "cookie_header cookies = join ''; '' (map (\<lambda>c. ck_name c @ ''='' @ ck_value c) cookies)"

definition own_cookie_names :: "string \<Rightarrow> string list" where
  "own_cookie_names header = map (\<lambda>pair. trim (before_equals pair)) (split_on CHR '';'' header)"

fun add_to_cookie_header :: "(string \<times> string) list \<Rightarrow> cookie list \<Rightarrow> (string \<times> string) list" where
  "add_to_cookie_header [] cookies = []"
| "add_to_cookie_header ((n, v) # hs) cookies =
     (if to_lower n = ''cookie'' then
        (let added = filter (\<lambda>c. ck_name c \<notin> set (own_cookie_names v)) cookies
         in if added = [] then (n, v) # hs else (n, v @ ''; '' @ cookie_header added) # hs)
      else (n, v) # add_to_cookie_header hs cookies)"

definition with_jar_cookies :: "(string \<times> string) list \<Rightarrow> cookie list \<Rightarrow> (string \<times> string) list" where
  "with_jar_cookies headers cookies =
     (if list_ex (\<lambda>(n, _). to_lower n = ''cookie'') headers then add_to_cookie_header headers cookies
      else if cookies \<noteq> [] then headers @ [(''Cookie'', cookie_header cookies)]
      else headers)"

section \<open>Lemmas\<close>

interpretation sent_order: total_comparison sent_before
  by unfold_locales (auto simp: sent_before_def)

definition kept_well :: "string \<Rightarrow> cookie \<Rightarrow> bool" where
  "kept_well host c \<longleftrightarrow>
     (if ck_host_only c then ck_domain c = host
      else domain_matches host (ck_domain c) \<and> CHR ''.'' \<in> set (ck_domain c) \<and> \<not> is_ip (ck_domain c)) \<and>
     (\<exists>p. ck_path c = CHR ''/'' # p)"

lemma starts_slash: "starts_with t ''/'' \<longleftrightarrow> (\<exists>p. t = CHR ''/'' # p)"
  by (cases t) auto

lemma attribute_keeps_name:
  "cookie_attribute date host a (c, m) = Some (c', m') \<Longrightarrow>
   ck_name c' = ck_name c \<and> ck_value c' = ck_value c \<and> ck_created c' = ck_created c"
  by (auto simp: cookie_attribute_def Let_def set_domain_def split: if_splits)

lemma attributes_keep_names:
  "cookie_attributes date host as (c, m) = Some (c', m') \<Longrightarrow>
   ck_name c' = ck_name c \<and> ck_value c' = ck_value c \<and> ck_created c' = ck_created c"
  by (induction as arbitrary: c m) (auto split: option.splits dest!: attribute_keeps_name)

lemma kept_well_attribute:
  "cookie_attribute date host a (c, m) = Some (c', m') \<Longrightarrow> kept_well host c \<Longrightarrow> kept_well host c'"
  by (auto simp: cookie_attribute_def Let_def kept_well_def set_domain_def starts_slash split: if_splits)

lemma kept_well_attributes:
  "cookie_attributes date host as (c, m) = Some (c', m') \<Longrightarrow> kept_well host c \<Longrightarrow> kept_well host c'"
  by (induction as arbitrary: c m) (auto split: option.splits dest: kept_well_attribute)

lemma default_path_slash:
  assumes "pathname = CHR ''/'' # p"
  shows "\<exists>q. default_path pathname = CHR ''/'' # q"
proof -
  let ?b = "rev (dropWhile (\<lambda>c. c \<noteq> CHR ''/'') (rev pathname))"
  have b: "prefix ?b pathname" by (metis rev_rev_ident suffix_dropWhile suffix_to_prefix)
  show ?thesis
  proof (cases "1 < length ?b")
    case True
    then obtain c d q where "?b = c # d # q" by (cases ?b; cases "tl ?b") auto
    with b assms True show ?thesis by (auto simp: default_path_def)
  qed (simp add: default_path_def)
qed

lemma parse_set_cookie_cases:
  assumes "parse_set_cookie parse date header url now = Some c"
  obtains u where "http_url parse url = Some u" "may_keep u c"
    "(\<exists>p. u_path u = CHR ''/'' # p) \<Longrightarrow> kept_well (to_lower (u_hostname u)) c"
    "ck_name c \<noteq> []" "byte_length (ck_name c @ ck_value c) \<le> MAX_COOKIE_BYTES" "ck_created c = now"
    "ck_name c = trim (before_equals (hd (split_on CHR '';'' header)))" "ck_value c = trim (after_equals (hd (split_on CHR '';'' header)))"
    "\<not> list_ex is_control (hd (split_on CHR '';'' header))"
proof -
  obtain u where u: "http_url parse url = Some u"
    using assms by (auto simp: parse_set_cookie_def split: option.splits)
  let ?pair = "hd (split_on CHR '';'' header)"
  define c0 where "c0 = \<lparr>ck_name = trim (before_equals ?pair), ck_value = trim (after_equals ?pair), ck_domain = to_lower (u_hostname u),
    ck_host_only = True, ck_path = default_path (u_path u), ck_secure = False, ck_http_only = False,
    ck_same_site = None, ck_expires = None, ck_created = now\<rparr>"
  have guards: "ck_name c0 \<noteq> []" "\<not> MAX_COOKIE_BYTES < byte_length (ck_name c0 @ ck_value c0)" "\<not> list_ex is_control ?pair"
    using assms u by (auto simp: parse_set_cookie_def c0_def Let_def split: if_splits)
  obtain c1 m where run: "cookie_attributes date (to_lower (u_hostname u)) (tl (split_on CHR '';'' header)) (c0, None) = Some (c1, m)"
    "may_keep u c" "c = (case m of None \<Rightarrow> c1 | Some n \<Rightarrow> c1\<lparr>ck_expires := Some (if n \<le> 0 then 0 else now + n * 1000)\<rparr>)"
    using assms u unfolding c0_def by (auto simp: parse_set_cookie_def Let_def split: if_splits option.splits)
  have same: "ck_name c = ck_name c1" "ck_value c = ck_value c1" "ck_created c = ck_created c1"
    "kept_well h c = kept_well h c1" for h
    using run(3) by (auto simp: kept_well_def split: option.splits)
  have well: "kept_well (to_lower (u_hostname u)) c" if "\<exists>p. u_path u = CHR ''/'' # p"
  proof -
    have "kept_well (to_lower (u_hostname u)) c0" using that default_path_slash by (auto simp: kept_well_def c0_def)
    with kept_well_attributes [OF run(1)] same show ?thesis by simp
  qed
  from attributes_keep_names [OF run(1)] guards same show ?thesis
    by (intro that [OF u run(2) well]) (auto simp: c0_def)
qed

section \<open>Properties\<close>

text \<open>
  C31: a cookie never leaves the site that set it: one that was set in a response of one address
  and goes with a request to another has the two on one host, or both under one domain that has a
  dot in it and is no IP address; a secure one was set over TLS and goes over TLS; and the path it
  goes to lies under the cookie's.
\<close>

theorem cookie_stays_on_site:
  assumes "parse_set_cookie parse date header from_url t = Some c"
    and "c \<in> set (cookies_for parse jar to_url now)"
    and "\<And>u. parse from_url = Some u \<Longrightarrow> \<exists>p. u_path u = CHR ''/'' # p"
  shows "\<exists>u v. http_url parse from_url = Some u \<and> http_url parse to_url = Some v \<and>
    (to_lower (u_hostname u) = to_lower (u_hostname v) \<or>
     CHR ''.'' \<in> set (ck_domain c) \<and> \<not> is_ip (ck_domain c) \<and>
     domain_matches (to_lower (u_hostname u)) (ck_domain c) \<and> domain_matches (to_lower (u_hostname v)) (ck_domain c)) \<and>
    (ck_secure c \<longrightarrow> u_protocol u = ''https:'' \<and> u_protocol v = ''https:'') \<and>
    path_matches (u_path v) (ck_path c) \<and> \<not> expired c now"
proof -
  from parse_set_cookie_cases [OF assms(1)] obtain u where u: "http_url parse from_url = Some u" "may_keep u c"
    "(\<exists>p. u_path u = CHR ''/'' # p) \<Longrightarrow> kept_well (to_lower (u_hostname u)) c" by metis
  have "parse from_url = Some u" using u(1) by (auto simp: http_url_def split: option.splits if_splits)
  with u(3) assms(3) have well: "kept_well (to_lower (u_hostname u)) c" by blast
  obtain v where v: "http_url parse to_url = Some v" "goes_to v now c"
    using assms(2) by (cases "http_url parse to_url") (auto simp: cookies_for_def)
  show ?thesis using u(1,2) v well
    by (intro exI [of _ u] exI [of _ v]) (auto simp: goes_to_def kept_well_def may_keep_def split: if_splits)
qed

definition example_url :: "string \<Rightarrow> url option" where
  "example_url s =
     (if s \<in> {''https://api.a.io/v1/x'', ''https://www.a.io/v1''}
      then Some \<lparr>u_protocol = ''https:'', u_login = [],
        u_hostname = (if s = ''https://www.a.io/v1'' then ''www.a.io'' else ''api.a.io''), u_port = [],
        u_path = (if s = ''https://www.a.io/v1'' then ''/v1'' else ''/v1/x''), u_search = [], u_hash = [], u_pairs = []\<rparr>
      else None)"

definition example_cookie :: cookie where
  "example_cookie = \<lparr>ck_name = ''sid'', ck_value = ''1'', ck_domain = ''a.io'', ck_host_only = False, ck_path = ''/v1'',
     ck_secure = True, ck_http_only = False, ck_same_site = Some Lax, ck_expires = Some 5005, ck_created = 5\<rparr>"

lemma example_cookie_set:
  "parse_set_cookie example_url (\<lambda>_. None) ''sid=1; Domain=.A.io; Secure; SameSite=Lax; Max-Age=5'' ''https://api.a.io/v1/x'' 5 =
     Some example_cookie"
  by code_simp

lemma cookie_stays_on_site_witness:
  "\<exists>u v. http_url example_url ''https://api.a.io/v1/x'' = Some u \<and> http_url example_url ''https://www.a.io/v1'' = Some v \<and>
     u_protocol u = ''https:'' \<and> u_protocol v = ''https:''"
proof -
  have sent: "example_cookie \<in> set (cookies_for example_url [example_cookie] ''https://www.a.io/v1'' 6)" by code_simp
  have slash: "\<exists>p. u_path u = CHR ''/'' # p" if "example_url ''https://api.a.io/v1/x'' = Some u" for u
    using that by (auto simp: example_url_def)
  have secure: "ck_secure example_cookie" by (simp add: example_cookie_def)
  from cookie_stays_on_site [OF example_cookie_set sent slash] secure show ?thesis by blast
qed

text \<open>
  A cookie that is kept has a name, no control character in name or value, together at most
  4096 bytes, and keeps the promise of its prefix: \<open>__Secure-\<close> only over TLS, \<open>__Host-\<close> only over
  TLS, for the host alone and the whole of it.
\<close>

theorem kept_cookie_is_sound:
  assumes "parse_set_cookie parse date header url now = Some c"
  shows "ck_name c \<noteq> [] \<and> byte_length (ck_name c @ ck_value c) \<le> 4096 \<and>
    \<not> list_ex is_control (ck_name c @ ck_value c) \<and>
    (\<exists>u. http_url parse url = Some u \<and>
      (starts_with (ck_name c) ''__Secure-'' \<longrightarrow> ck_secure c \<and> u_protocol u = ''https:'') \<and>
      (starts_with (ck_name c) ''__Host-'' \<longrightarrow> ck_secure c \<and> u_protocol u = ''https:'' \<and> ck_host_only c \<and> ck_path c = ''/''))"
proof -
  from parse_set_cookie_cases [OF assms] obtain u where u: "http_url parse url = Some u" "may_keep u c"
    "ck_name c \<noteq> []" "byte_length (ck_name c @ ck_value c) \<le> MAX_COOKIE_BYTES"
    "ck_name c = trim (before_equals (hd (split_on CHR '';'' header)))" "ck_value c = trim (after_equals (hd (split_on CHR '';'' header)))"
    "\<not> list_ex is_control (hd (split_on CHR '';'' header))" by metis
  have "set (before_equals s) \<subseteq> set s" for s by (auto simp: before_equals_def dest: set_takeWhileD)
  moreover have "set (after_equals s) \<subseteq> set s" for s
    using set_mono_suffix [OF suffix_tl] set_mono_suffix [OF suffix_dropWhile] by (fastforce simp: after_equals_def)
  ultimately have "set (ck_name c @ ck_value c) \<subseteq> set (hd (split_on CHR '';'' header))"
    using u(5,6) trim_set by (metis (no_types, lifting) Un_least order_trans set_append)
  then have "\<not> list_ex is_control (ck_name c @ ck_value c)" using u(7) by (auto simp: list_ex_iff)
  with u show ?thesis by (auto simp: MAX_COOKIE_BYTES_def may_keep_def)
qed

lemma kept_cookie_is_sound_witness: "ck_name example_cookie \<noteq> [] \<and> byte_length (ck_name example_cookie @ ck_value example_cookie) \<le> 4096"
  using kept_cookie_is_sound [OF example_cookie_set] by blast

text \<open>What a jar is: of each name, domain and path, the cookie of it.\<close>

definition jar_map :: "cookie list \<Rightarrow> cookie_key \<Rightarrow> cookie option" where
  "jar_map jar k = List.find (\<lambda>c. cookie_key c = k) jar"

definition jar_ok :: "cookie list \<Rightarrow> bool" where
  "jar_ok jar \<longleftrightarrow> distinct (map cookie_key jar) \<and> length jar \<le> MAX_COOKIES"

lemma cookie_key_created [simp]: "cookie_key (c\<lparr>ck_created := t\<rparr>) = cookie_key c"
  by (simp add: cookie_key_def)

lemma keys_in_place: "map cookie_key (in_place c jar) =
    (if cookie_key c \<in> set (map cookie_key jar) then map cookie_key jar else map cookie_key jar @ [cookie_key c])"
  by (induction c jar rule: in_place.induct) auto

lemma length_in_place: "length (in_place c jar) = (if cookie_key c \<in> set (map cookie_key jar) then length jar else Suc (length jar))"
  by (induction c jar rule: in_place.induct) auto

lemma jar_map_in_place: "jar_map (in_place c jar) k =
    (if k = cookie_key c then Some (case jar_map jar k of None \<Rightarrow> c | Some held \<Rightarrow> c\<lparr>ck_created := ck_created held\<rparr>)
     else jar_map jar k)"
  by (induction c jar rule: in_place.induct) (auto simp: jar_map_def)

lemma set_without_same: "set (map cookie_key (without_same c jar)) \<subseteq> set (map cookie_key jar)"
  by (induction c jar rule: without_same.induct) auto

lemma distinct_without_same: "distinct (map cookie_key jar) \<Longrightarrow> distinct (map cookie_key (without_same c jar))"
  using set_without_same by (induction c jar rule: without_same.induct) (auto, blast?)

lemma length_without_same: "length (without_same c jar) \<le> length jar"
  by (induction c jar rule: without_same.induct) auto

lemma jar_map_None: "cookie_key c \<notin> set (map cookie_key jar) \<Longrightarrow> jar_map jar (cookie_key c) = None"
  by (induction jar) (auto simp: jar_map_def)

lemma jar_map_without: "distinct (map cookie_key jar) \<Longrightarrow>
    jar_map (without_same c jar) k = (if k = cookie_key c then None else jar_map jar k)"
proof (induction c jar rule: without_same.induct)
  case (2 c held jar)
  then show ?case using jar_map_None [of held jar] by (auto simp: jar_map_def)
qed (simp add: jar_map_def)

lemma mset_distinct_keys:
  "mset xs = mset ys \<Longrightarrow> distinct (map cookie_key xs) \<longleftrightarrow> distinct (map cookie_key ys)"
  by (metis mset_eq_imp_distinct_iff mset_map)

text \<open>
  Storing keeps the jar: no two cookies of one name, domain and path, and at most 1000 of
  them.
\<close>

theorem store_cookie_keeps_jar:
  assumes "jar_ok jar"
  shows "jar_ok (store_cookie jar c now)"
proof (cases "expired c now")
  case True
  then show ?thesis using assms distinct_without_same length_without_same [of c jar]
    by (auto simp: jar_ok_def store_cookie_def)
next
  case False
  let ?n = "in_place c jar"
  have keys: "distinct (map cookie_key ?n)" using assms by (simp add: keys_in_place jar_ok_def)
  let ?s = "sort_by (\<lambda>a b. ck_created a \<le> ck_created b) ?n"
  have "distinct (map cookie_key ?s)" using keys mset_distinct_keys [of ?s ?n] by (simp add: mset_sort_by)
  then have "distinct (map cookie_key (drop (length ?n - MAX_COOKIES) ?s))"
    by (simp add: drop_map [symmetric] distinct_drop)
  with keys False show ?thesis by (simp add: jar_ok_def store_cookie_def Let_def)
qed

lemma store_cookie_keeps_jar_witness: "jar_ok (store_cookie [example_cookie] (example_cookie\<lparr>ck_path := ''/''\<rparr>) 6)"
  by (rule store_cookie_keeps_jar) (simp add: jar_ok_def MAX_COOKIES_def)

text \<open>
  C34: a jar is a map from a cookie's name, domain and path to the cookie, as long as it is not
  full: storing sets the one place, keeping the time the cookie was first set, an expired cookie
  takes the place's away, and every other place stays as it is.
\<close>

theorem store_cookie_refines_map:
  assumes "jar_ok jar" and "length jar < MAX_COOKIES"
  shows "jar_map (store_cookie jar c now) =
    (if expired c now then (jar_map jar)(cookie_key c := None)
     else (jar_map jar)(cookie_key c := Some (case jar_map jar (cookie_key c) of
       None \<Rightarrow> c | Some held \<Rightarrow> c\<lparr>ck_created := ck_created held\<rparr>)))"
proof -
  have "length (in_place c jar) \<le> Suc (length jar)"
    by (induction c jar rule: in_place.induct) auto
  then have "\<not> MAX_COOKIES < length (in_place c jar)" using assms(2) by simp
  then show ?thesis using assms(1)
    by (auto simp: store_cookie_def jar_map_without jar_map_in_place jar_ok_def fun_eq_iff)
qed

lemma store_cookie_refines_map_witness:
  "jar_map (store_cookie [example_cookie] (example_cookie\<lparr>ck_value := ''2'', ck_created := 6\<rparr>) 6) (cookie_key example_cookie) =
     Some (example_cookie\<lparr>ck_value := ''2''\<rparr>)"
proof -
  have "\<not> expired (example_cookie\<lparr>ck_value := ''2'', ck_created := 6\<rparr>) 6" by (simp add: example_cookie_def expired_def)
  then show ?thesis
    using store_cookie_refines_map [of "[example_cookie]" "example_cookie\<lparr>ck_value := ''2'', ck_created := 6\<rparr>" 6]
    by (simp add: jar_ok_def MAX_COOKIES_def jar_map_def cookie_key_def example_cookie_def)
qed

text \<open>
  When the jar is full, the cookies that go are the oldest: none that is left was first set
  before one that went.
\<close>

theorem full_jar_drops_oldest:
  assumes "\<not> expired c now" and "MAX_COOKIES < length (in_place c jar)"
  shows "length (store_cookie jar c now) = MAX_COOKIES \<and>
    (\<exists>gone. mset (gone @ store_cookie jar c now) = mset (in_place c jar) \<and>
       (\<forall>g \<in> set gone. \<forall>k \<in> set (store_cookie jar c now). ck_created g \<le> ck_created k))"
proof -
  let ?n = "in_place c jar"
  let ?s = "sort_by (\<lambda>a b. ck_created a \<le> ck_created b) ?n"
  let ?d = "length ?n - MAX_COOKIES"
  have st: "store_cookie jar c now = drop ?d ?s" using assms by (simp add: store_cookie_def Let_def)
  have "sorted_wrt (\<lambda>a b. ck_created a \<le> ck_created b) (take ?d ?s @ drop ?d ?s)"
    by (simp add: by_int.sorted_sort_by)
  then have "\<forall>g \<in> set (take ?d ?s). \<forall>k \<in> set (drop ?d ?s). ck_created g \<le> ck_created k"
    unfolding sorted_wrt_append by blast
  moreover have "mset (take ?d ?s @ drop ?d ?s) = mset ?n" by (simp add: mset_sort_by)
  moreover have "length (drop ?d ?s) = MAX_COOKIES" using assms(2) by simp
  ultimately show ?thesis unfolding st by blast
qed

lemma full_jar_drops_oldest_witness:
  "length (store_cookie (map (\<lambda>i. example_cookie\<lparr>ck_value := show_nat i, ck_path := ''/'' @ show_nat i\<rparr>) [0..<1000]) example_cookie 6) = MAX_COOKIES"
proof -
  let ?jar = "map (\<lambda>i. example_cookie\<lparr>ck_value := show_nat i, ck_path := ''/'' @ show_nat i\<rparr>) [0..<1000]"
  have fresh: "cookie_key example_cookie \<notin> set (map cookie_key ?jar)"
  proof
    assume "cookie_key example_cookie \<in> set (map cookie_key ?jar)"
    then obtain i where "''v1'' = show_nat i" by (auto simp: cookie_key_def example_cookie_def)
    then have "CHR ''v'' \<in> set (show_nat i)" by (metis list.set_intros(1))
    then show False using show_nat_digits [of i] by (auto simp: is_digit_def char_nat_def)
  qed
  then have "length (in_place example_cookie ?jar) = Suc (length ?jar)" by (simp only: length_in_place if_False)
  then have "MAX_COOKIES < length (in_place example_cookie ?jar)" by (simp add: MAX_COOKIES_def)
  moreover have "\<not> expired example_cookie 6" by (simp add: example_cookie_def expired_def)
  ultimately show ?thesis using full_jar_drops_oldest by blast
qed

text \<open>
  The jar's cookies are added to a request without touching what it names itself: every
  header but the first \<open>Cookie\<close> stays as it is, that one keeps its text, and of the jar's cookies
  exactly those whose name the request does not name follow it.
\<close>

theorem with_jar_cookies_adds:
  "(\<exists>before n v after. headers = before @ (n, v) # after \<and> to_lower n = ''cookie'' \<and>
      list_all (\<lambda>(m, _). to_lower m \<noteq> ''cookie'') before \<and>
      (let added = filter (\<lambda>c. ck_name c \<notin> set (own_cookie_names v)) cookies
       in with_jar_cookies headers cookies =
            before @ (n, if added = [] then v else v @ ''; '' @ cookie_header added) # after)) \<or>
   list_all (\<lambda>(m, _). to_lower m \<noteq> ''cookie'') headers \<and>
     with_jar_cookies headers cookies = headers @ (if cookies = [] then [] else [(''Cookie'', cookie_header cookies)])"
proof (cases "list_ex (\<lambda>(n, _). to_lower n = ''cookie'') headers")
  case True
  then have "\<exists>before n v after. headers = before @ (n, v) # after \<and> to_lower n = ''cookie'' \<and>
      list_all (\<lambda>(m, _). to_lower m \<noteq> ''cookie'') before \<and>
      (let added = filter (\<lambda>c. ck_name c \<notin> set (own_cookie_names v)) cookies
       in add_to_cookie_header headers cookies =
            before @ (n, if added = [] then v else v @ ''; '' @ cookie_header added) # after)"
  proof (induction headers)
    case (Cons h hs)
    obtain n v where h: "h = (n, v)" by (cases h)
    show ?case
    proof (cases "to_lower n = ''cookie''")
      case True
      then show ?thesis using h by (intro exI [of _ "[]"] exI [of _ n] exI [of _ v] exI [of _ hs]) (simp add: Let_def)
    next
      case False
      with Cons h obtain before m w after where "hs = before @ (m, w) # after" "to_lower m = ''cookie''"
        "list_all (\<lambda>(m, _). to_lower m \<noteq> ''cookie'') before"
        "let added = filter (\<lambda>c. ck_name c \<notin> set (own_cookie_names w)) cookies
         in add_to_cookie_header hs cookies = before @ (m, if added = [] then w else w @ ''; '' @ cookie_header added) # after"
        by auto
      with False h show ?thesis
        by (intro exI [of _ "(n, v) # before"] exI [of _ m] exI [of _ w] exI [of _ after]) (simp add: Let_def)
    qed
  qed simp
  then show ?thesis using True by (simp add: with_jar_cookies_def)
next
  case False
  then show ?thesis by (auto simp: with_jar_cookies_def list_ex_iff list_all_iff)
qed

end
