(* ===== verification/Sse.thy ===== *)
theory Sse
  imports Forms
begin

text \<open>
  Event streams: \<open>packages/core/src/transport/sse.ts\<close>, the parser's object as a record and \<open>push\<close>
  as a function from it to the events and the object after. A byte order mark is outside the
  range of characters of the model, so there is none to take off the start of a stream.
\<close>

section \<open>The parser\<close>

record sse_event =
  ev_id :: string
  ev_event :: string
  ev_data :: string

record sse_parser =
  sse_rest :: string
  sse_started :: bool
  sse_data :: "string list option"
  sse_name :: string
  sse_last_id :: string

definition new_sse_parser :: sse_parser where
  "new_sse_parser = \<lparr>sse_rest = [], sse_started = False, sse_data = None, sse_name = [], sse_last_id = []\<rparr>"

definition is_break :: "char \<Rightarrow> bool" where
  "is_break c \<longleftrightarrow> c = CHR 0x0D \<or> c = CHR 0x0A"

text \<open>A field of a line: its name, and its value without one space at the start.\<close>

definition sse_field :: "string \<Rightarrow> string \<times> string" where
  "sse_field line =
     (let (name, after) = span_of (\<lambda>c. c \<noteq> CHR '':'') line
      in case after of
           [] \<Rightarrow> (line, [])
         | _ # v \<Rightarrow> (name, if starts_with v '' '' then tl v else v))"

definition sse_line :: "string \<Rightarrow> sse_parser \<Rightarrow> sse_event option \<times> sse_parser" where
  "sse_line line p =
     (if line = [] then
        (map_option (\<lambda>ds. \<lparr>ev_id = sse_last_id p,
             ev_event = (if sse_name p = [] then ''message'' else sse_name p), ev_data = join [CHR 0x0A] ds\<rparr>)
           (sse_data p),
         p\<lparr>sse_data := None, sse_name := []\<rparr>)
      else if starts_with line '':'' then (None, p)
      else
        (let (name, v) = sse_field line
         in (None,
             if name = ''data'' then p\<lparr>sse_data := Some ((case sse_data p of None \<Rightarrow> [] | Some ds \<Rightarrow> ds) @ [v])\<rparr>
             else if name = ''event'' then p\<lparr>sse_name := v\<rparr>
             else if name = ''id'' \<and> CHR 0x00 \<notin> set v then p\<lparr>sse_last_id := v\<rparr>
             else p)))"

text \<open>
  The loop of \<open>push\<close> over what is left of the buffer: a line ends at a CR, an LF or both; a CR that
  is the last character waits.
\<close>

function sse_loop :: "string \<Rightarrow> sse_parser \<Rightarrow> sse_event list \<times> sse_parser" where
  "sse_loop buffer p =
     (let (line, r) = span_of (\<lambda>c. \<not> is_break c) buffer
      in if r = [] \<or> r = [CHR 0x0D] then ([], p\<lparr>sse_rest := buffer\<rparr>)
         else
           (let (e, p1) = sse_line line p;
                (es, p2) = sse_loop (if starts_with r [CHR 0x0D, CHR 0x0A] then drop 2 r else tl r) p1
            in ((case e of None \<Rightarrow> [] | Some x \<Rightarrow> [x]) @ es, p2)))"
  by pat_completeness auto
termination
proof (relation "measure (\<lambda>(buffer, p). length buffer)", goal_cases)
  case (2 buffer p x line r y e p1)
  then have "r \<noteq> []" "length r \<le> length buffer" using span_of_length [of _ buffer line r] by metis+
  then show ?case by (cases r) auto
qed simp

declare sse_loop.simps [simp del]

definition sse_push :: "string \<Rightarrow> sse_parser \<Rightarrow> sse_event list \<times> sse_parser" where
  "sse_push text p =
     (let buffer = sse_rest p @ text
      in sse_loop buffer (p\<lparr>sse_started := sse_started p \<or> buffer \<noteq> []\<rparr>))"

definition parse_event_stream :: "string \<Rightarrow> sse_event list" where
  "parse_event_stream text = fst (sse_push text new_sse_parser)"

text \<open>The pieces of a stream pushed one after the other.\<close>

fun sse_pushes :: "string list \<Rightarrow> sse_parser \<Rightarrow> sse_event list \<times> sse_parser" where
  "sse_pushes [] p = ([], p)"
| "sse_pushes (t # ts) p =
     (let (es, p1) = sse_push t p; (fs, p2) = sse_pushes ts p1 in (es @ fs, p2))"

section \<open>Lemmas\<close>

lemma sse_line_upd:
  "sse_line line (p\<lparr>sse_rest := r\<rparr>) = apsnd (\<lambda>q. q\<lparr>sse_rest := r\<rparr>) (sse_line line p)"
  "sse_line line (p\<lparr>sse_started := b\<rparr>) = apsnd (\<lambda>q. q\<lparr>sse_started := b\<rparr>) (sse_line line p)"
  by (simp_all add: sse_line_def Let_def split: prod.splits)

text \<open>One turn of the loop, without its lets.\<close>

lemma sse_loop_stop:
  "span_of (\<lambda>c. \<not> is_break c) buffer = (line, r) \<Longrightarrow> r = [] \<or> r = [CHR 0x0D] \<Longrightarrow> sse_loop buffer p = ([], p\<lparr>sse_rest := buffer\<rparr>)"
  by (auto simp: sse_loop.simps [of buffer])

definition after_break :: "string \<Rightarrow> string" where
  "after_break r = (if starts_with r [CHR 0x0D, CHR 0x0A] then drop 2 r else tl r)"

definition just :: "'a option \<Rightarrow> 'a list" where
  "just e = (case e of None \<Rightarrow> [] | Some x \<Rightarrow> [x])"

lemma sse_loop_step:
  assumes "span_of (\<lambda>c. \<not> is_break c) buffer = (line, r)" "r \<noteq> []" "r \<noteq> [CHR 0x0D]"
  shows "sse_loop buffer p =
    apfst ((@) (just (fst (sse_line line p)))) (sse_loop (after_break r) (snd (sse_line line p)))"
  using assms by (simp add: sse_loop.simps [of buffer] after_break_def just_def split: prod.splits)

lemma sse_induct [case_names stop step]:
  assumes "\<And>buffer p line r. span_of (\<lambda>c. \<not> is_break c) buffer = (line, r) \<Longrightarrow> r = [] \<or> r = [CHR 0x0D] \<Longrightarrow> P buffer p"
    and "\<And>buffer p line r. span_of (\<lambda>c. \<not> is_break c) buffer = (line, r) \<Longrightarrow> r \<noteq> [] \<Longrightarrow> r \<noteq> [CHR 0x0D] \<Longrightarrow>
      P (after_break r) (snd (sse_line line p)) \<Longrightarrow> P buffer p"
  shows "P buffer p"
proof (induction buffer p rule: sse_loop.induct)
  case (1 buffer p)
  obtain line r where r: "span_of (\<lambda>c. \<not> is_break c) buffer = (line, r)" by (cases "span_of (\<lambda>c. \<not> is_break c) buffer")
  show ?case
  proof (cases "r = [] \<or> r = [CHR 0x0D]")
    case True
    then show ?thesis using assms(1) r by blast
  next
    case False
    from 1 [OF r [symmetric] refl False prod.collapse prod.collapse] assms(2) [OF r] False
    show ?thesis unfolding after_break_def by auto
  qed
qed

lemma sse_loop_rest: "sse_loop buffer (p\<lparr>sse_rest := r\<rparr>) = sse_loop buffer p"
  by (induction buffer p rule: sse_induct) (simp_all add: sse_loop_stop sse_loop_step sse_line_upd)

lemma sse_loop_started:
  "sse_loop buffer (p\<lparr>sse_started := b\<rparr>) = apsnd (\<lambda>q. q\<lparr>sse_started := b\<rparr>) (sse_loop buffer p)"
  by (induction buffer p rule: sse_induct)
    (simp_all add: sse_loop_stop sse_loop_step sse_line_upd apsnd_apfst_commute)

lemma span_of_more:
  "span_of P buffer = (a, c # r) \<Longrightarrow> span_of P (buffer @ rest) = (a, c # r @ rest)"
  unfolding span_of_def
  by (metis (no_types, lifting) append_Cons dropWhile_append1 dropWhile_eq_Nil_conv list.distinct(1) prod.inject
      set_dropWhileD takeWhile_append1 dropWhile_append takeWhile_append)

lemma sse_loop_more:
  "sse_loop (buffer @ rest) p =
     (let (es, p1) = sse_loop buffer p; (fs, p2) = sse_loop (sse_rest p1 @ rest) p1 in (es @ fs, p2))"
proof (induction buffer p rule: sse_induct)
  case (stop buffer p line r)
  then show ?case by (simp add: sse_loop_stop sse_loop_rest)
next
  case (step buffer p line r)
  then obtain c r' where c: "r = c # r'" by (cases r) auto
  have whole: "span_of (\<lambda>c. \<not> is_break c) (buffer @ rest) = (line, r @ rest)"
    using span_of_more [of "\<lambda>c. \<not> is_break c" buffer line c r' rest] step(1) c by simp
  have no: "r @ rest \<noteq> []" "r @ rest \<noteq> [CHR 0x0D]" using step(2,3) c by (cases r'; auto)+
  have "after_break (r @ rest) = after_break r @ rest"
    using step(3) c by (cases r') (auto simp: starts_with_def after_break_def)
  then show ?case using step sse_loop_step [OF whole no, of p]
    by (simp add: sse_loop_step [OF step(1-3)] split: prod.splits)
qed

lemma sse_push_append:
  "sse_push (t @ u) p = (let (es, p1) = sse_push t p; (fs, p2) = sse_push u p1 in (es @ fs, p2))"
proof -
  let ?b = "sse_rest p @ t"
  obtain es q where q: "sse_loop ?b p = (es, q)" by (cases "sse_loop ?b p")
  have "?b = [] \<Longrightarrow> sse_rest q = []" using q by (auto simp: sse_loop_stop [of "[]" "[]" "[]"] span_of_def)
  then have flags: "(sse_started p \<or> ?b @ u \<noteq> []) = (sse_started p \<or> ?b \<noteq> [] \<or> sse_rest q @ u \<noteq> [])" by auto
  show ?thesis using q sse_loop_more [of ?b u p] flags
    by (simp add: sse_push_def Let_def sse_loop_started split: prod.splits)
qed

text \<open>
  C35: an event stream means the same however it is cut: pushing its pieces one after the other
  gives the events, and leaves the parser as, pushing the whole of it at once does.
\<close>

theorem sse_cut_anywhere: "sse_pushes (t # ts) p = sse_push (concat (t # ts)) p"
proof (induction ts arbitrary: t p)
  case (Cons u us)
  have "sse_pushes (t # u # us) p = (let (es, p1) = sse_push t p; (fs, p2) = sse_push (u @ concat us) p1 in (es @ fs, p2))"
    using Cons.IH [of u] by (simp split: prod.splits)
  then show ?case using sse_push_append [of t "u @ concat us" p] by simp
qed (simp split: prod.splits)

section \<open>A stream that is written and read\<close>

definition write_event :: "sse_event \<Rightarrow> string" where
  "write_event e =
     ''id: '' @ ev_id e @ [CHR 0x0A] @ ''event: '' @ ev_event e @ [CHR 0x0A] @
     concat (map (\<lambda>l. ''data: '' @ l @ [CHR 0x0A]) (split_on CHR 0x0A (ev_data e))) @ [CHR 0x0A]"

definition writable :: "sse_event \<Rightarrow> bool" where
  "writable e \<longleftrightarrow> list_all (\<lambda>c. \<not> is_break c \<and> c \<noteq> CHR 0x00) (ev_id e) \<and>
     ev_event e \<noteq> [] \<and> list_all (\<lambda>c. \<not> is_break c) (ev_event e) \<and> CHR 0x0D \<notin> set (ev_data e)"

lemma sse_loop_line:
  assumes "list_all (\<lambda>c. \<not> is_break c) line"
  shows "sse_loop (line @ CHR 0x0A # rest) p =
    apfst ((@) (just (fst (sse_line line p)))) (sse_loop rest (snd (sse_line line p)))"
proof -
  have "span_of (\<lambda>c. \<not> is_break c) (line @ CHR 0x0A # rest) = (line, CHR 0x0A # rest)"
    using assms by (simp add: span_of_def list_all_iff is_break_def)
  from sse_loop_step [OF this] show ?thesis by (simp add: after_break_def starts_with_def)
qed

lemma sse_line_fields:
  "sse_line (''data: '' @ v) p = (None, p\<lparr>sse_data := Some ((case sse_data p of None \<Rightarrow> [] | Some ds \<Rightarrow> ds) @ [v])\<rparr>)"
  "sse_line (''event: '' @ v) p = (None, p\<lparr>sse_name := v\<rparr>)"
  "CHR 0x00 \<notin> set v \<Longrightarrow> sse_line (''id: '' @ v) p = (None, p\<lparr>sse_last_id := v\<rparr>)"
  by (simp_all add: sse_line_def sse_field_def span_of_def starts_with_def)

lemma apfst_append_Nil [simp]: "apfst ((@) []) x = x"
  by (cases x) simp

lemma sse_loop_fields:
  "list_all (\<lambda>c. \<not> is_break c) v \<Longrightarrow> sse_loop (''data: '' @ v @ CHR 0x0A # rest) p =
     sse_loop rest (p\<lparr>sse_data := Some ((case sse_data p of None \<Rightarrow> [] | Some ds \<Rightarrow> ds) @ [v])\<rparr>)"
  "list_all (\<lambda>c. \<not> is_break c) v \<Longrightarrow> sse_loop (''event: '' @ v @ CHR 0x0A # rest) p = sse_loop rest (p\<lparr>sse_name := v\<rparr>)"
  "list_all (\<lambda>c. \<not> is_break c) v \<Longrightarrow> CHR 0x00 \<notin> set v \<Longrightarrow>
     sse_loop (''id: '' @ v @ CHR 0x0A # rest) p = sse_loop rest (p\<lparr>sse_last_id := v\<rparr>)"
  using sse_loop_line [of "''data: '' @ v" rest p] sse_loop_line [of "''event: '' @ v" rest p]
    sse_loop_line [of "''id: '' @ v" rest p] sse_line_fields [of v p]
  by (simp_all add: is_break_def just_def)

lemma sse_loop_data:
  "list_all (list_all (\<lambda>c. \<not> is_break c)) ls \<Longrightarrow>
   sse_loop (concat (map (\<lambda>l. ''data: '' @ l @ [CHR 0x0A]) ls) @ rest) p =
     sse_loop rest (if ls = [] then p else p\<lparr>sse_data := Some ((case sse_data p of None \<Rightarrow> [] | Some ds \<Rightarrow> ds) @ ls)\<rparr>)"
proof (induction ls arbitrary: p)
  case (Cons l ls)
  have "sse_loop (concat (map (\<lambda>l. ''data: '' @ l @ [CHR 0x0A]) (l # ls)) @ rest) p =
      sse_loop (''data: '' @ l @ CHR 0x0A # (concat (map (\<lambda>l. ''data: '' @ l @ [CHR 0x0A]) ls) @ rest)) p" by simp
  also have "\<dots> = sse_loop (concat (map (\<lambda>l. ''data: '' @ l @ [CHR 0x0A]) ls) @ rest)
      (p\<lparr>sse_data := Some ((case sse_data p of None \<Rightarrow> [] | Some ds \<Rightarrow> ds) @ [l])\<rparr>)"
    by (rule sse_loop_fields) (use Cons.prems in simp)
  finally show ?case using Cons by simp
qed simp

lemma set_join_piece: "l \<in> set ls \<Longrightarrow> set l \<subseteq> set (join sep ls)"
  by (induction sep ls rule: join.induct) auto

lemma sse_loop_written:
  assumes "writable e" "sse_data p = None"
  shows "sse_loop (write_event e @ rest) p = apfst ((#) e) (sse_loop rest (p\<lparr>sse_last_id := ev_id e, sse_name := []\<rparr>))"
proof -
  let ?ls = "split_on CHR 0x0A (ev_data e)"
  have ls: "list_all (list_all (\<lambda>c. \<not> is_break c)) ?ls"
  proof -
    have "c \<noteq> CHR 0x0A \<and> c \<noteq> CHR 0x0D" if "l \<in> set ?ls" "c \<in> set l" for l c
    proof
      show "c \<noteq> CHR 0x0A" using split_on_pieces [OF that(1)] that(2) by blast
      have "c \<in> set (join [CHR 0x0A] ?ls)" using that set_join_piece by blast
      then show "c \<noteq> CHR 0x0D" using assms(1) by (auto simp: writable_def)
    qed
    then show ?thesis by (auto simp: list_all_iff is_break_def)
  qed
  have ids: "list_all (\<lambda>c. \<not> is_break c) (ev_id e)" "CHR 0x00 \<notin> set (ev_id e)"
    "list_all (\<lambda>c. \<not> is_break c) (ev_event e)"
    using assms(1) by (auto simp: writable_def list_all_iff)
  have "sse_loop (write_event e @ rest) p =
      sse_loop (CHR 0x0A # rest) (p\<lparr>sse_last_id := ev_id e, sse_name := ev_event e, sse_data := Some ?ls\<rparr>)"
  proof -
    let ?data = "concat (map (\<lambda>l. ''data: '' @ l @ [CHR 0x0A]) ?ls)"
    have "write_event e @ rest = ''id: '' @ ev_id e @ CHR 0x0A # (''event: '' @ ev_event e @ CHR 0x0A # (?data @ CHR 0x0A # rest))"
      by (simp add: write_event_def)
    then show ?thesis
      by (simp only: sse_loop_fields(3) [OF ids(1,2)] sse_loop_fields(2) [OF ids(3)] sse_loop_data [OF ls])
        (simp add: assms(2))
  qed
  moreover have "sse_loop (CHR 0x0A # rest) q = apfst ((@) (just (fst (sse_line [] q)))) (sse_loop rest (snd (sse_line [] q)))" for q
    using sse_loop_line [of "[]" rest q] by simp
  moreover have "p\<lparr>sse_last_id := ev_id e, sse_data := None, sse_name := []\<rparr> = p\<lparr>sse_last_id := ev_id e, sse_name := []\<rparr>"
    using assms(2) by (cases p) simp
  moreover have "apfst ((@) [e]) x = apfst ((#) e) x" for x :: "sse_event list \<times> sse_parser" by (cases x) simp
  ultimately show ?thesis using assms by (simp add: sse_line_def just_def writable_def)
qed

text \<open>
  A stream of events that was written, field by field, is read as those events, their ids,
  names and data (of several lines too).
\<close>

theorem sse_round_trip:
  assumes "list_all writable es"
  shows "parse_event_stream (concat (map write_event es)) = es"
proof -
  have "fst (sse_loop (concat (map write_event es)) p) = es" if "sse_data p = None" for p
    using assms that
  proof (induction es arbitrary: p)
    case Nil
    then show ?case by (simp add: sse_loop_stop [of "[]" "[]" "[]"] span_of_def)
  next
    case (Cons e es)
    then show ?case by (simp add: sse_loop_written)
  qed
  then show ?thesis by (simp add: parse_event_stream_def sse_push_def new_sse_parser_def)
qed

lemma sse_round_trip_witness:
  "parse_event_stream (concat (map write_event [\<lparr>ev_id = ''1'', ev_event = ''tick'', ev_data = ''a'' @ [CHR 0x0A] @ ''b''\<rparr>])) =
     [\<lparr>ev_id = ''1'', ev_event = ''tick'', ev_data = ''a'' @ [CHR 0x0A] @ ''b''\<rparr>]"
  by (rule sse_round_trip) (simp add: writable_def is_break_def)

end
