(* ===== verification/Bridge.thy ===== *)
theory Bridge
  imports Cookies
begin

text \<open>
  The Local Bridge's route: \<open>packages/core/src/transport/redirect.ts\<close>, \<open>transport/bridge.ts\<close> and the
  types of \<open>transport/transport.ts\<close> they use. A relay is a message, a JSON value, that is posted to
  the bridge, and its answer a status and a text; posting is a parameter that changes a world
  \<open>'w\<close>, in which the cookie jar is too. \<open>URL.parse\<close> is a parameter in both its forms, and so is how
  the platform writes a form. The timer of \<open>withDeadline\<close> is not modelled: a failure it makes is
  one of those posting may give.
\<close>

section \<open>Requests and responses\<close>

datatype request_data =
    TextBody string
  | BytesBody "byte list"
  | BlobBody "byte list"
  | FormBody "(string \<times> string) list"

record resolved_request =
  rr_method :: string
  rr_url :: string
  rr_headers :: "(string \<times> string) list"
  rr_body :: "request_data option"

datatype redirect_stop = Off | Limit | BadLocation | OtherHost

record redirect_hop =
  hop_status :: decimal
  hop_url :: string
  hop_location :: string

definition MAX_REDIRECTS :: nat where
  "MAX_REDIRECTS = 20"

datatype transport_error =
    NetworkError string
  | TimeoutError string
  | AbortedError string
  | BridgeError string "nat option"

record response_envelope =
  en_status :: decimal
  en_status_text :: string
  en_headers :: "(string \<times> string) list"
  en_body :: "byte list"
  en_redirected :: bool
  en_final_url :: string
  en_encoded_size :: decimal
  en_decoded_size :: nat
  en_redirects :: "(redirect_hop list \<times> redirect_stop option) option"
  en_timings :: "(string \<times> decimal) list"
  en_tls_insecure :: bool

section \<open>A redirect\<close>

definition REDIRECT_STATUSES :: "decimal list" where
  "REDIRECT_STATUSES = map num_of_int [301, 302, 303, 307, 308]"

definition OTHER_ORIGIN_DROPPED :: "string list" where
  "OTHER_ORIGIN_DROPPED = [''authorization'', ''cookie'']"

definition BODY_HEADERS :: "string list" where
  "BODY_HEADERS = [''content-type'', ''content-length'', ''content-encoding'', ''content-language'', ''content-location'']"

datatype next_hop = NoRedirect | Stopped redirect_stop | Hop resolved_request

definition becomes_get :: "decimal \<Rightarrow> string \<Rightarrow> bool" where
  "becomes_get status verb \<longleftrightarrow>
     status = num_of_int 303 \<and> verb \<noteq> ''GET'' \<and> verb \<noteq> ''HEAD'' \<or>
     (status = num_of_int 301 \<or> status = num_of_int 302) \<and> verb = ''POST''"

definition dropped_header :: "bool \<Rightarrow> bool \<Rightarrow> string \<Rightarrow> bool" where
  "dropped_header to_get other_origin name \<longleftrightarrow>
     to_get \<and> name \<in> set BODY_HEADERS \<or> other_origin \<and> name \<in> set OTHER_ORIGIN_DROPPED"

definition next_hop ::
    "(string \<Rightarrow> url option) \<Rightarrow> (string \<Rightarrow> string \<Rightarrow> url option) \<Rightarrow> resolved_request \<Rightarrow> decimal \<Rightarrow> string option \<Rightarrow> bool \<Rightarrow> next_hop" where
  "next_hop parse join_url request status location stay_on_host =
     (case location of
        None \<Rightarrow> NoRedirect
      | Some loc \<Rightarrow>
          if status \<notin> set REDIRECT_STATUSES then NoRedirect
          else
            (case (parse (rr_url request), join_url loc (rr_url request)) of
               (Some f, Some t) \<Rightarrow>
                 if u_protocol t \<noteq> ''http:'' \<and> u_protocol t \<noteq> ''https:'' then Stopped BadLocation
                 else if stay_on_host \<and> (u_host f \<noteq> u_host t \<or> u_protocol f = ''https:'' \<and> u_protocol t = ''http:'')
                 then Stopped OtherHost
                 else
                   (let to_get = becomes_get status (rr_method request)
                    in Hop \<lparr>rr_method = (if to_get then ''GET'' else rr_method request),
                         rr_url = u_href t,
                         rr_headers = filter (\<lambda>(n, _). \<not> dropped_header to_get (u_origin f \<noteq> u_origin t) (to_lower n)) (rr_headers request),
                         rr_body = (if to_get then None else rr_body request)\<rparr>)
             | _ \<Rightarrow> Stopped BadLocation))"

section \<open>A relay\<close>

definition BRIDGE_MISMATCH :: string where
  "BRIDGE_MISMATCH =
     ''The Local Bridge that answered does not understand this page. Update the Local Bridge and reload Wayfarer, then start the bridge again.''"

definition bridge_health_problem :: "json option \<Rightarrow> string option" where
  "bridge_health_problem health =
     (if (case health of Some v \<Rightarrow> member v ''ok'' = Some (JBool True) | None \<Rightarrow> False) then None
      else Some ''What answered at this address is not a Local Bridge.'')"

text \<open>\<open>new Response(body)\<close>: the bytes of a body and the type the platform gives it.\<close>

type_synonym body_writer = "request_data \<Rightarrow> byte list \<times> string option"

definition relayed_body ::
    "body_writer \<Rightarrow> resolved_request \<Rightarrow> (string \<times> string) list \<times> byte list option" where
  "relayed_body written request =
     (case rr_body request of
        None \<Rightarrow> (rr_headers request, None)
      | Some (TextBody s) \<Rightarrow> (rr_headers request, Some (utf8 s))
      | Some (BytesBody bs) \<Rightarrow> (rr_headers request, Some bs)
      | Some body \<Rightarrow>
          (let (bytes, ty) = written body
           in case (body, ty) of
                (FormBody _, Some t) \<Rightarrow>
                  (filter (\<lambda>(n, _). to_lower n \<noteq> ''content-type'') (rr_headers request) @ [(''Content-Type'', t)], Some bytes)
              | _ \<Rightarrow> (rr_headers request, Some bytes)))"

definition relay_message :: "body_writer \<Rightarrow> resolved_request \<Rightarrow> nat \<Rightarrow> bool \<Rightarrow> json" where
  "relay_message written request timeout insecure =
     (let (headers, bytes) = relayed_body written request
      in JObj
        ([(''method'', JStr (rr_method request)), (''url'', JStr (rr_url request)),
          (''headers'', JArr (map (\<lambda>(n, v). JArr [JStr n, JStr v]) headers))] @
         (case bytes of None \<Rightarrow> [] | Some bs \<Rightarrow> [(''bodyB64'', JStr (base64 bs))]) @
         (if 0 < timeout then [(''timeoutMs'', JNum (num_of_int (int timeout)))] else []) @
         (if insecure then [(''tls'', JObj [(''insecure'', JBool True)])] else [])))"

record relay_envelope =
  re_status :: decimal
  re_status_text :: string
  re_headers :: "(string \<times> string) list"
  re_body_b64 :: string
  re_encoded_size :: decimal
  re_decoded_size :: decimal
  re_timings :: "(string \<times> decimal) list"

definition header_pair :: "json \<Rightarrow> (string \<times> string) option" where
  "header_pair v = (case v of JArr [JStr n, JStr w] \<Rightarrow> Some (n, w) | _ \<Rightarrow> None)"

definition PHASES :: "string list" where
  "PHASES = [''dns'', ''tcp'', ''tls'', ''ttfb'', ''content'']"

text \<open>The phases that are there; none is the source's \<open>undefined\<close>.\<close>

definition read_timings :: "json option \<Rightarrow> (string \<times> decimal) list" where
  "read_timings v =
     (case v of
        None \<Rightarrow> []
      | Some w \<Rightarrow>
          concat (map (\<lambda>phase. case member w phase of
             Some (JNum ms) \<Rightarrow> if num_less ms (num_of_int 0) then [] else [(phase, ms)]
           | _ \<Rightarrow> []) PHASES))"

definition parse_envelope :: "string \<Rightarrow> relay_envelope option" where
  "parse_envelope t =
     (case parse_json t of
        Some (JObj ms) \<Rightarrow>
          (case (om_get ms ''status'', om_get ms ''statusText'', om_get ms ''headers'', om_get ms ''bodyB64'',
                 om_get ms ''encodedSize'', om_get ms ''decodedSize'') of
             (Some (JNum status), Some (JStr status_text), Some (JArr hs), Some (JStr b64),
              Some (JNum encoded), Some (JNum decoded)) \<Rightarrow>
               map_option (\<lambda>headers. \<lparr>re_status = status, re_status_text = status_text, re_headers = headers,
                   re_body_b64 = b64, re_encoded_size = encoded, re_decoded_size = decoded,
                   re_timings = read_timings (om_get ms ''timings'')\<rparr>)
                 (those (map header_pair hs))
           | _ \<Rightarrow> None)
      | _ \<Rightarrow> None)"

definition to_envelope :: "relay_envelope \<Rightarrow> string \<Rightarrow> bool \<Rightarrow> transport_error + response_envelope" where
  "to_envelope relay url insecure =
     (case atob (re_body_b64 relay) of
        None \<Rightarrow> Inl (BridgeError BRIDGE_MISMATCH None)
      | Some bytes \<Rightarrow>
          if num_of_int (int (length bytes)) \<noteq> re_decoded_size relay then Inl (BridgeError BRIDGE_MISMATCH None)
          else Inr \<lparr>en_status = re_status relay, en_status_text = re_status_text relay,
            en_headers = map (\<lambda>(n, v). (to_lower n, v)) (re_headers relay), en_body = bytes,
            en_redirected = False, en_final_url = url, en_encoded_size = re_encoded_size relay,
            en_decoded_size = length bytes, en_redirects = None, en_timings = re_timings relay,
            en_tls_insecure = insecure\<rparr>)"

text \<open>The bridge's own words for a failure; a message that is no text is said as the language says it.\<close>

definition describe_error :: "string \<Rightarrow> string option" where
  "describe_error t =
     (case Option.bind (parse_json t) (\<lambda>body. member body ''error'') of
        Some (JStr s) \<Rightarrow> if s = [] then None else Some s
      | Some (JObj ms) \<Rightarrow>
          (case om_get ms ''message'' of
             None \<Rightarrow> None | Some JNull \<Rightarrow> None | Some m \<Rightarrow> Some (js_string m))
      | _ \<Rightarrow> None)"

definition read_relay :: "nat \<Rightarrow> string \<Rightarrow> string \<Rightarrow> bool \<Rightarrow> transport_error + response_envelope" where
  "read_relay status t url insecure =
     (if status = 404 then Inl (BridgeError BRIDGE_MISMATCH (Some 404))
      else if \<not> (200 \<le> status \<and> status \<le> 299) then
        Inl (BridgeError (case describe_error t of Some m \<Rightarrow> m | None \<Rightarrow> ''The bridge answered '' @ show_nat status @ ''.'')
          (Some status))
      else
        (case parse_envelope t of
           None \<Rightarrow> Inl (BridgeError BRIDGE_MISMATCH None)
         | Some relay \<Rightarrow> to_envelope relay url insecure))"

section \<open>A send\<close>

record redirect_policy =
  rp_follow :: bool
  rp_stay_on_host :: bool

text \<open>\<open>bw_cookies\<close>: the jar asked before a hop and told after it, when the caller gave one.\<close>

record 'w bridge_world =
  bw_parse :: "string \<Rightarrow> url option"
  bw_join :: "string \<Rightarrow> string \<Rightarrow> url option"
  bw_written :: body_writer
  bw_post :: "json \<Rightarrow> 'w \<Rightarrow> (transport_error + nat \<times> string) \<times> 'w"
  bw_cookies :: "((string \<Rightarrow> 'w \<Rightarrow> cookie list) \<times> (string \<Rightarrow> string list \<Rightarrow> 'w \<Rightarrow> 'w)) option"

record transport_options =
  to_timeout :: nat
  to_redirects :: "redirect_policy option"
  to_insecure :: bool

definition relay :: "'w bridge_world \<Rightarrow> transport_options \<Rightarrow> resolved_request \<Rightarrow> 'w \<Rightarrow>
    (transport_error + response_envelope) \<times> 'w" where
  "relay bw opts request w =
     (case bw_post bw (relay_message (bw_written bw) request (to_timeout opts) (to_insecure opts)) w of
        (Inl e, w') \<Rightarrow> (Inl e, w')
      | (Inr (status, t), w') \<Rightarrow> (read_relay status t (rr_url request) (to_insecure opts), w'))"

definition with_cookies :: "'w bridge_world \<Rightarrow> resolved_request \<Rightarrow> 'w \<Rightarrow> resolved_request" where
  "with_cookies bw hop w =
     (case bw_cookies bw of
        None \<Rightarrow> hop
      | Some (ask, _) \<Rightarrow> hop\<lparr>rr_headers := with_jar_cookies (rr_headers hop) (ask (rr_url hop) w)\<rparr>)"

definition store_cookies :: "'w bridge_world \<Rightarrow> resolved_request \<Rightarrow> response_envelope \<Rightarrow> 'w \<Rightarrow> 'w" where
  "store_cookies bw hop envelope w =
     (case bw_cookies bw of
        None \<Rightarrow> w
      | Some (_, tell) \<Rightarrow>
          tell (rr_url hop) (map snd (filter (\<lambda>(n, _). n = ''set-cookie'') (en_headers envelope))) w)"

definition ended :: "redirect_hop list \<Rightarrow> redirect_stop option \<Rightarrow> response_envelope \<Rightarrow> response_envelope" where
  "ended chain stop envelope = envelope\<lparr>en_redirected := chain \<noteq> [], en_redirects := Some (chain, stop)\<rparr>"

definition location_of :: "response_envelope \<Rightarrow> string option" where
  "location_of envelope = map_option snd (List.find (\<lambda>(n, _). to_lower n = ''location'') (en_headers envelope))"

text \<open>What an answer asks for: the response, or the next hop and what it adds to the chain.\<close>

datatype hop_decision = Answer response_envelope | Follow resolved_request redirect_hop

definition decide_hop ::
    "'w bridge_world \<Rightarrow> transport_options \<Rightarrow> resolved_request \<Rightarrow> redirect_hop list \<Rightarrow> response_envelope \<Rightarrow> hop_decision" where
  "decide_hop bw opts hop chain envelope =
     (case to_redirects opts of
        None \<Rightarrow> Answer envelope
      | Some policy \<Rightarrow>
          (case location_of envelope of
             None \<Rightarrow> Answer (ended chain None envelope)
           | Some loc \<Rightarrow>
               (case next_hop (bw_parse bw) (bw_join bw) hop (en_status envelope) (Some loc) (rp_stay_on_host policy) of
                  NoRedirect \<Rightarrow> Answer (ended chain None envelope)
                | nxt \<Rightarrow>
                    if \<not> rp_follow policy then Answer (ended chain (Some Off) envelope)
                    else
                      (case nxt of
                         Stopped s \<Rightarrow> Answer (ended chain (Some s) envelope)
                       | Hop q \<Rightarrow>
                           if MAX_REDIRECTS \<le> length chain then Answer (ended chain (Some Limit) envelope)
                           else Follow q \<lparr>hop_status = en_status envelope, hop_url = rr_url hop, hop_location = loc\<rparr>
                       | NoRedirect \<Rightarrow> Answer (ended chain None envelope)))))"

function send_hops ::
    "'w bridge_world \<Rightarrow> transport_options \<Rightarrow> resolved_request \<Rightarrow> redirect_hop list \<Rightarrow> 'w \<Rightarrow>
      (transport_error + response_envelope) \<times> 'w" where
  "send_hops bw opts hop chain w =
     (case relay bw opts (with_cookies bw hop w) w of
        (Inl e, w1) \<Rightarrow> (Inl e, w1)
      | (Inr envelope, w1) \<Rightarrow>
          (let w2 = store_cookies bw hop envelope w1
           in case decide_hop bw opts hop chain envelope of
                Answer r \<Rightarrow> (Inr r, w2)
              | Follow q h \<Rightarrow> send_hops bw opts q (chain @ [h]) w2))"
  by pat_completeness auto
termination
  by (relation "measure (\<lambda>(bw, opts, hop, chain, w). Suc MAX_REDIRECTS - length chain)")
    (auto simp: decide_hop_def split: option.splits next_hop.splits if_splits)

declare send_hops.simps [simp del]

definition bridge_send :: "'w bridge_world \<Rightarrow> transport_options \<Rightarrow> resolved_request \<Rightarrow> 'w \<Rightarrow>
    (transport_error + response_envelope) \<times> 'w" where
  "bridge_send bw opts request w = send_hops bw opts request [] w"

section \<open>Lemmas\<close>

text \<open>What one followed redirect does to the request.\<close>

definition redirected :: "'w bridge_world \<Rightarrow> bool \<Rightarrow> resolved_request \<Rightarrow> redirect_hop \<Rightarrow> resolved_request \<Rightarrow> bool" where
  "redirected bw stay a h b \<longleftrightarrow>
     hop_url h = rr_url a \<and>
     next_hop (bw_parse bw) (bw_join bw) a (hop_status h) (Some (hop_location h)) stay = Hop b"

text \<open>A chain of redirects from one request to another.\<close>

inductive hops :: "'w bridge_world \<Rightarrow> bool \<Rightarrow> resolved_request \<Rightarrow> redirect_hop list \<Rightarrow> resolved_request \<Rightarrow> bool"
    for bw stay a where
  hops_none: "hops bw stay a [] a"
| hops_one: "hops bw stay a chain b \<Longrightarrow> redirected bw stay b h c \<Longrightarrow> hops bw stay a (chain @ [h]) c"

inductive_simps hops_Nil [simp]: "hops bw stay a [] b"

definition stays :: "transport_options \<Rightarrow> bool" where
  "stays opts \<longleftrightarrow> (case to_redirects opts of None \<Rightarrow> False | Some p \<Rightarrow> rp_stay_on_host p)"

lemma decide_follow:
  "decide_hop bw opts hop chain envelope = Follow q h \<Longrightarrow>
     redirected bw (stays opts) hop h q \<and> length chain < MAX_REDIRECTS \<and>
     (\<exists>p. to_redirects opts = Some p \<and> rp_follow p)"
  by (auto simp: decide_hop_def redirected_def stays_def split: option.splits next_hop.splits if_splits)

lemma decide_answer:
  "decide_hop bw opts hop chain envelope = Answer r \<Longrightarrow>
     en_final_url r = en_final_url envelope \<and>
     (case to_redirects opts of
        None \<Rightarrow> en_redirects r = en_redirects envelope
      | Some _ \<Rightarrow> \<exists>stop. en_redirects r = Some (chain, stop) \<and> en_redirected r = (chain \<noteq> []))"
  by (auto simp: decide_hop_def ended_def split: option.splits next_hop.splits if_splits)

lemma read_relay_url:
  "read_relay status t url insecure = Inr r \<Longrightarrow> en_final_url r = url \<and> en_redirects r = None"
  by (auto simp: read_relay_def to_envelope_def split: if_splits option.splits)

lemma relay_url:
  "relay bw opts request w = (Inr r, w') \<Longrightarrow> en_final_url r = rr_url request \<and> en_redirects r = None"
  by (auto simp: relay_def split: prod.splits sum.splits dest: read_relay_url)

lemma rr_url_with_cookies [simp]: "rr_url (with_cookies bw hop w) = rr_url hop"
  by (simp add: with_cookies_def split: option.splits prod.splits)

lemma send_hops_result:
  assumes "hops bw (stays opts) a chain hop" "length chain \<le> MAX_REDIRECTS"
    and "send_hops bw opts hop chain w = (Inr r, w')"
    and "to_redirects opts = Some p" "chain \<noteq> [] \<Longrightarrow> rp_follow p"
  shows "\<exists>chain' stop final. en_redirects r = Some (chain', stop) \<and> length chain' \<le> MAX_REDIRECTS \<and>
    hops bw (stays opts) a chain' final \<and> en_final_url r = rr_url final \<and> (chain' \<noteq> [] \<longrightarrow> rp_follow p)"
  using assms
proof (induction bw opts hop chain w rule: send_hops.induct)
  case (1 bw opts hop chain w)
  obtain res w1 where rel: "relay bw opts (with_cookies bw hop w) w = (res, w1)"
    by (cases "relay bw opts (with_cookies bw hop w) w")
  with "1.prems"(3) obtain envelope where env: "res = Inr envelope"
    by (cases res) (auto simp: send_hops.simps [of bw opts hop])
  show ?case
  proof (cases "decide_hop bw opts hop chain envelope")
    case (Answer r')
    then have "r = r'" using "1.prems"(3) rel env by (simp add: send_hops.simps [of bw opts hop] Let_def)
    with decide_answer [OF Answer] relay_url rel env "1.prems" show ?thesis by fastforce
  next
    case (Follow q h)
    then have "send_hops bw opts q (chain @ [h]) (store_cookies bw hop envelope w1) = (Inr r, w')"
      using "1.prems"(3) rel env by (simp add: send_hops.simps [of bw opts hop] Let_def)
    with "1.IH" [OF rel [symmetric] env refl Follow] decide_follow [OF Follow] "1.prems" hops_one
    show ?thesis by fastforce
  qed
qed

lemma next_hop_Hop:
  assumes "next_hop parse join_url a status (Some loc) stay = Hop b"
  obtains f t where "parse (rr_url a) = Some f" "join_url loc (rr_url a) = Some t" "status \<in> set REDIRECT_STATUSES"
    "u_protocol t = ''http:'' \<or> u_protocol t = ''https:''" "rr_url b = u_href t"
    "stay \<Longrightarrow> u_host f = u_host t \<and> \<not> (u_protocol f = ''https:'' \<and> u_protocol t = ''http:'')"
    "rr_headers b = filter (\<lambda>(n, _). \<not> dropped_header (becomes_get status (rr_method a)) (u_origin f \<noteq> u_origin t) (to_lower n)) (rr_headers a)"
    "rr_method b = (if becomes_get status (rr_method a) then ''GET'' else rr_method a)"
    "rr_body b = (if becomes_get status (rr_method a) then None else rr_body a)"
  using assms by (auto simp: next_hop_def Let_def split: option.splits if_splits)

text \<open>A request that carries what was written for one place only.\<close>

definition carries_login :: "resolved_request \<Rightarrow> bool" where
  "carries_login q \<longleftrightarrow> list_ex (\<lambda>(n, _). to_lower n \<in> set OTHER_ORIGIN_DROPPED) (rr_headers q)"

lemma redirected_login:
  assumes "redirected bw stay a h b" "carries_login b"
  shows "carries_login a \<and> (\<exists>f t. bw_parse bw (rr_url a) = Some f \<and> bw_join bw (hop_location h) (rr_url a) = Some t \<and>
    rr_url b = u_href t \<and> u_origin f = u_origin t)"
proof -
  from assms(1) have hop: "next_hop (bw_parse bw) (bw_join bw) a (hop_status h) (Some (hop_location h)) stay = Hop b"
    by (simp add: redirected_def)
  from hop show ?thesis
    by (rule next_hop_Hop)
      (use assms(2) in \<open>auto simp: carries_login_def list_ex_iff dropped_header_def split: prod.splits\<close>)
qed

text \<open>
  The platform's contract on addresses: an address read from the text of another is that other.
\<close>

definition reads_back :: "'w bridge_world \<Rightarrow> bool" where
  "reads_back bw \<longleftrightarrow> (\<forall>loc base t. bw_join bw loc base = Some t \<longrightarrow> bw_parse bw (u_href t) = Some t)"

section \<open>Properties\<close>

text \<open>
  C32: a request sent through the bridge is redirected at most twenty times: a response says the
  redirects that were followed, they lead from the request to the address of the response one by
  one, each as \<open>nextHop\<close> makes it, and there are none unless the caller asked for them.
\<close>

theorem bridge_follows_chain:
  assumes "bridge_send bw opts request w = (Inr r, w')" and "to_redirects opts = Some p"
  shows "\<exists>chain stop final. en_redirects r = Some (chain, stop) \<and> length chain \<le> 20 \<and>
    hops bw (stays opts) request chain final \<and> en_final_url r = rr_url final \<and> (chain \<noteq> [] \<longrightarrow> rp_follow p)"
  using send_hops_result [OF hops_none _ assms(1) [unfolded bridge_send_def] assms(2)]
  by (simp add: MAX_REDIRECTS_def)

text \<open>A host that is kept, and TLS that is not lost.\<close>

definition same_place :: "url \<Rightarrow> url \<Rightarrow> bool" where
  "same_place f t \<longleftrightarrow> u_host t = u_host f \<and> (u_protocol f = ''https:'' \<longrightarrow> u_protocol t = ''https:'')"

definition hops_read :: "'w bridge_world \<Rightarrow> redirect_hop list \<Rightarrow> (url \<Rightarrow> bool) \<Rightarrow> bool" where
  "hops_read bw chain P \<longleftrightarrow> list_all (\<lambda>h. \<exists>t. bw_parse bw (hop_url h) = Some t \<and> P t) chain"

lemma redirected_reads:
  assumes "redirected bw stay a h b" "reads_back bw"
  obtains f t where "bw_parse bw (rr_url a) = Some f" "bw_parse bw (rr_url b) = Some t" "hop_url h = rr_url a"
    "stay \<Longrightarrow> same_place f t" "carries_login b \<Longrightarrow> carries_login a \<and> u_origin f = u_origin t"
proof -
  from assms(1) have hop: "next_hop (bw_parse bw) (bw_join bw) a (hop_status h) (Some (hop_location h)) stay = Hop b"
    "hop_url h = rr_url a" by (simp_all add: redirected_def)
  from hop(1) show ?thesis
  proof (rule next_hop_Hop)
    fix f t
    assume f: "bw_parse bw (rr_url a) = Some f" and t: "bw_join bw (hop_location h) (rr_url a) = Some t" "rr_url b = u_href t"
      and proto: "u_protocol t = ''http:'' \<or> u_protocol t = ''https:''"
      and stay: "stay \<Longrightarrow> u_host f = u_host t \<and> \<not> (u_protocol f = ''https:'' \<and> u_protocol t = ''http:'')"
    have b: "bw_parse bw (rr_url b) = Some t" using assms(2) t unfolding reads_back_def by simp
    have "carries_login b \<Longrightarrow> carries_login a \<and> u_origin f = u_origin t"
      using redirected_login [OF assms(1)] f t by auto
    then show thesis
      by (intro that [OF f b hop(2)]) (use stay proto in \<open>auto simp: same_place_def\<close>)
  qed
qed

text \<open>
  A request that is to stay on its host stays there: along any chain of redirects every
  address is on the host (and port) of the first, and none is without TLS when the first had it.
\<close>

theorem redirects_stay_on_host:
  assumes "hops bw True request chain final" and "reads_back bw" and "bw_parse bw (rr_url request) = Some f"
  shows "hops_read bw chain (same_place f) \<and> (\<exists>t. bw_parse bw (rr_url final) = Some t \<and> same_place f t)"
  using assms(1)
proof (induction rule: hops.induct)
  case hops_none
  then show ?case using assms(3) by (simp add: hops_read_def same_place_def)
next
  case (hops_one chain b h c)
  from redirected_reads [OF hops_one(2) assms(2)] obtain f' t where
    ft: "bw_parse bw (rr_url b) = Some f'" "bw_parse bw (rr_url c) = Some t" "hop_url h = rr_url b" "same_place f' t" by metis
  then show ?case using hops_one.IH by (auto simp: hops_read_def same_place_def)
qed

text \<open>
  C33: what was written for one place goes nowhere else: a request that still carries an
  \<open>Authorization\<close> or \<open>Cookie\<close> header of its own after any chain of redirects never left the first
  origin, and one that left it does not get them back by returning.
\<close>

theorem login_stays_on_origin:
  assumes "hops bw stay request chain final" and "reads_back bw" and "bw_parse bw (rr_url request) = Some f"
    and "carries_login final"
  shows "hops_read bw chain (\<lambda>u. u_origin u = u_origin f) \<and>
    (\<exists>t. bw_parse bw (rr_url final) = Some t \<and> u_origin t = u_origin f)"
  using assms(1,4)
proof (induction rule: hops.induct)
  case hops_none
  then show ?case using assms(3) by (simp add: hops_read_def)
next
  case (hops_one chain b h c)
  from redirected_reads [OF hops_one(2) assms(2)] obtain f' t where
    ft: "bw_parse bw (rr_url b) = Some f'" "bw_parse bw (rr_url c) = Some t" "hop_url h = rr_url b"
    "carries_login b \<and> u_origin f' = u_origin t" using hops_one.prems by metis
  then show ?case using hops_one.IH by (auto simp: hops_read_def)
qed

text \<open>
  Nothing but the chain is posted: whatever holds of the world before, and is kept by the
  relay of every request the redirects lead to within twenty hops and by telling the jar, holds of
  it after the send, whether it gave a response or an error.
\<close>

theorem bridge_posts_only_hops:
  assumes "holds w"
    and "\<And>chain q v. hops bw (stays opts) request chain q \<Longrightarrow> length chain \<le> 20 \<Longrightarrow> holds v \<Longrightarrow>
      holds (snd (relay bw opts (with_cookies bw q v) v))"
    and "\<And>q r v. holds v \<Longrightarrow> holds (store_cookies bw q r v)"
  shows "holds (snd (bridge_send bw opts request w))"
proof -
  have "holds (snd (send_hops bw opts q chain v))"
    if "hops bw (stays opts) request chain q" "length chain \<le> MAX_REDIRECTS" "holds v" for q chain v
    using that assms(2,3)
  proof (induction bw opts q chain v rule: send_hops.induct)
    case (1 bw opts hop chain w)
    obtain res w1 where rel: "relay bw opts (with_cookies bw hop w) w = (res, w1)"
      by (cases "relay bw opts (with_cookies bw hop w) w")
    have w1: "holds w1" using "1.prems"(4) [OF "1.prems"(1) _ "1.prems"(3)] "1.prems"(2) rel
      by (simp add: MAX_REDIRECTS_def)
    show ?case
    proof (cases res)
      case (Inl e)
      then show ?thesis using w1 rel by (simp add: send_hops.simps [of bw opts hop])
    next
      case (Inr envelope)
      have w2: "holds (store_cookies bw hop envelope w1)" using "1.prems"(5) w1 by blast
      show ?thesis
      proof (cases "decide_hop bw opts hop chain envelope")
        case (Answer r)
        then show ?thesis using w2 rel Inr by (simp add: send_hops.simps [of bw opts hop] Let_def)
      next
        case (Follow q h)
        have "holds (snd (send_hops bw opts q (chain @ [h]) (store_cookies bw hop envelope w1)))"
          using "1.IH" [OF rel [symmetric] Inr refl Follow hops_one _ w2] decide_follow [OF Follow] "1.prems"
          by simp
        then show ?thesis using rel Inr Follow by (simp add: send_hops.simps [of bw opts hop] Let_def)
      qed
    qed
  qed
  from this [OF hops_none _ assms(1)] show ?thesis by (simp add: bridge_send_def)
qed

text \<open>
  What a redirect does to the request: 307 and 308 repeat it, 303 makes a GET of anything but
  GET and HEAD, 301 and 302 of a POST; a body goes only with the method it came with, and no
  header is added or changed.
\<close>

theorem redirect_keeps_request:
  assumes "next_hop parse join_url a status location stay = Hop b"
  shows "(status = num_of_int 307 \<or> status = num_of_int 308 \<longrightarrow> rr_method b = rr_method a \<and> rr_body b = rr_body a) \<and>
    (status = num_of_int 303 \<longrightarrow> rr_method b = ''GET'' \<or> rr_method b = ''HEAD'') \<and>
    (rr_method b \<noteq> rr_method a \<longrightarrow> rr_method b = ''GET'' \<and> rr_body b = None) \<and>
    (rr_body b \<noteq> None \<longrightarrow> rr_body b = rr_body a \<and> rr_method b = rr_method a) \<and>
    subseq (rr_headers b) (rr_headers a)"
proof -
  obtain loc where "location = Some loc" using assms by (cases location) (auto simp: next_hop_def)
  with assms have "next_hop parse join_url a status (Some loc) stay = Hop b" by simp
  then show ?thesis
    by (rule next_hop_Hop) (auto simp: becomes_get_def num_of_int_def)
qed

text \<open>
  An answer of the bridge that is read as a response is one: its body is the bytes of the
  answer and as long as it says, and its headers are those of the answer, their names in lower
  case; an answer of another shape is an error that says the versions differ.
\<close>

theorem relay_answer_read:
  assumes "200 \<le> status" "status \<le> 299"
  shows "case read_relay status t url insecure of
      Inr r \<Rightarrow> \<exists>ms hs b64 headers. parse_json t = Some (JObj ms) \<and> om_get ms ''status'' = Some (JNum (en_status r)) \<and>
        om_get ms ''bodyB64'' = Some (JStr b64) \<and> atob b64 = Some (en_body r) \<and>
        om_get ms ''decodedSize'' = Some (JNum (num_of_int (int (length (en_body r))))) \<and>
        om_get ms ''headers'' = Some (JArr (map (\<lambda>(n, v). JArr [JStr n, JStr v]) headers)) \<and>
        en_headers r = map (\<lambda>(n, v). (to_lower n, v)) headers
    | Inl e \<Rightarrow> e = BridgeError BRIDGE_MISMATCH None"
proof -
  have pairs: "those (map header_pair hs) = Some headers \<Longrightarrow> hs = map (\<lambda>(n, v). JArr [JStr n, JStr v]) headers" for hs headers
    by (induction hs arbitrary: headers)
      (auto simp: header_pair_def split: option.splits json.splits list.splits)
  show ?thesis using assms
    by (auto simp: read_relay_def to_envelope_def parse_envelope_def dest!: pairs
        split: option.splits json.splits if_splits)
qed

section \<open>Witnesses\<close>

text \<open>Two addresses of one host; the first answers with a redirect to the second.\<close>

definition example_address :: "string \<Rightarrow> url" where
  "example_address path = \<lparr>u_protocol = ''https:'', u_login = [], u_hostname = ''a.io'', u_port = [], u_path = path,
     u_search = [], u_hash = [], u_pairs = []\<rparr>"

definition example_answer :: "json \<Rightarrow> string" where
  "example_answer message =
     stringify (JObj [
       (''status'', JNum (num_of_int (if member message ''url'' = Some (JStr ''https://a.io/1'') then 302 else 200))),
       (''statusText'', JStr []), (''headers'', JArr [JArr [JStr ''Location'', JStr ''2'']]), (''bodyB64'', JStr []),
       (''encodedSize'', JNum (num_of_int 0)), (''decodedSize'', JNum (num_of_int 0))])"

definition example_bridge :: "nat bridge_world" where
  "example_bridge =
     \<lparr>bw_parse = (\<lambda>s. if s = ''https://a.io/1'' then Some (example_address ''/1'')
        else if s = ''https://a.io/2'' then Some (example_address ''/2'') else None),
      bw_join = (\<lambda>loc base. if loc = ''2'' then Some (example_address ''/2'') else None),
      bw_written = (\<lambda>_. ([], None)), bw_post = (\<lambda>m n. (Inr (200, example_answer m), Suc n)), bw_cookies = None\<rparr>"

definition example_options :: transport_options where
  "example_options = \<lparr>to_timeout = 0, to_redirects = Some \<lparr>rp_follow = True, rp_stay_on_host = True\<rparr>, to_insecure = False\<rparr>"

definition first_request :: resolved_request where
  "first_request = \<lparr>rr_method = ''POST'', rr_url = ''https://a.io/1'', rr_headers = [(''Authorization'', ''x''), (''Content-Type'', ''y'')],
     rr_body = Some (TextBody ''z'')\<rparr>"

definition second_request :: resolved_request where
  "second_request = \<lparr>rr_method = ''GET'', rr_url = ''https://a.io/2'', rr_headers = [(''Authorization'', ''x'')], rr_body = None\<rparr>"

lemma example_next:
  "next_hop (bw_parse example_bridge) (bw_join example_bridge) first_request (num_of_int 302) (Some ''2'') True = Hop second_request"
  by code_simp

definition first_hop :: redirect_hop where
  "first_hop = \<lparr>hop_status = num_of_int 302, hop_url = ''https://a.io/1'', hop_location = ''2''\<rparr>"

lemma example_hops: "hops example_bridge True first_request [first_hop] second_request"
proof -
  have "redirected example_bridge True first_request first_hop second_request"
    using example_next by (simp add: redirected_def first_hop_def first_request_def)
  from hops_one [OF hops_none this] show ?thesis by simp
qed

lemma example_reads_back: "reads_back example_bridge"
  by (simp add: reads_back_def example_bridge_def example_address_def u_href_def u_host_def)

lemma example_first: "bw_parse example_bridge (rr_url first_request) = Some (example_address ''/1'')"
  by (simp add: example_bridge_def first_request_def)

lemma bridge_follows_chain_witness:
  "\<exists>r w'. bridge_send example_bridge example_options first_request 0 = (Inr r, w') \<and>
     (\<exists>chain stop final. en_redirects r = Some (chain, stop) \<and> length chain \<le> 20 \<and>
        hops example_bridge True first_request chain final \<and> en_final_url r = rr_url final)"
proof -
  have "case bridge_send example_bridge example_options first_request 0 of (Inr r, w') \<Rightarrow> True | _ \<Rightarrow> False"
    by code_simp
  then obtain r w' where "bridge_send example_bridge example_options first_request 0 = (Inr r, w')"
    by (auto split: prod.splits sum.splits)
  from bridge_follows_chain [OF this] this show ?thesis by (auto simp: example_options_def stays_def)
qed

lemma redirects_stay_on_host_witness:
  "hops_read example_bridge [first_hop] (same_place (example_address ''/1''))"
  using redirects_stay_on_host [OF example_hops example_reads_back example_first] by blast

lemma login_stays_on_origin_witness:
  "hops_read example_bridge [first_hop] (\<lambda>u. u_origin u = u_origin (example_address ''/1''))"
proof -
  have "carries_login second_request" by code_simp
  from login_stays_on_origin [OF example_hops example_reads_back example_first this] show ?thesis by blast
qed

lemma bridge_posts_only_hops_witness:
  "(3::nat) \<le> snd (bridge_send example_bridge example_options first_request 5)"
  by (rule bridge_posts_only_hops [where request = first_request])
    (auto simp: relay_def example_bridge_def store_cookies_def)

lemma redirect_keeps_request_witness: "subseq (rr_headers second_request) (rr_headers first_request)"
  using redirect_keeps_request [OF example_next] by blast

lemma relay_answer_read_witness:
  "case read_relay 200 (example_answer JNull) ''https://a.io/2'' False of
     Inr r \<Rightarrow> \<exists>ms. parse_json (example_answer JNull) = Some (JObj ms) \<and> om_get ms ''status'' = Some (JNum (en_status r))
   | Inl e \<Rightarrow> e = BridgeError BRIDGE_MISMATCH None"
  using relay_answer_read [of 200 "example_answer JNull" "''https://a.io/2''" False] by (auto split: sum.splits)

end
