(* ===== verification/BrowserLimits.thy ===== *)
theory BrowserLimits
  imports Model Platform Encoding
begin

text \<open>
  What a browser does to a request, and what the automatic route does after one failed:
  \<open>packages/core/src/browser/browser-limits.ts\<close> and \<open>transport/route.ts\<close>. \<open>URL.parse\<close> is a
  parameter.
\<close>

section \<open>The request and what is said of it\<close>

record limits_request =
  lq_method :: string
  lq_url :: string
  lq_headers :: "(string \<times> string) list"

datatype sent_route = FromPage | ThroughBridge

datatype mixed_content = Blocked | Loopback

record browser_limits =
  bl_route :: sent_route
  bl_dropped :: "string list"
  bl_cross_origin :: bool
  bl_preflight :: "string list"
  bl_mixed_content :: "mixed_content option"
  bl_adds :: "string list"
  bl_suppresses :: "string list"

section \<open>Headers a page may not set\<close>

definition FORBIDDEN :: "string list" where
  "FORBIDDEN =
     [''accept-charset'', ''accept-encoding'', ''access-control-request-headers'', ''access-control-request-method'',
      ''connection'', ''content-length'', ''cookie'', ''cookie2'', ''date'', ''dnt'', ''expect'', ''host'', ''keep-alive'',
      ''origin'', ''referer'', ''set-cookie'', ''te'', ''trailer'', ''transfer-encoding'', ''upgrade'', ''via'']"

definition METHOD_OVERRIDES :: "string list" where
  "METHOD_OVERRIDES = [''x-http-method'', ''x-http-method-override'', ''x-method-override'']"

text \<open>\<open>/\b(connect|trace|track)\b/i\<close>, read in lower case; \<open>bound\<close>: a word may start here.\<close>

fun names_word :: "string list \<Rightarrow> bool \<Rightarrow> string \<Rightarrow> bool" where
  "names_word ws bound [] \<longleftrightarrow> False"
| "names_word ws bound (c # s) \<longleftrightarrow>
     bound \<and> list_ex (\<lambda>w. starts_with (c # s) w \<and>
       (drop (length w) (c # s) = [] \<or> \<not> is_word (hd (drop (length w) (c # s))))) ws \<or>
     names_word ws (\<not> is_word c) s"

definition forbidden_method :: "string \<Rightarrow> bool" where
  "forbidden_method v \<longleftrightarrow> names_word [''connect'', ''trace'', ''track''] True (to_lower v)"

definition is_forbidden :: "string \<times> string \<Rightarrow> bool" where
  "is_forbidden h \<longleftrightarrow>
     (let (name, v) = h; lower = to_lower name
      in lower \<in> set FORBIDDEN \<or> starts_with lower ''proxy-'' \<or> starts_with lower ''sec-'' \<or>
         lower \<in> set METHOD_OVERRIDES \<and> forbidden_method v)"

section \<open>Headers that need no preflight\<close>

definition SAFE_CONTENT_TYPES :: "string list" where
  "SAFE_CONTENT_TYPES = [''application/x-www-form-urlencoded'', ''multipart/form-data'', ''text/plain'']"

definition unsafe_byte :: "char \<Rightarrow> bool" where
  "unsafe_byte c \<longleftrightarrow>
     char_nat c < 32 \<and> c \<noteq> CHR 0x09 \<or> c \<in> set [CHR 0x22, CHR 0x5C, CHR 0x7F] \<or> c \<in> set ''():<>?@[]{}''"

definition language_char :: "char \<Rightarrow> bool" where
  "language_char c \<longleftrightarrow> is_alnum c \<or> c \<in> set '' *,-.;=''"

text \<open>\<open>/^bytes=\d+-\d*$/\<close>\<close>

definition simple_range :: "string \<Rightarrow> bool" where
  "simple_range v \<longleftrightarrow> starts_with v ''bytes='' \<and>
     (let (ds, r) = span_of is_digit (drop 6 v)
      in ds \<noteq> [] \<and> starts_with r ''-'' \<and> list_all is_digit (tl r))"

definition unsafe_header :: "string \<times> string \<Rightarrow> string option" where
  "unsafe_header h =
     (let (name, v) = h; lower = to_lower name; bad = Some (''the value of '' @ name);
          long = 128 < byte_length v
      in if lower = ''accept'' then (if list_ex unsafe_byte v \<or> long then bad else None)
         else if lower = ''accept-language'' \<or> lower = ''content-language''
         then (if \<not> list_all language_char v \<or> long then bad else None)
         else if lower = ''content-type'' then
           (if list_ex unsafe_byte v \<or> long then bad
            else if to_lower (trim (hd (split_on CHR '';'' v))) \<in> set SAFE_CONTENT_TYPES then None
            else Some (''Content-Type: '' @ v))
         else if lower = ''range'' then (if simple_range v then None else bad)
         else Some (''the header '' @ name))"

text \<open>\<open>/^127(\.\d{1,3}){3}$/\<close>\<close>

definition loopback_v4 :: "string \<Rightarrow> bool" where
  "loopback_v4 hostname \<longleftrightarrow>
     (case split_on CHR ''.'' hostname of
        [a, b, c, d] \<Rightarrow> a = ''127'' \<and> list_all (\<lambda>p. 1 \<le> length p \<and> length p \<le> 3 \<and> list_all is_digit p) [b, c, d]
      | _ \<Rightarrow> False)"

definition is_loopback :: "string \<Rightarrow> bool" where
  "is_loopback hostname \<longleftrightarrow>
     hostname = ''localhost'' \<or> ends_with hostname ''.localhost'' \<or> hostname = ''[::1]'' \<or> loopback_v4 hostname"

definition BRIDGE_SETS :: "string list" where
  "BRIDGE_SETS =
     [''connection'', ''keep-alive'', ''proxy-authenticate'', ''proxy-authorization'', ''te'', ''trailer'',
      ''transfer-encoding'', ''upgrade'', ''content-length'']"

section \<open>The limits\<close>

definition sent_headers_of :: "limits_request \<Rightarrow> (string \<times> string) list" where
  "sent_headers_of q = filter (\<lambda>h. \<not> is_forbidden h) (lq_headers q)"

definition cross_origin :: "(string \<Rightarrow> url option) \<Rightarrow> limits_request \<Rightarrow> string \<Rightarrow> bool" where
  "cross_origin parse q page_origin \<longleftrightarrow>
     (case parse (lq_url q) of None \<Rightarrow> False | Some u \<Rightarrow> u_origin u \<noteq> page_origin)"

definition safelisted_bytes :: "(string \<times> string) list \<Rightarrow> nat" where
  "safelisted_bytes hs = sum_list (map (\<lambda>h. byte_length (snd h)) (filter (\<lambda>h. unsafe_header h = None) hs))"

definition preflight_reasons :: "limits_request \<Rightarrow> string list" where
  "preflight_reasons q =
     (let verb = to_upper (lq_method q); sent = sent_headers_of q
      in (if verb \<in> {''GET'', ''HEAD'', ''POST''} then [] else [''the method '' @ verb]) @
         List.map_filter unsafe_header sent @
         (if 1024 < safelisted_bytes sent then [''safelisted headers over 1024 bytes together''] else []))"

definition mixed_content_of :: "(string \<Rightarrow> url option) \<Rightarrow> limits_request \<Rightarrow> string \<Rightarrow> mixed_content option" where
  "mixed_content_of parse q page_origin =
     (case parse (lq_url q) of
        None \<Rightarrow> None
      | Some u \<Rightarrow>
          if starts_with page_origin ''https:'' \<and> u_protocol u = ''http:''
          then Some (if is_loopback (u_hostname u) then Loopback else Blocked) else None)"

definition added_headers :: "bool \<Rightarrow> string \<Rightarrow> (string \<times> string) list \<Rightarrow> string list" where
  "added_headers cross verb sent =
     (let has = (\<lambda>name. list_ex (\<lambda>(n, _). to_lower n = name) sent)
      in (if cross \<or> verb \<noteq> ''GET'' \<and> verb \<noteq> ''HEAD'' then [''Origin''] else []) @
         [''Sec-Fetch-Dest'', ''Sec-Fetch-Mode'', ''Sec-Fetch-Site''] @
         (if has ''accept'' then [] else [''Accept'']) @ [''Accept-Encoding''] @
         (if has ''accept-language'' then [] else [''Accept-Language'']) @
         (if has ''user-agent'' then [] else [''User-Agent'']))"

definition limits_of :: "(string \<Rightarrow> url option) \<Rightarrow> limits_request \<Rightarrow> string \<Rightarrow> sent_route \<Rightarrow> browser_limits" where
  "limits_of parse q page_origin route =
     (case route of
        ThroughBridge \<Rightarrow>
          \<lparr>bl_route = ThroughBridge, bl_dropped = map fst (filter (\<lambda>(n, _). to_lower n \<in> set BRIDGE_SETS) (lq_headers q)),
           bl_cross_origin = False, bl_preflight = [], bl_mixed_content = None, bl_adds = [], bl_suppresses = []\<rparr>
      | FromPage \<Rightarrow>
          (let cross = cross_origin parse q page_origin
           in \<lparr>bl_route = FromPage, bl_dropped = map fst (filter is_forbidden (lq_headers q)), bl_cross_origin = cross,
               bl_preflight = (if cross then preflight_reasons q else []),
               bl_mixed_content = mixed_content_of parse q page_origin,
               bl_adds = added_headers cross (to_upper (lq_method q)) (sent_headers_of q),
               bl_suppresses = [''Referer'', ''Cookie'']\<rparr>))"

section \<open>The route\<close>

definition route_of :: "route option \<Rightarrow> route option \<Rightarrow> route \<Rightarrow> route" where
  "route_of own of_collection device =
     (case own of Some r \<Rightarrow> r | None \<Rightarrow> (case of_collection of Some r \<Rightarrow> r | None \<Rightarrow> device))"

definition SAFE :: "string list" where
  "SAFE = [''GET'', ''HEAD'', ''OPTIONS'']"

datatype after_direct = Keep | Retry | Ask

definition after_direct_send :: "(string \<Rightarrow> url option) \<Rightarrow> limits_request \<Rightarrow> string \<Rightarrow> bool \<Rightarrow> after_direct" where
  "after_direct_send parse q page_origin failed =
     (if \<not> failed then Keep
      else if to_upper (lq_method q) \<in> set SAFE then Retry
      else if bl_preflight (limits_of parse q page_origin FromPage) \<noteq> [] then Retry
      else Ask)"

section \<open>Properties\<close>

text \<open>
  The standard's word for a request that is sent with no question asked first: a simple method,
  every header safelisted, none of their values long, and not much of them together.
\<close>

definition safelisted :: "string \<times> string \<Rightarrow> bool" where
  "safelisted h \<longleftrightarrow>
     to_lower (fst h) \<in> {''accept'', ''accept-language'', ''content-language'', ''content-type'', ''range''} \<and>
     (to_lower (fst h) \<noteq> ''range'' \<longrightarrow> byte_length (snd h) \<le> 128)"

definition simple_request :: "limits_request \<Rightarrow> bool" where
  "simple_request q \<longleftrightarrow> to_upper (lq_method q) \<in> {''GET'', ''HEAD'', ''POST''} \<and>
     list_all safelisted (sent_headers_of q) \<and>
     sum_list (map (\<lambda>h. byte_length (snd h)) (sent_headers_of q)) \<le> 1024"

lemma map_filter_empty: "List.map_filter f xs = [] \<longleftrightarrow> (\<forall>x \<in> set xs. f x = None)"
  by (induction xs) (auto simp: List.map_filter_def split: option.splits)

lemma unsafe_header_None: "unsafe_header h = None \<Longrightarrow> safelisted h"
  by (auto simp: unsafe_header_def safelisted_def Let_def split: if_splits prod.splits)

lemma no_reasons_simple:
  assumes "preflight_reasons q = []"
  shows "simple_request q"
proof -
  have verb: "to_upper (lq_method q) \<in> {''GET'', ''HEAD'', ''POST''}"
    and none: "\<forall>h \<in> set (sent_headers_of q). unsafe_header h = None"
    and few: "\<not> 1024 < safelisted_bytes (sent_headers_of q)"
    using assms by (auto simp: preflight_reasons_def Let_def map_filter_empty split: if_splits)
  have "filter (\<lambda>h. unsafe_header h = None) (sent_headers_of q) = sent_headers_of q"
    using none by (simp add: filter_id_conv)
  with few have "sum_list (map (\<lambda>h. byte_length (snd h)) (sent_headers_of q)) \<le> 1024"
    by (simp add: safelisted_bytes_def)
  moreover have "list_all safelisted (sent_headers_of q)"
    using none unsafe_header_None by (auto simp: list_all_iff)
  ultimately show ?thesis using verb by (simp add: simple_request_def)
qed

text \<open>
  What a preflight is left out for: a request to another origin that is said to need none has
  a simple method and only safelisted headers, none of them of more than 128 bytes (a range
  apart), all of them of at most 1024 bytes together.
\<close>

theorem no_preflight_is_simple:
  assumes "cross_origin parse q page_origin"
    and "bl_preflight (limits_of parse q page_origin FromPage) = []"
  shows "simple_request q"
  using assms by (intro no_reasons_simple) (simp add: limits_of_def Let_def)

definition limits_url :: "string \<Rightarrow> url option" where
  "limits_url s = Some \<lparr>u_protocol = ''https:'', u_login = [], u_hostname = ''b.io'', u_port = [], u_path = ''/'',
     u_search = [], u_hash = [], u_pairs = []\<rparr>"

definition form_post :: limits_request where
  "form_post = \<lparr>lq_method = ''post'', lq_url = ''https://b.io/'', lq_headers =
     [(''Content-Type'', ''text/plain; charset=utf-8''), (''Cookie'', ''a=b'')]\<rparr>"

lemma no_preflight_is_simple_witness: "simple_request form_post"
  by (rule no_preflight_is_simple [where parse = limits_url and page_origin = "''https://a.io''"]) code_simp+

text \<open>
  A request is sent a second time without a question only when that is safe: when nothing was
  answered and its method changes nothing on the server, or the browser had to ask the server
  first, for a reason it names. A form posted across origins, which needs no preflight, is never
  sent twice unasked.
\<close>

theorem retry_is_safe:
  assumes "after_direct_send parse q page_origin failed = Retry"
  shows "failed \<and> (to_upper (lq_method q) \<in> {''GET'', ''HEAD'', ''OPTIONS''} \<or>
    cross_origin parse q page_origin \<and> (\<exists>reason. reason \<in> set (preflight_reasons q)))"
proof -
  have "failed" using assms by (auto simp: after_direct_send_def split: if_splits)
  moreover have "cross_origin parse q page_origin \<and> preflight_reasons q \<noteq> []"
    if "to_upper (lq_method q) \<notin> set SAFE"
    using assms that by (auto simp: after_direct_send_def limits_of_def Let_def split: if_splits)
  ultimately show ?thesis using last_in_set by (auto simp: SAFE_def)
qed

lemma retry_is_safe_witness:
  "cross_origin limits_url (form_post\<lparr>lq_headers := [(''X-Id'', ''1'')]\<rparr>) ''https://a.io'' \<and>
   (\<exists>reason. reason \<in> set (preflight_reasons (form_post\<lparr>lq_headers := [(''X-Id'', ''1'')]\<rparr>)))"
proof -
  have "after_direct_send limits_url (form_post\<lparr>lq_headers := [(''X-Id'', ''1'')]\<rparr>) ''https://a.io'' True = Retry" by code_simp
  moreover have "to_upper (lq_method (form_post\<lparr>lq_headers := [(''X-Id'', ''1'')]\<rparr>)) \<notin> {''GET'', ''HEAD'', ''OPTIONS''}" by code_simp
  ultimately show ?thesis using retry_is_safe by blast
qed

lemma form_post_asks: "after_direct_send limits_url form_post ''https://a.io'' True = Ask"
  by code_simp

end
