(* ===== verification/Bodies.thy ===== *)
theory Bodies
  imports Sse Encoding JsonText
begin

text \<open>
  Bodies as they arrive and as they are shown: \<open>readBody\<close> and \<open>readEventStream\<close> of
  \<open>packages/core/src/transport/transport.ts\<close>, and \<open>http/response-body.ts\<close>. A response is the list
  of the chunks its reader gives and, for an event stream, whether the reading was aborted or
  failed after them. The platform's \<open>TextDecoder\<close> is a parameter: a label and whether it is fatal give
  a decoder of bytes; a decoder that is fed piece by piece is one with a state.
\<close>

section \<open>Reading a body\<close>

datatype received = Buffer "byte list" | Blob "byte list"

primrec received_bytes :: "received \<Rightarrow> byte list" where
  "received_bytes (Buffer bs) = bs"
| "received_bytes (Blob bs) = bs"

definition DISPLAY_CAP_BYTES :: nat where
  "DISPLAY_CAP_BYTES = 50 * 1024 * 1024"

definition FOLD_BYTES :: nat where
  "FOLD_BYTES = 8 * 1024 * 1024"

text \<open>What has been read: the chunks held in memory, their length, and the blob they are folded into.\<close>

record body_reader =
  rd_chunks :: "byte list list"
  rd_pending :: nat
  rd_blob :: "byte list option"

definition read_chunk :: "nat \<Rightarrow> byte list \<Rightarrow> body_reader \<Rightarrow> body_reader" where
  "read_chunk cap chunk rd =
     (let chunks = rd_chunks rd @ [chunk]; pending = rd_pending rd + length chunk
      in if cap < pending \<or> rd_blob rd \<noteq> None \<and> FOLD_BYTES < pending
         then \<lparr>rd_chunks = [], rd_pending = 0,
                rd_blob = Some ((case rd_blob rd of None \<Rightarrow> [] | Some b \<Rightarrow> b) @ concat chunks)\<rparr>
         else rd\<lparr>rd_chunks := chunks, rd_pending := pending\<rparr>)"

definition read_body :: "nat \<Rightarrow> byte list list \<Rightarrow> received" where
  "read_body cap arriving =
     (let rd = fold (read_chunk cap) arriving \<lparr>rd_chunks = [], rd_pending = 0, rd_blob = None\<rparr>
      in case rd_blob rd of
           Some b \<Rightarrow> Blob (b @ concat (rd_chunks rd))
         | None \<Rightarrow> Buffer (concat (rd_chunks rd)))"

section \<open>Reading an event stream\<close>

definition STREAM_BODY_BYTES :: nat where
  "STREAM_BODY_BYTES = 1024 * 1024"

datatype stream_end = Ended | Aborted | Failed string

record 'd stream_reader =
  sr_kept :: "byte list"
  sr_truncated :: bool
  sr_parser :: sse_parser
  sr_decoder :: 'd
  sr_events :: "sse_event list"

definition read_stream_chunk ::
    "('d \<Rightarrow> byte list \<Rightarrow> string \<times> 'd) \<Rightarrow> byte list \<Rightarrow> 'd stream_reader \<Rightarrow> 'd stream_reader" where
  "read_stream_chunk decode chunk sr =
     (let room = STREAM_BODY_BYTES - length (sr_kept sr);
          (t, decoder) = decode (sr_decoder sr) chunk;
          (events, parser) = sse_push t (sr_parser sr)
      in \<lparr>sr_kept = sr_kept sr @ take room chunk,
          sr_truncated = (sr_truncated sr \<or> room < length chunk),
          sr_parser = parser, sr_decoder = decoder, sr_events = sr_events sr @ events\<rparr>)"

text \<open>The body, whether it was stopped and whether it was cut, and the events; or what failed.\<close>

definition read_event_stream ::
    "('d \<Rightarrow> byte list \<Rightarrow> string \<times> 'd) \<Rightarrow> 'd \<Rightarrow> byte list list \<Rightarrow> stream_end \<Rightarrow>
      (string + byte list \<times> bool \<times> bool) \<times> sse_event list" where
  "read_event_stream decode decoder arriving ending =
     (let sr = fold (read_stream_chunk decode) arriving
            \<lparr>sr_kept = [], sr_truncated = False, sr_parser = new_sse_parser, sr_decoder = decoder, sr_events = []\<rparr>
      in (case ending of
            Failed m \<Rightarrow> Inl m
          | Aborted \<Rightarrow> Inr (sr_kept sr, True, sr_truncated sr)
          | Ended \<Rightarrow> Inr (sr_kept sr, False, sr_truncated sr), sr_events sr))"

section \<open>What is shown of a body\<close>

datatype shown_body = NullBody | TextShown string | JsonShown json | BinaryBody received string

datatype decoded = BadLabel | BadBytes | Decoded string

type_synonym text_decoder = "string \<Rightarrow> bool \<Rightarrow> byte list \<Rightarrow> decoded"

definition is_json_type :: "string \<Rightarrow> bool" where
  "is_json_type ty \<longleftrightarrow> contains (to_lower ty) ''json''"

definition TEXT_WORDS :: "string list" where
  "TEXT_WORDS = [''javascript'', ''ecmascript'', ''x-www-form-urlencoded'', ''graphql'', ''yaml'', ''csv'']"

definition is_text_type :: "string \<Rightarrow> bool" where
  "is_text_type media_type \<longleftrightarrow>
     (let ty = to_lower media_type;
          subtype = (case index_of (CHR ''/'') ty of None \<Rightarrow> ty | Some i \<Rightarrow> drop (Suc i) ty)
      in starts_with ty ''text/'' \<or> subtype = ''xml'' \<or> starts_with subtype ''xml-'' \<or> ends_with subtype ''+xml'' \<or>
         list_ex (contains ty) TEXT_WORDS)"

text \<open>\<open>/;\s*charset\s*=\s*"?([^";\s]+)"?/i\<close>, at the start of a text, and where it first matches.\<close>

definition charset_here :: "string \<Rightarrow> string option" where
  "charset_here s =
     (case s of
        [] \<Rightarrow> None
      | c # r \<Rightarrow>
          if c \<noteq> CHR '';'' then None
          else (let a = dropWhile js_space r
                in if \<not> starts_with (to_lower a) ''charset'' then None
                   else (case dropWhile js_space (drop 7 a) of
                           [] \<Rightarrow> None
                         | e # v \<Rightarrow>
                             if e \<noteq> CHR ''='' then None
                             else (let w = dropWhile js_space v;
                                       x = (case w of [] \<Rightarrow> [] | q # y \<Rightarrow> if q = CHR 0x22 then y else w);
                                       name = takeWhile (\<lambda>c. c \<noteq> CHR 0x22 \<and> c \<noteq> CHR '';'' \<and> \<not> js_space c) x
                                   in if name = [] then None else Some name))))"

fun charset_match :: "string \<Rightarrow> string option" where
  "charset_match [] = None"
| "charset_match (c # s) = (case charset_here (c # s) of Some n \<Rightarrow> Some n | None \<Rightarrow> charset_match s)"

definition charset_of :: "string \<Rightarrow> string" where
  "charset_of content_type = (case charset_match content_type of Some n \<Rightarrow> n | None \<Rightarrow> ''utf-8'')"

text \<open>A decoder that is not fatal replaces what it cannot read, so \<open>BadBytes\<close> is a fatal one's alone.\<close>

definition decode_text :: "text_decoder \<Rightarrow> byte list \<Rightarrow> string \<Rightarrow> string" where
  "decode_text decoder bytes charset =
     (case decoder charset False bytes of
        Decoded t \<Rightarrow> t
      | _ \<Rightarrow> (case decoder ''utf-8'' False bytes of Decoded t \<Rightarrow> t | _ \<Rightarrow> []))"

fun is_object :: "json \<Rightarrow> bool" where
  "is_object (JObj _) = True"
| "is_object (JArr _) = True"
| "is_object _ = False"

definition shown_text :: "string \<Rightarrow> string \<Rightarrow> shown_body" where
  "shown_text media_type t =
     (let trimmed = trim t
      in if is_json_type media_type \<or> starts_with trimmed ''{'' \<or> starts_with trimmed ''[''
         then (case parse_json t of
                 Some v \<Rightarrow> if v \<noteq> JNull \<and> (is_json_type media_type \<or> is_object v) then JsonShown v else TextShown t
               | None \<Rightarrow> TextShown t)
         else TextShown t)"

definition media_type_of :: "string option \<Rightarrow> string" where
  "media_type_of content_type =
     (case content_type of None \<Rightarrow> [] | Some t \<Rightarrow> trim (hd (split_on (CHR '';'') (trim t))))"

definition decode_response_body :: "text_decoder \<Rightarrow> byte list \<Rightarrow> string option \<Rightarrow> shown_body" where
  "decode_response_body decoder bytes content_type =
     (if bytes = [] then NullBody
      else
        (let ty = (case content_type of None \<Rightarrow> [] | Some t \<Rightarrow> trim t); media_type = media_type_of content_type
         in if media_type = [] then
              (case decoder ''utf-8'' True bytes of
                 Decoded t \<Rightarrow> shown_text media_type t
               | _ \<Rightarrow> BinaryBody (Buffer bytes) [])
            else if is_json_type media_type \<or> is_text_type media_type
            then shown_text media_type (decode_text decoder bytes (charset_of ty))
            else BinaryBody (Buffer bytes) media_type))"

definition decode_received :: "text_decoder \<Rightarrow> (string \<times> string) list \<Rightarrow> received \<Rightarrow> shown_body" where
  "decode_received decoder headers body =
     (let content_type = map_option snd (List.find (\<lambda>(n, _). to_lower n = ''content-type'') headers)
      in case body of
           Blob bs \<Rightarrow> BinaryBody (Blob bs) (trim (hd (split_on (CHR '';'') (case content_type of None \<Rightarrow> [] | Some t \<Rightarrow> t))))
         | Buffer bs \<Rightarrow> decode_response_body decoder bs content_type)"

section \<open>Lemmas\<close>

text \<open>The reader's state against all that has arrived: nothing is lost, and the memory is bounded.\<close>

definition reader_ok :: "nat \<Rightarrow> byte list \<Rightarrow> body_reader \<Rightarrow> bool" where
  "reader_ok cap arrived rd \<longleftrightarrow>
     rd_pending rd = length (concat (rd_chunks rd)) \<and> rd_pending rd \<le> cap \<and>
     (case rd_blob rd of
        None \<Rightarrow> arrived = concat (rd_chunks rd)
      | Some b \<Rightarrow> arrived = b @ concat (rd_chunks rd) \<and> cap < length arrived \<and> rd_pending rd \<le> FOLD_BYTES)"

lemma read_chunk_ok: "reader_ok cap arrived rd \<Longrightarrow> reader_ok cap (arrived @ chunk) (read_chunk cap chunk rd)"
  by (cases "rd_blob rd") (auto simp: reader_ok_def read_chunk_def Let_def)

lemma read_chunks_ok: "reader_ok cap arrived rd \<Longrightarrow> reader_ok cap (arrived @ concat chunks) (fold (read_chunk cap) chunks rd)"
proof (induction chunks arbitrary: arrived rd)
  case (Cons chunk chunks)
  from Cons.IH [OF read_chunk_ok [OF Cons.prems]] show ?case by simp
qed simp

lemma reader_start: "reader_ok cap [] \<lparr>rd_chunks = [], rd_pending = 0, rd_blob = None\<rparr>"
  by (simp add: reader_ok_def)

text \<open>
  C24: a body is read whole: what is given is what arrived, every byte in its order, as bytes when it is no longer than
  the cap and as a blob when it is longer; and at no time are more than the cap, or beyond it
  more than 8 MB, held in memory outside the blob.
\<close>

theorem body_read_whole:
  "read_body cap chunks =
     (if length (concat chunks) \<le> cap then Buffer (concat chunks) else Blob (concat chunks)) \<and>
   (let rd = fold (read_chunk cap) (take n chunks) \<lparr>rd_chunks = [], rd_pending = 0, rd_blob = None\<rparr>
    in length (concat (rd_chunks rd)) \<le> cap \<and> (rd_blob rd = None \<or> length (concat (rd_chunks rd)) \<le> FOLD_BYTES))"
proof -
  let ?start = "\<lparr>rd_chunks = [], rd_pending = 0, rd_blob = None\<rparr>"
  have ok: "reader_ok cap (concat ch) (fold (read_chunk cap) ch ?start)" for ch
    using read_chunks_ok [OF reader_start, of cap ch] by simp
  show ?thesis
    using ok [of chunks] ok [of "take n chunks"]
    by (auto simp: read_body_def reader_ok_def Let_def split: option.splits)
qed

lemma stream_chunk_kept:
  assumes "sr_kept sr = take STREAM_BODY_BYTES arrived" "sr_truncated sr \<longleftrightarrow> STREAM_BODY_BYTES < length arrived"
  shows "sr_kept (read_stream_chunk decode chunk sr) = take STREAM_BODY_BYTES (arrived @ chunk)"
    "sr_truncated (read_stream_chunk decode chunk sr) \<longleftrightarrow> STREAM_BODY_BYTES < length (arrived @ chunk)"
  using assms by (auto simp: read_stream_chunk_def Let_def take_append split: prod.splits)

lemma stream_chunks_kept:
  "sr_kept sr = take STREAM_BODY_BYTES arrived \<Longrightarrow> sr_truncated sr \<longleftrightarrow> STREAM_BODY_BYTES < length arrived \<Longrightarrow>
   sr_kept (fold (read_stream_chunk decode) chunks sr) = take STREAM_BODY_BYTES (arrived @ concat chunks) \<and>
   (sr_truncated (fold (read_stream_chunk decode) chunks sr) \<longleftrightarrow> STREAM_BODY_BYTES < length (arrived @ concat chunks))"
proof (induction chunks arbitrary: arrived sr)
  case (Cons chunk chunks)
  from Cons.IH [OF stream_chunk_kept [OF Cons.prems], of decode chunk] show ?case by simp
qed simp

text \<open>
  Of an event stream at most 1 MB is kept: its body is the start of what arrived, it is said
  to be cut exactly when more arrived, and stopping the stream gives what had arrived as a response; only a failure
  that is not the user's stop is an error.
\<close>

theorem stream_body_bounded:
  "fst (read_event_stream decode decoder chunks ending) =
     (case ending of
        Failed m \<Rightarrow> Inl m
      | _ \<Rightarrow> Inr (take STREAM_BODY_BYTES (concat chunks), ending = Aborted, STREAM_BODY_BYTES < length (concat chunks)))"
  using stream_chunks_kept [of _ "[]" decode chunks]
  by (simp add: read_event_stream_def Let_def split: stream_end.splits)

end
