(* ===== verification/ScriptChanges.thy ===== *)
theory ScriptChanges
  imports RequestView Redact Assertions ExchangeRecord Bodies Build Bridge
begin

text \<open>
  What a send needs of whoever runs it (\<open>ExchangePorts\<close> of \<open>packages/core/src/send/exchange.ts\<close>), and
  how what a script changed is stored (\<open>applyChanges\<close>, \<open>intoVault\<close>). A port is a
  field of \<open>ports\<close> that changes a world \<open>'w\<close>; the ports are the app's or the command
  line's, so what the properties need of them is a hypothesis. The time a script or a send
  takes is read from the world before and after.
\<close>

section \<open>A script's run\<close>

record script_changes =
  chg_environment :: "variable_change list"
  chg_collection :: "variable_change list"
  chg_global :: "variable_change list"

definition empty_changes :: script_changes where
  "empty_changes = \<lparr>chg_environment = [], chg_collection = [], chg_global = []\<rparr>"

text \<open>Of \<open>sr_next\<close>, \<open>Some None\<close> is \<open>null\<close> and \<open>None\<close> is a script that named none.\<close>

record script_result =
  sr_logs :: "string list"
  sr_changes :: script_changes
  sr_tests :: "test_result list"
  sr_error :: "string option"
  sr_request :: "script_request option"
  sr_next :: "string option option"
  sr_skip :: bool

record script_send =
  ss_method :: string
  ss_url :: string
  ss_headers :: "(string \<times> string) list"
  ss_body :: "string option"

record script_response =
  sp_code :: nat
  sp_status :: string
  sp_headers :: "(string \<times> string) list"
  sp_body :: string
  sp_time :: int
  sp_size :: nat

record response_context =
  rx_status :: nat
  rx_status_text :: string
  rx_body :: shown_body
  rx_headers :: "(string \<times> string) list"
  rx_duration :: int
  rx_size :: "nat option"

datatype script_event = Prerequest | Test

record 'w script_extras =
  se_environment_name :: string
  se_folder :: "script_variable list"
  se_collection :: "script_variable list"
  se_globals :: "script_variable list"
  se_data :: "script_variable list option"
  se_request :: script_request
  se_event :: script_event
  se_request_name :: string
  se_request_id :: string
  se_iteration :: "(nat \<times> nat) option"
  se_send :: "script_send \<Rightarrow> 'w \<Rightarrow> (string + script_response) \<times> 'w"

section \<open>The transport\<close>

text \<open>A request as it is handed to a route, and the answer of one.\<close>

record outgoing =
  og_method :: string
  og_url :: string
  og_headers :: "(string \<times> string) list"
  og_body :: "body_data option"

record answer =
  an_status :: nat
  an_status_text :: string
  an_headers :: "(string \<times> string) list"
  an_body :: received
  an_redirected :: bool
  an_final_url :: string
  an_route :: exchange_route
  an_decoded_size :: nat
  an_stream :: "(bool \<times> bool) option"
  an_redirects :: "(redirect_hop list \<times> redirect_stop option) option"
  an_timings :: "(string \<times> decimal) list option"
  an_insecure :: bool

text \<open>
  What a send leaves behind while it goes: the cookies of the request itself and the value of
  every cookie that went out, and what the route wrote into its policy.
\<close>

record send_trace =
  tc_sent :: "cookie list option"
  tc_values :: "string list"
  tc_took :: "exchange_route option"
  tc_unpaired :: bool

definition fresh_trace :: send_trace where
  "fresh_trace = \<lparr>tc_sent = None, tc_values = [], tc_took = None, tc_unpaired = False\<rparr>"

type_synonym 'w traced = "'w \<times> send_trace"

record 'w send_options =
  so_timeout :: nat
  so_events :: bool
  so_redirects :: "redirect_policy option"
  so_cookies :: "((string \<Rightarrow> 'w traced \<Rightarrow> cookie list \<times> 'w traced) \<times> (string \<Rightarrow> string list \<Rightarrow> 'w traced \<Rightarrow> 'w traced)) option"
  so_insecure :: bool
  so_route :: route
  so_ask :: "('w \<Rightarrow> bool \<times> 'w) option"

section \<open>The ports\<close>

text \<open>What a route gives: an answer, an error of the transport, or anything else that was thrown.\<close>

record 'w ports =
  xp_run_script :: "string \<Rightarrow> script_variable list \<Rightarrow> response_context option \<Rightarrow> 'w script_extras \<Rightarrow> 'w \<Rightarrow>
    (string + script_result) \<times> 'w"
  xp_transport :: "outgoing \<Rightarrow> 'w send_options \<Rightarrow> 'w traced \<Rightarrow> (string + (transport_error + answer)) \<times> 'w traced"
  xp_route :: "'w \<Rightarrow> route"
  xp_first :: "route \<Rightarrow> exchange_route"
  xp_environment :: "'w \<Rightarrow> (string \<times> row list) option"
  xp_change_environment :: "variable_change list \<Rightarrow> 'w \<Rightarrow> 'w"
  xp_globals :: "'w \<Rightarrow> row list"
  xp_change_globals :: "variable_change list \<Rightarrow> 'w \<Rightarrow> 'w"
  xp_unlocked :: "'w \<Rightarrow> bool"
  xp_read_secret :: "string \<Rightarrow> 'w \<Rightarrow> string option \<times> 'w"
  xp_replace_secret :: "string \<Rightarrow> string \<Rightarrow> 'w \<Rightarrow> bool \<times> 'w"
  xp_cookies :: "((string \<Rightarrow> 'w \<Rightarrow> cookie list) \<times> (string \<Rightarrow> string list \<Rightarrow> string list \<Rightarrow> 'w \<Rightarrow> 'w)) option"
  xp_timeout :: "'w \<Rightarrow> nat"
  xp_history_bodies :: "'w \<Rightarrow> bool"
  xp_page :: "string option"
  xp_online :: "'w \<Rightarrow> bool option"
  xp_sending :: "string \<Rightarrow> 'w \<Rightarrow> 'w"
  xp_received :: "string \<Rightarrow> 'w \<Rightarrow> 'w"
  xp_date :: "'w \<Rightarrow> rat"
  xp_clock :: "'w \<Rightarrow> rat"

text \<open>The collection of a request: its variables, read when a script starts, and the way to change them.\<close>

type_synonym 'w collection_port = "('w \<Rightarrow> row list) \<times> (variable_change list \<Rightarrow> 'w \<Rightarrow> 'w)"

section \<open>Into the vault\<close>

record 'w vault_step =
  vs_rest :: "variable_change list"
  vs_notes :: "string list"
  vs_replaced :: "(string \<times> string) list"
  vs_world :: 'w

definition protected_reference :: "row list \<Rightarrow> string \<Rightarrow> (string \<times> string) option" where
  "protected_reference rows k =
     (case List.find (\<lambda>r. row_key r = k \<and> protected_secret_id (row_value r) \<noteq> None) rows of
        None \<Rightarrow> None
      | Some r \<Rightarrow> map_option (\<lambda>i. (row_value r, i)) (protected_secret_id (row_value r)))"

definition refused :: "string \<Rightarrow> string \<Rightarrow> string \<Rightarrow> string" where
  "refused api k why = ''[warn] '' @ api @ ''.set('' @ json_quoted k @ ''): '' @ why @ '', so its value was not changed.''"

definition replace_step :: "'w ports \<Rightarrow> string \<Rightarrow> string \<Rightarrow> string \<Rightarrow> string \<Rightarrow> 'w vault_step \<Rightarrow> 'w vault_step" where
  "replace_step ports api k i v st =
     (let missing = refused api k ''the secret this variable refers to is not in the vault''
      in if \<not> xp_unlocked ports (vs_world st)
         then st\<lparr>vs_notes := vs_notes st @ [refused api k ''this variable is protected and the vault is locked'']\<rparr>
         else
           (case xp_read_secret ports i (vs_world st) of
              (None, w1) \<Rightarrow> st\<lparr>vs_notes := vs_notes st @ [missing], vs_world := w1\<rparr>
            | (Some old, w1) \<Rightarrow>
                (case xp_replace_secret ports i v w1 of
                   (False, w2) \<Rightarrow> st\<lparr>vs_notes := vs_notes st @ [missing], vs_world := w2\<rparr>
                 | (True, w2) \<Rightarrow>
                     st\<lparr>vs_replaced := (if om_has (vs_replaced st) i then vs_replaced st else om_set i old (vs_replaced st)),
                       vs_world := w2\<rparr>)))"

definition into_vault_step :: "'w ports \<Rightarrow> string \<Rightarrow> row list \<Rightarrow> variable_change \<Rightarrow> 'w vault_step \<Rightarrow> 'w vault_step" where
  "into_vault_step ports api rows change st =
     (case (vc_value change, protected_reference rows (vc_key change)) of
        (Some v, Some (reference, i)) \<Rightarrow>
          if trim v = trim reference then st else replace_step ports api (vc_key change) i v st
      | _ \<Rightarrow> st\<lparr>vs_rest := vs_rest st @ [change]\<rparr>)"

definition into_vault ::
    "'w ports \<Rightarrow> string \<Rightarrow> row list \<Rightarrow> variable_change list \<Rightarrow> string list \<Rightarrow> (string \<times> string) list \<Rightarrow> 'w \<Rightarrow> 'w vault_step" where
  "into_vault ports api rows changes notes replaced w =
     fold (into_vault_step ports api rows) changes
       \<lparr>vs_rest = [], vs_notes = notes, vs_replaced = replaced, vs_world = w\<rparr>"

section \<open>Storing what a script changed\<close>

definition kept_change :: "redactor option \<Rightarrow> variable_change \<Rightarrow> variable_change" where
  "kept_change secrets c =
     \<lparr>vc_key = vc_key c,
      vc_value = (case (vc_value c, secrets) of (Some v, Some rd) \<Rightarrow> Some (red_text rd v) | (v, _) \<Rightarrow> v),
      vc_json = vc_json c, vc_keep_secret = True, vc_off = False\<rparr>"

definition store_environment ::
    "'w ports \<Rightarrow> (string \<times> row list) option \<Rightarrow> variable_change list \<Rightarrow> string list \<times> 'w \<Rightarrow> string list \<times> 'w" where
  "store_environment ports active changes nw =
     (if changes = [] then nw
      else if active \<noteq> None then (fst nw, xp_change_environment ports changes (snd nw))
      else (fst nw @ [''[warn] pm.environment: no environment is active, so what the script set was not kept.''], snd nw))"

definition store_globals :: "'w ports \<Rightarrow> variable_change list \<Rightarrow> string list \<times> 'w \<Rightarrow> string list \<times> 'w" where
  "store_globals ports changes nw = (if changes = [] then nw else (fst nw, xp_change_globals ports changes (snd nw)))"

definition store_collection ::
    "'w collection_port option \<Rightarrow> variable_change list \<Rightarrow> string list \<times> 'w \<Rightarrow> string list \<times> 'w" where
  "store_collection coll changes nw =
     (if changes = [] then nw
      else (case coll of
              Some (_, change) \<Rightarrow> (fst nw, change changes (snd nw))
            | None \<Rightarrow>
                (fst nw @ [''[warn] pm.collectionVariables: this request is in no collection, so what the script set was not kept.''],
                 snd nw)))"

record 'w applied =
  ap_notes :: "string list"
  ap_replaced :: "(string \<times> string) list"
  ap_world :: 'w

definition apply_changes ::
    "'w ports \<Rightarrow> 'w collection_port option \<Rightarrow> script_changes \<Rightarrow> string list \<Rightarrow> redactor option \<Rightarrow> 'w \<Rightarrow> 'w applied" where
  "apply_changes ports coll changes notes secrets w =
     (let active = xp_environment ports w;
          e = into_vault ports ''pm.environment'' (case active of None \<Rightarrow> [] | Some (_, rows) \<Rightarrow> rows)
                (chg_environment changes) notes [] w;
          g = into_vault ports ''pm.globals'' (xp_globals ports (vs_world e)) (chg_global changes)
                (vs_notes e) (vs_replaced e) (vs_world e);
          c = into_vault ports ''pm.collectionVariables'' (case coll of None \<Rightarrow> [] | Some (rows, _) \<Rightarrow> rows (vs_world g))
                (chg_collection changes) (vs_notes g) (vs_replaced g) (vs_world g);
          kept = map (kept_change secrets);
          stored = store_collection coll (kept (vs_rest c))
            (store_globals ports (kept (vs_rest g))
              (store_environment ports active (kept (vs_rest e)) (vs_notes c, vs_world c)))
      in \<lparr>ap_notes = fst stored, ap_replaced = vs_replaced c, ap_world = snd stored\<rparr>)"

text \<open>The function it gives back: the old value into each vault secret that was replaced.\<close>

definition restore_secrets :: "'w ports \<Rightarrow> (string \<times> string) list \<Rightarrow> 'w \<Rightarrow> 'w" where
  "restore_secrets ports replaced w = fold (\<lambda>(i, plaintext) w. snd (xp_replace_secret ports i plaintext w)) replaced w"

text \<open>What puts back the variables: each name a script touched gets the value it had, or is removed.\<close>

definition was :: "row list \<Rightarrow> variable_change list \<Rightarrow> variable_change list" where
  "was rows names =
     map (\<lambda>c.
       (case List.find (\<lambda>(k, _, _). k = vc_key c) (script_variables rows) of
          None \<Rightarrow> \<lparr>vc_key = vc_key c, vc_value = None, vc_json = False, vc_keep_secret = False, vc_off = False\<rparr>
        | Some (_, v, j) \<Rightarrow> \<lparr>vc_key = vc_key c, vc_value = Some v, vc_json = j, vc_keep_secret = False, vc_off = False\<rparr>)) names"

record rows_before =
  bf_environment :: "row list"
  bf_global :: "row list"
  bf_collection :: "row list"

definition undo :: "'w ports \<Rightarrow> 'w collection_port option \<Rightarrow> rows_before \<Rightarrow> script_changes \<Rightarrow>
    (string \<times> string) list list \<Rightarrow> 'w \<Rightarrow> 'w" where
  "undo ports coll before touched restores w =
     fold (restore_secrets ports) (rev restores)
       (ap_world (apply_changes ports coll
          \<lparr>chg_environment = was (bf_environment before) (chg_environment touched),
           chg_collection = was (bf_collection before) (chg_collection touched),
           chg_global = was (bf_global before) (chg_global touched)\<rparr> [] None w))"

section \<open>The vault as an interface\<close>

text \<open>
  What a vault promises: the ports read and replace one map from ids to plaintexts; replacing is of a secret that is
  there, and changing variables is not changing secrets. \<open>vault\<close> is that map, as a world holds it.
\<close>

locale vault_ports =
  fixes ports :: "'w ports" and coll :: "'w collection_port option" and vault :: "'w \<Rightarrow> string \<Rightarrow> string option"
  assumes read_gives: "fst (xp_read_secret ports i w) = vault w i"
    and read_keeps: "vault (snd (xp_read_secret ports i w)) = vault w"
    and replace_says: "fst (xp_replace_secret ports i v w) \<longleftrightarrow> vault w i \<noteq> None"
    and replace_sets: "vault (snd (xp_replace_secret ports i v w)) = (if vault w i = None then vault w else (vault w)(i \<mapsto> v))"
    and environment_keeps: "vault (xp_change_environment ports cs w) = vault w"
    and globals_keep: "vault (xp_change_globals ports cs w) = vault w"
    and collection_keeps: "coll = Some (rows, change) \<Longrightarrow> vault (change cs w) = vault w"
begin

lemma read_obtain:
  obtains w' where "xp_read_secret ports i w = (vault w i, w')" "vault w' = vault w"
  using read_gives [of i w] read_keeps [of i w] by (cases "xp_read_secret ports i w") auto

lemma replace_obtain:
  obtains w' where "xp_replace_secret ports i v w = (vault w i \<noteq> None, w')"
    "vault w' = (if vault w i = None then vault w else (vault w)(i \<mapsto> v))"
  using replace_says [of i v w] replace_sets [of i v w] by (cases "xp_replace_secret ports i v w") auto

text \<open>What was replaced, put over the vault as it is, is the vault as it was.\<close>

definition recorded :: "(string \<Rightarrow> string option) \<Rightarrow> 'w vault_step \<Rightarrow> bool" where
  "recorded before st \<longleftrightarrow> distinct (map fst (vs_replaced st)) \<and> fst ` set (vs_replaced st) \<subseteq> dom (vault (vs_world st)) \<and>
     vault (vs_world st) ++ map_of (vs_replaced st) = before"

lemma recorded_replace: "recorded before st \<Longrightarrow> recorded before (replace_step ports api k i v st)"
proof -
  assume ok: "recorded before st"
  let ?w = "vs_world st"
  obtain w1 where r: "xp_read_secret ports i ?w = (vault ?w i, w1)" and w1: "vault w1 = vault ?w" by (rule read_obtain)
  obtain w2 where s: "xp_replace_secret ports i v w1 = (vault w1 i \<noteq> None, w2)"
    and w2: "vault w2 = (if vault w1 i = None then vault w1 else (vault w1)(i \<mapsto> v))" by (rule replace_obtain)
  show ?thesis
  proof (cases "xp_unlocked ports ?w")
    case False
    with ok show ?thesis by (simp add: replace_step_def recorded_def)
  next
    case unlocked: True
    show ?thesis
    proof (cases "vault ?w i")
      case None
      with ok unlocked r w1 show ?thesis by (simp add: replace_step_def Let_def recorded_def)
    next
      case (Some old)
      then have st: "replace_step ports api k i v st =
          st\<lparr>vs_replaced := (if om_has (vs_replaced st) i then vs_replaced st else om_set i old (vs_replaced st)), vs_world := w2\<rparr>"
        using unlocked r s w1 by (simp add: replace_step_def Let_def)
      have w2: "vault w2 = (vault ?w)(i \<mapsto> v)" using Some by (simp add: w1 w2)
      have get: "map_of (om_set i old (vs_replaced st)) k = (if k = i then Some old else map_of (vs_replaced st) k)" for k
        using om_get_set [of i old "vs_replaced st" k] by (simp add: om_get_def)
      show ?thesis
      proof (cases "om_has (vs_replaced st) i")
        case True
        then have "map_of (vs_replaced st) i \<noteq> None" by (simp add: om_has_def map_of_eq_None_iff)
        then have "(vault ?w)(i \<mapsto> v) ++ map_of (vs_replaced st) = vault ?w ++ map_of (vs_replaced st)"
          by (auto simp: map_add_def fun_eq_iff split: option.splits)
        with True ok show ?thesis by (auto simp: st recorded_def w2)
      next
        case False
        then have "map_of (vs_replaced st) i = None" by (simp add: om_has_def map_of_eq_None_iff)
        then have "(vault ?w)(i \<mapsto> v) ++ map_of (om_set i old (vs_replaced st)) = vault ?w ++ map_of (vs_replaced st)"
          using Some by (auto simp: map_add_def fun_eq_iff get split: option.splits)
        with False ok show ?thesis by (auto simp: st recorded_def w2)
      qed
    qed
  qed
qed

lemma recorded_step: "recorded before st \<Longrightarrow> recorded before (into_vault_step ports api rows change st)"
  by (auto simp: into_vault_step_def recorded_replace split: option.splits) (auto simp: recorded_def)

lemma recorded_into_vault:
  "recorded before \<lparr>vs_rest = [], vs_notes = notes, vs_replaced = replaced, vs_world = w\<rparr> \<Longrightarrow>
   recorded before (into_vault ports api rows changes notes replaced w)"
  unfolding into_vault_def by (rule fold_invariant [where Q = "\<lambda>_. True"]) (simp_all add: recorded_step)

lemma recorded_next: "recorded before st \<Longrightarrow> recorded before \<lparr>vs_rest = [], vs_notes = ns, vs_replaced = vs_replaced st, vs_world = vs_world st\<rparr>"
  by (simp add: recorded_def)

lemma restore_is_override:
  "distinct (map fst replaced) \<Longrightarrow> fst ` set replaced \<subseteq> dom (vault w) \<Longrightarrow>
   vault (restore_secrets ports replaced w) = vault w ++ map_of replaced"
proof (induction replaced arbitrary: w)
  case (Cons e replaced)
  obtain i p where e: "e = (i, p)" by (cases e)
  let ?w = "snd (xp_replace_secret ports i p w)"
  have w: "vault ?w = (vault w)(i \<mapsto> p)" using Cons.prems(2) by (auto simp: e replace_sets)
  have sub: "distinct (map fst replaced)" "fst ` set replaced \<subseteq> dom (vault ?w)" using Cons.prems by (auto simp: w e)
  have none: "map_of replaced i = None" using Cons.prems(1) by (auto simp: e map_of_eq_None_iff)
  have "restore_secrets ports (e # replaced) w = restore_secrets ports replaced ?w" by (simp add: restore_secrets_def e)
  moreover have "vault (restore_secrets ports replaced ?w) = (vault w)(i \<mapsto> p) ++ map_of replaced"
    using Cons.IH [OF sub] unfolding w .
  moreover have "(vault w)(i \<mapsto> p) ++ map_of replaced = vault w ++ map_of (e # replaced)"
    using none by (simp add: e map_add_def fun_eq_iff split: option.splits)
  ultimately show ?case by (simp only:)
qed (simp add: restore_secrets_def)

lemma apply_changes_recorded:
  "recorded (vault w) \<lparr>vs_rest = [], vs_notes = [], vs_replaced = ap_replaced (apply_changes ports coll changes notes secrets w),
     vs_world = ap_world (apply_changes ports coll changes notes secrets w)\<rparr>"
proof -
  have start: "recorded (vault w) \<lparr>vs_rest = [], vs_notes = notes, vs_replaced = [], vs_world = w\<rparr>" by (simp add: recorded_def)
  note step = recorded_into_vault [OF recorded_next]
  have kept: "vault (snd (store_environment ports active cs nw)) = vault (snd nw)"
    "vault (snd (store_globals ports cs nw)) = vault (snd nw)" "vault (snd (store_collection coll cs nw)) = vault (snd nw)"
    for active cs nw
    by (auto simp: store_environment_def store_globals_def store_collection_def environment_keeps globals_keep
        collection_keeps split: option.splits)
  show ?thesis
    unfolding apply_changes_def Let_def recorded_def applied.select_convs vault_step.select_convs kept snd_conv
    using step [OF step [OF recorded_into_vault [OF start]]] unfolding recorded_def .
qed

lemma restore_after_apply:
  "vault (restore_secrets ports (ap_replaced (apply_changes ports coll changes notes secrets w))
     (ap_world (apply_changes ports coll changes notes secrets w))) = vault w"
  using apply_changes_recorded by (simp add: recorded_def restore_is_override)

end

section \<open>What is stored\<close>

lemma into_vault_rest:
  "set (vs_rest (into_vault ports api rows changes notes replaced w)) \<subseteq>
     {c \<in> set changes. vc_value c = None \<or> protected_reference rows (vc_key c) = None}"
proof -
  have keep: "vs_rest (replace_step ports api k i v st) = vs_rest st" for ports :: "'a ports" and api k i v st
    by (auto simp: replace_step_def Let_def split: option.splits prod.splits bool.splits)
  let ?R = "{c \<in> set changes. vc_value c = None \<or> protected_reference rows (vc_key c) = None}"
  have "set (vs_rest (fold (into_vault_step ports api rows) cs st)) \<subseteq> ?R"
    if "set cs \<subseteq> set changes" "set (vs_rest st) \<subseteq> ?R" for cs st
    using that
  proof (induction cs arbitrary: st)
    case (Cons c cs)
    have "set (vs_rest (into_vault_step ports api rows c st)) \<subseteq> ?R"
      using Cons.prems by (auto simp: into_vault_step_def keep split: option.splits)
    with Cons show ?case by simp
  qed simp
  then show ?thesis by (simp add: into_vault_def)
qed

text \<open>Storing a change leaves every reference to a secret where it is.\<close>

lemma stored_change_keeps_reference:
  assumes "vc_value c = Some v" "is_secret_reference (row_value r)" "r \<in> set now"
  shows "r \<in> set (apply_variable_change (kept_change secrets c) now)"
proof -
  have "vc_keep_secret (kept_change secrets c)" "vc_key (kept_change secrets c) = vc_key c" by (simp_all add: kept_change_def)
  moreover have "r \<in> set now \<Longrightarrow> row_key r \<noteq> vc_key c \<Longrightarrow> r \<in> set (replace_first (vc_key c) new now)" for new
    by (induction now) auto
  moreover have "vc_value (kept_change secrets c) \<noteq> None" using assms(1) by (auto simp: kept_change_def split: option.splits)
  ultimately show ?thesis using assms(2,3) by (auto simp: apply_variable_change_def)
qed

text \<open>
  C22: what a script sets on a protected variable is never stored as a variable's value: of the changes that
  are stored, one that has a value names no row that is a reference to a secret; and storing
  them leaves every such reference where it is, in the rows as they may have become since.
\<close>

theorem protected_value_not_stored:
  assumes "c \<in> set (vs_rest (into_vault ports api rows changes notes replaced w))" "vc_value c = Some v"
  shows "protected_reference rows (vc_key c) = None \<and> c \<in> set changes \<and>
    {r \<in> set now. is_secret_reference (row_value r)} \<subseteq> set (apply_variable_change (kept_change secrets c) now)"
  using into_vault_rest stored_change_keeps_reference [OF assms(2)] assms
  by fastforce

text \<open>
  C21: what the changes replaced in the vault can be put back: the function that storing a script's changes gives back
  leaves the vault as it was before them, whatever the script set, twice or on several variables of one secret, and whatever
  was refused.
\<close>

theorem secrets_put_back:
  assumes "vault_ports ports coll vault"
  shows "vault (restore_secrets ports (ap_replaced (apply_changes ports coll changes notes secrets w))
     (ap_world (apply_changes ports coll changes notes secrets w))) = vault w"
  using vault_ports.restore_after_apply [OF assms] .

definition stored_well :: "string list \<Rightarrow> variable_change \<Rightarrow> bool" where
  "stored_well secrets c \<longleftrightarrow> vc_keep_secret c \<and> (\<forall>v. vc_value c = Some v \<longrightarrow> free_of secrets v)"

lemma kept_stored_well: "stored_well secrets (kept_change (Some (new_redactor secrets)) c)"
  by (auto simp: stored_well_def kept_change_def redacted_free split: option.splits)

lemma into_vault_step_cong:
  fixes p q :: "'w ports"
  assumes "xp_unlocked p = xp_unlocked q" "xp_read_secret p = xp_read_secret q" "xp_replace_secret p = xp_replace_secret q"
  shows "into_vault_step p = into_vault_step q"
proof -
  have "replace_step p api k i v st = replace_step q api k i v st" for api k i v st
    unfolding replace_step_def assms ..
  then show ?thesis unfolding into_vault_step_def fun_eq_iff by (simp only: simp_thms)
qed

lemma into_vault_cong:
  fixes p q :: "'w ports"
  assumes "xp_unlocked p = xp_unlocked q" "xp_read_secret p = xp_read_secret q" "xp_replace_secret p = xp_replace_secret q"
  shows "into_vault p = into_vault q"
  unfolding into_vault_def into_vault_step_cong [OF assms] ..

text \<open>
  A vault secret does not get into a variable: what a post-response script set is handed to be stored with
  every form of every secret of the request masked, and so that no reference to a secret is overwritten. It is all the
  same what the stores would do with changes of any other kind.
\<close>

theorem script_values_stored_masked:
  assumes "\<And>cs w. list_all (stored_well secrets) cs \<Longrightarrow> f cs w = xp_change_environment ports cs w"
    and "\<And>cs w. list_all (stored_well secrets) cs \<Longrightarrow> g cs w = xp_change_globals ports cs w"
    and "\<And>cs w. list_all (stored_well secrets) cs \<Longrightarrow> h cs w = change cs w"
  shows "apply_changes (ports\<lparr>xp_change_environment := f, xp_change_globals := g\<rparr>) (Some (rows, h)) changes notes
      (Some (new_redactor secrets)) w =
    apply_changes ports (Some (rows, change)) changes notes (Some (new_redactor secrets)) w"
proof -
  have well: "list_all (stored_well secrets) (map (kept_change (Some (new_redactor secrets))) cs)" for cs
    by (simp add: list_all_iff kept_stored_well)
  let ?p = "ports\<lparr>xp_change_environment := f, xp_change_globals := g\<rparr>" and ?m = "map (kept_change (Some (new_redactor secrets)))"
  have "store_environment ?p active (?m cs) nw = store_environment ports active (?m cs) nw"
    "store_globals ?p (?m cs) nw = store_globals ports (?m cs) nw"
    "store_collection (Some (rows, h)) (?m cs) nw = store_collection (Some (rows, change)) (?m cs) nw" for active cs nw
    by (simp_all add: store_environment_def store_globals_def store_collection_def assms [OF well])
  moreover have "into_vault ?p = into_vault ports" by (rule into_vault_cong) simp_all
  ultimately show ?thesis by (simp add: apply_changes_def Let_def)
qed

end
