(* ===== verification/Shapes.thy ===== *)
theory Shapes
  imports ScriptChanges
begin

text \<open>
  What is made of a send's outcome, and what history keeps of it: the second half of
  \<open>packages/core/src/send/exchange.ts\<close> (\<open>shapeResponse\<close>, \<open>shapeFailure\<close>, \<open>recordOf\<close> and their helpers). What
  the platform does is the record \<open>web\<close>: addresses, decoders, the order of names, the reading of a form.
\<close>

record web =
  wb_parse :: "string \<Rightarrow> url option"
  wb_join :: "string \<Rightarrow> string \<Rightarrow> url option"
  wb_decoder :: text_decoder
  wb_name_le :: "string \<Rightarrow> string \<Rightarrow> bool"
  wb_read_form :: "string \<Rightarrow> (string \<times> string) list"

section \<open>Bodies as text\<close>

definition indented :: "json \<Rightarrow> string" where
  "indented v = json_write ''    '' [] v"

fun body_text :: "shown_body \<Rightarrow> string" where
  "body_text (TextShown s) = s"
| "body_text (JsonShown (JStr s)) = s"
| "body_text (JsonShown v) = stringify v"
| "body_text NullBody = []"
| "body_text (BinaryBody _ _) = []"

definition script_response_of :: "response_context \<Rightarrow> script_response" where
  "script_response_of rx =
     (let body = body_text (rx_body rx)
      in \<lparr>sp_code = rx_status rx, sp_status = rx_status_text rx, sp_headers = rx_headers rx, sp_body = body,
          sp_time = rx_duration rx, sp_size = (case rx_size rx of Some n \<Rightarrow> n | None \<Rightarrow> byte_length body)\<rparr>)"

fun is_json_payload :: "shown_body \<Rightarrow> bool" where
  "is_json_payload (TextShown s) \<longleftrightarrow> parse_json s \<noteq> None"
| "is_json_payload (JsonShown (JStr s)) \<longleftrightarrow> parse_json s \<noteq> None"
| "is_json_payload (JsonShown v) \<longleftrightarrow> is_object v"
| "is_json_payload _ \<longleftrightarrow> False"

fun serialize_json_payload :: "shown_body \<Rightarrow> string" where
  "serialize_json_payload (TextShown s) = s"
| "serialize_json_payload (JsonShown (JStr s)) = s"
| "serialize_json_payload (JsonShown v) = stringify v"
| "serialize_json_payload _ = []"

fun stringify_payload :: "shown_body \<Rightarrow> string" where
  "stringify_payload (TextShown s) = s"
| "stringify_payload (JsonShown (JStr s)) = s"
| "stringify_payload (JsonShown v) = indented v"
| "stringify_payload _ = []"

definition file_text :: "blob \<Rightarrow> string" where
  "file_text b =
     ''('' @ show_nat (length (blob_bytes b)) @ '' bytes'' @ (if blob_type b = [] then [] else '', '' @ blob_type b) @ '')''"

definition sent_body_preview :: "body_data option \<Rightarrow> string option" where
  "sent_body_preview body =
     (case body of
        None \<Rightarrow> None
      | Some (DataText s) \<Rightarrow> Some s
      | Some (DataForm es) \<Rightarrow>
          Some (join [CHR 0x0A] (map (\<lambda>(name, e).
            (case e of EntryText v \<Rightarrow> name @ ''='' @ v | EntryFile b fn \<Rightarrow> name @ ''=@'' @ fn @ '' '' @ file_text b)) es))
      | Some (DataFile b) \<Rightarrow> Some (''@file '' @ file_text b))"

section \<open>The outcome, shaped\<close>

record shown_response =
  sw_error :: bool
  sw_status :: "nat option"
  sw_status_text :: string
  sw_json :: bool
  sw_data :: string
  sw_error_text :: string
  sw_headers :: "(string \<times> string) list"
  sw_content_length :: "decimal option"
  sw_binary :: "(received \<times> string) option"
  sw_redirected_to :: "string option"
  sw_route :: "exchange_route option"
  sw_content_type :: "string option"
  sw_headers_limited :: bool
  sw_stream :: "(bool \<times> bool) option"
  sw_redirects :: "(redirect_hop list \<times> redirect_stop option) option"
  sw_insecure :: bool

record shaped =
  sh_body :: shown_body
  sh_headers :: "(string \<times> string) list"
  sh_header_list :: "(string \<times> string) list"
  sh_text :: "string option"
  sh_history_error :: "string option"
  sh_response :: shown_response

definition header_named :: "answer \<Rightarrow> string \<Rightarrow> string option" where
  "header_named a name = map_option snd (List.find (\<lambda>(k, _). to_lower k = name) (an_headers a))"

definition content_length :: "answer \<Rightarrow> decimal" where
  "content_length a =
     (case header_named a ''content-length'' of
        None \<Rightarrow> num_of_int (int (an_decoded_size a))
      | Some t \<Rightarrow>
          (case (if t = [] then NaN else number_of_text t) of
             Finite d \<Rightarrow> d
           | _ \<Rightarrow> num_of_int (int (an_decoded_size a))))"

definition headers_limited :: "web \<Rightarrow> answer \<Rightarrow> string option \<Rightarrow> bool" where
  "headers_limited web a page =
     (case page of
        None \<Rightarrow> False
      | Some p \<Rightarrow>
          an_route a = RouteDirect \<and>
          map_option u_origin (wb_join web (an_final_url a) p) \<noteq> map_option u_origin (wb_parse web p) \<and>
          \<not> list_ex (\<lambda>n. trim n = ''*'')
              (split_on (CHR '','') (case header_named a ''access-control-expose-headers'' of None \<Rightarrow> [] | Some t \<Rightarrow> t)))"

definition shape_response :: "web \<Rightarrow> answer \<Rightarrow> string option \<Rightarrow> shaped" where
  "shape_response web a page =
     (let body = decode_received (wb_decoder web) (an_headers a) (an_body a);
          failed = (an_status a < 200 \<or> 300 \<le> an_status a);
          json = is_json_payload body;
          text = (if json then serialize_json_payload body else stringify_payload body)
      in \<lparr>sh_body = body, sh_headers = om_of (an_headers a), sh_header_list = an_headers a,
          sh_text = (case body of NullBody \<Rightarrow> None | BinaryBody _ _ \<Rightarrow> None | _ \<Rightarrow> Some text),
          sh_history_error = None,
          sh_response =
            \<lparr>sw_error = failed, sw_status = Some (an_status a), sw_status_text = an_status_text a, sw_json = json,
             sw_data = (if failed then [] else text), sw_error_text = (if failed then text else []),
             sw_headers = sort_by (\<lambda>x y. wb_name_le web (fst x) (fst y)) (an_headers a),
             sw_content_length = Some (content_length a),
             sw_binary = (case body of BinaryBody b t \<Rightarrow> Some (b, t) | _ \<Rightarrow> None),
             sw_redirected_to = (if an_redirected a then Some (an_final_url a) else None),
             sw_route = Some (an_route a), sw_content_type = header_named a ''content-type'',
             sw_headers_limited = headers_limited web a page, sw_stream = an_stream a,
             sw_redirects = an_redirects a, sw_insecure = an_insecure a\<rparr>\<rparr>)"

definition NO_RESPONSE_TEXT :: string where
  "NO_RESPONSE_TEXT =
     ''The request got no response. The browser does not say why: the name may not resolve, the server may '' @
     ''have refused the connection, or it does not allow requests from this page (CORS). Send it through '' @
     ''the Local Bridge to see which.''"

definition OFFLINE_TEXT :: string where
  "OFFLINE_TEXT = ''The request got no response: this browser is offline. Connect, then send it again.''"

definition no_response_without_page :: "string \<Rightarrow> string" where
  "no_response_without_page reason =
     ''The request got no response: '' @ reason @
     ''. Check the address, that the name resolves and that the server accepts connections.''"

fun failure_message :: "transport_error \<Rightarrow> string" where
  "failure_message (NetworkError m) = m"
| "failure_message (TimeoutError m) = m"
| "failure_message (AbortedError m) = m"
| "failure_message (BridgeError m _) = m"

fun failure_kind_of :: "transport_error \<Rightarrow> failure_kind" where
  "failure_kind_of (NetworkError _) = FailNetwork"
| "failure_kind_of (TimeoutError _) = FailTimeout"
| "failure_kind_of (AbortedError _) = FailAborted"
| "failure_kind_of (BridgeError _ _) = FailBridge"

definition shape_failure :: "transport_error \<Rightarrow> string option \<Rightarrow> bool option \<Rightarrow> shaped" where
  "shape_failure e page online =
     (let message = failure_message e;
          network = (failure_kind_of e = FailNetwork);
          said = (network \<or> failure_kind_of e = FailBridge)
      in \<lparr>sh_body = (if said then NullBody else TextShown message), sh_headers = [], sh_header_list = [], sh_text = None,
          sh_history_error = Some
            (if \<not> network then message
             else if page = None then ''No response: '' @ message @ ''.''
             else if online = Some False then ''No response: this browser is offline.''
             else ''No response. The browser does not say why.''),
          sh_response =
            \<lparr>sw_error = True, sw_status = None, sw_status_text = [], sw_json = False, sw_data = [],
             sw_error_text =
               (if \<not> network then message
                else if page = None then no_response_without_page message
                else if online = Some False then OFFLINE_TEXT else NO_RESPONSE_TEXT),
             sw_headers = [], sw_content_length = None, sw_binary = None, sw_redirected_to = None, sw_route = None,
             sw_content_type = None, sw_headers_limited = False, sw_stream = None, sw_redirects = None,
             sw_insecure = False\<rparr>\<rparr>)"

text \<open>\<open>/^.*?[.!?](?=\s|$)/s\<close> on a trimmed text: the shortest start that ends a sentence.\<close>

fun sentence_end :: "string \<Rightarrow> string option" where
  "sentence_end [] = None"
| "sentence_end (c # s) =
     (if c \<in> set ''.!?'' \<and> (s = [] \<or> js_space (hd s)) then Some [c]
      else map_option ((#) c) (sentence_end s))"

definition first_sentence :: "string \<Rightarrow> string" where
  "first_sentence text = trim (case sentence_end (trim text) of Some s \<Rightarrow> s | None \<Rightarrow> text)"

section \<open>History\<close>

definition HISTORY_BODY_LIMIT :: nat where
  "HISTORY_BODY_LIMIT = 1024 * 1024"

record history_body =
  hb_text :: string
  hb_truncated :: bool

record past_response =
  ps_status :: nat
  ps_status_text :: string
  ps_headers :: "(string \<times> string) list"
  ps_body :: "history_body option"

record past_request =
  pr_created :: rat
  pr_template :: request_content
  pr_method :: string
  pr_url :: string
  pr_headers :: "(string \<times> string) list"
  pr_preview :: "string option"
  pr_response :: "past_response option"
  pr_duration :: int
  pr_route :: exchange_route
  pr_error :: "string option"
  pr_sent_from :: "(string \<times> string list) option"
  pr_record :: "exchange_record option"

definition keep_text :: "redactor \<Rightarrow> string \<Rightarrow> history_body" where
  "keep_text rd t =
     (let masked = red_text rd t
      in \<lparr>hb_text = take HISTORY_BODY_LIMIT masked, hb_truncated = (HISTORY_BODY_LIMIT < length masked)\<rparr>)"

record raw_exchange =
  rw_sent_headers :: "(string \<times> string) list"
  rw_sent_url :: string
  rw_sent_preview :: "string option"
  rw_received :: "((string \<times> string) list \<times> string option) option"
  rw_vaulted :: "filled_secret list"
  rw_failure :: "failure option"
  rw_unpaired :: bool

text \<open>The names whose value is not the one that was sent in its place, each once.\<close>

definition changed_names :: "(string \<times> string) list \<Rightarrow> (string \<times> string) list \<Rightarrow> string list" where
  "changed_names kept sent =
     rev (remdups (rev (map (fst \<circ> snd)
       (filter (\<lambda>(i, _, v). \<not> (i < length sent \<and> snd (sent ! i) = v)) (enumerate 0 kept)))))"

definition record_of :: "web \<Rightarrow> past_request \<Rightarrow> raw_exchange \<Rightarrow> exchange_record" where
  "record_of web history raw =
     (let response = pr_response history; kept_url = pr_url history
      in \<lparr>xr_status = map_option (\<lambda>r. (ps_status r, ps_status_text r)) response,
          xr_duration = num_of_int (pr_duration history),
          xr_route = pr_route history,
          xr_unpaired = rw_unpaired raw,
          xr_host = (case wb_parse web kept_url of None \<Rightarrow> kept_url | Some u \<Rightarrow> if u_host u = [] then kept_url else u_host u),
          xr_secrets = rw_vaulted raw,
          xr_masked =
            \<lparr>mp_address = (kept_url \<noteq> rw_sent_url raw),
             mp_headers = changed_names (pr_headers history) (rw_sent_headers raw),
             mp_body = (case rw_sent_preview raw of
                None \<Rightarrow> False
              | Some p \<Rightarrow> pr_preview history \<noteq> Some (take HISTORY_BODY_LIMIT p)),
             mp_response_headers =
               (case (response, rw_received raw) of
                  (Some r, Some (hs, _)) \<Rightarrow> changed_names (ps_headers r) hs
                | _ \<Rightarrow> []),
             mp_response_body =
               (case (response, rw_received raw) of
                  (Some r, Some (_, Some b)) \<Rightarrow>
                    (case ps_body r of None \<Rightarrow> False | Some kept \<Rightarrow> hb_text kept \<noteq> take HISTORY_BODY_LIMIT b)
                | _ \<Rightarrow> False)\<rparr>,
          xr_kept =
            \<lparr>kp_response = (response \<noteq> None),
             kp_body = (case response of None \<Rightarrow> False | Some r \<Rightarrow> ps_body r \<noteq> None), kp_quote_left_out = False\<rparr>,
          xr_failure = rw_failure raw\<rparr>)"

text \<open>
  An error status is the server's answer, shown as it came: exactly the statuses outside 200 to 299 are errors, the body is
  shown once, as data or as the error, and it is offered as a file exactly when it is no text.
\<close>

theorem response_shown_once:
  "let s = shape_response web a page; r = sh_response s
   in sw_error r = (an_status a \<notin> {200..<300}) \<and>
      (sw_data r = [] \<or> sw_error_text r = []) \<and>
      (case sh_body s of
         BinaryBody b t \<Rightarrow> sw_binary r = Some (b, t) \<and> sh_text s = None \<and> sw_data r = [] \<and> sw_error_text r = []
       | NullBody \<Rightarrow> sw_binary r = None \<and> sh_text s = None \<and> sw_data r = [] \<and> sw_error_text r = []
       | _ \<Rightarrow> sw_binary r = None \<and> sh_text s = Some (sw_data r @ sw_error_text r))"
  by (auto simp: shape_response_def Let_def split: shown_body.splits)

end
