(* ===== verification/Exchange.thy ===== *)
theory Exchange
  imports Shapes Wire Runner
begin

text \<open>
  One send from its first step to its last: \<open>exchange\<close> of \<open>packages/core/src/send/exchange.ts\<close>, and
  \<open>runOutcome\<close> of \<open>send/run.ts\<close>. The steps are those of the source, each given the world the one before it left:
  the pre-request scripts, the build, the check before the wire, the send and its one repetition, the post-response
  scripts, the assertions, and what history keeps.
\<close>

section \<open>What is sent\<close>

record 'w spec =
  xs_pre_script :: string
  xs_post_script :: string
  xs_tests :: "test_assertion list"
  xs_run_scripts :: bool
  xs_template :: request_content
  xs_build :: "request_content \<Rightarrow> 'w \<Rightarrow> (send_error + built_request) \<times> 'w"
  xs_retry :: "(request_content \<Rightarrow> 'w \<Rightarrow> (send_error + built_request option) \<times> 'w) option"
  xs_info :: "(string \<times> string \<times> string list) option"
  xs_collection :: "'w collection_port option"
  xs_inherited :: "(string \<times> scripts) list"
  xs_folder_variables :: "'w \<Rightarrow> row list"
  xs_route :: "route option"
  xs_ask :: "('w \<Rightarrow> bool \<times> 'w) option"
  xs_events :: bool
  xs_iteration :: "run_iteration option"

datatype exchange_error =
    PreScriptFailed "test_result list" "string list" int string
  | RequestSkipped "test_result list" "string list" "string option option"
  | NotSent send_error

definition pre_script_message :: "string \<Rightarrow> string" where
  "pre_script_message script =
     ''The '' @ (case script of [] \<Rightarrow> [] | c # s \<Rightarrow> lower_char c # s) @ '' failed, so the request was not sent.''"

definition SECRET_PLACEHOLDER_BLOCKED :: string where
  "SECRET_PLACEHOLDER_BLOCKED =
     ''This request refers to a vault secret that could not be read (it may have been deleted), so it was not sent. '' @
     ''Give the variable a value again.''"

text \<open>A request as the check before the wire reads it.\<close>

definition wire_data :: "body_data option \<Rightarrow> wire_body" where
  "wire_data body =
     (case body of
        None \<Rightarrow> NoWireBody
      | Some (DataText s) \<Rightarrow> wire_body.WireText s
      | Some (DataFile _) \<Rightarrow> WireBytes
      | Some (DataForm es) \<Rightarrow>
          WireForm (map (\<lambda>(n, e). (n, case e of EntryText v \<Rightarrow> FieldText v | EntryFile _ fn \<Rightarrow> FieldFile fn)) es))"

definition outgoing_of :: "built_request \<Rightarrow> outgoing" where
  "outgoing_of b = \<lparr>og_method = br_method b, og_url = br_url b, og_headers = br_headers b, og_body = br_body b\<rparr>"

definition wire_of :: "outgoing \<Rightarrow> wire_request" where
  "wire_of q = \<lparr>wire_url = og_url q, wire_headers = og_headers q, wire_body = wire_data (og_body q)\<rparr>"

definition held_back :: "outgoing \<Rightarrow> bool" where
  "held_back q \<longleftrightarrow> contains_secret_placeholder (wire_of q)"

section \<open>The scripts of a send\<close>

datatype script_kind = PreScript | PostScript

record script_run =
  run_name :: string
  run_result :: script_result

definition scripts_to_run :: "'w spec \<Rightarrow> script_kind \<Rightarrow> (string \<times> string) list" where
  "scripts_to_run spec kind =
     (let label = (case kind of PreScript \<Rightarrow> ''Pre-request script'' | PostScript \<Rightarrow> ''Post-response script'');
          pick = (case kind of PreScript \<Rightarrow> script_pre | PostScript \<Rightarrow> script_post)
      in filter (\<lambda>(_, text). trim text \<noteq> [])
           (map (\<lambda>(name, s). (label @ '' of '' @ name, pick s)) (xs_inherited spec) @
            [(label, case kind of PreScript \<Rightarrow> xs_pre_script spec | PostScript \<Rightarrow> xs_post_script spec)]))"

definition last_next :: "script_run list \<Rightarrow> string option option" where
  "last_next runs = fold (\<lambda>r found. if sr_next (run_result r) \<noteq> None then sr_next (run_result r) else found) runs None"

definition script_rows :: "script_result \<Rightarrow> string \<Rightarrow> redactor \<Rightarrow> test_result list" where
  "script_rows result name rd =
     map (\<lambda>row. row\<lparr>tr_label := red_text rd (tr_label row), tr_error := map_option (red_text rd) (tr_error row)\<rparr>)
       (sr_tests result @
        (case sr_error result of
           None \<Rightarrow> []
         | Some m \<Rightarrow> [\<lparr>tr_label = name, tr_passed = False, tr_actual = None, tr_expected = None, tr_error = Some m,
             tr_source = FromScript\<rparr>]))"

definition rows_of :: "redactor \<Rightarrow> script_run list \<Rightarrow> test_result list" where
  "rows_of rd runs = concat (map (\<lambda>r. script_rows (run_result r) (run_name r) rd) runs)"

definition logs_of :: "script_run list \<Rightarrow> string list" where
  "logs_of runs = concat (map (\<lambda>r. sr_logs (run_result r)) runs)"

definition environment_rows :: "'w ports \<Rightarrow> 'w \<Rightarrow> row list" where
  "environment_rows ports w = (case xp_environment ports w of None \<Rightarrow> [] | Some (_, rows) \<Rightarrow> rows)"

definition collection_rows :: "'w spec \<Rightarrow> 'w \<Rightarrow> row list" where
  "collection_rows spec w = (case xs_collection spec of None \<Rightarrow> [] | Some (rows, _) \<Rightarrow> rows w)"

text \<open>\<open>pm.sendRequest\<close>: by the route of the request, with no jar, no redirect policy and no question.\<close>

definition send_for_script ::
    "web \<Rightarrow> 'w ports \<Rightarrow> 'w spec \<Rightarrow> script_send \<Rightarrow> 'w \<Rightarrow> (string + script_response) \<times> 'w" where
  "send_for_script web ports spec q w =
     (let og = \<lparr>og_method = ss_method q, og_url = ss_url q, og_headers = ss_headers q, og_body = map_option DataText (ss_body q)\<rparr>
      in if held_back og
         then (Inl (''pm.sendRequest with a vault secret is not supported '' @ NO_DURATION @
           '' see docs/postman-compatibility.md#pm-sendrequest''), w)
         else
           (let options = \<lparr>so_timeout = xp_timeout ports w, so_events = False, so_redirects = None, so_cookies = None,
                  so_insecure = False,
                  so_route = (case xs_route spec of Some r \<Rightarrow> r | None \<Rightarrow> xp_route ports w), so_ask = None\<rparr>
            in case xp_transport ports og options (w, fresh_trace) of
                 (Inl m, w', _) \<Rightarrow> (Inl m, w')
               | (Inr (Inl e), w', _) \<Rightarrow> (Inl (failure_message e), w')
               | (Inr (Inr a), w', _) \<Rightarrow>
                   (let s = shape_response web a (xp_page ports)
                    in (Inr (script_response_of
                          \<lparr>rx_status = an_status a, rx_status_text = an_status_text a, rx_body = sh_body s,
                           rx_headers = sh_headers s, rx_duration = js_round (xp_clock ports w' - xp_clock ports w),
                           rx_size = Some (an_decoded_size a)\<rparr>), w'))))"

definition extras_for ::
    "web \<Rightarrow> 'w ports \<Rightarrow> 'w spec \<Rightarrow> script_event \<Rightarrow> script_request \<Rightarrow> 'w \<Rightarrow> 'w script_extras" where
  "extras_for web ports spec event request w =
     \<lparr>se_environment_name = (case xp_environment ports w of None \<Rightarrow> [] | Some (n, _) \<Rightarrow> n),
      se_folder = script_variables (xs_folder_variables spec w),
      se_collection = script_variables (collection_rows spec w),
      se_globals = script_variables (xp_globals ports w),
      se_data = map_option (\<lambda>i. script_variables (it_data i)) (xs_iteration spec),
      se_request = request, se_event = event,
      se_request_name = (case xs_info spec of None \<Rightarrow> [] | Some (n, _, _) \<Rightarrow> n),
      se_request_id = (case xs_info spec of None \<Rightarrow> [] | Some (_, i, _) \<Rightarrow> i),
      se_iteration = map_option (\<lambda>i. (it_index i, it_count i)) (xs_iteration spec),
      se_send = send_for_script web ports spec\<rparr>"

text \<open>The pre-request scripts, each with the variables the one before it left.\<close>

record pre_state =
  pre_runs :: "script_run list"
  pre_notes :: "string list"
  pre_ms :: int
  pre_template :: request_content
  pre_touched :: script_changes
  pre_restores :: "(string \<times> string) list list"

definition touch :: "script_changes \<Rightarrow> script_changes \<Rightarrow> script_changes" where
  "touch t c =
     \<lparr>chg_environment = chg_environment t @ chg_environment c, chg_collection = chg_collection t @ chg_collection c,
      chg_global = chg_global t @ chg_global c\<rparr>"

definition nothing_masked :: redactor where
  "nothing_masked = new_redactor []"

fun run_pre :: "web \<Rightarrow> 'w ports \<Rightarrow> 'w spec \<Rightarrow> (string \<times> string) list \<Rightarrow> pre_state \<Rightarrow> 'w \<Rightarrow> (exchange_error + pre_state) \<times> 'w" where
  "run_pre web ports spec [] ps w = (Inr ps, w)"
| "run_pre web ports spec ((name, text) # scripts) ps w =
     (case xp_run_script ports text (script_variables (environment_rows ports w)) None
             (extras_for web ports spec Prerequest (script_request_of (pre_template ps)) w) w of
        (Inl m, w1) \<Rightarrow> (Inl (NotSent (OtherError m)), w1)
      | (Inr result, w1) \<Rightarrow>
          (let ms = pre_ms ps + js_round (xp_clock ports w1 - xp_clock ports w);
               applied = apply_changes ports (xs_collection spec) (sr_changes result) (pre_notes ps) None w1;
               runs = pre_runs ps @ [\<lparr>run_name = name, run_result = result\<rparr>];
               w2 = ap_world applied
           in if sr_error result \<noteq> None
              then (Inl (PreScriptFailed (rows_of nothing_masked runs) (logs_of runs @ ap_notes applied) ms name), w2)
              else run_pre web ports spec scripts
                \<lparr>pre_runs = runs, pre_notes = ap_notes applied, pre_ms = ms,
                 pre_template = (case sr_request result of None \<Rightarrow> pre_template ps | Some q \<Rightarrow> with_script_request (pre_template ps) q),
                 pre_touched = touch (pre_touched ps) (sr_changes result),
                 pre_restores = pre_restores ps @ [ap_replaced applied]\<rparr> w2))"

record post_state =
  post_runs :: "script_run list"
  post_notes :: "string list"
  post_ms :: "int option"

fun run_post ::
    "web \<Rightarrow> 'w ports \<Rightarrow> 'w spec \<Rightarrow> script_request \<Rightarrow> response_context \<Rightarrow> redactor \<Rightarrow> (string \<times> string) list \<Rightarrow> post_state \<Rightarrow>
      'w \<Rightarrow> (exchange_error + post_state) \<times> 'w" where
  "run_post web ports spec sent rx secrets [] st w = (Inr st, w)"
| "run_post web ports spec sent rx secrets ((name, text) # scripts) st w =
     (case xp_run_script ports text (script_variables (environment_rows ports w)) (Some rx)
             (extras_for web ports spec Test sent w) w of
        (Inl m, w1) \<Rightarrow> (Inl (NotSent (OtherError m)), w1)
      | (Inr result, w1) \<Rightarrow>
          (let ms = (case post_ms st of None \<Rightarrow> 0 | Some n \<Rightarrow> n) + js_round (xp_clock ports w1 - xp_clock ports w);
               applied = apply_changes ports (xs_collection spec) (sr_changes result) (post_notes st) (Some secrets) w1
           in run_post web ports spec sent rx secrets scripts
                \<lparr>post_runs = post_runs st @ [\<lparr>run_name = name, run_result = result\<rparr>], post_notes = ap_notes applied,
                 post_ms = Some ms\<rparr> (ap_world applied)))"

section \<open>The send\<close>

text \<open>The caller's jar: no cookie that holds a secret's reference, and every value that goes out is noted.\<close>

definition jar_for :: "(string \<Rightarrow> 'w \<Rightarrow> cookie list) \<Rightarrow> string \<Rightarrow> 'w traced \<Rightarrow> cookie list \<times> 'w traced" where
  "jar_for ask url wt =
     (let (w, t) = wt;
          found = filter (\<lambda>c. \<not> contains_secret_placeholder
            \<lparr>wire_url = [], wire_headers = [(''Cookie'', ck_name c @ ''='' @ ck_value c)], wire_body = NoWireBody\<rparr>) (ask url w)
      in (found, w, t\<lparr>tc_sent := (case tc_sent t of None \<Rightarrow> Some found | Some s \<Rightarrow> Some s),
            tc_values := fold set_add (map ck_value found) (tc_values t)\<rparr>))"

definition transmit ::
    "'w ports \<Rightarrow> 'w spec \<Rightarrow> route \<Rightarrow> request_content \<Rightarrow> built_request \<Rightarrow> 'w traced \<Rightarrow>
      (string + (transport_error + answer)) \<times> 'w traced" where
  "transmit ports spec rt template request wt =
     (let (w, t) = wt
      in xp_transport ports (outgoing_of request)
           \<lparr>so_timeout = xp_timeout ports w, so_events = xs_events spec,
            so_redirects = Some \<lparr>rp_follow = (set_follow_redirects (rc_settings template) \<noteq> Some False),
              rp_stay_on_host = (br_secrets request \<noteq> [])\<rparr>,
            so_cookies = map_option (\<lambda>(ask, tell).
              (jar_for ask, \<lambda>url set_cookies (w, t). (tell url set_cookies (br_secrets request) w, t))) (xp_cookies ports),
            so_insecure = set_tls_insecure (rc_settings template), so_route = rt, so_ask = xs_ask spec\<rparr>
           (w, t\<lparr>tc_sent := None\<rparr>))"

text \<open>What the send gave: the request that was sent last, its outcome, how long it took, the trace and the route.\<close>

record sent_exchange =
  sx_request :: built_request
  sx_outcome :: "transport_error + answer"
  sx_ms :: int
  sx_trace :: send_trace
  sx_route :: route

definition again_for ::
    "'w spec \<Rightarrow> request_content \<Rightarrow> (transport_error + answer) \<Rightarrow> 'w \<Rightarrow> (send_error + built_request option) \<times> 'w" where
  "again_for spec template outcome w =
     (case (outcome, xs_retry spec) of
        (Inr a, Some retry) \<Rightarrow> if an_status a = 401 then retry template w else (Inr None, w)
      | _ \<Rightarrow> (Inr None, w))"

definition send_twice ::
    "'w ports \<Rightarrow> 'w spec \<Rightarrow> request_content \<Rightarrow> built_request \<Rightarrow> 'w \<Rightarrow> (exchange_error + sent_exchange) \<times> 'w" where
  "send_twice ports spec template request w =
     (let rt = (case xs_route spec of Some r \<Rightarrow> r | None \<Rightarrow> xp_route ports w)
      in case transmit ports spec rt template request (w, fresh_trace) of
           (Inl m, w1, _) \<Rightarrow> (Inl (NotSent (OtherError m)), w1)
         | (Inr outcome, w1, t1) \<Rightarrow>
             (case again_for spec template outcome w1 of
                (Inl e, w2) \<Rightarrow> (Inl (NotSent e), w2)
              | (Inr None, w2) \<Rightarrow>
                  (Inr \<lparr>sx_request = request, sx_outcome = outcome,
                     sx_ms = js_round (xp_clock ports w2 - xp_clock ports w), sx_trace = t1, sx_route = rt\<rparr>, w2)
              | (Inr (Some again), w2) \<Rightarrow>
                  if held_back (outgoing_of again)
                  then (Inr \<lparr>sx_request = request, sx_outcome = outcome,
                     sx_ms = js_round (xp_clock ports w2 - xp_clock ports w), sx_trace = t1, sx_route = rt\<rparr>, w2)
                  else
                    (case transmit ports spec rt template again (w2, t1) of
                       (Inl m, w3, _) \<Rightarrow> (Inl (NotSent (OtherError m)), w3)
                     | (Inr outcome2, w3, t3) \<Rightarrow>
                         (Inr \<lparr>sx_request = again, sx_outcome = outcome2,
                            sx_ms = js_round (xp_clock ports w3 - xp_clock ports w2), sx_trace = t3, sx_route = rt\<rparr>, w3))))"

section \<open>After the answer\<close>

record exchange_timings =
  tm_pre :: "int option"
  tm_request :: int
  tm_post :: "int option"

record exchange_result =
  ex_record :: exchange_record
  ex_duration :: int
  ex_timings :: exchange_timings
  ex_relay_timings :: "(string \<times> decimal) list option"
  ex_tests :: "test_result list"
  ex_logs :: "string list"
  ex_response :: shown_response
  ex_history :: past_request
  ex_cookie_values :: "string list"
  ex_next :: "string option option"

text \<open>
  A body as the assertions read it: what is neither text nor JSON is an object that names its type, and
  its bytes are an object with no fields.
\<close>

definition body_value :: "shown_body \<Rightarrow> json option" where
  "body_value body =
     (case body of
        NullBody \<Rightarrow> None
      | TextShown s \<Rightarrow> Some (JStr s)
      | JsonShown v \<Rightarrow> Some v
      | BinaryBody _ t \<Rightarrow> Some (JObj [(''bytes'', JObj []), (''contentType'', JStr t)]))"

definition holder_of :: "'w ports \<Rightarrow> 'w spec \<Rightarrow> 'w \<Rightarrow> variable_scope \<Rightarrow> string option" where
  "holder_of ports spec w scope =
     (case scope of
        Environment \<Rightarrow> map_option (\<lambda>(n, _). ''environment '' @ [CHR 0x22] @ n @ [CHR 0x22]) (xp_environment ports w)
      | Collection \<Rightarrow> (case xs_inherited spec of [] \<Rightarrow> None | (n, _) # _ \<Rightarrow> Some n)
      | _ \<Rightarrow> None)"

definition shape_outcome :: "web \<Rightarrow> 'w ports \<Rightarrow> (transport_error + answer) \<Rightarrow> 'w \<Rightarrow> shaped" where
  "shape_outcome web ports outcome w =
     (case outcome of
        Inl e \<Rightarrow> shape_failure e (xp_page ports) (xp_online ports w)
      | Inr a \<Rightarrow> shape_response web a (xp_page ports))"

text \<open>What history keeps, but for the record, which is read off it.\<close>

definition history_of ::
    "'w ports \<Rightarrow> 'w spec \<Rightarrow> redactor \<Rightarrow> rat \<Rightarrow> sent_exchange \<Rightarrow> shaped \<Rightarrow> 'w \<Rightarrow> past_request" where
  "history_of ports spec rd created sx shaped w =
     (let request = sx_request sx
      in \<lparr>pr_created = created,
          pr_template = red_template rd False (xs_template spec),
          pr_method = br_method request,
          pr_url = red_text rd (br_url request),
          pr_headers = red_headers rd False
            (with_jar_cookies (br_headers request) (case tc_sent (sx_trace sx) of None \<Rightarrow> [] | Some cs \<Rightarrow> cs)),
          pr_preview = map_option (\<lambda>p. hb_text (keep_text rd p)) (sent_body_preview (br_body request)),
          pr_response =
            (case sx_outcome sx of
               Inl _ \<Rightarrow> None
             | Inr a \<Rightarrow> Some
                 \<lparr>ps_status = an_status a, ps_status_text = an_status_text a,
                  ps_headers = red_headers rd False (sh_header_list shaped),
                  ps_body = (if xp_history_bodies ports w then map_option (keep_text rd) (sh_text shaped) else None)\<rparr>),
          pr_duration = sx_ms sx,
          pr_route =
            (case sx_outcome sx of
               Inr a \<Rightarrow> an_route a
             | Inl _ \<Rightarrow> (case tc_took (sx_trace sx) of Some r \<Rightarrow> r | None \<Rightarrow> xp_first ports (sx_route sx))),
          pr_error =
            (case sh_history_error shaped of None \<Rightarrow> None | Some m \<Rightarrow> if m = [] then None else Some (red_text rd m)),
          pr_sent_from = map_option (\<lambda>(n, _, path). (red_text rd n, map (red_text rd) path)) (xs_info spec),
          pr_record = None\<rparr>)"

definition raw_of ::
    "'w ports \<Rightarrow> 'w spec \<Rightarrow> redactor \<Rightarrow> sent_exchange \<Rightarrow> shaped \<Rightarrow> past_request \<Rightarrow> 'w \<Rightarrow> raw_exchange" where
  "raw_of ports spec rd sx shaped history w =
     (let request = sx_request sx
      in \<lparr>rw_sent_headers =
            with_jar_cookies (br_headers request) (case tc_sent (sx_trace sx) of None \<Rightarrow> [] | Some cs \<Rightarrow> cs),
          rw_sent_url = br_url request,
          rw_sent_preview = sent_body_preview (br_body request),
          rw_received = (case sx_outcome sx of Inl _ \<Rightarrow> None | Inr _ \<Rightarrow> Some (sh_header_list shaped, sh_text shaped)),
          rw_vaulted = map (\<lambda>(n, s). \<lparr>fs_name = n, fs_scope = s,
            fs_holder = (case s of None \<Rightarrow> None | Some scope \<Rightarrow> holder_of ports spec w scope)\<rparr>) (br_vaulted request),
          rw_failure =
            (case sx_outcome sx of
               Inl e \<Rightarrow> Some \<lparr>fl_kind = failure_kind_of e, fl_reported = red_text rd (failure_message e),
                 fl_summary = red_text rd (first_sentence (sw_error_text (sh_response shaped)))\<rparr>
             | Inr _ \<Rightarrow> None),
          rw_unpaired = ((case sx_outcome sx of Inl _ \<Rightarrow> True | Inr _ \<Rightarrow> False) \<and> pr_route history = RouteDirect \<and>
            tc_unpaired (sx_trace sx))\<rparr>)"

text \<open>What masks the exchange: the secrets and credentials of the request, and the cookies that went out.\<close>

definition exchange_redactor :: "sent_exchange \<Rightarrow> redactor" where
  "exchange_redactor sx =
     new_redactor (br_secrets (sx_request sx) @ br_credentials (sx_request sx) @ tc_values (sx_trace sx))"

definition after_send ::
    "web \<Rightarrow> 'w ports \<Rightarrow> 'w spec \<Rightarrow> rat \<Rightarrow> pre_state \<Rightarrow> sent_exchange \<Rightarrow> 'w \<Rightarrow> (exchange_error + exchange_result) \<times> 'w" where
  "after_send web ports spec created ps sx w0 =
     (let request = sx_request sx;
          w = xp_received ports (br_url request) w0;
          shaped = shape_outcome web ports (sx_outcome sx) w;
          rd = exchange_redactor sx;
          secrets = new_redactor (br_secrets request);
          sent = sent_script_request (wb_read_form web) (pre_template ps) (br_method request)
            (red_text secrets (br_url request)) (map (\<lambda>(n, v). (n, red_text secrets v)) (br_headers request))
            (case br_body request of Some (DataText t) \<Rightarrow> Some (red_text secrets t) | _ \<Rightarrow> None);
          rx = \<lparr>rx_status = (case sw_status (sh_response shaped) of None \<Rightarrow> 0 | Some n \<Rightarrow> n),
            rx_status_text = sw_status_text (sh_response shaped), rx_body = sh_body shaped, rx_headers = sh_headers shaped,
            rx_duration = sx_ms sx,
            rx_size = (case sx_outcome sx of Inl _ \<Rightarrow> None | Inr a \<Rightarrow> Some (an_decoded_size a))\<rparr>
      in case run_post web ports spec sent rx secrets (if xs_run_scripts spec then scripts_to_run spec PostScript else [])
              \<lparr>post_runs = [], post_notes = pre_notes ps, post_ms = None\<rparr> w of
           (Inl e, w1) \<Rightarrow> (Inl e, w1)
         | (Inr post, w1) \<Rightarrow>
             (let runs = pre_runs ps @ post_runs post;
                  assertions = run_assertions (xs_tests spec)
                    \<lparr>ar_status = rx_status rx, ar_body = body_value (sh_body shaped), ar_headers = sh_headers shaped,
                     ar_duration = Some (num_of_int (sx_ms sx))\<rparr>;
                  history = history_of ports spec rd created sx shaped w1;
                  rec = record_of web history (raw_of ports spec rd sx shaped history w1)
              in (Inr
                    \<lparr>ex_record = rec, ex_duration = sx_ms sx,
                     ex_timings = \<lparr>tm_pre = (if pre_runs ps = [] then None else Some (pre_ms ps)), tm_request = sx_ms sx,
                       tm_post = post_ms post\<rparr>,
                     ex_relay_timings = (case sx_outcome sx of Inl _ \<Rightarrow> None | Inr a \<Rightarrow> an_timings a),
                     ex_tests = rows_of rd runs @ assertions,
                     ex_logs = map (red_text rd) (logs_of runs @ post_notes post),
                     ex_response = sh_response shaped,
                     ex_history = history\<lparr>pr_record := Some rec\<rparr>,
                     ex_cookie_values = tc_values (sx_trace sx),
                     ex_next = last_next runs\<rparr>, w1)))"

section \<open>The exchange\<close>

text \<open>From a built request on: the last check before the wire, then the send.\<close>

definition send_built ::
    "web \<Rightarrow> 'w ports \<Rightarrow> 'w spec \<Rightarrow> rat \<Rightarrow> pre_state \<Rightarrow> built_request \<Rightarrow> 'w \<Rightarrow> (exchange_error + exchange_result) \<times> 'w" where
  "send_built web ports spec created ps request w =
     (if held_back (outgoing_of request) then (Inl (NotSent (SendBlocked SECRET_PLACEHOLDER_BLOCKED)), w)
      else
        (case send_twice ports spec (pre_template ps) request (xp_sending ports (br_url request) w) of
           (Inl e, w') \<Rightarrow> (Inl e, w')
         | (Inr sx, w') \<Rightarrow> after_send web ports spec created ps sx w'))"

text \<open>From what the pre-request scripts left on.\<close>

definition after_scripts ::
    "web \<Rightarrow> 'w ports \<Rightarrow> 'w spec \<Rightarrow> rat \<Rightarrow> rows_before \<Rightarrow> (string \<times> string) list \<Rightarrow> pre_state \<Rightarrow> 'w \<Rightarrow>
      (exchange_error + exchange_result) \<times> 'w" where
  "after_scripts web ports spec created before scripts ps w =
     (if xs_iteration spec \<noteq> None \<and> list_ex (\<lambda>r. sr_skip (run_result r)) (pre_runs ps)
      then (Inl (RequestSkipped (rows_of nothing_masked (pre_runs ps)) (logs_of (pre_runs ps) @ pre_notes ps)
             (last_next (pre_runs ps))), w)
      else
        (case xs_build spec (pre_template ps) w of
           (Inl (SendDeclined m), w') \<Rightarrow>
             (Inl (NotSent (SendDeclined m)),
              if scripts = [] then w'
              else undo ports (xs_collection spec) before (pre_touched ps) (pre_restores ps) w')
         | (Inl e, w') \<Rightarrow> (Inl (NotSent e), w')
         | (Inr request, w') \<Rightarrow> send_built web ports spec created ps request w'))"

definition exchange :: "web \<Rightarrow> 'w ports \<Rightarrow> 'w spec \<Rightarrow> 'w \<Rightarrow> (exchange_error + exchange_result) \<times> 'w" where
  "exchange web ports spec w =
     (let scripts = (if xs_run_scripts spec then scripts_to_run spec PreScript else []);
          before = \<lparr>bf_environment = environment_rows ports w, bf_global = xp_globals ports w,
            bf_collection = collection_rows spec w\<rparr>;
          start = \<lparr>pre_runs = [], pre_notes = [], pre_ms = 0, pre_template = xs_template spec, pre_touched = empty_changes,
            pre_restores = []\<rparr>
      in case run_pre web ports spec scripts start w of
           (Inl e, w1) \<Rightarrow> (Inl e, w1)
         | (Inr ps, w1) \<Rightarrow> after_scripts web ports spec (xp_date ports w) before scripts ps w1)"

text \<open>One request of a collection run, said in the run's words; \<open>Inl\<close> is what is thrown on.\<close>

definition run_tests :: "test_result list \<Rightarrow> run_test list" where
  "run_tests rows = map (\<lambda>r. \<lparr>rt_name = tr_label r, rt_passed = tr_passed r, rt_error = tr_error r\<rparr>) rows"

definition braced :: "string \<Rightarrow> string" where
  "braced name = ''{{'' @ name @ ''}}''"

text \<open>The words of the errors. (The arrow between two names is outside the range of characters; its UTF-8 bytes stand for it.)\<close>

definition ARROW :: string where
  "ARROW = [CHR '' '', CHR 0xE2, CHR 0x86, CHR 0x92, CHR '' '']"

definition nesting_words :: "string list \<Rightarrow> string" where
  "nesting_words chain =
     (case nesting_message chain of
        Circle names \<Rightarrow> ''Variables refer to each other in a circle: '' @ join ARROW (map braced names) @ ''.''
      | TooDeep names \<Rightarrow>
          ''Variables are nested more than '' @ show_nat MAX_VARIABLE_DEPTH @ '' deep: '' @ join ARROW (map braced names) @ ''.'')"

definition unresolved_words :: "string list \<Rightarrow> string" where
  "unresolved_words names =
     join '', '' (map braced names) @ (if length names = 1 then '' has'' else '' have'') @
     '' no value. The request was not sent.''"

fun send_error_message :: "send_error \<Rightarrow> string option" where
  "send_error_message (SendBlocked m) = Some m"
| "send_error_message (SendDeclined m) = Some m"
| "send_error_message (UnresolvedVariables names) = Some (unresolved_words names)"
| "send_error_message (NestingError chain) = Some (nesting_words chain)"
| "send_error_message (OAuthRefused _) = None"
| "send_error_message (OtherError _) = None"

definition no_outcome :: run_outcome where
  "no_outcome = \<lparr>out_skipped = False, out_status = None, out_status_text = None, out_duration = None, out_error = None,
     out_tests = [], out_next = None, out_end = None\<rparr>"

definition run_outcome_of :: "exchange_error + exchange_result \<Rightarrow> string \<Rightarrow> send_error + run_outcome \<times> past_request option" where
  "run_outcome_of sent declined =
     (case sent of
        Inr r \<Rightarrow>
          (let shown = ex_response r
           in Inr (no_outcome\<lparr>out_status := sw_status shown,
                out_status_text := (if sw_status_text shown = [] then None else Some (sw_status_text shown)),
                out_duration := Some (of_int (ex_duration r)),
                out_error := (if sw_status shown \<in> {None, Some 0} then Some (sw_error_text shown) else None),
                out_tests := run_tests (ex_tests r), out_next := ex_next r\<rparr>, Some (ex_history r)))
      | Inl (RequestSkipped tests _ nxt) \<Rightarrow>
          Inr (no_outcome\<lparr>out_skipped := True, out_tests := run_tests tests, out_next := nxt\<rparr>, None)
      | Inl (PreScriptFailed tests _ _ script) \<Rightarrow>
          Inr (no_outcome\<lparr>out_error := Some (pre_script_message script), out_tests := run_tests tests\<rparr>, None)
      | Inl (NotSent (SendDeclined m)) \<Rightarrow> Inr (no_outcome\<lparr>out_error := Some m, out_end := Some declined\<rparr>, None)
      | Inl (NotSent e) \<Rightarrow>
          (case send_error_message e of
             Some m \<Rightarrow> Inr (no_outcome\<lparr>out_error := Some m\<rparr>, None)
           | None \<Rightarrow> Inl e))"

section \<open>What goes out\<close>

text \<open>Two transports that do the same with every request that holds no reference to a secret.\<close>

definition alike :: "(outgoing \<Rightarrow> 'w send_options \<Rightarrow> 'w traced \<Rightarrow> 'r) \<Rightarrow> (outgoing \<Rightarrow> 'w send_options \<Rightarrow> 'w traced \<Rightarrow> 'r) \<Rightarrow> bool" where
  "alike t t' \<longleftrightarrow> (\<forall>q. \<not> held_back q \<longrightarrow> t q = t' q)"

lemma ports_transport:
  "xp_run_script (ports\<lparr>xp_transport := t\<rparr>) = xp_run_script ports" "xp_transport (ports\<lparr>xp_transport := t\<rparr>) = t"
  "xp_route (ports\<lparr>xp_transport := t\<rparr>) = xp_route ports" "xp_first (ports\<lparr>xp_transport := t\<rparr>) = xp_first ports"
  "xp_environment (ports\<lparr>xp_transport := t\<rparr>) = xp_environment ports"
  "xp_change_environment (ports\<lparr>xp_transport := t\<rparr>) = xp_change_environment ports"
  "xp_globals (ports\<lparr>xp_transport := t\<rparr>) = xp_globals ports"
  "xp_change_globals (ports\<lparr>xp_transport := t\<rparr>) = xp_change_globals ports"
  "xp_unlocked (ports\<lparr>xp_transport := t\<rparr>) = xp_unlocked ports"
  "xp_read_secret (ports\<lparr>xp_transport := t\<rparr>) = xp_read_secret ports"
  "xp_replace_secret (ports\<lparr>xp_transport := t\<rparr>) = xp_replace_secret ports"
  "xp_cookies (ports\<lparr>xp_transport := t\<rparr>) = xp_cookies ports" "xp_timeout (ports\<lparr>xp_transport := t\<rparr>) = xp_timeout ports"
  "xp_history_bodies (ports\<lparr>xp_transport := t\<rparr>) = xp_history_bodies ports"
  "xp_page (ports\<lparr>xp_transport := t\<rparr>) = xp_page ports" "xp_online (ports\<lparr>xp_transport := t\<rparr>) = xp_online ports"
  "xp_sending (ports\<lparr>xp_transport := t\<rparr>) = xp_sending ports" "xp_received (ports\<lparr>xp_transport := t\<rparr>) = xp_received ports"
  "xp_date (ports\<lparr>xp_transport := t\<rparr>) = xp_date ports" "xp_clock (ports\<lparr>xp_transport := t\<rparr>) = xp_clock ports"
  by simp_all

lemma alike_scripts:
  assumes "alike t t'"
  shows "extras_for web (ports\<lparr>xp_transport := t\<rparr>) = extras_for web (ports\<lparr>xp_transport := t'\<rparr>)"
proof -
  have "send_for_script web (ports\<lparr>xp_transport := t\<rparr>) spec q w = send_for_script web (ports\<lparr>xp_transport := t'\<rparr>) spec q w" for spec q w
    unfolding send_for_script_def Let_def ports_transport using assms by (simp add: alike_def)
  then have sends: "send_for_script web (ports\<lparr>xp_transport := t\<rparr>) = send_for_script web (ports\<lparr>xp_transport := t'\<rparr>)" by (intro ext)
  show ?thesis unfolding extras_for_def [abs_def] ports_transport sends ..
qed

lemma transport_keeps_vault:
  "apply_changes (ports\<lparr>xp_transport := t\<rparr>) = apply_changes ports"
  "undo (ports\<lparr>xp_transport := t\<rparr>) = undo ports"
proof -
  have vault: "into_vault (ports\<lparr>xp_transport := t\<rparr>) = into_vault ports" by (rule into_vault_cong) simp_all
  show a: "apply_changes (ports\<lparr>xp_transport := t\<rparr>) = apply_changes ports"
    unfolding apply_changes_def [abs_def] store_environment_def store_globals_def vault ports_transport ..
  show "undo (ports\<lparr>xp_transport := t\<rparr>) = undo ports"
    unfolding undo_def [abs_def] restore_secrets_def [abs_def] a ports_transport ..
qed

lemma alike_run_pre:
  "alike t t' \<Longrightarrow> run_pre web (ports\<lparr>xp_transport := t\<rparr>) spec scripts ps w = run_pre web (ports\<lparr>xp_transport := t'\<rparr>) spec scripts ps w"
proof (induction scripts arbitrary: ps w)
  case (Cons s scripts)
  obtain name script where s: "s = (name, script)" by (cases s)
  show ?case
    unfolding s run_pre.simps environment_rows_def alike_scripts [OF Cons.prems] transport_keeps_vault ports_transport
      Cons.IH [OF Cons.prems] ..
qed simp

lemma alike_run_post:
  "alike t t' \<Longrightarrow> run_post web (ports\<lparr>xp_transport := t\<rparr>) spec sent rx secrets scripts st w =
    run_post web (ports\<lparr>xp_transport := t'\<rparr>) spec sent rx secrets scripts st w"
proof (induction scripts arbitrary: st w)
  case (Cons s scripts)
  obtain name script where s: "s = (name, script)" by (cases s)
  show ?case
    unfolding s run_post.simps environment_rows_def alike_scripts [OF Cons.prems] transport_keeps_vault ports_transport
      Cons.IH [OF Cons.prems] ..
qed simp

lemma alike_transmit:
  "alike t t' \<Longrightarrow> \<not> held_back (outgoing_of request) \<Longrightarrow>
   transmit (ports\<lparr>xp_transport := t\<rparr>) spec rt template request wt = transmit (ports\<lparr>xp_transport := t'\<rparr>) spec rt template request wt"
  unfolding transmit_def ports_transport by (simp add: alike_def)

lemma alike_send_twice:
  assumes t: "alike t t'" and "\<not> held_back (outgoing_of request)"
  shows "send_twice (ports\<lparr>xp_transport := t\<rparr>) spec template request w =
    send_twice (ports\<lparr>xp_transport := t'\<rparr>) spec template request w"
  unfolding send_twice_def Let_def ports_transport alike_transmit [OF assms]
  by (auto simp: alike_transmit [OF t] split: prod.split sum.split option.split)

lemma alike_after_send:
  assumes t: "alike t t'"
  shows "after_send web (ports\<lparr>xp_transport := t\<rparr>) = after_send web (ports\<lparr>xp_transport := t'\<rparr>)"
  unfolding after_send_def [abs_def] shape_outcome_def history_of_def raw_of_def holder_of_def alike_run_post [OF t] ports_transport ..

lemma alike_send_built:
  assumes t: "alike t t'"
  shows "send_built web (ports\<lparr>xp_transport := t\<rparr>) spec created ps request w =
    send_built web (ports\<lparr>xp_transport := t'\<rparr>) spec created ps request w"
  unfolding send_built_def alike_after_send [OF t]
  by (cases "held_back (outgoing_of request)") (simp_all add: alike_send_twice [OF t] ports_transport)


section \<open>What is kept\<close>

lemma send_twice_request:
  assumes "send_twice ports spec template request w = (Inr sx, w')"
  shows "sx_request sx = request \<or>
    (\<exists>retry v v'. xs_retry spec = Some retry \<and> retry template v = (Inr (Some (sx_request sx)), v'))"
  using assms
  by (auto simp: send_twice_def Let_def again_for_def split: prod.splits sum.splits option.splits if_splits)

text \<open>An exchange that gives a result was sent, with a request that was built for it.\<close>

lemma exchange_sent:
  assumes "exchange web ports spec w = (Inr r, w')"
    and "\<And>c v b v'. xs_build spec c v = (Inr b, v') \<Longrightarrow> P b"
    and "\<And>retry c v b v'. xs_retry spec = Some retry \<Longrightarrow> retry c v = (Inr (Some b), v') \<Longrightarrow> P b"
  obtains ps sx request w2 w3 where "send_twice ports spec (pre_template ps) request w2 = (Inr sx, w3)" "P (sx_request sx)"
    "after_send web ports spec (xp_date ports w) ps sx w3 = (Inr r, w')"
proof -
  obtain created before scripts ps w1 where "after_scripts web ports spec (xp_date ports w) before scripts ps w1 = (Inr r, w')"
    using assms(1) by (auto simp: exchange_def Let_def split: prod.splits sum.splits)
  then obtain request w2 where built: "xs_build spec (pre_template ps) w1 = (Inr request, w2)"
    and sent: "send_built web ports spec (xp_date ports w) ps request w2 = (Inr r, w')"
    by (auto simp: after_scripts_def split: prod.splits sum.splits if_splits send_error.splits)
  from sent obtain sx w3 where sx: "send_twice ports spec (pre_template ps) request (xp_sending ports (br_url request) w2) = (Inr sx, w3)"
    "after_send web ports spec (xp_date ports w) ps sx w3 = (Inr r, w')"
    by (auto simp: send_built_def split: prod.splits sum.splits if_splits)
  have "P (sx_request sx)" using send_twice_request [OF sx(1)] assms(2) [OF built] assms(3) by auto
  with sx that show thesis by blast
qed

lemma after_send_result:
  assumes "after_send web ports spec created ps sx w = (Inr r, w')"
  defines "shaped \<equiv> shape_outcome web ports (sx_outcome sx) (xp_received ports (br_url (sx_request sx)) w)"
  defines "history \<equiv> history_of ports spec (exchange_redactor sx) created sx shaped w'"
  shows "ex_history r = history\<lparr>pr_record := Some (ex_record r)\<rparr>"
    "ex_record r = record_of web history (raw_of ports spec (exchange_redactor sx) sx shaped history w')"
    "list_all (\<lambda>l. \<exists>t. l = red_text (exchange_redactor sx) t) (ex_logs r)"
  using assms(1) unfolding after_send_def Let_def shaped_def history_def
  by (auto simp: list_all_iff split: prod.splits sum.splits)

text \<open>What history keeps of an exchange in texts.\<close>

definition kept_texts :: "past_request \<Rightarrow> string list" where
  "kept_texts h =
     pr_url h # map fst (pr_headers h) @ filter (\<lambda>v. v \<noteq> MASK) (map snd (pr_headers h)) @
     (case pr_preview h of None \<Rightarrow> [] | Some p \<Rightarrow> [p]) @
     (case pr_response h of
        None \<Rightarrow> []
      | Some r \<Rightarrow> map fst (ps_headers r) @ filter (\<lambda>v. v \<noteq> MASK) (map snd (ps_headers r)) @
          (case ps_body r of None \<Rightarrow> [] | Some b \<Rightarrow> [hb_text b])) @
     (case pr_error h of None \<Rightarrow> [] | Some e \<Rightarrow> [e]) @
     (case pr_sent_from h of None \<Rightarrow> [] | Some (n, path) \<Rightarrow> n # path)"

lemma red_headers_texts:
  assumes "\<And>t. F (red_text rd t)"
  shows "list_all F (map fst (red_headers rd c hs))" "list_all F (filter (\<lambda>v. v \<noteq> MASK) (map snd (red_headers rd c hs)))"
  using assms by (induction hs) (auto simp: red_headers_def)

lemma history_texts_masked:
  assumes "\<And>t. F (red_text rd t)" "\<And>t n. F t \<Longrightarrow> F (take n t)"
  shows "list_all F (kept_texts (history_of ports spec rd created sx shaped w\<lparr>pr_record := rec\<rparr>))"
proof -
  let ?h = "history_of ports spec rd created sx shaped w"
  note headers = red_headers_texts [of F rd, OF assms(1)]
  have url: "F (pr_url ?h)" by (simp add: history_of_def Let_def assms(1))
  have sent: "\<exists>hs. pr_headers ?h = red_headers rd False hs" by (auto simp: history_of_def Let_def)
  have preview: "F p" if "pr_preview ?h = Some p" for p
    using that by (auto simp: history_of_def Let_def keep_text_def assms)
  have response: "(\<exists>hs. ps_headers x = red_headers rd False hs) \<and> (\<forall>b. ps_body x = Some b \<longrightarrow> F (hb_text b))"
    if "pr_response ?h = Some x" for x
    using that by (auto simp: history_of_def Let_def keep_text_def assms split: sum.splits if_splits)
  have error: "F e" if "pr_error ?h = Some e" for e
    using that by (auto simp: history_of_def Let_def assms(1) split: option.splits if_splits)
  have sent_from: "F n \<and> list_all F path" if "pr_sent_from ?h = Some (n, path)" for n path
    using that by (auto simp: history_of_def Let_def assms(1) list_all_iff)
  have "list_all F (kept_texts ?h)"
  proof -
    obtain hs where hs: "pr_headers ?h = red_headers rd False hs" using sent by blast
    have "list_all F (map fst (ps_headers x) @ filter (\<lambda>v. v \<noteq> MASK) (map snd (ps_headers x)) @
        (case ps_body x of None \<Rightarrow> [] | Some b \<Rightarrow> [hb_text b]))" if "pr_response ?h = Some x" for x
      using response [OF that] headers by (auto split: option.split)
    moreover have "list_all F (case pr_sent_from ?h of None \<Rightarrow> [] | Some (n, path) \<Rightarrow> n # path)"
      using sent_from by (auto split: option.split)
    ultimately show ?thesis
      unfolding kept_texts_def list_all_append list.pred_inject(2) hs
      using url headers preview error by (simp split: option.split)
  qed
  then show ?thesis by (simp add: kept_texts_def)
qed


section \<open>The record\<close>

lemma record_sound_of:
  "record_sound (record_of web h raw) \<longleftrightarrow> (\<forall>x. pr_response h = Some x \<longrightarrow> ps_status x \<le> 999) \<and> 0 \<le> pr_duration h"
  by (auto simp: record_sound_def record_of_def Let_def num_less_def num_of_int_def)

lemma js_round_nonneg: "0 \<le> x \<Longrightarrow> 0 \<le> js_round x"
  by (simp add: js_round_def)

definition ticks :: "'w ports \<Rightarrow> 'w spec \<Rightarrow> bool" where
  "ticks ports spec \<longleftrightarrow>
     (\<forall>q opts w t r w' t'. xp_transport ports q opts (w, t) = (r, w', t') \<longrightarrow> xp_clock ports w \<le> xp_clock ports w') \<and>
     (\<forall>retry c w r w'. xs_retry spec = Some retry \<longrightarrow> retry c w = (r, w') \<longrightarrow> xp_clock ports w \<le> xp_clock ports w')"

lemma transmit_ticks: "ticks ports spec \<Longrightarrow> transmit ports spec rt template request (w, t) = (r, w', t') \<Longrightarrow> xp_clock ports w \<le> xp_clock ports w'"
  unfolding ticks_def transmit_def Let_def prod.case by blast

lemma again_ticks: "ticks ports spec \<Longrightarrow> again_for spec template outcome w = (r, w') \<Longrightarrow> xp_clock ports w \<le> xp_clock ports w'"
  unfolding ticks_def again_for_def by (auto split: sum.splits option.splits if_splits)

definition answered :: "'w ports \<Rightarrow> (transport_error + answer) \<Rightarrow> bool" where
  "answered ports outcome \<longleftrightarrow> (\<exists>q opts wt wt'. xp_transport ports q opts wt = (Inr outcome, wt'))"

lemma transmit_outcome: "transmit ports spec rt template request wt = (Inr outcome, wt') \<Longrightarrow> answered ports outcome"
  unfolding transmit_def Let_def answered_def by (cases wt) (simp only: prod.case, blast)

lemma send_twice_outcome:
  assumes "send_twice ports spec template request w = (Inr sx, w')" "ticks ports spec"
  shows "0 \<le> sx_ms sx" "answered ports (sx_outcome sx)"
proof -
  note monotone = transmit_ticks [OF assms(2)] again_ticks [OF assms(2)]
  show "0 \<le> sx_ms sx"
    using assms(1) unfolding send_twice_def Let_def
    by (auto intro!: js_round_nonneg split: prod.splits sum.splits option.splits if_splits dest!: monotone)
  show "answered ports (sx_outcome sx)"
    using assms(1) unfolding send_twice_def Let_def
    by (auto split: prod.splits sum.splits option.splits if_splits dest!: transmit_outcome)
qed

text \<open>
  C23: the record the app makes of an exchange is one it takes back from a file: with a transport whose statuses are at most 999 and
  a clock that does not go backwards, the record of every exchange that gives a result, written as JSON, has no problem.
\<close>

theorem record_is_accepted:
  assumes "exchange web ports spec w = (Inr r, w')" "ticks ports spec"
    and "\<And>q opts wt a wt'. xp_transport ports q opts wt = (Inr (Inr a), wt') \<Longrightarrow> an_status a \<le> 999"
  shows "record_problems (Some (record_json (ex_record r))) path = []"
proof -
  obtain ps sx request w2 w3 where sent: "send_twice ports spec (pre_template ps) request w2 = (Inr sx, w3)"
    and after: "after_send web ports spec (xp_date ports w) ps sx w3 = (Inr r, w')"
    using exchange_sent [OF assms(1), of "\<lambda>_. True"] by metis
  have "an_status a \<le> 999" if "sx_outcome sx = Inr a" for a
    using send_twice_outcome(2) [OF sent assms(2)] assms(3) that by (auto simp: answered_def)
  then have "record_sound (ex_record r)"
    unfolding after_send_result(2) [OF after] record_sound_of
    using send_twice_outcome(1) [OF sent assms(2)] by (auto simp: history_of_def Let_def split: sum.splits)
  then show ?thesis using record_problems_iff agrees_same by blast
qed

section \<open>A run's request\<close>

text \<open>
  What a send that was refused is to a run: a request that is held back says why as its error, a declined one ends the run, a skipped
  one is no failure; only what is none of the send's own refusals is thrown on.
\<close>

theorem refusals_are_outcomes:
  "run_outcome_of (Inl e) declined =
     (case e of
        NotSent (OtherError m) \<Rightarrow> Inl (OtherError m)
      | NotSent (OAuthRefused m) \<Rightarrow> Inl (OAuthRefused m)
      | _ \<Rightarrow> Inr (fst (projr (run_outcome_of (Inl e) declined)), None))"
  "run_outcome_of (Inl e) declined = Inr (out, kept) \<Longrightarrow>
     (out_skipped out \<longleftrightarrow> (\<exists>ts ls n. e = RequestSkipped ts ls n)) \<and>
     (out_end out \<noteq> None \<longleftrightarrow> (\<exists>m. e = NotSent (SendDeclined m))) \<and>
     (out_error out = None \<longleftrightarrow> out_skipped out) \<and> out_status out = None \<and> kept = None"
  by (auto simp: run_outcome_of_def no_outcome_def Let_def split: exchange_error.splits send_error.splits option.splits)

end
