(* ===== verification/CommandLine.thy ===== *)
theory CommandLine
  imports Exchange
begin

text \<open>
  A collection run from the command line: \<open>runCollection\<close> of \<open>packages/cli/src/run.ts\<close>, which gives the exchange its
  ports and the run its sender. What a run keeps is a record: the variables, the plaintexts read or set, the hosts the
  user has said yes to, and the world outside, which the script engine, \<open>fetch\<close> and the clock are of. A vault
  file is the function from the ids of its secrets to what they decrypt to.
\<close>

record run_input =
  ri_source :: collection_tree
  ri_environment :: "(string \<times> row list) option"
  ri_globals :: "row list"
  ri_vault :: "(string \<Rightarrow> string option) option"
  ri_allow_scripts :: bool
  ri_timeout :: nat

record 'x cli_state =
  cs_environment :: "(string \<times> row list) option"
  cs_globals :: "row list"
  cs_collection :: "row list"
  cs_plaintext :: "(string \<times> string) list"
  cs_accepted :: "string list"
  cs_thrown :: "send_error option"
  cs_outside :: 'x

text \<open>What is not the program's: the engine, the network, the platform, the time, the signal.\<close>

record 'x command =
  cm_script :: "string \<Rightarrow> script_variable list \<Rightarrow> script_response option \<Rightarrow> 'x cli_state script_extras \<Rightarrow> 'x cli_state \<Rightarrow>
    (string + script_result) \<times> 'x cli_state"
  cm_fetch :: "outgoing \<Rightarrow> nat \<Rightarrow> 'x \<Rightarrow> (string + (transport_error + answer)) \<times> 'x"
  cm_web :: web
  cm_platform :: "'x \<Rightarrow> platform"
  cm_fresh :: "'x \<Rightarrow> nat \<Rightarrow> string \<Rightarrow> nat \<Rightarrow> string"
  cm_date :: "'x \<Rightarrow> rat"
  cm_clock :: "'x \<Rightarrow> rat"
  cm_wait :: "'x \<Rightarrow> 'x"
  cm_told :: "run_result \<Rightarrow> 'x \<Rightarrow> 'x"
  cm_aborted :: "'x \<Rightarrow> bool"

section \<open>The vault of a run\<close>

text \<open>The plaintext of a secret is read once; what a script sets is kept for the run, and the file is never written.\<close>

definition cli_read :: "(string \<Rightarrow> string option) option \<Rightarrow> string \<Rightarrow> 'x cli_state \<Rightarrow> string option \<times> 'x cli_state" where
  "cli_read vault i st =
     (case om_get (cs_plaintext st) i of
        Some p \<Rightarrow> (Some p, st)
      | None \<Rightarrow>
          (case Option.bind vault (\<lambda>file. file i) of
             None \<Rightarrow> (None, st)
           | Some p \<Rightarrow> (Some p, st\<lparr>cs_plaintext := om_set i p (cs_plaintext st)\<rparr>)))"

definition cli_replace :: "(string \<Rightarrow> string option) option \<Rightarrow> string \<Rightarrow> string \<Rightarrow> 'x cli_state \<Rightarrow> bool \<times> 'x cli_state" where
  "cli_replace vault i v st =
     (case cli_read vault i st of
        (None, st') \<Rightarrow> (False, st')
      | (Some _, st') \<Rightarrow> (True, st'\<lparr>cs_plaintext := om_set i v (cs_plaintext st')\<rparr>))"

definition cli_ports :: "'x command \<Rightarrow> run_input \<Rightarrow> 'x cli_state ports" where
  "cli_ports cmd input =
     \<lparr>xp_run_script = (\<lambda>script env rx extras st. cm_script cmd script env (map_option script_response_of rx) extras st),
      xp_transport = (\<lambda>q options (st, t).
        (case cm_fetch cmd q (so_timeout options) (cs_outside st) of
           (r, x) \<Rightarrow> (r, st\<lparr>cs_outside := x\<rparr>, t\<lparr>tc_took := Some RouteDirect\<rparr>))),
      xp_route = (\<lambda>_. Direct), xp_first = (\<lambda>_. RouteDirect),
      xp_environment = cs_environment,
      xp_change_environment = (\<lambda>changes st.
        st\<lparr>cs_environment := map_option (\<lambda>(n, rows). (n, apply_variable_changes rows changes)) (cs_environment st)\<rparr>),
      xp_globals = cs_globals,
      xp_change_globals = (\<lambda>changes st. st\<lparr>cs_globals := apply_variable_changes (cs_globals st) changes\<rparr>),
      xp_unlocked = (\<lambda>_. ri_vault input \<noteq> None),
      xp_read_secret = cli_read (ri_vault input), xp_replace_secret = cli_replace (ri_vault input),
      xp_cookies = None, xp_timeout = (\<lambda>_. ri_timeout input), xp_history_bodies = (\<lambda>_. False),
      xp_page = None, xp_online = (\<lambda>_. None), xp_sending = (\<lambda>_ st. st), xp_received = (\<lambda>_ st. st),
      xp_date = (\<lambda>st. cm_date cmd (cs_outside st)), xp_clock = (\<lambda>st. cm_clock cmd (cs_outside st))\<rparr>"

definition cli_collection :: "'x cli_state collection_port" where
  "cli_collection = (cs_collection, \<lambda>changes st. st\<lparr>cs_collection := apply_variable_changes (cs_collection st) changes\<rparr>)"

section \<open>One request\<close>

definition folder_rows :: "run_input \<Rightarrow> request_doc \<Rightarrow> row list" where
  "folder_rows input doc = concat (map fol_variables (folder_chain (tree_folders (ri_source input)) (rd_folder_id doc)))"

definition scopes_of :: "row list \<Rightarrow> row list \<Rightarrow> row list \<Rightarrow> row list \<Rightarrow> row list \<Rightarrow> scope_stack" where
  "scopes_of env fold_rows coll globals data scope =
     (case scope of
        Environment \<Rightarrow> env | Folder \<Rightarrow> fold_rows | Collection \<Rightarrow> coll | Global \<Rightarrow> globals | Data \<Rightarrow> data | Local \<Rightarrow> [])"

definition environment_of :: "(string \<times> row list) option \<Rightarrow> row list" where
  "environment_of env = (case env of None \<Rightarrow> [] | Some (_, rows) \<Rightarrow> rows)"

definition NO_VAULT :: string where
  "NO_VAULT =
     ''This request uses a vault secret, and the run has no vault: give --vault-file, or run a workspace backup, with the passphrase in WAYFARER_VAULT_PASSPHRASE. Nothing was sent.''"

text \<open>The plaintexts a build reads are those \<open>readSecret\<close> gives; that they are remembered is not seen by anything else.\<close>

definition cli_context ::
    "'x command \<Rightarrow> run_input \<Rightarrow> request_doc \<Rightarrow> run_iteration \<Rightarrow> 'x cli_state \<Rightarrow> build_context" where
  "cli_context cmd input doc iteration st =
     \<lparr>bc_scopes = scopes_of (environment_of (cs_environment st)) (folder_rows input doc) (cs_collection st) (cs_globals st)
        (it_data iteration),
      bc_ancestors = ancestors_of (tree_collection (ri_source input)) (tree_folders (ri_source input)) (rd_folder_id doc),
      bc_read_secrets = (\<lambda>ids.
        if ri_vault input = None then Inl (SendBlocked NO_VAULT)
        else Inr (\<lambda>i. if i \<in> set ids then fst (cli_read (ri_vault input) i st) else None)),
      bc_read_file = (\<lambda>file. Inl (SendBlocked
        (''The file '' @ [CHR 0x22] @ file_name file @ [CHR 0x22] @
         '' of this request's body is kept in the browser that picked it, not in the file run here. Nothing was sent.''))),
      bc_block_unresolved = True,
      bc_composed = Some
        \<lparr>com_url = rc_url (rd_content doc),
         com_scopes = scopes_of (environment_of (ri_environment input)) (folder_rows input doc)
           (col_variables (tree_collection (ri_source input))) (ri_globals input) (it_data iteration),
         com_accepted = Some (cs_accepted st)\<rparr>,
      bc_ask_host = None, bc_oauth_token = None, bc_renew_token = False, bc_last_event_id = None,
      bc_fresh = cm_fresh cmd (cs_outside st)\<rparr>"

definition cli_build ::
    "'x command \<Rightarrow> run_input \<Rightarrow> request_doc \<Rightarrow> run_iteration \<Rightarrow> request_content \<Rightarrow> 'x cli_state \<Rightarrow>
      (send_error + built_request) \<times> 'x cli_state" where
  "cli_build cmd input doc iteration content st =
     (let (built, hosts) = build_request (cm_platform cmd (cs_outside st)) content (cli_context cmd input doc iteration st)
      in (built, st\<lparr>cs_accepted := (case hosts of None \<Rightarrow> cs_accepted st | Some hs \<Rightarrow> hs)\<rparr>))"

definition cli_spec :: "'x command \<Rightarrow> run_input \<Rightarrow> request_doc \<Rightarrow> run_iteration \<Rightarrow> 'x cli_state spec" where
  "cli_spec cmd input doc iteration =
     (let source = ri_source input; content = rd_content doc
      in \<lparr>xs_pre_script = script_pre (rc_scripts content), xs_post_script = script_post (rc_scripts content),
          xs_tests = rc_tests content, xs_run_scripts = ri_allow_scripts input, xs_template = content,
          xs_build = cli_build cmd input doc iteration, xs_retry = None,
          xs_info = Some (rd_name doc, rd_id doc,
            col_name (tree_collection source) # map fol_name (folder_chain (tree_folders source) (rd_folder_id doc))),
          xs_collection = Some cli_collection,
          xs_inherited = map (\<lambda>a. (anc_name a, anc_scripts a))
            (ancestors_of (tree_collection source) (tree_folders source) (rd_folder_id doc)),
          xs_folder_variables = (\<lambda>_. folder_rows input doc), xs_route = Some Direct, xs_ask = None, xs_events = False,
          xs_iteration = Some iteration\<rparr>)"

definition HOST_DECLINED :: string where
  "HOST_DECLINED =
     ''A script moved a request that uses a vault secret to another host, and a run from the command line has no one to say yes.''"

text \<open>Anything that is thrown ends the run: nothing is sent after it.\<close>

definition cli_send :: "'x command \<Rightarrow> run_input \<Rightarrow> request_doc \<Rightarrow> run_iteration \<Rightarrow> 'x cli_state \<Rightarrow> run_outcome \<times> 'x cli_state" where
  "cli_send cmd input doc iteration st =
     (if cs_thrown st \<noteq> None then (no_outcome, st)
      else
        (case exchange (cm_web cmd) (cli_ports cmd input) (cli_spec cmd input doc iteration) st of
           (sent, st') \<Rightarrow>
             (case run_outcome_of sent HOST_DECLINED of
                Inr (outcome, _) \<Rightarrow> (outcome, st')
              | Inl e \<Rightarrow> (no_outcome, st'\<lparr>cs_thrown := Some e\<rparr>))))"

section \<open>The run\<close>

definition cli_start :: "run_input \<Rightarrow> 'x \<Rightarrow> 'x cli_state" where
  "cli_start input x =
     \<lparr>cs_environment = ri_environment input, cs_globals = ri_globals input,
      cs_collection = col_variables (tree_collection (ri_source input)), cs_plaintext = [], cs_accepted = [],
      cs_thrown = None, cs_outside = x\<rparr>"

definition cli_docs :: "'x command \<Rightarrow> run_input \<Rightarrow> request_doc list" where
  "cli_docs cmd input =
     requests_in_order (wb_name_le (cm_web cmd)) (tree_folders (ri_source input)) (tree_requests (ri_source input)) None"

definition cli_world :: "'x command \<Rightarrow> run_input \<Rightarrow> 'x cli_state run_world" where
  "cli_world cmd input =
     \<lparr>rw_send = (\<lambda>request iteration st.
        (let docs = cli_docs cmd input
         in case List.find (\<lambda>d. rd_id d = rq_id request) docs of
              Some doc \<Rightarrow> cli_send cmd input doc iteration st
            | None \<Rightarrow> cli_send cmd input (hd docs) iteration st)),
      rw_wait = (\<lambda>st. st\<lparr>cs_outside := cm_wait cmd (cs_outside st)\<rparr>),
      rw_on_result = (\<lambda>r st. if cs_thrown st \<noteq> None then st else st\<lparr>cs_outside := cm_told cmd r (cs_outside st)\<rparr>),
      rw_aborted = (\<lambda>st. cs_thrown st \<noteq> None \<or> cm_aborted cmd (cs_outside st))\<rparr>"

definition run_collection ::
    "'x command \<Rightarrow> run_input \<Rightarrow> run_options \<Rightarrow> 'x \<Rightarrow> ((send_error + run_report) \<times> 'x) option" where
  "run_collection cmd input opts x =
     map_option (\<lambda>(report, st).
         (case cs_thrown st of None \<Rightarrow> Inr report | Some e \<Rightarrow> Inl e, cs_outside st))
       (run_requests (cli_world cmd input)
         (map (\<lambda>d. \<lparr>rq_id = rd_id d, rq_name = rd_name d\<rparr>) (cli_docs cmd input)) opts (cli_start input x))"

section \<open>The vault's contract\<close>

definition cli_vault :: "run_input \<Rightarrow> 'x cli_state \<Rightarrow> string \<Rightarrow> string option" where
  "cli_vault input st i =
     (case om_get (cs_plaintext st) i of Some p \<Rightarrow> Some p | None \<Rightarrow> Option.bind (ri_vault input) (\<lambda>file. file i))"

lemma cli_vault_update [simp]:
  "cli_vault input (st\<lparr>cs_environment := e\<rparr>) = cli_vault input st" "cli_vault input (st\<lparr>cs_globals := g\<rparr>) = cli_vault input st"
  "cli_vault input (st\<lparr>cs_collection := c\<rparr>) = cli_vault input st" "cli_vault input (st\<lparr>cs_outside := x\<rparr>) = cli_vault input st"
  by (simp_all add: cli_vault_def fun_eq_iff)

lemma cli_vault_set: "cli_vault input (st\<lparr>cs_plaintext := om_set i v (cs_plaintext st)\<rparr>) = (cli_vault input st)(i \<mapsto> v)"
  by (auto simp: cli_vault_def om_get_set fun_eq_iff)

lemma cli_read_vault: "fst (cli_read (ri_vault input) i st) = cli_vault input st i"
  "cli_vault input (snd (cli_read (ri_vault input) i st)) = cli_vault input st"
proof -
  show "fst (cli_read (ri_vault input) i st) = cli_vault input st i"
    by (auto simp: cli_read_def cli_vault_def split: option.split)
  have "cli_vault input st i = Some p \<Longrightarrow> (cli_vault input st)(i \<mapsto> p) = cli_vault input st" for p by auto
  then show "cli_vault input (snd (cli_read (ri_vault input) i st)) = cli_vault input st"
    by (auto simp: cli_read_def cli_vault_set cli_vault_def [of input st i] split: option.split)
qed

interpretation run_vault: vault_ports "cli_ports cmd input" "Some cli_collection" "cli_vault input"
proof
  fix i and w :: "'a cli_state" and v
  show "fst (xp_read_secret (cli_ports cmd input) i w) = cli_vault input w i"
    "cli_vault input (snd (xp_read_secret (cli_ports cmd input) i w)) = cli_vault input w"
    by (simp_all add: cli_ports_def cli_read_vault)
  obtain r w' where read: "cli_read (ri_vault input) i w = (r, w')" by fastforce
  then have "r = cli_vault input w i" "cli_vault input w' = cli_vault input w"
    using cli_read_vault [of input i w] by simp_all
  then show "fst (xp_replace_secret (cli_ports cmd input) i v w) \<longleftrightarrow> cli_vault input w i \<noteq> None"
    "cli_vault input (snd (xp_replace_secret (cli_ports cmd input) i v w)) =
       (if cli_vault input w i = None then cli_vault input w else (cli_vault input w)(i \<mapsto> v))"
    by (auto simp: cli_ports_def cli_replace_def read cli_vault_set split: option.split)
qed (auto simp: cli_ports_def cli_collection_def)

section \<open>A declined send\<close>

definition plain_row :: "string \<Rightarrow> string \<Rightarrow> row" where
  "plain_row k v = \<lparr>row_key = k, row_value = v, row_enabled = True, row_json = False\<rparr>"

text \<open>An engine whose every script copies a variable's reference to a secret to another variable.\<close>

definition copying_script :: script_result where
  "copying_script =
     \<lparr>sr_logs = [],
      sr_changes = empty_changes\<lparr>chg_environment :=
        [\<lparr>vc_key = ''copy'', vc_value = Some ''{{$secret.7}}'', vc_json = False, vc_keep_secret = False, vc_off = False\<rparr>]\<rparr>,
      sr_tests = [], sr_error = None, sr_request = None, sr_next = None, sr_skip = False\<rparr>"

definition example_web :: web where
  "example_web = \<lparr>wb_parse = (\<lambda>_. None), wb_join = (\<lambda>_ _. None), wb_decoder = (\<lambda>_ _ _. BadLabel),
     wb_name_le = (\<lambda>_ _. True), wb_read_form = (\<lambda>_. [])\<rparr>"

definition example_command :: "nat command" where
  "example_command =
     \<lparr>cm_script = (\<lambda>_ _ _ _ st. (Inr copying_script, st)), cm_fetch = (\<lambda>_ _ x. (Inl ''offline'', x)),
      cm_web = example_web,
      cm_platform = (\<lambda>_. \<lparr>pf_url = (\<lambda>_. None), pf_sha = (\<lambda>_. []), pf_mac = (\<lambda>_ _. []), pf_has_crypto = True, pf_time = []\<rparr>),
      cm_fresh = (\<lambda>_ _ _ _. []), cm_date = (\<lambda>_. 0), cm_clock = (\<lambda>_. 0), cm_wait = Suc, cm_told = (\<lambda>_ x. x),
      cm_aborted = (\<lambda>_. False)\<rparr>"

definition example_source :: collection_tree where
  "example_source =
     \<lparr>tree_collection = \<lparr>col_id = ''c'', col_meta = \<lparr>meta_id = ''c'', meta_created_at = 0, meta_updated_at = 0\<rparr>, col_name = ''C'',
        col_description = None, col_order = 0, col_variables = [], col_auth = NoAuth,
        col_scripts = \<lparr>script_pre = [], script_post = []\<rparr>, col_route = None,
        col_script_trust = \<lparr>trusted = True, approved = None\<rparr>\<rparr>,
      tree_folders = [], tree_requests = []\<rparr>"

definition example_input :: run_input where
  "example_input =
     \<lparr>ri_source = example_source,
      ri_environment = Some (''Local'', [plain_row ''token'' ''{{$secret.7}}'', plain_row ''copy'' ''old'']),
      ri_globals = [], ri_vault = Some (\<lambda>i. if i = ''7'' then Some ''s3cr3t'' else None), ri_allow_scripts = True, ri_timeout = 0\<rparr>"

definition declining_spec :: "nat cli_state spec" where
  "declining_spec =
     \<lparr>xs_pre_script = ''copy the token'', xs_post_script = [], xs_tests = [], xs_run_scripts = True,
      xs_template = empty_request, xs_build = (\<lambda>_ st. (Inl (SendDeclined ''no''), st)), xs_retry = None, xs_info = None,
      xs_collection = Some cli_collection, xs_inherited = [], xs_folder_variables = (\<lambda>_. []), xs_route = Some Direct,
      xs_ask = None, xs_events = False, xs_iteration = None\<rparr>"


lemma secrets_put_back_witness:
  "cli_vault example_input (restore_secrets (cli_ports example_command example_input)
     (ap_replaced (apply_changes (cli_ports example_command example_input) (Some cli_collection)
        (empty_changes\<lparr>chg_environment := [\<lparr>vc_key = ''token'', vc_value = Some ''new'', vc_json = False, vc_keep_secret = False, vc_off = False\<rparr>]\<rparr>)
        [] None (cli_start example_input 0)))
     (ap_world (apply_changes (cli_ports example_command example_input) (Some cli_collection)
        (empty_changes\<lparr>chg_environment := [\<lparr>vc_key = ''token'', vc_value = Some ''new'', vc_json = False, vc_keep_secret = False, vc_off = False\<rparr>]\<rparr>)
        [] None (cli_start example_input 0)))) =
   cli_vault example_input (cli_start example_input (0 :: nat))"
  by (rule secrets_put_back [where vault = "cli_vault example_input"]) (rule run_vault.vault_ports_axioms)

section \<open>Witnesses\<close>

text \<open>A send that goes out with the secret in a header, and is answered with it.\<close>

definition sent_request :: built_request where
  "sent_request =
     \<lparr>br_method = ''GET'', br_url = ''https://a.example/?t=s3cr3t'', br_headers = [(''X-Trace'', ''s3cr3t'')], br_body = None,
      br_secrets = [''s3cr3t''], br_vaulted = [(''token'', Some Environment)], br_credentials = []\<rparr>"

definition echoing_answer :: answer where
  "echoing_answer =
     \<lparr>an_status = 200, an_status_text = ''OK'', an_headers = [(''X-Echo'', ''s3cr3t'')], an_body = Buffer [], an_redirected = False,
      an_final_url = ''https://a.example/?t=s3cr3t'', an_route = RouteDirect, an_decoded_size = 0, an_stream = None,
      an_redirects = None, an_timings = None, an_insecure = False\<rparr>"

definition sending_spec :: "nat cli_state spec" where
  "sending_spec = declining_spec\<lparr>xs_run_scripts := False, xs_build := (\<lambda>_ st. (Inr sent_request, st))\<rparr>"

definition answered_command :: "nat command" where
  "answered_command = example_command\<lparr>cm_fetch := (\<lambda>_ _ x. (Inr (Inr echoing_answer), Suc x)), cm_clock := of_nat\<rparr>"

definition sent_result :: "(exchange_error + exchange_result) \<times> nat cli_state" where
  "sent_result = exchange example_web (cli_ports answered_command example_input) sending_spec (cli_start example_input 0)"

lemma sent_result_Inr: "\<exists>r st. sent_result = (Inr r, st)"
proof -
  have "\<not> held_back (outgoing_of sent_request)" by code_simp
  moreover have "xs_run_scripts sending_spec = False" "xs_build sending_spec = (\<lambda>_ st. (Inr sent_request, st))"
    "xs_retry sending_spec = None" by (simp_all add: sending_spec_def declining_spec_def)
  ultimately show ?thesis
    by (simp add: sent_result_def exchange_def after_scripts_def send_built_def send_twice_def transmit_def again_for_def
        after_send_def answered_command_def cli_ports_def Let_def split: option.split)
qed


lemma record_is_accepted_witness:
  "\<exists>r st. sent_result = (Inr r, st) \<and> record_problems (Some (record_json (ex_record r))) ''record'' = []"
proof -
  obtain r st where r: "sent_result = (Inr r, st)" using sent_result_Inr by blast
  have "record_problems (Some (record_json (ex_record r))) ''record'' = []"
    by (rule record_is_accepted [OF r [unfolded sent_result_def]])
      (auto simp: ticks_def cli_ports_def answered_command_def sending_spec_def declining_spec_def echoing_answer_def)
  with r show ?thesis by blast
qed


lemma refusals_are_outcomes_witness:
  "out_end (fst (projr (run_outcome_of (Inl (NotSent (SendDeclined ''no''))) ''moved''))) = Some ''moved'' \<and>
   \<not> out_skipped (fst (projr (run_outcome_of (Inl (NotSent (SendDeclined ''no''))) ''moved'')))"
proof -
  let ?out = "no_outcome\<lparr>out_error := Some ''no'', out_end := Some ''moved''\<rparr>"
  have "run_outcome_of (Inl (NotSent (SendDeclined ''no''))) ''moved'' = Inr (?out, None)" by code_simp
  with refusals_are_outcomes(2) [OF this] show ?thesis by simp
qed

text \<open>A script that sets the protected variable and a plain one: only the plain one is left to be stored.\<close>

lemma protected_value_not_stored_witness:
  "protected_reference [plain_row ''token'' ''{{$secret.7}}'', plain_row ''copy'' ''old''] ''copy'' = None \<and>
   plain_row ''token'' ''{{$secret.7}}'' \<in> set (apply_variable_change
     (kept_change None \<lparr>vc_key = ''copy'', vc_value = Some ''x'', vc_json = False, vc_keep_secret = False, vc_off = False\<rparr>)
     [plain_row ''token'' ''{{$secret.7}}'', plain_row ''copy'' ''old''])"
proof -
  let ?rows = "[plain_row ''token'' ''{{$secret.7}}'', plain_row ''copy'' ''old'']"
  let ?set = "\<lambda>k. \<lparr>vc_key = k, vc_value = Some ''x'', vc_json = False, vc_keep_secret = False, vc_off = False\<rparr>"
  have "vs_rest (into_vault (cli_ports example_command example_input) ''pm.environment'' ?rows
      [?set ''token'', ?set ''copy''] [] [] (cli_start example_input 0)) = [?set ''copy'']" by code_simp
  then have "?set ''copy'' \<in> set (vs_rest (into_vault (cli_ports example_command example_input) ''pm.environment'' ?rows
      [?set ''token'', ?set ''copy''] [] [] (cli_start example_input 0)))" by simp
  from protected_value_not_stored [OF this, where v = "''x''" and now = ?rows and secrets = None]
  have "protected_reference ?rows ''copy'' = None"
    "{r \<in> set ?rows. is_secret_reference (row_value r)} \<subseteq> set (apply_variable_change (kept_change None (?set ''copy'')) ?rows)"
    by simp_all
  moreover have "is_secret_reference (row_value (plain_row ''token'' ''{{$secret.7}}''))" by code_simp
  ultimately show ?thesis by auto
qed

lemma script_values_stored_masked_witness:
  "apply_changes ((cli_ports example_command example_input)\<lparr>
       xp_change_environment := (\<lambda>cs st. if list_all (stored_well [''s3cr3t'']) cs
          then xp_change_environment (cli_ports example_command example_input) cs st else cli_start example_input 1),
       xp_change_globals := xp_change_globals (cli_ports example_command example_input)\<rparr>)
     (Some cli_collection) (sr_changes copying_script) [] (Some (new_redactor [''s3cr3t''])) (cli_start example_input 0) =
   apply_changes (cli_ports example_command example_input)
     (Some cli_collection) (sr_changes copying_script) [] (Some (new_redactor [''s3cr3t''])) (cli_start example_input 0)"
  unfolding cli_collection_def by (rule script_values_stored_masked) simp_all

end
