(* ===== verification/Spec2Isabelle.thy ===== *)
theory Spec2Isabelle
  imports Complex_Main PostmanTrip Report WorkspaceFile EnvironmentsFile Har Receive CurlRoundTrip CollectionOwn WorkspaceSteps VaultMoves ShareLink History Environments Runner DataFile Wire SigV4 OAuth Assertions Cookies Sse Bridge BrowserLimits CommandLine
begin

text \<open>
  Wayfarer is an API client that runs in the browser: requests with \<open>{{variables}}\<close> and vault
  secrets, kept in collections, sent from the page or through a Local Bridge, with scripts and assertions around each
  send, and collections run one request after the other, also from the command line. This development
  models the core they share, \<open>packages/core/src\<close>, and the run of \<open>packages/cli/src/run.ts\<close>.

  How the parts interact. A request as composed (\<open>Model\<close>) goes through the pre-request scripts of its
  collection, its folders and itself (\<open>RequestView\<close>, \<open>ScriptChanges\<close>), is built (\<open>Build\<close>: the \<open>Resolver\<close> replaces
  variables and records every secret it used, \<open>Auth\<close>, \<open>OAuth\<close> and \<open>SigV4\<close> add credentials), is checked for
  secrets' placeholders before the wire (\<open>Wire\<close>), goes out by a route (\<open>BrowserLimits\<close>, \<open>Bridge\<close>, with the jar of
  \<open>Cookies\<close>), and its answer (\<open>Bodies\<close>, \<open>Sse\<close>) is shaped (\<open>Shapes\<close>), tested (\<open>Assertions\<close>), and kept with every secret
  masked (\<open>Redact\<close>), with a record of what was done (\<open>ExchangeRecord\<close>). \<open>Exchange\<close> is that order; \<open>Runner\<close> repeats it
  over a collection and the rows of a \<open>DataFile\<close>; \<open>CommandLine\<close> gives both what they need.

  Theories, and the source files they model:

  \<^item> \<open>Prelude\<close>: characters, strings, association lists as the language's \<open>Map\<close>, stable sorting, actions that may throw; the
    locale \<open>keyed_store\<close> of what is read back after a set, and orders. \<open>Encoding\<close>: UTF-8, base64, percent encoding. \<open>Forms\<close>: the
    form encoding and its reading. \<open>JsonText\<close> (\<open>safe-json.ts\<close>): JSON as it is read and written. \<open>JsValues\<close> (\<open>http/graphql.ts\<close>): numbers of a
    text. \<open>Platform\<close>: the address that \<open>URL.parse\<close> gives, the order of texts.
  \<^item> \<open>Model\<close> (\<open>model/request.ts\<close>, \<open>model/collection.ts\<close>), \<open>Variables\<close> (\<open>model/variables.ts\<close>).
  \<^item> \<open>Resolver\<close> (\<open>variables/resolver.ts\<close>), \<open>Auth\<close> (\<open>auth/request-auth.ts\<close>), \<open>SigV4\<close> (\<open>auth/sigv4.ts\<close>), \<open>OAuth\<close>
    (\<open>auth/oauth2.ts\<close>), \<open>Redact\<close> (\<open>redact/redactor.ts\<close>), \<open>Wire\<close> (\<open>send/wire.ts\<close>), \<open>Build\<close> (\<open>send/build.ts\<close>).
  \<^item> \<open>Runner\<close> (\<open>run/runner.ts\<close>, \<open>run/words.ts\<close>), \<open>DataFile\<close> (\<open>run/data-file.ts\<close>).
  \<^item> \<open>Assertions\<close> (\<open>send/assertions.ts\<close>, \<open>view/json-path.ts\<close>), \<open>Cookies\<close> (\<open>cookies/jar.ts\<close>), \<open>Sse\<close>
    (\<open>transport/sse.ts\<close>), \<open>Bridge\<close> (\<open>transport/bridge.ts\<close>, \<open>transport/redirect.ts\<close>, the types of
    \<open>transport/transport.ts\<close>), \<open>BrowserLimits\<close> (\<open>browser/browser-limits.ts\<close>, \<open>transport/route.ts\<close>), \<open>Bodies\<close> (the readers of
    \<open>transport/transport.ts\<close>, \<open>http/response-body.ts\<close>).
  \<^item> \<open>ExchangeRecord\<close> (\<open>send/record.ts\<close>), \<open>RequestView\<close> (\<open>scripting/request-view.ts\<close>, \<open>scripting/trust.ts\<close>),
    \<open>ScriptChanges\<close>, \<open>Shapes\<close> and \<open>Exchange\<close> (\<open>send/exchange.ts\<close>, \<open>send/run.ts\<close>), \<open>CommandLine\<close>
    (\<open>packages/cli/src/run.ts\<close>).

  \<^item> \<open>ExportRequest\<close> (\<open>export/request.ts\<close>, \<open>export/copy-note.ts\<close>), \<open>CurlWords\<close> and \<open>CurlCommand\<close> (\<open>export/curl.ts\<close>,
    \<open>import/curl.ts\<close>, \<open>import/curl-command.ts\<close>), \<open>CurlRoundTrip\<close>: a request as an export carries it, written as a curl command and read from one.
  \<^item> \<open>ObjectStore\<close>, \<open>Workspace\<close> (\<open>src/app/data\<close>: the repositories of collections, folders and requests, \<open>removed.ts\<close>,
    \<open>request-files.ts\<close>), \<open>WorkspaceUndo\<close>, \<open>WorkspaceInvariant\<close>, \<open>WorkspaceSteps\<close>: the tree of collections as the app
    stores it, each operation one transaction, and what holds of it after any of them.

  \<^item> \<open>VaultCrypto\<close> (\<open>vault/vault-crypto.ts\<close>), \<open>SecretsVault\<close> (\<open>src/app/services/secrets-vault.ts\<close>,
    \<open>src/app/data/secrets-repository.ts\<close>), \<open>VaultTabs\<close>: the vault over the tabs of a browser; \<open>VaultMoves\<close>: a vault file taken to another.

  \<^item> \<open>ShareLink\<close> (\<open>share/link.ts\<close>), \<open>History\<close> (\<open>src/app/data/history-repository.ts\<close>), \<open>Environments\<close>
    (\<open>src/app/data/environments-repository.ts\<close>).

  State and operations. An object of the source is a record, a method a function that returns it changed; a class that keeps
  state over calls (the resolver's sets, the event parser, the jar, a body's reader, a run) is a state that is passed on. What
  is awaited or comes from outside is a parameter that changes a world \<open>'w\<close>: the script engine, the transport, the stores, the
  vault and the clock of an exchange are the fields of \<open>ports\<close>, as \<open>ExchangePorts\<close> has them. A throw is \<open>Inl\<close>. A table is an
  association list in the order of its keys. Integers that can grow past a double are not used by the source; byte counts and
  times are natural numbers and rationals, and bytes are 8-bit words.

  What the lemmas show. Of secrets: a secret's plaintext is used as it is and recorded, no recorded secret survives masking in
  any form it takes, none goes to a host the user was not asked about, no placeholder reaches the wire, no history keeps one,
  and a script's value for a protected variable goes to the vault alone and can be put back. Of sends: redirects are bounded and
  carry no login to another origin, a request is repeated only when that is safe, a cookie stays on its site, a body is read
  whole within its bound. Of runs: order, ending and what each result says; a run may not end, so it is a partial function. Of formats:
  JSON, CSV, event streams, records, signed requests and curl commands are read as they are written. Of the tree of collections:
  whatever operations run, nothing is left outside a collection or its folder and no file is kept unused, and
  Undo gives back exactly what was. Of the vault: the unlocked tabs hold one key that opens every stored secret, a change of the
  passphrase changes no secret, and a vault file is imported whole, with every secret, or not at all. Of links: the file comes back.
  Of history: the newest are kept, and the list in memory does what the store does. The interfaces are locales: \<open>keyed_store\<close> and the orders in \<open>Prelude\<close>, \<open>object_store\<close> in
  \<open>ObjectStore\<close>, what the repositories rely on of a store, and \<open>vault_ports\<close> in \<open>ScriptChanges\<close>, what a vault promises a send,
  which \<open>CommandLine\<close> interprets for the vault of a run.

  Bounds and fuel. The source's own bounds are the model's: \<open>MAX_VARIABLE_DEPTH\<close> (10), \<open>MAX_REDIRECTS\<close> (20), \<open>MAX_COOKIES\<close>
  (1000), \<open>STREAM_BODY_BYTES\<close> and \<open>HISTORY_BODY_LIMIT\<close> (1 MB), \<open>DISPLAY_CAP_BYTES\<close> (50 MB). The JSON reader has the text's length plus one as
  fuel, of which every call uses at least a character; every other loop is structural or has a measure, but for the run,
  which \<open>setNextRequest\<close> can send round for ever (\<open>partial_function\<close>: \<open>None\<close> is a run that does not end).

  Range of the model. A string is a list of characters below 256, one for each UTF-16 unit; what the app writes with
  other characters (a dash, an arrow) is given by a constant. JSON's numbers are the decimals they are written as, not rounded to doubles. Two
  things awaited at once are done in order.

  Not modelled. Parameters of the model, since they are no code of the repository: \<open>URL.parse\<close>, \<open>Date.parse\<close>, \<open>localeCompare\<close>,
  \<open>TextDecoder\<close>, \<open>URLSearchParams\<close> where a form's bytes may be no text, WebCrypto, random numbers, the clock, \<open>fetch\<close> and the
  script engine. Left for later: the other importers and exporters (translations of foreign formats; YAML is a
  third-party parser), the run's reports, the stores of tabs and cookies. Left out: the script sandbox (a
  JavaScript engine in a worker, its bootstrap a text), the timers of a deadline, the Angular application's components, the opening of IndexedDB and its messages
  between tabs, the bridge's server (JavaScript, not TypeScript), the reading of the command line's arguments, the documentation site.
\<close>

end
